(* ===== verification/Prelude.thy ===== *)
theory Prelude
  imports Main "HOL-Library.Word"
begin

text \<open>
  Prelude of the gdut-net development: the machine integer types of the Rust code, the string
  and byte helpers of the Rust standard library that the sources use, and the generic lemmas the
  component theories share.

  Conventions. A Rust \<open>str\<close> is the list of its UTF-8 bytes, an Isabelle \<open>string\<close>; a byte buffer
  is an \<open>8 word list\<close>. \<open>u8\<close>, \<open>u16\<close>, \<open>u32\<close> and \<open>u64\<close> are words of that width: the release profile
  does not enable overflow checks, so \<open>+\<close> and \<open>-\<close> wrap. A \<open>Duration\<close> is its number of
  nanoseconds.
\<close>

type_synonym u8 = "8 word"
type_synonym u16 = "16 word"
type_synonym u32 = "32 word"
type_synonym u64 = "64 word"

named_theorems wf_intros \<open>introduction rules for the well-formedness invariants\<close>
named_theorems step_simps \<open>unfolding rules of the step functions\<close>

section \<open>Saturating arithmetic\<close>

definition sat_sub :: "'a::len word \<Rightarrow> 'a word \<Rightarrow> 'a word" where
  "sat_sub a b = (if b \<le> a then a - b else 0)"

definition sat_add :: "'a::len word \<Rightarrow> 'a word \<Rightarrow> 'a word" where
  "sat_add a b = (if unat a + unat b < 2 ^ LENGTH('a) then a + b else - 1)"

lemma sat_sub_le: "sat_sub a b \<le> a"
  by (auto simp: sat_sub_def word_sub_le)

lemma unat_sat_sub: "unat (sat_sub a b) = unat a - unat b"
  by (auto simp: sat_sub_def unat_sub word_le_nat_alt)

lemma unat_sat_add:
  "unat (sat_add (a::'a::len word) b) = min (unat a + unat b) (2 ^ LENGTH('a) - 1)"
proof (cases "unat a + unat b < 2 ^ LENGTH('a)")
  case True
  then show ?thesis by (simp add: sat_add_def unat_word_ariths)
next
  case False
  then show ?thesis by (simp add: sat_add_def unsigned_minus_1_eq_mask mask_eq_exp_minus_1)
qed

lemma sat_add_ge: "a \<le> sat_add a b"
proof -
  have "unat a < 2 ^ LENGTH('a)" by simp
  then have "unat a \<le> 2 ^ LENGTH('a) - 1" by linarith
  then show ?thesis by (simp add: word_le_nat_alt unat_sat_add)
qed

lemma word_plus_le_bound:
  fixes a b :: "'a::len word"
  assumes "a \<le> b" shows "unat (b - a) = unat b - unat a"
  using assms by (simp add: unat_sub)

section \<open>Durations\<close>

type_synonym duration = nat

definition from_secs :: "nat \<Rightarrow> duration" where
  "from_secs s = s * 1000000000"

definition duration_max :: duration where
  "duration_max = (2 ^ 64 - 1) * 1000000000 + 999999999"

definition as_millis :: "duration \<Rightarrow> nat" where
  "as_millis d = d div 1000000"

definition as_secs :: "duration \<Rightarrow> nat" where
  "as_secs d = d div 1000000000"

lemma as_secs_from_secs [simp]: "as_secs (from_secs s) = s"
  by (simp add: as_secs_def from_secs_def)

lemma from_secs_mono [simp]: "from_secs a \<le> from_secs b \<longleftrightarrow> a \<le> b"
  by (simp add: from_secs_def)

section \<open>Decimal numbers\<close>

definition digit :: "nat \<Rightarrow> char" where
  "digit n = char_of (48 + n)"

text \<open>\<open>Display\<close> of an unsigned integer.\<close>

fun dec :: "nat \<Rightarrow> string" where
  "dec n = (if n < 10 then [digit n] else dec (n div 10) @ [digit (n mod 10)])"

declare dec.simps [simp del]

text \<open>The format \<open>{:02}\<close>.\<close>

definition dec2 :: "nat \<Rightarrow> string" where
  "dec2 n = (if n < 10 then CHR ''0'' # dec n else dec n)"

definition is_digit :: "char \<Rightarrow> bool" where
  "is_digit c \<longleftrightarrow> 48 \<le> (of_char c :: nat) \<and> (of_char c :: nat) \<le> 57"

definition digit_val :: "char \<Rightarrow> nat" where
  "digit_val c = of_char c - 48"

definition digits_val :: "string \<Rightarrow> nat" where
  "digits_val s = foldl (\<lambda>acc c. 10 * acc + digit_val c) 0 s"

text \<open>
  \<open>str::parse\<close> of an unsigned integer type with largest value \<open>bound\<close>: one optional plus sign,
  then at least one digit and nothing else; a value out of range is an error.
\<close>

definition parse_uint :: "nat \<Rightarrow> string \<Rightarrow> nat option" where
  "parse_uint bound s =
     (let ds = (case s of [] \<Rightarrow> [] | c # cs \<Rightarrow> (if c = CHR ''+'' then cs else s))
      in if ds \<noteq> [] \<and> list_all is_digit ds \<and> digits_val ds \<le> bound
         then Some (digits_val ds) else None)"

lemma of_char_digit: "n < 10 \<Longrightarrow> of_char (digit n) = 48 + n"
  by (simp add: digit_def)

lemma is_digit_digit [simp]: "n < 10 \<Longrightarrow> is_digit (digit n)"
  by (simp add: is_digit_def of_char_digit)

lemma digit_val_digit [simp]: "n < 10 \<Longrightarrow> digit_val (digit n) = n"
  by (simp add: digit_val_def of_char_digit)

lemma dec_nonempty [simp]: "dec n \<noteq> []"
  by (subst dec.simps) simp

lemma dec_all_digits: "list_all is_digit (dec n)"
proof (induction n rule: dec.induct)
  case (1 n)
  then show ?case by (subst dec.simps) simp
qed

lemma digits_val_snoc [simp]: "digits_val (s @ [c]) = 10 * digits_val s + digit_val c"
  by (simp add: digits_val_def)

lemma digits_val_dec [simp]: "digits_val (dec n) = n"
proof (induction n rule: dec.induct)
  case (1 n)
  show ?case
  proof (cases "n < 10")
    case True
    then show ?thesis by (subst dec.simps) (simp add: digits_val_def)
  next
    case False
    with 1 show ?thesis by (subst dec.simps) simp
  qed
qed

lemma dec_inj: "dec a = dec b \<Longrightarrow> a = b"
  by (metis digits_val_dec)

lemma plus_not_digit: "is_digit c \<Longrightarrow> c \<noteq> CHR ''+''"
  by (auto simp: is_digit_def)

lemma parse_uint_dec: "n \<le> bound \<Longrightarrow> parse_uint bound (dec n) = Some n"
proof -
  assume le: "n \<le> bound"
  obtain c cs where c: "dec n = c # cs" by (cases "dec n") auto
  with dec_all_digits [of n] have "c \<noteq> CHR ''+''" by (simp add: plus_not_digit)
  with c have "(case dec n of [] \<Rightarrow> [] | c # cs \<Rightarrow> if c = CHR ''+'' then cs else dec n) = dec n"
    by simp
  with le show ?thesis by (simp add: parse_uint_def dec_all_digits)
qed

section \<open>String operations\<close>

definition strip_prefix :: "string \<Rightarrow> string \<Rightarrow> string option" where
  "strip_prefix p s = (if take (length p) s = p then Some (drop (length p) s) else None)"

definition strip_suffix :: "string \<Rightarrow> string \<Rightarrow> string option" where
  "strip_suffix p s = map_option rev (strip_prefix (rev p) (rev s))"

fun split_once :: "char \<Rightarrow> string \<Rightarrow> (string \<times> string) option" where
  "split_once c [] = None"
| "split_once c (x # xs) =
     (if x = c then Some ([], xs) else map_option (\<lambda>(a, b). (x # a, b)) (split_once c xs))"

definition rsplit_once :: "char \<Rightarrow> string \<Rightarrow> (string \<times> string) option" where
  "rsplit_once c s = map_option (\<lambda>(a, b). (rev b, rev a)) (split_once c (rev s))"

fun contains :: "string \<Rightarrow> string \<Rightarrow> bool" where
  "contains [] k \<longleftrightarrow> k = []"
| "contains (x # xs) k \<longleftrightarrow> take (length k) (x # xs) = k \<or> contains xs k"

definition ascii_lower :: "char \<Rightarrow> char" where
  "ascii_lower c = (let n = (of_char c :: nat) in if 65 \<le> n \<and> n \<le> 90 then char_of (n + 32) else c)"

definition to_ascii_lowercase :: "string \<Rightarrow> string" where
  "to_ascii_lowercase s = map ascii_lower s"

lemma strip_prefix_append [simp]: "strip_prefix p (p @ s) = Some s"
  by (simp add: strip_prefix_def)

lemma strip_prefix_Some: "strip_prefix p s = Some r \<longleftrightarrow> s = p @ r"
  by (auto simp: strip_prefix_def) (metis append_take_drop_id)

lemma strip_suffix_Some: "strip_suffix p s = Some r \<longleftrightarrow> s = r @ p"
  by (auto simp: strip_suffix_def strip_prefix_Some) (metis rev_append rev_rev_ident)+

lemma split_once_Some: "split_once c s = Some (a, b) \<longleftrightarrow> s = a @ c # b \<and> c \<notin> set a"
proof (induction s arbitrary: a)
  case Nil
  then show ?case by simp
next
  case (Cons x xs)
  then show ?case by (cases a) auto
qed

lemma split_once_None: "split_once c s = None \<longleftrightarrow> c \<notin> set s"
  by (induction s) auto

lemma rsplit_once_Some: "rsplit_once c s = Some (a, b) \<longleftrightarrow> s = a @ c # b \<and> c \<notin> set b"
proof -
  have "rsplit_once c s = Some (a, b) \<longleftrightarrow> split_once c (rev s) = Some (rev b, rev a)"
    by (auto simp: rsplit_once_def)
  also have "\<dots> \<longleftrightarrow> rev s = rev b @ c # rev a \<and> c \<notin> set b"
    by (simp add: split_once_Some)
  also have "\<dots> \<longleftrightarrow> s = a @ c # b \<and> c \<notin> set b"
    by (metis append.assoc append_Cons append_Nil rev.simps(2) rev_append rev_rev_ident)
  finally show ?thesis .
qed

lemma rsplit_once_None: "rsplit_once c s = None \<longleftrightarrow> c \<notin> set s"
  by (simp add: rsplit_once_def split_once_None)

lemma contains_Nil [simp]: "contains s []"
  by (cases s) auto

lemma contains_append: "contains (a @ k @ b) k"
proof (induction a)
  case Nil
  then show ?case by (cases "k @ b") (auto simp: append_eq_Cons_conv)
qed simp

text \<open>
  \<open>str::trim\<close> drops characters with the Unicode property White\_Space from both ends; on UTF-8
  bytes these characters are the following one, two and three byte sequences.
\<close>

definition is_ws :: "string \<Rightarrow> bool" where
  "is_ws s \<longleftrightarrow> (map of_char s :: nat list) \<in> set
     ([[9], [10], [11], [12], [13], [32], [194, 133], [194, 160], [225, 154, 128]]
      @ map (\<lambda>n. [226, 128, n]) ([128..<139] @ [168, 169, 175])
      @ [[226, 129, 159], [227, 128, 128]])"

definition ws_len :: "string \<Rightarrow> nat" where
  "ws_len s = (if is_ws (take 1 s) then 1 else if is_ws (take 2 s) then 2
               else if is_ws (take 3 s) then 3 else 0)"

definition ws_len_end :: "string \<Rightarrow> nat" where
  "ws_len_end s = (let r = rev s in
     if is_ws (rev (take 1 r)) then 1 else if is_ws (rev (take 2 r)) then 2
     else if is_ws (rev (take 3 r)) then 3 else 0)"

function trim_start :: "string \<Rightarrow> string" where
  "trim_start s = (if s = [] \<or> ws_len s = 0 then s else trim_start (drop (ws_len s) s))"
  by pat_completeness auto
termination by (relation "measure length") auto

function trim_end :: "string \<Rightarrow> string" where
  "trim_end s =
     (if s = [] \<or> ws_len_end s = 0 then s else trim_end (take (length s - ws_len_end s) s))"
  by pat_completeness auto
termination by (relation "measure length") auto

declare trim_start.simps [simp del] trim_end.simps [simp del]

definition trim :: "string \<Rightarrow> string" where
  "trim s = trim_end (trim_start s)"

text \<open>\<open>str::split_ascii_whitespace\<close>: the non-empty runs between ASCII whitespace bytes.\<close>

definition is_ascii_ws :: "char \<Rightarrow> bool" where
  "is_ascii_ws c \<longleftrightarrow> (of_char c :: nat) \<in> {9, 10, 12, 13, 32}"

fun ascii_words :: "string \<Rightarrow> string \<Rightarrow> string list" where
  "ascii_words cur [] = (if cur = [] then [] else [cur])"
| "ascii_words cur (c # cs) =
     (if is_ascii_ws c then (if cur = [] then ascii_words [] cs else cur # ascii_words [] cs)
      else ascii_words (cur @ [c]) cs)"

definition split_ascii_whitespace :: "string \<Rightarrow> string list" where
  "split_ascii_whitespace s = ascii_words [] s"

text \<open>\<open>split\<close> and \<open>split_once\<close> at a non-empty separator string.\<close>

fun split_once_str :: "string \<Rightarrow> string \<Rightarrow> (string \<times> string) option" where
  "split_once_str k [] = None"
| "split_once_str k (x # xs) =
     (if take (length k) (x # xs) = k then Some ([], drop (length k) (x # xs))
      else map_option (\<lambda>(a, b). (x # a, b)) (split_once_str k xs))"

lemma split_once_str_Some: "split_once_str k s = Some (a, b) \<Longrightarrow> s = a @ k @ b"
  by (induction s arbitrary: a) (auto split: if_splits, metis append_take_drop_id)

function split_str :: "string \<Rightarrow> string \<Rightarrow> string list" where
  "split_str k s =
     (if k = [] then [s]
      else (case split_once_str k s of None \<Rightarrow> [s] | Some (a, b) \<Rightarrow> a # split_str k b))"
  by pat_completeness auto
termination
  by (relation "measure (\<lambda>(k, s). length s)") (auto dest: split_once_str_Some)

declare split_str.simps [simp del]

text \<open>\<open>split\<close> at a character.\<close>

fun split_char :: "char \<Rightarrow> string \<Rightarrow> string list" where
  "split_char c [] = [[]]"
| "split_char c (x # xs) =
     (if x = c then [] # split_char c xs
      else (case split_char c xs of [] \<Rightarrow> [[x]] | p # ps \<Rightarrow> (x # p) # ps))"

lemma split_char_neq_Nil [simp]: "split_char c s \<noteq> []"
  by (cases s) (auto split: list.splits)

lemma split_char_single: "c \<notin> set s \<Longrightarrow> split_char c s = [s]"
  by (induction s) auto

lemma split_char_Cons: "c \<notin> set a \<Longrightarrow> split_char c (a @ c # b) = a # split_char c b"
  by (induction a) auto

section \<open>IPv4 addresses\<close>

text \<open>\<open>std::net::Ipv4Addr\<close>: its \<open>Display\<close> and its strict dotted-decimal parser.\<close>

datatype ipv4 = Ipv4 u8 u8 u8 u8

fun show_ipv4 :: "ipv4 \<Rightarrow> string" where
  "show_ipv4 (Ipv4 a b c d) =
     dec (unat a) @ ''.'' @ dec (unat b) @ ''.'' @ dec (unat c) @ ''.'' @ dec (unat d)"

definition parse_octet :: "string \<Rightarrow> u8 option" where
  "parse_octet s =
     (if s \<noteq> [] \<and> length s \<le> 3 \<and> list_all is_digit s \<and> digits_val s \<le> 255
         \<and> (hd s = CHR ''0'' \<longrightarrow> length s = 1)
      then Some (word_of_nat (digits_val s)) else None)"

definition parse_ipv4 :: "string \<Rightarrow> ipv4 option" where
  "parse_ipv4 s =
     (case map parse_octet (split_char CHR ''.'' s) of
        [Some a, Some b, Some c, Some d] \<Rightarrow> Some (Ipv4 a b c d)
      | _ \<Rightarrow> None)"

definition is_unspecified :: "ipv4 \<Rightarrow> bool" where
  "is_unspecified ip \<longleftrightarrow> ip = Ipv4 0 0 0 0"

lemma dec_no_dot [simp]: "CHR ''.'' \<notin> set (dec n)" "CHR '':'' \<notin> set (dec n)" "CHR ''/'' \<notin> set (dec n)"
  using dec_all_digits [of n] by (auto simp: list_all_iff is_digit_def)

lemma dec_small: "n < 10 \<Longrightarrow> dec n = [digit n]"
  by (subst dec.simps) simp

lemma dec_big: "10 \<le> n \<Longrightarrow> dec n = dec (n div 10) @ [digit (n mod 10)]"
  by (subst dec.simps) simp

lemma hd_dec_zero: "hd (dec n) = CHR ''0'' \<Longrightarrow> n = 0"
proof (induction n rule: dec.induct)
  case (1 n)
  show ?case
  proof (cases "n < 10")
    case True
    from "1.prems" True have "digit n = CHR ''0''" by (simp add: dec_small)
    then have "of_char (digit n) = (48::nat)" by (simp only:) simp
    with True show ?thesis by (simp only: of_char_digit)
  next
    case False
    from "1.prems" False have "hd (dec (n div 10)) = CHR ''0''" by (simp add: dec_big)
    from "1.IH" [OF False this] False show ?thesis by simp
  qed
qed

lemma length_dec_255: "n \<le> 255 \<Longrightarrow> length (dec n) \<le> 3"
proof -
  assume "n \<le> 255"
  then have "n < 10 \<or> (10 \<le> n \<and> n div 10 < 10) \<or> (10 \<le> n \<and> 10 \<le> n div 10 \<and> n div 10 div 10 < 10)"
    by auto
  then show ?thesis by (auto simp: dec_small dec_big)
qed

lemma unat_u8_less: "unat (b::u8) < 256"
proof -
  have "unat b < 2 ^ LENGTH(8)" by (rule unsigned_less)
  then show ?thesis by simp
qed

lemma parse_octet_dec [simp]: "parse_octet (dec (unat b)) = Some b"
proof -
  have b: "unat b \<le> 255" using unat_u8_less [of b] by simp
  have "hd (dec (unat b)) = CHR ''0'' \<Longrightarrow> length (dec (unat b)) = 1"
    by (drule hd_dec_zero) (simp add: dec_small)
  with b show ?thesis by (auto simp: parse_octet_def dec_all_digits length_dec_255)
qed

lemma parse_show_ipv4 [simp]: "parse_ipv4 (show_ipv4 ip) = Some ip"
  by (cases ip) (simp add: parse_ipv4_def split_char_Cons split_char_single)

section \<open>Bytes\<close>

primrec le_bytes :: "nat \<Rightarrow> nat \<Rightarrow> u8 list" where
  "le_bytes 0 n = []"
| "le_bytes (Suc k) n = word_of_nat n # le_bytes k (n div 256)"

fun from_le :: "u8 list \<Rightarrow> nat" where
  "from_le [] = 0"
| "from_le (b # bs) = unat b + 256 * from_le bs"

lemma length_le_bytes [simp]: "length (le_bytes k n) = k"
  by (induction k arbitrary: n) auto

lemma from_le_le_bytes: "n < 256 ^ k \<Longrightarrow> from_le (le_bytes k n) = n"
proof (induction k arbitrary: n)
  case 0
  then show ?case by simp
next
  case (Suc k)
  then have "n div 256 < 256 ^ k" by (simp add: less_mult_imp_div_less mult.commute)
  then have "from_le (le_bytes k (n div 256)) = n div 256" by (rule Suc.IH)
  then show ?case by (simp add: unat_of_nat)
qed

lemma from_le_bound: "from_le bs < 256 ^ length bs"
proof (induction bs)
  case Nil
  then show ?case by simp
next
  case (Cons b bs)
  have "unat b < 256" using unsigned_less [of b] by simp
  with Cons show ?case by simp
qed

lemma le_bytes_from_le [simp]: "le_bytes (length bs) (from_le bs) = bs"
proof (induction bs)
  case Nil
  then show ?case by simp
next
  case (Cons b bs)
  have z: "(256::u8) = 0" by simp
  have "word_of_nat (unat b + 256 * from_le bs) = b"
    by (simp add: z)
  moreover have "(unat b + 256 * from_le bs) div 256 = from_le bs"
    using unat_u8_less [of b] by simp
  ultimately show ?case using Cons by simp
qed

lemma le_bytes_from_le_len: "length bs = k \<Longrightarrow> le_bytes k (from_le bs) = bs"
  using le_bytes_from_le [of bs] by simp

section \<open>Lists\<close>

lemma filter_eq_NilI: "(\<And>x. x \<in> set xs \<Longrightarrow> \<not> P x) \<Longrightarrow> filter P xs = []"
  by (induction xs) auto

lemma sum_list_filter_concat:
  "length (filter P (concat xss)) = sum_list (map (\<lambda>xs. length (filter P xs)) xss)"
  by (induction xss) auto

end
