(* ===== verification/Codec.thy ===== *)
theory Codec
  imports Main
begin

text \<open>
  The interface of what is encoded to be read again: values of which the encoding can be decoded. Addresses, form
  parameters, the entropy and the command line of the elevated installer are its providers.
\<close>

locale codec =
  fixes encode :: "'a \<Rightarrow> 'b" and decode :: "'b \<Rightarrow> 'a option" and valid :: "'a \<Rightarrow> bool"
  assumes decode_encode: "valid x \<Longrightarrow> decode (encode x) = Some x"
begin

lemma encode_eq_iff: "valid x \<Longrightarrow> valid y \<Longrightarrow> encode x = encode y \<longleftrightarrow> x = y"
  using decode_encode by (metis option.inject)

lemma encode_distinct: "list_all valid xs \<Longrightarrow> distinct (map encode xs) \<longleftrightarrow> distinct xs"
  by (induction xs) (auto simp: encode_eq_iff list_all_iff)

lemma encoded_is_read: "valid x \<Longrightarrow> decode y \<noteq> Some x \<Longrightarrow> encode x \<noteq> y"
  using decode_encode by blast

end

end
