(* ===== verification/Protocol.thy ===== *)
theory Protocol
  imports Prelude
begin

text \<open>
  \<open>src/src/ipc/protocol.rs\<close>: the status types shared by the service and its clients, the state
  snapshot, the JSON-line framing with its bounded decoder, and the event ring. The JSON text of a
  message comes from serde_json and is a parameter (\<open>to_vec\<close>).
\<close>

section \<open>Status types and the snapshot\<close>

datatype session_status = SIdle | SDialing | SConnected | SBackoff | SAuthFail

datatype heartbeat_status = HbOff | HbRunning | HbError string

datatype net_mode = WiredExclusive | WiredPlusStandby

datatype wphase = WOff | WJoining | WAuthing | WOnline | WError

record wireless_snapshot =
  ws_phase :: wphase
  ws_ip :: "string option"
  ws_last_error :: "string option"

definition wireless_snapshot_default :: wireless_snapshot where
  "wireless_snapshot_default = \<lparr>ws_phase = WOff, ws_ip = None, ws_last_error = None\<rparr>"

record state_snapshot =
  sn_status :: session_status
  sn_since_unix :: "u64 option"
  sn_ip :: "string option"
  sn_last_drop_reason :: "string option"
  sn_redial_attempts :: u32
  sn_heartbeat :: heartbeat_status
  sn_mode :: net_mode
  sn_wireless :: wireless_snapshot
  sn_events :: "string list"

text \<open>Seconds as \<open>HH:MM:SS\<close>; the hours are not capped.\<close>

definition format_uptime :: "u64 \<Rightarrow> string" where
  "format_uptime secs =
     dec (unat secs div 3600) @ '':'' @ dec2 ((unat secs mod 3600) div 60) @ '':''
       @ dec2 (unat secs mod 60)"

definition em_dash :: string where
  "em_dash = map char_of [226::nat, 128, 148]"

definition uptime_text :: "u64 \<Rightarrow> state_snapshot \<Rightarrow> string" where
  "uptime_text now s =
     (case sn_since_unix s of None \<Rightarrow> em_dash | Some t \<Rightarrow> format_uptime (sat_sub now t))"

datatype command = Redial | SetMode net_mode

datatype client_msg = Cmd command

datatype server_msg = State state_snapshot

section \<open>Framing\<close>

definition encode_frame :: "('a \<Rightarrow> u8 list) \<Rightarrow> 'a \<Rightarrow> u8 list" where
  "encode_frame to_vec msg = to_vec msg @ [10]"

definition max_frame_bytes :: nat where
  "max_frame_bytes = 64 * 1024"

datatype frame_error = FrameTooLarge

record frame_decoder =
  fd_buf :: "u8 list"
  fd_rejected :: bool

definition decoder_default :: frame_decoder where
  "decoder_default = \<lparr>fd_buf = [], fd_rejected = False\<rparr>"

text \<open>\<open>slice::split_inclusive\<close>: the pieces that end with the separator, and the last one.\<close>

fun split_inclusive :: "u8 \<Rightarrow> u8 list \<Rightarrow> u8 list list" where
  "split_inclusive c [] = []"
| "split_inclusive c (x # xs) =
     (if x = c then [x] # split_inclusive c xs
      else (case split_inclusive c xs of [] \<Rightarrow> [[x]] | p # ps \<Rightarrow> (x # p) # ps))"

text \<open>The loop of \<open>feed\<close> over the pieces of one chunk.\<close>

fun feed_parts ::
  "u8 list list \<Rightarrow> frame_decoder \<Rightarrow> u8 list list \<Rightarrow> frame_decoder \<times> (frame_error + u8 list list)"
where
  "feed_parts [] d frames = (d, Inr frames)"
| "feed_parts (part # parts) d frames =
     (if length part > max_frame_bytes - length (fd_buf d)
      then (d\<lparr>fd_buf := [], fd_rejected := True\<rparr>, Inl FrameTooLarge)
      else let buf = fd_buf d @ part in
        (if part \<noteq> [] \<and> last part = 10
         then feed_parts parts (d\<lparr>fd_buf := []\<rparr>) (frames @ [buf])
         else feed_parts parts (d\<lparr>fd_buf := buf\<rparr>) frames))"

definition feed ::
  "frame_decoder \<Rightarrow> u8 list \<Rightarrow> frame_decoder \<times> (frame_error + u8 list list)" where
  "feed d chunk =
     (if fd_rejected d then (d, Inl FrameTooLarge)
      else feed_parts (split_inclusive 10 chunk) d [])"

text \<open>A connection feeds the chunks it reads until the first error closes it.\<close>

fun feed_all ::
  "frame_decoder \<Rightarrow> u8 list list \<Rightarrow> frame_decoder \<times> (frame_error + u8 list list)" where
  "feed_all d [] = (d, Inr [])"
| "feed_all d (c # cs) =
     (case feed d c of
        (d', Inl e) \<Rightarrow> (d', Inl e)
      | (d', Inr fs) \<Rightarrow>
          (case feed_all d' cs of
             (d'', Inl e) \<Rightarrow> (d'', Inl e)
           | (d'', Inr gs) \<Rightarrow> (d'', Inr (fs @ gs))))"

section \<open>The event ring\<close>

record event_log =
  el_cap :: nat
  el_ring :: "string list"

definition event_log_new :: event_log where
  "event_log_new = \<lparr>el_cap = 20, el_ring = []\<rparr>"

definition event_line :: "u64 \<Rightarrow> string \<Rightarrow> string" where
  "event_line unix_secs msg =
     (let d = unat unix_secs mod 86400 in
      ''['' @ dec2 (d div 3600) @ '':'' @ dec2 ((d mod 3600) div 60) @ '':'' @ dec2 (d mod 60)
        @ ''] '' @ msg)"

definition event_push :: "event_log \<Rightarrow> u64 \<Rightarrow> string \<Rightarrow> event_log" where
  "event_push l unix_secs msg =
     (let line = event_line unix_secs msg;
          ring = (if length (el_ring l) \<ge> el_cap l then tl (el_ring l) else el_ring l)
      in l\<lparr>el_ring := ring @ [line]\<rparr>)"

section \<open>Framing: what the decoder computes\<close>

text \<open>
  Specification over the byte stream of a connection, one byte at a time and whatever the chunk
  boundaries were: the finished lines, and the unfinished tail.
\<close>

fun scan :: "u8 list \<Rightarrow> u8 list \<Rightarrow> u8 list list \<times> u8 list" where
  "scan cur [] = ([], cur)"
| "scan cur (x # xs) =
     (if x = 10 then (let (fs, t) = scan [] xs in ((cur @ [10]) # fs, t))
      else scan (cur @ [x]) xs)"

fun scan_ok :: "u8 list \<Rightarrow> u8 list \<Rightarrow> bool" where
  "scan_ok cur [] \<longleftrightarrow> length cur \<le> max_frame_bytes"
| "scan_ok cur (x # xs) \<longleftrightarrow>
     (if x = 10 then length cur < max_frame_bytes \<and> scan_ok [] xs else scan_ok (cur @ [x]) xs)"

lemma scan_append:
  "scan cur (a @ b) = (let (f1, c1) = scan cur a; (f2, c2) = scan c1 b in (f1 @ f2, c2))"
  by (induction cur a rule: scan.induct) (auto split: prod.splits)

lemma scan_ok_cur: "scan_ok cur xs \<Longrightarrow> length cur \<le> max_frame_bytes"
  by (induction cur xs rule: scan_ok.induct) (auto split: if_splits)

lemma scan_ok_append:
  "scan_ok cur (a @ b) \<longleftrightarrow> scan_ok cur a \<and> scan_ok (snd (scan cur a)) b"
  by (induction cur a rule: scan.induct) (auto simp: case_prod_beta dest: scan_ok_cur)

lemma scan_ok_iff:
  "scan_ok cur xs \<longleftrightarrow>
     (\<forall>f \<in> set (fst (scan cur xs)). length f \<le> max_frame_bytes)
       \<and> length (snd (scan cur xs)) \<le> max_frame_bytes"
  by (induction cur xs rule: scan.induct) (auto simp: case_prod_beta)

lemma scan_concat: "10 \<notin> set cur \<Longrightarrow> concat (fst (scan cur xs)) @ snd (scan cur xs) = cur @ xs"
  by (induction cur xs rule: scan.induct) (auto simp: case_prod_beta)

lemma scan_frames:
  "10 \<notin> set cur \<Longrightarrow> f \<in> set (fst (scan cur xs)) \<Longrightarrow> \<exists>body. f = body @ [10] \<and> 10 \<notin> set body"
  by (induction cur xs rule: scan.induct) (auto simp: case_prod_beta split: if_splits)

lemma scan_tail: "10 \<notin> set cur \<Longrightarrow> 10 \<notin> set (snd (scan cur xs))"
  by (induction cur xs rule: scan.induct) (auto simp: case_prod_beta split: if_splits)

lemma scan_line: "10 \<notin> set body \<Longrightarrow> scan cur (body @ [10]) = ([cur @ body @ [10]], [])"
  by (induction body arbitrary: cur) auto

lemma split_inclusive_nonempty: "s \<in> set (split_inclusive c bs) \<Longrightarrow> s \<noteq> []"
  by (induction bs arbitrary: s) (auto split: if_splits list.splits)

lemma feed_parts_shift:
  assumes "p \<noteq> []"
  shows "feed_parts ((x # p) # ps) d acc = feed_parts (p # ps) (d\<lparr>fd_buf := fd_buf d @ [x]\<rparr>) acc"
  using assms by (cases p) (auto simp: Let_def)

lemma feed_parts_scan:
  assumes "\<not> fd_rejected d" and "length (fd_buf d) \<le> max_frame_bytes"
  shows "feed_parts (split_inclusive 10 xs) d acc =
    (if scan_ok (fd_buf d) xs
     then (d\<lparr>fd_buf := snd (scan (fd_buf d) xs)\<rparr>, Inr (acc @ fst (scan (fd_buf d) xs)))
     else (d\<lparr>fd_buf := [], fd_rejected := True\<rparr>, Inl FrameTooLarge))"
  using assms
proof (induction xs arbitrary: d acc)
  case Nil
  then show ?case by simp
next
  case (Cons x xs)
  show ?case
  proof (cases "x = 10")
    case True
    then show ?thesis
      using Cons.prems Cons.IH [of "d\<lparr>fd_buf := []\<rparr>" "acc @ [fd_buf d @ [10]]"]
      by (auto simp: case_prod_beta)
  next
    case x: False
    let ?d = "d\<lparr>fd_buf := fd_buf d @ [x]\<rparr>"
    have shift: "feed_parts (split_inclusive 10 (x # xs)) d acc
        = feed_parts (split_inclusive 10 xs) ?d acc"
      if "length (fd_buf d) < max_frame_bytes"
    proof (cases "split_inclusive 10 xs")
      case Nil
      with x that show ?thesis by simp
    next
      case (Cons p ps)
      then have "p \<noteq> []" using split_inclusive_nonempty [of p 10 xs] by simp
      with Cons x show ?thesis by (simp del: feed_parts.simps add: feed_parts_shift)
    qed
    show ?thesis
    proof (cases "length (fd_buf d) < max_frame_bytes")
      case True
      with Cons.prems Cons.IH [of ?d acc] shift x show ?thesis by simp
    next
      case False
      then have bad: "\<not> scan_ok (fd_buf d) (x # xs)"
        using x scan_ok_cur [of "fd_buf d @ [x]" xs] by auto
      obtain p ps where "split_inclusive 10 (x # xs) = (x # p) # ps"
        using x by (cases "split_inclusive 10 xs") auto
      with False bad show ?thesis by simp
    qed
  qed
qed

text \<open>
  The contract the serving loop relies on: the decoder is a function of the bytes received so
  far, never of how the pipe cut them into reads.
\<close>

definition decoder_inv :: "frame_decoder \<Rightarrow> bool" where
  "decoder_inv d \<longleftrightarrow> length (fd_buf d) \<le> max_frame_bytes \<and> 10 \<notin> set (fd_buf d)"

lemma decoder_inv_default [simp, wf_intros]: "decoder_inv decoder_default"
  by (simp add: decoder_inv_def decoder_default_def)

lemma feed_eq:
  assumes "decoder_inv d" and "\<not> fd_rejected d"
  shows "feed d xs =
    (if scan_ok (fd_buf d) xs
     then (d\<lparr>fd_buf := snd (scan (fd_buf d) xs)\<rparr>, Inr (fst (scan (fd_buf d) xs)))
     else (d\<lparr>fd_buf := [], fd_rejected := True\<rparr>, Inl FrameTooLarge))"
  using assms by (simp add: feed_def feed_parts_scan decoder_inv_def)

lemma feed_inv [wf_intros]: "decoder_inv d \<Longrightarrow> decoder_inv (fst (feed d xs))"
  by (cases "fd_rejected d")
     (auto simp: feed_eq decoder_inv_def scan_ok_iff scan_tail, simp_all add: feed_def)

lemma feed_all_eq:
  assumes "decoder_inv d" and "\<not> fd_rejected d"
  shows "feed_all d cs =
    (if scan_ok (fd_buf d) (concat cs)
     then (d\<lparr>fd_buf := snd (scan (fd_buf d) (concat cs))\<rparr>, Inr (fst (scan (fd_buf d) (concat cs))))
     else (d\<lparr>fd_buf := [], fd_rejected := True\<rparr>, Inl FrameTooLarge))"
  using assms
proof (induction cs arbitrary: d)
  case Nil
  then show ?case by (simp add: decoder_inv_def)
next
  case (Cons c cs)
  show ?case
  proof (cases "scan_ok (fd_buf d) c")
    case True
    let ?d = "d\<lparr>fd_buf := snd (scan (fd_buf d) c)\<rparr>"
    have "decoder_inv ?d" using feed_inv [OF Cons.prems(1), of c] True Cons.prems
      by (simp add: feed_eq)
    with Cons.IH [of ?d] Cons.prems True show ?thesis
      by (auto simp: feed_eq scan_ok_append scan_append case_prod_beta)
  next
    case False
    with Cons.prems show ?thesis by (simp add: feed_eq scan_ok_append)
  qed
qed

text \<open>
  However the pipe cuts the byte stream of a connection into reads, the decoder
  accepts it exactly when no line and no unfinished tail exceeds 64 KiB, and then delivers exactly
  the newline-ended lines of the stream, in order, keeping the unfinished tail.
\<close>

theorem decoder_refines_line_stream:
  "feed_all decoder_default chunks =
     (if scan_ok [] (concat chunks)
      then (\<lparr>fd_buf = snd (scan [] (concat chunks)), fd_rejected = False\<rparr>,
            Inr (fst (scan [] (concat chunks))))
      else (\<lparr>fd_buf = [], fd_rejected = True\<rparr>, Inl FrameTooLarge))"
  using feed_all_eq [of decoder_default chunks] by (simp add: decoder_default_def decoder_inv_def)

lemma fd_rejected_feed: "fd_rejected d \<Longrightarrow> feed d xs = (d, Inl FrameTooLarge)"
  by (simp add: feed_def)

lemma scan_lines:
  "list_all (\<lambda>b. 10 \<notin> set b) bodies \<Longrightarrow>
   scan [] (concat (map (\<lambda>b. b @ [10]) bodies)) = (map (\<lambda>b. b @ [10]) bodies, [])"
proof (induction bodies)
  case Nil
  then show ?case by simp
next
  case (Cons b bs)
  then show ?case using scan_append [of "[]" "b @ [10]"] by (simp add: scan_line)
qed

text \<open>
  Messages encoded by \<open>encode_frame\<close>, each within the frame limit and with no raw
  newline in its JSON (the serializer writes compact JSON, which escapes them), come out of the
  decoder one frame per message whatever the chunking of the transport.
\<close>

theorem encode_feed_roundtrip:
  assumes "concat chunks = concat (map (encode_frame to_vec) msgs)"
    and "list_all (\<lambda>m. 10 \<notin> set (to_vec m) \<and> length (to_vec m) < max_frame_bytes) msgs"
  shows "feed_all decoder_default chunks = (decoder_default, Inr (map (encode_frame to_vec) msgs))"
proof -
  have m: "map (encode_frame to_vec) msgs = map (\<lambda>b. b @ [10]) (map to_vec msgs)"
    by (simp add: encode_frame_def)
  have s: "scan [] (concat chunks) = (map (encode_frame to_vec) msgs, [])"
    unfolding assms(1) m by (rule scan_lines) (use assms(2) in \<open>auto simp: list_all_iff\<close>)
  have "scan_ok [] (concat chunks)"
    using assms(2) by (auto simp: scan_ok_iff s encode_frame_def list_all_iff)
  with s show ?thesis unfolding decoder_refines_line_stream by (simp add: decoder_default_def)
qed

theorem encode_feed_roundtrip_witness:
  "feed_all decoder_default [[1, 2], [10, 3], [10]] = (decoder_default, Inr [[1, 2, 10], [3, 10]])"
proof -
  have "feed_all decoder_default [[1, 2], [10, 3], [10]]
      = (decoder_default, Inr (map (encode_frame (\<lambda>x. x)) [[1, 2], [3]]))"
    by (rule encode_feed_roundtrip)
       (simp_all add: encode_frame_def max_frame_bytes_def)
  then show ?thesis by (simp add: encode_frame_def)
qed

section \<open>The event ring: the last twenty lines\<close>

definition event_log_inv :: "event_log \<Rightarrow> bool" where
  "event_log_inv l \<longleftrightarrow> el_cap l = 20 \<and> length (el_ring l) \<le> 20"

lemma event_log_inv_new [simp, wf_intros]: "event_log_inv event_log_new"
  by (simp add: event_log_inv_def event_log_new_def)

lemma event_push_inv [simp, wf_intros]: "event_log_inv l \<Longrightarrow> event_log_inv (event_push l t m)"
  by (auto simp: event_log_inv_def event_push_def Let_def)

definition last_n :: "nat \<Rightarrow> 'a list \<Rightarrow> 'a list" where
  "last_n n xs = drop (length xs - n) xs"

lemma event_push_last_n:
  assumes "event_log_inv l" and "el_ring l = last_n 20 hist"
  shows "el_ring (event_push l t m) = last_n 20 (hist @ [event_line t m])"
proof (cases "length hist < 20")
  case True
  with assms show ?thesis by (auto simp: event_push_def last_n_def Let_def event_log_inv_def)
next
  case False
  then have "length (el_ring l) = 20" using assms by (simp add: last_n_def)
  moreover have "Suc (length hist) - 20 = Suc (length hist - 20)" using False by simp
  ultimately show ?thesis using assms False
    by (simp add: event_push_def last_n_def Let_def event_log_inv_def tl_drop drop_Suc)
qed

text \<open>
  After any sequence of pushes the ring holds the last twenty lines pushed, oldest
  first, each with its UTC time prefix, and never more than twenty.
\<close>

theorem event_ring_last_twenty:
  "el_ring (foldl (\<lambda>l (t, m). event_push l t m) event_log_new msgs)
     = last_n 20 (map (\<lambda>(t, m). event_line t m) msgs)"
proof -
  have "event_log_inv (foldl (\<lambda>l (t, m). event_push l t m) event_log_new msgs) \<and>
    el_ring (foldl (\<lambda>l (t, m). event_push l t m) event_log_new msgs)
     = last_n 20 (map (\<lambda>(t, m). event_line t m) msgs)"
  proof (induction msgs rule: rev_induct)
    case Nil
    then show ?case by (simp add: last_n_def event_log_new_def event_log_inv_def)
  next
    case (snoc x xs)
    then show ?case by (cases x) (simp add: event_push_last_n)
  qed
  then show ?thesis by simp
qed

end
