(* ===== verification/Mailbox.thy ===== *)
theory Mailbox
  imports Protocol
begin

text \<open>
  \<open>src/src/ipc/commands.rs\<close>: the bounded mailbox between the UI producers and the thread that owns
  the IPC session. The shared state is one \<open>Pending\<close> record behind a mutex and a wake channel of
  capacity one. A \<open>send\<close> holds the lock for its whole body, so it is one step; \<open>recv\<close> is two
  steps, taking the wake token and then, under the lock, the pending record, and sends may run
  between them.
\<close>

record pending =
  p_redial :: bool
  p_mode :: "net_mode option"

definition pending_default :: pending where
  "pending_default = \<lparr>p_redial = False, p_mode = None\<rparr>"

record mailbox =
  mb_pending :: pending
  mb_wake :: bool      \<comment> \<open>a token sits in the channel of capacity one\<close>
  mb_woken :: bool     \<comment> \<open>the receiver is between \<open>wake.recv\<close> and the lock\<close>

definition channel :: mailbox where
  "channel = \<lparr>mb_pending = pending_default, mb_wake = False, mb_woken = False\<rparr>"

fun post :: "pending \<Rightarrow> command \<Rightarrow> pending" where
  "post p Redial = p\<lparr>p_redial := True\<rparr>"
| "post p (SetMode m) = p\<lparr>p_mode := Some m\<rparr>"

text \<open>\<open>try_send\<close> on a full channel fails and is ignored: a wake is already pending.\<close>

definition send :: "mailbox \<Rightarrow> command \<Rightarrow> mailbox" where
  "send mb c = mb\<lparr>mb_pending := post (mb_pending mb) c, mb_wake := True\<rparr>"

definition commands_of :: "pending \<Rightarrow> command list" where
  "commands_of p =
     (case p_mode p of Some m \<Rightarrow> [SetMode m] | None \<Rightarrow> []) @ (if p_redial p then [Redial] else [])"

definition recv_wake :: "mailbox \<Rightarrow> mailbox option" where
  "recv_wake mb = (if mb_wake mb then Some (mb\<lparr>mb_wake := False, mb_woken := True\<rparr>) else None)"

definition recv_take :: "mailbox \<Rightarrow> command list \<times> mailbox" where
  "recv_take mb =
     (commands_of (mb_pending mb), mb\<lparr>mb_pending := pending_default, mb_woken := False\<rparr>)"

text \<open>The interleavings of any number of senders with the one receiver.\<close>

datatype mb_label = LSend command | LWake | LTake "command list"

inductive mb_step :: "mailbox \<Rightarrow> mb_label \<Rightarrow> mailbox \<Rightarrow> bool" where
  mb_send: "mb_step mb (LSend c) (send mb c)"
| mb_wake: "\<not> mb_woken mb \<Longrightarrow> recv_wake mb = Some mb' \<Longrightarrow> mb_step mb LWake mb'"
| mb_take: "mb_woken mb \<Longrightarrow> recv_take mb = (cs, mb') \<Longrightarrow> mb_step mb (LTake cs) mb'"

inductive_cases mb_send_cases: "mb_step mb (LSend c) mb'"
inductive_cases mb_wake_cases: "mb_step mb LWake mb'"
inductive_cases mb_take_cases: "mb_step mb (LTake cs) mb'"

inductive mb_trace :: "mb_label list \<Rightarrow> mailbox \<Rightarrow> bool" where
  trace_nil: "mb_trace [] channel"
| trace_snoc: "mb_trace ls mb \<Longrightarrow> mb_step mb l mb' \<Longrightarrow> mb_trace (ls @ [l]) mb'"

section \<open>What was sent and what was delivered\<close>

fun sent :: "mb_label list \<Rightarrow> command list" where
  "sent [] = []"
| "sent (LSend c # ls) = c # sent ls"
| "sent (_ # ls) = sent ls"

fun delivered :: "mb_label list \<Rightarrow> command list" where
  "delivered [] = []"
| "delivered (LTake cs # ls) = cs @ delivered ls"
| "delivered (_ # ls) = delivered ls"

fun last_mode :: "command list \<Rightarrow> net_mode option" where
  "last_mode [] = None"
| "last_mode (c # cs) =
     (case last_mode cs of Some m \<Rightarrow> Some m
      | None \<Rightarrow> (case c of SetMode m \<Rightarrow> Some m | Redial \<Rightarrow> None))"

lemma sent_append [simp]: "sent (a @ b) = sent a @ sent b"
  by (induction a rule: sent.induct) auto

lemma delivered_append [simp]: "delivered (a @ b) = delivered a @ delivered b"
  by (induction a rule: delivered.induct) auto

lemma last_mode_append [simp]:
  "last_mode (a @ b) = (case last_mode b of Some m \<Rightarrow> Some m | None \<Rightarrow> last_mode a)"
  by (induction a) (auto split: option.splits)

lemma last_mode_commands_of [simp]: "last_mode (commands_of p) = p_mode p"
  by (auto simp: commands_of_def split: option.splits)

lemma length_commands_of: "length (commands_of p) \<le> 2"
  by (auto simp: commands_of_def split: option.splits)

lemma commands_of_eq_Nil: "commands_of p = [] \<longleftrightarrow> p = pending_default"
  by (cases p) (auto simp: commands_of_def pending_default_def split: option.splits)

text \<open>
  The invariant of the protocol: pending work implies a wake token or a receiver that is about to
  take it, and the pending mode is the last mode sent unless that one was already delivered.
\<close>

definition mb_inv :: "mb_label list \<Rightarrow> mailbox \<Rightarrow> bool" where
  "mb_inv ls mb \<longleftrightarrow>
     (mb_pending mb \<noteq> pending_default \<longrightarrow> mb_wake mb \<or> mb_woken mb) \<and>
     last_mode (sent ls) = (case p_mode (mb_pending mb) of Some m \<Rightarrow> Some m
                            | None \<Rightarrow> last_mode (delivered ls)) \<and>
     (Redial \<in> set (sent ls) \<longrightarrow> p_redial (mb_pending mb) \<or> Redial \<in> set (delivered ls)) \<and>
     set (delivered ls) \<union> set (commands_of (mb_pending mb)) \<subseteq> set (sent ls)"

lemma mb_inv_step: "mb_step mb l mb' \<Longrightarrow> mb_inv ls mb \<Longrightarrow> mb_inv (ls @ [l]) mb'"
proof (induction rule: mb_step.induct)
  case (mb_send mb c)
  then show ?case
    by (cases c) (auto simp: mb_inv_def send_def commands_of_def split: option.splits)
next
  case (mb_wake mb mb')
  then show ?case by (auto simp: mb_inv_def recv_wake_def split: if_splits option.splits)
next
  case (mb_take mb cs mb')
  then show ?case
    by (auto simp: mb_inv_def recv_take_def pending_default_def commands_of_def
             split: option.splits if_splits)
qed

lemma mb_trace_inv: "mb_trace ls mb \<Longrightarrow> mb_inv ls mb"
proof (induction rule: mb_trace.induct)
  case trace_nil
  then show ?case by (simp add: mb_inv_def channel_def pending_default_def commands_of_def)
next
  case (trace_snoc ls mb l mb')
  then show ?case by (blast intro: mb_inv_step)
qed

text \<open>
  No wake-up is lost: in every interleaving of senders with the receiver, whenever a
  command is pending, the receiver is able to move, and after at most its two steps the
  mailbox is empty and the batch it got is exactly what was pending.
\<close>

theorem mailbox_no_lost_wakeup:
  assumes "mb_trace ls mb" and "mb_pending mb \<noteq> pending_default"
  shows "(\<exists>mb1 mb2. recv_wake mb = Some mb1 \<and> recv_take mb1 = (commands_of (mb_pending mb), mb2)
              \<and> mb_pending mb2 = pending_default)
       \<or> (mb_woken mb \<and> (\<exists>mb2. recv_take mb = (commands_of (mb_pending mb), mb2)
              \<and> mb_pending mb2 = pending_default))"
  using mb_trace_inv [OF assms(1)] assms(2)
  by (auto simp: mb_inv_def recv_wake_def recv_take_def)

lemma trace_send: "mb_trace ls mb \<Longrightarrow> mb_trace (ls @ [LSend c]) (send mb c)"
  by (blast intro: mb_trace.intros mb_step.intros)

theorem mailbox_no_lost_wakeup_witness:
  "mb_pending (send channel Redial) \<noteq> pending_default \<and>
   (\<exists>mb1 mb2. recv_wake (send channel Redial) = Some mb1 \<and> recv_take mb1 = ([Redial], mb2))"
proof -
  have t: "mb_trace ([] @ [LSend Redial]) (send channel Redial)"
    by (rule trace_send [OF trace_nil])
  have n: "mb_pending (send channel Redial) \<noteq> pending_default"
    by (simp add: send_def channel_def pending_default_def)
  show ?thesis
    using mailbox_no_lost_wakeup [OF t n] n
    by (auto simp: send_def channel_def commands_of_def pending_default_def recv_wake_def recv_take_def)
qed

text \<open>
  C21 (refinement). Coalescing keeps what matters: once the mailbox is drained the last mode delivered
  is the last mode sent, a redial was delivered if one was sent, nothing was delivered that was
  not sent, and no batch has more than two commands.
\<close>

theorem mailbox_delivers_latest:
  assumes "mb_trace ls mb" and "mb_pending mb = pending_default"
  shows "last_mode (delivered ls) = last_mode (sent ls)
       \<and> (Redial \<in> set (delivered ls) \<longleftrightarrow> Redial \<in> set (sent ls))
       \<and> set (delivered ls) \<subseteq> set (sent ls)
       \<and> (\<forall>p. length (commands_of p) \<le> 2)"
  using mb_trace_inv [OF assms(1)] assms(2)
  by (auto simp: mb_inv_def pending_default_def length_commands_of)

theorem mailbox_delivers_latest_witness:
  "\<exists>mb. mb_trace [LSend (SetMode WiredExclusive), LSend (SetMode WiredPlusStandby), LWake,
                  LTake [SetMode WiredPlusStandby]] mb
     \<and> last_mode (delivered [LSend (SetMode WiredExclusive), LSend (SetMode WiredPlusStandby), LWake,
                  LTake [SetMode WiredPlusStandby]]) = Some WiredPlusStandby"
proof -
  let ?a = "send channel (SetMode WiredExclusive)"
  let ?b = "send ?a (SetMode WiredPlusStandby)"
  let ?c = "?b\<lparr>mb_wake := False, mb_woken := True\<rparr>"
  let ?d = "?c\<lparr>mb_pending := pending_default, mb_woken := False\<rparr>"
  have "mb_trace ((([] @ [LSend (SetMode WiredExclusive)]) @ [LSend (SetMode WiredPlusStandby)])
          @ [LWake]) ?c"
    by (rule trace_snoc [OF trace_send [OF trace_send [OF trace_nil]]], rule mb_wake)
       (simp_all add: send_def channel_def recv_wake_def)
  moreover have "mb_step ?c (LTake [SetMode WiredPlusStandby]) ?d"
    by (rule mb_take)
       (simp_all add: send_def channel_def recv_take_def commands_of_def pending_default_def)
  ultimately have t: "mb_trace [LSend (SetMode WiredExclusive), LSend (SetMode WiredPlusStandby), LWake,
                  LTake [SetMode WiredPlusStandby]] ?d"
    by (auto dest: trace_snoc)
  show ?thesis
    using mailbox_delivers_latest [OF t] t by auto
qed

end
