(* ===== verification/Retry_Backoff.thy ===== *)
theory Retry_Backoff
  imports Prelude
begin

text \<open>
  \<open>src/src/backoff.rs\<close>: the exponential redial delay. \<open>Duration::saturating_mul\<close> saturates at
  \<open>duration_max\<close>; the shift \<open>1u32 << attempt.min(20)\<close> never leaves 32 bits.
\<close>

definition auth_fail_delay_default :: duration where
  "auth_fail_delay_default = from_secs 600"

record backoff =
  bo_min :: duration
  bo_max :: duration
  bo_attempt :: u32

definition backoff_new :: "duration \<Rightarrow> duration \<Rightarrow> backoff" where
  "backoff_new mn mx = \<lparr>bo_min = mn, bo_max = mx, bo_attempt = 0\<rparr>"

definition dur_saturating_mul :: "duration \<Rightarrow> u32 \<Rightarrow> duration" where
  "dur_saturating_mul d k = min (d * unat k) duration_max"

definition next_delay :: "backoff \<Rightarrow> duration \<times> backoff" where
  "next_delay b =
     (let d = dur_saturating_mul (bo_min b) (push_bit (unat (min (bo_attempt b) 20)) 1)
      in (max (min d (bo_max b)) (bo_min b), b\<lparr>bo_attempt := sat_add (bo_attempt b) 1\<rparr>))"

definition backoff_reset :: "backoff \<Rightarrow> backoff" where
  "backoff_reset b = b\<lparr>bo_attempt := 0\<rparr>"

section \<open>Closed form of the delays\<close>

lemma unat_min_word: "unat (min a b) = min (unat a) (unat (b::'a::len word))"
  by (auto simp: min_def word_le_nat_alt)

lemma unat_shift_small: "k \<le> 20 \<Longrightarrow> unat ((2::u32) ^ k) = 2 ^ k"
proof -
  assume k: "k \<le> 20"
  then have "(2::nat) ^ k \<le> 2 ^ 20" by (intro power_increasing) auto
  then have "(2::nat) ^ k < 2 ^ LENGTH(32)" by simp
  moreover have "(2::u32) ^ k = word_of_nat (2 ^ k)" by simp
  ultimately show ?thesis by (simp only: unat_of_nat mod_less)
qed

lemma next_delay_value:
  "fst (next_delay b) =
     max (min (min (bo_min b * 2 ^ min (unat (bo_attempt b)) 20) duration_max) (bo_max b)) (bo_min b)"
  by (simp add: next_delay_def Let_def dur_saturating_mul_def unat_min_word unat_shift_small)

lemma next_delay_fields [simp]:
  "bo_min (snd (next_delay b)) = bo_min b" "bo_max (snd (next_delay b)) = bo_max b"
  "bo_attempt (snd (next_delay b)) = sat_add (bo_attempt b) 1"
  by (simp_all add: next_delay_def Let_def)

lemma next_delay_bounds:
  "bo_min b \<le> fst (next_delay b)" "fst (next_delay b) \<le> max (bo_min b) (bo_max b)"
  by (simp_all add: next_delay_value)

text \<open>The delays of \<open>n\<close> failures in a row.\<close>

fun delays :: "nat \<Rightarrow> backoff \<Rightarrow> duration list" where
  "delays 0 b = []"
| "delays (Suc n) b = fst (next_delay b) # delays n (snd (next_delay b))"

lemma unat_sat_add_1: "unat (sat_add (a::u32) 1) = min (Suc (unat a)) (2 ^ 32 - 1)"
  by (simp add: unat_sat_add)

lemma delays_nth:
  "i < n \<Longrightarrow> unat (bo_attempt b) + n < 2 ^ 32 \<Longrightarrow> delays n b ! i =
     max (min (min (bo_min b * 2 ^ min (unat (bo_attempt b) + i) 20) duration_max) (bo_max b)) (bo_min b)"
proof (induction n arbitrary: b i)
  case 0
  then show ?case by simp
next
  case (Suc n)
  show ?case
  proof (cases i)
    case 0
    then show ?thesis by (simp add: next_delay_value)
  next
    case (Suc j)
    have a: "unat (bo_attempt (snd (next_delay b))) = Suc (unat (bo_attempt b))"
      using Suc.prems by (simp add: unat_sat_add_1)
    then have "unat (bo_attempt (snd (next_delay b))) + n < 2 ^ 32" using Suc.prems by simp
    moreover have "j < n" using Suc Suc.prems by simp
    ultimately show ?thesis using Suc.IH [of j "snd (next_delay b)"] Suc a by simp
  qed
qed

text \<open>
  With the runtime's settings (1 s minimum, 300 s maximum) the delays after consecutive
  transient dial failures are exactly 1, 2, 4, 8, 16, 32, 64, 128, 256 s and then 300 s for ever,
  whatever number of failures came before a reset: doubling, then capped, with no overflow.
\<close>

theorem redial_delays_double_then_cap:
  assumes "i < n" and "n < 2 ^ 32"
  shows "delays n (backoff_reset (b\<lparr>bo_min := from_secs 1, bo_max := from_secs 300\<rparr>)) ! i =
    (if i < 9 then from_secs (2 ^ i) else from_secs 300)"
proof -
  let ?b = "backoff_reset (b\<lparr>bo_min := from_secs 1, bo_max := from_secs 300\<rparr>)"
  have v: "delays n ?b ! i
      = max (min (min (from_secs 1 * 2 ^ min i 20) duration_max) (from_secs 300)) (from_secs 1)"
    using delays_nth [of i n ?b] assms by (simp add: backoff_reset_def)
  show ?thesis
  proof (cases "i < 9")
    case True
    then have "i \<in> {0, 1, 2, 3, 4, 5, 6, 7, 8}" by auto
    then show ?thesis unfolding v by (auto simp: from_secs_def duration_max_def)
  next
    case False
    then have "(2::nat) ^ 9 \<le> 2 ^ min i 20" by (intro power_increasing) auto
    then have "from_secs 300 \<le> from_secs 1 * 2 ^ min i 20" by (simp add: from_secs_def)
    with False show ?thesis unfolding v by (auto simp: from_secs_def duration_max_def min_def)
  qed
qed

theorem redial_delays_double_then_cap_witness:
  "delays 12 (backoff_reset ((backoff_new 0 0)\<lparr>bo_min := from_secs 1, bo_max := from_secs 300\<rparr>)) ! 11
     = from_secs 300"
  using redial_delays_double_then_cap [of 11 12 "backoff_new 0 0"] by simp

end
