(* ===== verification/Http.thy ===== *)
theory Http
  imports Prelude
begin

text \<open>
  \<open>src/src/http.rs\<close>: the URL, status-line and header parsing, and the bounded read loop of the
  source-bound HTTP/1.0 client. Sockets are outside the model: the results of the reads are an
  argument of the loop, and the lossy UTF-8 decoding of the buffer is the argument \<open>lossy\<close>.
\<close>

record target =
  t_host :: string
  t_port :: u16
  t_path :: string
  t_host_header :: string

definition parse_url :: "string \<Rightarrow> target option" where
  "parse_url url =
     (case strip_prefix ''http://'' url of None \<Rightarrow> None
      | Some rest \<Rightarrow>
        (let (hostport, path) = (case split_once CHR ''/'' rest of
               Some (a, b) \<Rightarrow> (a, CHR ''/'' # b) | None \<Rightarrow> (rest, ''/'')) in
         if hostport = [] then None
         else (case (case rsplit_once CHR '':'' hostport of
                       Some (h, p) \<Rightarrow> map_option (\<lambda>n. (h, word_of_nat n)) (parse_uint 65535 p)
                     | None \<Rightarrow> Some (hostport, 80)) of
                 None \<Rightarrow> None
               | Some (host, port) \<Rightarrow>
                   if host = [] then None
                   else Some \<lparr>t_host = host, t_port = port, t_path = path,
                              t_host_header = hostport\<rparr>)))"

definition parse_status_code :: "string \<Rightarrow> u16 option" where
  "parse_status_code status_line =
     (case split_ascii_whitespace status_line of
        version # code # _ \<Rightarrow>
          if strip_prefix ''HTTP/'' version = None then None
          else map_option word_of_nat (parse_uint 65535 code)
      | _ \<Rightarrow> None)"

definition is_auth_redirect :: "string \<Rightarrow> bool" where
  "is_auth_redirect location_lower \<longleftrightarrow>
     list_ex (contains location_lower) [''wlanacip'', ''nexturl'', ''portal'']"

datatype read_policy = Complete | AcceptPartial

definition read_acceptable :: "read_policy \<Rightarrow> bool \<Rightarrow> bool \<Rightarrow> bool" where
  "read_acceptable policy read_ok got_bytes \<longleftrightarrow> read_ok \<or> (policy = AcceptPartial \<and> got_bytes)"

definition crlf :: string where "crlf = [char_of (13::nat), char_of (10::nat)]"

definition request_text :: "target \<Rightarrow> string \<Rightarrow> string" where
  "request_text target user_agent =
     ''GET '' @ t_path target @ '' HTTP/1.0'' @ crlf @ ''Host: '' @ t_host_header target @ crlf
     @ ''User-Agent: '' @ user_agent @ crlf @ ''Connection: close'' @ crlf @ crlf"

record response =
  r_status :: u16
  r_location_lower :: string
  r_body :: string

datatype http_error = IncompleteHeaders | MalformedStatusLine | ReadFailed

fun find_location :: "string list \<Rightarrow> string" where
  "find_location [] = []"
| "find_location (line # ls) =
     (case split_once CHR '':'' line of
        Some (key, val) \<Rightarrow>
          if to_ascii_lowercase (trim key) = ''location''
          then to_ascii_lowercase (trim val) else find_location ls
      | None \<Rightarrow> find_location ls)"

definition response_of :: "(u8 list \<Rightarrow> string) \<Rightarrow> u8 list \<Rightarrow> http_error + response" where
  "response_of lossy buf =
     (case split_once_str (crlf @ crlf) (lossy buf) of
        None \<Rightarrow> Inl IncompleteHeaders
      | Some (headers, body) \<Rightarrow>
          (case parse_status_code (hd (split_str crlf headers)) of
             None \<Rightarrow> Inl MalformedStatusLine
           | Some status \<Rightarrow>
               Inr \<lparr>r_status = status,
                    r_location_lower = find_location (tl (split_str crlf headers)),
                    r_body = body\<rparr>))"

fun headers_complete :: "u8 list \<Rightarrow> bool" where
  "headers_complete (a # b # c # d # xs) \<longleftrightarrow>
     (a = 13 \<and> b = 10 \<and> c = 13 \<and> d = 10) \<or> headers_complete (b # c # d # xs)"
| "headers_complete _ \<longleftrightarrow> False"

text \<open>
  One read: \<open>rd i limit\<close> is what the \<open>i\<close>-th read returns when asked for at most \<open>limit\<close> bytes;
  the operating system never returns more. An expired deadline shows up as a failed read.
\<close>

datatype read_result = ReadOk "u8 list" | ReadErr

function read_loop ::
  "read_policy \<Rightarrow> nat \<Rightarrow> (nat \<Rightarrow> nat \<Rightarrow> read_result) \<Rightarrow> nat \<Rightarrow> u8 list \<Rightarrow> http_error + u8 list"
where
  "read_loop policy max_bytes rd i buf =
     (if length buf < max_bytes then
        (let limit = min (max_bytes - length buf) 4096 in
         case rd i limit of
           ReadErr \<Rightarrow> if \<not> read_acceptable policy False (buf \<noteq> []) then Inl ReadFailed else Inr buf
         | ReadOk bytes \<Rightarrow>
             (let chunk = take limit bytes in
              if chunk = [] then Inr buf
              else if policy = AcceptPartial \<and> headers_complete (buf @ chunk) then Inr (buf @ chunk)
              else read_loop policy max_bytes rd (Suc i) (buf @ chunk)))
      else Inr buf)"
  by pat_completeness auto
termination
  by (relation "measure (\<lambda>(policy, max_bytes, rd, i, buf). max_bytes - length buf)")
     (auto simp: min_def intro!: diff_less_mono2 split: if_splits)

declare read_loop.simps [simp del]

text \<open>\<open>get\<close> from the established connection on.\<close>

definition get_response ::
  "(u8 list \<Rightarrow> string) \<Rightarrow> read_policy \<Rightarrow> nat \<Rightarrow> (nat \<Rightarrow> nat \<Rightarrow> read_result) \<Rightarrow> http_error + response"
where
  "get_response lossy policy max_bytes rd =
     (case read_loop policy max_bytes rd 0 [] of
        Inl e \<Rightarrow> Inl e | Inr buf \<Rightarrow> response_of lossy buf)"

section \<open>Properties\<close>

lemma read_loop_bound:
  "length buf \<le> max_bytes \<Longrightarrow> read_loop policy max_bytes rd i buf = Inr out \<Longrightarrow>
   length out \<le> max_bytes \<and> take (length buf) out = buf"
proof (induction policy max_bytes rd i buf rule: read_loop.induct)
  case (1 policy max_bytes rd i buf)
  show ?case
  proof (cases "length buf < max_bytes")
    case False
    with "1.prems" show ?thesis by (simp add: read_loop.simps)
  next
    case True
    let ?limit = "min (max_bytes - length buf) 4096"
    show ?thesis
    proof (cases "rd i ?limit")
      case ReadErr
      with True "1.prems" show ?thesis by (simp add: read_loop.simps Let_def split: if_splits)
    next
      case (ReadOk bytes)
      let ?buf = "buf @ take ?limit bytes"
      have le: "length ?buf \<le> max_bytes" using True by simp
      show ?thesis
      proof (cases "take ?limit bytes = [] \<or> policy = AcceptPartial \<and> headers_complete ?buf")
        case fin: True
        with ReadOk True "1.prems" le show ?thesis
          by (subst (asm) read_loop.simps) (auto simp: Let_def split: if_splits)
      next
        case go: False
        then have rec: "read_loop policy max_bytes rd (Suc i) ?buf = Inr out"
          using ReadOk True "1.prems"(2)
          by (subst (asm) read_loop.simps) (auto simp: Let_def split: if_splits)
        have out: "length out \<le> max_bytes \<and> take (length ?buf) out = ?buf"
          using "1.IH" [OF True refl ReadOk refl _ _ le rec] go by blast
        have "take (length buf) out = take (length buf) (take (length ?buf) out)"
          by (simp only: take_take) simp
        also have "\<dots> = buf" using out by simp
        finally show ?thesis using out by blast
      qed
    qed
  qed
qed

lemma read_loop_complete:
  "length buf \<le> max_bytes \<Longrightarrow> read_loop Complete max_bytes rd i buf = Inr out \<Longrightarrow>
   length out = max_bytes \<or>
   (\<exists>j bytes. rd j (min (max_bytes - length out) 4096) = ReadOk bytes
      \<and> take (min (max_bytes - length out) 4096) bytes = [])"
proof (induction Complete max_bytes rd i buf rule: read_loop.induct)
  case (1 max_bytes rd i buf)
  show ?case
  proof (cases "length buf < max_bytes")
    case False
    with "1.prems" show ?thesis by (simp add: read_loop.simps)
  next
    case True
    let ?limit = "min (max_bytes - length buf) 4096"
    obtain bytes where ok: "rd i ?limit = ReadOk bytes"
      using True "1.prems"
      by (cases "rd i ?limit") (auto simp: read_loop.simps Let_def read_acceptable_def)
    show ?thesis
    proof (cases "take ?limit bytes = []")
      case fin: True
      then have "out = buf" using ok True "1.prems"(2)
        by (subst (asm) read_loop.simps) (auto simp: Let_def split: if_splits)
      with ok fin show ?thesis by blast
    next
      case go: False
      then have rec: "read_loop Complete max_bytes rd (Suc i) (buf @ take ?limit bytes) = Inr out"
        using ok True "1.prems"(2)
        by (subst (asm) read_loop.simps) (auto simp: Let_def split: if_splits)
      show ?thesis
        by (rule "1.hyps" [OF True refl ok refl go _ _ rec]) (use True in auto)
    qed
  qed
qed

text \<open>
  Whatever the peer sends, the client returns after finitely many reads with at most
  \<open>max_bytes\<close> bytes, and under the portal policy \<open>Complete\<close> it returns bytes only after a read
  reported the end of the stream or the cap was reached: a failed read never becomes a response.
\<close>

theorem response_body_bounded:
  assumes "read_loop policy max_bytes rd 0 [] = Inr out"
  shows "length out \<le> max_bytes \<and>
    (policy = Complete \<longrightarrow> length out = max_bytes \<or>
      (\<exists>j bytes. rd j (min (max_bytes - length out) 4096) = ReadOk bytes
         \<and> take (min (max_bytes - length out) 4096) bytes = []))"
proof (intro conjI impI)
  show "length out \<le> max_bytes" using read_loop_bound [OF _ assms] by simp
next
  assume "policy = Complete"
  with assms show "length out = max_bytes \<or>
      (\<exists>j bytes. rd j (min (max_bytes - length out) 4096) = ReadOk bytes
         \<and> take (min (max_bytes - length out) 4096) bytes = [])"
    using read_loop_complete [of "[]" max_bytes rd 0 out] by simp
qed

theorem response_body_bounded_witness:
  "read_loop Complete 3 (\<lambda>i limit. if i < 2 then ReadOk [1, 2] else ReadErr) 0 [] = Inr [1, 2, 1]
   \<and> length [1::u8, 2, 1] \<le> 3"
proof -
  have r: "read_loop Complete 3 (\<lambda>i limit. if i < 2 then ReadOk [1, 2] else ReadErr) 0 [] = Inr [1, 2, 1]"
    by (simp add: read_loop.simps Let_def)
  show ?thesis using response_body_bounded [OF r] r by blast
qed

end
