(* ===== verification/Probe.thy ===== *)
theory Probe
  imports Http
begin

text \<open>
  \<open>src/src/probe.rs\<close>: the two-level drop probe. The ICMP echo and the HTTP request are arguments
  of \<open>probe_once\<close>; everything the code derives from their outcome is modelled.
\<close>

datatype probe_verdict = Alive | LinkDown | Kicked

fun show_verdict :: "probe_verdict \<Rightarrow> string" where
  "show_verdict Alive = ''Alive''"
| "show_verdict LinkDown = ''LinkDown''"
| "show_verdict Kicked = ''Kicked''"

definition verdict_from_http :: "bool \<Rightarrow> bool \<Rightarrow> probe_verdict" where
  "verdict_from_http saw_redirect nexturl_is_auth =
     (if saw_redirect \<and> nexturl_is_auth then Kicked else Alive)"

definition parse_http_probe_target :: "string \<Rightarrow> (ipv4 \<times> string) option" where
  "parse_http_probe_target url =
     (case parse_url url of None \<Rightarrow> None
      | Some t \<Rightarrow> (case parse_ipv4 (t_host t) of None \<Rightarrow> None
                  | Some ip \<Rightarrow> Some (ip, t_host t @ '':'' @ dec (unat (t_port t)))))"

fun combine :: "bool option \<Rightarrow> probe_verdict option \<Rightarrow> probe_verdict" where
  "combine icmp_ok (Some Kicked) = Kicked"
| "combine (Some True) http = Alive"
| "combine icmp_ok (Some Alive) = Alive"
| "combine icmp_ok http = LinkDown"

definition public_probe :: ipv4 where
  "public_probe = Ipv4 223 5 5 5"

definition icmp_target :: "ipv4 option \<Rightarrow> ipv4" where
  "icmp_target gateway =
     (case gateway of None \<Rightarrow> public_probe
      | Some g \<Rightarrow> if is_unspecified g then public_probe else g)"

text \<open>
  \<open>icmp src target\<close>: an echo reply came back; \<open>http src url\<close>: status and lower-cased Location of
  the reply, \<open>None\<close> on any failure.
\<close>

definition probe_once ::
  "(ipv4 \<Rightarrow> ipv4 \<Rightarrow> bool) \<Rightarrow> (ipv4 \<Rightarrow> string \<Rightarrow> (u16 \<times> string) option) \<Rightarrow>
   ipv4 \<Rightarrow> ipv4 option \<Rightarrow> string \<Rightarrow> probe_verdict" where
  "probe_once icmp http src_ip gateway http_url =
     combine (Some (icmp src_ip (icmp_target gateway)))
       (map_option (\<lambda>(status, location). verdict_from_http (status = 302) (is_auth_redirect location))
          (http src_ip http_url))"

text \<open>
  The verdict of a probe: kicked exactly on a 302 to an authentication page, link
  down exactly when neither the gateway nor the HTTP probe answers, and alive otherwise; and the
  ICMP target is never the unspecified address a PPP gateway reports.
\<close>

theorem probe_once_cases:
  "(probe_once icmp http src gw url = Kicked
      \<longleftrightarrow> (\<exists>loc. http src url = Some (302, loc) \<and> is_auth_redirect loc))
   \<and> (probe_once icmp http src gw url = LinkDown
      \<longleftrightarrow> http src url = None \<and> \<not> icmp src (icmp_target gw))
   \<and> \<not> is_unspecified (icmp_target gw)"
proof -
  have t: "\<not> is_unspecified (icmp_target gw)"
    by (auto simp: icmp_target_def public_probe_def is_unspecified_def split: option.splits)
  show ?thesis
  proof (cases "http src url")
    case None
    then show ?thesis using t
      by (cases "icmp src (icmp_target gw)") (auto simp: probe_once_def)
  next
    case (Some p)
    then show ?thesis using t
      by (cases p; cases "icmp src (icmp_target gw)")
         (auto simp: probe_once_def verdict_from_http_def)
  qed
qed

lemma parse_url_http_ip:
  assumes "CHR ''/'' \<notin> set host" "CHR '':'' \<notin> set host" "host \<noteq> []"
  shows "parse_url (''http://'' @ host @ ''/'' @ rest)
    = Some \<lparr>t_host = host, t_port = 80, t_path = ''/'' @ rest, t_host_header = host\<rparr>"
proof -
  have p: "strip_prefix ''http://'' (''http://'' @ host @ ''/'' @ rest) = Some (host @ ''/'' @ rest)"
    by (rule strip_prefix_append)
  have s: "split_once CHR ''/'' (host @ ''/'' @ rest) = Some (host, rest)"
    using assms by (simp add: split_once_Some)
  show ?thesis unfolding parse_url_def p using assms s by (simp add: rsplit_once_None [THEN iffD2])
qed

end
