(* ===== verification/Config.thy ===== *)
theory Config
  imports Protocol Probe
begin

text \<open>
  \<open>src/src/config.rs\<close> with the layout of \<open>src/src/paths.rs\<close> and the log constants of
  \<open>src/src/logging.rs\<close>: the configuration record, its defaults and its validation. Reading and
  writing files and the TOML codec are arguments of \<open>config_load\<close> and \<open>config_save\<close>.
\<close>

section \<open>Paths and log constants\<close>

definition data_dir :: string where
  "data_dir = ''C:'' @ [CHR 92] @ ''ProgramData'' @ [CHR 92] @ ''gdut-net''"

definition config_path :: string where
  "config_path = data_dir @ [CHR 92] @ ''config.toml''"

definition pbk_path :: string where
  "pbk_path = data_dir @ [CHR 92] @ ''gdut.pbk''"

definition logs_dir :: string where
  "logs_dir = data_dir @ [CHR 92] @ ''logs''"

text \<open>\<open>PathBuf::join\<close> of a plain file name, and the environment variable as an argument.\<close>

definition path_join :: "string \<Rightarrow> string \<Rightarrow> string" where
  "path_join d n = d @ [CHR 92] @ n"

definition install_dir :: "string option \<Rightarrow> string" where
  "install_dir program_files =
     path_join (case program_files of Some p \<Rightarrow> p
                | None \<Rightarrow> ''C:'' @ [CHR 92] @ ''Program Files'') ''gdut-net''"

definition install_exe :: "string option \<Rightarrow> string" where
  "install_exe program_files = path_join (install_dir program_files) ''gdut-net.exe''"

definition setup_exe :: "string option \<Rightarrow> string" where
  "setup_exe program_files = path_join (install_dir program_files) ''gdut-net-setup.exe''"

definition log_max_size_mb :: u64 where "log_max_size_mb = 5"

definition log_keep_files :: nat where "log_keep_files = 5"

text \<open>The rotation threshold of the log files, in bytes; \<open>saturating_mul\<close> on 64 bits.\<close>

definition sat_mul :: "u64 \<Rightarrow> u64 \<Rightarrow> u64" where
  "sat_mul a b = (if unat a * unat b < 2 ^ 64 then a * b else - 1)"

definition rotation_bytes :: "u64 \<Rightarrow> u64" where
  "rotation_bytes max_size_mb = max (sat_mul max_size_mb (1024 * 1024)) (1024 * 1024)"

section \<open>The configuration\<close>

record account =
  ac_student_id :: string
  ac_password_blob :: string

record dial_cfg =
  dc_entry_name :: string
  dc_pbk_path :: string
  dc_interface :: string
  dc_probe_interval_secs :: u64
  dc_http_probe_url :: string

record heartbeat_cfg =
  hc_enabled :: bool
  hc_module :: string
  hc_server :: string
  hc_port :: u16
  hc_interval_secs :: u64

record log_cfg =
  lc_dir :: string
  lc_max_size_mb :: u64
  lc_rotate_keep :: u32
  lc_event_log :: bool

record wireless_cfg =
  wc_enabled :: bool
  wc_mode :: net_mode
  wc_profile :: string
  wc_portal_url :: string
  wc_wlan_ac_ip :: string
  wc_probe_host :: string
  wc_takeover_after_secs :: u64
  wc_release_after_secs :: u64
  wc_standby_metric :: u32

record config =
  cf_account :: account
  cf_dial :: dial_cfg
  cf_heartbeat :: heartbeat_cfg
  cf_log :: log_cfg
  cf_wireless :: wireless_cfg

definition heartbeat_module_gdut :: string where
  "heartbeat_module_gdut = ''gdut''"

definition account_default :: account where
  "account_default = \<lparr>ac_student_id = [], ac_password_blob = []\<rparr>"

definition dial_default :: dial_cfg where
  "dial_default = \<lparr>dc_entry_name = ''gdut'', dc_pbk_path = pbk_path, dc_interface = [],
     dc_probe_interval_secs = 30, dc_http_probe_url = ''http://223.5.5.5''\<rparr>"

definition heartbeat_default :: heartbeat_cfg where
  "heartbeat_default = \<lparr>hc_enabled = False, hc_module = heartbeat_module_gdut,
     hc_server = ''10.0.3.2'', hc_port = 61440, hc_interval_secs = 20\<rparr>"

definition log_default :: log_cfg where
  "log_default = \<lparr>lc_dir = logs_dir, lc_max_size_mb = log_max_size_mb,
     lc_rotate_keep = word_of_nat log_keep_files, lc_event_log = False\<rparr>"

definition default_true :: bool where "default_true = True"
definition default_wlan_profile :: string where "default_wlan_profile = ''gdut''"
definition default_portal_url :: string where
  "default_portal_url = ''http://10.0.3.2:801/eportal/portal/login''"
definition default_wlan_ac_ip :: string where "default_wlan_ac_ip = ''172.16.254.2''"
definition default_probe_host :: string where "default_probe_host = ''223.5.5.5''"
definition default_takeover_after :: u64 where "default_takeover_after = 8"
definition default_release_after :: u64 where "default_release_after = 10"
definition default_standby_metric :: u32 where "default_standby_metric = 100"

definition wireless_default :: wireless_cfg where
  "wireless_default = \<lparr>wc_enabled = default_true, wc_mode = WiredExclusive,
     wc_profile = default_wlan_profile, wc_portal_url = default_portal_url,
     wc_wlan_ac_ip = default_wlan_ac_ip, wc_probe_host = default_probe_host,
     wc_takeover_after_secs = default_takeover_after,
     wc_release_after_secs = default_release_after, wc_standby_metric = default_standby_metric\<rparr>"

definition config_default :: config where
  "config_default = \<lparr>cf_account = account_default, cf_dial = dial_default,
     cf_heartbeat = heartbeat_default, cf_log = log_default, cf_wireless = wireless_default\<rparr>"

datatype config_error =
    StudentIdEmpty
  | BadHeartbeatModule string
  | ProbeIntervalTooSmall
  | BadHttpProbeUrl string
  | BadPortalUrl string
  | BadProbeHost string
  | BadDebounce
  | BadStandbyMetric

definition validate_wireless :: "wireless_cfg \<Rightarrow> config_error + unit" where
  "validate_wireless w =
     (if parse_http_probe_target (wc_portal_url w) = None then Inl (BadPortalUrl (wc_portal_url w))
      else if parse_ipv4 (wc_probe_host w) = None then Inl (BadProbeHost (wc_probe_host w))
      else if wc_takeover_after_secs w < 1 \<or> wc_release_after_secs w < 1 then Inl BadDebounce
      else if 9999 < wc_standby_metric w then Inl BadStandbyMetric
      else Inr ())"

definition validate :: "config \<Rightarrow> config_error + unit" where
  "validate c =
     (if trim (ac_student_id (cf_account c)) = [] then Inl StudentIdEmpty
      else if hc_enabled (cf_heartbeat c) \<and> hc_module (cf_heartbeat c) \<noteq> heartbeat_module_gdut
      then Inl (BadHeartbeatModule (hc_module (cf_heartbeat c)))
      else if dc_probe_interval_secs (cf_dial c) < 5 then Inl ProbeIntervalTooSmall
      else if parse_http_probe_target (dc_http_probe_url (cf_dial c)) = None
      then Inl (BadHttpProbeUrl (dc_http_probe_url (cf_dial c)))
      else if wc_enabled (cf_wireless c) then validate_wireless (cf_wireless c)
      else Inr ())"

text \<open>
  \<open>read\<close> stands for \<open>fs::read_to_string\<close>, \<open>from_toml\<close> for \<open>toml::from_str\<close>.
\<close>

datatype load_error = ReadFailed string | TomlFailed string | Invalid config_error

definition config_load ::
  "(string \<Rightarrow> string option) \<Rightarrow> (string \<Rightarrow> config option) \<Rightarrow> string \<Rightarrow> load_error + config" where
  "config_load read from_toml path =
     (case read path of None \<Rightarrow> Inl (ReadFailed path)
      | Some raw \<Rightarrow> (case from_toml raw of None \<Rightarrow> Inl (TomlFailed path)
         | Some cfg \<Rightarrow> (case validate cfg of Inl e \<Rightarrow> Inl (Invalid e) | Inr _ \<Rightarrow> Inr cfg)))"

text \<open>
  \<open>save\<close>, over a file system state \<open>'fs\<close>: \<open>parent\<close> is \<open>Path::parent\<close>, \<open>mkdirs\<close> and \<open>write\<close> are
  \<open>create_dir_all\<close> and \<open>fs::write\<close> (\<open>None\<close> on failure), \<open>to_toml\<close> the serializer.
\<close>

definition config_save ::
  "(string \<Rightarrow> string option) \<Rightarrow> (string \<Rightarrow> 'fs \<Rightarrow> 'fs option) \<Rightarrow> (config \<Rightarrow> string option) \<Rightarrow>
   (string \<Rightarrow> string \<Rightarrow> 'fs \<Rightarrow> 'fs option) \<Rightarrow> config \<Rightarrow> string \<Rightarrow> 'fs \<Rightarrow> 'fs option" where
  "config_save parent mkdirs to_toml write cfg path fs =
     (case (case parent path of Some p \<Rightarrow> if p \<noteq> [] then mkdirs p fs else Some fs
            | None \<Rightarrow> Some fs) of
        None \<Rightarrow> None
      | Some fs' \<Rightarrow> (case to_toml cfg of None \<Rightarrow> None | Some body \<Rightarrow> write path body fs'))"

definition config_sample :: "(config \<Rightarrow> string) \<Rightarrow> string" where
  "config_sample to_toml =
     ''# HEMC (Higher Education Mega Center) auth server 10.0.3.2; Longdong/Dongfeng Road is 10.0.3.6''
     @ [CHR 10]
     @ ''# Heartbeat disabled by default; verify on site before enabling (see ADR-0002)'' @ [CHR 10]
     @ to_toml (config_default\<lparr>cf_account :=
         \<lparr>ac_student_id = ''your_student_id'', ac_password_blob = []\<rparr>\<rparr>)"

section \<open>What a validated configuration guarantees\<close>

definition wireless_ok :: "wireless_cfg \<Rightarrow> bool" where
  "wireless_ok w \<longleftrightarrow>
     (\<exists>t. parse_http_probe_target (wc_portal_url w) = Some t) \<and>
     (\<exists>ip. parse_ipv4 (wc_probe_host w) = Some ip) \<and>
     1 \<le> wc_takeover_after_secs w \<and> 1 \<le> wc_release_after_secs w \<and>
     wc_standby_metric w \<le> 9999"

lemma word_one_le: "1 \<le> (a::'a::len word) \<longleftrightarrow> a \<noteq> 0"
  by (metis linorder_not_less word_less_1)

lemma validate_wireless_ok [simp]: "validate_wireless w = Inr () \<longleftrightarrow> wireless_ok w"
  by (auto simp: validate_wireless_def wireless_ok_def not_less word_one_le)

lemma validate_Inr:
  "validate c = Inr () \<longleftrightarrow>
     trim (ac_student_id (cf_account c)) \<noteq> [] \<and>
     (hc_enabled (cf_heartbeat c) \<longrightarrow> hc_module (cf_heartbeat c) = heartbeat_module_gdut) \<and>
     5 \<le> dc_probe_interval_secs (cf_dial c) \<and>
     (\<exists>t. parse_http_probe_target (dc_http_probe_url (cf_dial c)) = Some t) \<and>
     (wc_enabled (cf_wireless c) \<longrightarrow> wireless_ok (cf_wireless c))"
  by (auto simp: validate_def not_less)

lemma config_load_valid: "config_load read from_toml path = Inr cfg \<Longrightarrow> validate cfg = Inr ()"
  by (auto simp: config_load_def split: option.splits sum.splits)

lemma unat_sat_mul: "unat (sat_mul a b) = min (unat a * unat b) (2 ^ 64 - 1)"
proof (cases "unat a * unat b < 2 ^ 64")
  case True
  then show ?thesis by (simp add: sat_mul_def unat_word_ariths)
next
  case False
  then show ?thesis by (simp add: sat_mul_def unsigned_minus_1_eq_mask mask_eq_exp_minus_1)
qed

lemma unat_max_word: "unat (max a b) = max (unat a) (unat (b::'a::len word))"
  by (auto simp: max_def word_le_nat_alt)

lemma rotation_bytes_value:
  "unat (rotation_bytes m) = max (min (unat m * 2 ^ 20) (2 ^ 64 - 1)) (2 ^ 20)"
  by (simp add: rotation_bytes_def unat_max_word unat_sat_mul)

end
