(* ===== verification/Watchdog.thy ===== *)
theory Watchdog
  imports Protocol Retry_Backoff Probe
begin

text \<open>
  \<open>src/src/watchdog.rs\<close>: the wired session watchdog. The traits \<open>Dialer\<close> and \<open>Prober\<close> are records
  of functions over a dialer state \<open>'d\<close> and a prober state \<open>'p\<close>; the contract the watchdog relies
  on is the locale \<open>dialer_contract\<close>, which the real dialer of the runtime discharges. The wall
  clock reading of a successful dial is the argument \<open>clk\<close> (nanoseconds since the UNIX epoch,
  negative before it).
\<close>

section \<open>Data\<close>

datatype err_kind = AuthKind | TransientKind

text \<open>\<open>ras::classify\<close>.\<close>

definition classify :: "u32 \<Rightarrow> err_kind" where
  "classify code = (if code = 691 then AuthKind else TransientKind)"

definition stable_reset_after :: duration where
  "stable_reset_after = from_secs 300"

definition link_down_retry :: duration where
  "link_down_retry = from_secs 5"

datatype phase = PIdle | PDialing | PConnected | PBackoff | PAuthFail

fun session_status_of :: "phase \<Rightarrow> session_status" where
  "session_status_of PIdle = SIdle"
| "session_status_of PDialing = SDialing"
| "session_status_of PConnected = SConnected"
| "session_status_of PBackoff = SBackoff"
| "session_status_of PAuthFail = SAuthFail"

record dial_error =
  de_kind :: err_kind
  de_code :: u32
  de_msg :: string

record 'd dialer_ops =
  dl_dial :: "'d \<Rightarrow> (dial_error + unit) \<times> 'd"
  dl_hangup :: "'d \<Rightarrow> 'd"
  dl_is_connected :: "'d \<Rightarrow> bool \<times> 'd"

type_synonym 'p prober = "'p \<Rightarrow> probe_verdict \<times> 'p"

record watchdog_cfg =
  wg_redial_min :: duration
  wg_redial_max :: duration
  wg_probe_interval :: duration
  wg_auth_fail_delay :: duration

record session_view =
  sv_status :: session_status
  sv_since_unix :: "u64 option"
  sv_last_drop_reason :: "string option"
  sv_redial_attempts :: u32

record ('d, 'p) watchdog =
  wd_dialer :: 'd
  wd_prober :: 'p
  wd_cfg :: watchdog_cfg
  wd_phase :: phase
  wd_backoff :: backoff
  wd_attempts :: u32
  wd_since :: "int option"
  wd_probe_fails :: u8
  wd_stable_for :: duration
  wd_dial_calls :: u32
  wd_last_drop_reason :: "string option"
  wd_redial_requested :: bool
  wd_eth_link :: "bool option"

definition watchdog_new :: "'d \<Rightarrow> 'p \<Rightarrow> watchdog_cfg \<Rightarrow> ('d, 'p) watchdog" where
  "watchdog_new d p cfg =
     \<lparr>wd_dialer = d, wd_prober = p, wd_cfg = cfg, wd_phase = PIdle,
      wd_backoff = backoff_new (wg_redial_min cfg) (wg_redial_max cfg), wd_attempts = 0,
      wd_since = None, wd_probe_fails = 0, wd_stable_for = 0, wd_dial_calls = 0,
      wd_last_drop_reason = None, wd_redial_requested = False, wd_eth_link = None\<rparr>"

definition set_eth_link :: "bool option \<Rightarrow> ('d, 'p) watchdog \<Rightarrow> ('d, 'p) watchdog" where
  "set_eth_link up w = w\<lparr>wd_eth_link := up\<rparr>"

definition view :: "('d, 'p) watchdog \<Rightarrow> session_view" where
  "view w = \<lparr>sv_status = session_status_of (wd_phase w),
     sv_since_unix = map_option (\<lambda>t. word_of_nat (as_secs (nat t))) (wd_since w),
     sv_last_drop_reason = wd_last_drop_reason w, sv_redial_attempts = wd_attempts w\<rparr>"

definition watchdog_shutdown :: "'d dialer_ops \<Rightarrow> ('d, 'p) watchdog \<Rightarrow> ('d, 'p) watchdog" where
  "watchdog_shutdown D w = w\<lparr>wd_dialer := dl_hangup D (wd_dialer w)\<rparr>"

definition request_redial :: "('d, 'p) watchdog \<Rightarrow> ('d, 'p) watchdog" where
  "request_redial w = w\<lparr>wd_redial_requested := True\<rparr>"

section \<open>One step of the state machine\<close>

definition link_down_reason :: string where
  "link_down_reason = ''Ethernet link down''"

definition record_drop :: "string \<Rightarrow> ('d, 'p) watchdog \<Rightarrow> ('d, 'p) watchdog" where
  "record_drop reason w = w\<lparr>wd_since := None, wd_probe_fails := 0, wd_stable_for := 0,
     wd_last_drop_reason := Some reason\<rparr>"

definition hangup :: "'d dialer_ops \<Rightarrow> ('d, 'p) watchdog \<Rightarrow> ('d, 'p) watchdog" where
  "hangup D w = w\<lparr>wd_dialer := dl_hangup D (wd_dialer w)\<rparr>"

text \<open>The three arms on the dial result.\<close>

definition dial_ok :: "int \<Rightarrow> ('d, 'p) watchdog \<Rightarrow> duration \<times> ('d, 'p) watchdog" where
  "dial_ok clk w = (wg_probe_interval (wd_cfg w),
     w\<lparr>wd_phase := PConnected, wd_since := Some clk, wd_probe_fails := 0, wd_stable_for := 0\<rparr>)"

definition dial_failed :: "dial_error \<Rightarrow> ('d, 'p) watchdog \<Rightarrow> duration \<times> ('d, 'p) watchdog" where
  "dial_failed e w =
     (case de_kind e of
        AuthKind \<Rightarrow> (wg_auth_fail_delay (wd_cfg w),
          w\<lparr>wd_phase := PAuthFail,
            wd_last_drop_reason :=
              Some (''Auth failed '' @ dec (unat (de_code e)) @ '': '' @ de_msg e)\<rparr>)
      | TransientKind \<Rightarrow>
          (let (delay, b) = next_delay (wd_backoff w)
           in (delay, w\<lparr>wd_backoff := b, wd_attempts := sat_add (wd_attempts w) 1,
                wd_phase := PBackoff,
                wd_last_drop_reason :=
                  Some (''Dial failed '' @ dec (unat (de_code e)) @ '': '' @ de_msg e)\<rparr>)))"

definition do_dial ::
  "'d dialer_ops \<Rightarrow> int \<Rightarrow> ('d, 'p) watchdog \<Rightarrow> duration \<times> ('d, 'p) watchdog" where
  "do_dial D clk w =
     (if wd_eth_link w = Some False
      then (link_down_retry,
            w\<lparr>wd_phase := PBackoff, wd_last_drop_reason := Some link_down_reason\<rparr>)
      else (let w = w\<lparr>wd_phase := PDialing, wd_dial_calls := wd_dial_calls w + 1\<rparr>;
                (r, d) = dl_dial D (wd_dialer w);
                w = w\<lparr>wd_dialer := d\<rparr>
            in (case r of Inr _ \<Rightarrow> dial_ok clk w | Inl e \<Rightarrow> dial_failed e w)))"

definition alive_step :: "('d, 'p) watchdog \<Rightarrow> duration \<times> ('d, 'p) watchdog" where
  "alive_step w =
     (let w = w\<lparr>wd_probe_fails := 0,
                wd_stable_for := wd_stable_for w + wg_probe_interval (wd_cfg w)\<rparr>;
          w = (if stable_reset_after \<le> wd_stable_for w \<and> 0 < wd_attempts w
               then w\<lparr>wd_backoff := backoff_reset (wd_backoff w), wd_attempts := 0\<rparr> else w)
      in (wg_probe_interval (wd_cfg w), w))"

definition probe_failed_reason :: "u8 \<Rightarrow> probe_verdict \<Rightarrow> string" where
  "probe_failed_reason n bad =
     ''Probe failed '' @ dec (unat n) @ '' times ('' @ show_verdict bad @ '')''"

definition bad_probe_step ::
  "'d dialer_ops \<Rightarrow> int \<Rightarrow> probe_verdict \<Rightarrow> ('d, 'p) watchdog \<Rightarrow> duration \<times> ('d, 'p) watchdog" where
  "bad_probe_step D clk bad w =
     (let w = w\<lparr>wd_probe_fails := wd_probe_fails w + 1\<rparr>
      in if wd_probe_fails w < 2 then (wg_probe_interval (wd_cfg w) div 4, w)
         else do_dial D clk (hangup D (record_drop
           (probe_failed_reason (wd_probe_fails w) bad) w)))"

definition step_connected ::
  "'d dialer_ops \<Rightarrow> 'p prober \<Rightarrow> int \<Rightarrow> ('d, 'p) watchdog \<Rightarrow> duration \<times> ('d, 'p) watchdog" where
  "step_connected D P clk w =
     (let (up, d) = dl_is_connected D (wd_dialer w);
          w = w\<lparr>wd_dialer := d\<rparr>
      in if \<not> up then do_dial D clk (hangup D (record_drop ''RAS session not found'' w))
         else (let (verdict, p) = P (wd_prober w);
                   w = w\<lparr>wd_prober := p\<rparr>
               in (case verdict of
                     Alive \<Rightarrow> alive_step w
                   | LinkDown \<Rightarrow> bad_probe_step D clk LinkDown w
                   | Kicked \<Rightarrow> bad_probe_step D clk Kicked w)))"

text \<open>
  The manual redial: \<open>phase == Connected || is_connected()\<close> reads the dialer only when the phase
  is not connected.
\<close>

definition manual_redial ::
  "'d dialer_ops \<Rightarrow> int \<Rightarrow> ('d, 'p) watchdog \<Rightarrow> duration \<times> ('d, 'p) watchdog" where
  "manual_redial D clk w =
     (let (live, w) = (if wd_phase w = PConnected then (True, w)
                       else (let (up, d) = dl_is_connected D (wd_dialer w)
                             in (up, w\<lparr>wd_dialer := d\<rparr>)))
      in do_dial D clk (if live then hangup D (record_drop ''Manual redial'' w) else w))"

definition run_once ::
  "'d dialer_ops \<Rightarrow> 'p prober \<Rightarrow> int \<Rightarrow> ('d, 'p) watchdog \<Rightarrow> duration \<times> ('d, 'p) watchdog" where
  "run_once D P clk w =
     (if wd_redial_requested w then manual_redial D clk (w\<lparr>wd_redial_requested := False\<rparr>)
      else if wd_phase w = PConnected then step_connected D P clk w
      else do_dial D clk w)"

lemmas wd_defs = do_dial_def dial_ok_def dial_failed_def alive_step_def bad_probe_step_def
  step_connected_def manual_redial_def run_once_def hangup_def record_drop_def


section \<open>The invariant between steps\<close>

text \<open>
  Between two steps the watchdog is never in the transient phase, a session start is recorded
  exactly while the phase is connected, and at most one strike is counted.
\<close>

definition wd_inv :: "('d, 'p) watchdog \<Rightarrow> bool" where
  "wd_inv w \<longleftrightarrow> wd_phase w \<noteq> PDialing \<and> (wd_since w \<noteq> None \<longleftrightarrow> wd_phase w = PConnected)
     \<and> unat (wd_probe_fails w) < 2"

lemma wd_inv_new: "wd_inv (watchdog_new d p cfg)"
  by (simp add: wd_inv_def watchdog_new_def)

lemma wd_inv_commands [simp]:
  "wd_inv (set_eth_link up w) = wd_inv w" "wd_inv (request_redial w) = wd_inv w"
  "wd_inv (watchdog_shutdown D w) = wd_inv w"
  by (simp_all add: wd_inv_def set_eth_link_def request_redial_def watchdog_shutdown_def)

text \<open>\<open>do_dial\<close> restores the invariant from any state without a recorded session.\<close>

lemma do_dial_inv:
  assumes "wd_since w = None" "unat (wd_probe_fails w) < 2"
  shows "wd_inv (snd (do_dial D clk w))"
  using assms
  by (auto simp: do_dial_def dial_ok_def dial_failed_def wd_inv_def Let_def
      split: prod.splits sum.splits err_kind.splits)

lemma unat_inc_small: "unat (a::u8) < 2 \<Longrightarrow> unat (a + 1) = unat a + 1"
  by (simp add: unat_word_ariths)

lemma strike_less: "(a::u8) < 2 \<longleftrightarrow> unat a < 2"
  by (simp add: word_less_nat_alt)

lemma alive_step_inv: "wd_inv w \<Longrightarrow> wd_inv (snd (alive_step w))"
  by (auto simp: alive_step_def wd_inv_def Let_def)

lemma bad_probe_step_inv: "wd_inv w \<Longrightarrow> wd_inv (snd (bad_probe_step D clk v w))"
  by (auto simp: bad_probe_step_def Let_def strike_less wd_inv_def [of "w\<lparr>wd_probe_fails := _\<rparr>"]
      hangup_def record_drop_def intro!: do_dial_inv) (simp_all add: wd_inv_def)

lemma step_connected_inv: "wd_inv w \<Longrightarrow> wd_inv (snd (step_connected D P clk w))"
proof -
  assume w: "wd_inv w"
  have u: "\<And>d p. wd_inv (w\<lparr>wd_dialer := d, wd_prober := p\<rparr>)"
    using w by (simp add: wd_inv_def)
  show ?thesis
    using u by (auto simp: step_connected_def Let_def hangup_def record_drop_def
        intro!: do_dial_inv alive_step_inv bad_probe_step_inv
        split: prod.splits probe_verdict.splits)
qed

lemma manual_redial_inv: "wd_inv w \<Longrightarrow> wd_inv (snd (manual_redial D clk w))"
  by (auto simp: manual_redial_def Let_def hangup_def record_drop_def
      intro!: do_dial_inv split: prod.splits) (auto simp: wd_inv_def)

lemma run_once_inv [wf_intros]: "wd_inv w \<Longrightarrow> wd_inv (snd (run_once D P clk w))"
proof -
  assume w: "wd_inv w"
  have "wd_inv (w\<lparr>wd_redial_requested := False\<rparr>)" using w by (simp add: wd_inv_def)
  moreover have "wd_phase w \<noteq> PConnected \<Longrightarrow> wd_inv (snd (do_dial D clk w))"
    using w by (intro do_dial_inv) (simp_all add: wd_inv_def)
  ultimately show ?thesis using w
    by (simp add: run_once_def manual_redial_inv step_connected_inv)
qed

text \<open>The operations of the runtime's main loop on the watchdog.\<close>

inductive wd_reach ::
  "'d dialer_ops \<Rightarrow> 'p prober \<Rightarrow> watchdog_cfg \<Rightarrow> ('d, 'p) watchdog \<Rightarrow> bool"
  for D P cfg where
  reach_new: "wd_reach D P cfg (watchdog_new d p cfg)"
| reach_step: "wd_reach D P cfg w \<Longrightarrow> wd_reach D P cfg (snd (run_once D P clk w))"
| reach_link: "wd_reach D P cfg w \<Longrightarrow> wd_reach D P cfg (set_eth_link up w)"
| reach_redial: "wd_reach D P cfg w \<Longrightarrow> wd_reach D P cfg (request_redial w)"
| reach_shutdown: "wd_reach D P cfg w \<Longrightarrow> wd_reach D P cfg (watchdog_shutdown D w)"

lemma wd_reach_inv: "wd_reach D P cfg w \<Longrightarrow> wd_inv w"
  by (induction rule: wd_reach.induct) (simp_all add: wd_inv_new run_once_inv)

lemma do_dial_cfg [simp]: "wd_cfg (snd (do_dial D clk w)) = wd_cfg w"
  by (auto simp: do_dial_def dial_ok_def dial_failed_def Let_def
      split: prod.splits sum.splits err_kind.splits)

lemma do_dial_backoff:
  "bo_min (wd_backoff (snd (do_dial D clk w))) = bo_min (wd_backoff w)"
  "bo_max (wd_backoff (snd (do_dial D clk w))) = bo_max (wd_backoff w)"
  by (simp_all add: do_dial_def dial_ok_def dial_failed_def Let_def case_prod_beta
      split: sum.splits err_kind.splits)

lemma run_once_cfg [simp]: "wd_cfg (snd (run_once D P clk w)) = wd_cfg w"
  by (auto simp: run_once_def manual_redial_def step_connected_def alive_step_def
      bad_probe_step_def hangup_def record_drop_def Let_def split: prod.splits probe_verdict.splits)

lemma run_once_backoff:
  "bo_min (wd_backoff (snd (run_once D P clk w))) = bo_min (wd_backoff w)"
  "bo_max (wd_backoff (snd (run_once D P clk w))) = bo_max (wd_backoff w)"
  by (auto simp: run_once_def manual_redial_def step_connected_def alive_step_def backoff_reset_def
      bad_probe_step_def hangup_def record_drop_def Let_def do_dial_backoff
      split: prod.splits probe_verdict.splits)

lemma wd_reach_cfg:
  "wd_reach D P cfg w \<Longrightarrow> wd_cfg w = cfg \<and> bo_min (wd_backoff w) = wg_redial_min cfg
     \<and> bo_max (wd_backoff w) = wg_redial_max cfg"
  by (induction rule: wd_reach.induct)
     (simp_all add: run_once_backoff watchdog_new_def backoff_new_def set_eth_link_def
       request_redial_def watchdog_shutdown_def)

section \<open>Functional behaviour of the parts\<close>

lemma do_dial_gated [step_simps]:
  "wd_eth_link w = Some False \<Longrightarrow> do_dial D clk w = (link_down_retry,
     w\<lparr>wd_phase := PBackoff, wd_last_drop_reason := Some link_down_reason\<rparr>)"
  by (simp add: do_dial_def)

lemma do_dial_open:
  assumes "wd_eth_link w \<noteq> Some False"
  shows "wd_dialer (snd (do_dial D clk w)) = snd (dl_dial D (wd_dialer w))"
    and "wd_dial_calls (snd (do_dial D clk w)) = wd_dial_calls w + 1"
    and "wd_phase (snd (do_dial D clk w)) =
      (case fst (dl_dial D (wd_dialer w)) of Inr _ \<Rightarrow> PConnected
       | Inl e \<Rightarrow> (case de_kind e of AuthKind \<Rightarrow> PAuthFail | TransientKind \<Rightarrow> PBackoff))"
    and "fst (do_dial D clk w) =
      (case fst (dl_dial D (wd_dialer w)) of Inr _ \<Rightarrow> wg_probe_interval (wd_cfg w)
       | Inl e \<Rightarrow> (case de_kind e of AuthKind \<Rightarrow> wg_auth_fail_delay (wd_cfg w)
                  | TransientKind \<Rightarrow> fst (next_delay (wd_backoff w))))"
  using assms
  by (simp_all add: do_dial_def dial_ok_def dial_failed_def Let_def case_prod_beta
      split: sum.splits err_kind.splits)

lemma do_dial_fixed [simp]:
  "wd_redial_requested (snd (do_dial D clk w)) = wd_redial_requested w"
  "wd_eth_link (snd (do_dial D clk w)) = wd_eth_link w"
  "wd_prober (snd (do_dial D clk w)) = wd_prober w"
  by (simp_all add: do_dial_def dial_ok_def dial_failed_def Let_def case_prod_beta
      split: sum.splits err_kind.splits)

lemma run_once_eth_link [simp]: "wd_eth_link (snd (run_once D P clk w)) = wd_eth_link w"
  by (auto simp: run_once_def manual_redial_def step_connected_def alive_step_def
      bad_probe_step_def hangup_def record_drop_def Let_def case_prod_beta
      split: probe_verdict.splits)

lemma run_once_consumes [simp]: "\<not> wd_redial_requested (snd (run_once D P clk w))"
  by (auto simp: run_once_def manual_redial_def step_connected_def alive_step_def
      bad_probe_step_def hangup_def record_drop_def Let_def case_prod_beta
      split: probe_verdict.splits)

text \<open>
  A step in the connected phase keeps the session or records a drop, hangs up and dials.
\<close>

lemma bad_probe_step_cases:
  "bad_probe_step D clk v w = (wg_probe_interval (wd_cfg w) div 4,
      w\<lparr>wd_probe_fails := wd_probe_fails w + 1\<rparr>)
   \<or> (\<exists>r. bad_probe_step D clk v w =
        do_dial D clk (hangup D (record_drop r (w\<lparr>wd_probe_fails := wd_probe_fails w + 1\<rparr>))))"
  by (auto simp: bad_probe_step_def Let_def)

definition same_session :: "('d, 'p) watchdog \<Rightarrow> ('d, 'p) watchdog \<Rightarrow> bool" where
  "same_session w w' \<longleftrightarrow> wd_phase w' = wd_phase w \<and> wd_dial_calls w' = wd_dial_calls w
     \<and> wd_since w' = wd_since w"

lemma step_connected_cases:
  obtains (kept) "same_session w (snd (step_connected D P clk w))"
      "wd_dialer (snd (step_connected D P clk w)) = snd (dl_is_connected D (wd_dialer w))"
  | (redial) r w' where "step_connected D P clk w = do_dial D clk (hangup D (record_drop r w'))"
      "wd_dialer w' = snd (dl_is_connected D (wd_dialer w))" "wd_eth_link w' = wd_eth_link w"
      "wd_dial_calls w' = wd_dial_calls w"
proof (cases "fst (dl_is_connected D (wd_dialer w))")
  case False
  show thesis
  proof (rule redial)
    show "step_connected D P clk w = do_dial D clk (hangup D (record_drop ''RAS session not found''
            (w\<lparr>wd_dialer := snd (dl_is_connected D (wd_dialer w))\<rparr>)))"
      using False by (simp add: step_connected_def Let_def case_prod_beta)
  qed simp_all
next
  case True
  define u where "u = w\<lparr>wd_dialer := snd (dl_is_connected D (wd_dialer w)),
    wd_prober := snd (P (wd_prober w))\<rparr>"
  have s: "step_connected D P clk w = (case fst (P (wd_prober w)) of Alive \<Rightarrow> alive_step u
      | v \<Rightarrow> bad_probe_step D clk v u)"
    using True by (simp add: step_connected_def Let_def case_prod_beta u_def
        split: probe_verdict.splits)
  show thesis
  proof (cases "fst (P (wd_prober w)) = Alive")
    case True
    then show thesis by (intro kept; simp add: s alive_step_def Let_def same_session_def u_def)
  next
    case False
    then have s': "step_connected D P clk w = bad_probe_step D clk (fst (P (wd_prober w))) u"
      by (simp add: s split: probe_verdict.splits)
    from bad_probe_step_cases [of D clk "fst (P (wd_prober w))" u] show thesis
    proof (elim disjE exE)
      assume "bad_probe_step D clk (fst (P (wd_prober w))) u
        = (wg_probe_interval (wd_cfg u) div 4, u\<lparr>wd_probe_fails := wd_probe_fails u + 1\<rparr>)"
      then show thesis by (intro kept; simp add: s' same_session_def u_def)
    next
      fix r assume "bad_probe_step D clk (fst (P (wd_prober w))) u
        = do_dial D clk (hangup D (record_drop r (u\<lparr>wd_probe_fails := wd_probe_fails u + 1\<rparr>)))"
      then show thesis
        by (intro redial [of r "u\<lparr>wd_probe_fails := wd_probe_fails u + 1\<rparr>"]) (simp_all add: s' u_def)
    qed
  qed
qed

section \<open>The dialer contract\<close>

text \<open>
  What the watchdog relies on: \<open>live\<close> says the dialer holds a session handle. Hanging up drops
  it, a successful dial creates it, a failed dial does not, and only a held handle can report a
  connection. \<open>is_connected\<close> only reads.
\<close>

locale dialer_contract =
  fixes D :: "'d dialer_ops" and live :: "'d \<Rightarrow> bool"
  assumes hangup_dead: "\<not> live (dl_hangup D d)"
    and dial_ok_held: "dl_dial D d = (Inr u, d') \<Longrightarrow> live d'"
    and dial_err_held: "dl_dial D d = (Inl e, d') \<Longrightarrow> live d' = live d"
    and connected_held: "fst (dl_is_connected D d) \<Longrightarrow> live d"
    and connected_reads: "snd (dl_is_connected D d) = d"
begin

text \<open>The watchdog holds a session exactly in the connected phase.\<close>

definition held_inv :: "('d, 'p) watchdog \<Rightarrow> bool" where
  "held_inv w \<longleftrightarrow> (live (wd_dialer w) \<longleftrightarrow> wd_phase w = PConnected)"

lemma do_dial_held:
  assumes "\<not> live (wd_dialer w)" shows "held_inv (snd (do_dial D clk w))"
proof (cases "wd_eth_link w = Some False")
  case True
  with assms show ?thesis by (simp add: held_inv_def do_dial_gated)
next
  case False
  obtain r d where r: "dl_dial D (wd_dialer w) = (r, d)" by (cases "dl_dial D (wd_dialer w)")
  show ?thesis
  proof (cases r)
    case (Inl e)
    with r assms dial_err_held have "\<not> live d" by blast
    with Inl r False show ?thesis by (simp add: held_inv_def do_dial_open split: err_kind.splits)
  next
    case (Inr u)
    with r dial_ok_held have "live d" by blast
    with Inr r False show ?thesis by (simp add: held_inv_def do_dial_open)
  qed
qed

text \<open>
  Every step either leaves the dialer alone or runs \<open>do_dial\<close> on a watchdog that holds no
  session.
\<close>

lemma run_once_dials_dead:
  assumes "held_inv w"
  shows "(wd_dialer (snd (run_once D P clk w)) = wd_dialer w
            \<and> same_session w (snd (run_once D P clk w)))
       \<or> (\<exists>w'. run_once D P clk w = do_dial D clk w' \<and> \<not> live (wd_dialer w')
              \<and> wd_eth_link w' = wd_eth_link w \<and> wd_dial_calls w' = wd_dial_calls w)"
proof (cases "wd_redial_requested w \<or> wd_phase w \<noteq> PConnected")
  case True
  have "\<not> fst (dl_is_connected D (wd_dialer w)) \<or> wd_phase w = PConnected"
    using assms connected_held by (auto simp: held_inv_def)
  with True assms show ?thesis
    by (intro disjI2)
       (force simp: run_once_def manual_redial_def Let_def case_prod_beta hangup_def
         record_drop_def held_inv_def hangup_dead connected_reads)
next
  case False
  then have r: "run_once D P clk w = step_connected D P clk w" by (simp add: run_once_def)
  show ?thesis
  proof (cases rule: step_connected_cases [of w D P clk])
    case kept
    then show ?thesis by (simp add: r connected_reads)
  next
    case (redial reason w')
    then have "\<exists>u. step_connected D P clk w = do_dial D clk u \<and> \<not> live (wd_dialer u)
        \<and> wd_eth_link u = wd_eth_link w \<and> wd_dial_calls u = wd_dial_calls w"
      by (intro exI [of _ "hangup D (record_drop reason w')"])
         (simp add: hangup_def record_drop_def hangup_dead)
    then show ?thesis by (simp add: r)
  qed
qed

lemma run_once_held [wf_intros]:
  assumes "held_inv w" shows "held_inv (snd (run_once D P clk w))"
proof -
  from run_once_dials_dead [OF assms, of P clk] show ?thesis
  proof (elim disjE exE conjE)
    assume "wd_dialer (snd (run_once D P clk w)) = wd_dialer w"
      "same_session w (snd (run_once D P clk w))"
    with assms show ?thesis by (simp add: held_inv_def same_session_def)
  next
    fix w' assume "run_once D P clk w = do_dial D clk w'" "\<not> live (wd_dialer w')"
    then show ?thesis using do_dial_held [of w' clk] by simp
  qed
qed

lemma dial_only_dead:
  assumes "held_inv w" "wd_dial_calls (snd (run_once D P clk w)) \<noteq> wd_dial_calls w"
  shows "wd_eth_link w \<noteq> Some False
    \<and> (\<exists>d. \<not> live d \<and> wd_dialer (snd (run_once D P clk w)) = snd (dl_dial D d))"
proof -
  from run_once_dials_dead [OF assms(1), of P clk] assms(2) obtain w' where
    w': "run_once D P clk w = do_dial D clk w'" "\<not> live (wd_dialer w')"
      "wd_eth_link w' = wd_eth_link w" "wd_dial_calls w' = wd_dial_calls w"
    by (auto simp: same_session_def)
  with assms(2) have "wd_eth_link w' \<noteq> Some False" by (auto simp: do_dial_gated)
  with w' show ?thesis by (auto simp: do_dial_open(1))
qed

end

section \<open>The properties\<close>

text \<open>
  While the cable is reported unplugged, no step dials: the dial counter stays, the
  phase can stay connected only on a session that was already there, and any step that would dial
  goes to the back-off phase with the link-down reason and polls again in five seconds.
\<close>

theorem unplugged_never_dials:
  assumes "wd_eth_link w = Some False"
  shows "wd_dial_calls (snd (run_once D P clk w)) = wd_dial_calls w
    \<and> (wd_phase (snd (run_once D P clk w)) = PConnected \<longrightarrow>
         wd_phase w = PConnected \<and> wd_since (snd (run_once D P clk w)) = wd_since w)
    \<and> (wd_phase w \<noteq> PConnected \<or> wd_redial_requested w \<longrightarrow>
         fst (run_once D P clk w) = from_secs 5
         \<and> wd_phase (snd (run_once D P clk w)) = PBackoff
         \<and> wd_last_drop_reason (snd (run_once D P clk w)) = Some ''Ethernet link down'')"
proof (cases "wd_phase w \<noteq> PConnected \<or> wd_redial_requested w")
  case True
  then show ?thesis using assms
    by (auto simp: run_once_def manual_redial_def Let_def case_prod_beta hangup_def record_drop_def
        do_dial_gated link_down_reason_def link_down_retry_def)
next
  case False
  then have r: "run_once D P clk w = step_connected D P clk w" by (simp add: run_once_def)
  show ?thesis
  proof (cases rule: step_connected_cases [of w D P clk])
    case kept
    with False show ?thesis by (simp add: r same_session_def)
  next
    case (redial reason w')
    with False assms show ?thesis by (simp add: r do_dial_gated hangup_def record_drop_def)
  qed
qed

theorem unplugged_never_dials_witness:
  "wd_phase (snd (run_once \<lparr>dl_dial = \<lambda>d. (Inr (), Suc d), dl_hangup = id, dl_is_connected = \<lambda>d. (True, d)\<rparr>
      (\<lambda>p::unit. (Alive, p)) 0 (set_eth_link (Some False)
        (watchdog_new (0::nat) () \<lparr>wg_redial_min = 1, wg_redial_max = 2, wg_probe_interval = 3,
           wg_auth_fail_delay = 4\<rparr>)))) = PBackoff"
  using unplugged_never_dials [of "set_eth_link (Some False)
        (watchdog_new (0::nat) () \<lparr>wg_redial_min = 1, wg_redial_max = 2, wg_probe_interval = 3,
           wg_auth_fail_delay = 4\<rparr>)"
      "\<lparr>dl_dial = \<lambda>d. (Inr (), Suc d), dl_hangup = id, dl_is_connected = \<lambda>d. (True, d)\<rparr>"
      "\<lambda>p. (Alive, p)" 0]
  by (simp add: set_eth_link_def watchdog_new_def)

section \<open>Runs of several steps\<close>

fun wd_steps ::
  "'d dialer_ops \<Rightarrow> 'p prober \<Rightarrow> int \<Rightarrow> nat \<Rightarrow> ('d, 'p) watchdog \<Rightarrow> ('d, 'p) watchdog" where
  "wd_steps D P clk 0 w = w"
| "wd_steps D P clk (Suc n) w = wd_steps D P clk n (snd (run_once D P clk w))"

lemma wd_steps_eth_link [simp]: "wd_eth_link (wd_steps D P clk n w) = wd_eth_link w"
  by (induction n arbitrary: w) auto

lemma wd_steps_add:
  "wd_steps D P clk (m + n) w = wd_steps D P clk n (wd_steps D P clk m w)"
  by (induction m arbitrary: w) auto

text \<open>One probe of a session that is up.\<close>

lemma connected_alive:
  assumes "wd_phase w = PConnected" "\<not> wd_redial_requested w"
    "dl_is_connected D (wd_dialer w) = (True, wd_dialer w)" "P (wd_prober w) = (Alive, p)"
  shows "run_once D P clk w = alive_step (w\<lparr>wd_prober := p\<rparr>)"
  using assms by (simp add: run_once_def step_connected_def)

lemma connected_bad:
  assumes "wd_phase w = PConnected" "\<not> wd_redial_requested w"
    "dl_is_connected D (wd_dialer w) = (True, wd_dialer w)" "P (wd_prober w) = (v, p)" "v \<noteq> Alive"
  shows "run_once D P clk w = bad_probe_step D clk v (w\<lparr>wd_prober := p\<rparr>)"
  using assms by (cases v) (simp_all add: run_once_def step_connected_def)

text \<open>The redial counter and the exponent of the back-off move together.\<close>

definition counters_agree :: "('d, 'p) watchdog \<Rightarrow> bool" where
  "counters_agree w \<longleftrightarrow> bo_attempt (wd_backoff w) = wd_attempts w"

lemma do_dial_agree: "counters_agree w \<Longrightarrow> counters_agree (snd (do_dial D clk w))"
  by (auto simp: counters_agree_def do_dial_def dial_ok_def dial_failed_def Let_def case_prod_beta
      split: sum.splits err_kind.splits)

lemma run_once_agree: "counters_agree w \<Longrightarrow> counters_agree (snd (run_once D P clk w))"
  by (auto simp: run_once_def manual_redial_def step_connected_def alive_step_def
      bad_probe_step_def Let_def case_prod_beta hangup_def record_drop_def backoff_reset_def
      intro!: do_dial_agree split: probe_verdict.splits)
     (auto simp: counters_agree_def)

lemma wd_reach_agree: "wd_reach D P cfg w \<Longrightarrow> counters_agree w"
proof (induction rule: wd_reach.induct)
  case (reach_step w clk)
  then show ?case by (simp add: run_once_agree)
qed (simp_all add: counters_agree_def watchdog_new_def backoff_new_def set_eth_link_def
       request_redial_def watchdog_shutdown_def)

lemma alive_steps:
  assumes conn: "\<And>d. dl_is_connected D d = (True, d)" and alive: "\<And>p. fst (P p) = Alive"
  shows "wd_phase w = PConnected \<Longrightarrow> \<not> wd_redial_requested w \<Longrightarrow> counters_agree w \<Longrightarrow>
    wd_phase (wd_steps D P clk n w) = PConnected
    \<and> \<not> wd_redial_requested (wd_steps D P clk n w)
    \<and> counters_agree (wd_steps D P clk n w)
    \<and> wd_dial_calls (wd_steps D P clk n w) = wd_dial_calls w
    \<and> wd_attempts (wd_steps D P clk n w) =
        (if 0 < n \<and> stable_reset_after \<le> wd_stable_for w + n * wg_probe_interval (wd_cfg w)
         then 0 else wd_attempts w)"
proof (induction n arbitrary: w)
  case 0
  then show ?case by simp
next
  case (Suc n)
  obtain p where p: "P (wd_prober w) = (Alive, p)"
    using alive [of "wd_prober w"] by (cases "P (wd_prober w)") auto
  define u where "u = snd (run_once D P clk w)"
  have u: "u = snd (alive_step (w\<lparr>wd_prober := p\<rparr>))"
    using Suc.prems conn p by (simp add: u_def connected_alive)
  have c: "counters_agree u" unfolding u_def by (rule run_once_agree) fact
  have f: "wd_phase u = PConnected" "\<not> wd_redial_requested u" "wd_cfg u = wd_cfg w"
    "wd_dial_calls u = wd_dial_calls w"
    "wd_stable_for u = wd_stable_for w + wg_probe_interval (wd_cfg w)"
    "wd_attempts u = (if stable_reset_after \<le> wd_stable_for w + wg_probe_interval (wd_cfg w)
       then 0 else wd_attempts w)"
    using Suc.prems by (auto simp: u alive_step_def Let_def word_gt_0)
  from Suc.IH [OF f(1,2) c] show ?case
    by (auto simp: f u_def [symmetric] algebra_simps)
qed

text \<open>
  A session whose probes all succeed is never redialled, and it clears the redial
  counter and the back-off exactly when its uninterrupted probes add up to 300 s: the counter
  after \<open>n\<close> probes is the one of the dial before that and zero from then on, and the next failure
  after the reset waits the minimum delay again.
\<close>

theorem stable_session_resets_backoff:
  assumes "wd_reach D P cfg w" and "wg_redial_min cfg \<le> duration_max"
    and "\<And>d. dl_is_connected D d = (True, d)" and "\<And>p. fst (P p) = Alive"
    and "wd_phase w = PConnected" "\<not> wd_redial_requested w" "wd_stable_for w = 0"
  shows "let w' = wd_steps D P clk n w in
     wd_phase w' = PConnected \<and> wd_dial_calls w' = wd_dial_calls w
    \<and> wd_attempts w' =
        (if from_secs 300 \<le> n * wg_probe_interval cfg then 0 else wd_attempts w)
    \<and> (from_secs 300 \<le> n * wg_probe_interval cfg
         \<longrightarrow> fst (next_delay (wd_backoff w')) = wg_redial_min cfg)"
proof -
  define w' where "w' = wd_steps D P clk n w"
  have a: "counters_agree w" by (rule wd_reach_agree) fact
  have c: "wd_cfg w = cfg" using wd_reach_cfg assms(1) by blast
  from alive_steps [of D P w clk n, OF assms(3,4,5,6) a]
  have s: "wd_phase w' = PConnected" "counters_agree w'" "wd_dial_calls w' = wd_dial_calls w"
    "wd_attempts w' =
        (if 0 < n \<and> from_secs 300 \<le> n * wg_probe_interval cfg then 0 else wd_attempts w)"
    by (simp_all add: w'_def assms(7) c stable_reset_after_def)
  have "wd_reach D P cfg w'" unfolding w'_def using assms(1)
    by (induction n arbitrary: w) (auto intro: reach_step)
  then have b: "bo_min (wd_backoff w') = wg_redial_min cfg" using wd_reach_cfg by blast
  have p: "0 < n" if "from_secs 300 \<le> n * wg_probe_interval cfg"
    using that by (cases n) (simp_all add: from_secs_def)
  show ?thesis unfolding w'_def [symmetric] Let_def
  proof (intro conjI impI)
    assume l: "from_secs 300 \<le> n * wg_probe_interval cfg"
    with s p have "bo_attempt (wd_backoff w') = 0" by (simp add: counters_agree_def)
    then show "fst (next_delay (wd_backoff w')) = wg_redial_min cfg"
      using assms(2) b by (simp add: next_delay_value)
  qed (use s p in auto)
qed

definition demo_dialer :: "nat dialer_ops" where
  "demo_dialer = \<lparr>dl_dial = \<lambda>d. (Inr (), Suc d), dl_hangup = \<lambda>d. 0, dl_is_connected = \<lambda>d. (True, d)\<rparr>"

definition demo_cfg :: watchdog_cfg where
  "demo_cfg = \<lparr>wg_redial_min = from_secs 1, wg_redial_max = from_secs 300,
     wg_probe_interval = from_secs 30, wg_auth_fail_delay = from_secs 600\<rparr>"

lemma demo_dialer_simps [simp]:
  "dl_dial demo_dialer d = (Inr (), Suc d)" "dl_hangup demo_dialer d = 0"
  "dl_is_connected demo_dialer d = (True, d)"
  by (simp_all add: demo_dialer_def)

lemma demo_connected:
  "wd_reach demo_dialer P demo_cfg (snd (run_once demo_dialer P 0 (watchdog_new 0 p demo_cfg)))"
  "wd_phase (snd (run_once demo_dialer P 0 (watchdog_new 0 p demo_cfg))) = PConnected"
  "wd_stable_for (snd (run_once demo_dialer P 0 (watchdog_new 0 p demo_cfg))) = 0"
  "wd_probe_fails (snd (run_once demo_dialer P 0 (watchdog_new 0 p demo_cfg))) = 0"
  "wd_prober (snd (run_once demo_dialer P 0 (watchdog_new 0 p demo_cfg))) = p"
  "wd_eth_link (snd (run_once demo_dialer P 0 (watchdog_new 0 p demo_cfg))) = None"
  by (auto intro: reach_step reach_new)
     (simp_all add: run_once_def do_dial_def watchdog_new_def dial_ok_def)

theorem stable_session_resets_backoff_witness:
  "wd_attempts (wd_steps demo_dialer (\<lambda>p::unit. (Alive, p)) 0 10
     (snd (run_once demo_dialer (\<lambda>p. (Alive, p)) 0 (watchdog_new 0 () demo_cfg)))) = 0"
proof -
  have "wg_redial_min demo_cfg \<le> duration_max"
    by (simp add: demo_cfg_def from_secs_def duration_max_def)
  moreover have "\<And>d. dl_is_connected demo_dialer d = (True, d)" by (simp add: demo_dialer_def)
  moreover have "from_secs 300 \<le> 10 * wg_probe_interval demo_cfg"
    by (simp add: demo_cfg_def from_secs_def)
  ultimately show ?thesis
    using stable_session_resets_backoff [where n = 10 and clk = 0 and P = "\<lambda>p::unit. (Alive, p)",
        OF demo_connected(1) _ _ _ demo_connected(2) _ demo_connected(3)]
    by (simp add: Let_def)
qed

section \<open>Two strikes\<close>

text \<open>A prober that plays a given list of verdicts.\<close>

fun scripted :: "probe_verdict list \<Rightarrow> probe_verdict \<times> probe_verdict list" where
  "scripted [] = (Alive, [])"
| "scripted (v # vs) = (v, vs)"

text \<open>\<open>struck f vs\<close>: with \<open>f\<close> telling whether a strike is already counted, two bad verdicts
  follow each other in \<open>vs\<close>.\<close>

fun struck :: "bool \<Rightarrow> probe_verdict list \<Rightarrow> bool" where
  "struck f [] = False"
| "struck f (v # vs) = (if v = Alive then struck False vs else f \<or> struck True vs)"

definition session_up :: "'d \<Rightarrow> bool \<Rightarrow> ('d, 'p) watchdog \<Rightarrow> bool" where
  "session_up d f w \<longleftrightarrow> wd_phase w = PConnected \<and> \<not> wd_redial_requested w \<and> wd_dialer w = d
     \<and> wd_probe_fails w = (if f then 1 else 0)"

lemma session_up_alive:
  assumes "dl_is_connected D d = (True, d)" "session_up d f w" "wd_prober w = Alive # vs"
  shows "session_up d False (snd (run_once D scripted clk w))
    \<and> wd_prober (snd (run_once D scripted clk w)) = vs
    \<and> wd_dial_calls (snd (run_once D scripted clk w)) = wd_dial_calls w"
  using assms by (simp add: session_up_def connected_alive alive_step_def Let_def)

lemma session_up_first_strike:
  assumes "dl_is_connected D d = (True, d)" "session_up d False w" "wd_prober w = v # vs" "v \<noteq> Alive"
  shows "session_up d True (snd (run_once D scripted clk w))
    \<and> wd_prober (snd (run_once D scripted clk w)) = vs
    \<and> wd_dial_calls (snd (run_once D scripted clk w)) = wd_dial_calls w
    \<and> fst (run_once D scripted clk w) = wg_probe_interval (wd_cfg w) div 4"
  using assms by (simp add: session_up_def connected_bad bad_probe_step_def Let_def)

lemma session_up_second_strike:
  assumes "dl_is_connected D d = (True, d)" "session_up d True w" "wd_prober w = v # vs" "v \<noteq> Alive"
  shows "\<exists>r. run_once D scripted clk w = do_dial D clk (hangup D (record_drop r
     (w\<lparr>wd_prober := vs, wd_probe_fails := 2\<rparr>)))"
  using assms by (auto simp: session_up_def connected_bad bad_probe_step_def Let_def)

lemma unstruck_steps:
  assumes conn: "dl_is_connected D d = (True, d)"
  shows "session_up d f w \<Longrightarrow> wd_prober w = vs @ rest \<Longrightarrow> \<not> struck f vs \<Longrightarrow>
    (\<exists>f'. session_up d f' (wd_steps D scripted clk (length vs) w)
      \<and> (\<forall>v. struck f (vs @ [v]) \<longrightarrow> f' \<and> v \<noteq> Alive))
    \<and> wd_prober (wd_steps D scripted clk (length vs) w) = rest
    \<and> wd_dial_calls (wd_steps D scripted clk (length vs) w) = wd_dial_calls w"
proof (induction vs arbitrary: f w)
  case Nil
  then show ?case by (auto split: if_splits)
next
  case (Cons v vs)
  show ?case
  proof (cases "v = Alive")
    case True
    from session_up_alive [OF conn Cons.prems(1), of "vs @ rest" clk] Cons.prems(2) True
    have u: "session_up d False (snd (run_once D scripted clk w))"
      "wd_prober (snd (run_once D scripted clk w)) = vs @ rest"
      "wd_dial_calls (snd (run_once D scripted clk w)) = wd_dial_calls w" by auto
    from Cons.IH [OF u(1,2)] Cons.prems(3) True u(3) show ?thesis by simp
  next
    case False
    with Cons.prems(3) have f: "f = False" "\<not> struck True vs" by auto
    from session_up_first_strike [OF conn _ _ False, of w "vs @ rest" clk] Cons.prems f
    have u: "session_up d True (snd (run_once D scripted clk w))"
      "wd_prober (snd (run_once D scripted clk w)) = vs @ rest"
      "wd_dial_calls (snd (run_once D scripted clk w)) = wd_dial_calls w" by auto
    from Cons.IH [OF u(1,2) f(2)] False f u(3) show ?thesis by simp
  qed
qed

text \<open>
  C19 (functional). A session the dialer reports as up is given up exactly at the second bad verdict
  in a row: as long as the verdicts hold no two adjacent bad ones, the session, its handle and the
  dial counter stay, and at the first adjacent pair the old session is hung up before the one dial
  (which an unplugged cable holds back).
\<close>

theorem two_strikes_then_redial:
  assumes "dl_is_connected D (wd_dialer w) = (True, wd_dialer w)"
    and "wd_phase w = PConnected" "\<not> wd_redial_requested w" "wd_probe_fails w = 0"
    and "wd_prober w = vs @ v # rest" and "\<not> struck False vs"
  shows "wd_phase (wd_steps D scripted clk (length vs) w) = PConnected
    \<and> wd_dialer (wd_steps D scripted clk (length vs) w) = wd_dialer w
    \<and> wd_dial_calls (wd_steps D scripted clk (length vs) w) = wd_dial_calls w
    \<and> (struck False (vs @ [v]) \<longrightarrow>
         wd_dialer (wd_steps D scripted clk (Suc (length vs)) w) =
           (if wd_eth_link w = Some False
            then dl_hangup D (wd_dialer w)
            else snd (dl_dial D (dl_hangup D (wd_dialer w)))))"
proof -
  define u where "u = wd_steps D scripted clk (length vs) w"
  have "session_up (wd_dialer w) False w" using assms by (simp add: session_up_def)
  from unstruck_steps [OF assms(1) this assms(5,6), of clk] obtain f where
    u: "session_up (wd_dialer w) f u" "wd_prober u = v # rest" "wd_dial_calls u = wd_dial_calls w"
      "struck False (vs @ [v]) \<Longrightarrow> f \<and> v \<noteq> Alive"
    unfolding u_def by blast
  have s: "wd_steps D scripted clk (Suc (length vs)) w = snd (run_once D scripted clk u)"
    using wd_steps_add [of D scripted clk "length vs" 1 w] by (simp add: u_def)
  have "wd_dialer (snd (run_once D scripted clk u)) = (if wd_eth_link w = Some False
      then dl_hangup D (wd_dialer w) else snd (dl_dial D (dl_hangup D (wd_dialer w))))"
    if st: "struck False (vs @ [v])"
  proof -
    from u(4) [OF st] have f: "f" "v \<noteq> Alive" by auto
    from session_up_second_strike [OF assms(1) _ u(2) f(2), of clk] u(1) f(1) obtain r where
      r: "run_once D scripted clk u = do_dial D clk (hangup D (record_drop r
         (u\<lparr>wd_prober := rest, wd_probe_fails := 2\<rparr>)))" by auto
    have "wd_dialer u = wd_dialer w" using u(1) by (simp add: session_up_def)
    moreover have "wd_eth_link u = wd_eth_link w" by (simp add: u_def)
    ultimately show ?thesis unfolding r
      by (simp add: do_dial_gated do_dial_open(1) hangup_def record_drop_def)
  qed
  with u(1,3) show ?thesis unfolding s by (simp add: u_def [symmetric] session_up_def)
qed

theorem two_strikes_then_redial_witness:
  "wd_dialer (wd_steps demo_dialer scripted 0 4
     (snd (run_once demo_dialer scripted 0
        (watchdog_new 0 [Kicked, Alive, LinkDown, Kicked] demo_cfg)))) = 1"
proof -
  let ?w = "snd (run_once demo_dialer scripted 0
        (watchdog_new 0 [Kicked, Alive, LinkDown, Kicked] demo_cfg))"
  have c: "\<And>d. dl_is_connected demo_dialer d = (True, d)" by (simp add: demo_dialer_def)
  have p: "wd_prober ?w = [Kicked, Alive, LinkDown] @ Kicked # []" by (simp add: demo_connected)
  have "wd_dialer (wd_steps demo_dialer scripted 0 (Suc (length [Kicked, Alive, LinkDown])) ?w) = 1"
    using two_strikes_then_redial [OF c demo_connected(2) run_once_consumes demo_connected(4) p, of 0]
    by (simp del: wd_steps.simps) (simp add: watchdog_new_def)
  then show ?thesis by (simp del: wd_steps.simps add: eval_nat_numeral)
qed

section \<open>Manual redial\<close>

text \<open>
  A requested redial (IPC command or replugged cable) is honoured by the very next
  step in every phase and consumed by it: a session that is up, or that the dialer still reports,
  is hung up first and its start time cleared, and then the step dials (unless the cable is out),
  so it never dials on top of a live session.
\<close>

theorem manual_redial_hangs_up_then_dials:
  assumes "wd_redial_requested w" and "wd_inv w"
    and "\<And>d. snd (dl_is_connected D d) = d"
  defines "d \<equiv> if wd_phase w = PConnected \<or> fst (dl_is_connected D (wd_dialer w))
      then dl_hangup D (wd_dialer w) else wd_dialer w"
  shows "\<not> wd_redial_requested (snd (run_once D P clk w))
    \<and> wd_prober (snd (run_once D P clk w)) = wd_prober w
    \<and> wd_dialer (snd (run_once D P clk w)) =
        (if wd_eth_link w = Some False then d else snd (dl_dial D d))
    \<and> wd_dial_calls (snd (run_once D P clk w)) =
        wd_dial_calls w + (if wd_eth_link w = Some False then 0 else 1)
    \<and> (wd_since (snd (run_once D P clk w)) =
        (if wd_eth_link w \<noteq> Some False \<and> (\<exists>u. fst (dl_dial D d) = Inr u) then Some clk else None))"
proof -
  define u where "u = (w\<lparr>wd_redial_requested := False\<rparr>)"
  define u' where "u' = (if wd_phase w = PConnected \<or> fst (dl_is_connected D (wd_dialer w))
      then hangup D (record_drop ''Manual redial'' u) else u)"
  have r: "run_once D P clk w = do_dial D clk u'"
    using assms(1,3) by (simp add: run_once_def manual_redial_def Let_def case_prod_beta u_def u'_def)
  have f: "wd_dialer u' = d" "wd_eth_link u' = wd_eth_link w" "wd_since u' = None"
    "wd_dial_calls u' = wd_dial_calls w" "wd_prober u' = wd_prober w"
    using assms(2) by (auto simp: u'_def u_def d_def hangup_def record_drop_def wd_inv_def)
  have "wd_since (snd (do_dial D clk u')) =
        (if wd_eth_link w \<noteq> Some False \<and> (\<exists>u. fst (dl_dial D d) = Inr u) then Some clk else None)"
    using f by (auto simp: do_dial_def dial_ok_def dial_failed_def Let_def case_prod_beta
        split: sum.splits err_kind.splits)
  with f r show ?thesis using run_once_consumes [of D P clk w]
    by (simp add: do_dial_gated do_dial_open)
qed

theorem manual_redial_hangs_up_then_dials_witness:
  "wd_dialer (snd (run_once demo_dialer (\<lambda>p::unit. (Alive, p)) 0
     (request_redial (watchdog_new 7 () demo_cfg)))) = 1"
  using manual_redial_hangs_up_then_dials [of "request_redial (watchdog_new 7 () demo_cfg)"
      demo_dialer "\<lambda>p. (Alive, p)" 0]
  by (simp add: wd_inv_new) (simp add: demo_dialer_def request_redial_def watchdog_new_def)

section \<open>Delays\<close>

definition delay_set :: "('d, 'p) watchdog \<Rightarrow> duration set" where
  "delay_set w = {link_down_retry, wg_probe_interval (wd_cfg w),
     wg_probe_interval (wd_cfg w) div 4, wg_auth_fail_delay (wd_cfg w),
     fst (next_delay (wd_backoff w))}"

lemma do_dial_delay:
  assumes "wd_cfg u = wd_cfg w" "wd_backoff u = wd_backoff w"
  shows "fst (do_dial D clk u) \<in> delay_set w"
  using assms by (simp add: delay_set_def do_dial_def dial_ok_def dial_failed_def Let_def
      case_prod_beta split: sum.splits err_kind.splits)

lemma alive_step_delay: "wd_cfg u = wd_cfg w \<Longrightarrow> fst (alive_step u) \<in> delay_set w"
  by (simp add: delay_set_def alive_step_def Let_def)

lemma bad_probe_step_delay:
  "wd_cfg u = wd_cfg w \<Longrightarrow> wd_backoff u = wd_backoff w \<Longrightarrow>
   fst (bad_probe_step D clk v u) \<in> delay_set w"
  by (simp add: bad_probe_step_def Let_def do_dial_delay hangup_def record_drop_def)
     (simp add: delay_set_def)

lemma run_once_delay: "fst (run_once D P clk w) \<in> delay_set w"
  by (simp add: run_once_def manual_redial_def step_connected_def hangup_def record_drop_def
      Let_def case_prod_beta do_dial_delay alive_step_delay bad_probe_step_delay
      split: probe_verdict.splits)

end
