(* ===== verification/Brain.thy ===== *)
theory Brain
  imports Protocol Probe Codec
begin

text \<open>
  \<open>src/src/wireless/mod.rs\<close>: the address conversion for the Windows routing table and the pure
  decision core of the wireless takeover. Times are \<open>u64\<close> seconds; the differences
  \<open>w.now - since\<close> wrap as in the release build.
\<close>

section \<open>Addresses in network byte order\<close>

text \<open>\<open>u32::from(Ipv4Addr)\<close> and its inverse: the first octet is the most significant.\<close>

fun u32_of_ipv4 :: "ipv4 \<Rightarrow> u32" where
  "u32_of_ipv4 (Ipv4 a b c d) =
     word_of_nat (unat a * 2 ^ 24 + unat b * 2 ^ 16 + unat c * 2 ^ 8 + unat d)"

definition ipv4_of_u32 :: "u32 \<Rightarrow> ipv4" where
  "ipv4_of_u32 v = (let n = unat v in
     Ipv4 (word_of_nat (n div 2 ^ 24)) (word_of_nat (n div 2 ^ 16)) (word_of_nat (n div 2 ^ 8))
          (word_of_nat n))"

text \<open>\<open>to_be\<close> on a little-endian target, the only target of the program: it swaps the bytes.\<close>

definition to_be :: "u32 \<Rightarrow> u32" where
  "to_be v = word_of_nat (from_le (rev (le_bytes 4 (unat v))))"

definition ipv4_to_s_addr :: "ipv4 \<Rightarrow> u32" where
  "ipv4_to_s_addr ip = to_be (u32_of_ipv4 ip)"

definition s_addr_to_ipv4 :: "u32 \<Rightarrow> ipv4" where
  "s_addr_to_ipv4 v = ipv4_of_u32 (to_be v)"

section \<open>The decision core\<close>

definition auth_retry_delays :: "u64 list" where
  "auth_retry_delays = [5, 15, 30]"

definition join_timeout_secs :: u64 where
  "join_timeout_secs = 60"

record world =
  w_now :: u64
  w_eth_link_up :: bool
  w_wired_connected :: bool
  w_wlan_associated :: bool
  w_wlan_ip :: bool
  w_probe :: "probe_verdict option"

datatype action = ActNone | ActAssociate | ActDisassociate | ActPortalAuth | ActProbeNow

record brain =
  br_mode :: net_mode
  br_phase :: wphase
  br_unhealthy_since :: "u64 option"
  br_healthy_since :: "u64 option"
  br_last_probe_at :: "u64 option"
  br_auth_busy :: bool
  br_auth_fail_count :: u32
  br_next_auth_at :: "u64 option"
  br_last_error :: "string option"
  br_takeover_after :: u64
  br_release_after :: u64
  br_probe_interval :: u64

definition brain_new :: "net_mode \<Rightarrow> u64 \<Rightarrow> u64 \<Rightarrow> u64 \<Rightarrow> brain" where
  "brain_new mode takeover_after release_after probe_interval =
     \<lparr>br_mode = mode, br_phase = WOff, br_unhealthy_since = None, br_healthy_since = None,
      br_last_probe_at = None, br_auth_busy = False, br_auth_fail_count = 0,
      br_next_auth_at = None, br_last_error = None, br_takeover_after = takeover_after,
      br_release_after = release_after, br_probe_interval = probe_interval\<rparr>"

definition set_mode :: "net_mode \<Rightarrow> brain \<Rightarrow> brain" where
  "set_mode m b = b\<lparr>br_mode := m\<rparr>"

definition reset_off :: "brain \<Rightarrow> brain" where
  "reset_off b = b\<lparr>br_phase := WOff, br_auth_busy := False, br_next_auth_at := None,
     br_last_error := None, br_last_probe_at := None\<rparr>"

definition brain_restart :: "brain \<Rightarrow> brain" where
  "brain_restart b = reset_off b"

definition start_join :: "brain \<Rightarrow> action \<times> brain" where
  "start_join b = (ActAssociate, b\<lparr>br_phase := WJoining, br_auth_busy := False,
     br_next_auth_at := None, br_last_error := None\<rparr>)"

definition on_auth :: "bool \<Rightarrow> string \<Rightarrow> u64 \<Rightarrow> brain \<Rightarrow> brain" where
  "on_auth ok msg now b =
     (let b = b\<lparr>br_auth_busy := False\<rparr>
      in if ok then b\<lparr>br_phase := WOnline, br_auth_fail_count := 0, br_next_auth_at := None,
                     br_last_error := None, br_last_probe_at := None\<rparr>
         else (let b = b\<lparr>br_auth_fail_count := sat_add (br_auth_fail_count b) 1\<rparr>;
                   idx = min (unat (br_auth_fail_count b) - 1) (length auth_retry_delays - 1)
               in b\<lparr>br_next_auth_at := Some (now + auth_retry_delays ! idx),
                    br_phase := WError, br_last_error := Some msg\<rparr>))"

definition brain_snapshot :: "brain \<Rightarrow> wireless_snapshot" where
  "brain_snapshot b = \<lparr>ws_phase = br_phase b, ws_ip = None, ws_last_error = br_last_error b\<rparr>"

text \<open>\<open>Option::is_none_or(|t| now >= t)\<close>.\<close>

definition due :: "u64 \<Rightarrow> u64 option \<Rightarrow> bool" where
  "due now t = (case t of None \<Rightarrow> True | Some t \<Rightarrow> t \<le> now)"

definition start_auth :: "brain \<Rightarrow> action \<times> brain" where
  "start_auth b = (ActPortalAuth, b\<lparr>br_phase := WAuthing, br_auth_busy := True,
     br_next_auth_at := None\<rparr>)"

definition keep_wireless :: "world \<Rightarrow> brain \<Rightarrow> action \<times> brain" where
  "keep_wireless w b =
     (case br_phase b of
        WOff \<Rightarrow> start_join b
      | WError \<Rightarrow> (if due (w_now w) (br_next_auth_at b) then start_join b else (ActNone, b))
      | WJoining \<Rightarrow> (if w_wlan_associated w \<and> w_wlan_ip w then start_auth b else (ActNone, b))
      | WAuthing \<Rightarrow>
          (if \<not> br_auth_busy b \<and> due (w_now w) (br_next_auth_at b)
           then (ActPortalAuth, b\<lparr>br_auth_busy := True\<rparr>) else (ActNone, b))
      | WOnline \<Rightarrow>
          (if w_probe w = Some Kicked then start_auth b
           else if \<not> w_wlan_associated w \<or> \<not> w_wlan_ip w then start_join b
           else (case br_last_probe_at b of
                   None \<Rightarrow> (ActProbeNow, b\<lparr>br_last_probe_at := Some (w_now w)\<rparr>)
                 | Some t \<Rightarrow> (if br_probe_interval b \<le> w_now w - t
                             then (ActProbeNow, b\<lparr>br_last_probe_at := Some (w_now w)\<rparr>)
                             else (ActNone, b)))))"

definition get_or_insert :: "'a option \<Rightarrow> 'a \<Rightarrow> 'a" where
  "get_or_insert o' x = (case o' of Some y \<Rightarrow> y | None \<Rightarrow> x)"

definition wired_healthy :: "world \<Rightarrow> bool" where
  "wired_healthy w \<longleftrightarrow> w_eth_link_up w \<and> w_wired_connected w"

definition decide_healthy :: "world \<Rightarrow> brain \<Rightarrow> action \<times> brain" where
  "decide_healthy w b =
     (let since = get_or_insert (br_healthy_since b) (w_now w);
          b = b\<lparr>br_unhealthy_since := None, br_healthy_since := Some since\<rparr>
      in if br_release_after b \<le> w_now w - since \<and> br_phase b \<noteq> WOff
         then (ActDisassociate, reset_off b) else (ActNone, b))"

definition decide_unhealthy :: "world \<Rightarrow> brain \<Rightarrow> action \<times> brain" where
  "decide_unhealthy w b =
     (let since = get_or_insert (br_unhealthy_since b) (w_now w);
          b = b\<lparr>br_healthy_since := None, br_unhealthy_since := Some since\<rparr>;
          debounced = br_takeover_after b \<le> w_now w - since
      in (case br_phase b of
            WOff \<Rightarrow> if debounced then start_join b else (ActNone, b)
          | WError \<Rightarrow> if due (w_now w) (br_next_auth_at b) then start_join b else (ActNone, b)
          | _ \<Rightarrow> keep_wireless w b))"

definition decide :: "world \<Rightarrow> brain \<Rightarrow> action \<times> brain" where
  "decide w b =
     (case br_mode b of
        WiredPlusStandby \<Rightarrow> keep_wireless w b
      | WiredExclusive \<Rightarrow> if wired_healthy w then decide_healthy w b else decide_unhealthy w b)"

section \<open>The invariant\<close>

definition brain_inv :: "brain \<Rightarrow> bool" where
  "brain_inv b \<longleftrightarrow> (br_auth_busy b \<longleftrightarrow> br_phase b = WAuthing)
     \<and> (br_next_auth_at b \<noteq> None \<longleftrightarrow> br_phase b = WError)
     \<and> (br_last_error b \<noteq> None \<longleftrightarrow> br_phase b = WError)"

lemma brain_inv_new [wf_intros]: "brain_inv (brain_new m t r p)"
  by (simp add: brain_inv_def brain_new_def)

lemma brain_inv_set_mode [simp]: "brain_inv (set_mode m b) = brain_inv b"
  by (simp add: brain_inv_def set_mode_def)

lemma brain_inv_restart [wf_intros]: "brain_inv (brain_restart b)"
  by (simp add: brain_inv_def brain_restart_def reset_off_def)

lemma brain_inv_on_auth [wf_intros]: "brain_inv (on_auth ok msg now b)"
  by (simp add: brain_inv_def on_auth_def Let_def)

lemma brain_inv_start_join: "brain_inv (snd (start_join b))"
  by (simp add: brain_inv_def start_join_def)

lemma brain_inv_keep: "brain_inv b \<Longrightarrow> brain_inv (snd (keep_wireless w b))"
  by (auto simp: keep_wireless_def start_auth_def start_join_def brain_inv_def
      split: wphase.splits option.splits)

lemma brain_inv_timers [simp]:
  "brain_inv (b\<lparr>br_unhealthy_since := x, br_healthy_since := y\<rparr>) = brain_inv b"
  "brain_inv (b\<lparr>br_healthy_since := y, br_unhealthy_since := x\<rparr>) = brain_inv b"
  by (simp_all add: brain_inv_def)

lemma brain_inv_reset_off: "brain_inv (reset_off b)"
  by (simp add: brain_inv_def reset_off_def)

lemma brain_inv_decide [wf_intros]: "brain_inv b \<Longrightarrow> brain_inv (snd (decide w b))"
  by (auto simp: decide_def decide_healthy_def decide_unhealthy_def Let_def brain_inv_keep
      brain_inv_reset_off brain_inv_start_join split: net_mode.splits wphase.splits)

section \<open>Byte order\<close>

lemma unat_u32_from_le:
  assumes "length bs = 4" shows "unat (word_of_nat (from_le bs) :: u32) = from_le bs"
proof -
  have "from_le bs < 256 ^ 4" using from_le_bound [of bs] assms by simp
  then have "from_le bs < 2 ^ LENGTH(32)" by simp
  then show ?thesis by (simp only: unat_of_nat mod_less)
qed

lemma to_be_from_le: "length bs = 4 \<Longrightarrow> to_be (word_of_nat (from_le bs)) = word_of_nat (from_le (rev bs))"
  using le_bytes_from_le [of bs] by (simp add: to_be_def unat_u32_from_le)

lemma u32_of_ipv4_le: "u32_of_ipv4 (Ipv4 a b c d) = word_of_nat (from_le [d, c, b, a])"
  by (simp add: algebra_simps)

lemma ipv4_to_s_addr_le: "ipv4_to_s_addr (Ipv4 a b c d) = word_of_nat (from_le [a, b, c, d])"
  unfolding ipv4_to_s_addr_def u32_of_ipv4_le by (simp only: to_be_from_le list.size rev.simps) simp

lemma ipv4_of_u32_from_le: "ipv4_of_u32 (word_of_nat (from_le [d, c, b, a])) = Ipv4 a b c d"
proof -
  define n where "n = from_le [d, c, b, a]"
  have u: "unat (word_of_nat n :: u32) = n" unfolding n_def by (rule unat_u32_from_le) simp
  have b: "unat a < 256" "unat b < 256" "unat c < 256" "unat d < 256" by (rule unat_u8_less)+
  have "le_bytes 4 n = [d, c, b, a]" unfolding n_def by (rule le_bytes_from_le_len) simp
  moreover have "(4::nat) = Suc (Suc (Suc (Suc 0)))" by simp
  ultimately have "word_of_nat n = d" "word_of_nat (n div 256) = c"
    "word_of_nat (n div 256 div 256) = b" "word_of_nat (n div 256 div 256 div 256) = a"
    by (simp_all only: le_bytes.simps list.inject)
  then show ?thesis unfolding n_def [symmetric] ipv4_of_u32_def Let_def u
    by (simp add: div_mult2_eq [symmetric])
qed

text \<open>
  The address handed to the Windows routing table has, in the memory of the
  little-endian target, the octets in dotted order, and reading such an address back gives the same
  IPv4 address (so 10.0.3.2 never turns into 2.3.0.10).
\<close>

theorem s_addr_network_order:
  "le_bytes 4 (unat (ipv4_to_s_addr (Ipv4 a b c d))) = [a, b, c, d]
   \<and> s_addr_to_ipv4 (ipv4_to_s_addr (Ipv4 a b c d)) = Ipv4 a b c d"
proof
  show "le_bytes 4 (unat (ipv4_to_s_addr (Ipv4 a b c d))) = [a, b, c, d]"
    unfolding ipv4_to_s_addr_le
    by (subst unat_u32_from_le, simp, rule le_bytes_from_le_len, simp)
  have "to_be (ipv4_to_s_addr (Ipv4 a b c d)) = word_of_nat (from_le [d, c, b, a])"
    unfolding ipv4_to_s_addr_le by (subst to_be_from_le) simp_all
  then show "s_addr_to_ipv4 (ipv4_to_s_addr (Ipv4 a b c d)) = Ipv4 a b c d"
    by (simp only: s_addr_to_ipv4_def ipv4_of_u32_from_le)
qed

interpretation s_addr: codec ipv4_to_s_addr "\<lambda>v. Some (s_addr_to_ipv4 v)" "\<lambda>_. True"
proof
  fix ip
  show "Some (s_addr_to_ipv4 (ipv4_to_s_addr ip)) = Some ip" using s_addr_network_order by (cases ip) blast
qed

section \<open>Runs in one mode\<close>

text \<open>What reaches the brain between two mode changes.\<close>

datatype brain_event = BWorld world | BAuth bool string u64 | BRestart

fun brain_apply :: "brain_event \<Rightarrow> brain \<Rightarrow> brain" where
  "brain_apply (BWorld w) b = snd (decide w b)"
| "brain_apply (BAuth ok msg now) b = on_auth ok msg now b"
| "brain_apply BRestart b = brain_restart b"

definition brain_run :: "brain_event list \<Rightarrow> brain \<Rightarrow> brain" where
  "brain_run es b = fold brain_apply es b"

fun worlds :: "brain_event list \<Rightarrow> world list" where
  "worlds [] = []"
| "worlds (BWorld w # es) = w # worlds es"
| "worlds (_ # es) = worlds es"

text \<open>The time of the first world of the unbroken run of worlds with \<open>P\<close> that ends in \<open>w\<close>.\<close>

definition streak_from :: "(world \<Rightarrow> bool) \<Rightarrow> world list \<Rightarrow> world \<Rightarrow> u64" where
  "streak_from P ws w = w_now (last (w # takeWhile P (rev ws)))"

text \<open>The failed logins since the last successful one.\<close>

fun failures :: "brain_event list \<Rightarrow> nat \<Rightarrow> nat" where
  "failures [] n = n"
| "failures (BAuth ok _ _ # es) n = failures es (if ok then 0 else Suc n)"
| "failures (_ # es) n = failures es n"

lemma worlds_append [simp]: "worlds (a @ b) = worlds a @ worlds b"
  by (induction a rule: worlds.induct) auto

lemma failures_append [simp]: "failures (a @ b) n = failures b (failures a n)"
  by (induction a n rule: failures.induct) auto

lemma brain_run_snoc: "brain_run (es @ [e]) b = brain_apply e (brain_run es b)"
  by (simp add: brain_run_def)

definition streak :: "(world \<Rightarrow> bool) \<Rightarrow> world list \<Rightarrow> u64 option" where
  "streak P ws = (case takeWhile P (rev ws) of [] \<Rightarrow> None | r \<Rightarrow> Some (w_now (last r)))"

lemma streak_snoc:
  "streak P (ws @ [w]) = (if P w then Some (get_or_insert (streak P ws) (w_now w)) else None)"
  by (auto simp: streak_def get_or_insert_def split: list.splits)

lemma streak_from_eq: "streak_from P ws w = get_or_insert (streak P ws) (w_now w)"
  by (auto simp: streak_from_def streak_def get_or_insert_def split: list.splits)

lemmas brain_defs = decide_def decide_healthy_def decide_unhealthy_def keep_wireless_def
  start_join_def start_auth_def reset_off_def on_auth_def brain_restart_def Let_def

text \<open>The settings never change, and \<open>keep_wireless\<close> leaves the two debounce timers alone.\<close>

lemma keep_wireless_fixed [simp]:
  "br_mode (snd (keep_wireless w b)) = br_mode b"
  "br_takeover_after (snd (keep_wireless w b)) = br_takeover_after b"
  "br_release_after (snd (keep_wireless w b)) = br_release_after b"
  "br_unhealthy_since (snd (keep_wireless w b)) = br_unhealthy_since b"
  "br_healthy_since (snd (keep_wireless w b)) = br_healthy_since b"
  "br_auth_fail_count (snd (keep_wireless w b)) = br_auth_fail_count b"
  by (auto simp: keep_wireless_def start_join_def start_auth_def split: wphase.splits option.splits)

lemma decide_fixed [simp]:
  "br_mode (snd (decide w b)) = br_mode b"
  "br_takeover_after (snd (decide w b)) = br_takeover_after b"
  "br_release_after (snd (decide w b)) = br_release_after b"
  "br_auth_fail_count (snd (decide w b)) = br_auth_fail_count b"
  by (auto simp: decide_def decide_healthy_def decide_unhealthy_def start_join_def reset_off_def
      Let_def split: net_mode.splits wphase.splits)

lemma decide_exclusive_timers:
  assumes "br_mode b = WiredExclusive"
  shows "br_unhealthy_since (snd (decide w b)) =
      (if wired_healthy w then None else Some (get_or_insert (br_unhealthy_since b) (w_now w)))"
    and "br_healthy_since (snd (decide w b)) =
      (if wired_healthy w then Some (get_or_insert (br_healthy_since b) (w_now w)) else None)"
  using assms
  by (auto simp: decide_def decide_healthy_def decide_unhealthy_def start_join_def reset_off_def
      Let_def split: wphase.splits)

lemma brain_apply_fixed [simp]:
  "br_mode (brain_apply e b) = br_mode b"
  "br_takeover_after (brain_apply e b) = br_takeover_after b"
  "br_release_after (brain_apply e b) = br_release_after b"
  by (cases e; simp add: on_auth_def brain_restart_def reset_off_def Let_def)+

lemma brain_run_fixed [simp]:
  "br_mode (brain_run es b) = br_mode b"
  "br_takeover_after (brain_run es b) = br_takeover_after b"
  "br_release_after (brain_run es b) = br_release_after b"
  by (induction es rule: rev_induct) (simp_all add: brain_run_snoc, simp_all add: brain_run_def)

lemma brain_run_inv: "brain_inv b \<Longrightarrow> brain_inv (brain_run es b)"
proof (induction es rule: rev_induct)
  case Nil
  then show ?case by (simp add: brain_run_def)
next
  case (snoc e es)
  then show ?case by (cases e) (simp_all add: brain_run_snoc wf_intros)
qed

lemma brain_run_timers:
  assumes "br_mode b = WiredExclusive" "br_unhealthy_since b = None" "br_healthy_since b = None"
  shows "br_unhealthy_since (brain_run es b) = streak (\<lambda>w. \<not> wired_healthy w) (worlds es)
    \<and> br_healthy_since (brain_run es b) = streak wired_healthy (worlds es)"
proof (induction es rule: rev_induct)
  case Nil
  then show ?case using assms by (simp add: brain_run_def streak_def)
next
  case (snoc e es)
  then show ?case using assms
    by (cases e) (simp_all add: brain_run_snoc decide_exclusive_timers streak_snoc on_auth_def
        brain_restart_def reset_off_def Let_def)
qed

lemma decide_exclusive_actions:
  assumes "br_mode b = WiredExclusive"
  shows "br_phase b = WOff \<Longrightarrow> fst (decide w b) = ActAssociate \<longleftrightarrow>
      \<not> wired_healthy w \<and> br_takeover_after b \<le> w_now w - get_or_insert (br_unhealthy_since b) (w_now w)"
    and "fst (decide w b) = ActDisassociate \<longleftrightarrow> br_phase b \<noteq> WOff \<and> wired_healthy w \<and>
      br_release_after b \<le> w_now w - get_or_insert (br_healthy_since b) (w_now w)"
  using assms
  by (auto simp: brain_defs split: wphase.splits option.splits)

text \<open>
  Runs with changes of the mode, each an \<open>Inl\<close>. The debounce timers are kept in the exclusive mode
  only and no change of the mode clears them, so what they know are the worlds seen in that mode.
\<close>

definition brain_history :: "(net_mode + brain_event) list \<Rightarrow> brain \<Rightarrow> brain" where
  "brain_history es b = fold (case_sum set_mode brain_apply) es b"

fun mode_after :: "net_mode \<Rightarrow> (net_mode + brain_event) list \<Rightarrow> net_mode" where
  "mode_after m [] = m"
| "mode_after m (Inl m' # es) = mode_after m' es"
| "mode_after m (Inr e # es) = mode_after m es"

fun exclusive_worlds :: "net_mode \<Rightarrow> (net_mode + brain_event) list \<Rightarrow> world list" where
  "exclusive_worlds m [] = []"
| "exclusive_worlds m (Inl m' # es) = exclusive_worlds m' es"
| "exclusive_worlds m (Inr (BWorld w) # es) = (if m = WiredExclusive then [w] else []) @ exclusive_worlds m es"
| "exclusive_worlds m (Inr _ # es) = exclusive_worlds m es"

lemma mode_after_append [simp]: "mode_after m (a @ b) = mode_after (mode_after m a) b"
  by (induction m a rule: mode_after.induct) simp_all

lemma exclusive_worlds_append [simp]:
  "exclusive_worlds m (a @ b) = exclusive_worlds m a @ exclusive_worlds (mode_after m a) b"
  by (induction m a rule: exclusive_worlds.induct) simp_all

lemma exclusive_worlds_same_mode: "exclusive_worlds WiredExclusive (map Inr es) = worlds es"
  by (induction es rule: worlds.induct) simp_all

lemma decide_other_mode_timers:
  assumes "br_mode b \<noteq> WiredExclusive"
  shows "br_unhealthy_since (snd (decide w b)) = br_unhealthy_since b"
    and "br_healthy_since (snd (decide w b)) = br_healthy_since b"
  using assms by (cases "br_mode b"; auto simp: decide_def reset_off_def Let_def split: wphase.splits)+

lemma brain_history_timers:
  assumes "b = brain_new m takeover release interval"
  shows "br_mode (brain_history es b) = mode_after m es
    \<and> br_takeover_after (brain_history es b) = takeover \<and> br_release_after (brain_history es b) = release
    \<and> br_unhealthy_since (brain_history es b) = streak (\<lambda>w. \<not> wired_healthy w) (exclusive_worlds m es)
    \<and> br_healthy_since (brain_history es b) = streak wired_healthy (exclusive_worlds m es)"
proof (induction es rule: rev_induct)
  case Nil
  then show ?case using assms by (simp add: brain_history_def brain_new_def streak_def)
next
  case (snoc e es)
  have s: "brain_history (es @ [e]) b = case_sum set_mode brain_apply e (brain_history es b)"
    by (simp add: brain_history_def)
  show ?case
  proof (cases e)
    case (Inl m')
    with snoc s show ?thesis by (simp add: set_mode_def)
  next
    case (Inr v)
    with snoc s show ?thesis
      by (cases v; cases "mode_after m es = WiredExclusive")
        (simp_all add: decide_exclusive_timers decide_other_mode_timers streak_snoc on_auth_def
          brain_restart_def reset_off_def Let_def)
  qed
qed


definition outage :: "u64 \<Rightarrow> world" where
  "outage t = \<lparr>w_now = t, w_eth_link_up = False, w_wired_connected = False,
     w_wlan_associated = False, w_wlan_ip = False, w_probe = None\<rparr>"


section \<open>Login retries\<close>

lemma unat_sat_inc: "unat (sat_add (a::u32) 1) = min (Suc (unat a)) (2 ^ 32 - 1)"
  by (simp add: unat_sat_add)

lemma brain_run_failures:
  "unat (br_auth_fail_count (brain_run es b)) = min (failures es (unat (br_auth_fail_count b))) (2 ^ 32 - 1)"
proof (induction es rule: rev_induct)
  case Nil
  have "unat (br_auth_fail_count b) < 2 ^ LENGTH(32)" by (rule unsigned_less)
  then show ?case by (simp add: brain_run_def)
next
  case (snoc e es)
  then show ?case
    by (cases e) (auto simp: brain_run_snoc on_auth_def brain_restart_def reset_off_def Let_def
        unat_sat_inc)
qed

definition retry_delay :: "nat \<Rightarrow> u64" where
  "retry_delay n = (if n = 0 then 5 else if n = 1 then 15 else 30)"

lemma on_auth_failed:
  assumes "unat (br_auth_fail_count b) = min n (2 ^ 32 - 1)"
  shows "br_next_auth_at (on_auth False msg now b) = Some (now + retry_delay n)"
    and "br_phase (on_auth False msg now b) = WError"
    and "br_mode (on_auth False msg now b) = br_mode b"
proof -
  have "min (min (Suc (unat (br_auth_fail_count b))) (2 ^ 32 - 1) - 1) 2 = min n 2"
    using assms by (simp add: min_def)
  then show "br_next_auth_at (on_auth False msg now b) = Some (now + retry_delay n)"
    by (auto simp: on_auth_def Let_def unat_sat_inc auth_retry_delays_def retry_delay_def
        min_def nth_Cons' numeral_2_eq_2 split: if_splits)
qed (simp_all add: on_auth_def Let_def)

lemma decide_in_error:
  assumes "br_phase b = WError" "br_next_auth_at b = Some t"
    and "\<not> wired_healthy w \<or> br_mode b = WiredPlusStandby"
  shows "fst (decide w b) = (if t \<le> w_now w then ActAssociate else ActNone)"
  using assms
  by (cases "br_mode b") (auto simp: decide_def decide_unhealthy_def keep_wireless_def
      start_join_def due_def Let_def)

text \<open>
  After a failed portal login the brain is in the error phase and waits: with \<open>n\<close>
  failures since the last success before it, the wait is 5 s, 15 s or 30 s for \<open>n = 0\<close>, \<open>1\<close> or more,
  and while it must hold the uplink (standby mode, or an unhealthy wired side) it does nothing
  before that time and associates again at the first sample from then on.
\<close>

theorem auth_retry_schedule:
  assumes "\<not> wired_healthy w \<or> mode = WiredPlusStandby"
  shows "let b = on_auth False msg now (brain_run es (brain_new mode takeover release interval));
             next = now + (if failures es 0 = 0 then 5 else if failures es 0 = 1 then 15 else 30)
         in fst (decide w b) = (if next \<le> w_now w then ActAssociate else ActNone)
            \<and> br_phase b = WError \<and> br_last_error b = Some msg"
proof -
  let ?r = "brain_run es (brain_new mode takeover release interval)"
  have c: "unat (br_auth_fail_count ?r) = min (failures es 0) (2 ^ 32 - 1)"
    using brain_run_failures [of es "brain_new mode takeover release interval"]
    by (simp add: brain_new_def)
  have m: "br_mode ?r = mode" by (simp add: brain_new_def)
  let ?b = "on_auth False msg now ?r"
  have e: "br_last_error ?b = Some msg" by (simp add: on_auth_def Let_def)
  have mb: "\<not> wired_healthy w \<or> br_mode ?b = WiredPlusStandby"
    using assms m on_auth_failed(3) [OF c, of msg now] by simp
  show ?thesis unfolding Let_def
    using decide_in_error [OF on_auth_failed(2) [OF c] on_auth_failed(1) [OF c] mb] e on_auth_failed(2) [OF c, of msg now]
    by (simp only: retry_delay_def)
qed

theorem auth_retry_schedule_witness:
  "fst (decide (outage 19) (on_auth False ''rejected'' 5 (brain_run [BAuth False ''rejected'' 0]
     (brain_new WiredExclusive 8 10 30)))) = ActNone"
  using auth_retry_schedule [of "outage 19" WiredExclusive "''rejected''" 5 "[BAuth False ''rejected'' 0]" 8 10 30]
  by (simp add: outage_def wired_healthy_def Let_def)

text \<open>
  The takeover path: once an outage has lasted the debounce time, the next three
  samples with the WLAN associated and addressed and one successful login take a brain that is off
  through association and authentication to the online phase and its first probe; and from any
  online state a kicked verdict leads straight to a new login.
\<close>

theorem takeover_reaches_online:
  assumes "br_mode b = WiredExclusive" "br_phase b = WOff"
    and "br_unhealthy_since b = Some t0" "br_takeover_after b \<le> w_now w1 - t0"
    and "\<forall>w \<in> {w1, w2, w3}. \<not> wired_healthy w"
    and "\<forall>w \<in> {w2, w3}. w_wlan_associated w \<and> w_wlan_ip w \<and> w_probe w \<noteq> Some Kicked"
  shows "\<exists>b1 b2 b3. decide w1 b = (ActAssociate, b1)
     \<and> decide w2 b1 = (ActPortalAuth, b2) \<and> br_phase b2 = WAuthing
     \<and> decide w3 (on_auth True msg now b2) = (ActProbeNow, b3) \<and> br_phase b3 = WOnline
     \<and> fst (decide (w3\<lparr>w_probe := Some Kicked\<rparr>) b3) = ActPortalAuth"
proof -
  define b1 where "b1 = snd (decide w1 b)"
  define b2 where "b2 = snd (decide w2 b1)"
  define b2' where "b2' = on_auth True msg now b2"
  define b3 where "b3 = snd (decide w3 b2')"
  have u: "\<not> wired_healthy w1" "\<not> wired_healthy w2" "\<not> wired_healthy w3"
    "\<not> wired_healthy (w3\<lparr>w_probe := Some Kicked\<rparr>)"
    using assms(5) by (auto simp: wired_healthy_def)
  have d1: "decide w1 b = (ActAssociate, b1)" "br_phase b1 = WJoining" "br_mode b1 = WiredExclusive"
    using assms(1-4) u
    by (simp_all add: b1_def decide_def decide_unhealthy_def get_or_insert_def start_join_def)
  have d2: "decide w2 b1 = (ActPortalAuth, b2)" "br_phase b2 = WAuthing" "br_mode b2 = WiredExclusive"
    using assms(6) u d1(2,3)
    by (simp_all add: b2_def decide_def decide_unhealthy_def keep_wireless_def start_auth_def)
  have a: "br_phase b2' = WOnline" "br_mode b2' = WiredExclusive" "br_last_probe_at b2' = None"
    using d2(3) by (simp_all add: b2'_def on_auth_def)
  have d3: "decide w3 b2' = (ActProbeNow, b3)" "br_phase b3 = WOnline" "br_mode b3 = WiredExclusive"
    using assms(6) u a
    by (simp_all add: b3_def decide_def decide_unhealthy_def keep_wireless_def)
  have "fst (decide (w3\<lparr>w_probe := Some Kicked\<rparr>) b3) = ActPortalAuth"
    using u d3(2,3)
    by (simp add: decide_def decide_unhealthy_def keep_wireless_def start_auth_def)
  with d1(1) d2(1,2) d3(1,2) show ?thesis unfolding b2'_def by blast
qed

theorem takeover_reaches_online_witness:
  "fst (decide (outage 9) ((brain_new WiredExclusive 8 10 30)\<lparr>br_unhealthy_since := Some 1\<rparr>))
     = ActAssociate"
  using takeover_reaches_online [of "(brain_new WiredExclusive 8 10 30)\<lparr>br_unhealthy_since := Some 1\<rparr>"
      1 "outage 9" "(outage 11)\<lparr>w_wlan_associated := True, w_wlan_ip := True\<rparr>"
      "(outage 13)\<lparr>w_wlan_associated := True, w_wlan_ip := True\<rparr>" "[]" 12]
  by (auto simp: brain_new_def outage_def wired_healthy_def)

section \<open>Debounce across mode changes\<close>

text \<open>
  The debounce timers are only maintained in the wired-exclusive mode and are not cleared by
  \<open>set_mode\<close>, so a timer from before a period in standby mode is still there after it.
\<close>

definition wired_up :: "u64 \<Rightarrow> world" where
  "wired_up t = (outage t)\<lparr>w_eth_link_up := True, w_wired_connected := True\<rparr>"

text \<open>
  The release debounce does not survive a round trip through the standby mode: a brain
  with the default settings that saw the wired side healthy at second 0, spent seconds 2 to 100 in
  standby mode and saw the wired side down at second 100, releases the takeover at its first sample
  back in exclusive mode at second 102, two seconds after the outage instead of ten.
\<close>

theorem mode_switch_keeps_stale_release_timer:
  "let b0 = brain_new WiredExclusive 8 10 30;
       b1 = snd (decide (wired_up 0) b0);
       b2 = snd (decide (wired_up 2) (set_mode WiredPlusStandby b1));
       b3 = snd (decide (outage 100) b2)
   in fst (decide (wired_up 102) (set_mode WiredExclusive b3)) = ActDisassociate"
  by (simp add: brain_defs brain_new_def set_mode_def wired_up_def outage_def wired_healthy_def
      get_or_insert_def)

end
