(* ===== verification/Egress.thy ===== *)
theory Egress
  imports Prelude
begin

text \<open>
  \<open>src/src/wireless/egress.rs\<close>: the ledger of the host routes and of the interface metric the
  wireless takeover installs. The trait \<open>EgressOps\<close> is a record of functions over an adapter state
  \<open>'o\<close>; its contract is the locale \<open>egress_adapter\<close>, which \<open>Routes\<close> discharges for the Windows
  adapter. An \<open>anyhow\<close> error is its message.
\<close>

section \<open>Data\<close>

definition route_settle :: duration where
  "route_settle = from_secs 3"

record wlan_endpoint =
  ep_gateway :: ipv4
  ep_ifindex :: u32

type_synonym route = "ipv4 \<times> ipv4 \<times> u32"
type_synonym 'a res = "string + 'a"

record 'o egress_ops =
  eo_add :: "ipv4 \<Rightarrow> ipv4 \<Rightarrow> u32 \<Rightarrow> 'o \<Rightarrow> unit res \<times> 'o"
  eo_delete :: "ipv4 \<Rightarrow> ipv4 \<Rightarrow> u32 \<Rightarrow> 'o \<Rightarrow> unit res \<times> 'o"
  eo_suppress :: "u32 \<Rightarrow> u32 \<Rightarrow> 'o \<Rightarrow> 'o"
  eo_restore :: "u32 \<Rightarrow> 'o \<Rightarrow> unit res \<times> 'o"

record 'o egress =
  eg_ops :: 'o
  eg_dests :: "ipv4 list"
  eg_added :: "route list"
  eg_applied_endpoint :: "wlan_endpoint option"
  eg_route_endpoint :: "wlan_endpoint option"
  eg_metric_release_pending :: bool

definition egress_new :: "'o \<Rightarrow> 'o egress" where
  "egress_new o' = \<lparr>eg_ops = o', eg_dests = [], eg_added = [], eg_applied_endpoint = None,
     eg_route_endpoint = None, eg_metric_release_pending = False\<rparr>"

section \<open>Operations\<close>

text \<open>The test both \<open>has_pending_cleanup\<close> and \<open>retry_cleanup\<close> make on a ledger entry.\<close>

fun wanted :: "'o egress \<Rightarrow> route \<Rightarrow> bool" where
  "wanted e (dest, gateway, ifindex) \<longleftrightarrow> dest \<in> set (eg_dests e)
     \<and> eg_route_endpoint e = Some \<lparr>ep_gateway = gateway, ep_ifindex = ifindex\<rparr>"

definition has_pending_cleanup :: "'o egress \<Rightarrow> bool" where
  "has_pending_cleanup e \<longleftrightarrow>
     eg_metric_release_pending e \<or> list_ex (\<lambda>r. \<not> wanted e r) (eg_added e)"

definition release_metric :: "'o egress_ops \<Rightarrow> 'o egress \<Rightarrow> unit res \<times> 'o egress" where
  "release_metric E e =
     (case eg_applied_endpoint e of
        None \<Rightarrow> (Inr (), e)
      | Some ep \<Rightarrow>
          (let e = e\<lparr>eg_metric_release_pending := True\<rparr>;
               (r, o') = eo_restore E (ep_ifindex ep) (eg_ops e);
               e = e\<lparr>eg_ops := o'\<rparr>
           in (case r of Inl m \<Rightarrow> (Inl m, e)
               | Inr _ \<Rightarrow> (Inr (), e\<lparr>eg_metric_release_pending := False\<rparr>))))"

text \<open>
  The closure of \<open>Vec::retain\<close>, run from front to back: kept entries, adapter state and the last
  failure.
\<close>

fun retain_routes ::
  "'o egress_ops \<Rightarrow> (route \<Rightarrow> bool) \<Rightarrow> route list \<Rightarrow> 'o \<Rightarrow> string option \<Rightarrow>
   route list \<times> 'o \<times> string option" where
  "retain_routes E W [] o' f = ([], o', f)"
| "retain_routes E W ((d, g, i) # rs) o' f =
     (if W (d, g, i)
      then (let (kept, o'', f') = retain_routes E W rs o' f in ((d, g, i) # kept, o'', f'))
      else (case eo_delete E d g i o' of
              (Inr _, o'') \<Rightarrow> retain_routes E W rs o'' f
            | (Inl m, o'') \<Rightarrow>
                (let (kept, o3, f') = retain_routes E W rs o'' (Some m)
                 in ((d, g, i) # kept, o3, f'))))"

definition retry_cleanup :: "'o egress_ops \<Rightarrow> 'o egress \<Rightarrow> unit res \<times> 'o egress" where
  "retry_cleanup E e =
     (let (kept, o', failure) = retain_routes E (wanted e) (eg_added e) (eg_ops e) None;
          e = e\<lparr>eg_added := kept, eg_ops := o'\<rparr>;
          (failure, e) =
            (if eg_metric_release_pending e
             then (case release_metric E e of
                     (Inl m, e') \<Rightarrow> (Some m, e')
                   | (Inr _, e') \<Rightarrow> (failure, e'))
             else (failure, e))
      in (case failure of Some m \<Rightarrow> (Inl m, e) | None \<Rightarrow> (Inr (), e)))"

definition own_destinations :: "'o egress_ops \<Rightarrow> ipv4 list \<Rightarrow> 'o egress \<Rightarrow> 'o egress" where
  "own_destinations E dests e = snd (retry_cleanup E (e\<lparr>eg_dests := dests\<rparr>))"

fun add_routes ::
  "'o egress_ops \<Rightarrow> wlan_endpoint \<Rightarrow> ipv4 list \<Rightarrow> route list \<Rightarrow> 'o \<Rightarrow> string option \<Rightarrow>
   route list \<times> 'o \<times> string option" where
  "add_routes E ep [] added o' f = (added, o', f)"
| "add_routes E ep (d # ds) added o' f =
     (let want = (d, ep_gateway ep, ep_ifindex ep)
      in if want \<in> set added then add_routes E ep ds added o' f
         else (case eo_add E d (ep_gateway ep) (ep_ifindex ep) o' of
                 (Inr _, o'') \<Rightarrow> add_routes E ep ds (added @ [want]) o'' f
               | (Inl m, o'') \<Rightarrow> add_routes E ep ds added o'' (Some m)))"

definition acquire :: "'o egress_ops \<Rightarrow> wlan_endpoint \<Rightarrow> 'o egress \<Rightarrow> duration res \<times> 'o egress" where
  "acquire E ep e =
     (let (r, e) = retry_cleanup E (e\<lparr>eg_route_endpoint := Some ep\<rparr>);
          failure = (case r of Inl m \<Rightarrow> Some m | Inr _ \<Rightarrow> None);
          (added, o', failure) = add_routes E ep (eg_dests e) (eg_added e) (eg_ops e) failure;
          e = e\<lparr>eg_added := added, eg_ops := o', eg_applied_endpoint := Some ep\<rparr>
      in (case failure of Some m \<Rightarrow> (Inl m, e) | None \<Rightarrow> (Inr route_settle, e)))"

definition suppress_metric :: "'o egress_ops \<Rightarrow> wlan_endpoint \<Rightarrow> u32 \<Rightarrow> 'o egress \<Rightarrow> 'o egress" where
  "suppress_metric E ep target e =
     (if target = 0 then e
      else e\<lparr>eg_metric_release_pending := False,
             eg_ops := eo_suppress E (ep_ifindex ep) target (eg_ops e),
             eg_applied_endpoint := Some ep\<rparr>)"

definition release :: "'o egress_ops \<Rightarrow> 'o egress \<Rightarrow> unit res \<times> 'o egress" where
  "release E e =
     (let (routes, e) = retry_cleanup E (e\<lparr>eg_route_endpoint := None\<rparr>);
          (metric, e) = release_metric E e;
          e = (case metric of Inr _ \<Rightarrow> e\<lparr>eg_applied_endpoint := None\<rparr> | Inl _ \<Rightarrow> e)
      in (case routes of Inl m \<Rightarrow> Inl m | Inr _ \<Rightarrow> metric, e))"

definition egress_drop :: "'o egress_ops \<Rightarrow> 'o egress \<Rightarrow> 'o egress" where
  "egress_drop E e = snd (release E e)"

section \<open>What holds for every adapter\<close>

lemma retain_routes_kept:
  "retain_routes E W rs o' f = (kept, o'', f') \<Longrightarrow>
     set kept \<subseteq> set rs \<and> {r \<in> set rs. W r} \<subseteq> set kept
     \<and> (f' = None \<longleftrightarrow> f = None \<and> (\<forall>r \<in> set kept. W r))"
proof (induction rs arbitrary: o' f kept)
  case Nil
  then show ?case by simp
next
  case (Cons r rs)
  obtain d g i where r: "r = (d, g, i)" by (cases r)
  show ?case
  proof (cases "W (d, g, i)")
    case True
    obtain k x y where k: "retain_routes E W rs o' f = (k, x, y)"
      by (cases "retain_routes E W rs o' f")
    with Cons.prems True r have e: "kept = r # k" "x = o''" "y = f'" by simp_all
    from Cons.IH [of o' f k] k e show ?thesis using True r by auto
  next
    case False
    obtain x o1 where x: "eo_delete E d g i o' = (x, o1)" by (cases "eo_delete E d g i o'")
    show ?thesis
    proof (cases x)
      case (Inl m)
      obtain k x' y where k: "retain_routes E W rs o1 (Some m) = (k, x', y)"
        by (cases "retain_routes E W rs o1 (Some m)")
      with Cons.prems False r x Inl have e: "kept = r # k" "x' = o''" "y = f'" by simp_all
      from Cons.IH [of o1 "Some m" k] k e show ?thesis using False r by auto
    next
      case (Inr u)
      with Cons.prems False r x have "retain_routes E W rs o1 f = (kept, o'', f')" by simp
      from Cons.IH [OF this] show ?thesis using False r by auto
    qed
  qed
qed

lemma release_metric_fields:
  "eg_added (snd (release_metric E e)) = eg_added e"
  "eg_dests (snd (release_metric E e)) = eg_dests e"
  "eg_route_endpoint (snd (release_metric E e)) = eg_route_endpoint e"
  "eg_applied_endpoint (snd (release_metric E e)) = eg_applied_endpoint e"
  by (simp_all add: release_metric_def Let_def case_prod_beta split: option.splits sum.splits)

text \<open>A metric that still has to be restored belongs to a recorded endpoint.\<close>

definition metric_inv :: "'o egress \<Rightarrow> bool" where
  "metric_inv e \<longleftrightarrow> (eg_metric_release_pending e \<longrightarrow> eg_applied_endpoint e \<noteq> None)"

lemma release_metric_pending:
  assumes "metric_inv e"
  shows "eg_metric_release_pending (snd (release_metric E e)) \<longleftrightarrow>
      (\<exists>m. fst (release_metric E e) = Inl m)"
    and "metric_inv (snd (release_metric E e))"
  using assms
  by (auto simp: release_metric_def metric_inv_def Let_def case_prod_beta
      split: option.splits sum.splits)

lemma retry_cleanup_fields [simp]:
  "eg_dests (snd (retry_cleanup E e)) = eg_dests e"
  "eg_route_endpoint (snd (retry_cleanup E e)) = eg_route_endpoint e"
  "eg_applied_endpoint (snd (retry_cleanup E e)) = eg_applied_endpoint e"
  by (auto simp: retry_cleanup_def Let_def release_metric_fields
      split: prod.splits option.splits sum.splits dest!: arg_cong [of "release_metric _ _" _ snd])

lemma wanted_update [simp]:
  "wanted (e\<lparr>eg_added := a, eg_ops := x\<rparr>) = wanted e" "wanted (e\<lparr>eg_ops := x\<rparr>) = wanted e"
  "wanted (e\<lparr>eg_metric_release_pending := p\<rparr>) = wanted e"
  by (auto simp: fun_eq_iff)

lemma wanted_release_metric [simp]: "wanted (snd (release_metric E e)) = wanted e"
  by (auto simp: fun_eq_iff release_metric_fields)

lemma retry_cleanup_added:
  "eg_added (snd (retry_cleanup E e)) = fst (retain_routes E (wanted e) (eg_added e) (eg_ops e) None)"
  using release_metric_fields(1) [of E] by (simp add: retry_cleanup_def Let_def case_prod_beta
      split: option.splits sum.splits)

text \<open>What one run of the pending cleanup settles, for any adapter.\<close>

lemma retry_cleanup_exact:
  assumes "metric_inv e"
  shows "fst (retry_cleanup E e) = Inr () \<longleftrightarrow> \<not> has_pending_cleanup (snd (retry_cleanup E e))"
    and "metric_inv (snd (retry_cleanup E e))"
proof -
  obtain k x f where r: "retain_routes E (wanted e) (eg_added e) (eg_ops e) None = (k, x, f)"
    by (cases "retain_routes E (wanted e) (eg_added e) (eg_ops e) None")
  define u where "u = e\<lparr>eg_added := k, eg_ops := x\<rparr>"
  have u: "metric_inv u" using assms by (simp add: u_def metric_inv_def)
  have wu: "wanted (snd (retry_cleanup E e)) = wanted e"
    by (auto simp: fun_eq_iff)
  have f: "f = None \<longleftrightarrow> (\<forall>r \<in> set k. wanted e r)" using retain_routes_kept [OF r] by simp
  have a: "eg_added (snd (retry_cleanup E e)) = k" by (simp add: retry_cleanup_added r)
  have pu: "eg_metric_release_pending u = eg_metric_release_pending e" by (simp add: u_def)
  have c: "retry_cleanup E e = (if eg_metric_release_pending u
      then (case fst (release_metric E u) of Inl m \<Rightarrow> Inl m
            | Inr _ \<Rightarrow> (case f of Some m \<Rightarrow> Inl m | None \<Rightarrow> Inr ()), snd (release_metric E u))
      else (case f of Some m \<Rightarrow> Inl m | None \<Rightarrow> Inr (), u))"
    by (simp add: retry_cleanup_def Let_def r u_def [symmetric] case_prod_beta pu
        split: option.splits sum.splits)
  show "metric_inv (snd (retry_cleanup E e))"
    using u release_metric_pending(2) [OF u, of E] by (simp add: c)
  show "fst (retry_cleanup E e) = Inr () \<longleftrightarrow> \<not> has_pending_cleanup (snd (retry_cleanup E e))"
    unfolding has_pending_cleanup_def wu a
    using f release_metric_pending(1) [OF u, of E] unfolding c
    by (auto simp: list_ex_iff split: option.splits sum.splits)
qed

lemma metric_inv_ops:
  "metric_inv (egress_new x)"
  "metric_inv e \<Longrightarrow> metric_inv (suppress_metric E ep t e)"
  "metric_inv e \<Longrightarrow> metric_inv (own_destinations E ds e)"
  "metric_inv (snd (acquire E ep e))"
proof -
  show "metric_inv (own_destinations E ds e)" if "metric_inv e"
    unfolding own_destinations_def
    by (rule retry_cleanup_exact(2)) (use that in \<open>simp add: metric_inv_def\<close>)
  show "metric_inv (snd (acquire E ep e))"
    by (auto simp: acquire_def metric_inv_def Let_def split: prod.splits sum.splits option.splits)
qed (auto simp: metric_inv_def egress_new_def suppress_metric_def)

lemma metric_inv_release:
  assumes "metric_inv e" shows "metric_inv (snd (release E e))"
proof -
  define u where "u = snd (retry_cleanup E (e\<lparr>eg_route_endpoint := None\<rparr>))"
  have "metric_inv u" unfolding u_def
    by (rule retry_cleanup_exact(2)) (use assms in \<open>simp add: metric_inv_def\<close>)
  from release_metric_pending [OF this, of E] show ?thesis
    by (auto simp: release_def Let_def u_def [symmetric] metric_inv_def case_prod_beta
        split: sum.splits)
qed

section \<open>The adapter contract\<close>

text \<open>
  \<open>tbl x\<close> are the routes the adapter state \<open>x\<close> has installed. A successful call changes exactly the
  route it names, a failed call changes none, and the metric calls leave the routes alone.
\<close>

locale egress_adapter =
  fixes E :: "'o egress_ops" and tbl :: "'o \<Rightarrow> route set"
  assumes add_ok: "eo_add E d g i x = (Inr u, x') \<Longrightarrow> tbl x' = insert (d, g, i) (tbl x)"
    and add_err: "eo_add E d g i x = (Inl m, x') \<Longrightarrow> tbl x' = tbl x"
    and del_ok: "eo_delete E d g i x = (Inr u, x') \<Longrightarrow> tbl x' = tbl x - {(d, g, i)}"
    and del_err: "eo_delete E d g i x = (Inl m, x') \<Longrightarrow> tbl x' = tbl x"
    and suppress_routes: "tbl (eo_suppress E i t x) = tbl x"
    and restore_routes: "tbl (snd (eo_restore E i x)) = tbl x"
begin

text \<open>The ledger lists every installed route once.\<close>

definition ledger_exact :: "'o egress \<Rightarrow> bool" where
  "ledger_exact e \<longleftrightarrow> distinct (eg_added e) \<and> set (eg_added e) = tbl (eg_ops e)"

lemma retain_routes_tbl:
  "retain_routes E W rs x f = (kept, x', f') \<Longrightarrow> distinct rs \<Longrightarrow>
     distinct kept \<and> tbl x' = tbl x - (set rs - set kept)"
proof (induction rs arbitrary: x f kept)
  case Nil
  then show ?case by simp
next
  case (Cons r rs)
  obtain d g i where r: "r = (d, g, i)" by (cases r)
  show ?case
  proof (cases "W (d, g, i)")
    case True
    obtain k y z where k: "retain_routes E W rs x f = (k, y, z)" by (cases "retain_routes E W rs x f")
    with Cons.prems True r have e: "kept = r # k" "y = x'" "z = f'" by simp_all
    from Cons.IH [OF k [unfolded e(2,3)]] retain_routes_kept [OF k] Cons.prems(2) e show ?thesis
      by auto
  next
    case False
    obtain y x1 where y: "eo_delete E d g i x = (y, x1)" by (cases "eo_delete E d g i x")
    show ?thesis
    proof (cases y)
      case (Inl m)
      obtain k z f2 where k: "retain_routes E W rs x1 (Some m) = (k, z, f2)"
        by (cases "retain_routes E W rs x1 (Some m)")
      with Cons.prems False r y Inl have e: "kept = r # k" "z = x'" "f2 = f'" by simp_all
      have "tbl x1 = tbl x" using y Inl del_err by blast
      with Cons.IH [OF k [unfolded e(2,3)]] retain_routes_kept [OF k] Cons.prems(2) e show ?thesis
        by auto
    next
      case (Inr u)
      with Cons.prems False r y have k: "retain_routes E W rs x1 f = (kept, x', f')" by simp
      have "tbl x1 = tbl x - {r}" using y Inr del_ok r by blast
      with Cons.IH [OF k] retain_routes_kept [OF k] Cons.prems(2) show ?thesis by auto
    qed
  qed
qed

lemma release_metric_ledger: "ledger_exact (snd (release_metric E e)) = ledger_exact e"
proof -
  have "tbl (eg_ops (snd (release_metric E e))) = tbl (eg_ops e)"
    by (simp add: release_metric_def Let_def case_prod_beta restore_routes
        split: option.splits sum.splits)
  then show ?thesis by (simp add: ledger_exact_def release_metric_fields)
qed

lemma retry_cleanup_ledger:
  assumes "ledger_exact e" shows "ledger_exact (snd (retry_cleanup E e))"
proof -
  obtain k x f where r: "retain_routes E (wanted e) (eg_added e) (eg_ops e) None = (k, x, f)"
    by (cases "retain_routes E (wanted e) (eg_added e) (eg_ops e) None")
  have "ledger_exact (e\<lparr>eg_added := k, eg_ops := x\<rparr>)"
    using retain_routes_tbl [OF r] retain_routes_kept [OF r] assms by (auto simp: ledger_exact_def)
  with release_metric_ledger [of "e\<lparr>eg_added := k, eg_ops := x\<rparr>"] show ?thesis
    by (simp add: retry_cleanup_def Let_def r case_prod_beta split: option.splits sum.splits)
qed

lemma add_routes_ledger:
  "add_routes E ep ds added x f = (added', x', f') \<Longrightarrow> distinct added \<Longrightarrow> set added = tbl x \<Longrightarrow>
     distinct added' \<and> set added' = tbl x' \<and> set added \<subseteq> set added'
     \<and> set added' \<subseteq> set added \<union> (\<lambda>d. (d, ep_gateway ep, ep_ifindex ep)) ` set ds
     \<and> (f' = None \<longrightarrow> f = None \<and> (\<lambda>d. (d, ep_gateway ep, ep_ifindex ep)) ` set ds \<subseteq> set added')"
proof (induction ds arbitrary: added x f)
  case Nil
  then show ?case by simp
next
  case (Cons d ds)
  let ?w = "(d, ep_gateway ep, ep_ifindex ep)"
  show ?case
  proof (cases "?w \<in> set added")
    case True
    with Cons.prems(1) have "add_routes E ep ds added x f = (added', x', f')" by simp
    from Cons.IH [OF this Cons.prems(2,3)] True show ?thesis by auto
  next
    case False
    obtain y x1 where y: "eo_add E d (ep_gateway ep) (ep_ifindex ep) x = (y, x1)"
      by (cases "eo_add E d (ep_gateway ep) (ep_ifindex ep) x")
    show ?thesis
    proof (cases y)
      case (Inl m)
      with Cons.prems(1) False y have "add_routes E ep ds added x1 (Some m) = (added', x', f')"
        by simp
      from Cons.IH [OF this Cons.prems(2)] Cons.prems(3) add_err y Inl show ?thesis by auto
    next
      case (Inr u)
      with Cons.prems(1) False y have r: "add_routes E ep ds (added @ [?w]) x1 f = (added', x', f')"
        by simp
      have "tbl x1 = insert ?w (tbl x)" using y Inr add_ok by blast
      with Cons.prems False have "distinct (added @ [?w])" "set (added @ [?w]) = tbl x1" by auto
      from Cons.IH [OF r this] show ?thesis by auto
    qed
  qed
qed

lemma acquire_ledger:
  assumes "ledger_exact e" shows "ledger_exact (snd (acquire E ep e))"
proof -
  define u where "u = snd (retry_cleanup E (e\<lparr>eg_route_endpoint := Some ep\<rparr>))"
  have "ledger_exact u" unfolding u_def
    by (rule retry_cleanup_ledger) (use assms in \<open>simp add: ledger_exact_def\<close>)
  then have l: "distinct (eg_added u)" "set (eg_added u) = tbl (eg_ops u)"
    by (simp_all add: ledger_exact_def)
  define f where "f = (case fst (retry_cleanup E (e\<lparr>eg_route_endpoint := Some ep\<rparr>)) of
      Inl m \<Rightarrow> Some m | Inr _ \<Rightarrow> None)"
  obtain a x f' where r: "add_routes E ep (eg_dests u) (eg_added u) (eg_ops u) f = (a, x, f')"
    by (cases "add_routes E ep (eg_dests u) (eg_added u) (eg_ops u) f")
  have "snd (acquire E ep e) = u\<lparr>eg_added := a, eg_ops := x, eg_applied_endpoint := Some ep\<rparr>"
    using r by (simp add: acquire_def Let_def case_prod_beta u_def f_def split: option.splits)
  with add_routes_ledger [OF r l] show ?thesis by (simp add: ledger_exact_def)
qed

lemma acquire_success:
  assumes "ledger_exact e" "metric_inv e" "fst (acquire E ep e) = Inr w"
  shows "w = route_settle"
    and "tbl (eg_ops (snd (acquire E ep e))) =
      (\<lambda>d. (d, ep_gateway ep, ep_ifindex ep)) ` set (eg_dests e)"
    and "\<not> has_pending_cleanup (snd (acquire E ep e))"
proof -
  let ?e = "e\<lparr>eg_route_endpoint := Some ep\<rparr>"
  let ?W = "(\<lambda>d. (d, ep_gateway ep, ep_ifindex ep)) ` set (eg_dests e)"
  define u where "u = snd (retry_cleanup E ?e)"
  have "ledger_exact u" unfolding u_def
    by (rule retry_cleanup_ledger) (use assms in \<open>simp add: ledger_exact_def\<close>)
  then have l: "distinct (eg_added u)" "set (eg_added u) = tbl (eg_ops u)"
    by (simp_all add: ledger_exact_def)
  define f where "f = (case fst (retry_cleanup E ?e) of Inl m \<Rightarrow> Some m | Inr _ \<Rightarrow> None)"
  obtain a x f' where r: "add_routes E ep (eg_dests u) (eg_added u) (eg_ops u) f = (a, x, f')"
    by (cases "add_routes E ep (eg_dests u) (eg_added u) (eg_ops u) f")
  have s: "snd (acquire E ep e) = u\<lparr>eg_added := a, eg_ops := x, eg_applied_endpoint := Some ep\<rparr>"
    "fst (acquire E ep e) = (case f' of Some m \<Rightarrow> Inl m | None \<Rightarrow> Inr route_settle)"
    using r by (simp_all add: acquire_def Let_def case_prod_beta u_def f_def split: option.splits)
  from s(2) assms(3) have f': "f' = None" "w = route_settle" by (auto split: option.splits)
  then show "w = route_settle" by simp
  have d: "eg_dests u = eg_dests e" "eg_route_endpoint u = Some ep" by (simp_all add: u_def)
  from add_routes_ledger [OF r l] f' d have t: "set a = tbl x" "?W \<subseteq> set a"
    "set a \<subseteq> set (eg_added u) \<union> ?W" "f = None" by auto
  from t(4) have "fst (retry_cleanup E ?e) = Inr ()" by (simp add: f_def split: sum.splits)
  moreover have "metric_inv ?e" using assms(2) by (simp add: metric_inv_def)
  ultimately have p: "\<not> has_pending_cleanup u"
    using retry_cleanup_exact(1) [of ?e E] by (simp add: u_def)
  then have "set (eg_added u) \<subseteq> ?W" using d by (auto simp: has_pending_cleanup_def list_ex_iff)
  with t have a: "set a = ?W" by auto
  with t(1) show "tbl (eg_ops (snd (acquire E ep e))) = ?W" by (simp add: s)
  from p a d show "\<not> has_pending_cleanup (snd (acquire E ep e))"
    by (auto simp: s has_pending_cleanup_def list_ex_iff)
qed

lemma release_ledger:
  assumes "ledger_exact e" shows "ledger_exact (snd (release E e))"
proof -
  define u where "u = snd (retry_cleanup E (e\<lparr>eg_route_endpoint := None\<rparr>))"
  have "ledger_exact u" unfolding u_def
    by (rule retry_cleanup_ledger) (use assms in \<open>simp add: ledger_exact_def\<close>)
  with release_metric_ledger [of u] show ?thesis
    by (simp add: release_def Let_def u_def [symmetric] case_prod_beta ledger_exact_def
        split: sum.splits)
qed

lemma release_success:
  assumes "ledger_exact e" "metric_inv e" "fst (release E e) = Inr ()"
  shows "tbl (eg_ops (snd (release E e))) = {}" "eg_added (snd (release E e)) = []"
    "eg_applied_endpoint (snd (release E e)) = None" "\<not> has_pending_cleanup (snd (release E e))"
proof -
  let ?e = "e\<lparr>eg_route_endpoint := None\<rparr>"
  define u where "u = snd (retry_cleanup E ?e)"
  have i: "metric_inv ?e" using assms(2) by (simp add: metric_inv_def)
  have iu: "metric_inv u" unfolding u_def by (rule retry_cleanup_exact(2) [OF i])
  have f: "fst (retry_cleanup E ?e) = Inr ()" "fst (release_metric E u) = Inr ()"
    and s: "snd (release E e) = (snd (release_metric E u))\<lparr>eg_applied_endpoint := None\<rparr>"
    using assms(3) by (auto simp: release_def Let_def u_def case_prod_beta split: sum.splits)
  have "\<not> has_pending_cleanup u" using retry_cleanup_exact(1) [OF i, of E] f(1) by (simp add: u_def)
  moreover have "eg_route_endpoint u = None" by (simp add: u_def)
  ultimately have "eg_added u = []" by (cases "eg_added u") (auto simp: has_pending_cleanup_def)
  then show a: "eg_added (snd (release E e)) = []" by (simp add: s release_metric_fields)
  with release_ledger [OF assms(1)] show "tbl (eg_ops (snd (release E e))) = {}"
    by (simp add: ledger_exact_def)
  show "eg_applied_endpoint (snd (release E e)) = None" by (simp add: s)
  show "\<not> has_pending_cleanup (snd (release E e))"
    using a release_metric_pending(1) [OF iu, of E] f(2) by (simp add: has_pending_cleanup_def s)
qed

lemma suppress_ledger: "ledger_exact (suppress_metric E ep t e) = ledger_exact e"
  by (simp add: ledger_exact_def suppress_metric_def suppress_routes)

lemma own_destinations_ledger: "ledger_exact e \<Longrightarrow> ledger_exact (own_destinations E ds e)"
  unfolding own_destinations_def by (rule retry_cleanup_ledger) (simp add: ledger_exact_def)

end

section \<open>Everything the worker can do\<close>

inductive egress_reach :: "'o egress_ops \<Rightarrow> 'o \<Rightarrow> 'o egress \<Rightarrow> bool" for E x where
  er_new: "egress_reach E x (egress_new x)"
| er_own: "egress_reach E x e \<Longrightarrow> egress_reach E x (own_destinations E ds e)"
| er_retry: "egress_reach E x e \<Longrightarrow> egress_reach E x (snd (retry_cleanup E e))"
| er_acquire: "egress_reach E x e \<Longrightarrow> egress_reach E x (snd (acquire E ep e))"
| er_suppress: "egress_reach E x e \<Longrightarrow> egress_reach E x (suppress_metric E ep t e)"
| er_release_metric: "egress_reach E x e \<Longrightarrow> egress_reach E x (snd (release_metric E e))"
| er_release: "egress_reach E x e \<Longrightarrow> egress_reach E x (snd (release E e))"

lemma egress_reach_metric_inv: "egress_reach E x e \<Longrightarrow> metric_inv e"
  by (induction rule: egress_reach.induct)
     (simp_all add: metric_inv_ops metric_inv_release retry_cleanup_exact(2) release_metric_pending(2))

text \<open>A property of the adapter state that its four calls keep holds in every reachable state.\<close>

locale egress_stable =
  fixes E :: "'o egress_ops" and I :: "'o \<Rightarrow> bool"
  assumes add_keeps: "I x \<Longrightarrow> I (snd (eo_add E d g i x))"
    and delete_keeps: "I x \<Longrightarrow> I (snd (eo_delete E d g i x))"
    and suppress_keeps: "I x \<Longrightarrow> I (eo_suppress E j t x)"
    and restore_keeps: "I x \<Longrightarrow> I (snd (eo_restore E j x))"
begin

lemma retain_keeps: "I x \<Longrightarrow> I (fst (snd (retain_routes E W rs x f)))"
proof (induction rs arbitrary: x f)
  case Nil
  then show ?case by simp
next
  case (Cons r rs)
  obtain d g i where r: "r = (d, g, i)" by (cases r)
  have "I (snd (eo_delete E d g i x))" by (rule delete_keeps) fact
  with Cons r show ?case by (auto simp: case_prod_beta split: sum.splits prod.splits)
qed

lemma add_routes_keeps: "I x \<Longrightarrow> I (fst (snd (add_routes E ep ds added x f)))"
proof (induction ds arbitrary: added x f)
  case Nil
  then show ?case by simp
next
  case (Cons d ds)
  have "I (snd (eo_add E d (ep_gateway ep) (ep_ifindex ep) x))" by (rule add_keeps) fact
  with Cons show ?case by (auto simp: Let_def case_prod_beta split: sum.splits prod.splits)
qed

lemma release_metric_keeps: "I (eg_ops e) \<Longrightarrow> I (eg_ops (snd (release_metric E e)))"
  by (simp add: release_metric_def Let_def case_prod_beta restore_keeps
      split: option.splits sum.splits)

lemma retry_keeps: "I (eg_ops e) \<Longrightarrow> I (eg_ops (snd (retry_cleanup E e)))"
proof -
  assume i: "I (eg_ops e)"
  define u where "u = e\<lparr>eg_added := fst (retain_routes E (wanted e) (eg_added e) (eg_ops e) None),
    eg_ops := fst (snd (retain_routes E (wanted e) (eg_added e) (eg_ops e) None))\<rparr>"
  have u: "I (eg_ops u)" using retain_keeps [OF i] by (simp add: u_def)
  have "eg_ops (snd (retry_cleanup E e)) \<in> {eg_ops u, eg_ops (snd (release_metric E u))}"
    by (simp add: retry_cleanup_def Let_def case_prod_beta u_def [symmetric]
        split: option.splits sum.splits)
  with u release_metric_keeps [OF u] show ?thesis by auto
qed

lemma acquire_keeps:
  assumes "I (eg_ops e)" shows "I (eg_ops (snd (acquire E ep e)))"
  using add_routes_keeps [OF retry_keeps, of "e\<lparr>eg_route_endpoint := Some ep\<rparr>"] assms
  by (simp add: acquire_def Let_def case_prod_beta split: option.splits)

lemma release_keeps:
  assumes "I (eg_ops e)" shows "I (eg_ops (snd (release E e)))"
  using release_metric_keeps [OF retry_keeps, of "e\<lparr>eg_route_endpoint := None\<rparr>"] assms
  by (simp add: release_def Let_def case_prod_beta split: sum.splits)

lemma egress_reach_keeps: "egress_reach E x e \<Longrightarrow> I x \<Longrightarrow> I (eg_ops e)"
proof (induction rule: egress_reach.induct)
  case (er_own e ds)
  then show ?case using retry_keeps [of "e\<lparr>eg_dests := ds\<rparr>"] by (simp add: own_destinations_def)
qed (simp_all add: egress_new_def retry_keeps acquire_keeps release_metric_keeps release_keeps
    suppress_metric_def suppress_keeps)

end

context egress_adapter begin

lemma egress_reach_ledger: "egress_reach E x e \<Longrightarrow> tbl x = {} \<Longrightarrow> ledger_exact e"
proof (induction rule: egress_reach.induct)
  case er_new
  then show ?case by (simp add: ledger_exact_def egress_new_def)
qed (simp_all add: own_destinations_ledger retry_cleanup_ledger acquire_ledger suppress_ledger
    release_metric_ledger release_ledger)

end

end
