(* ===== verification/Routes.thy ===== *)
theory Routes
  imports Egress Brain
begin

text \<open>
  \<open>src/src/wireless/routes.rs\<close>: the Windows adapter of the egress ledger. The IP helper calls are a
  record of functions over a kernel state \<open>'k\<close>; a row carries what \<open>forward_row\<close> and the interface
  calls set (the addresses as \<open>S_addr\<close> words in network order). Codes 0, 5010 and 1168 are
  \<open>ERROR_SUCCESS\<close>, \<open>ERROR_OBJECT_ALREADY_EXISTS\<close> and \<open>ERROR_NOT_FOUND\<close>.
\<close>

record forward_row =
  fr_ifindex :: u32
  fr_dest :: u32
  fr_prefix_len :: nat
  fr_next_hop :: u32
  fr_metric :: u32
  fr_netmgmt :: bool

record if_row =
  ir_metric :: u32
  ir_auto :: bool

record 'k ip_helper =
  ih_create :: "forward_row \<Rightarrow> 'k \<Rightarrow> u32 \<times> 'k"
  ih_delete :: "forward_row \<Rightarrow> 'k \<Rightarrow> u32 \<times> 'k"
  ih_table :: "'k \<Rightarrow> forward_row list option"
  ih_get_if :: "u32 \<Rightarrow> 'k \<Rightarrow> u32 + if_row"
  ih_set_if :: "u32 \<Rightarrow> if_row \<Rightarrow> 'k \<Rightarrow> u32 \<times> 'k"

definition mk_forward_row :: "ipv4 \<Rightarrow> ipv4 \<Rightarrow> u32 \<Rightarrow> forward_row" where
  "mk_forward_row dest gw ifindex = \<lparr>fr_ifindex = ifindex, fr_dest = ipv4_to_s_addr dest,
     fr_prefix_len = 32, fr_next_hop = ipv4_to_s_addr gw, fr_metric = 1, fr_netmgmt = True\<rparr>"

text \<open>Different routes are different rows, so a deletion never meets another route of the service.\<close>

lemma forward_row_eq_iff:
  "mk_forward_row d g i = mk_forward_row d' g' i' \<longleftrightarrow> d = d' \<and> g = g' \<and> i = i'"
  by (auto simp: mk_forward_row_def s_addr.encode_eq_iff)

definition kernel_add :: "'k ip_helper \<Rightarrow> ipv4 \<Rightarrow> ipv4 \<Rightarrow> u32 \<Rightarrow> 'k \<Rightarrow> unit res \<times> 'k" where
  "kernel_add H dest gw ifindex k =
     (let (err, k) = ih_create H (mk_forward_row dest gw ifindex) k
      in if err \<noteq> 0 \<and> err \<noteq> 5010
         then (Inl (''CreateIpForwardEntry2('' @ show_ipv4 dest @ '') failed: '' @ dec (unat err)), k)
         else (Inr (), k))"

definition kernel_del :: "'k ip_helper \<Rightarrow> ipv4 \<Rightarrow> ipv4 \<Rightarrow> u32 \<Rightarrow> 'k \<Rightarrow> unit res \<times> 'k" where
  "kernel_del H dest gw ifindex k =
     (let (err, k) = ih_delete H (mk_forward_row dest gw ifindex) k
      in if err \<noteq> 0 \<and> err \<noteq> 1168
         then (Inl (''DeleteIpForwardEntry2('' @ show_ipv4 dest @ '') failed: '' @ dec (unat err)), k)
         else (Inr (), k))"

definition set_metric :: "'k ip_helper \<Rightarrow> u32 \<Rightarrow> u32 \<Rightarrow> 'k \<Rightarrow> unit res \<times> 'k" where
  "set_metric H ifindex metric k =
     (case ih_get_if H ifindex k of
        Inl err \<Rightarrow> (Inl (''GetIpInterfaceEntry('' @ dec (unat ifindex) @ '') failed: '' @ dec (unat err)), k)
      | Inr row \<Rightarrow>
          (let (err, k) = ih_set_if H ifindex \<lparr>ir_metric = metric, ir_auto = False\<rparr> k
           in if err \<noteq> 0
              then (Inl (''SetIpInterfaceEntry('' @ dec (unat ifindex) @ '') failed: '' @ dec (unat err)), k)
              else (Inr (), k)))"

record 'k route_guard =
  rg_kernel :: 'k
  rg_added :: "route list"
  rg_saved_metric :: "(u32 \<times> u32 \<times> bool) option"
  rg_applied_metric_ifindex :: "u32 option"

definition route_guard_new :: "'k \<Rightarrow> 'k route_guard" where
  "route_guard_new k = \<lparr>rg_kernel = k, rg_added = [], rg_saved_metric = None,
     rg_applied_metric_ifindex = None\<rparr>"

definition guard_add_route ::
  "'k ip_helper \<Rightarrow> ipv4 \<Rightarrow> ipv4 \<Rightarrow> u32 \<Rightarrow> 'k route_guard \<Rightarrow> unit res \<times> 'k route_guard" where
  "guard_add_route H dest gateway ifindex g =
     (if (dest, gateway, ifindex) \<in> set (rg_added g) then (Inr (), g)
      else (case kernel_add H dest gateway ifindex (rg_kernel g) of
              (Inl m, k) \<Rightarrow> (Inl m, g\<lparr>rg_kernel := k\<rparr>)
            | (Inr _, k) \<Rightarrow> (Inr (), g\<lparr>rg_kernel := k,
                               rg_added := rg_added g @ [(dest, gateway, ifindex)]\<rparr>)))"

definition guard_delete_route ::
  "'k ip_helper \<Rightarrow> ipv4 \<Rightarrow> ipv4 \<Rightarrow> u32 \<Rightarrow> 'k route_guard \<Rightarrow> unit res \<times> 'k route_guard" where
  "guard_delete_route H dest gateway ifindex g =
     (case kernel_del H dest gateway ifindex (rg_kernel g) of
        (Inl m, k) \<Rightarrow> (Inl m, g\<lparr>rg_kernel := k\<rparr>)
      | (Inr _, k) \<Rightarrow> (Inr (), g\<lparr>rg_kernel := k,
                         rg_added := filter (\<lambda>r. r \<noteq> (dest, gateway, ifindex)) (rg_added g)\<rparr>))"

definition set_standby_metric :: "'k ip_helper \<Rightarrow> u32 \<Rightarrow> u32 \<Rightarrow> 'k route_guard \<Rightarrow> 'k route_guard" where
  "set_standby_metric H ifindex target g =
     (if target = 0 \<or> rg_applied_metric_ifindex g = Some ifindex then g
      else (let saved = (case rg_saved_metric g of
                           Some (i, _, _) \<Rightarrow> if i \<noteq> ifindex then None else Some g
                         | None \<Rightarrow> None);
                read = (case saved of Some g \<Rightarrow> Some g
                        | None \<Rightarrow> (case ih_get_if H ifindex (rg_kernel g) of
                             Inl _ \<Rightarrow> None
                           | Inr row \<Rightarrow> Some (g\<lparr>rg_saved_metric :=
                                          Some (ifindex, ir_metric row, ir_auto row)\<rparr>)))
            in (case read of None \<Rightarrow> g
                | Some g \<Rightarrow> (case set_metric H ifindex target (rg_kernel g) of
                    (Inl _, k) \<Rightarrow> g\<lparr>rg_kernel := k\<rparr>
                  | (Inr _, k) \<Rightarrow> g\<lparr>rg_kernel := k, rg_applied_metric_ifindex := Some ifindex\<rparr>))))"

text \<open>The second half of \<open>restore_metric\<close>, for an interface whose metric was automatic.\<close>

definition restore_auto :: "'k ip_helper \<Rightarrow> u32 \<Rightarrow> 'k route_guard \<Rightarrow> unit res \<times> 'k route_guard" where
  "restore_auto H ifindex g =
     (case ih_get_if H ifindex (rg_kernel g) of
        Inl err \<Rightarrow> (Inl (''Read automatic metric if'' @ dec (unat ifindex) @ '' failed: '' @ dec (unat err)), g)
      | Inr row \<Rightarrow>
          (let (err, k) = ih_set_if H ifindex (row\<lparr>ir_auto := True\<rparr>) (rg_kernel g);
               g = g\<lparr>rg_kernel := k\<rparr>
           in if err \<noteq> 0
              then (Inl (''Restore automatic metric if'' @ dec (unat ifindex) @ '' failed: '' @ dec (unat err)), g)
              else (Inr (), g)))"

definition restore_metric :: "'k ip_helper \<Rightarrow> 'k route_guard \<Rightarrow> unit res \<times> 'k route_guard" where
  "restore_metric H g =
     (case rg_saved_metric g of
        None \<Rightarrow> (Inr (), g\<lparr>rg_applied_metric_ifindex := None\<rparr>)
      | Some (ifindex, metric, auto) \<Rightarrow>
          (let g = g\<lparr>rg_applied_metric_ifindex := None\<rparr>;
               (r, k) = set_metric H ifindex metric (rg_kernel g);
               g = g\<lparr>rg_kernel := k\<rparr>
           in (case r of Inl m \<Rightarrow> (Inl m, g)
               | Inr _ \<Rightarrow> (case (if auto then restore_auto H ifindex g else (Inr (), g)) of
                             (Inl m, g) \<Rightarrow> (Inl m, g)
                           | (Inr _, g) \<Rightarrow> (Inr (), g\<lparr>rg_saved_metric := None\<rparr>)))))"

definition guard_release_metric :: "'k ip_helper \<Rightarrow> 'k route_guard \<Rightarrow> unit res \<times> 'k route_guard" where
  "guard_release_metric H g = restore_metric H g"

fun delete_all :: "'k ip_helper \<Rightarrow> route list \<Rightarrow> 'k route_guard \<Rightarrow> 'k route_guard" where
  "delete_all H [] g = g"
| "delete_all H ((d, gw, i) # rs) g = delete_all H rs (snd (guard_delete_route H d gw i g))"

fun add_all :: "'k ip_helper \<Rightarrow> route list \<Rightarrow> 'k route_guard \<Rightarrow> 'k route_guard" where
  "add_all H [] g = g"
| "add_all H ((d, gw, i) # rs) g = add_all H rs (snd (guard_add_route H d gw i g))"

definition guard_ensure ::
  "'k ip_helper \<Rightarrow> ipv4 list \<Rightarrow> ipv4 \<Rightarrow> u32 \<Rightarrow> 'k route_guard \<Rightarrow> 'k route_guard" where
  "guard_ensure H dests gw ifindex g =
     (let wanted = map (\<lambda>d. (d, gw, ifindex)) dests
      in add_all H wanted (delete_all H (filter (\<lambda>r. r \<notin> set wanted) (rg_added g)) g))"

definition teardown :: "'k ip_helper \<Rightarrow> 'k route_guard \<Rightarrow> 'k route_guard" where
  "teardown H g = snd (restore_metric H (delete_all H (rg_added g) g))"

text \<open>\<open>impl EgressOps for RouteGuard\<close>.\<close>

definition route_guard_ops :: "'k ip_helper \<Rightarrow> 'k route_guard egress_ops" where
  "route_guard_ops H = \<lparr>eo_add = guard_add_route H, eo_delete = guard_delete_route H,
     eo_suppress = set_standby_metric H, eo_restore = (\<lambda>_. guard_release_metric H)\<rparr>"

definition cleanup_row :: "'k ip_helper \<Rightarrow> ipv4 list \<Rightarrow> forward_row \<Rightarrow> 'k \<Rightarrow> 'k" where
  "cleanup_row H dests row k =
     (if \<not> fr_netmgmt row \<or> fr_prefix_len row \<noteq> 32 then k
      else (let hop = s_addr_to_ipv4 (fr_next_hop row); dest = s_addr_to_ipv4 (fr_dest row)
            in if dest \<in> set dests then snd (kernel_del H dest hop (fr_ifindex row) k) else k))"

definition cleanup_stale :: "'k ip_helper \<Rightarrow> ipv4 list \<Rightarrow> 'k \<Rightarrow> 'k" where
  "cleanup_stale H dests k =
     (case ih_table H k of None \<Rightarrow> k | Some rows \<Rightarrow> fold (cleanup_row H dests) rows k)"

section \<open>The guard keeps the adapter contract\<close>

lemma kernel_calls_ledger [simp]:
  "rg_added (set_standby_metric H i t g) = rg_added g"
  "rg_added (snd (restore_auto H i g)) = rg_added g"
  by (simp_all add: set_standby_metric_def restore_auto_def Let_def case_prod_beta
      split: option.splits sum.splits)

lemma restore_metric_ledger [simp]: "rg_added (snd (restore_metric H g)) = rg_added g"
proof (cases "rg_saved_metric g")
  case None
  then show ?thesis by (simp add: restore_metric_def)
next
  case (Some s)
  obtain i m a where s: "s = (i, m, a)" by (cases s)
  define u where "u = g\<lparr>rg_applied_metric_ifindex := None,
      rg_kernel := snd (set_metric H i m (rg_kernel g))\<rparr>"
  have "rg_added u = rg_added g" by (simp add: u_def)
  moreover have "rg_added (snd (restore_auto H i u)) = rg_added u" by simp
  ultimately show ?thesis using Some s
    by (simp add: restore_metric_def Let_def case_prod_beta u_def split: sum.splits)
qed

interpretation guard: egress_adapter "route_guard_ops H" "\<lambda>g. set (rg_added g)" for H
  by unfold_locales
     (auto simp: route_guard_ops_def guard_add_route_def guard_delete_route_def
       guard_release_metric_def split: if_splits prod.splits sum.splits)

interpretation guard_distinct: egress_stable "route_guard_ops H" "\<lambda>g. distinct (rg_added g)" for H
  by unfold_locales
     (auto simp: route_guard_ops_def guard_add_route_def guard_delete_route_def
       guard_release_metric_def split: prod.splits sum.splits)

text \<open>
  C12 (functional). Acquiring the wireless egress is exact: when it reports success, the routes the
  service has in the system are exactly one host route per owned destination through the new
  gateway and interface (those of an earlier endpoint are gone), the caller is told to wait the
  settle time, and nothing is left to clean up.
\<close>

theorem acquire_routes_exact:
  assumes "egress_reach (route_guard_ops H) (route_guard_new k) e"
    and "acquire (route_guard_ops H) ep e = (Inr w, e')"
  shows "set (rg_added (eg_ops e')) =
      (\<lambda>d. (d, ep_gateway ep, ep_ifindex ep)) ` set (eg_dests e)
    \<and> set (eg_added e') = set (rg_added (eg_ops e'))
    \<and> w = from_secs 3 \<and> \<not> has_pending_cleanup e'"
proof -
  have l: "guard.ledger_exact e"
    by (rule guard.egress_reach_ledger [OF assms(1)]) (simp add: route_guard_new_def)
  have m: "metric_inv e" by (rule egress_reach_metric_inv) fact
  have f: "fst (acquire (route_guard_ops H) ep e) = Inr w"
    "snd (acquire (route_guard_ops H) ep e) = e'" using assms(2) by auto
  from guard.acquire_success [OF l m f(1)] guard.acquire_ledger [OF l, of H ep] show ?thesis
    by (simp add: f(2) guard.ledger_exact_def route_settle_def)
qed

text \<open>A helper that always succeeds, for the concrete instances below.\<close>

definition demo_helper :: "(forward_row list \<times> (u32 \<Rightarrow> if_row)) ip_helper" where
  "demo_helper = \<lparr>ih_create = \<lambda>r (t, m). (0, (r # t, m)), ih_delete = \<lambda>r (t, m). (0, (removeAll r t, m)),
     ih_table = \<lambda>(t, m). Some t, ih_get_if = \<lambda>i (t, m). Inr (m i),
     ih_set_if = \<lambda>i r (t, m). (0, (t, m(i := r)))\<rparr>"

definition demo_kernel :: "forward_row list \<times> (u32 \<Rightarrow> if_row)" where
  "demo_kernel = ([], \<lambda>_. \<lparr>ir_metric = 25, ir_auto = True\<rparr>)"

definition demo_egress :: "(forward_row list \<times> (u32 \<Rightarrow> if_row)) route_guard egress" where
  "demo_egress = own_destinations (route_guard_ops demo_helper) [Ipv4 10 0 3 2, Ipv4 223 5 5 5]
     (egress_new (route_guard_new demo_kernel))"

lemma demo_reach: "egress_reach (route_guard_ops demo_helper) (route_guard_new demo_kernel) demo_egress"
  unfolding demo_egress_def by (rule er_own, rule er_new)

lemmas demo_simps = acquire_def retry_cleanup_def release_def release_metric_def own_destinations_def
  egress_new_def route_guard_new_def demo_kernel_def demo_helper_def route_guard_ops_def
  guard_add_route_def guard_delete_route_def kernel_add_def kernel_del_def

lemma demo_egress_fields: "eg_dests demo_egress = [Ipv4 10 0 3 2, Ipv4 223 5 5 5]"
  "eg_added demo_egress = []" "eg_metric_release_pending demo_egress = False"
  "eg_ops demo_egress = route_guard_new demo_kernel"
  by (simp_all add: demo_egress_def own_destinations_def retry_cleanup_def egress_new_def Let_def)

lemma demo_acquire:
  "fst (acquire (route_guard_ops demo_helper) \<lparr>ep_gateway = Ipv4 172 16 0 1, ep_ifindex = 15\<rparr> demo_egress)
     = Inr route_settle"
  by (simp add: acquire_def retry_cleanup_def demo_egress_fields Let_def route_guard_ops_def
      guard_add_route_def kernel_add_def demo_helper_def demo_kernel_def route_guard_new_def)

theorem acquire_routes_exact_witness:
  "set (rg_added (eg_ops (snd (acquire (route_guard_ops demo_helper)
      \<lparr>ep_gateway = Ipv4 172 16 0 1, ep_ifindex = 15\<rparr> demo_egress)))) =
     {(Ipv4 10 0 3 2, Ipv4 172 16 0 1, 15), (Ipv4 223 5 5 5, Ipv4 172 16 0 1, 15)}"
  using acquire_routes_exact [OF demo_reach, of "\<lparr>ep_gateway = Ipv4 172 16 0 1, ep_ifindex = 15\<rparr>"
      route_settle, OF prod_eqI [of _ "(_, _)", simplified fst_conv snd_conv, OF demo_acquire refl]]
  by (simp add: demo_egress_fields)

section \<open>What is left in the kernel\<close>

text \<open>
  The documented behaviour of the routing table calls, for the set \<open>K k\<close> of its rows: creating adds
  at most the given row, a failed creation adds nothing, a deletion that succeeds or finds no row
  leaves the row absent, a deletion never adds, and the interface calls leave the table alone.
\<close>

definition table_laws :: "'k ip_helper \<Rightarrow> ('k \<Rightarrow> forward_row set) \<Rightarrow> bool" where
  "table_laws H K \<longleftrightarrow>
     (\<forall>r k. K (snd (ih_create H r k)) \<subseteq> insert r (K k)) \<and>
     (\<forall>r k. fst (ih_create H r k) \<noteq> 0 \<and> fst (ih_create H r k) \<noteq> 5010 \<longrightarrow> K (snd (ih_create H r k)) \<subseteq> K k) \<and>
     (\<forall>r k. K (snd (ih_delete H r k)) \<subseteq> K k) \<and>
     (\<forall>r k. fst (ih_delete H r k) = 0 \<or> fst (ih_delete H r k) = 1168 \<longrightarrow> r \<notin> K (snd (ih_delete H r k))) \<and>
     (\<forall>i r k. K (snd (ih_set_if H i r k)) \<subseteq> K k)"

text \<open>Every row that was not there at the start is the row of a route in the guard's ledger.\<close>

definition no_leak :: "('k \<Rightarrow> forward_row set) \<Rightarrow> forward_row set \<Rightarrow> 'k route_guard \<Rightarrow> bool" where
  "no_leak K K0 g \<longleftrightarrow> K (rg_kernel g) \<subseteq> K0 \<union> (\<lambda>(d, gw, i). mk_forward_row d gw i) ` set (rg_added g)"

lemma no_leak_add:
  assumes "table_laws H K" "no_leak K K0 g" shows "no_leak K K0 (snd (guard_add_route H d gw i g))"
proof -
  obtain err k' where c: "ih_create H (mk_forward_row d gw i) (rg_kernel g) = (err, k')"
    by (cases "ih_create H (mk_forward_row d gw i) (rg_kernel g)")
  have "K k' \<subseteq> insert (mk_forward_row d gw i) (K (rg_kernel g))"
    using assms(1) c unfolding table_laws_def by (metis snd_conv)
  moreover have "err \<noteq> 0 \<and> err \<noteq> 5010 \<Longrightarrow> K k' \<subseteq> K (rg_kernel g)"
    using assms(1) c unfolding table_laws_def by (metis fst_conv snd_conv)
  ultimately show ?thesis using assms(2)
    by (auto simp: guard_add_route_def kernel_add_def c no_leak_def)
qed

lemma no_leak_delete:
  assumes "table_laws H K" "no_leak K K0 g" shows "no_leak K K0 (snd (guard_delete_route H d gw i g))"
proof -
  obtain err k' where c: "ih_delete H (mk_forward_row d gw i) (rg_kernel g) = (err, k')"
    by (cases "ih_delete H (mk_forward_row d gw i) (rg_kernel g)")
  have s: "K k' \<subseteq> K (rg_kernel g)"
    using assms(1) c unfolding table_laws_def by (metis snd_conv)
  have g: "err = 0 \<or> err = 1168 \<Longrightarrow> mk_forward_row d gw i \<notin> K k'"
    using assms(1) c unfolding table_laws_def by (metis fst_conv snd_conv)
  show ?thesis
  proof (cases "err = 0 \<or> err = 1168")
    case True
    have "K k' \<subseteq> K0 \<union> (\<lambda>(d, gw, i). mk_forward_row d gw i) ` {r \<in> set (rg_added g). r \<noteq> (d, gw, i)}"
    proof
      fix r assume r: "r \<in> K k'"
      with s assms(2) consider "r \<in> K0"
        | x where "x \<in> set (rg_added g)" "r = (\<lambda>(d, gw, i). mk_forward_row d gw i) x"
        by (auto simp: no_leak_def)
      then show "r \<in> K0 \<union> (\<lambda>(d, gw, i). mk_forward_row d gw i) ` {r \<in> set (rg_added g). r \<noteq> (d, gw, i)}"
      proof cases
        case 1
        then show ?thesis by simp
      next
        case 2
        then have "x \<noteq> (d, gw, i)" using r g [OF True] by auto
        with 2 show ?thesis by (intro UnI2 image_eqI [of _ _ x]) auto
      qed
    qed
    with True show ?thesis
      by (auto simp: guard_delete_route_def kernel_del_def c no_leak_def)
  next
    case False
    with s assms(2) show ?thesis
      by (auto simp: guard_delete_route_def kernel_del_def c no_leak_def)
  qed
qed

lemma set_metric_table:
  assumes "table_laws H K" shows "K (snd (set_metric H i m k)) \<subseteq> K k"
proof -
  have "K (snd (ih_set_if H i r k)) \<subseteq> K k" for r using assms by (simp add: table_laws_def)
  then show ?thesis by (auto simp: set_metric_def Let_def case_prod_beta split: sum.splits)
qed

lemma restore_auto_table:
  assumes "table_laws H K" shows "K (rg_kernel (snd (restore_auto H i g))) \<subseteq> K (rg_kernel g)"
proof -
  have "K (snd (ih_set_if H i r k)) \<subseteq> K k" for r k using assms by (simp add: table_laws_def)
  then show ?thesis by (auto simp: restore_auto_def Let_def case_prod_beta split: sum.splits)
qed

lemma restore_metric_table:
  assumes "table_laws H K" shows "K (rg_kernel (snd (restore_metric H g))) \<subseteq> K (rg_kernel g)"
proof (cases "rg_saved_metric g")
  case None
  then show ?thesis by (simp add: restore_metric_def)
next
  case (Some s)
  obtain i m a where s: "s = (i, m, a)" by (cases s)
  define u where "u = g\<lparr>rg_applied_metric_ifindex := None,
      rg_kernel := snd (set_metric H i m (rg_kernel g))\<rparr>"
  have u: "K (rg_kernel u) \<subseteq> K (rg_kernel g)" using set_metric_table [OF assms] by (simp add: u_def)
  have "rg_kernel (snd (restore_metric H g)) \<in> {rg_kernel u, rg_kernel (snd (restore_auto H i u))}"
    using Some s by (simp add: restore_metric_def Let_def case_prod_beta u_def split: sum.splits)
  with u restore_auto_table [OF assms, of i u] show ?thesis by auto
qed

lemma standby_metric_table:
  assumes "table_laws H K" shows "K (rg_kernel (set_standby_metric H i t g)) \<subseteq> K (rg_kernel g)"
  using set_metric_table [OF assms]
  by (auto simp: set_standby_metric_def Let_def case_prod_beta split: option.splits sum.splits)

lemma route_guard_stable: "table_laws H K \<Longrightarrow> egress_stable (route_guard_ops H) (no_leak K K0)"
proof unfold_locales
  fix g i t assume h: "table_laws H K" "no_leak K K0 g"
  show "no_leak K K0 (eo_suppress (route_guard_ops H) i t g)"
    using standby_metric_table [OF h(1), of i t g] h(2)
    by (auto simp: route_guard_ops_def no_leak_def)
  show "no_leak K K0 (snd (eo_restore (route_guard_ops H) i g))"
    using restore_metric_table [OF h(1), of g] h(2)
    by (auto simp: route_guard_ops_def no_leak_def guard_release_metric_def)
qed (simp_all add: route_guard_ops_def no_leak_add no_leak_delete)

text \<open>
  C11 (safety). Releasing the wireless egress leaves no trace: whenever \<open>release\<close> succeeds, after any
  history of acquisitions, migrations, failures and retries, the system routing table holds no row
  that was not there before the service started, both ledgers are empty and nothing is pending.
\<close>

theorem release_leaves_no_route:
  assumes "table_laws H K"
    and "egress_reach (route_guard_ops H) (route_guard_new k0) e"
    and "release (route_guard_ops H) e = (Inr (), e')"
  shows "K (rg_kernel (eg_ops e')) \<subseteq> K k0
    \<and> rg_added (eg_ops e') = [] \<and> eg_added e' = [] \<and> \<not> has_pending_cleanup e'"
proof -
  have l: "guard.ledger_exact e"
    by (rule guard.egress_reach_ledger [OF assms(2)]) (simp add: route_guard_new_def)
  have m: "metric_inv e" by (rule egress_reach_metric_inv) fact
  have f: "fst (release (route_guard_ops H) e) = Inr ()" "snd (release (route_guard_ops H) e) = e'"
    using assms(3) by auto
  have n: "no_leak K (K k0) (route_guard_new k0)" by (simp add: no_leak_def route_guard_new_def)
  have "egress_reach (route_guard_ops H) (route_guard_new k0) e'"
    using er_release [OF assms(2)] f(2) by simp
  from egress_stable.egress_reach_keeps [OF route_guard_stable [OF assms(1)] this n]
  have "no_leak K (K k0) (eg_ops e')" .
  with guard.release_success [OF l m f(1)] show ?thesis by (simp add: f(2) no_leak_def)
qed

lemma demo_table_laws: "table_laws demo_helper (\<lambda>(t, m). set t)"
  by (auto simp: table_laws_def demo_helper_def case_prod_beta)

theorem release_leaves_no_route_witness:
  "eg_added (snd (release (route_guard_ops demo_helper) demo_egress)) = []"
proof -
  have "fst (release (route_guard_ops demo_helper) demo_egress) = Inr ()"
    by (simp add: release_def retry_cleanup_def release_metric_def demo_egress_def
        own_destinations_def egress_new_def Let_def)
  then have "release (route_guard_ops demo_helper) demo_egress
      = (Inr (), snd (release (route_guard_ops demo_helper) demo_egress))"
    by (metis prod.collapse)
  from release_leaves_no_route [OF demo_table_laws demo_reach this] show ?thesis by simp
qed

text \<open>
  A pending cleanup is reported exactly as long as it is pending: a run of
  \<open>retry_cleanup\<close> returns success if and only if nothing is left to clean up after it, so the worker's
  periodic retry stops exactly when every stale route and the metric are gone.
\<close>

theorem retry_cleanup_reports_pending:
  assumes "egress_reach E x e"
  shows "fst (retry_cleanup E e) = Inr () \<longleftrightarrow> \<not> has_pending_cleanup (snd (retry_cleanup E e))"
  using retry_cleanup_exact(1) [OF egress_reach_metric_inv [OF assms]] .

theorem retry_cleanup_reports_pending_witness:
  "fst (retry_cleanup (route_guard_ops demo_helper) demo_egress) = Inr () \<longleftrightarrow>
     \<not> has_pending_cleanup (snd (retry_cleanup (route_guard_ops demo_helper) demo_egress))"
  using retry_cleanup_reports_pending [OF demo_reach] .

section \<open>The interface metric\<close>

text \<open>
  The documented behaviour of the interface calls: a successful write is read back, a failed one
  changes nothing, and neither it nor the routing table calls touch other interfaces.
\<close>

definition if_laws :: "'k ip_helper \<Rightarrow> bool" where
  "if_laws H \<longleftrightarrow>
     (\<forall>i r k. fst (ih_set_if H i r k) = 0 \<longrightarrow> ih_get_if H i (snd (ih_set_if H i r k)) = Inr r) \<and>
     (\<forall>i r k. fst (ih_set_if H i r k) \<noteq> 0 \<longrightarrow> ih_get_if H i (snd (ih_set_if H i r k)) = ih_get_if H i k) \<and>
     (\<forall>i j r k. i \<noteq> j \<longrightarrow> ih_get_if H j (snd (ih_set_if H i r k)) = ih_get_if H j k) \<and>
     (\<forall>j r k. ih_get_if H j (snd (ih_create H r k)) = ih_get_if H j k
            \<and> ih_get_if H j (snd (ih_delete H r k)) = ih_get_if H j k)"

lemma if_lawsD:
  assumes "if_laws H"
  shows "fst (ih_set_if H i r k) = 0 \<Longrightarrow> ih_get_if H i (snd (ih_set_if H i r k)) = Inr r"
    and "fst (ih_set_if H i r k) \<noteq> 0 \<Longrightarrow> ih_get_if H i (snd (ih_set_if H i r k)) = ih_get_if H i k"
    and "i \<noteq> j \<Longrightarrow> ih_get_if H j (snd (ih_set_if H i r k)) = ih_get_if H j k"
    and "ih_get_if H j (snd (ih_create H r' k)) = ih_get_if H j k"
    and "ih_get_if H j (snd (ih_delete H r' k)) = ih_get_if H j k"
  using assms unfolding if_laws_def by blast+

definition metric_ok :: "'k ip_helper \<Rightarrow> 'k \<Rightarrow> u32 \<Rightarrow> 'k route_guard \<Rightarrow> bool" where
  "metric_ok H k0 i g \<longleftrightarrow>
     (\<forall>j. j \<noteq> i \<longrightarrow> ih_get_if H j (rg_kernel g) = ih_get_if H j k0) \<and>
     (case rg_saved_metric g of
        None \<Rightarrow> ih_get_if H i (rg_kernel g) = ih_get_if H i k0
      | Some s \<Rightarrow> (\<exists>row. ih_get_if H i k0 = Inr row \<and> s = (i, ir_metric row, ir_auto row)))"

lemma set_metric_others:
  assumes "if_laws H" "j \<noteq> i"
  shows "ih_get_if H j (snd (set_metric H i m k)) = ih_get_if H j k"
  using if_lawsD(3) [OF assms(1)] assms(2)
  by (simp add: set_metric_def Let_def case_prod_beta split: sum.splits)

lemma set_metric_done:
  assumes "if_laws H" "fst (set_metric H i m k) = Inr u"
  shows "ih_get_if H i (snd (set_metric H i m k)) = Inr \<lparr>ir_metric = m, ir_auto = False\<rparr>"
  using if_lawsD(1) [OF assms(1)] assms(2)
  by (auto simp: set_metric_def Let_def case_prod_beta split: sum.splits if_splits)

lemma restore_auto_others:
  assumes "if_laws H" "j \<noteq> i"
  shows "ih_get_if H j (rg_kernel (snd (restore_auto H i g))) = ih_get_if H j (rg_kernel g)"
  using if_lawsD(3) [OF assms(1)] assms(2)
  by (simp add: restore_auto_def Let_def case_prod_beta split: sum.splits)

lemma restore_auto_done:
  assumes "if_laws H" "fst (restore_auto H i g) = Inr u" "ih_get_if H i (rg_kernel g) = Inr row"
  shows "ih_get_if H i (rg_kernel (snd (restore_auto H i g))) = Inr (row\<lparr>ir_auto := True\<rparr>)"
  using if_lawsD(1) [OF assms(1)] assms(2,3)
  by (auto simp: restore_auto_def Let_def case_prod_beta split: if_splits)

lemma restore_auto_saved [simp]: "rg_saved_metric (snd (restore_auto H i g)) = rg_saved_metric g"
  by (simp add: restore_auto_def Let_def case_prod_beta split: sum.splits)

lemma restore_metric_ok:
  assumes "if_laws H" "metric_ok H k0 i g"
  shows "metric_ok H k0 i (snd (restore_metric H g))"
    and "fst (restore_metric H g) = Inr u \<Longrightarrow> rg_saved_metric (snd (restore_metric H g)) = None"
proof -
  have "metric_ok H k0 i (snd (restore_metric H g)) \<and>
    (fst (restore_metric H g) = Inr u \<longrightarrow> rg_saved_metric (snd (restore_metric H g)) = None)"
  proof (cases "rg_saved_metric g")
    case None
    with assms(2) show ?thesis by (simp add: restore_metric_def metric_ok_def)
  next
    case (Some s)
    with assms(2) obtain row where row: "ih_get_if H i k0 = Inr row"
      "s = (i, ir_metric row, ir_auto row)" by (auto simp: metric_ok_def)
    define v where "v = g\<lparr>rg_applied_metric_ifindex := None,
      rg_kernel := snd (set_metric H i (ir_metric row) (rg_kernel g))\<rparr>"
    have o: "\<forall>j. j \<noteq> i \<longrightarrow> ih_get_if H j (rg_kernel v) = ih_get_if H j k0"
      using set_metric_others [OF assms(1)] assms(2) by (simp add: v_def metric_ok_def)
    have o': "\<forall>j. j \<noteq> i \<longrightarrow> ih_get_if H j (rg_kernel (snd (restore_auto H i v))) = ih_get_if H j k0"
      using restore_auto_others [OF assms(1)] o by simp
    have sv: "rg_saved_metric v = Some s" by (simp add: v_def Some)
    have d: "ih_get_if H i (rg_kernel v) = Inr \<lparr>ir_metric = ir_metric row, ir_auto = False\<rparr>"
      if "fst (set_metric H i (ir_metric row) (rg_kernel g)) = Inr ()"
      using set_metric_done [OF assms(1) that] by (simp add: v_def)
    have d': "ih_get_if H i (rg_kernel (snd (restore_auto H i v)))
        = Inr \<lparr>ir_metric = ir_metric row, ir_auto = True\<rparr>"
      if "fst (set_metric H i (ir_metric row) (rg_kernel g)) = Inr ()" "fst (restore_auto H i v) = Inr ()"
      using restore_auto_done [OF assms(1) that(2) d [OF that(1)]] by simp
    have r: "restore_metric H g =
      (case fst (set_metric H i (ir_metric row) (rg_kernel g)) of Inl m \<Rightarrow> (Inl m, v)
       | Inr _ \<Rightarrow> if ir_auto row
           then (case fst (restore_auto H i v) of Inl m \<Rightarrow> (Inl m, snd (restore_auto H i v))
                 | Inr _ \<Rightarrow> (Inr (), (snd (restore_auto H i v))\<lparr>rg_saved_metric := None\<rparr>))
           else (Inr (), v\<lparr>rg_saved_metric := None\<rparr>))"
      by (simp add: restore_metric_def Some row(2) Let_def case_prod_beta v_def split: sum.splits)
    show ?thesis unfolding r
      using o o' d d' sv row by (cases row) (auto simp: metric_ok_def split: sum.splits)
  qed
  then show "metric_ok H k0 i (snd (restore_metric H g))"
    "fst (restore_metric H g) = Inr u \<Longrightarrow> rg_saved_metric (snd (restore_metric H g)) = None" by auto
qed

lemma standby_metric_ok:
  assumes "if_laws H" "metric_ok H k0 i g"
  shows "metric_ok H k0 i (set_standby_metric H i t g)"
proof -
  have set: "metric_ok H k0 i (case set_metric H i t (rg_kernel v) of
      (Inl m, k) \<Rightarrow> v\<lparr>rg_kernel := k\<rparr>
    | (Inr u, k) \<Rightarrow> v\<lparr>rg_kernel := k, rg_applied_metric_ifindex := Some i\<rparr>)"
    if "rg_saved_metric v \<noteq> None" "metric_ok H k0 i v" for v
    using that set_metric_others [OF assms(1), of _ i t "rg_kernel v"]
    by (cases "set_metric H i t (rg_kernel v)") (auto simp: metric_ok_def split: sum.splits)
  show ?thesis
  proof (cases "rg_saved_metric g")
    case None
    show ?thesis
    proof (cases "ih_get_if H i (rg_kernel g)")
      case (Inl err)
      then show ?thesis using assms(2) None by (simp add: set_standby_metric_def)
    next
      case (Inr row)
      let ?v = "g\<lparr>rg_saved_metric := Some (i, ir_metric row, ir_auto row)\<rparr>"
      have "ih_get_if H i k0 = Inr row" using assms(2) None Inr by (simp add: metric_ok_def)
      then have "metric_ok H k0 i ?v" using assms(2) by (auto simp: metric_ok_def)
      from set [OF _ this] assms(2) show ?thesis
        using None Inr by (simp add: set_standby_metric_def)
    qed
  next
    case (Some s)
    then obtain a b where s: "s = (i, a, b)" using assms(2) by (auto simp: metric_ok_def)
    from set [OF _ assms(2)] assms(2) Some s show ?thesis by (simp add: set_standby_metric_def)
  qed
qed

lemma kernel_calls_if:
  assumes "if_laws H"
  shows "ih_get_if H j (snd (kernel_add H d gw i k)) = ih_get_if H j k"
    and "ih_get_if H j (snd (kernel_del H d gw i k)) = ih_get_if H j k"
  using if_lawsD(4,5) [OF assms]
  by (simp_all add: kernel_add_def kernel_del_def Let_def case_prod_beta)

lemma metric_ok_routes:
  assumes "\<And>j. ih_get_if H j k = ih_get_if H j (rg_kernel g)"
  shows "metric_ok H k0 i (g\<lparr>rg_kernel := k\<rparr>) = metric_ok H k0 i g"
    and "metric_ok H k0 i (g\<lparr>rg_kernel := k, rg_added := a\<rparr>) = metric_ok H k0 i g"
  using assms by (cases "rg_saved_metric g"; simp add: metric_ok_def)+

lemma guard_routes_metric_ok:
  assumes "if_laws H" "metric_ok H k0 i g"
  shows "metric_ok H k0 i (snd (guard_add_route H d gw j g))"
    and "metric_ok H k0 i (snd (guard_delete_route H d gw j g))"
  using assms(2) kernel_calls_if [OF assms(1)]
  by (auto simp: guard_add_route_def guard_delete_route_def case_prod_beta metric_ok_routes
      split: sum.splits)

text \<open>Any use of the guard that manages the metric of one interface.\<close>

inductive guard_run :: "'k ip_helper \<Rightarrow> 'k \<Rightarrow> u32 \<Rightarrow> 'k route_guard \<Rightarrow> bool" for H k0 i where
  gr_new: "guard_run H k0 i (route_guard_new k0)"
| gr_add: "guard_run H k0 i g \<Longrightarrow> guard_run H k0 i (snd (guard_add_route H d gw j g))"
| gr_delete: "guard_run H k0 i g \<Longrightarrow> guard_run H k0 i (snd (guard_delete_route H d gw j g))"
| gr_suppress: "guard_run H k0 i g \<Longrightarrow> guard_run H k0 i (set_standby_metric H i t g)"
| gr_restore: "guard_run H k0 i g \<Longrightarrow> guard_run H k0 i (snd (restore_metric H g))"

lemma guard_run_metric_ok: "guard_run H k0 i g \<Longrightarrow> if_laws H \<Longrightarrow> metric_ok H k0 i g"
  by (induction rule: guard_run.induct)
     (simp_all add: guard_routes_metric_ok standby_metric_ok restore_metric_ok(1),
      simp add: metric_ok_def route_guard_new_def)

text \<open>
  C13 (roundtrip). However often and with whatever targets the metric of the WLAN interface is
  suppressed, and whatever calls fail in between, a restore that reports success gives every
  interface back the metric and the automatic-metric flag it had before the service touched it.
\<close>

theorem metric_restored_exactly:
  assumes "if_laws H" and "guard_run H k0 i g" and "restore_metric H g = (Inr (), g')"
  shows "ih_get_if H j (rg_kernel g') = ih_get_if H j k0"
proof -
  have m: "metric_ok H k0 i g" using guard_run_metric_ok [OF assms(2,1)] .
  have "metric_ok H k0 i g'" "rg_saved_metric g' = None"
    using restore_metric_ok(1) [OF assms(1) m] restore_metric_ok(2) [OF assms(1) m, of "()"] assms(3) by simp_all
  then show ?thesis by (cases "j = i") (simp_all add: metric_ok_def)
qed

lemma demo_if_laws: "if_laws demo_helper"
  by (auto simp: if_laws_def demo_helper_def case_prod_beta)

theorem metric_restored_exactly_witness:
  "ih_get_if demo_helper 15 (rg_kernel (snd (restore_metric demo_helper
     (set_standby_metric demo_helper 15 100 (route_guard_new demo_kernel)))))
   = Inr \<lparr>ir_metric = 25, ir_auto = True\<rparr>"
proof -
  let ?g = "set_standby_metric demo_helper 15 100 (route_guard_new demo_kernel)"
  have r: "guard_run demo_helper demo_kernel 15 ?g" by (rule gr_suppress, rule gr_new)
  have "fst (restore_metric demo_helper ?g) = Inr ()"
    by (simp add: restore_metric_def set_standby_metric_def route_guard_new_def demo_helper_def
        demo_kernel_def set_metric_def restore_auto_def)
  then have "restore_metric demo_helper ?g = (Inr (), snd (restore_metric demo_helper ?g))"
    by (metis prod.collapse)
  from metric_restored_exactly [OF demo_if_laws r this, of 15] show ?thesis
    by (simp add: demo_helper_def demo_kernel_def)
qed

text \<open>
  The clean-up of a previous run's routes only ever asks the system to delete host
  routes of the management protocol to the service's own destinations; every other row of the table
  is left alone. The kernel here records the deletions it is asked for.
\<close>

theorem cleanup_stale_only_own:
  "cleanup_stale \<lparr>ih_create = \<lambda>r k. (0, k), ih_delete = \<lambda>r k. (0, k @ [r]), ih_table = \<lambda>k. Some rows,
       ih_get_if = \<lambda>i k. Inl 0, ih_set_if = \<lambda>i r k. (0, k)\<rparr> dests []
   = map (\<lambda>r. mk_forward_row (s_addr_to_ipv4 (fr_dest r)) (s_addr_to_ipv4 (fr_next_hop r)) (fr_ifindex r))
       (filter (\<lambda>r. fr_netmgmt r \<and> fr_prefix_len r = 32 \<and> s_addr_to_ipv4 (fr_dest r) \<in> set dests) rows)"
proof -
  let ?H = "\<lparr>ih_create = \<lambda>r k. (0, k), ih_delete = \<lambda>r k. (0, k @ [r]), ih_table = \<lambda>k. Some rows,
       ih_get_if = \<lambda>i k. Inl 0, ih_set_if = \<lambda>i r k. (0, k)\<rparr>"
  let ?m = "\<lambda>r. mk_forward_row (s_addr_to_ipv4 (fr_dest r)) (s_addr_to_ipv4 (fr_next_hop r)) (fr_ifindex r)"
  let ?P = "\<lambda>r. fr_netmgmt r \<and> fr_prefix_len r = 32 \<and> s_addr_to_ipv4 (fr_dest r) \<in> set dests"
  have "fold (cleanup_row ?H dests) rs k = k @ map ?m (filter ?P rs)" for rs k
    by (induction rs arbitrary: k) (auto simp: cleanup_row_def kernel_del_def Let_def)
  then show ?thesis by (simp add: cleanup_stale_def)
qed

end
