(* ===== verification/Portal.thy ===== *)
theory Portal
  imports Http Codec
begin

text \<open>
  \<open>src/src/wireless/portal.rs\<close>: URL building, reply parsing and the gated login flow of the campus
  portal. The JSON library is a record of functions over its value type \<open>'v\<close>; the source-bound HTTP
  request and the sleep are functions over a network state \<open>'n\<close>.
\<close>

definition login_timeout :: duration where "login_timeout = from_secs 32"
definition request_timeout :: duration where "request_timeout = from_secs 8"
definition billing_settle :: duration where "billing_settle = from_secs 4"
definition portal_ua :: string where "portal_ua = ''python-requests/2.31.0''"

section \<open>Percent encoding and URLs\<close>

definition hex_digit :: "nat \<Rightarrow> char" where
  "hex_digit n = (if n < 10 then char_of (48 + n) else char_of (55 + n))"

definition unreserved :: "char \<Rightarrow> bool" where
  "unreserved c \<longleftrightarrow> (let n = (of_char c :: nat) in
     65 \<le> n \<and> n \<le> 90 \<or> 97 \<le> n \<and> n \<le> 122 \<or> 48 \<le> n \<and> n \<le> 57 \<or> n \<in> {45, 46, 95, 126})"

definition encode_byte :: "char \<Rightarrow> string" where
  "encode_byte c = (if unreserved c then [c]
     else [CHR ''%'', hex_digit (of_char c div 16), hex_digit (of_char c mod 16)])"

definition urlencode :: "string \<Rightarrow> string" where
  "urlencode s = concat (map encode_byte s)"

definition build_login_url :: "string \<Rightarrow> string \<Rightarrow> string \<Rightarrow> ipv4 \<Rightarrow> string \<Rightarrow> string" where
  "build_login_url base user pass ip ac_ip =
     base @ ''?callback=dr1004&login_method=1&user_account='' @ urlencode user
     @ ''&user_password='' @ urlencode pass @ ''&wlan_user_ip='' @ show_ipv4 ip
     @ ''&wlan_user_ipv6=&wlan_user_mac=000000000000&wlan_ac_ip='' @ urlencode ac_ip
     @ ''&wlan_ac_name=&jsVersion=4.1.3&terminal_type=2&lang=zh-cn&v=2041''"

definition build_operator_url :: "string \<Rightarrow> string \<Rightarrow> bool \<Rightarrow> string option" where
  "build_operator_url base user confirm =
     map_option (\<lambda>parent. parent @ ''/custom/operator?callback=dr1003&account='' @ urlencode user
       @ ''&r='' @ (if confirm then ''1'' else ''0'') @ ''&jsVersion=4.1.3&lang=en'')
       (strip_suffix ''/login'' base)"

definition redact_query :: "string \<Rightarrow> string" where
  "redact_query url =
     (case split_once CHR ''?'' url of Some (head, _) \<Rightarrow> head @ ''?***'' | None \<Rightarrow> url)"

section \<open>Replies\<close>

record 'v serde =
  js_from_str :: "string \<Rightarrow> 'v option"
  js_get :: "'v \<Rightarrow> string \<Rightarrow> 'v option"
  js_as_str :: "'v \<Rightarrow> string option"
  js_as_u64 :: "'v \<Rightarrow> nat option"
  js_to_string :: "'v \<Rightarrow> string"

datatype billing_status = Ready | ConfirmationRequired | Rejected | BillingMalformed

datatype portal_result = Success | AlreadyOnline | Failure string | Malformed

text \<open>
  The text between the first opening and the last closing parenthesis when they are in this order,
  otherwise the trimmed body.
\<close>

definition extract_json :: "string \<Rightarrow> string" where
  "extract_json body =
     (case split_once CHR ''('' body of
        None \<Rightarrow> trim body
      | Some (a, rest) \<Rightarrow> (case rsplit_once CHR '')'' rest of
          Some (inner, _) \<Rightarrow> inner
        | None \<Rightarrow> trim body))"

definition parse_billing_reply :: "'v serde \<Rightarrow> string \<Rightarrow> billing_status" where
  "parse_billing_reply J body =
     (case js_from_str J (extract_json body) of None \<Rightarrow> BillingMalformed
      | Some v \<Rightarrow>
          (case js_get J v ''code'' of
             None \<Rightarrow> BillingMalformed
           | Some code \<Rightarrow>
               if js_as_str J code = Some ''1'' \<or> js_as_u64 J code = Some 1
               then (let r = Option.bind (js_get J v ''result'') (js_as_str J) in
                     if r = Some ''ok'' then Ready
                     else if r = Some ''fail'' then ConfirmationRequired else BillingMalformed)
               else Rejected))"

text \<open>\<open>parse\<close> into a \<open>u64\<close> of a numeric string, or the number itself.\<close>

definition ret_code :: "'v serde \<Rightarrow> 'v \<Rightarrow> nat option" where
  "ret_code J v =
     (case js_get J v ''ret_code'' of None \<Rightarrow> None
      | Some r \<Rightarrow> (case js_as_u64 J r of Some n \<Rightarrow> Some n
                 | None \<Rightarrow> Option.bind (js_as_str J r) (parse_uint (2 ^ 64 - 1))))"

definition parse_portal_reply :: "'v serde \<Rightarrow> string \<Rightarrow> portal_result" where
  "parse_portal_reply J body =
     (case js_from_str J (extract_json body) of None \<Rightarrow> Malformed
      | Some v \<Rightarrow>
          (case map_option (\<lambda>r. case js_as_str J r of Some s \<Rightarrow> s | None \<Rightarrow> js_to_string J r)
                  (js_get J v ''result'') of
             None \<Rightarrow> Malformed
           | Some r \<Rightarrow>
               if r = ''1'' then Success
               else if r = ''0'' \<and> ret_code J v = Some 2 then AlreadyOnline
               else Failure (case Option.bind (js_get J v ''msg'') (js_as_str J) of
                               Some m \<Rightarrow> m | None \<Rightarrow> ''no msg'')))"

section \<open>The login flow\<close>

text \<open>
  \<open>nt_get\<close> is \<open>http::get_async\<close> with the portal's user agent, timeout and size limit, bound to the
  source address; \<open>None\<close> is any error.
\<close>

record 'n net =
  nt_get :: "ipv4 \<Rightarrow> string \<Rightarrow> 'n \<Rightarrow> response option \<times> 'n"
  nt_sleep :: "duration \<Rightarrow> 'n \<Rightarrow> 'n"

definition bad_base_msg :: string where "bad_base_msg = ''Portal login URL must end in /login''"

definition billing_request ::
  "'v serde \<Rightarrow> 'n net \<Rightarrow> ipv4 \<Rightarrow> string \<Rightarrow> 'n \<Rightarrow> (string + billing_status) \<times> 'n" where
  "billing_request J N src url n =
     (case nt_get N src url n of
        (None, n) \<Rightarrow> (Inl ''Billing cycle request failed'', n)
      | (Some reply, n) \<Rightarrow>
          if r_status reply \<noteq> 200
          then (Inl (''Billing cycle request returned HTTP '' @ dec (unat (r_status reply))), n)
          else (Inr (parse_billing_reply J (r_body reply)), n))"

definition submit_login ::
  "'n net \<Rightarrow> ipv4 \<Rightarrow> string \<Rightarrow> string \<Rightarrow> string \<Rightarrow> string \<Rightarrow> 'n \<Rightarrow> (string + u16 \<times> string) \<times> 'n"
where
  "submit_login N src base user pass ac_ip n =
     (case nt_get N src (build_login_url base user pass src ac_ip) n of
        (None, n) \<Rightarrow> (Inl ''Portal login request failed'', n)
      | (Some r, n) \<Rightarrow> (Inr (r_status r, r_body r), n))"

definition login_inner ::
  "'v serde \<Rightarrow> 'n net \<Rightarrow> ipv4 \<Rightarrow> string \<Rightarrow> string \<Rightarrow> string \<Rightarrow> string \<Rightarrow> 'n \<Rightarrow>
   (string + u16 \<times> string) \<times> 'n" where
  "login_inner J N src base user pass ac_ip n =
     (case build_operator_url base user False of
        None \<Rightarrow> (Inl bad_base_msg, n)
      | Some query \<Rightarrow>
          (case billing_request J N src query n of
             (Inl m, n) \<Rightarrow> (Inl m, n)
           | (Inr Ready, n) \<Rightarrow> submit_login N src base user pass ac_ip n
           | (Inr Rejected, n) \<Rightarrow> (Inl ''Billing cycle status query rejected'', n)
           | (Inr BillingMalformed, n) \<Rightarrow> (Inl ''Malformed billing cycle status reply'', n)
           | (Inr ConfirmationRequired, n) \<Rightarrow>
               (case build_operator_url base user True of
                  None \<Rightarrow> (Inl bad_base_msg, n)
                | Some confirm \<Rightarrow>
                    (case billing_request J N src confirm n of
                       (Inl m, n) \<Rightarrow> (Inl m, n)
                     | (Inr s, n) \<Rightarrow>
                         if s \<noteq> Ready
                         then (Inl ''Billing cycle confirmation rejected; login deferred'', n)
                         else submit_login N src base user pass ac_ip
                                (nt_sleep N billing_settle n)))))"

section \<open>Percent encoding is injective and inert\<close>

text \<open>A specification: the decoder of RFC 3986 percent encoding.\<close>

definition hex_val :: "char \<Rightarrow> nat" where
  "hex_val c = (let n = of_char c in if n \<le> 57 then n - 48 else n - 55)"

fun percent_decode :: "string \<Rightarrow> string" where
  "percent_decode (a # b # c # cs) =
     (if a = CHR ''%'' then char_of (16 * hex_val b + hex_val c) # percent_decode cs
      else a # percent_decode (b # c # cs))"
| "percent_decode cs = cs"

lemma hex_val_digit: "n < 16 \<Longrightarrow> hex_val (hex_digit n) = n"
  by (auto simp: hex_val_def hex_digit_def Let_def)

lemma of_char_less: "(of_char c :: nat) < 256"
  by (cases c) (simp add: of_char_def horner_sum_simps)

lemma unreserved_not_percent: "unreserved c \<Longrightarrow> c \<noteq> CHR ''%''"
  by (auto simp: unreserved_def)

lemma percent_decode_Cons: "a \<noteq> CHR ''%'' \<Longrightarrow> percent_decode (a # cs) = a # percent_decode cs"
  by (cases cs; cases "tl cs") auto

lemma percent_decode_encode: "percent_decode (urlencode s @ t) = s @ percent_decode t"
proof (induction s)
  case Nil
  then show ?case by (simp add: urlencode_def)
next
  case (Cons c s)
  have e: "urlencode (c # s) = encode_byte c @ urlencode s" by (simp add: urlencode_def)
  show ?case
  proof (cases "unreserved c")
    case True
    then show ?thesis using Cons
      by (simp add: e encode_byte_def percent_decode_Cons unreserved_not_percent)
  next
    case False
    have l: "of_char c div 16 < (16::nat)" "of_char c mod 16 < (16::nat)"
      using of_char_less [of c] by (simp_all add: div_less_iff_less_mult)
    have "16 * (of_char c div 16) + of_char c mod 16 = (of_char c :: nat)" by simp
    with False Cons l show ?thesis
      by (simp add: e encode_byte_def hex_val_digit)
  qed
qed

definition inert :: "char \<Rightarrow> bool" where
  "inert c \<longleftrightarrow> unreserved c \<or> c = CHR ''%''"

lemma hex_digit_unreserved: "n < 16 \<Longrightarrow> unreserved (hex_digit n)"
  by (auto simp: unreserved_def hex_digit_def Let_def)

lemma urlencode_inert: "c \<in> set (urlencode s) \<Longrightarrow> inert c"
proof -
  have "\<forall>x \<in> set (encode_byte b). inert x" for b
  proof -
    have l: "of_char b div 16 < (16::nat)" "of_char b mod 16 < (16::nat)"
      using of_char_less [of b] by (simp_all add: div_less_iff_less_mult)
    then show ?thesis by (auto simp: encode_byte_def inert_def hex_digit_unreserved)
  qed
  then show "c \<in> set (urlencode s) \<Longrightarrow> inert c" by (auto simp: urlencode_def)
qed

text \<open>
  Percent encoding loses nothing and emits nothing with a meaning in a URL: decoding
  the encoded bytes gives back every string, and the encoded text consists of unreserved characters
  and percent signs only.
\<close>

theorem urlencode_roundtrip:
  "percent_decode (urlencode s) = s \<and> (\<forall>c \<in> set (urlencode s). inert c)"
  using percent_decode_encode [of s "[]"] urlencode_inert by auto

theorem urlencode_roundtrip_witness:
  "percent_decode (urlencode ''a&b=c%'') = ''a&b=c%''"
  using urlencode_roundtrip [of "''a&b=c%''"] by blast

interpretation url_value: codec urlencode "\<lambda>s. Some (percent_decode s)" "\<lambda>_. True"
  by unfold_locales (simp add: urlencode_roundtrip)

section \<open>The login URL\<close>

lemma inert_delim: "inert c \<Longrightarrow> c \<noteq> CHR ''&'' \<and> c \<noteq> CHR ''?'' \<and> c \<noteq> CHR ''='' \<and> c \<noteq> CHR ''#''"
  by (auto simp: inert_def unreserved_def)

lemma urlencode_no_delim [simp]:
  "CHR ''&'' \<notin> set (urlencode s)" "CHR ''?'' \<notin> set (urlencode s)" "CHR ''='' \<notin> set (urlencode s)"
  using urlencode_inert inert_delim by blast+

lemma show_ipv4_no_delim [simp]: "CHR ''&'' \<notin> set (show_ipv4 ip)" "CHR ''?'' \<notin> set (show_ipv4 ip)"
proof -
  have "CHR ''&'' \<notin> set (dec n)" "CHR ''?'' \<notin> set (dec n)" for n
    using dec_all_digits [of n] by (auto simp: list_all_iff is_digit_def)
  then show "CHR ''&'' \<notin> set (show_ipv4 ip)" "CHR ''?'' \<notin> set (show_ipv4 ip)"
    by (cases ip; simp)+
qed

lemma split_char_join:
  "CHR ''&'' \<notin> set a \<Longrightarrow> split_char CHR ''&'' (a @ ''&'' @ b) = a # split_char CHR ''&'' b"
  using split_char_Cons [of "CHR ''&''" a b] by simp

text \<open>
  No account, password or AC address can add, drop or change a parameter of the login
  request: the query of the URL splits at its ampersands into exactly the thirteen parameters, with
  the three configured values percent-encoded in their places.
\<close>

theorem login_url_parameters:
  assumes "CHR ''?'' \<notin> set base"
  shows "\<exists>query. split_once CHR ''?'' (build_login_url base user pass ip ac_ip) = Some (base, query)
    \<and> split_char CHR ''&'' query =
       [''callback=dr1004'', ''login_method=1'', ''user_account='' @ urlencode user,
        ''user_password='' @ urlencode pass, ''wlan_user_ip='' @ show_ipv4 ip, ''wlan_user_ipv6='',
        ''wlan_user_mac=000000000000'', ''wlan_ac_ip='' @ urlencode ac_ip, ''wlan_ac_name='',
        ''jsVersion=4.1.3'', ''terminal_type=2'', ''lang=zh-cn'', ''v=2041'']"
proof (intro exI conjI)
  let ?q = "''callback=dr1004'' @ ''&'' @ ''login_method=1'' @ ''&'' @ (''user_account='' @ urlencode user)
    @ ''&'' @ (''user_password='' @ urlencode pass) @ ''&'' @ (''wlan_user_ip='' @ show_ipv4 ip) @ ''&''
    @ ''wlan_user_ipv6='' @ ''&'' @ ''wlan_user_mac=000000000000'' @ ''&'' @ (''wlan_ac_ip='' @ urlencode ac_ip)
    @ ''&'' @ ''wlan_ac_name='' @ ''&'' @ ''jsVersion=4.1.3'' @ ''&'' @ ''terminal_type=2'' @ ''&''
    @ ''lang=zh-cn'' @ ''&'' @ ''v=2041''"
  have "build_login_url base user pass ip ac_ip = base @ CHR ''?'' # ?q"
    by (simp add: build_login_url_def)
  with assms show "split_once CHR ''?'' (build_login_url base user pass ip ac_ip) = Some (base, ?q)"
    by (simp only: split_once_Some) simp
  show "split_char CHR ''&'' ?q =
       [''callback=dr1004'', ''login_method=1'', ''user_account='' @ urlencode user,
        ''user_password='' @ urlencode pass, ''wlan_user_ip='' @ show_ipv4 ip, ''wlan_user_ipv6='',
        ''wlan_user_mac=000000000000'', ''wlan_ac_ip='' @ urlencode ac_ip, ''wlan_ac_name='',
        ''jsVersion=4.1.3'', ''terminal_type=2'', ''lang=zh-cn'', ''v=2041'']"
    by (subst split_char_join, simp)+ simp
qed

theorem login_url_parameters_witness:
  "\<exists>query. split_once CHR ''?'' (build_login_url ''http://h/login'' ''a&b'' ''p?q'' (Ipv4 1 2 3 4) ''x'')
     = Some (''http://h/login'', query) \<and> length (split_char CHR ''&'' query) = 13"
  using login_url_parameters [of "''http://h/login''" "''a&b''" "''p?q''" "Ipv4 1 2 3 4" "''x''"] by auto

text \<open>
  What the logs show of a login URL does not depend on the account, the password or the
  addresses in it.
\<close>

theorem redacted_url_hides_credentials:
  "redact_query (build_login_url base user pass ip ac_ip)
   = redact_query (build_login_url base user' pass' ip' ac_ip')
   \<and> CHR ''&'' \<notin> set (drop (length base) (redact_query (build_login_url base user pass ip ac_ip)))"
proof -
  have r: "redact_query (build_login_url base u p i a) =
    (case split_once CHR ''?'' base of Some (h, _) \<Rightarrow> h @ ''?***'' | None \<Rightarrow> base @ ''?***'')" for u p i a
  proof (cases "split_once CHR ''?'' base")
    case None
    then have "CHR ''?'' \<notin> set base" by (simp add: split_once_None)
    with login_url_parameters obtain q where
      "split_once CHR ''?'' (build_login_url base u p i a) = Some (base, q)" by blast
    with None show ?thesis by (simp add: redact_query_def)
  next
    case (Some hr)
    obtain h t where hr: "hr = (h, t)" by (cases hr)
    with Some have b: "base = h @ CHR ''?'' # t" "CHR ''?'' \<notin> set h" by (simp_all add: split_once_Some)
    obtain q where "build_login_url base u p i a = h @ CHR ''?'' # q"
      by (simp add: build_login_url_def b)
    with b(2) have "split_once CHR ''?'' (build_login_url base u p i a) = Some (h, q)"
      by (simp add: split_once_Some)
    with Some hr show ?thesis by (simp add: redact_query_def)
  qed
  have "CHR ''&'' \<notin> set (drop (length base) (h @ ''?***''))" if "base = h @ CHR ''?'' # t" for h t
    using that by (simp add: drop_Cons')
  then show ?thesis unfolding r
    by (auto split: option.splits simp: split_once_Some drop_Cons' split: if_splits)
qed

section \<open>The order of the requests\<close>

datatype portal_act = Req string | Slept duration

text \<open>A network that records what it is asked, and answers as an arbitrary function of the history.\<close>

definition recorder :: "(portal_act list \<Rightarrow> string \<Rightarrow> response option) \<Rightarrow> portal_act list net" where
  "recorder answer = \<lparr>nt_get = \<lambda>src url log. (answer log url, log @ [Req url]),
     nt_sleep = \<lambda>d log. log @ [Slept d]\<rparr>"

definition billing_answer :: "'v serde \<Rightarrow> response option \<Rightarrow> billing_status option" where
  "billing_answer J r = (case r of None \<Rightarrow> None
     | Some reply \<Rightarrow> if r_status reply = 200 then Some (parse_billing_reply J (r_body reply)) else None)"

fun act_cost :: "portal_act \<Rightarrow> duration" where
  "act_cost (Req _) = request_timeout"
| "act_cost (Slept d) = d"

lemma billing_request_recorder:
  "snd (billing_request J (recorder answer) src url log) = log @ [Req url]"
  "(\<exists>s. fst (billing_request J (recorder answer) src url log) = Inr s) \<longleftrightarrow>
     billing_answer J (answer log url) \<noteq> None"
  "fst (billing_request J (recorder answer) src url log) = Inr s \<Longrightarrow>
     billing_answer J (answer log url) = Some s"
  by (auto simp: billing_request_def recorder_def billing_answer_def split: option.splits)

lemma submit_login_recorder:
  "submit_login (recorder answer) src base user pass ac_ip log =
     (case answer log (build_login_url base user pass src ac_ip) of
        None \<Rightarrow> Inl ''Portal login request failed'' | Some r \<Rightarrow> Inr (r_status r, r_body r),
      log @ [Req (build_login_url base user pass src ac_ip)])"
  by (auto simp: submit_login_def recorder_def split: option.splits)

text \<open>
  C17 (safety). The password leaves the machine only past the billing gate. For any behaviour of the
  network, a login attempt first queries the billing status; the login request follows at once when
  the status is ready, follows one confirmation and the settle time when a confirmation is asked for
  and accepted, and is never sent otherwise; a base URL that does not end in the login path sends
  nothing. At the request timeout each, the whole exchange stays below the deadline of the login.
\<close>

theorem login_gated_by_billing:
  fixes answer :: "portal_act list \<Rightarrow> string \<Rightarrow> response option"
  shows "let log = snd (login_inner J (recorder answer) src base user pass ac_ip []) in
    (case (build_operator_url base user False, build_operator_url base user True) of
       (Some q0, Some q1) \<Rightarrow>
         (let lg = build_login_url base user pass src ac_ip;
              b0 = billing_answer J (answer [] q0);
              b1 = billing_answer J (answer [Req q0] q1)
          in log = (if b0 = Some Ready then [Req q0, Req lg]
                    else if b0 = Some ConfirmationRequired
                    then (if b1 = Some Ready then [Req q0, Req q1, Slept (from_secs 4), Req lg]
                          else [Req q0, Req q1])
                    else [Req q0]))
     | _ \<Rightarrow> log = [])
    \<and> sum_list (map act_cost log) < login_timeout"
proof (cases "strip_suffix ''/login'' base")
  case None
  then show ?thesis
    by (simp add: login_inner_def build_operator_url_def login_timeout_def from_secs_def)
next
  case (Some parent)
  then obtain q0 q1 where q: "build_operator_url base user False = Some q0"
    "build_operator_url base user True = Some q1" by (auto simp: build_operator_url_def)
  define lg where "lg = build_login_url base user pass src ac_ip"
  obtain r0 where r0: "billing_request J (recorder answer) src q0 [] = (r0, [Req q0])"
    using billing_request_recorder(1) [of J answer src q0 "[]"]
    by (cases "billing_request J (recorder answer) src q0 []") auto
  obtain r1 where r1: "billing_request J (recorder answer) src q1 [Req q0] = (r1, [Req q0, Req q1])"
    using billing_request_recorder(1) [of J answer src q1 "[Req q0]"]
    by (cases "billing_request J (recorder answer) src q1 [Req q0]") auto
  have b0: "billing_answer J (answer [] q0) = (case r0 of Inl _ \<Rightarrow> None | Inr s \<Rightarrow> Some s)"
    using billing_request_recorder(2,3) [of J answer src q0 "[]"] r0 by (auto split: sum.splits)
  have b1: "billing_answer J (answer [Req q0] q1) = (case r1 of Inl _ \<Rightarrow> None | Inr s \<Rightarrow> Some s)"
    using billing_request_recorder(2,3) [of J answer src q1 "[Req q0]"] r1 by (auto split: sum.splits)
  have sl: "nt_sleep (recorder answer) billing_settle [Req q0, Req q1]
      = [Req q0, Req q1, Slept (from_secs 4)]"
    by (simp add: recorder_def billing_settle_def)
  have log: "snd (login_inner J (recorder answer) src base user pass ac_ip []) =
     (case r0 of Inr Ready \<Rightarrow> [Req q0, Req lg]
      | Inr ConfirmationRequired \<Rightarrow>
          (if r1 = Inr Ready then [Req q0, Req q1, Slept (from_secs 4), Req lg] else [Req q0, Req q1])
      | _ \<Rightarrow> [Req q0])"
    by (auto simp: login_inner_def q r0 r1 sl submit_login_recorder lg_def
        split: sum.splits billing_status.splits)
  show ?thesis unfolding Let_def log
    by (auto simp: q b0 b1 lg_def login_timeout_def request_timeout_def from_secs_def
        split: sum.splits billing_status.splits)
qed

end
