(* ===== verification/Notification.thy ===== *)
theory Notification
  imports Protocol Egress
begin

text \<open>
  The effects of the supervisor with their lanes (\<open>src/src/supervisor.rs\<close>) and the notification
  ledger (\<open>src/src/supervisor/notification.rs\<close>): toasts in flight are not repeated, and a delivered
  toast of the same kind blocks the next one for thirty minutes.
\<close>

datatype toast_key = HeartbeatError | RedialFailing

fun toast_key_str :: "toast_key \<Rightarrow> string" where
  "toast_key_str HeartbeatError = ''heartbeat_error''"
| "toast_key_str RedialFailing = ''redial_failing''"

datatype effect =
    StepWatchdog
  | RequestRedial
  | SetWatchdogLink "bool option"
  | Hangup
  | SampleLink
  | SampleWireless
  | CleanupStaleRoutes
  | Associate string
  | Disassociate
  | AcquireWirelessEgress wlan_endpoint
  | SuppressMetric u32 u32
  | ReleaseMetric
  | TeardownRoutes
  | Settle duration
  | PortalAuth ipv4 duration
  | WlanProbe ipv4 "ipv4 option" string
  | PersistMode net_mode
  | Notify toast_key string string

datatype lane = MainLane | WirelessLane

fun lane_of :: "effect \<Rightarrow> lane" where
  "lane_of StepWatchdog = MainLane"
| "lane_of RequestRedial = MainLane"
| "lane_of (SetWatchdogLink _) = MainLane"
| "lane_of Hangup = MainLane"
| "lane_of SampleLink = MainLane"
| "lane_of SampleWireless = MainLane"
| "lane_of (PersistMode _) = MainLane"
| "lane_of (Notify _ _ _) = MainLane"
| "lane_of CleanupStaleRoutes = WirelessLane"
| "lane_of (Associate _) = WirelessLane"
| "lane_of Disassociate = WirelessLane"
| "lane_of (AcquireWirelessEgress _) = WirelessLane"
| "lane_of (SuppressMetric _ _) = WirelessLane"
| "lane_of ReleaseMetric = WirelessLane"
| "lane_of TeardownRoutes = WirelessLane"
| "lane_of (Settle _) = WirelessLane"
| "lane_of (PortalAuth _ _) = WirelessLane"
| "lane_of (WlanProbe _ _ _) = WirelessLane"

section \<open>The ledger\<close>

definition notify_throttle_ms :: u64 where
  "notify_throttle_ms = 30 * 60 * 1000"

record ledger =
  nl_in_flight :: "toast_key list"
  nl_delivered_at :: "(toast_key \<times> u64) list"

definition ledger_default :: ledger where
  "ledger_default = \<lparr>nl_in_flight = [], nl_delivered_at = []\<rparr>"

definition on_result :: "toast_key \<Rightarrow> bool \<Rightarrow> u64 \<Rightarrow> ledger \<Rightarrow> ledger" where
  "on_result key delivered now l =
     (if key \<notin> set (nl_in_flight l) then l
      else (let l = l\<lparr>nl_in_flight := remove1 key (nl_in_flight l)\<rparr>
            in if delivered
               then l\<lparr>nl_delivered_at := filter (\<lambda>(k, _). k \<noteq> key) (nl_delivered_at l) @ [(key, now)]\<rparr>
               else l))"

definition throttled :: "ledger \<Rightarrow> toast_key \<Rightarrow> u64 \<Rightarrow> bool" where
  "throttled l key now =
     (case map_of (nl_delivered_at l) key of
        Some at \<Rightarrow> sat_sub now at < notify_throttle_ms | None \<Rightarrow> False)"

definition maybe_notify ::
  "toast_key \<Rightarrow> string \<Rightarrow> string \<Rightarrow> u64 \<Rightarrow> ledger \<Rightarrow> ledger \<times> effect list" where
  "maybe_notify key title body now l =
     (if key \<in> set (nl_in_flight l) \<or> throttled l key now then (l, [])
      else (l\<lparr>nl_in_flight := nl_in_flight l @ [key]\<rparr>, [Notify key title body]))"

text \<open>One entry per key in both lists.\<close>

definition ledger_inv :: "ledger \<Rightarrow> bool" where
  "ledger_inv l \<longleftrightarrow> distinct (nl_in_flight l) \<and> distinct (map fst (nl_delivered_at l))"

lemma ledger_inv_default [wf_intros]: "ledger_inv ledger_default"
  by (simp add: ledger_inv_def ledger_default_def)

lemma ledger_inv_on_result [wf_intros]: "ledger_inv l \<Longrightarrow> ledger_inv (on_result k d now l)"
  by (auto simp: ledger_inv_def on_result_def Let_def distinct_remove1 distinct_map
      intro: distinct_filter inj_on_subset)

lemma ledger_inv_maybe_notify [wf_intros]: "ledger_inv l \<Longrightarrow> ledger_inv (fst (maybe_notify k t b now l))"
  by (auto simp: ledger_inv_def maybe_notify_def)

end
