(* ===== verification/Supervisor.thy ===== *)
theory Supervisor
  imports Config Watchdog Brain Portal Notification
begin

text \<open>
  \<open>src/src/supervisor.rs\<close>: the reducer \<open>on\<close> from events to reactions. The clock is read once per event
  and is the pair of arguments \<open>now\<close> (monotonic milliseconds) and \<open>wall\<close> (UNIX seconds). A handler
  returns the new state and the effects it pushes, in order. \<open>J\<close> is the JSON library.
\<close>

section \<open>Data\<close>

definition link_poll_ms :: u64 where "link_poll_ms = 2000"
definition wireless_tick_ms :: u64 where "wireless_tick_ms = 2000"
definition sample_retry_ms :: u64 where "sample_retry_ms = 2000"
definition portal_auth_timeout :: duration where "portal_auth_timeout = login_timeout"
definition redial_failing_toast_after_ms :: u64 where
  "redial_failing_toast_after_ms = 10 * 60 * 1000"

record wlan_sample =
  wl_ipv4 :: ipv4
  wl_gateway :: "ipv4 option"
  wl_ifindex :: u32

record wireless_sample =
  wsm_associated :: bool
  wsm_wlan :: "wlan_sample option"

datatype portal_attempt = Replied u16 string | NoReply | TimedOut | PortalFailed string

record watchdog_step =
  st_delay :: duration
  st_session :: session_view
  st_ppp_ip :: "string option"

datatype event =
    Started
  | Wake
  | Command command
  | LinkSampled "bool option" "string option"
  | WatchdogStepped watchdog_step
  | WirelessSampled wireless_sample
  | AssociateFinished "string + unit"
  | PortalFinished portal_attempt
  | WlanProbeFinished probe_verdict
  | Heartbeat heartbeat_status
  | NotifyResult toast_key bool
  | WirelessDied
  | Stop

record reaction =
  re_effects :: "effect list"
  re_snapshot :: "state_snapshot option"
  re_wake_at :: "u64 option"

record supervisor =
  su_cfg :: config
  su_started :: bool
  su_stopped :: bool
  su_mode :: net_mode
  su_events :: event_log
  su_last_snapshot :: "state_snapshot option"
  su_eth_link :: "bool option"
  su_link_sample_seen :: bool
  su_sample_in_flight :: bool
  su_step_pending :: bool
  su_watchdog_deadline :: "u64 option"
  su_link_poll_at :: u64
  su_session :: session_view
  su_ppp_ip :: "string option"
  su_heartbeat :: heartbeat_status
  su_failing_since_ms :: "u64 option"
  su_notifications :: ledger
  su_brain :: "brain option"
  su_wireless_died :: bool
  su_wireless_stopped_reported :: bool
  su_wireless_sample_in_flight :: bool
  su_wireless_tick_at :: u64
  su_wlan :: "wlan_sample option"
  su_wireless_ip :: "string option"
  su_verdict :: "probe_verdict option"
  su_associate_in_flight :: bool
  su_auth_in_flight :: bool
  su_probe_in_flight :: bool
  su_join_since_ms :: "u64 option"
  su_portal_ip :: "ipv4 option"
  su_probe_ip :: "ipv4 option"

fun mode_text :: "net_mode \<Rightarrow> string" where
  "mode_text WiredExclusive = ''wired-exclusive''"
| "mode_text WiredPlusStandby = ''wired-plus-standby''"

text \<open>\<open>u64::try_from(d.as_millis()).unwrap_or(u64::MAX)\<close>.\<close>

definition duration_ms :: "duration \<Rightarrow> u64" where
  "duration_ms d = (if as_millis d < 2 ^ 64 then word_of_nat (as_millis d) else - 1)"

definition portal_outcome :: "'v serde \<Rightarrow> portal_attempt \<Rightarrow> bool \<times> string" where
  "portal_outcome J attempt =
     (case attempt of
        Replied status body \<Rightarrow>
          (case parse_portal_reply J body of
             Success \<Rightarrow> (True, ''login ok'')
           | AlreadyOnline \<Rightarrow> (True, ''already online'')
           | Failure m \<Rightarrow> (False, m)
           | Malformed \<Rightarrow> (False, ''unparseable reply (HTTP '' @ dec (unat status) @ '')''))
      | NoReply \<Rightarrow> (False, ''no reply'')
      | TimedOut \<Rightarrow> (False, ''portal auth timeout'')
      | PortalFailed m \<Rightarrow> (False, m))"

definition log_event :: "u64 \<Rightarrow> string \<Rightarrow> supervisor \<Rightarrow> supervisor" where
  "log_event wall msg s = s\<lparr>su_events := event_push (su_events s) wall msg\<rparr>"

section \<open>Construction\<close>

definition supervisor_init :: "config \<Rightarrow> supervisor" where
  "supervisor_init cfg =
     \<lparr>su_cfg = cfg, su_started = False, su_stopped = False,
      su_mode = wc_mode (cf_wireless cfg), su_events = event_log_new, su_last_snapshot = None,
      su_eth_link = None, su_link_sample_seen = False, su_sample_in_flight = False,
      su_step_pending = False, su_watchdog_deadline = None, su_link_poll_at = - 1,
      su_session = \<lparr>sv_status = SIdle, sv_since_unix = None, sv_last_drop_reason = None,
                    sv_redial_attempts = 0\<rparr>,
      su_ppp_ip = None, su_heartbeat = HbOff, su_failing_since_ms = None,
      su_notifications = ledger_default, su_brain = None, su_wireless_died = False,
      su_wireless_stopped_reported = False, su_wireless_sample_in_flight = False,
      su_wireless_tick_at = - 1, su_wlan = None, su_wireless_ip = None, su_verdict = None,
      su_associate_in_flight = False, su_auth_in_flight = False, su_probe_in_flight = False,
      su_join_since_ms = None, su_portal_ip = None, su_probe_ip = None\<rparr>"

definition supervisor_new :: "config \<Rightarrow> supervisor" where
  "supervisor_new cfg =
     (let sup = supervisor_init cfg; w = cf_wireless cfg
      in if wc_enabled w
         then (case (parse_http_probe_target (wc_portal_url w), parse_ipv4 (wc_probe_host w)) of
                 (Some (portal_ip, _), Some probe_ip) \<Rightarrow>
                   sup\<lparr>su_brain := Some (brain_new (su_mode sup) (wc_takeover_after_secs w)
                          (wc_release_after_secs w) (dc_probe_interval_secs (cf_dial cfg))),
                       su_portal_ip := Some portal_ip, su_probe_ip := Some probe_ip\<rparr>
               | _ \<Rightarrow> sup)
         else sup)"

section \<open>Snapshot and wake-up\<close>

definition compose :: "supervisor \<Rightarrow> state_snapshot" where
  "compose s =
     \<lparr>sn_status = sv_status (su_session s), sn_since_unix = sv_since_unix (su_session s),
      sn_ip = su_ppp_ip s, sn_last_drop_reason = sv_last_drop_reason (su_session s),
      sn_redial_attempts = sv_redial_attempts (su_session s), sn_heartbeat = su_heartbeat s,
      sn_mode = su_mode s,
      sn_wireless = (case su_brain s of
          Some b \<Rightarrow> (brain_snapshot b)\<lparr>ws_ip := su_wireless_ip s\<rparr>
        | None \<Rightarrow> wireless_snapshot_default),
      sn_events = el_ring (su_events s)\<rparr>"

definition publish :: "supervisor \<Rightarrow> supervisor \<times> state_snapshot option" where
  "publish s =
     (if su_last_snapshot s = Some (compose s) then (s, None)
      else (s\<lparr>su_last_snapshot := Some (compose s)\<rparr>, Some (compose s)))"

definition next_wake :: "u64 \<Rightarrow> supervisor \<Rightarrow> u64 option" where
  "next_wake now s =
     (let n = su_link_poll_at s;
          n = (case su_watchdog_deadline s of Some d \<Rightarrow> min n d | None \<Rightarrow> n);
          n = (if su_brain s \<noteq> None then min n (su_wireless_tick_at s) else n)
      in Some (max n now))"

section \<open>Handlers of the wired side\<close>

definition handle_started :: "u64 \<Rightarrow> u64 \<Rightarrow> supervisor \<Rightarrow> supervisor \<times> effect list" where
  "handle_started now wall s =
     (let s = s\<lparr>su_started := True\<rparr>;
          s = log_event wall (''Service started, mode '' @ mode_text (su_mode s)) s;
          s = s\<lparr>su_watchdog_deadline := Some now, su_link_poll_at := now\<rparr>
      in if su_brain s \<noteq> None
         then (s\<lparr>su_wireless_sample_in_flight := True, su_wireless_tick_at := now + wireless_tick_ms\<rparr>,
               [CleanupStaleRoutes, SampleWireless])
         else (s, []))"

definition wake_wired :: "u64 \<Rightarrow> supervisor \<Rightarrow> supervisor \<times> effect list" where
  "wake_wired now s =
     (let s = (case su_watchdog_deadline s of
                 Some d \<Rightarrow> if d \<le> now then s\<lparr>su_watchdog_deadline := None, su_step_pending := True\<rparr>
                          else s
               | None \<Rightarrow> s)
      in if su_step_pending s \<or> su_link_poll_at s \<le> now
         then (if \<not> su_sample_in_flight s
               then (s\<lparr>su_sample_in_flight := True, su_link_poll_at := now + link_poll_ms\<rparr>,
                     [SampleLink])
               else if su_link_poll_at s \<le> now
               then (s\<lparr>su_link_poll_at := now + sample_retry_ms\<rparr>, [])
               else (s, []))
         else (s, []))"

definition wake_wireless :: "u64 \<Rightarrow> supervisor \<Rightarrow> supervisor \<times> effect list" where
  "wake_wireless now s =
     (if su_brain s \<noteq> None \<and> su_wireless_tick_at s \<le> now
      then (if \<not> su_wireless_sample_in_flight s
            then (s\<lparr>su_wireless_sample_in_flight := True,
                    su_wireless_tick_at := now + wireless_tick_ms\<rparr>, [SampleWireless])
            else (s\<lparr>su_wireless_tick_at := now + wireless_tick_ms\<rparr>, []))
      else (s, []))"

definition handle_wake :: "u64 \<Rightarrow> supervisor \<Rightarrow> supervisor \<times> effect list" where
  "handle_wake now s =
     (let (s, e1) = wake_wired now s; (s, e2) = wake_wireless now s in (s, e1 @ e2))"

fun handle_command :: "command \<Rightarrow> u64 \<Rightarrow> supervisor \<Rightarrow> supervisor \<times> effect list" where
  "handle_command Redial wall s =
     (s\<lparr>su_watchdog_deadline := None\<rparr>, [RequestRedial, StepWatchdog])"
| "handle_command (SetMode m) wall s =
     (let s = s\<lparr>su_mode := m, su_brain := map_option (set_mode m) (su_brain s)\<rparr>
      in (log_event wall (''Mode switched to '' @ mode_text m) s, [PersistMode m]))"

definition option_or :: "'a option \<Rightarrow> 'a option \<Rightarrow> 'a option" where
  "option_or a b = (case a of Some _ \<Rightarrow> a | None \<Rightarrow> b)"

text \<open>The new link state after a sample: a known state is only overwritten by a known one.\<close>

definition next_link :: "bool option \<Rightarrow> supervisor \<Rightarrow> bool option" where
  "next_link up s = (if su_link_sample_seen s then option_or up (su_eth_link s) else up)"

definition handle_link_sampled ::
  "bool option \<Rightarrow> string option \<Rightarrow> u64 \<Rightarrow> u64 \<Rightarrow> supervisor \<Rightarrow> supervisor \<times> effect list" where
  "handle_link_sampled up ppp_ip now wall s =
     (if \<not> su_sample_in_flight s then (s, [])
      else
        (let old = su_eth_link s; next = next_link up s;
             s = s\<lparr>su_sample_in_flight := False, su_ppp_ip := ppp_ip, su_link_sample_seen := True\<rparr>;
             (s, e1) =
               (if next \<noteq> old
                then (let s = s\<lparr>su_eth_link := next\<rparr>
                      in if next = Some False
                         then (s\<lparr>su_link_poll_at := now + link_poll_ms\<rparr>, [SetWatchdogLink next])
                         else if old = Some False
                         then (let s = log_event wall ''Ethernet link restored, redialing'' s
                               in (s\<lparr>su_watchdog_deadline := None, su_step_pending := False,
                                     su_link_poll_at := now + link_poll_ms\<rparr>,
                                   [SetWatchdogLink next, RequestRedial, StepWatchdog]))
                         else (s\<lparr>su_link_poll_at := now + link_poll_ms\<rparr>, [SetWatchdogLink next]))
                else (s\<lparr>su_link_poll_at := now + link_poll_ms\<rparr>, []))
         in if su_step_pending s
            then (s\<lparr>su_step_pending := False\<rparr>, e1 @ [StepWatchdog])
            else (s, e1)))"

definition redial_failing_body :: "u64 \<Rightarrow> u32 \<Rightarrow> string" where
  "redial_failing_body ms attempts =
     ''Redial failed for '' @ dec (unat (ms div 60000)) @ '' minutes ('' @ dec (unat attempts)
       @ '' attempts), check network or credentials''"

definition link_paused :: "supervisor \<Rightarrow> bool" where
  "link_paused s \<longleftrightarrow> su_eth_link s = Some False
     \<or> sv_last_drop_reason (su_session s) = Some link_down_reason"

definition redial_title :: string where "redial_title = ''gdut-net network error''"
definition heartbeat_title :: string where "heartbeat_title = ''gdut-net heartbeat error''"

definition session_failing :: "u64 \<Rightarrow> supervisor \<Rightarrow> supervisor \<times> effect list" where
  "session_failing now s =
     (let since = get_or_insert (su_failing_since_ms s) now;
          s = s\<lparr>su_failing_since_ms := Some since\<rparr>
      in if redial_failing_toast_after_ms \<le> sat_sub now since \<and> \<not> link_paused s
         then (let (l, e) = maybe_notify RedialFailing redial_title
                     (redial_failing_body (sat_sub now since) (sv_redial_attempts (su_session s)))
                     now (su_notifications s)
               in (s\<lparr>su_notifications := l\<rparr>, e))
         else (s, []))"

definition handle_watchdog_stepped ::
  "watchdog_step \<Rightarrow> u64 \<Rightarrow> supervisor \<Rightarrow> supervisor \<times> effect list" where
  "handle_watchdog_stepped step now s =
     (let s = s\<lparr>su_session := st_session step, su_ppp_ip := st_ppp_ip step, su_step_pending := False,
                su_watchdog_deadline := Some (sat_add now (duration_ms (st_delay step)))\<rparr>
      in (case sv_status (su_session s) of
            SBackoff \<Rightarrow> session_failing now s
          | SAuthFail \<Rightarrow> session_failing now s
          | SConnected \<Rightarrow> (s\<lparr>su_failing_since_ms := None\<rparr>, [])
          | SIdle \<Rightarrow> (s, [])
          | SDialing \<Rightarrow> (s, [])))"

definition handle_heartbeat :: "heartbeat_status \<Rightarrow> u64 \<Rightarrow> supervisor \<Rightarrow> supervisor \<times> effect list" where
  "handle_heartbeat status now s =
     (let (s, e) =
        (case status of
           HbError msg \<Rightarrow>
             (let (l, e) = maybe_notify HeartbeatError heartbeat_title
                    (''Compatibility heartbeat error: '' @ msg) now (su_notifications s)
              in (s\<lparr>su_notifications := l\<rparr>, e))
         | _ \<Rightarrow> (s, []))
      in (s\<lparr>su_heartbeat := status\<rparr>, e))"

section \<open>Handlers of the wireless side\<close>

definition update_metric :: "supervisor \<Rightarrow> effect list" where
  "update_metric s =
     (case su_wlan s of
        None \<Rightarrow> []
      | Some wlan \<Rightarrow>
          (let wired_healthy = su_eth_link s = Some True \<and> sv_status (su_session s) = SConnected;
               takeover_active = su_mode s = WiredExclusive \<and> \<not> wired_healthy
           in (if su_mode s = WiredPlusStandby \<or> takeover_active
               then [SuppressMetric (wl_ifindex wlan) (wc_standby_metric (cf_wireless (su_cfg s)))]
               else [])
              @ (if su_mode s = WiredExclusive \<and> wired_healthy then [ReleaseMetric] else [])))"

text \<open>\<open>brain.on_auth\<close> through the option, and the dropped verdict of the two early exits.\<close>

definition brain_on_auth :: "bool \<Rightarrow> string \<Rightarrow> u64 \<Rightarrow> supervisor \<Rightarrow> supervisor" where
  "brain_on_auth ok msg now_secs s =
     s\<lparr>su_brain := map_option (on_auth ok msg now_secs) (su_brain s)\<rparr>"

definition auth_impossible :: "string \<Rightarrow> u64 \<Rightarrow> supervisor \<Rightarrow> supervisor" where
  "auth_impossible msg now_secs s = (brain_on_auth False msg now_secs s)\<lparr>su_verdict := None\<rparr>"

definition act_portal_auth :: "u64 \<Rightarrow> supervisor \<Rightarrow> bool \<times> supervisor \<times> effect list" where
  "act_portal_auth now_secs s =
     (if su_auth_in_flight s then (True, s, [])
      else (case su_wlan s of
              None \<Rightarrow> (False, auth_impossible ''wlan ip lost'' now_secs s, [])
            | Some wlan \<Rightarrow>
                (case wl_gateway wlan of
                   None \<Rightarrow> (False, auth_impossible ''wlan gateway missing'' now_secs s, [])
                 | Some gateway \<Rightarrow>
                     if su_portal_ip s = None \<or> su_probe_ip s = None then (True, s, [])
                     else (True, s\<lparr>su_auth_in_flight := True\<rparr>,
                       [AcquireWirelessEgress \<lparr>ep_gateway = gateway, ep_ifindex = wl_ifindex wlan\<rparr>,
                        Settle route_settle, PortalAuth (wl_ipv4 wlan) portal_auth_timeout]))))"

definition act_probe :: "supervisor \<Rightarrow> bool \<times> supervisor \<times> effect list" where
  "act_probe s =
     (if su_probe_in_flight s then (True, s, [])
      else (case su_wlan s of
              None \<Rightarrow> (False, s, [])
            | Some wlan \<Rightarrow>
                (True, s\<lparr>su_probe_in_flight := True\<rparr>,
                 [WlanProbe (wl_ipv4 wlan) (wl_gateway wlan)
                    (''http://'' @ wc_probe_host (cf_wireless (su_cfg s)) @ ''/'')])))"

fun handle_action :: "action \<Rightarrow> u64 \<Rightarrow> u64 \<Rightarrow> supervisor \<Rightarrow> bool \<times> supervisor \<times> effect list" where
  "handle_action ActNone now_secs wall s = (True, s, [])"
| "handle_action ActAssociate now_secs wall s =
     (if su_associate_in_flight s then (True, s, [])
      else (True, (log_event wall ''Wireless: associating to campus SSID'' s)
                    \<lparr>su_associate_in_flight := True\<rparr>,
            [Associate (wc_profile (cf_wireless (su_cfg s)))]))"
| "handle_action ActDisassociate now_secs wall s =
     (True, (log_event wall ''Wireless: releasing (wired healthy)'' s)
              \<lparr>su_verdict := None, su_join_since_ms := None\<rparr>,
      [TeardownRoutes, Disassociate])"
| "handle_action ActPortalAuth now_secs wall s = act_portal_auth now_secs s"
| "handle_action ActProbeNow now_secs wall s = act_probe s"

definition join_timed_out :: "u64 \<Rightarrow> supervisor \<Rightarrow> bool" where
  "join_timed_out now s \<longleftrightarrow>
     map_option br_phase (su_brain s) = Some WJoining \<and>
     (case su_join_since_ms s of Some t \<Rightarrow> join_timeout_secs * 1000 < sat_sub now t | None \<Rightarrow> False)"

definition check_join_timeout :: "u64 \<Rightarrow> u64 \<Rightarrow> supervisor \<Rightarrow> supervisor" where
  "check_join_timeout now wall s =
     (if join_timed_out now s
      then (log_event wall ''Wireless: join timeout, restarting'' s)
             \<lparr>su_brain := map_option brain_restart (su_brain s), su_join_since_ms := None\<rparr>
      else s)"

definition world_of :: "wireless_sample \<Rightarrow> u64 \<Rightarrow> supervisor \<Rightarrow> world" where
  "world_of sample now s =
     \<lparr>w_now = now div 1000, w_eth_link_up = (su_eth_link s = Some True),
      w_wired_connected = (sv_status (su_session s) = SConnected),
      w_wlan_associated = wsm_associated sample, w_wlan_ip = (wsm_wlan sample \<noteq> None),
      w_probe = su_verdict s\<rparr>"

definition handle_wireless_sampled ::
  "wireless_sample \<Rightarrow> u64 \<Rightarrow> u64 \<Rightarrow> supervisor \<Rightarrow> supervisor \<times> effect list" where
  "handle_wireless_sampled sample now wall s =
     (if \<not> su_wireless_sample_in_flight s then (s, [])
      else
        (let s = s\<lparr>su_wireless_sample_in_flight := False\<rparr>
         in (case su_brain s of
               None \<Rightarrow> (s, [])
             | Some b \<Rightarrow>
                 (let s = s\<lparr>su_wlan := wsm_wlan sample,
                            su_wireless_ip := map_option (\<lambda>a. show_ipv4 (wl_ipv4 a)) (wsm_wlan sample)\<rparr>;
                      (action, b) = decide (world_of sample now s) (set_mode (su_mode s) b);
                      s = s\<lparr>su_brain := Some b\<rparr>;
                      (go_on, s, e) = handle_action action (now div 1000) wall s
                  in if go_on then (check_join_timeout now wall s, e @ update_metric s)
                     else (s, e)))))"

definition handle_associate_finished :: "u64 \<Rightarrow> supervisor \<Rightarrow> supervisor" where
  "handle_associate_finished now s =
     (if \<not> su_associate_in_flight s then s
      else s\<lparr>su_associate_in_flight := False, su_join_since_ms := Some now\<rparr>)"

definition handle_portal_finished ::
  "'v serde \<Rightarrow> portal_attempt \<Rightarrow> u64 \<Rightarrow> u64 \<Rightarrow> supervisor \<Rightarrow> supervisor" where
  "handle_portal_finished J attempt now wall s =
     (if \<not> su_auth_in_flight s then s
      else (let s = s\<lparr>su_auth_in_flight := False\<rparr>;
                (ok, msg) = portal_outcome J attempt;
                s = log_event wall (if ok then ''Wireless: portal login success''
                                    else ''Wireless: portal login failed: '' @ msg) s;
                s = brain_on_auth ok msg (now div 1000) s
            in s\<lparr>su_verdict := None\<rparr>))"

definition handle_probe_finished :: "probe_verdict \<Rightarrow> u64 \<Rightarrow> supervisor \<Rightarrow> supervisor" where
  "handle_probe_finished v wall s =
     (if \<not> su_probe_in_flight s then s
      else (let s = s\<lparr>su_probe_in_flight := False, su_verdict := Some v\<rparr>
            in if v \<noteq> Alive then log_event wall (''Wireless probe: '' @ show_verdict v) s else s))"

definition report_wireless_stopped :: "u64 \<Rightarrow> supervisor \<Rightarrow> supervisor" where
  "report_wireless_stopped wall s =
     (if su_wireless_stopped_reported s then s
      else (log_event wall ''Wireless: manager stopped'' s)\<lparr>su_wireless_stopped_reported := True\<rparr>)"

definition handle_wireless_died :: "u64 \<Rightarrow> supervisor \<Rightarrow> supervisor" where
  "handle_wireless_died wall s =
     (if \<not> wc_enabled (cf_wireless (su_cfg s)) then s
      else (report_wireless_stopped wall s)
             \<lparr>su_brain := None, su_wireless_died := True, su_wlan := None, su_wireless_ip := None,
              su_verdict := None, su_wireless_sample_in_flight := False,
              su_associate_in_flight := False, su_auth_in_flight := False,
              su_probe_in_flight := False, su_join_since_ms := None\<rparr>)"

definition handle_stop :: "u64 \<Rightarrow> supervisor \<Rightarrow> supervisor \<times> effect list" where
  "handle_stop wall s =
     (let s = s\<lparr>su_stopped := True\<rparr>
      in if wc_enabled (cf_wireless (su_cfg s)) \<and> \<not> su_wireless_died s \<and> su_brain s \<noteq> None
         then (report_wireless_stopped wall s, [Hangup, TeardownRoutes, Disassociate])
         else (s, [Hangup]))"

section \<open>The reducer\<close>

definition handle_event ::
  "'v serde \<Rightarrow> event \<Rightarrow> u64 \<Rightarrow> u64 \<Rightarrow> supervisor \<Rightarrow> supervisor \<times> effect list" where
  "handle_event J ev now wall s =
     (case ev of
        Started \<Rightarrow> (s, [])
      | Wake \<Rightarrow> handle_wake now s
      | Command cmd \<Rightarrow> handle_command cmd wall s
      | LinkSampled up ppp_ip \<Rightarrow> handle_link_sampled up ppp_ip now wall s
      | WatchdogStepped step \<Rightarrow> handle_watchdog_stepped step now s
      | WirelessSampled sample \<Rightarrow> handle_wireless_sampled sample now wall s
      | AssociateFinished res \<Rightarrow> (handle_associate_finished now s, [])
      | PortalFinished attempt \<Rightarrow> (handle_portal_finished J attempt now wall s, [])
      | WlanProbeFinished v \<Rightarrow> (handle_probe_finished v wall s, [])
      | Heartbeat status \<Rightarrow> handle_heartbeat status now s
      | NotifyResult key delivered \<Rightarrow>
          (s\<lparr>su_notifications := on_result key delivered now (su_notifications s)\<rparr>, [])
      | WirelessDied \<Rightarrow> (handle_wireless_died wall s, [])
      | Stop \<Rightarrow> handle_stop wall s)"

definition dispatch ::
  "'v serde \<Rightarrow> event \<Rightarrow> u64 \<Rightarrow> u64 \<Rightarrow> supervisor \<Rightarrow> supervisor \<times> effect list \<times> bool" where
  "dispatch J ev now wall s =
     (if \<not> su_started s
      then (if ev = Started then (let (s, e) = handle_started now wall s in (s, e, True))
            else (s, [], False))
      else if \<not> su_stopped s then (let (s, e) = handle_event J ev now wall s in (s, e, True))
      else (s, [], False))"

definition on ::
  "'v serde \<Rightarrow> event \<Rightarrow> u64 \<Rightarrow> u64 \<Rightarrow> supervisor \<Rightarrow> supervisor \<times> reaction" where
  "on J ev now wall s =
     (let (s, effects, handled) = dispatch J ev now wall s;
          (s, snapshot) = (if handled then publish s else (s, None));
          wake_at = (if su_started s \<and> \<not> su_stopped s then next_wake now s else None)
      in (s, \<lparr>re_effects = effects, re_snapshot = snapshot, re_wake_at = wake_at\<rparr>))"

end
