(* ===== verification/Supervisor_Inv.thy ===== *)
theory Supervisor_Inv
  imports Supervisor
begin

text \<open>
  Runs of the supervisor and its invariants: what the reducer keeps over any sequence of events, and
  the single-flight discipline of every request it makes of the runtime.
\<close>

section \<open>The reducer, field by field\<close>

lemma publish_state: "fst (publish s) = s\<lparr>su_last_snapshot := Some (compose s)\<rparr>"
  by (cases "su_last_snapshot s = Some (compose s)") (simp_all add: publish_def)

definition step :: "'v serde \<Rightarrow> event \<Rightarrow> u64 \<Rightarrow> u64 \<Rightarrow> supervisor \<Rightarrow> supervisor" where
  "step J ev now wall s = fst (on J ev now wall s)"

definition effects_of :: "'v serde \<Rightarrow> event \<Rightarrow> u64 \<Rightarrow> u64 \<Rightarrow> supervisor \<Rightarrow> effect list" where
  "effects_of J ev now wall s = re_effects (snd (on J ev now wall s))"

lemma effects_of_dispatch: "effects_of J ev now wall s = fst (snd (dispatch J ev now wall s))"
  by (simp add: effects_of_def on_def Let_def case_prod_beta)

lemma step_dispatch:
  "step J ev now wall s =
     (if snd (snd (dispatch J ev now wall s))
      then (fst (dispatch J ev now wall s))
             \<lparr>su_last_snapshot := Some (compose (fst (dispatch J ev now wall s)))\<rparr>
      else fst (dispatch J ev now wall s))"
  by (simp add: step_def on_def Let_def case_prod_beta publish_state)

text \<open>
  A statement about one step that ignores the published snapshot follows from its cases on the
  handlers.
\<close>

lemma step_cases [consumes 0, case_names silent started running]:
  assumes silent: "step J ev now wall s = s \<Longrightarrow> effects_of J ev now wall s = [] \<Longrightarrow>
      \<not> su_started s \<and> ev \<noteq> Started \<or> su_started s \<and> su_stopped s \<Longrightarrow> thesis"
    and started: "\<And>s'. \<not> su_started s \<Longrightarrow> ev = Started \<Longrightarrow>
      handle_started now wall s = (s', effects_of J ev now wall s) \<Longrightarrow>
      step J ev now wall s = s'\<lparr>su_last_snapshot := Some (compose s')\<rparr> \<Longrightarrow> thesis"
    and running: "\<And>s'. su_started s \<Longrightarrow> \<not> su_stopped s \<Longrightarrow>
      handle_event J ev now wall s = (s', effects_of J ev now wall s) \<Longrightarrow>
      step J ev now wall s = s'\<lparr>su_last_snapshot := Some (compose s')\<rparr> \<Longrightarrow> thesis"
  shows thesis
proof (cases "su_started s")
  case False
  show thesis
  proof (cases "ev = Started")
    case True
    show thesis
      by (rule started [of "fst (handle_started now wall s)"])
         (use False True in \<open>simp_all add: step_dispatch effects_of_dispatch dispatch_def case_prod_beta\<close>)
  next
    case F: False
    show thesis
      by (rule silent) (use False F in \<open>simp_all add: step_dispatch effects_of_dispatch dispatch_def\<close>)
  qed
next
  case True
  show thesis
  proof (cases "su_stopped s")
    case T: True
    show thesis
      by (rule silent) (use True T in \<open>simp_all add: step_dispatch effects_of_dispatch dispatch_def\<close>)
  next
    case F: False
    show thesis
      by (rule running [of "fst (handle_event J ev now wall s)"])
         (use True F in \<open>simp_all add: step_dispatch effects_of_dispatch dispatch_def case_prod_beta\<close>)
  qed
qed

section \<open>Runs\<close>

type_synonym stamped = "event \<times> u64 \<times> u64"

fun run :: "'v serde \<Rightarrow> stamped list \<Rightarrow> supervisor \<Rightarrow> supervisor" where
  "run J [] s = s"
| "run J ((ev, now, wall) # es) s = run J es (step J ev now wall s)"

fun emitted :: "'v serde \<Rightarrow> stamped list \<Rightarrow> supervisor \<Rightarrow> effect list" where
  "emitted J [] s = []"
| "emitted J ((ev, now, wall) # es) s =
     effects_of J ev now wall s @ emitted J es (step J ev now wall s)"

fun published :: "'v serde \<Rightarrow> stamped list \<Rightarrow> supervisor \<Rightarrow> state_snapshot list" where
  "published J [] s = []"
| "published J ((ev, now, wall) # es) s =
     (case re_snapshot (snd (on J ev now wall s)) of Some x \<Rightarrow> [x] | None \<Rightarrow> [])
       @ published J es (step J ev now wall s)"

lemma run_append [simp]: "run J (a @ b) s = run J b (run J a s)"
  by (induction J a s rule: run.induct) auto

lemma emitted_append [simp]: "emitted J (a @ b) s = emitted J a s @ emitted J b (run J a s)"
  by (induction J a s rule: run.induct) auto

lemma published_append [simp]: "published J (a @ b) s = published J a s @ published J b (run J a s)"
  by (induction J a s rule: run.induct) auto

section \<open>The invariant\<close>

text \<open>
  The brain keeps its own invariant and the supervisor's mode, only exists with the wireless side
  enabled and its two addresses parsed, and is authenticating only while a login is in flight. Once
  the brain is gone, everything that depends on it is cleared.
\<close>

definition brain_ok :: "supervisor \<Rightarrow> bool" where
  "brain_ok s \<longleftrightarrow> (case su_brain s of
     Some b \<Rightarrow> brain_inv b \<and> br_mode b = su_mode s \<and> su_portal_ip s \<noteq> None \<and> su_probe_ip s \<noteq> None
       \<and> wc_enabled (cf_wireless (su_cfg s)) \<and> \<not> su_wireless_died s
       \<and> (br_phase b = WAuthing \<longrightarrow> su_auth_in_flight s)
   | None \<Rightarrow> su_wlan s = None \<and> su_wireless_ip s = None \<and> su_verdict s = None
       \<and> \<not> su_wireless_sample_in_flight s \<and> \<not> su_associate_in_flight s \<and> \<not> su_auth_in_flight s
       \<and> \<not> su_probe_in_flight s)"

definition sup_inv :: "supervisor \<Rightarrow> bool" where
  "sup_inv s \<longleftrightarrow> brain_ok s \<and> ledger_inv (su_notifications s) \<and> (su_stopped s \<longrightarrow> su_started s)
     \<and> (\<not> su_started s \<longrightarrow> \<not> su_wireless_sample_in_flight s)"

lemma brain_ok_cong:
  assumes "su_brain s' = su_brain s" "su_mode s' = su_mode s" "su_portal_ip s' = su_portal_ip s"
    "su_probe_ip s' = su_probe_ip s" "su_cfg s' = su_cfg s" "su_wireless_died s' = su_wireless_died s"
    "su_auth_in_flight s' = su_auth_in_flight s" "su_wlan s' = su_wlan s"
    "su_wireless_ip s' = su_wireless_ip s" "su_verdict s' = su_verdict s"
    "su_wireless_sample_in_flight s' = su_wireless_sample_in_flight s"
    "su_associate_in_flight s' = su_associate_in_flight s"
    "su_probe_in_flight s' = su_probe_in_flight s"
  shows "brain_ok s' = brain_ok s"
  using assms by (cases "su_brain s") (simp_all add: brain_ok_def)

lemma brain_ok_new [wf_intros]: "brain_ok (supervisor_new cfg)"
  by (auto simp: supervisor_new_def supervisor_init_def Let_def brain_ok_def brain_inv_new
      split: option.splits) (simp_all add: brain_new_def)

lemma brain_ok_log [simp]: "brain_ok (log_event wall msg s) = brain_ok s"
  by (rule brain_ok_cong) (simp_all add: log_event_def)

lemma handle_started_ok:
  "brain_ok s \<Longrightarrow> brain_ok (fst (handle_started now wall s))"
  by (auto simp: handle_started_def Let_def log_event_def brain_ok_def split: option.splits)

lemma wake_wired_ok: "brain_ok (fst (wake_wired now s)) = brain_ok s"
  by (rule brain_ok_cong) (simp_all add: wake_wired_def Let_def split: option.splits)

lemma wake_wireless_ok: "brain_ok s \<Longrightarrow> brain_ok (fst (wake_wireless now s))"
  by (auto simp: wake_wireless_def brain_ok_def split: option.splits)

lemma handle_command_ok: "brain_ok s \<Longrightarrow> brain_ok (fst (handle_command c wall s))"
proof (cases c)
  case Redial
  then show "brain_ok s \<Longrightarrow> ?thesis" by (simp add: brain_ok_def split: option.splits)
next
  case (SetMode m)
  then show "brain_ok s \<Longrightarrow> ?thesis"
    by (auto simp: brain_ok_def Let_def log_event_def set_mode_def brain_inv_def split: option.splits)
qed

lemma handle_link_sampled_ok: "brain_ok (fst (handle_link_sampled up ip now wall s)) = brain_ok s"
  by (rule brain_ok_cong) (simp_all add: handle_link_sampled_def Let_def log_event_def)

lemma handle_watchdog_stepped_ok: "brain_ok (fst (handle_watchdog_stepped st now s)) = brain_ok s"
  by (rule brain_ok_cong)
     (simp_all add: handle_watchdog_stepped_def session_failing_def Let_def case_prod_beta
       split: session_status.splits)

lemma handle_heartbeat_ok: "brain_ok (fst (handle_heartbeat h now s)) = brain_ok s"
  by (rule brain_ok_cong) (simp_all add: handle_heartbeat_def Let_def case_prod_beta
       split: heartbeat_status.splits)

lemma handle_associate_finished_ok: "brain_ok s \<Longrightarrow> brain_ok (handle_associate_finished now s)"
  by (auto simp: handle_associate_finished_def brain_ok_def split: option.splits)

lemma on_auth_phase: "br_phase (on_auth ok msg now b) \<noteq> WAuthing" "br_mode (on_auth ok msg now b) = br_mode b"
  by (simp_all add: on_auth_def Let_def)

lemma handle_portal_finished_ok: "brain_ok s \<Longrightarrow> brain_ok (handle_portal_finished J a now wall s)"
  by (auto simp: handle_portal_finished_def brain_ok_def Let_def log_event_def brain_on_auth_def
      on_auth_phase brain_inv_on_auth case_prod_beta split: option.splits)

lemma handle_probe_finished_ok: "brain_ok s \<Longrightarrow> brain_ok (handle_probe_finished v wall s)"
  by (auto simp: handle_probe_finished_def brain_ok_def Let_def log_event_def split: option.splits)

lemma handle_wireless_died_ok: "brain_ok s \<Longrightarrow> brain_ok (handle_wireless_died wall s)"
  by (auto simp: handle_wireless_died_def brain_ok_def Let_def split: option.splits)

lemma handle_stop_ok: "brain_ok (fst (handle_stop wall s)) = brain_ok s"
  by (rule brain_ok_cong)
     (simp_all add: handle_stop_def report_wireless_stopped_def Let_def log_event_def)

lemma decide_authing: "fst (decide w b) \<noteq> ActPortalAuth \<Longrightarrow> br_phase (snd (decide w b)) = WAuthing
    \<Longrightarrow> br_phase b = WAuthing"
  by (auto simp: decide_def decide_healthy_def decide_unhealthy_def keep_wireless_def start_join_def
      start_auth_def reset_off_def Let_def
      split: net_mode.splits wphase.splits option.splits if_splits)

text \<open>What \<open>handle_action\<close> leaves alone, whatever the action.\<close>

lemma handle_action_fixed:
  assumes "handle_action a t wall s = (go, s', e)"
  shows "su_mode s' = su_mode s" "su_cfg s' = su_cfg s" "su_eth_link s' = su_eth_link s"
    "su_session s' = su_session s" "su_wlan s' = su_wlan s" "su_wireless_ip s' = su_wireless_ip s"
    "su_portal_ip s' = su_portal_ip s" "su_probe_ip s' = su_probe_ip s"
    "su_wireless_died s' = su_wireless_died s" "su_notifications s' = su_notifications s"
    "su_started s' = su_started s" "su_stopped s' = su_stopped s"
    "su_wireless_sample_in_flight s' = su_wireless_sample_in_flight s"
    "su_sample_in_flight s' = su_sample_in_flight s" "su_link_poll_at s' = su_link_poll_at s"
    "su_watchdog_deadline s' = su_watchdog_deadline s" "su_wireless_tick_at s' = su_wireless_tick_at s"
    "su_step_pending s' = su_step_pending s"
    "su_brain s' = None \<longleftrightarrow> su_brain s = None"
  using assms
  by (cases a; auto simp: act_portal_auth_def act_probe_def auth_impossible_def brain_on_auth_def
      log_event_def split: option.splits if_splits)+

text \<open>After \<open>decide\<close>, the action makes the login in flight match the brain again.\<close>

lemma handle_action_brain:
  assumes "handle_action a t wall s = (go, s', e)" and "su_brain s = Some b" "brain_inv b"
    and "br_phase b = WAuthing \<longrightarrow> a = ActPortalAuth \<or> su_auth_in_flight s"
    and "su_portal_ip s \<noteq> None" "su_probe_ip s \<noteq> None"
  shows "\<exists>b'. su_brain s' = Some b' \<and> brain_inv b' \<and> br_mode b' = br_mode b
    \<and> (br_phase b' = WAuthing \<longrightarrow> su_auth_in_flight s')"
  using assms
  by (cases a; auto simp: act_portal_auth_def act_probe_def auth_impossible_def brain_on_auth_def
      log_event_def on_auth_phase brain_inv_on_auth split: option.splits if_splits)

lemma check_join_timeout_fixed [simp]:
  "su_mode (check_join_timeout now wall s) = su_mode s"
  "su_cfg (check_join_timeout now wall s) = su_cfg s"
  "su_wlan (check_join_timeout now wall s) = su_wlan s"
  "su_wireless_ip (check_join_timeout now wall s) = su_wireless_ip s"
  "su_verdict (check_join_timeout now wall s) = su_verdict s"
  "su_portal_ip (check_join_timeout now wall s) = su_portal_ip s"
  "su_probe_ip (check_join_timeout now wall s) = su_probe_ip s"
  "su_wireless_died (check_join_timeout now wall s) = su_wireless_died s"
  "su_notifications (check_join_timeout now wall s) = su_notifications s"
  "su_started (check_join_timeout now wall s) = su_started s"
  "su_stopped (check_join_timeout now wall s) = su_stopped s"
  "su_wireless_sample_in_flight (check_join_timeout now wall s) = su_wireless_sample_in_flight s"
  "su_associate_in_flight (check_join_timeout now wall s) = su_associate_in_flight s"
  "su_auth_in_flight (check_join_timeout now wall s) = su_auth_in_flight s"
  "su_probe_in_flight (check_join_timeout now wall s) = su_probe_in_flight s"
  "su_sample_in_flight (check_join_timeout now wall s) = su_sample_in_flight s"
  "su_link_poll_at (check_join_timeout now wall s) = su_link_poll_at s"
  "su_watchdog_deadline (check_join_timeout now wall s) = su_watchdog_deadline s"
  "su_wireless_tick_at (check_join_timeout now wall s) = su_wireless_tick_at s"
  "su_step_pending (check_join_timeout now wall s) = su_step_pending s"
  "su_brain (check_join_timeout now wall s) = None \<longleftrightarrow> su_brain s = None"
  "su_eth_link (check_join_timeout now wall s) = su_eth_link s"
  "su_session (check_join_timeout now wall s) = su_session s"
  by (simp_all add: check_join_timeout_def log_event_def)

lemma check_join_timeout_ok: "brain_ok s \<Longrightarrow> brain_ok (check_join_timeout now wall s)"
  by (auto simp: check_join_timeout_def brain_ok_def log_event_def brain_inv_restart
      split: option.splits) (auto simp: brain_restart_def reset_off_def)

text \<open>The state in which \<open>handle_wireless_sampled\<close> runs the action.\<close>

definition sampled_state ::
  "wireless_sample \<Rightarrow> u64 \<Rightarrow> supervisor \<Rightarrow> brain \<Rightarrow> action \<times> supervisor" where
  "sampled_state sample now s b =
     (let s1 = s\<lparr>su_wireless_sample_in_flight := False, su_wlan := wsm_wlan sample,
                 su_wireless_ip := map_option (\<lambda>a. show_ipv4 (wl_ipv4 a)) (wsm_wlan sample)\<rparr>;
          (a, b') = decide (world_of sample now s1) (set_mode (su_mode s) b)
      in (a, s1\<lparr>su_brain := Some b'\<rparr>))"

lemma handle_wireless_sampled_eq:
  assumes "su_wireless_sample_in_flight s" "su_brain s = Some b"
    and "sampled_state sample now s b = (a, u)"
    and "handle_action a (now div 1000) wall u = (go, v, e)"
  shows "handle_wireless_sampled sample now wall s =
    (if go then (check_join_timeout now wall v, e @ update_metric v) else (v, e))"
  using assms by (auto simp: handle_wireless_sampled_def sampled_state_def Let_def case_prod_beta)

lemma sampled_state_fields:
  assumes "sampled_state sample now s b = (a, u)"
  shows "su_mode u = su_mode s" "su_cfg u = su_cfg s" "su_wlan u = wsm_wlan sample"
    "su_portal_ip u = su_portal_ip s" "su_probe_ip u = su_probe_ip s" "su_verdict u = su_verdict s"
    "su_wireless_died u = su_wireless_died s" "su_notifications u = su_notifications s"
    "su_started u = su_started s" "su_stopped u = su_stopped s"
    "su_auth_in_flight u = su_auth_in_flight s" "su_associate_in_flight u = su_associate_in_flight s"
    "su_probe_in_flight u = su_probe_in_flight s" "\<not> su_wireless_sample_in_flight u"
    "su_sample_in_flight u = su_sample_in_flight s" "su_link_poll_at u = su_link_poll_at s"
    "su_watchdog_deadline u = su_watchdog_deadline s" "su_wireless_tick_at u = su_wireless_tick_at s"
    "su_step_pending u = su_step_pending s" "su_eth_link u = su_eth_link s"
    "su_session u = su_session s" "su_join_since_ms u = su_join_since_ms s"
    "\<exists>b'. su_brain u = Some b'"
  using assms by (auto simp: sampled_state_def Let_def case_prod_beta)

lemma sampled_state_brain:
  assumes "sampled_state sample now s b = (a, u)" "brain_inv b" "br_phase b = WAuthing \<longrightarrow> su_auth_in_flight s"
  obtains b' where "su_brain u = Some b'" "brain_inv b'" "br_mode b' = su_mode s"
    "br_phase b' = WAuthing \<longrightarrow> a = ActPortalAuth \<or> su_auth_in_flight u"
proof -
  define w where "w = world_of sample now (s\<lparr>su_wireless_sample_in_flight := False, su_wlan := wsm_wlan sample,
                 su_wireless_ip := map_option (\<lambda>a. show_ipv4 (wl_ipv4 a)) (wsm_wlan sample)\<rparr>)"
  have u: "su_brain u = Some (snd (decide w (set_mode (su_mode s) b)))"
    "a = fst (decide w (set_mode (su_mode s) b))" "su_auth_in_flight u = su_auth_in_flight s"
    using assms(1) by (auto simp: sampled_state_def Let_def case_prod_beta w_def)
  show thesis
  proof (rule that [OF u(1)])
    show "brain_inv (snd (decide w (set_mode (su_mode s) b)))"
      using assms(2) by (simp add: brain_inv_decide)
    show "br_mode (snd (decide w (set_mode (su_mode s) b))) = su_mode s" by (simp add: set_mode_def)
    show "br_phase (snd (decide w (set_mode (su_mode s) b))) = WAuthing \<longrightarrow>
        a = ActPortalAuth \<or> su_auth_in_flight u"
      using decide_authing [of w "set_mode (su_mode s) b"] assms(3) u by (auto simp: set_mode_def)
  qed
qed

lemma handle_wireless_sampled_cases:
  obtains (ignored) "\<not> su_wireless_sample_in_flight s" "handle_wireless_sampled sample now wall s = (s, [])"
  | (no_brain) "su_wireless_sample_in_flight s" "su_brain s = None"
      "handle_wireless_sampled sample now wall s = (s\<lparr>su_wireless_sample_in_flight := False\<rparr>, [])"
  | (decided) b a u go v e where "su_wireless_sample_in_flight s" "su_brain s = Some b"
      "sampled_state sample now s b = (a, u)" "handle_action a (now div 1000) wall u = (go, v, e)"
      "handle_wireless_sampled sample now wall s =
        (if go then (check_join_timeout now wall v, e @ update_metric v) else (v, e))"
proof (cases "su_wireless_sample_in_flight s")
  case False
  then show thesis by (intro ignored) (simp_all add: handle_wireless_sampled_def)
next
  case True
  show thesis
  proof (cases "su_brain s")
    case None
    with True show thesis by (intro no_brain) (simp_all add: handle_wireless_sampled_def)
  next
    case (Some b)
    obtain a u where u: "sampled_state sample now s b = (a, u)" by (cases "sampled_state sample now s b")
    obtain go v e where h: "handle_action a (now div 1000) wall u = (go, v, e)"
      by (cases "handle_action a (now div 1000) wall u")
    show thesis by (rule decided [OF True Some u h handle_wireless_sampled_eq [OF True Some u h]])
  qed
qed

lemma handle_wireless_sampled_ok:
  assumes "brain_ok s" shows "brain_ok (fst (handle_wireless_sampled sample now wall s))"
proof (cases rule: handle_wireless_sampled_cases [of s sample now wall])
  case ignored
  then show ?thesis using assms by simp
next
  case no_brain
  then show ?thesis using assms by (simp add: brain_ok_def)
next
  case (decided b a u go v e)
  have b: "brain_inv b" "br_phase b = WAuthing \<longrightarrow> su_auth_in_flight s" "su_portal_ip s \<noteq> None"
    "su_probe_ip s \<noteq> None" "wc_enabled (cf_wireless (su_cfg s))" "\<not> su_wireless_died s"
    using assms decided(2) by (simp_all add: brain_ok_def)
  note f = sampled_state_fields [OF decided(3)]
  obtain b' where b': "su_brain u = Some b'" "brain_inv b'" "br_mode b' = su_mode s"
    "br_phase b' = WAuthing \<longrightarrow> a = ActPortalAuth \<or> su_auth_in_flight u"
    by (rule sampled_state_brain [OF decided(3) b(1,2)])
  from handle_action_brain [OF decided(4) b'(1,2,4)] b(3,4) f obtain b'' where
    "su_brain v = Some b''" "brain_inv b''" "br_mode b'' = br_mode b'"
    "br_phase b'' = WAuthing \<longrightarrow> su_auth_in_flight v" by auto
  with handle_action_fixed [OF decided(4)] b f b'(3) have "brain_ok v" by (simp add: brain_ok_def)
  then show ?thesis using decided(5) by (simp add: check_join_timeout_ok)
qed

lemma handle_event_ok: "brain_ok s \<Longrightarrow> brain_ok (fst (handle_event J ev now wall s))"
proof (cases ev)
  case Wake
  then show "brain_ok s \<Longrightarrow> ?thesis"
    by (simp add: handle_event_def handle_wake_def case_prod_beta wake_wireless_ok wake_wired_ok)
next
  case (NotifyResult k d)
  then show "brain_ok s \<Longrightarrow> ?thesis"
    by (simp add: handle_event_def) (erule brain_ok_cong [THEN iffD2, rotated -1], simp_all)
qed (simp_all add: handle_event_def handle_command_ok handle_link_sampled_ok handle_watchdog_stepped_ok
    handle_wireless_sampled_ok handle_associate_finished_ok handle_portal_finished_ok
    handle_probe_finished_ok handle_heartbeat_ok handle_wireless_died_ok handle_stop_ok)

lemma handle_wireless_sampled_fixed [simp]:
  "su_started (fst (handle_wireless_sampled sm now wall s)) = su_started s"
  "su_stopped (fst (handle_wireless_sampled sm now wall s)) = su_stopped s"
  "su_notifications (fst (handle_wireless_sampled sm now wall s)) = su_notifications s"
  "su_mode (fst (handle_wireless_sampled sm now wall s)) = su_mode s"
  "su_cfg (fst (handle_wireless_sampled sm now wall s)) = su_cfg s"
  "su_eth_link (fst (handle_wireless_sampled sm now wall s)) = su_eth_link s"
  "su_session (fst (handle_wireless_sampled sm now wall s)) = su_session s"
  "su_sample_in_flight (fst (handle_wireless_sampled sm now wall s)) = su_sample_in_flight s"
  "su_link_poll_at (fst (handle_wireless_sampled sm now wall s)) = su_link_poll_at s"
  "su_watchdog_deadline (fst (handle_wireless_sampled sm now wall s)) = su_watchdog_deadline s"
  "su_wireless_tick_at (fst (handle_wireless_sampled sm now wall s)) = su_wireless_tick_at s"
  "su_step_pending (fst (handle_wireless_sampled sm now wall s)) = su_step_pending s"
proof -
  have "su_started (fst (handle_wireless_sampled sm now wall s)) = su_started s \<and>
    su_stopped (fst (handle_wireless_sampled sm now wall s)) = su_stopped s \<and>
    su_notifications (fst (handle_wireless_sampled sm now wall s)) = su_notifications s \<and>
    su_mode (fst (handle_wireless_sampled sm now wall s)) = su_mode s \<and>
    su_cfg (fst (handle_wireless_sampled sm now wall s)) = su_cfg s \<and>
    su_eth_link (fst (handle_wireless_sampled sm now wall s)) = su_eth_link s \<and>
    su_session (fst (handle_wireless_sampled sm now wall s)) = su_session s \<and>
    su_sample_in_flight (fst (handle_wireless_sampled sm now wall s)) = su_sample_in_flight s \<and>
    su_link_poll_at (fst (handle_wireless_sampled sm now wall s)) = su_link_poll_at s \<and>
    su_watchdog_deadline (fst (handle_wireless_sampled sm now wall s)) = su_watchdog_deadline s \<and>
    su_wireless_tick_at (fst (handle_wireless_sampled sm now wall s)) = su_wireless_tick_at s \<and>
    su_step_pending (fst (handle_wireless_sampled sm now wall s)) = su_step_pending s"
    (is ?P)
  proof (cases rule: handle_wireless_sampled_cases [of s sm now wall])
    case (decided b a u go v e)
    note f = sampled_state_fields [OF decided(3)] and h = handle_action_fixed [OF decided(4)]
    from f h decided(5) show ?P by (cases go) simp_all
  qed simp_all
  then show "su_started (fst (handle_wireless_sampled sm now wall s)) = su_started s"
    "su_stopped (fst (handle_wireless_sampled sm now wall s)) = su_stopped s"
    "su_notifications (fst (handle_wireless_sampled sm now wall s)) = su_notifications s"
    "su_mode (fst (handle_wireless_sampled sm now wall s)) = su_mode s"
    "su_cfg (fst (handle_wireless_sampled sm now wall s)) = su_cfg s"
    "su_eth_link (fst (handle_wireless_sampled sm now wall s)) = su_eth_link s"
    "su_session (fst (handle_wireless_sampled sm now wall s)) = su_session s"
    "su_sample_in_flight (fst (handle_wireless_sampled sm now wall s)) = su_sample_in_flight s"
    "su_link_poll_at (fst (handle_wireless_sampled sm now wall s)) = su_link_poll_at s"
    "su_watchdog_deadline (fst (handle_wireless_sampled sm now wall s)) = su_watchdog_deadline s"
    "su_wireless_tick_at (fst (handle_wireless_sampled sm now wall s)) = su_wireless_tick_at s"
    "su_step_pending (fst (handle_wireless_sampled sm now wall s)) = su_step_pending s"
    by simp_all
qed

lemma handle_wireless_sampled_brain [simp]:
  "su_brain (fst (handle_wireless_sampled sm now wall s)) = None \<longleftrightarrow> su_brain s = None"
proof (cases rule: handle_wireless_sampled_cases [of s sm now wall])
  case (decided b a u go v e)
  have "su_brain u \<noteq> None" using sampled_state_fields(23) [OF decided(3)] by auto
  then have "su_brain v \<noteq> None" using handle_action_fixed(19) [OF decided(4)] by simp
  then show ?thesis using decided by (cases go) (simp_all del: not_None_eq)
qed simp_all

lemma handle_command_fixed [simp]:
  "su_started (fst (handle_command c wall s)) = su_started s"
  "su_stopped (fst (handle_command c wall s)) = su_stopped s"
  "su_cfg (fst (handle_command c wall s)) = su_cfg s"
  "su_notifications (fst (handle_command c wall s)) = su_notifications s"
  "su_sample_in_flight (fst (handle_command c wall s)) = su_sample_in_flight s"
  "su_link_poll_at (fst (handle_command c wall s)) = su_link_poll_at s"
  "su_wireless_tick_at (fst (handle_command c wall s)) = su_wireless_tick_at s"
  "su_wireless_sample_in_flight (fst (handle_command c wall s)) = su_wireless_sample_in_flight s"
  "su_associate_in_flight (fst (handle_command c wall s)) = su_associate_in_flight s"
  "su_auth_in_flight (fst (handle_command c wall s)) = su_auth_in_flight s"
  "su_probe_in_flight (fst (handle_command c wall s)) = su_probe_in_flight s"
  "su_verdict (fst (handle_command c wall s)) = su_verdict s"
  "su_eth_link (fst (handle_command c wall s)) = su_eth_link s"
  "su_session (fst (handle_command c wall s)) = su_session s"
  "su_step_pending (fst (handle_command c wall s)) = su_step_pending s"
  "su_brain (fst (handle_command c wall s)) = None \<longleftrightarrow> su_brain s = None"
  by (cases c; simp add: Let_def log_event_def)+

lemmas handler_defs = handle_event_def handle_wake_def wake_wired_def wake_wireless_def
  handle_link_sampled_def handle_watchdog_stepped_def session_failing_def
  handle_associate_finished_def handle_portal_finished_def brain_on_auth_def
  handle_probe_finished_def handle_heartbeat_def handle_wireless_died_def
  report_wireless_stopped_def handle_stop_def log_event_def Let_def

lemma handle_event_lifecycle:
  "su_started (fst (handle_event J ev now wall s)) = su_started s"
  "su_stopped (fst (handle_event J ev now wall s)) \<longleftrightarrow> su_stopped s \<or> ev = Stop"
  "su_cfg (fst (handle_event J ev now wall s)) = su_cfg s"
  by (cases ev; simp add: handler_defs case_prod_beta
        split: option.splits session_status.splits heartbeat_status.splits)+

lemma handle_event_ledger:
  "ledger_inv (su_notifications s) \<Longrightarrow> ledger_inv (su_notifications (fst (handle_event J ev now wall s)))"
  by (cases ev; simp add: handler_defs case_prod_beta ledger_inv_on_result ledger_inv_maybe_notify
        split: option.splits session_status.splits heartbeat_status.splits)

lemma brain_ok_published [simp]: "brain_ok (s\<lparr>su_last_snapshot := x\<rparr>) = brain_ok s"
  by (rule brain_ok_cong) simp_all

lemma sup_inv_new [wf_intros]: "sup_inv (supervisor_new cfg)"
  by (simp add: sup_inv_def brain_ok_new)
     (simp add: supervisor_new_def supervisor_init_def Let_def ledger_inv_default split: option.splits)

lemma sup_inv_step [wf_intros]: "sup_inv s \<Longrightarrow> sup_inv (step J ev now wall s)"
proof (cases rule: step_cases [of J ev now wall s])
  case (started s')
  then have "s' = fst (handle_started now wall s)" by (metis fst_conv)
  with started show "sup_inv s \<Longrightarrow> ?thesis"
    by (auto simp: sup_inv_def handle_started_ok)
       (auto simp: handle_started_def Let_def log_event_def split: if_splits)
next
  case (running s')
  then have "s' = fst (handle_event J ev now wall s)" by (metis fst_conv)
  with running show "sup_inv s \<Longrightarrow> ?thesis"
    by (simp add: sup_inv_def handle_event_ok handle_event_ledger handle_event_lifecycle)
qed (simp add: sup_inv_def)

lemma sup_inv_run: "sup_inv s \<Longrightarrow> sup_inv (run J es s)"
  by (induction J es s rule: run.induct) (simp_all add: sup_inv_step)

section \<open>Single flight\<close>

text \<open>The requests the supervisor makes of the runtime, and the events that answer them.\<close>

datatype request = RLink | RWireless | RAssociate | RAuth | RProbe | RNotify toast_key

fun request_of :: "effect \<Rightarrow> request option" where
  "request_of SampleLink = Some RLink"
| "request_of SampleWireless = Some RWireless"
| "request_of (Associate _) = Some RAssociate"
| "request_of (PortalAuth _ _) = Some RAuth"
| "request_of (WlanProbe _ _ _) = Some RProbe"
| "request_of (Notify k _ _) = Some (RNotify k)"
| "request_of _ = None"

fun answer_of :: "event \<Rightarrow> request option" where
  "answer_of (LinkSampled _ _) = Some RLink"
| "answer_of (WirelessSampled _) = Some RWireless"
| "answer_of (AssociateFinished _) = Some RAssociate"
| "answer_of (PortalFinished _) = Some RAuth"
| "answer_of (WlanProbeFinished _) = Some RProbe"
| "answer_of (NotifyResult k _) = Some (RNotify k)"
| "answer_of _ = None"

fun in_flight :: "request \<Rightarrow> supervisor \<Rightarrow> bool" where
  "in_flight RLink s = su_sample_in_flight s"
| "in_flight RWireless s = su_wireless_sample_in_flight s"
| "in_flight RAssociate s = su_associate_in_flight s"
| "in_flight RAuth s = su_auth_in_flight s"
| "in_flight RProbe s = su_probe_in_flight s"
| "in_flight (RNotify k) s = (k \<in> set (nl_in_flight (su_notifications s)))"

text \<open>The wireless requests need the brain.\<close>

fun enabled :: "request \<Rightarrow> supervisor \<Rightarrow> bool" where
  "enabled RLink s = True"
| "enabled (RNotify _) s = True"
| "enabled _ s = (su_brain s \<noteq> None)"

definition requests :: "request \<Rightarrow> effect list \<Rightarrow> nat" where
  "requests r es = length (filter (\<lambda>e. request_of e = Some r) es)"

lemma requests_simps [simp]:
  "requests r [] = 0" "requests r (a @ b) = requests r a + requests r b"
  "requests r (e # es) = (if request_of e = Some r then 1 else 0) + requests r es"
  by (simp_all add: requests_def)

text \<open>One step accounts for the requests it makes: \<open>made + before \<le> answered + after\<close>.\<close>

definition accounted :: "request \<Rightarrow> effect list \<Rightarrow> bool \<Rightarrow> supervisor \<Rightarrow> supervisor \<Rightarrow> bool" where
  "accounted r es answered s s' \<longleftrightarrow>
     requests r es + of_bool (in_flight r s) \<le> of_bool answered + of_bool (in_flight r s')"

lemma requests_update_metric [simp]: "requests r (update_metric s) = 0"
  by (simp add: update_metric_def Let_def split: option.splits)

lemma handle_action_accounted:
  assumes "handle_action a t wall s = (go, s', e)" shows "accounted r e False s s'"
  using assms
  by (cases a; cases r; auto simp: accounted_def act_portal_auth_def act_probe_def auth_impossible_def
      brain_on_auth_def log_event_def split: option.splits if_splits)

lemma in_flight_join_timeout [simp]: "in_flight r (check_join_timeout now wall s) = in_flight r s"
  by (cases r) simp_all

lemma handle_wireless_sampled_accounted:
  "accounted r (snd (handle_wireless_sampled sm now wall s)) (r = RWireless) s
     (fst (handle_wireless_sampled sm now wall s))"
proof (cases rule: handle_wireless_sampled_cases [of s sm now wall])
  case (decided b a u go v e)
  have "accounted r e False u v" by (rule handle_action_accounted [OF decided(4)])
  moreover have "of_bool (in_flight r s) \<le> of_bool (r = RWireless) + (of_bool (in_flight r u) :: nat)"
    using sampled_state_fields [OF decided(3)] by (cases r) auto
  ultimately show ?thesis using decided(5) by (auto simp: accounted_def)
next
  case no_brain
  then show ?thesis by (cases r) (auto simp: accounted_def)
qed (simp add: accounted_def)

lemma maybe_notify_accounted:
  "requests r (snd (maybe_notify k t b now l)) + of_bool (\<exists>k'. r = RNotify k' \<and> k' \<in> set (nl_in_flight l))
     \<le> of_bool (\<exists>k'. r = RNotify k' \<and> k' \<in> set (nl_in_flight (fst (maybe_notify k t b now l))))"
  by (auto simp: maybe_notify_def)

lemma handle_command_requests [simp]:
  "requests r (snd (handle_command c wall s)) = 0"
  "in_flight r (fst (handle_command c wall s)) = in_flight r s"
  by (cases c; cases r; simp add: Let_def log_event_def)+

lemma handle_event_accounted:
  assumes "ledger_inv (su_notifications s)" "ev \<noteq> WirelessDied"
  shows "accounted r (snd (handle_event J ev now wall s)) (answer_of ev = Some r) s
     (fst (handle_event J ev now wall s))"
proof (cases ev)
  case (WirelessSampled sm)
  then show ?thesis using handle_wireless_sampled_accounted [of r sm now wall s]
    by (auto simp: handle_event_def eq_commute)
next
  case (NotifyResult k d)
  then show ?thesis using assms(1)
    by (cases r) (auto simp: handle_event_def accounted_def on_result_def Let_def ledger_inv_def)
next
  case (Command c)
  then show ?thesis by (simp add: handle_event_def accounted_def)
next
  case (WatchdogStepped st)
  then show ?thesis
    using maybe_notify_accounted [of r RedialFailing]
    by (cases r) (auto simp: accounted_def handler_defs case_prod_beta maybe_notify_def
        split: session_status.splits)
next
  case (Heartbeat h)
  then show ?thesis
    by (cases r) (auto simp: accounted_def handler_defs case_prod_beta maybe_notify_def
        split: heartbeat_status.splits)
next
  case Wake
  then show ?thesis
    by (cases r) (auto simp: accounted_def handler_defs case_prod_beta split: option.splits)
next
  case (LinkSampled up ip)
  then show ?thesis
    by (cases r) (auto simp: accounted_def handler_defs case_prod_beta split: option.splits)
qed (use assms(2) in \<open>cases r; simp add: accounted_def handler_defs case_prod_beta; fail\<close>)+

lemma handle_event_disabled:
  assumes "brain_ok s" "\<not> enabled r s"
  shows "requests r (snd (handle_event J ev now wall s)) = 0 \<and> \<not> enabled r (fst (handle_event J ev now wall s))"
proof -
  have b: "su_brain s = None" using assms(2) by (cases r) simp_all
  then have f: "\<not> su_wireless_sample_in_flight s" using assms(1) by (simp add: brain_ok_def)
  show ?thesis
    using b f assms(2)
    by (cases ev; cases r)
       (auto simp: handler_defs case_prod_beta handle_wireless_sampled_def maybe_notify_def
         split: option.splits session_status.splits heartbeat_status.splits)
qed

lemma handle_event_enabled:
  "enabled r s \<Longrightarrow> ev \<noteq> WirelessDied \<Longrightarrow> enabled r (fst (handle_event J ev now wall s))"
  using handle_wireless_sampled_brain [of _ now wall s] handle_command_fixed(16) [of _ wall s]
  by (cases r; cases ev)
     (auto simp: handler_defs case_prod_beta split: option.splits session_status.splits heartbeat_status.splits)

lemma enabled_published [simp]: "enabled r (s\<lparr>su_last_snapshot := x\<rparr>) = enabled r s"
  "in_flight r (s\<lparr>su_last_snapshot := x\<rparr>) = in_flight r s"
  by (cases r; simp)+

lemma handle_started_accounted:
  assumes "sup_inv s" "\<not> su_started s"
  shows "accounted r (snd (handle_started now wall s)) False s (fst (handle_started now wall s))
    \<and> (enabled r (fst (handle_started now wall s)) = enabled r s)
    \<and> (\<not> enabled r s \<longrightarrow> requests r (snd (handle_started now wall s)) = 0)"
  using assms by (cases r) (auto simp: sup_inv_def accounted_def handle_started_def Let_def log_event_def)

text \<open>One step of a run, for a request that is still possible.\<close>

lemma step_accounted:
  assumes "sup_inv s" "enabled r s"
  shows "(enabled r (step J ev now wall s)
            \<and> accounted r (effects_of J ev now wall s) (answer_of ev = Some r) s (step J ev now wall s))
       \<or> (\<not> enabled r (step J ev now wall s) \<and> requests r (effects_of J ev now wall s) = 0)"
proof (cases rule: step_cases [of J ev now wall s])
  case silent
  then show ?thesis using assms(2) by (simp add: accounted_def)
next
  case (started s')
  then show ?thesis using handle_started_accounted [OF assms(1) started(1), of r now wall] assms(2)
    by (auto simp: accounted_def)
next
  case (running s')
  have l: "ledger_inv (su_notifications s)" using assms(1) by (simp add: sup_inv_def)
  show ?thesis
  proof (cases "ev = WirelessDied")
    case True
    have e: "effects_of J ev now wall s = []" "s' = handle_wireless_died wall s"
      using running(3) True by (simp_all add: handle_event_def)
    show ?thesis
    proof (cases "enabled r s' \<and> in_flight r s \<longrightarrow> in_flight r s'")
      case T: True
      then show ?thesis using e running(4) by (auto simp: accounted_def)
    next
      case F: False
      then show ?thesis using e running(4)
        by (cases r) (auto simp: handle_wireless_died_def report_wireless_stopped_def log_event_def
            split: if_splits)
    qed
  next
    case False
    from handle_event_accounted [OF l False, of r J now wall] running(3,4)
      handle_event_enabled [OF assms(2) False, of J now wall]
    show ?thesis by (auto simp: accounted_def)
  qed
qed

lemma step_disabled:
  assumes "sup_inv s" "\<not> enabled r s"
  shows "\<not> enabled r (step J ev now wall s) \<and> requests r (effects_of J ev now wall s) = 0"
proof (cases rule: step_cases [of J ev now wall s])
  case silent
  then show ?thesis using assms(2) by simp
next
  case (started s')
  then show ?thesis using handle_started_accounted [OF assms(1) started(1), of r now wall] assms(2)
    by auto
next
  case (running s')
  then show ?thesis using handle_event_disabled [of s r J ev now wall] assms by (auto simp: sup_inv_def)
qed

definition answers :: "request \<Rightarrow> stamped list \<Rightarrow> nat" where
  "answers r es = length (filter (\<lambda>(ev, _, _). answer_of ev = Some r) es)"

lemma answers_Cons [simp]:
  "answers r ((ev, now, wall) # es) = of_bool (answer_of ev = Some r) + answers r es"
  "answers r [] = 0"
  by (simp_all add: answers_def)

lemma emitted_bound:
  "sup_inv s \<Longrightarrow> requests r (emitted J es s) + of_bool (in_flight r s) \<le> answers r es + 1
     \<and> (\<not> enabled r s \<longrightarrow> requests r (emitted J es s) = 0)"
proof (induction J es s rule: run.induct)
  case (1 J s)
  then show ?case by simp
next
  case (2 J ev now wall es s)
  note IH = "2.IH" [OF sup_inv_step [OF "2.prems"]]
  show ?case
  proof (cases "enabled r s")
    case True
    from step_accounted [OF "2.prems" True, of J ev now wall] IH True show ?thesis
      by (auto simp: accounted_def)
  next
    case False
    from step_disabled [OF "2.prems" False, of J ev now wall] IH have
      "requests r (emitted J ((ev, now, wall) # es) s) = 0" by simp
    then show ?thesis by (simp add: of_bool_def)
  qed
qed

section \<open>The published snapshot\<close>

lemma handle_event_last_snapshot:
  "su_last_snapshot (fst (handle_event J ev now wall s)) = su_last_snapshot s"
proof (cases ev)
  case (WirelessSampled sm)
  have a: "su_last_snapshot v = su_last_snapshot u"
    if "handle_action a t wall u = (go, v, e)" for a t u go v e
    using that by (cases a) (auto simp: act_portal_auth_def act_probe_def auth_impossible_def
        brain_on_auth_def log_event_def split: option.splits if_splits)
  show ?thesis
  proof (cases rule: handle_wireless_sampled_cases [of s sm now wall])
    case (decided b a' u go v e)
    have "su_last_snapshot u = su_last_snapshot s"
      using decided(3) by (auto simp: sampled_state_def Let_def case_prod_beta)
    with a [OF decided(4)] decided(5) WirelessSampled show ?thesis
      by (simp add: handle_event_def check_join_timeout_def log_event_def)
  qed (simp_all add: WirelessSampled handle_event_def)
next
  case (Command c)
  then show ?thesis by (cases c) (simp_all add: handle_event_def Let_def log_event_def)
qed (simp_all add: handler_defs case_prod_beta
    split: option.splits session_status.splits heartbeat_status.splits)

lemma compose_published [simp]: "compose (s\<lparr>su_last_snapshot := x\<rparr>) = compose s"
  by (simp add: compose_def split: option.splits)

lemma on_snapshot:
  "re_snapshot (snd (on J ev now wall s)) =
     (if snd (snd (dispatch J ev now wall s))
         \<and> su_last_snapshot (fst (dispatch J ev now wall s)) \<noteq> Some (compose (fst (dispatch J ev now wall s)))
      then Some (compose (fst (dispatch J ev now wall s))) else None)"
  by (auto simp: on_def Let_def case_prod_beta publish_def)

lemma dispatch_last_snapshot:
  "su_last_snapshot (fst (dispatch J ev now wall s)) = su_last_snapshot s"
  by (simp add: dispatch_def case_prod_beta handle_event_last_snapshot)
     (simp add: handle_started_def Let_def log_event_def)

text \<open>Whether a step is handled, and what it then leaves as the last published snapshot.\<close>

lemma step_snapshot:
  "(re_snapshot (snd (on J ev now wall s)) = None
      \<and> su_last_snapshot (step J ev now wall s) = su_last_snapshot s)
   \<or> (\<exists>x. re_snapshot (snd (on J ev now wall s)) = Some x
      \<and> su_last_snapshot (step J ev now wall s) = Some x \<and> su_last_snapshot s \<noteq> Some x)"
  using dispatch_last_snapshot [of J ev now wall s]
  by (auto simp: on_snapshot step_dispatch)

definition snapshot_current :: "supervisor \<Rightarrow> bool" where
  "snapshot_current s \<longleftrightarrow> (su_started s \<longrightarrow> su_last_snapshot s = Some (compose s))"

lemma snapshot_current_step: "snapshot_current s \<Longrightarrow> snapshot_current (step J ev now wall s)"
  by (cases rule: step_cases [of J ev now wall s]) (simp_all add: snapshot_current_def)

lemma snapshot_current_run: "snapshot_current s \<Longrightarrow> snapshot_current (run J es s)"
  by (induction J es s rule: run.induct) (simp_all add: snapshot_current_step)

lemma published_last:
  assumes "su_last_snapshot s = None"
  shows "su_last_snapshot (run J es s) =
      (if published J es s = [] then None else Some (last (published J es s)))
    \<and> distinct_adj (published J es s)"
proof (induction es rule: rev_induct)
  case Nil
  then show ?case using assms by simp
next
  case (snoc x es)
  obtain ev now wall where x: "x = (ev, now, wall)" by (cases x)
  from step_snapshot [of J ev now wall "run J es s"] snoc show ?case
    by (auto simp: x distinct_adj_append_iff split: if_splits)
qed

end
