(* ===== verification/Supervisor_Props.thy ===== *)
theory Supervisor_Props
  imports Supervisor_Inv
begin

text \<open>
  The properties of the supervisor: what it publishes, when it wakes, what it asks of the runtime and
  in which order, over arbitrary sequences of events.
\<close>

section \<open>Requests\<close>

text \<open>
  C9 (safety). Every request the supervisor makes of the runtime is single-flight: over any sequence
  of events, at any times, the number of link samples, wireless samples, associations, portal logins,
  WLAN probes and toasts of one kind it has asked for exceeds the number of answers by at most one, so
  a slow or missing answer never makes requests pile up.
\<close>

theorem requests_single_flight:
  "requests r (emitted J es (supervisor_new cfg)) \<le> answers r es + 1"
  using emitted_bound [OF sup_inv_new, of r J es cfg] by simp

lemma no_brain_lane:
  assumes "brain_ok s" "su_brain s = None" "su_started s"
  shows "\<forall>e \<in> set (snd (handle_event J ev now wall s)). lane_of e = MainLane \<and> e \<noteq> SampleWireless"
proof -
  have f: "\<not> su_wireless_sample_in_flight s" using assms by (simp add: brain_ok_def)
  show ?thesis
  proof (cases ev)
    case (Command c)
    then show ?thesis by (cases c) (simp_all add: handle_event_def Let_def)
  qed (use assms f in \<open>auto simp: handler_defs case_prod_beta handle_wireless_sampled_def maybe_notify_def
         split: option.splits session_status.splits heartbeat_status.splits if_splits\<close>)
qed

lemma no_brain_emits_main:
  "sup_inv s \<Longrightarrow> su_brain s = None \<Longrightarrow>
     \<forall>e \<in> set (emitted J es s). lane_of e = MainLane \<and> e \<noteq> SampleWireless"
proof (induction J es s rule: run.induct)
  case (1 J s)
  then show ?case by simp
next
  case (2 J ev now wall es s)
  have d: "su_brain (step J ev now wall s) = None"
    using step_disabled [OF "2.prems"(1), of RAuth J ev now wall] "2.prems"(2) by simp
  have "\<forall>e \<in> set (effects_of J ev now wall s). lane_of e = MainLane \<and> e \<noteq> SampleWireless"
  proof (cases rule: step_cases [of J ev now wall s])
    case (started s')
    then show ?thesis using "2.prems"(2)
      by (auto simp: handle_started_def Let_def log_event_def)
  next
    case (running s')
    then show ?thesis using no_brain_lane [of s J ev now wall] "2.prems" by (auto simp: sup_inv_def)
  qed simp
  with "2.IH" [OF sup_inv_step [OF "2.prems"(1)] d] show ?case by auto
qed

text \<open>
  Once there is no takeover brain (the wireless side is disabled in the configuration,
  its addresses did not parse, or its worker has died), nothing the supervisor emits over any further
  events goes to the wireless lane, and it asks for no wireless sample.
\<close>

theorem wireless_lane_needs_brain:
  assumes "su_brain (run J es (supervisor_new cfg)) = None"
    and "e \<in> set (emitted J es' (run J es (supervisor_new cfg)))"
  shows "lane_of e = MainLane \<and> e \<noteq> SampleWireless"
  using no_brain_emits_main [OF sup_inv_run [OF sup_inv_new] assms(1)] assms(2) by blast

definition demo_json :: "nat serde" where
  "demo_json = \<lparr>js_from_str = \<lambda>s. if s = ''ok'' then Some 1 else None, js_get = \<lambda>v k. Some v,
     js_as_str = \<lambda>v. None, js_as_u64 = \<lambda>v. Some v, js_to_string = dec\<rparr>"

definition wired_only :: config where
  "wired_only = config_default\<lparr>cf_wireless := wireless_default\<lparr>wc_enabled := False\<rparr>\<rparr>"

lemma wired_only_brain: "su_brain (supervisor_new wired_only) = None"
  by (simp add: supervisor_new_def supervisor_init_def wired_only_def)

theorem wireless_lane_needs_brain_witness: "lane_of SampleLink = MainLane"
proof -
  have "SampleLink \<in> set (emitted demo_json [(Started, 0, 0), (Wake, 0, 0)] (run demo_json [] (supervisor_new wired_only)))"
    by (simp add: effects_of_dispatch step_dispatch dispatch_def handle_started_def handle_event_def
        handle_wake_def wake_wired_def wake_wireless_def supervisor_new_def supervisor_init_def
        wired_only_def log_event_def Let_def)
  from wireless_lane_needs_brain [OF _ this] wired_only_brain show ?thesis by simp
qed

section \<open>Snapshots\<close>

text \<open>
  The published snapshots are exactly the changes: over any run no snapshot is
  published twice in a row, and from the start event on the last published snapshot is the current
  composed state after every event, so a subscriber never holds a stale one.
\<close>

theorem snapshots_are_the_changes:
  "distinct_adj (published J es (supervisor_new cfg))
   \<and> (su_started (run J es (supervisor_new cfg)) \<longrightarrow>
        published J es (supervisor_new cfg) \<noteq> []
        \<and> last (published J es (supervisor_new cfg)) = compose (run J es (supervisor_new cfg)))"
proof -
  have n: "su_last_snapshot (supervisor_new cfg) = None" "\<not> su_started (supervisor_new cfg)"
    by (simp_all add: supervisor_new_def supervisor_init_def Let_def split: option.splits)
  then have "snapshot_current (supervisor_new cfg)" by (simp add: snapshot_current_def)
  from snapshot_current_run [OF this, of J es] published_last [OF n(1), of J es] show ?thesis
    by (auto simp: snapshot_current_def split: if_splits)
qed

theorem snapshots_are_the_changes_witness:
  "length (published demo_json [(Started, 0, 0)] (supervisor_new wired_only)) = 1"
proof -
  have s: "su_started (run demo_json [(Started, 0, 0)] (supervisor_new wired_only))"
    by (simp add: step_dispatch dispatch_def handle_started_def supervisor_new_def
        supervisor_init_def wired_only_def log_event_def Let_def)
  from snapshots_are_the_changes [of demo_json "[(Started, 0, 0)]" wired_only] s
  have "published demo_json [(Started, 0, 0)] (supervisor_new wired_only) \<noteq> []" by blast
  then show ?thesis by (auto split: option.splits)
qed

section \<open>Wake-ups\<close>

text \<open>The clock readings of a run: monotone, and far from the end of the 64 bits.\<close>

definition clocked :: "stamped list \<Rightarrow> bool" where
  "clocked es \<longleftrightarrow> sorted (map (\<lambda>(_, now, _). unat now) es)
     \<and> (\<forall>(_, now, _) \<in> set es. unat now + 2000 < 2 ^ 64)"

lemma unat_plus_2000: "unat (now::u64) + 2000 < 2 ^ 64 \<Longrightarrow> unat (now + 2000) = unat now + 2000"
  by (simp add: unat_word_ariths)

lemma handle_event_poll:
  "su_link_poll_at (fst (handle_event J ev now wall s)) \<in> {su_link_poll_at s, now + 2000}"
proof (cases ev)
  case (Command c)
  then show ?thesis by (simp add: handle_event_def)
qed (simp_all add: handler_defs case_prod_beta link_poll_ms_def sample_retry_ms_def
    split: option.splits session_status.splits heartbeat_status.splits)

definition poll_by :: "u64 \<Rightarrow> supervisor \<Rightarrow> bool" where
  "poll_by t s \<longleftrightarrow> (su_started s \<longrightarrow> unat (su_link_poll_at s) \<le> unat t + 2000)"

lemma poll_by_step:
  assumes "poll_by t s" "unat t \<le> unat now" "unat now + 2000 < 2 ^ 64"
  shows "poll_by now (step J ev now wall s)"
proof (cases rule: step_cases [of J ev now wall s])
  case silent
  with assms show ?thesis by (auto simp: poll_by_def)
next
  case (started s')
  then have "su_link_poll_at s' = now" by (auto simp: handle_started_def Let_def split: if_splits)
  with started show ?thesis by (simp add: poll_by_def)
next
  case (running s')
  then have "su_link_poll_at s' \<in> {su_link_poll_at s, now + 2000}"
    using handle_event_poll [of J ev now wall s] by simp
  with running assms show ?thesis by (auto simp: poll_by_def unat_plus_2000)
qed

lemma poll_by_run:
  "clocked (es @ [(ev, now, wall)]) \<Longrightarrow> \<not> su_started s \<Longrightarrow> \<exists>t. unat t \<le> unat now \<and> poll_by t (run J es s)"
proof (induction es arbitrary: ev now wall rule: rev_induct)
  case Nil
  then show ?case by (auto simp: poll_by_def)
next
  case (snoc x es)
  obtain ev' n w where x: "x = (ev', n, w)" by (cases x)
  have c: "clocked (es @ [(ev', n, w)])" "unat n \<le> unat now" "unat n + 2000 < 2 ^ 64"
    using snoc.prems(1) by (auto simp: clocked_def x sorted_append)
  from snoc.IH [OF c(1) snoc.prems(2)] obtain t where "unat t \<le> unat n" "poll_by t (run J es s)" by blast
  then have "poll_by n (step J ev' n w (run J es s))" using c(3) by (intro poll_by_step)
  with c(2) show ?case by (auto simp: x)
qed

lemma on_wake:
  "re_wake_at (snd (on J ev now wall s)) =
     (if su_started (step J ev now wall s) \<and> \<not> su_stopped (step J ev now wall s)
      then next_wake now (step J ev now wall s) else None)"
  by (simp add: step_def on_def Let_def case_prod_beta next_wake_def)

text \<open>
  While the service runs, every reaction asks to be woken: not before the present and
  not more than two seconds after it, so a sample or a retry is never further away than the poll
  interval. Before the start and after the stop there is no timer.
\<close>

theorem wake_within_two_seconds:
  assumes "clocked (es @ [(ev, now, wall)])"
  shows "case re_wake_at (snd (on J ev now wall (run J es (supervisor_new cfg)))) of
       Some w \<Rightarrow> now \<le> w \<and> unat w \<le> unat now + 2000
     | None \<Rightarrow> \<not> su_started (run J (es @ [(ev, now, wall)]) (supervisor_new cfg))
             \<or> su_stopped (run J (es @ [(ev, now, wall)]) (supervisor_new cfg))"
proof -
  define s' where "s' = step J ev now wall (run J es (supervisor_new cfg))"
  have n: "\<not> su_started (supervisor_new cfg)"
    by (simp add: supervisor_new_def supervisor_init_def Let_def split: option.splits)
  have b: "unat now + 2000 < 2 ^ 64" using assms by (simp add: clocked_def)
  obtain t where "unat t \<le> unat now" "poll_by t (run J es (supervisor_new cfg))"
    using poll_by_run [OF assms n, of J] by blast
  then have p: "poll_by now s'" unfolding s'_def using b by (intro poll_by_step)
  have w: "now \<le> w \<and> unat w \<le> unat now + 2000"
    if "next_wake now s' = Some w" "su_started s'" for w
  proof -
    have "w = now \<or> now \<le> w \<and> w \<le> su_link_poll_at s'"
      using that(1) by (auto simp: next_wake_def Let_def max_def min_def split: option.splits if_splits)
    with p that(2) show ?thesis by (auto simp: poll_by_def word_le_nat_alt)
  qed
  show ?thesis using w
    by (auto simp: on_wake s'_def [symmetric] split: option.splits) (simp add: next_wake_def Let_def)
qed

theorem wake_within_two_seconds_witness:
  "re_wake_at (snd (on demo_json Started 5 0 (supervisor_new wired_only))) = Some 5"
proof -
  have s: "on demo_json Started 5 0 (supervisor_new wired_only) =
      (step demo_json Started 5 0 (supervisor_new wired_only), snd (on demo_json Started 5 0 (supervisor_new wired_only)))"
    by (simp add: step_def)
  have "re_wake_at (snd (on demo_json Started 5 0 (run demo_json [] (supervisor_new wired_only)))) = Some 5"
    using wake_within_two_seconds [of "[]" Started 5 0 demo_json wired_only]
    by (simp add: clocked_def on_wake step_dispatch dispatch_def handle_started_def next_wake_def
        supervisor_new_def supervisor_init_def wired_only_def log_event_def Let_def)
  then show ?thesis by simp
qed

section \<open>Steps of the watchdog\<close>

text \<open>
  C10 (liveness). A watchdog deadline that is due is served: the next wake-up leaves a link sample in
  flight (it asks for one unless one already was), and the answer to it, whatever it says, makes
  exactly one watchdog step; while the deadline is not due a wake-up asks for no step.
\<close>

theorem due_deadline_is_served:
  assumes "su_started s" "\<not> su_stopped s" "su_watchdog_deadline s = Some d"
  shows "if d \<le> now
     then su_sample_in_flight (step J Wake now wall s)
          \<and> requests RLink (effects_of J Wake now wall s) = (if su_sample_in_flight s then 0 else 1)
          \<and> count_list (effects_of J (LinkSampled up ip) now' wall' (step J Wake now wall s)) StepWatchdog = 1
     else su_watchdog_deadline (step J Wake now wall s) = Some d
          \<and> StepWatchdog \<notin> set (effects_of J Wake now wall s)"
proof (cases rule: step_cases [of J Wake now wall s])
  case silent
  with assms show ?thesis by auto
next
  case (started s')
  with assms show ?thesis by simp
next
  case (running s')
  have s': "s' = fst (handle_wake now s)" "effects_of J Wake now wall s = snd (handle_wake now s)"
    using running(3) by (auto simp: handle_event_def)
  have w: "su_started s'" "\<not> su_stopped s'"
    using s'(1) handle_event_lifecycle [of J Wake now wall s] assms by (simp_all add: handle_event_def)
  show ?thesis
  proof (cases "d \<le> now")
    case False
    then show ?thesis using assms(3) running(4) s'
      by (auto simp: handle_wake_def wake_wired_def wake_wireless_def case_prod_beta Let_def)
  next
    case True
    have f: "su_sample_in_flight s'" "su_step_pending s'"
      "requests RLink (effects_of J Wake now wall s) = (if su_sample_in_flight s then 0 else 1)"
      using True assms(3) s'
      by (auto simp: handle_wake_def wake_wired_def wake_wireless_def case_prod_beta Let_def)
    let ?t = "s'\<lparr>su_last_snapshot := Some (compose s')\<rparr>"
    have "effects_of J (LinkSampled up ip) now' wall' ?t = snd (handle_link_sampled up ip now' wall' ?t)"
      using w by (simp add: effects_of_dispatch dispatch_def handle_event_def case_prod_beta)
    moreover have "count_list (snd (handle_link_sampled up ip now' wall' ?t)) StepWatchdog = 1"
      using f(1,2) by (simp add: handle_link_sampled_def Let_def log_event_def)
    ultimately show ?thesis using True f(1,3) running(4) by simp
  qed
qed

theorem due_deadline_is_served_witness:
  "count_list (effects_of demo_json (LinkSampled None None) 9 0 (step demo_json Wake 5 0
     (step demo_json Started 5 0 (supervisor_new wired_only)))) StepWatchdog = 1"
proof -
  let ?s = "step demo_json Started 5 0 (supervisor_new wired_only)"
  have "su_started ?s" "\<not> su_stopped ?s" "su_watchdog_deadline ?s = Some 5"
    by (simp_all add: step_dispatch dispatch_def handle_started_def supervisor_new_def
        supervisor_init_def wired_only_def log_event_def Let_def)
  from due_deadline_is_served [OF this, of 5 demo_json 0 None None 9 0] show ?thesis by simp
qed

text \<open>
  The watchdog is stepped for three reasons only, at most once per event: a redial
  command, a replugged cable, and the answer to the link sample of a due deadline; and a redial is
  requested only together with the step that carries it out, directly before it.
\<close>

theorem watchdog_step_triggers:
  "count_list (effects_of J ev now wall s) StepWatchdog \<le> 1
   \<and> (StepWatchdog \<in> set (effects_of J ev now wall s) \<longrightarrow>
        ev = Command Redial \<or>
        (\<exists>up ip. ev = LinkSampled up ip \<and> su_sample_in_flight s \<and>
           (su_step_pending s \<or> su_eth_link s = Some False \<and> next_link up s \<noteq> Some False)))
   \<and> (RequestRedial \<in> set (effects_of J ev now wall s) \<longrightarrow>
        (\<exists>es. effects_of J ev now wall s = es @ [RequestRedial, StepWatchdog]))"
proof (cases rule: step_cases [of J ev now wall s])
  case silent
  then show ?thesis by simp
next
  case (started s')
  then have "effects_of J ev now wall s = snd (handle_started now wall s)" by (metis snd_conv)
  then show ?thesis by (simp add: handle_started_def Let_def)
next
  case (running s')
  then have e: "effects_of J ev now wall s = snd (handle_event J ev now wall s)" by simp
  have none: "StepWatchdog \<notin> set (snd (handle_event J ev now wall s))
      \<and> RequestRedial \<notin> set (snd (handle_event J ev now wall s))"
    if "\<forall>c. ev \<noteq> Command c" "\<forall>up ip. ev \<noteq> LinkSampled up ip"
  proof (cases ev)
    case (WirelessSampled sm)
    have m: "StepWatchdog \<notin> set (update_metric v)" "RequestRedial \<notin> set (update_metric v)" for v
      by (simp_all add: update_metric_def Let_def split: option.splits)
    have a: "StepWatchdog \<notin> set e \<and> RequestRedial \<notin> set e"
      if "handle_action a t wall u = (go, v, e)" for a t u go v e
      using that by (cases a) (auto simp: act_portal_auth_def act_probe_def
          split: option.splits if_splits)
    show ?thesis
      by (cases rule: handle_wireless_sampled_cases [of s sm now wall])
         (auto simp: WirelessSampled handle_event_def m dest: a)
  qed (use that in \<open>auto simp: handler_defs case_prod_beta maybe_notify_def
        split: option.splits session_status.splits heartbeat_status.splits\<close>)
  show ?thesis
  proof (cases ev)
    case (Command c)
    with e have "effects_of J ev now wall s = snd (handle_command c wall s)"
      by (simp add: handle_event_def)
    with Command show ?thesis by (cases c) (simp_all add: Let_def)
  next
    case (LinkSampled up ip)
    with e have "effects_of J ev now wall s = snd (handle_link_sampled up ip now wall s)"
      by (simp add: handle_event_def)
    with LinkSampled show ?thesis
      by (auto simp: handle_link_sampled_def Let_def log_event_def next_link_def)
  qed (use none e in \<open>simp_all add: count_list_0_iff\<close>)
qed

text \<open>
  The cable. A known link state is never forgotten: an unreadable sample leaves it.
  When a sample reports the cable back after it was out, the reaction tells the watchdog, requests a
  redial and steps at once; when it reports it out, the watchdog is told and is not made to redial.
\<close>

theorem link_changes:
  assumes "su_started s" "\<not> su_stopped s" "su_sample_in_flight s" "su_link_sample_seen s"
    and "su_eth_link s = Some old"
  shows "su_eth_link (step J (LinkSampled up ip) now wall s) = Some (case up of Some u \<Rightarrow> u | None \<Rightarrow> old)
    \<and> effects_of J (LinkSampled up ip) now wall s =
        (case up of
           Some new \<Rightarrow> if new \<noteq> old then [SetWatchdogLink (Some new)] else []
         | None \<Rightarrow> [])
        @ (if up = Some True \<and> \<not> old then [RequestRedial, StepWatchdog]
           else if su_step_pending s then [StepWatchdog] else [])"
proof -
  have "handle_event J (LinkSampled up ip) now wall s = handle_link_sampled up ip now wall s"
    by (simp add: handle_event_def)
  then show ?thesis using assms
    by (cases up; cases old)
       (auto simp: step_dispatch effects_of_dispatch dispatch_def handle_link_sampled_def
         next_link_def option_or_def Let_def log_event_def case_prod_beta)
qed

lemma link_demo_state:
  "su_started ((supervisor_new wired_only)\<lparr>su_started := True, su_sample_in_flight := True,
     su_link_sample_seen := True, su_eth_link := Some False\<rparr>)"
  "\<not> su_stopped ((supervisor_new wired_only)\<lparr>su_started := True, su_sample_in_flight := True,
     su_link_sample_seen := True, su_eth_link := Some False\<rparr>)"
  by (simp_all add: supervisor_new_def supervisor_init_def wired_only_def)

theorem link_changes_witness:
  "effects_of demo_json (LinkSampled (Some True) None) 9 0 ((supervisor_new wired_only)
      \<lparr>su_started := True, su_sample_in_flight := True, su_link_sample_seen := True, su_eth_link := Some False\<rparr>)
   = [SetWatchdogLink (Some True), RequestRedial, StepWatchdog]"
  using link_changes [OF link_demo_state, of False demo_json "Some True" None 9 0] by simp

theorem watchdog_step_triggers_witness:
  "\<exists>es. effects_of demo_json (LinkSampled (Some True) None) 9 0 ((supervisor_new wired_only)
      \<lparr>su_started := True, su_sample_in_flight := True, su_link_sample_seen := True, su_eth_link := Some False\<rparr>)
   = es @ [RequestRedial, StepWatchdog]"
proof -
  let ?s = "(supervisor_new wired_only)\<lparr>su_started := True, su_sample_in_flight := True,
     su_link_sample_seen := True, su_eth_link := Some False\<rparr>"
  have "RequestRedial \<in> set (effects_of demo_json (LinkSampled (Some True) None) 9 0 ?s)"
    using link_demo_state
    by (simp add: effects_of_dispatch dispatch_def handle_event_def handle_link_sampled_def
        next_link_def option_or_def Let_def log_event_def case_prod_beta)
  then show ?thesis
    using watchdog_step_triggers [of demo_json "LinkSampled (Some True) None" 9 0 ?s] by blast
qed

section \<open>Logins and probes of the takeover\<close>

lemma update_metric_no_auth [simp]:
  "PortalAuth src t \<notin> set (update_metric s)" "WlanProbe src g u \<notin> set (update_metric s)"
  "Associate p \<notin> set (update_metric s)" "Disassociate \<notin> set (update_metric s)"
  "TeardownRoutes \<notin> set (update_metric s)"
  by (simp_all add: update_metric_def Let_def split: option.splits)

lemma auth_only_from_sample:
  "PortalAuth src t \<in> set (snd (handle_event J ev now wall s)) \<Longrightarrow> \<exists>sm. ev = WirelessSampled sm"
proof (cases ev)
  case (Command c)
  then show "PortalAuth src t \<in> set (snd (handle_event J ev now wall s)) \<Longrightarrow> ?thesis"
    by (cases c) (simp_all add: handle_event_def Let_def)
qed (auto simp: handler_defs case_prod_beta maybe_notify_def
        split: option.splits session_status.splits heartbeat_status.splits if_splits)

text \<open>
  Every portal login asked for is preceded, in the same reaction, by the acquisition of
  the wireless egress for the gateway and interface of the very sample that led to it and by the
  three seconds the routes need to take effect, and it is bound to the source address of that sample.
\<close>

theorem login_after_egress:
  assumes "PortalAuth src t \<in> set (effects_of J ev now wall s)"
  shows "\<exists>sm wlan gw rest. ev = WirelessSampled sm \<and> wsm_wlan sm = Some wlan
    \<and> wl_ipv4 wlan = src \<and> wl_gateway wlan = Some gw \<and> t = from_secs 32
    \<and> effects_of J ev now wall s =
        [AcquireWirelessEgress \<lparr>ep_gateway = gw, ep_ifindex = wl_ifindex wlan\<rparr>,
         Settle (from_secs 3), PortalAuth src t] @ rest"
proof (cases rule: step_cases [of J ev now wall s])
  case silent
  with assms show ?thesis by simp
next
  case (started s')
  then have "effects_of J ev now wall s = snd (handle_started now wall s)" by (metis snd_conv)
  with assms show ?thesis by (auto simp: handle_started_def Let_def split: if_splits)
next
  case (running s')
  then have e: "effects_of J ev now wall s = snd (handle_event J ev now wall s)" by simp
  with assms obtain sm where sm: "ev = WirelessSampled sm" using auth_only_from_sample by metis
  with e have e': "effects_of J ev now wall s = snd (handle_wireless_sampled sm now wall s)"
    by (simp add: handle_event_def)
  show ?thesis
  proof (cases rule: handle_wireless_sampled_cases [of s sm now wall])
    case (decided b a u go v es)
    from assms e' decided(5) have "PortalAuth src t \<in> set es" by (auto split: if_splits)
    with decided(4) sampled_state_fields(3) [OF decided(3)] obtain wlan gw where
      "wsm_wlan sm = Some wlan" "wl_ipv4 wlan = src" "wl_gateway wlan = Some gw" "t = from_secs 32" "go"
      "es = [AcquireWirelessEgress \<lparr>ep_gateway = gw, ep_ifindex = wl_ifindex wlan\<rparr>,
         Settle (from_secs 3), PortalAuth src t]"
      by (cases a) (auto simp: act_portal_auth_def act_probe_def portal_auth_timeout_def
          login_timeout_def route_settle_def split: option.splits if_splits
          dest!: sym [of "Some _" "wsm_wlan sm"])
    with sm e' decided(5) show ?thesis by auto
  qed (use assms e' in simp_all)
qed

definition wireless_on :: supervisor where
  "wireless_on = (supervisor_new config_default)\<lparr>su_started := True, su_wireless_sample_in_flight := True,
     su_brain := Some ((brain_new WiredExclusive 8 10 30)\<lparr>br_phase := WJoining\<rparr>)\<rparr>"

definition wlan_up :: wireless_sample where
  "wlan_up = \<lparr>wsm_associated = True, wsm_wlan = Some \<lparr>wl_ipv4 = Ipv4 172 16 5 9,
     wl_gateway = Some (Ipv4 172 16 0 1), wl_ifindex = 15\<rparr>\<rparr>"

lemma default_targets:
  "parse_http_probe_target default_portal_url = Some (Ipv4 10 0 3 2, ''10.0.3.2:801'')"
  "parse_ipv4 default_probe_host = Some (Ipv4 223 5 5 5)"
  by (simp_all add: parse_http_probe_target_def parse_url_def default_portal_url_def
      default_probe_host_def strip_prefix_def rsplit_once_def parse_ipv4_def parse_octet_def
      is_digit_def digits_val_def digit_val_def parse_uint_def dec.simps digit_def char_of_def
      bit_Suc_0_iff)

lemma wireless_on_fields:
  "su_started wireless_on" "\<not> su_stopped wireless_on" "su_wireless_sample_in_flight wireless_on"
  "su_brain wireless_on = Some ((brain_new WiredExclusive 8 10 30)\<lparr>br_phase := WJoining\<rparr>)"
  "su_mode wireless_on = WiredExclusive" "su_auth_in_flight wireless_on = False"
  "su_portal_ip wireless_on \<noteq> None" "su_probe_ip wireless_on \<noteq> None"
  "su_eth_link wireless_on = None" "su_verdict wireless_on = None"
  "sv_status (su_session wireless_on) = SIdle"
  "wc_standby_metric (cf_wireless (su_cfg wireless_on)) = 100" "su_join_since_ms wireless_on = None"
  using default_targets
  by (simp_all add: wireless_on_def supervisor_new_def supervisor_init_def config_default_def
      wireless_default_def default_true_def default_standby_metric_def Let_def)

theorem login_after_egress_witness:
  "\<exists>rest. effects_of demo_json (WirelessSampled wlan_up) 9000 0 wireless_on =
     [AcquireWirelessEgress \<lparr>ep_gateway = Ipv4 172 16 0 1, ep_ifindex = 15\<rparr>, Settle (from_secs 3),
      PortalAuth (Ipv4 172 16 5 9) (from_secs 32)] @ rest"
proof -
  have "PortalAuth (Ipv4 172 16 5 9) (from_secs 32)
      \<in> set (effects_of demo_json (WirelessSampled wlan_up) 9000 0 wireless_on)"
    using wireless_on_fields
    by (simp add: effects_of_dispatch dispatch_def handle_event_def handle_wireless_sampled_def
        world_of_def set_mode_def decide_def decide_unhealthy_def keep_wireless_def start_auth_def
        wired_healthy_def wlan_up_def act_portal_auth_def portal_auth_timeout_def login_timeout_def
        brain_new_def Let_def case_prod_beta)
  from login_after_egress [OF this] show ?thesis by (auto simp: wlan_up_def)
qed

definition standby_cfg :: config where
  "standby_cfg = config_default\<lparr>cf_wireless := wireless_default\<lparr>wc_mode := WiredPlusStandby\<rparr>\<rparr>"

lemma standby_new:
  "supervisor_new standby_cfg = (supervisor_init standby_cfg)
     \<lparr>su_brain := Some (brain_new WiredPlusStandby 8 10 30),
      su_portal_ip := Some (Ipv4 10 0 3 2), su_probe_ip := Some (Ipv4 223 5 5 5)\<rparr>"
  using default_targets
  by (simp add: supervisor_new_def supervisor_init_def standby_cfg_def config_default_def
      wireless_default_def default_true_def default_takeover_after_def default_release_after_def
      dial_default_def Let_def)

lemma standby_mode: "wc_mode (cf_wireless standby_cfg) = WiredPlusStandby"
  by (simp add: standby_cfg_def)

lemma run_standby: "map_option br_phase (su_brain (run demo_json [(Started, 0, 0), (WirelessSampled wlan_up, 0, 0), (Wake, 2000, 0),
     (WirelessSampled wlan_up, 2000, 0)] (supervisor_new standby_cfg))) = Some WAuthing"
proof -
  define s0 where "s0 = supervisor_new standby_cfg"
  have f0: "\<not> su_started s0" "\<not> su_stopped s0" "su_brain s0 = Some (brain_new WiredPlusStandby 8 10 30)" 
    "su_mode s0 = WiredPlusStandby" "su_portal_ip s0 \<noteq> None" "su_probe_ip s0 \<noteq> None" 
    "\<not> su_associate_in_flight s0" "\<not> su_auth_in_flight s0" "su_join_since_ms s0 = None" "su_verdict s0 = None"
    by (simp_all add: s0_def standby_new supervisor_init_def standby_mode)
  define s1 where "s1 = step demo_json Started 0 0 s0"
  have f1: "su_started s1" "\<not> su_stopped s1" "su_brain s1 = Some (brain_new WiredPlusStandby 8 10 30)" 
    "su_mode s1 = WiredPlusStandby" "su_portal_ip s1 \<noteq> None" "su_probe_ip s1 \<noteq> None" "su_wireless_sample_in_flight s1" "su_wireless_tick_at s1 = 2000"
    "\<not> su_associate_in_flight s1" "\<not> su_auth_in_flight s1" "su_join_since_ms s1 = None" "su_verdict s1 = None"
    using f0 by (simp_all add: s1_def step_dispatch dispatch_def handle_started_def log_event_def Let_def case_prod_beta wireless_tick_ms_def)
  define s2 where "s2 = step demo_json (WirelessSampled wlan_up) 0 0 s1"
  have f2: "su_started s2" "\<not> su_stopped s2" "su_brain s2 = Some ((brain_new WiredPlusStandby 8 10 30)\<lparr>br_phase := WJoining\<rparr>)" 
    "su_mode s2 = WiredPlusStandby" "su_portal_ip s2 \<noteq> None" "su_probe_ip s2 \<noteq> None" "\<not> su_wireless_sample_in_flight s2" "su_wireless_tick_at s2 = 2000"
    "\<not> su_auth_in_flight s2" "su_join_since_ms s2 = None" "su_verdict s2 = None"
    using f1 by (simp_all add: s2_def step_dispatch dispatch_def handle_event_def handle_wireless_sampled_def log_event_def Let_def case_prod_beta
       decide_def keep_wireless_def start_join_def check_join_timeout_def join_timed_out_def brain_new_def set_mode_def)
  define s3 where "s3 = step demo_json Wake 2000 0 s2"
  have f3: "su_started s3" "\<not> su_stopped s3" "su_brain s3 = Some ((brain_new WiredPlusStandby 8 10 30)\<lparr>br_phase := WJoining\<rparr>)" 
    "su_mode s3 = WiredPlusStandby" "su_portal_ip s3 \<noteq> None" "su_probe_ip s3 \<noteq> None" "su_wireless_sample_in_flight s3" 
    "\<not> su_auth_in_flight s3" "su_join_since_ms s3 = None" "su_verdict s3 = None"
    using f2 by (simp_all add: s3_def step_dispatch dispatch_def handle_event_def handle_wake_def wake_wired_def wake_wireless_def Let_def case_prod_beta
      split: option.splits)
  have "map_option br_phase (su_brain (step demo_json (WirelessSampled wlan_up) 2000 0 s3)) = Some WAuthing"
    using f3 by (simp add: step_dispatch dispatch_def handle_event_def handle_wireless_sampled_def log_event_def Let_def case_prod_beta
       decide_def keep_wireless_def start_auth_def act_portal_auth_def check_join_timeout_def join_timed_out_def brain_new_def set_mode_def wlan_up_def world_of_def)
  then show ?thesis by (simp add: s3_def s2_def s1_def s0_def)
qed
text \<open>
  Over any run, while the brain waits for a login the runtime has been asked for one
  and has not answered yet, so the authenticating phase always has an answer to come (or the death of
  the worker, which ends the brain): it cannot be stuck.
\<close>

theorem authenticating_has_login_in_flight:
  assumes "su_brain (run J es (supervisor_new cfg)) = Some b" and "br_phase b = WAuthing"
  shows "su_auth_in_flight (run J es (supervisor_new cfg))"
  using sup_inv_run [OF sup_inv_new, of J es cfg] assms by (simp add: sup_inv_def brain_ok_def)

theorem authenticating_has_login_in_flight_witness:
  "su_auth_in_flight (run demo_json [(Started, 0, 0), (WirelessSampled wlan_up, 0, 0), (Wake, 2000, 0),
     (WirelessSampled wlan_up, 2000, 0)] (supervisor_new standby_cfg))"
proof -
  from run_standby obtain b where b: "su_brain (run demo_json [(Started, 0, 0),
      (WirelessSampled wlan_up, 0, 0), (Wake, 2000, 0), (WirelessSampled wlan_up, 2000, 0)]
      (supervisor_new standby_cfg)) = Some b" "br_phase b = WAuthing"
    by (simp only: map_option_eq_Some) blast
  show ?thesis by (rule authenticating_has_login_in_flight [OF b])
qed

end
