(* ===== verification/Supervisor_Life.thy ===== *)
theory Supervisor_Life
  imports Supervisor_Props
begin

text \<open>
  Life cycle, mode, notifications and probe verdicts of the supervisor.
\<close>

section \<open>Life cycle\<close>

text \<open>
  Before the start event and after the stop event the supervisor does nothing at all:
  no effect, no snapshot, no timer, no change of state. The reaction to the stop hangs the wired
  session up and, exactly when a takeover brain exists, tears the wireless routes down and leaves the
  WLAN, in this order.
\<close>

theorem stop_tears_down_and_silences:
  assumes "su_started s" "\<not> su_stopped s" "brain_ok s"
  shows "effects_of J Stop now wall s =
      (if su_brain s = None then [Hangup] else [Hangup, TeardownRoutes, Disassociate])
    \<and> su_stopped (step J Stop now wall s)
    \<and> on J ev now' wall' (step J Stop now wall s)
        = (step J Stop now wall s, \<lparr>re_effects = [], re_snapshot = None, re_wake_at = None\<rparr>)
    \<and> (ev \<noteq> Started \<longrightarrow> on J ev now' wall' (supervisor_new cfg)
        = (supervisor_new cfg, \<lparr>re_effects = [], re_snapshot = None, re_wake_at = None\<rparr>))"
proof -
  have e: "effects_of J Stop now wall s =
      (if su_brain s = None then [Hangup] else [Hangup, TeardownRoutes, Disassociate])"
    using assms by (cases "su_brain s") (auto simp: effects_of_dispatch dispatch_def handle_event_def
        handle_stop_def brain_ok_def Let_def)
  have st: "su_stopped (step J Stop now wall s)" "su_started (step J Stop now wall s)"
    using assms handle_event_lifecycle [of J Stop now wall s]
    by (simp_all add: step_dispatch dispatch_def case_prod_beta)
  then have "on J ev now' wall' (step J Stop now wall s)
        = (step J Stop now wall s, \<lparr>re_effects = [], re_snapshot = None, re_wake_at = None\<rparr>)"
    by (simp add: on_def dispatch_def)
  moreover have "\<not> su_started (supervisor_new cfg)"
    by (simp add: supervisor_new_def supervisor_init_def Let_def split: option.splits)
  ultimately show ?thesis using e st by (simp add: on_def dispatch_def)
qed

theorem stop_tears_down_and_silences_witness:
  "effects_of demo_json Stop 7 0 (step demo_json Started 5 0 (supervisor_new wired_only)) = [Hangup]"
proof -
  let ?s = "step demo_json Started 5 0 (supervisor_new wired_only)"
  have "sup_inv ?s" by (intro sup_inv_step sup_inv_new)
  then have b: "brain_ok ?s" by (simp add: sup_inv_def)
  have "su_started ?s" "\<not> su_stopped ?s" "su_brain ?s = None"
    using wired_only_brain
    by (simp_all add: step_dispatch dispatch_def handle_started_def supervisor_new_def
        supervisor_init_def wired_only_def log_event_def Let_def)
  with stop_tears_down_and_silences [OF this(1,2) b, of demo_json 7 0 Wake 0 0 wired_only]
  show ?thesis by simp
qed

section \<open>Mode\<close>

fun set_modes :: "stamped list \<Rightarrow> net_mode list" where
  "set_modes [] = []"
| "set_modes ((Command (SetMode m), _, _) # es) = m # set_modes es"
| "set_modes (_ # es) = set_modes es"

fun persisted :: "effect list \<Rightarrow> net_mode list" where
  "persisted [] = []"
| "persisted (PersistMode m # es) = m # persisted es"
| "persisted (_ # es) = persisted es"

lemma persisted_append [simp]: "persisted (a @ b) = persisted a @ persisted b"
  by (induction a rule: persisted.induct) auto

lemma persisted_none: "(\<And>m. PersistMode m \<notin> set es) \<Longrightarrow> persisted es = []"
  by (induction es rule: persisted.induct) auto

lemma handle_event_mode:
  "persisted (snd (handle_event J ev now wall s)) = (case ev of Command (SetMode m) \<Rightarrow> [m] | _ \<Rightarrow> [])
   \<and> su_mode (fst (handle_event J ev now wall s)) =
       (case ev of Command (SetMode m) \<Rightarrow> m | _ \<Rightarrow> su_mode s)"
proof (cases ev)
  case (Command c)
  then show ?thesis by (cases c) (simp_all add: handle_event_def Let_def log_event_def)
next
  case (WirelessSampled sm)
  have m: "persisted (update_metric v) = []" for v
    by (rule persisted_none) (simp add: update_metric_def Let_def split: option.splits)
  have a: "persisted e = []" if "handle_action a t wall u = (go, v, e)" for a t u go v e
    using that by (cases a) (auto simp: act_portal_auth_def act_probe_def split: option.splits if_splits)
  have "persisted (snd (handle_wireless_sampled sm now wall s)) = []"
    by (cases rule: handle_wireless_sampled_cases [of s sm now wall]) (auto simp: m dest: a)
  then show ?thesis by (simp add: WirelessSampled handle_event_def)
qed (simp_all add: handler_defs case_prod_beta maybe_notify_def
    split: option.splits session_status.splits heartbeat_status.splits)

lemma running_step:
  assumes "su_started s" "\<not> su_stopped s"
  shows "effects_of J ev now wall s = snd (handle_event J ev now wall s)"
    and "step J ev now wall s = (fst (handle_event J ev now wall s))
       \<lparr>su_last_snapshot := Some (compose (fst (handle_event J ev now wall s)))\<rparr>"
  using assms by (simp_all add: effects_of_dispatch step_dispatch dispatch_def case_prod_beta)

lemma modes_run:
  "su_started s \<Longrightarrow> \<not> su_stopped s \<Longrightarrow> \<forall>(ev, _, _) \<in> set es. ev \<noteq> Stop \<Longrightarrow>
     persisted (emitted J es s) = set_modes es \<and> su_mode (run J es s) = last (su_mode s # set_modes es)"
proof (induction J es s rule: run.induct)
  case (1 J s)
  then show ?case by simp
next
  case (2 J ev now wall es s)
  have st: "su_started (step J ev now wall s)" "\<not> su_stopped (step J ev now wall s)"
    using 2(2-4) handle_event_lifecycle [of J ev now wall s] by (simp_all add: running_step)
  from "2.IH" [OF st] 2(2-4) handle_event_mode [of J ev now wall s] show ?case
    by (cases ev; (rule command.exhaust, assumption)?)
       (auto simp: running_step split: command.splits)
qed

text \<open>
  The network mode is the last one commanded: while the service runs, the modes it
  asks to persist are exactly the modes commanded, in order, the current mode is the last of them (the
  configured one before the first), and the takeover brain, while there is one, is in that mode.
\<close>

theorem mode_follows_commands:
  assumes "su_started (run J es0 (supervisor_new cfg))" "\<not> su_stopped (run J es0 (supervisor_new cfg))"
    and "\<forall>(ev, _, _) \<in> set es. ev \<noteq> Stop"
  shows "persisted (emitted J es (run J es0 (supervisor_new cfg))) = set_modes es
    \<and> su_mode (run J (es0 @ es) (supervisor_new cfg))
        = last (su_mode (run J es0 (supervisor_new cfg)) # set_modes es)
    \<and> (\<forall>b. su_brain (run J (es0 @ es) (supervisor_new cfg)) = Some b \<longrightarrow>
         br_mode b = su_mode (run J (es0 @ es) (supervisor_new cfg)))"
  using modes_run [OF assms, of J] sup_inv_run [OF sup_inv_new, of J "es0 @ es" cfg]
  by (auto simp: sup_inv_def brain_ok_def)

theorem mode_follows_commands_witness:
  "persisted (emitted demo_json [(Command (SetMode WiredPlusStandby), 1, 0)]
     (run demo_json [(Started, 0, 0)] (supervisor_new wired_only))) = [WiredPlusStandby]"
proof -
  have "su_started (run demo_json [(Started, 0, 0)] (supervisor_new wired_only))"
    "\<not> su_stopped (run demo_json [(Started, 0, 0)] (supervisor_new wired_only))"
    by (simp_all add: step_dispatch dispatch_def handle_started_def supervisor_new_def
        supervisor_init_def wired_only_def log_event_def Let_def)
  from mode_follows_commands [OF this, of "[(Command (SetMode WiredPlusStandby), 1, 0)]"]
  show ?thesis by simp
qed

section \<open>Notifications\<close>

fun failing :: "session_status \<Rightarrow> bool" where
  "failing SBackoff = True"
| "failing SAuthFail = True"
| "failing _ = False"

text \<open>When the present unbroken series of failing watchdog steps began; idle and dialing reports do
  not break it, a connected one does.\<close>

fun failing_from :: "stamped list \<Rightarrow> u64 option \<Rightarrow> u64 option" where
  "failing_from [] f = f"
| "failing_from ((WatchdogStepped st, now, _) # es) f =
     failing_from es (if failing (sv_status (st_session st)) then Some (get_or_insert f now)
       else if sv_status (st_session st) = SConnected then None else f)"
| "failing_from (_ # es) f = failing_from es f"

lemma handle_action_failing:
  "handle_action a t wall u = (go, v, e) \<Longrightarrow> su_failing_since_ms v = su_failing_since_ms u"
  by (cases a) (auto simp: act_portal_auth_def act_probe_def auth_impossible_def brain_on_auth_def
      log_event_def split: option.splits if_splits)

lemma handle_event_failing:
  "su_failing_since_ms (fst (handle_event J ev now wall s)) = failing_from [(ev, now, wall)] (su_failing_since_ms s)"
proof (cases ev)
  case (Command c)
  then show ?thesis by (cases c) (simp_all add: handle_event_def Let_def log_event_def)
next
  case (WirelessSampled sm)
  have u: "su_failing_since_ms u = su_failing_since_ms s" if "sampled_state sm now s b = (a, u)" for a u b
    using that by (auto simp: sampled_state_def Let_def case_prod_beta)
  have "su_failing_since_ms (fst (handle_wireless_sampled sm now wall s)) = su_failing_since_ms s"
  proof (cases rule: handle_wireless_sampled_cases [of s sm now wall])
    case (decided b a x go v e)
    with u [OF decided(3)] handle_action_failing [OF decided(4)] show ?thesis
      by (simp add: check_join_timeout_def log_event_def)
  qed simp_all
  then show ?thesis by (simp add: WirelessSampled handle_event_def)
qed (simp_all add: handler_defs case_prod_beta
    split: option.splits session_status.splits heartbeat_status.splits)

lemma running_run:
  "su_started s \<Longrightarrow> \<not> su_stopped s \<Longrightarrow> \<forall>(ev, _, _) \<in> set es. ev \<noteq> Stop \<Longrightarrow>
     su_started (run J es s) \<and> \<not> su_stopped (run J es s)"
proof (induction J es s rule: run.induct)
  case (2 J ev now wall es s)
  have "su_started (step J ev now wall s)" "\<not> su_stopped (step J ev now wall s)"
    using 2(2-4) handle_event_lifecycle [of J ev now wall s] by (simp_all add: running_step)
  with "2.IH" 2(4) show ?case by simp
qed simp

lemma failing_run:
  "su_started s \<Longrightarrow> \<not> su_stopped s \<Longrightarrow> \<forall>(ev, _, _) \<in> set es. ev \<noteq> Stop \<Longrightarrow>
     su_failing_since_ms (run J es s) = failing_from es (su_failing_since_ms s)"
proof (induction J es s rule: run.induct)
  case (1 J s)
  then show ?case by simp
next
  case (2 J ev now wall es s)
  have st: "su_started (step J ev now wall s)" "\<not> su_stopped (step J ev now wall s)"
    using 2(2-4) handle_event_lifecycle [of J ev now wall s] by (simp_all add: running_step)
  from "2.IH" [OF st] 2(2-4) handle_event_failing [of J ev now wall s] show ?case
    by (cases ev) (auto simp: running_step)
qed

lemma maybe_notify_emits:
  "Notify k t b \<in> set (snd (maybe_notify k' t' b' now l)) \<longleftrightarrow>
     k = k' \<and> t = t' \<and> b = b' \<and> k \<notin> set (nl_in_flight l) \<and> \<not> throttled l k now"
  by (auto simp: maybe_notify_def)

lemma update_metric_no_notify: "Notify k t b \<notin> set (update_metric s)"
  by (simp add: update_metric_def Let_def split: option.splits)

lemma notify_sources:
  assumes "Notify k t b \<in> set (snd (handle_event J ev now wall s))"
  shows "(k = RedialFailing \<and> (\<exists>st. ev = WatchdogStepped st))
       \<or> (k = HeartbeatError \<and> (\<exists>m. ev = Heartbeat (HbError m)))"
proof (cases ev)
  case (Command c)
  then show ?thesis using assms by (cases c) (simp_all add: handle_event_def Let_def)
next
  case (WirelessSampled sm)
  have "Notify k t b \<notin> set e" if "handle_action a x wall u = (go, v, e)" for a x u go v e
    using that by (cases a) (auto simp: act_portal_auth_def act_probe_def split: option.splits if_splits)
  then have "Notify k t b \<notin> set (snd (handle_wireless_sampled sm now wall s))"
    by (cases rule: handle_wireless_sampled_cases [of s sm now wall]) (auto simp: update_metric_no_notify)
  then show ?thesis using assms by (simp add: WirelessSampled handle_event_def)
qed (use assms in \<open>auto simp: handler_defs case_prod_beta maybe_notify_def
    split: option.splits session_status.splits heartbeat_status.splits if_splits\<close>)

text \<open>
  The user is told that the redial fails only when it does: over any run of a started
  service, the toast comes with a failing watchdog step, at least ten minutes after the beginning of
  an unbroken series of failing steps, and never while the cable is out or the dial is paused for it.
\<close>

theorem redial_toast_only_after_ten_minutes:
  assumes "su_started s" "\<not> su_stopped s" "su_failing_since_ms s = None"
    and "\<forall>(ev, _, _) \<in> set (es @ [(ev, now, wall)]). ev \<noteq> Stop"
    and "Notify RedialFailing t b \<in> set (effects_of J ev now wall (run J es s))"
  shows "\<exists>st since. ev = WatchdogStepped st \<and> failing (sv_status (st_session st))
    \<and> failing_from es None = Some since \<and> 10 * 60 * 1000 \<le> unat now - unat since
    \<and> su_eth_link (run J es s) \<noteq> Some False
    \<and> sv_last_drop_reason (st_session st) \<noteq> Some ''Ethernet link down''"
proof -
  let ?s = "run J es s"
  have e: "\<forall>(ev, _, _) \<in> set es. ev \<noteq> Stop" using assms(4) by auto
  have r: "su_started ?s" "\<not> su_stopped ?s" using running_run [OF assms(1,2) e] by auto
  have f: "su_failing_since_ms ?s = failing_from es None" using failing_run [OF assms(1,2) e] assms(3) by simp
  have n: "Notify RedialFailing t b \<in> set (snd (handle_event J ev now wall ?s))"
    using assms(5) r by (simp add: running_step)
  with notify_sources obtain st where st: "ev = WatchdogStepped st" by blast
  define u where "u = ?s\<lparr>su_session := st_session st, su_ppp_ip := st_ppp_ip st, su_step_pending := False,
      su_watchdog_deadline := Some (sat_add now (duration_ms (st_delay st)))\<rparr>"
  have u: "failing (sv_status (st_session st))"
    "Notify RedialFailing t b \<in> set (snd (session_failing now u))"
    using n st by (auto simp: handle_event_def handle_watchdog_stepped_def Let_def u_def [symmetric]
        split: session_status.splits) (simp_all add: u_def)
  then have c: "redial_failing_toast_after_ms \<le> sat_sub now (get_or_insert (failing_from es None) now)"
    "\<not> link_paused (u\<lparr>su_failing_since_ms := Some (get_or_insert (failing_from es None) now)\<rparr>)"
    using f by (auto simp: session_failing_def Let_def case_prod_beta u_def split: if_splits)
  from c(1) obtain since where since: "failing_from es None = Some since"
    by (cases "failing_from es None") (auto simp: get_or_insert_def redial_failing_toast_after_ms_def
        sat_sub_def)
  have "unat redial_failing_toast_after_ms \<le> unat (sat_sub now since)"
    using c(1) since by (simp add: get_or_insert_def word_le_nat_alt)
  then have "10 * 60 * 1000 \<le> unat now - unat since"
    by (simp add: unat_sat_sub redial_failing_toast_after_ms_def)
  with st u(1) since c(2) show ?thesis by (auto simp: link_paused_def u_def link_down_reason_def)
qed

definition backoff_step :: watchdog_step where
  "backoff_step = \<lparr>st_delay = from_secs 1, st_session = \<lparr>sv_status = SBackoff, sv_since_unix = None,
     sv_last_drop_reason = None, sv_redial_attempts = 3\<rparr>, st_ppp_ip = None\<rparr>"

theorem redial_toast_only_after_ten_minutes_witness:
  "failing_from [(WatchdogStepped backoff_step, 0, 0)] None = Some 0"
proof -
  let ?s = "step demo_json Started 0 0 (supervisor_new wired_only)"
  have s: "su_started ?s" "\<not> su_stopped ?s" "su_failing_since_ms ?s = None" "su_eth_link ?s = None"
    "su_notifications ?s = ledger_default"
    by (simp_all add: step_dispatch dispatch_def handle_started_def supervisor_new_def
        supervisor_init_def wired_only_def log_event_def Let_def)
  have n: "Notify RedialFailing redial_title (redial_failing_body 600000 3)
      \<in> set (effects_of demo_json (WatchdogStepped backoff_step) 600000 0
           (run demo_json [(WatchdogStepped backoff_step, 0, 0)] ?s))"
    using s by (simp add: effects_of_dispatch step_dispatch dispatch_def handle_event_def
        handle_watchdog_stepped_def session_failing_def backoff_step_def get_or_insert_def link_paused_def
        redial_failing_toast_after_ms_def sat_sub_def maybe_notify_def throttled_def ledger_default_def
        Let_def case_prod_beta)
  from redial_toast_only_after_ten_minutes [OF s(1-3) _ n] show ?thesis
    by (simp add: backoff_step_def get_or_insert_def)
qed

text \<open>The state of a toast that was delivered at \<open>t\<close>.\<close>

definition delivered :: "toast_key \<Rightarrow> u64 \<Rightarrow> ledger \<Rightarrow> bool" where
  "delivered k t l \<longleftrightarrow> k \<notin> set (nl_in_flight l) \<and> map_of (nl_delivered_at l) k = Some t"

lemma map_of_other: "k \<noteq> k' \<Longrightarrow> map_of (filter (\<lambda>(x, _). x \<noteq> k') xs) k = map_of xs k"
  by (induction xs) auto

lemma delivered_on_result: "delivered k t l \<Longrightarrow> delivered k t (on_result k' d now l)"
  by (cases "k = k'")
     (auto simp: delivered_def on_result_def Let_def map_of_other map_add_def split: if_splits
       dest: notin_set_remove1)

lemma delivered_maybe_notify:
  assumes "delivered k t l" "sat_sub now t < notify_throttle_ms"
  shows "delivered k t (fst (maybe_notify k' ti b now l))"
    and "Notify k ti' b' \<notin> set (snd (maybe_notify k' ti b now l))"
  using assms by (auto simp: delivered_def maybe_notify_def throttled_def)

lemma handle_event_delivered:
  assumes "delivered k t (su_notifications s)" "sat_sub now t < notify_throttle_ms"
  shows "delivered k t (su_notifications (fst (handle_event J ev now wall s)))"
    and "Notify k ti b \<notin> set (snd (handle_event J ev now wall s))"
proof -
  show "delivered k t (su_notifications (fst (handle_event J ev now wall s)))"
  proof (cases ev)
    case (WatchdogStepped st)
    then show ?thesis using assms
      by (auto simp: handle_event_def handle_watchdog_stepped_def session_failing_def Let_def
          case_prod_beta delivered_maybe_notify split: session_status.splits)
  next
    case (Heartbeat h)
    then show ?thesis using assms
      by (auto simp: handle_event_def handle_heartbeat_def Let_def case_prod_beta
          delivered_maybe_notify split: heartbeat_status.splits)
  next
    case (NotifyResult k' d)
    then show ?thesis using assms by (simp add: handle_event_def delivered_on_result)
  qed (use assms in \<open>simp_all add: handler_defs case_prod_beta split: option.splits\<close>)
  show "Notify k ti b \<notin> set (snd (handle_event J ev now wall s))"
  proof
    assume n: "Notify k ti b \<in> set (snd (handle_event J ev now wall s))"
    from notify_sources [OF n] show False
    proof (elim disjE conjE exE)
      fix st assume "ev = WatchdogStepped st"
      with n delivered_maybe_notify(2) [OF assms] show False
        by (auto simp: handle_event_def handle_watchdog_stepped_def session_failing_def Let_def
            case_prod_beta split: session_status.splits if_splits)
    next
      fix m assume "ev = Heartbeat (HbError m)"
      with n delivered_maybe_notify(2) [OF assms] show False
        by (auto simp: handle_event_def handle_heartbeat_def Let_def case_prod_beta)
    qed
  qed
qed

lemma delivered_run:
  "delivered k t (su_notifications s) \<Longrightarrow> su_started s \<Longrightarrow>
     \<forall>(_, now, _) \<in> set es. sat_sub now t < notify_throttle_ms \<Longrightarrow>
     Notify k ti b \<notin> set (emitted J es s)"
proof (induction J es s rule: run.induct)
  case (1 J s)
  then show ?case by simp
next
  case (2 J ev now wall es s)
  have n: "sat_sub now t < notify_throttle_ms" using 2(4) by simp
  show ?case
  proof (cases "su_stopped s")
    case True
    with 2(3) have "step J ev now wall s = s" "effects_of J ev now wall s = []"
      by (simp_all add: step_dispatch effects_of_dispatch dispatch_def)
    with 2 show ?thesis by simp
  next
    case False
    note r = running_step [OF 2(3) False, of J ev now wall]
    have "delivered k t (su_notifications (step J ev now wall s))" "su_started (step J ev now wall s)"
      using handle_event_delivered(1) [OF 2(2) n, of J ev wall] handle_event_lifecycle [of J ev now wall s]
        2(3) by (simp_all add: r)
    from "2.IH" [OF this] 2(4) handle_event_delivered(2) [OF 2(2) n, of ti b J ev wall] show ?thesis
      by (simp add: r)
  qed
qed

text \<open>
  Toasts are throttled: after a toast of a kind has been delivered, no event of any
  kind, in any number, makes the service show another one of that kind within thirty minutes.
\<close>

theorem toast_throttled_for_thirty_minutes:
  assumes "su_started s" "\<not> su_stopped s" "sup_inv s" "k \<in> set (nl_in_flight (su_notifications s))"
    and "\<forall>(_, now, _) \<in> set es. unat now - unat t < 30 * 60 * 1000"
  shows "Notify k title body \<notin> set (emitted J es (step J (NotifyResult k True) t wall s))"
proof -
  have l: "su_notifications (step J (NotifyResult k True) t wall s) = on_result k True t (su_notifications s)"
    "su_started (step J (NotifyResult k True) t wall s)"
    using assms(1,2) by (simp_all add: running_step handle_event_def)
  have f: "map_of (filter (\<lambda>(x, _). x \<noteq> k) xs @ [(k, t)]) k = Some t" for xs :: "(toast_key \<times> u64) list"
    by (induction xs) auto
  have "delivered k t (on_result k True t (su_notifications s))"
    using assms(3,4) f by (auto simp: delivered_def on_result_def Let_def sup_inv_def ledger_inv_def)
  moreover have "\<forall>(_, now, _) \<in> set es. sat_sub now t < notify_throttle_ms"
    using assms(5) by (auto simp: word_less_nat_alt unat_sat_sub notify_throttle_ms_def)
  ultimately show ?thesis
    using delivered_run [of k t "step J (NotifyResult k True) t wall s" es title body J] l by simp
qed

theorem toast_throttled_for_thirty_minutes_witness:
  "Notify HeartbeatError heartbeat_title ''Compatibility heartbeat error: x'' \<notin> set (emitted demo_json [(Heartbeat (HbError ''x''), 1000, 0)]
     (step demo_json (NotifyResult HeartbeatError True) 5 0
       (step demo_json (Heartbeat (HbError ''x'')) 1 0
         (step demo_json Started 0 0 (supervisor_new wired_only)))))"
proof (rule toast_throttled_for_thirty_minutes)
  let ?s = "step demo_json (Heartbeat (HbError ''x'')) 1 0
         (step demo_json Started 0 0 (supervisor_new wired_only))"
  show "sup_inv ?s" by (intro sup_inv_step sup_inv_new)
  have s: "su_started (step demo_json Started 0 0 (supervisor_new wired_only))"
    "\<not> su_stopped (step demo_json Started 0 0 (supervisor_new wired_only))"
    "su_notifications (step demo_json Started 0 0 (supervisor_new wired_only)) = ledger_default"
    by (simp_all add: step_dispatch dispatch_def handle_started_def supervisor_new_def
        supervisor_init_def wired_only_def log_event_def Let_def)
  then show "su_started ?s" "\<not> su_stopped ?s" "HeartbeatError \<in> set (nl_in_flight (su_notifications ?s))"
    by (simp_all add: running_step handle_event_def handle_heartbeat_def Let_def maybe_notify_def
        throttled_def ledger_default_def)
qed simp

section \<open>Probe verdicts\<close>

lemma handle_action_verdict:
  "handle_action a t wall u = (go, v, e) \<Longrightarrow> su_verdict v \<in> {su_verdict u, None}"
  by (cases a) (auto simp: act_portal_auth_def act_probe_def auth_impossible_def brain_on_auth_def
      log_event_def split: option.splits if_splits)

lemma handle_event_verdict:
  "su_verdict (fst (handle_event J ev now wall s)) \<in> {su_verdict s, None}
   \<or> (\<exists>v. ev = WlanProbeFinished v \<and> su_probe_in_flight s
        \<and> su_verdict (fst (handle_event J ev now wall s)) = Some v)"
proof (cases ev)
  case (WirelessSampled sm)
  have "su_verdict (fst (handle_wireless_sampled sm now wall s)) \<in> {su_verdict s, None}"
  proof (cases rule: handle_wireless_sampled_cases [of s sm now wall])
    case (decided b a u go v e)
    with sampled_state_fields(6) [OF decided(3)] handle_action_verdict [OF decided(4)] show ?thesis
      by auto
  qed simp_all
  then show ?thesis by (simp add: WirelessSampled handle_event_def)
qed (auto simp: handler_defs case_prod_beta
    split: option.splits session_status.splits heartbeat_status.splits)

text \<open>
  A probe verdict is never made up and never outlives a login: the cached verdict only
  becomes a value by the answer to the probe in flight, and the answer to a login clears it, so a
  kicked verdict triggers one login and not a loop of them.
\<close>

theorem verdict_provenance:
  assumes "su_verdict (step J ev now wall s) = Some v" and "su_started s" "\<not> su_stopped s"
  shows "(su_verdict s = Some v \<or> ev = WlanProbeFinished v \<and> su_probe_in_flight s)
    \<and> \<not> (\<exists>a. ev = PortalFinished a \<and> su_auth_in_flight s)"
proof
  have e: "su_verdict (fst (handle_event J ev now wall s)) = Some v"
    using assms by (simp add: running_step)
  with handle_event_verdict [of J ev now wall s]
  show "su_verdict s = Some v \<or> ev = WlanProbeFinished v \<and> su_probe_in_flight s" by auto
  show "\<not> (\<exists>a. ev = PortalFinished a \<and> su_auth_in_flight s)"
    using e by (auto simp: handle_event_def handle_portal_finished_def Let_def case_prod_beta)
qed

theorem verdict_provenance_witness:
  "su_verdict (step demo_json (WlanProbeFinished Kicked) 0 0 (wireless_on\<lparr>su_probe_in_flight := True\<rparr>)) = Some Kicked"
proof -
  have v: "su_verdict (step demo_json (WlanProbeFinished Kicked) 0 0 (wireless_on\<lparr>su_probe_in_flight := True\<rparr>))
      = Some Kicked"
    using wireless_on_fields by (simp add: running_step handle_event_def handle_probe_finished_def
        log_event_def Let_def)
  have "su_started (wireless_on\<lparr>su_probe_in_flight := True\<rparr>)"
    "\<not> su_stopped (wireless_on\<lparr>su_probe_in_flight := True\<rparr>)" using wireless_on_fields by simp_all
  from verdict_provenance [OF v this] v show ?thesis by simp
qed

section \<open>From the configuration to the brain\<close>

text \<open>
  A configuration that loads is one the service can run: the supervisor built from
  it has a takeover brain exactly when the wireless side is enabled, never by falling back on a bad
  address, and the brain has the configured mode and debounce times, which are at least one second.
\<close>

theorem loaded_config_gives_brain:
  assumes "config_load read from_toml path = Inr cfg"
  shows "su_brain (supervisor_new cfg) =
      (if wc_enabled (cf_wireless cfg)
       then Some (brain_new (wc_mode (cf_wireless cfg)) (wc_takeover_after_secs (cf_wireless cfg))
              (wc_release_after_secs (cf_wireless cfg)) (dc_probe_interval_secs (cf_dial cfg)))
       else None)
    \<and> 5 \<le> dc_probe_interval_secs (cf_dial cfg)
    \<and> (wc_enabled (cf_wireless cfg) \<longrightarrow>
         1 \<le> wc_takeover_after_secs (cf_wireless cfg) \<and> 1 \<le> wc_release_after_secs (cf_wireless cfg))"
  using config_load_valid [OF assms]
  by (auto simp: validate_Inr wireless_ok_def supervisor_new_def supervisor_init_def Let_def)

theorem loaded_config_gives_brain_witness:
  "su_brain (supervisor_new (standby_cfg\<lparr>cf_account := \<lparr>ac_student_id = ''31'', ac_password_blob = []\<rparr>\<rparr>))
     = Some (brain_new WiredPlusStandby 8 10 30)"
proof -
  let ?cfg = "standby_cfg\<lparr>cf_account := \<lparr>ac_student_id = ''31'', ac_password_blob = []\<rparr>\<rparr>"
  have t: "trim ''31'' \<noteq> []"
    by (simp add: trim_def trim_start.simps trim_end.simps ws_len_def ws_len_end_def is_ws_def Let_def upt_rec)
  have p: "parse_http_probe_target ''http://223.5.5.5'' \<noteq> None"
    by (simp add: parse_http_probe_target_def parse_url_def strip_prefix_def rsplit_once_def parse_ipv4_def
        parse_octet_def is_digit_def digits_val_def digit_val_def)
  have "validate ?cfg = Inr ()"
    using t p default_targets
    by (simp add: validate_Inr wireless_ok_def standby_cfg_def config_default_def wireless_default_def
        dial_default_def heartbeat_default_def default_takeover_after_def default_release_after_def
        default_standby_metric_def default_true_def)
  then have "config_load (\<lambda>_. Some []) (\<lambda>_. Some ?cfg) [] = Inr ?cfg" by (simp add: config_load_def)
  from loaded_config_gives_brain [OF this] show ?thesis
    by (simp add: standby_cfg_def config_default_def wireless_default_def dial_default_def
        default_takeover_after_def default_release_after_def default_true_def)
qed

section \<open>The join timer\<close>

text \<open>
  The time of the last finished association is cleared by a release, a join timeout and the death of
  the worker, but not when the takeover gets online. So a later loss of the address starts the next
  join with the timer of the previous one.
\<close>

text \<open>
  A takeover that has been online for more than a minute and loses its address is sent
  back to the off phase by the reaction that starts the new join: the reaction asks for the
  association and, because the timer of the old join has long expired, reports a join timeout at once.
\<close>

theorem rejoin_times_out_at_once:
  assumes "su_started s" "\<not> su_stopped s" "su_wireless_sample_in_flight s" "\<not> su_associate_in_flight s"
    and "su_brain s = Some b" "br_phase b = WOnline" "su_mode s = WiredPlusStandby"
    and "su_verdict s \<noteq> Some Kicked" "wsm_wlan sm = None"
    and "su_join_since_ms s = Some t" "60000 < unat now - unat t"
  shows "Associate (wc_profile (cf_wireless (su_cfg s))) \<in> set (effects_of J (WirelessSampled sm) now wall s)
    \<and> (\<exists>b'. su_brain (step J (WirelessSampled sm) now wall s) = Some b' \<and> br_phase b' = WOff)
    \<and> (\<exists>l. su_events (step J (WirelessSampled sm) now wall s)
          = event_push l wall ''Wireless: join timeout, restarting'')"
proof -
  have "unat (60000::u64) < unat (sat_sub now t)" using assms(11) by (simp add: unat_sat_sub)
  then have late: "60000 < sat_sub now t" by (simp only: word_less_nat_alt)
  show ?thesis using assms late
    by (auto simp: running_step handle_event_def handle_wireless_sampled_def world_of_def decide_def
        set_mode_def keep_wireless_def start_join_def check_join_timeout_def join_timed_out_def
        join_timeout_secs_def log_event_def brain_restart_def reset_off_def Let_def case_prod_beta)
qed

theorem rejoin_times_out_at_once_witness:
  "Associate ''gdut'' \<in> set (effects_of demo_json (WirelessSampled \<lparr>wsm_associated = False, wsm_wlan = None\<rparr>)
     200000 0 (wireless_on\<lparr>su_brain := Some ((brain_new WiredPlusStandby 8 10 30)\<lparr>br_phase := WOnline\<rparr>),
       su_mode := WiredPlusStandby, su_join_since_ms := Some 1000\<rparr>))"
proof -
  have "wc_profile (cf_wireless (su_cfg wireless_on)) = ''gdut''" "\<not> su_associate_in_flight wireless_on"
    using default_targets
    by (simp_all add: wireless_on_def supervisor_new_def supervisor_init_def config_default_def
        wireless_default_def default_wlan_profile_def default_true_def Let_def)
  then show ?thesis
    using rejoin_times_out_at_once [of "wireless_on\<lparr>su_brain := Some ((brain_new WiredPlusStandby 8 10 30)
       \<lparr>br_phase := WOnline\<rparr>), su_mode := WiredPlusStandby, su_join_since_ms := Some 1000\<rparr>"
       _ "\<lparr>wsm_associated = False, wsm_wlan = None\<rparr>" 1000 200000 demo_json 0] wireless_on_fields
    by simp
qed

end
