(* ===== verification/Ras.thy ===== *)
theory Ras
  imports Watchdog
begin

text \<open>
  \<open>src/src/ras.rs\<close>: entry, credentials, dial, status and hang-up over the RAS interface of Windows.
  The calls of that interface are the record \<open>ras_api\<close> over a system state \<open>'r\<close>; a connection
  handle is a natural number. Strings are UTF-8 bytes, and \<open>utf16\<close> is \<open>str::encode_utf16\<close>.
\<close>

unbundle bit_operations_syntax

section \<open>Wide strings\<close>

type_synonym wstr = "u16 list"

fun utf16_bytes :: "nat list \<Rightarrow> wstr" where
  "utf16_bytes [] = []"
| "utf16_bytes (a # s) =
     (if a < 128 then word_of_nat a # utf16_bytes s
      else (case s of [] \<Rightarrow> []
        | b # s1 \<Rightarrow> if a < 224 then word_of_nat (64 * (a - 192) + (b - 128)) # utf16_bytes s1
            else (case s1 of [] \<Rightarrow> []
              | c # s2 \<Rightarrow>
                  if a < 240
                  then word_of_nat (4096 * (a - 224) + 64 * (b - 128) + (c - 128)) # utf16_bytes s2
                  else (case s2 of [] \<Rightarrow> []
                    | d # s3 \<Rightarrow>
                        (let v = 262144 * (a - 240) + 4096 * (b - 128) + 64 * (c - 128) + (d - 128)
                               - 65536
                         in word_of_nat (55296 + v div 1024) # word_of_nat (56320 + v mod 1024)
                              # utf16_bytes s3)))))"

definition utf16 :: "string \<Rightarrow> wstr" where
  "utf16 s = utf16_bytes (map of_char s)"

text \<open>\<open>wide\<close>: a null-terminated buffer of length \<open>len\<close>; length zero panics.\<close>

definition wide :: "wstr \<Rightarrow> nat \<Rightarrow> wstr option" where
  "wide s len =
     (if len < 1 then None
      else Some (let b = take (len - 1) s in b @ replicate (len - length b) 0))"

definition entry_name_slice :: "wstr \<Rightarrow> wstr" where
  "entry_name_slice buf = takeWhile (\<lambda>c. c \<noteq> 0) buf"

text \<open>
  \<open>char::from_u32(x).unwrap_or('\0')\<close> and \<open>eq_ignore_ascii_case\<close>: a surrogate is no character and
  becomes the null character.
\<close>

definition code_point :: "u16 \<Rightarrow> nat" where
  "code_point x = (let n = unat x in if 55296 \<le> n \<and> n \<le> 57343 then 0 else n)"

definition lower_point :: "nat \<Rightarrow> nat" where
  "lower_point n = (if 65 \<le> n \<and> n \<le> 90 then n + 32 else n)"

definition pbk_eq_ci :: "wstr \<Rightarrow> wstr \<Rightarrow> bool" where
  "pbk_eq_ci a b =
     (let a = entry_name_slice a; b = entry_name_slice b
      in length a = length b \<and>
         list_all2 (\<lambda>x y. lower_point (code_point x) = lower_point (code_point y)) a b)"

fun has_infix :: "'a list \<Rightarrow> 'a list \<Rightarrow> bool" where
  "has_infix [] k \<longleftrightarrow> k = []"
| "has_infix (x # xs) k \<longleftrightarrow> take (length k) (x # xs) = k \<or> has_infix xs k"

section \<open>The RAS interface\<close>

record ras_row =
  rr_handle :: nat
  rr_entry :: wstr
  rr_phonebook :: wstr
  rr_device :: wstr

record dial_params =
  dp_entry :: wstr
  dp_user :: wstr
  dp_password :: wstr

record ras_entry =
  re_net_protocols :: u32
  re_require_encryption :: bool
  re_device_type :: wstr
  re_device_name :: wstr

datatype svc_state = SvStopped | SvRunning | SvOther

text \<open>
  \<open>ra_enum cap\<close>: return code, bytes asked for and the connections, each of \<open>ra_row_size\<close> bytes; \<open>ra_status\<close>: return code,
  whether the state is disconnected, and the error of the connection. \<open>rm_open\<close> to \<open>rm_start\<close> are the
  service manager calls on RasMan.
\<close>

record 'r ras_api =
  ra_set_entry :: "wstr \<Rightarrow> wstr \<Rightarrow> ras_entry \<Rightarrow> 'r \<Rightarrow> u32 \<times> 'r"
  ra_set_credentials :: "wstr \<Rightarrow> wstr \<Rightarrow> wstr \<Rightarrow> wstr \<Rightarrow> 'r \<Rightarrow> u32 \<times> 'r"
  ra_dial :: "wstr \<Rightarrow> dial_params \<Rightarrow> 'r \<Rightarrow> (u32 \<times> nat) \<times> 'r"
  ra_hangup :: "nat \<Rightarrow> 'r \<Rightarrow> u32 \<times> 'r"
  ra_row_size :: nat
  ra_enum :: "nat \<Rightarrow> 'r \<Rightarrow> u32 \<times> nat \<times> ras_row list"
  ra_status :: "nat \<Rightarrow> 'r \<Rightarrow> u32 \<times> bool \<times> u32"
  ra_error_text :: "u32 \<Rightarrow> string option"
  ra_detach_dns :: "string \<Rightarrow> 'r \<Rightarrow> 'r"
  ra_sleep :: "duration \<Rightarrow> 'r \<Rightarrow> 'r"
  rm_open :: "'r \<Rightarrow> string + unit"
  rm_query :: "'r \<Rightarrow> svc_state option"
  rm_stop :: "'r \<Rightarrow> 'r"
  rm_start :: "'r \<Rightarrow> (string + unit) \<times> 'r"

definition error_string :: "'r ras_api \<Rightarrow> u32 \<Rightarrow> string" where
  "error_string A code =
     (case ra_error_text A code of None \<Rightarrow> ''RAS error '' @ dec (unat code) | Some t \<Rightarrow> t)"

definition ras_err :: "'r ras_api \<Rightarrow> string \<Rightarrow> u32 \<Rightarrow> string" where
  "ras_err A what code =
     what @ '' failed: error '' @ dec (unat code) @ '' ('' @ error_string A code @ '')''"

text \<open>The buffer of a string with room for itself: \<open>wide(s, s.len() + 1)\<close>, with its length in bytes.\<close>

definition wide_own :: "string \<Rightarrow> wstr" where
  "wide_own s = the (wide (utf16 s) (length s + 1))"

definition wide_field :: "nat \<Rightarrow> string \<Rightarrow> wstr" where
  "wide_field len s = the (wide (utf16 s) len)"

definition net_protocols :: u32 where
  "net_protocols = 4 OR 8 OR 2 OR 1"

definition pppoe_entry :: ras_entry where
  "pppoe_entry = \<lparr>re_net_protocols = net_protocols, re_require_encryption = True,
     re_device_type = wide_field 17 ''PPPoE'', re_device_name = wide_field 129 ''WAN Miniport (PPPoE)''\<rparr>"

definition ensure_entry :: "'r ras_api \<Rightarrow> string \<Rightarrow> string \<Rightarrow> 'r \<Rightarrow> (string + unit) \<times> 'r" where
  "ensure_entry A pbk name r =
     (let (ret, r) = ra_set_entry A (wide_own pbk) (wide_own name) pppoe_entry r
      in if ret \<noteq> 0 then (if ret = 816 then (Inr (), r) else (Inl (ras_err A ''RasSetEntryPropertiesW'' ret), r))
         else (Inr (), r))"

definition set_credentials ::
  "'r ras_api \<Rightarrow> string \<Rightarrow> string \<Rightarrow> string \<Rightarrow> string \<Rightarrow> 'r \<Rightarrow> (string + unit) \<times> 'r" where
  "set_credentials A pbk name user pass r =
     (let (ret, r) = ra_set_credentials A (wide_own pbk) (wide_own name) (wide_field 257 user)
                       (wide_field 257 pass) r
      in if ret \<noteq> 0 then (Inl (ras_err A ''RasSetCredentialsW'' ret), r) else (Inr (), r))"

section \<open>Dialling\<close>

datatype ras_error = RasAuth | RasOther u32 string

definition dial_once ::
  "'r ras_api \<Rightarrow> string \<Rightarrow> string \<Rightarrow> string \<Rightarrow> string \<Rightarrow> 'r \<Rightarrow> (ras_error + nat) \<times> 'r" where
  "dial_once A pbk name user pass r =
     (let ((ret, h), r) = ra_dial A (wide_own pbk) \<lparr>dp_entry = wide_field 257 name,
              dp_user = wide_field 257 user, dp_password = wide_field 257 pass\<rparr> r
      in if ret \<noteq> 0
         then (Inl (case classify ret of AuthKind \<Rightarrow> RasAuth
                    | TransientKind \<Rightarrow> RasOther ret (error_string A ret)), r)
         else (Inr h, ra_detach_dns A name r))"

text \<open>
  The rows of the enumeration: a first call with four, a second with what the first asked for.
\<close>

definition enum_rows :: "'r ras_api \<Rightarrow> 'r \<Rightarrow> ras_row list option" where
  "enum_rows A r =
     (let (ret, size, rows) = ra_enum A 4 r;
          (ret, _, rows) = (if ret = 603 then ra_enum A (size div ra_row_size A + 1) r
                            else (ret, size, rows))
      in if ret \<noteq> 0 then None else Some rows)"

definition pppoe_text :: wstr where "pppoe_text = utf16 ''PPPoE''"
definition ppoe_text :: wstr where "ppoe_text = utf16 ''PPOE''"

definition is_pppoe_row :: "ras_row \<Rightarrow> bool" where
  "is_pppoe_row c = (let dev = entry_name_slice (rr_device c)
                     in has_infix dev pppoe_text \<or> has_infix dev ppoe_text)"

definition option_else :: "'a option \<Rightarrow> 'a option \<Rightarrow> 'a option" where
  "option_else a b = (case a of None \<Rightarrow> b | Some x \<Rightarrow> Some x)"

definition choose_row :: "wstr \<Rightarrow> wstr \<Rightarrow> ras_row list \<Rightarrow> ras_row option" where
  "choose_row pbk name rows =
     option_else (find (\<lambda>c. entry_name_slice (rr_entry c) = name \<and> pbk_eq_ci (rr_phonebook c) pbk) rows)
      (option_else (find (\<lambda>c. entry_name_slice (rr_entry c) = name) rows)
        (option_else (find is_pppoe_row rows) (case rows of [] \<Rightarrow> None | c # _ \<Rightarrow> Some c)))"

definition find_entry_connection :: "'r ras_api \<Rightarrow> string \<Rightarrow> string \<Rightarrow> 'r \<Rightarrow> nat option" where
  "find_entry_connection A pbk name r =
     (case enum_rows A r of None \<Rightarrow> None
      | Some rows \<Rightarrow> map_option rr_handle (choose_row (utf16 pbk) (utf16 name) rows))"

primrec hangup_loop ::
  "'r ras_api \<Rightarrow> string \<Rightarrow> string \<Rightarrow> nat \<Rightarrow> nat \<Rightarrow> 'r \<Rightarrow> nat \<times> 'r" where
  "hangup_loop A pbk name 0 count r = (count, r)"
| "hangup_loop A pbk name (Suc n) count r =
     (case find_entry_connection A pbk name r of
        None \<Rightarrow> (count, r)
      | Some h \<Rightarrow> hangup_loop A pbk name n (Suc count)
                   (ra_sleep A (400 * 10 ^ 6) (snd (ra_hangup A h r))))"

definition hangup_all_ppp :: "'r ras_api \<Rightarrow> string \<Rightarrow> string \<Rightarrow> 'r \<Rightarrow> nat \<times> 'r" where
  "hangup_all_ppp A pbk name r = hangup_loop A pbk name 4 0 r"

definition wedged :: "u32 \<Rightarrow> bool" where
  "wedged code \<longleftrightarrow> code = 756 \<or> code = 813"

definition ras_dial ::
  "'r ras_api \<Rightarrow> string \<Rightarrow> string \<Rightarrow> string \<Rightarrow> string \<Rightarrow> 'r \<Rightarrow> (ras_error + nat) \<times> 'r" where
  "ras_dial A pbk name user pass r =
     (case dial_once A pbk name user pass r of
        (Inl (RasOther code msg), r) \<Rightarrow>
          if wedged code
          then (let (hung, r) = hangup_all_ppp A pbk name r
                in dial_once A pbk name user pass (ra_sleep A (1500 * 10 ^ 6) r))
          else (Inl (RasOther code msg), r)
      | other \<Rightarrow> other)"

section \<open>The session\<close>

datatype conn_state = ConnConnected | ConnDisconnected

definition session_status_call :: "'r ras_api \<Rightarrow> nat \<Rightarrow> 'r \<Rightarrow> string + conn_state" where
  "session_status_call A h r =
     (let (ret, disconnected, err) = ra_status A h r
      in if ret = 668 then Inr ConnDisconnected
         else if ret \<noteq> 0 then Inl (ras_err A ''RasGetConnectStatusW'' ret)
         else if disconnected then Inr ConnDisconnected
         else if err \<noteq> 0 then Inl (ras_err A ''RasGetConnectStatusW'' err)
         else Inr ConnConnected)"

definition session_hangup :: "'r ras_api \<Rightarrow> nat \<Rightarrow> 'r \<Rightarrow> (string + unit) \<times> 'r" where
  "session_hangup A h r =
     (let (ret, r) = ra_hangup A h r
      in if ret \<noteq> 0 \<and> ret \<noteq> 668 then (Inl (ras_err A ''RasHangUpW'' ret), r)
         else (Inr (), ra_sleep A (300 * 10 ^ 6) r))"

section \<open>Restarting RasMan\<close>

text \<open>At most \<open>n\<close> rounds of half a second until the service reports the state.\<close>

primrec wait_state :: "'r ras_api \<Rightarrow> svc_state \<Rightarrow> nat \<Rightarrow> 'r \<Rightarrow> bool \<times> 'r" where
  "wait_state A st 0 r = (False, r)"
| "wait_state A st (Suc n) r =
     (let r = ra_sleep A (500 * 10 ^ 6) r
      in if rm_query A r = Some st then (True, r) else wait_state A st n r)"

definition stop_rasman :: "'r ras_api \<Rightarrow> 'r \<Rightarrow> 'r" where
  "stop_rasman A r =
     (case rm_query A r of
        Some st \<Rightarrow> if st \<noteq> SvStopped then snd (wait_state A SvStopped 20 (rm_stop A r)) else r
      | None \<Rightarrow> r)"

definition restart_rasman :: "'r ras_api \<Rightarrow> 'r \<Rightarrow> (string + unit) \<times> 'r" where
  "restart_rasman A r =
     (case rm_open A r of
        Inl e \<Rightarrow> (Inl e, r)
      | Inr _ \<Rightarrow>
          (case rm_start A (stop_rasman A r) of
             (Inl e, r) \<Rightarrow> (Inl (''StartService RasMan failed: '' @ e), r)
           | (Inr _, r) \<Rightarrow>
               (case wait_state A SvRunning 20 r of
                  (True, r) \<Rightarrow> (Inr (), r)
                | (False, r) \<Rightarrow> (Inl ''RasMan did not reach Running in 10s'', r))))"

section \<open>What a dial does\<close>

lemma wide_length: "wide s len = Some b \<Longrightarrow> length b = len \<and> 0 < len \<and> last b = 0"
  by (cases len) (auto simp: wide_def Let_def last_append split: if_splits)

text \<open>A name read back from a buffer it fits in is the name.\<close>

lemma entry_name_wide:
  assumes "0 \<notin> set s" "length s < len"
  shows "entry_name_slice (the (wide s len)) = s"
proof -
  have "replicate (len - length s) (0::u16) = 0 # replicate (len - length s - 1) 0"
    using assms(2) by (cases "len - length s") auto
  moreover have "takeWhile (\<lambda>c. c \<noteq> 0) (s @ 0 # t) = s" for t
    using assms(1) by (subst takeWhile_append2) auto
  ultimately show ?thesis
    using assms(2) by (simp add: wide_def Let_def entry_name_slice_def)
qed

text \<open>
  A RAS interface that records the calls that change something and answers as an arbitrary
  function of what was recorded.
\<close>

datatype ras_act = ActDial | ActHang nat | ActSleep duration | ActDns | ActStopMan | ActStartMan

definition ras_recorder ::
  "(ras_act list \<Rightarrow> u32 \<times> nat) \<Rightarrow> (ras_act list \<Rightarrow> ras_row list) \<Rightarrow> ras_act list ras_api" where
  "ras_recorder ans rows =
     \<lparr>ra_set_entry = \<lambda>_ _ _ l. (0, l), ra_set_credentials = \<lambda>_ _ _ _ l. (0, l),
      ra_dial = \<lambda>_ _ l. (ans l, l @ [ActDial]), ra_hangup = \<lambda>h l. (0, l @ [ActHang h]),
      ra_row_size = 1, ra_enum = \<lambda>_ l. (0, 0, rows l), ra_status = \<lambda>_ l. (0, False, 0),
      ra_error_text = \<lambda>_. None, ra_detach_dns = \<lambda>_ l. l @ [ActDns],
      ra_sleep = \<lambda>d l. l @ [ActSleep d], rm_open = \<lambda>_. Inr (), rm_query = \<lambda>_. Some SvRunning,
      rm_stop = \<lambda>l. l @ [ActStopMan], rm_start = \<lambda>l. (Inr (), l @ [ActStartMan])\<rparr>"

lemma ras_recorder_simps [simp]:
  "ra_dial (ras_recorder ans rows) p q l = (ans l, l @ [ActDial])"
  "ra_hangup (ras_recorder ans rows) h l = (0, l @ [ActHang h])"
  "ra_sleep (ras_recorder ans rows) d l = l @ [ActSleep d]"
  "ra_detach_dns (ras_recorder ans rows) n l = l @ [ActDns]"
  "ra_error_text (ras_recorder ans rows) c = None"
  "rm_open (ras_recorder ans rows) l = Inr ()" "rm_query (ras_recorder ans rows) l = Some SvRunning"
  "rm_stop (ras_recorder ans rows) l = l @ [ActStopMan]"
  "rm_start (ras_recorder ans rows) l = (Inr (), l @ [ActStartMan])"
  "enum_rows (ras_recorder ans rows) l = Some (rows l)"
  by (simp_all add: ras_recorder_def enum_rows_def)

text \<open>What one \<open>dial_once\<close> gives for the code and handle RasDial returned.\<close>

definition dial_outcome :: "u32 \<times> nat \<Rightarrow> ras_error + nat" where
  "dial_outcome a = (let (ret, h) = a in
     if ret = 0 then Inr h else if ret = 691 then Inl RasAuth
     else Inl (RasOther ret (''RAS error '' @ dec (unat ret))))"

lemma dial_once_recorder:
  "dial_once (ras_recorder ans rows) pbk name user pass l =
     (dial_outcome (ans l), l @ [ActDial] @ (if fst (ans l) = 0 then [ActDns] else []))"
  by (cases "ans l") (simp add: dial_once_def dial_outcome_def classify_def error_string_def)

definition hang_acts :: "nat list \<Rightarrow> ras_act list" where
  "hang_acts hs = concat (map (\<lambda>h. [ActHang h, ActSleep (400 * 10 ^ 6)]) hs)"

lemma hangup_loop_recorder:
  "\<exists>hs. hangup_loop (ras_recorder ans rows) pbk name n c l = (c + length hs, l @ hang_acts hs)
     \<and> length hs \<le> n \<and> (length hs < n \<longrightarrow>
         find_entry_connection (ras_recorder ans rows) pbk name (l @ hang_acts hs) = None)"
proof (induction n arbitrary: c l)
  case 0
  show ?case by (simp add: hang_acts_def)
next
  case (Suc n)
  show ?case
  proof (cases "find_entry_connection (ras_recorder ans rows) pbk name l")
    case None
    then show ?thesis by (intro exI [of _ "[]"]) (simp add: hang_acts_def)
  next
    case (Some h)
    from Suc.IH [of "Suc c" "l @ [ActHang h, ActSleep (400 * 10 ^ 6)]"] obtain hs where
      "hangup_loop (ras_recorder ans rows) pbk name n (Suc c) (l @ [ActHang h, ActSleep (400 * 10 ^ 6)])
         = (Suc c + length hs, l @ hang_acts (h # hs))"
      "length hs \<le> n" "length hs < n \<longrightarrow>
         find_entry_connection (ras_recorder ans rows) pbk name (l @ hang_acts (h # hs)) = None"
      by (auto simp: hang_acts_def)
    with Some show ?thesis by (intro exI [of _ "h # hs"]) simp
  qed
qed

lemma ras_dial_cases:
  obtains (direct) "\<not> wedged (fst (ans l))"
      "ras_dial (ras_recorder ans rows) pbk name user pass l =
         (dial_outcome (ans l), l @ [ActDial] @ (if fst (ans l) = 0 then [ActDns] else []))"
  | (retry) hs l' where "wedged (fst (ans l))" "length hs \<le> 4"
      "length hs < 4 \<longrightarrow> find_entry_connection (ras_recorder ans rows) pbk name
         (l @ [ActDial] @ hang_acts hs) = None"
      "l' = l @ [ActDial] @ hang_acts hs @ [ActSleep (1500 * 10 ^ 6)]"
      "ras_dial (ras_recorder ans rows) pbk name user pass l =
         (dial_outcome (ans l'), l' @ [ActDial] @ (if fst (ans l') = 0 then [ActDns] else []))"
proof (cases "wedged (fst (ans l))")
  case False
  then have "ras_dial (ras_recorder ans rows) pbk name user pass l =
      (dial_outcome (ans l), l @ [ActDial] @ (if fst (ans l) = 0 then [ActDns] else []))"
    by (cases "ans l") (auto simp: ras_dial_def dial_once_recorder dial_outcome_def)
  with False direct show thesis by blast
next
  case True
  obtain hs where hs: "hangup_loop (ras_recorder ans rows) pbk name 4 0 (l @ [ActDial]) =
      (0 + length hs, (l @ [ActDial]) @ hang_acts hs)" "length hs \<le> 4"
    "length hs < 4 \<longrightarrow> find_entry_connection (ras_recorder ans rows) pbk name
       ((l @ [ActDial]) @ hang_acts hs) = None"
    using hangup_loop_recorder [of ans rows pbk name 4 0 "l @ [ActDial]"] by blast
  have "ras_dial (ras_recorder ans rows) pbk name user pass l =
      dial_once (ras_recorder ans rows) pbk name user pass
        ((l @ [ActDial]) @ hang_acts hs @ [ActSleep (1500 * 10 ^ 6)])"
    using True hs(1)
    by (cases "ans l")
       (auto simp: ras_dial_def dial_once_recorder dial_outcome_def wedged_def hangup_all_ppp_def)
  with True hs(2,3) retry [of hs "l @ [ActDial] @ hang_acts hs @ [ActSleep (1500 * 10 ^ 6)]"]
  show thesis by (simp add: dial_once_recorder)
qed

text \<open>
  Recovery from a stuck port. Whatever RasDial answers: a dial that does not
  return 756 or 813 makes one call and hangs nothing up; one that does hangs up at most four of the
  connections the system lists, stopping early only when it lists none, waits, and dials exactly
  once more. The result is that of the last call: a handle exactly on code zero, the authentication
  error exactly on 691, and otherwise the code.
\<close>

theorem dial_recovers_once:
  fixes ans :: "ras_act list \<Rightarrow> u32 \<times> nat"
  shows "\<exists>pre. let A = ras_recorder ans rows in
     ras_dial A pbk name user pass [] =
       (dial_outcome (ans pre), pre @ [ActDial] @ (if fst (ans pre) = 0 then [ActDns] else []))
   \<and> (if fst (ans []) \<in> {756, 813}
      then \<exists>hs. pre = [ActDial] @ hang_acts hs @ [ActSleep (1500 * 10 ^ 6)] \<and> length hs \<le> 4
         \<and> (length hs = 4 \<or> find_entry_connection A pbk name ([ActDial] @ hang_acts hs) = None)
      else pre = [])"
proof (cases rule: ras_dial_cases [of ans "[]" rows pbk name user pass])
  case direct
  then show ?thesis by (intro exI [of _ "[]"]) (auto simp: wedged_def Let_def)
next
  case (retry hs l')
  then show ?thesis
    by (intro exI [of _ l']) (auto simp: wedged_def Let_def intro!: exI [of _ hs])
qed

end
