(* ===== verification/Dialer.thy ===== *)
theory Dialer
  imports Ras Config
begin

text \<open>
  \<open>RealDialer\<close> and the configuration of the watchdog in \<open>src/src/runtime.rs\<close>. The dialer holds the
  account and the session handle over the RAS interface of \<open>Ras\<close>; it is the provider of the
  contract \<open>dialer_contract\<close> of the watchdog. A blocking task that panics makes its join fail:
  \<open>crash\<close> says when that happens, with the message and the system state it leaves.
\<close>

section \<open>The dialer\<close>

record 'r real_dialer =
  rd_sys :: 'r
  rd_pbk :: string
  rd_entry :: string
  rd_user :: string
  rd_pass :: string
  rd_session :: "nat option"
  rd_wedge_fails :: u32

definition wedge_restart_after :: u32 where "wedge_restart_after = 3"

definition real_dialer_new :: "config \<Rightarrow> string \<Rightarrow> 'r \<Rightarrow> 'r real_dialer" where
  "real_dialer_new cfg pass r =
     \<lparr>rd_sys = r, rd_pbk = dc_pbk_path (cf_dial cfg), rd_entry = dc_entry_name (cf_dial cfg),
      rd_user = ac_student_id (cf_account cfg), rd_pass = pass, rd_session = None,
      rd_wedge_fails = 0\<rparr>"

definition auth_rejected_msg :: string where
  "auth_rejected_msg = ''Authentication failed (691): invalid student ID or password''"

definition dial_error_of :: "ras_error \<Rightarrow> dial_error" where
  "dial_error_of e =
     (case e of
        RasAuth \<Rightarrow> \<lparr>de_kind = AuthKind, de_code = 691, de_msg = auth_rejected_msg\<rparr>
      | RasOther code msg \<Rightarrow> \<lparr>de_kind = TransientKind, de_code = code, de_msg = msg\<rparr>)"

type_synonym 'r crash = "'r \<Rightarrow> (string \<times> 'r) option"

definition dial_task ::
  "'r ras_api \<Rightarrow> 'r crash \<Rightarrow> 'r real_dialer \<Rightarrow> (dial_error + nat) \<times> 'r" where
  "dial_task A crash d =
     (case crash (rd_sys d) of
        Some (e, r) \<Rightarrow> (Inl \<lparr>de_kind = TransientKind, de_code = 0,
                            de_msg = ''Dial task join failed: '' @ e\<rparr>, r)
      | None \<Rightarrow>
          (case ras_dial A (rd_pbk d) (rd_entry d) (rd_user d) (rd_pass d) (rd_sys d) of
             (Inr h, r) \<Rightarrow> (Inr h, r)
           | (Inl e, r) \<Rightarrow> (Inl (dial_error_of e), r)))"

definition restart_task :: "'r ras_api \<Rightarrow> 'r crash \<Rightarrow> 'r \<Rightarrow> 'r" where
  "restart_task A crash r =
     (case crash r of Some (_, r) \<Rightarrow> r | None \<Rightarrow> snd (restart_rasman A r))"

definition count_failure ::
  "'r ras_api \<Rightarrow> 'r crash \<Rightarrow> u32 \<Rightarrow> 'r real_dialer \<Rightarrow> 'r real_dialer" where
  "count_failure A crash code d =
     (if wedged code
      then (let d = d\<lparr>rd_wedge_fails := rd_wedge_fails d + 1\<rparr>
            in if wedge_restart_after \<le> rd_wedge_fails d
               then d\<lparr>rd_sys := restart_task A crash (rd_sys d), rd_wedge_fails := 0\<rparr> else d)
      else d\<lparr>rd_wedge_fails := 0\<rparr>)"

definition real_dial ::
  "'r ras_api \<Rightarrow> 'r crash \<Rightarrow> 'r real_dialer \<Rightarrow> (dial_error + unit) \<times> 'r real_dialer" where
  "real_dial A crash d =
     (case dial_task A crash d of
        (Inr h, r) \<Rightarrow> (Inr (), d\<lparr>rd_sys := r, rd_wedge_fails := 0, rd_session := Some h\<rparr>)
      | (Inl e, r) \<Rightarrow> (Inl e, count_failure A crash (de_code e) (d\<lparr>rd_sys := r\<rparr>)))"

definition real_hangup :: "'r ras_api \<Rightarrow> 'r real_dialer \<Rightarrow> 'r real_dialer" where
  "real_hangup A d =
     (case rd_session d of
        None \<Rightarrow> d
      | Some h \<Rightarrow> d\<lparr>rd_session := None, rd_sys := snd (session_hangup A h (rd_sys d))\<rparr>)"

definition real_is_connected :: "'r ras_api \<Rightarrow> 'r real_dialer \<Rightarrow> bool \<times> 'r real_dialer" where
  "real_is_connected A d =
     ((case rd_session d of
         Some h \<Rightarrow> session_status_call A h (rd_sys d) = Inr ConnConnected
       | None \<Rightarrow> False), d)"

definition real_dialer_ops :: "'r ras_api \<Rightarrow> 'r crash \<Rightarrow> 'r real_dialer dialer_ops" where
  "real_dialer_ops A crash = \<lparr>dl_dial = real_dial A crash, dl_hangup = real_hangup A,
     dl_is_connected = real_is_connected A\<rparr>"

section \<open>The contract\<close>

lemma count_failure_session [simp]: "rd_session (count_failure A crash code d) = rd_session d"
  by (simp add: count_failure_def Let_def)

definition holds_session :: "'r real_dialer \<Rightarrow> bool" where
  "holds_session d \<longleftrightarrow> rd_session d \<noteq> None"

interpretation real: dialer_contract "real_dialer_ops A crash" holds_session for A crash
  by unfold_locales
     (auto simp: holds_session_def real_dialer_ops_def real_dial_def real_hangup_def real_is_connected_def
       split: option.splits prod.splits sum.splits)

text \<open>The service's main loop on the watchdog until it stops.\<close>

inductive serving ::
  "'d dialer_ops \<Rightarrow> 'p prober \<Rightarrow> ('d, 'p) watchdog \<Rightarrow> ('d, 'p) watchdog \<Rightarrow> bool"
  for D P w0 where
  serving_start: "serving D P w0 w0"
| serving_step: "serving D P w0 w \<Longrightarrow> serving D P w0 (snd (run_once D P clk w))"
| serving_link: "serving D P w0 w \<Longrightarrow> serving D P w0 (set_eth_link up w)"
| serving_redial: "serving D P w0 w \<Longrightarrow> serving D P w0 (request_redial w)"

lemma serving_held:
  assumes "serving (real_dialer_ops A crash) P w0 w" "real.held_inv w0"
  shows "real.held_inv w"
  using assms
proof (induction rule: serving.induct)
  case (serving_step w clk)
  then show ?case by (simp add: real.run_once_held)
qed (simp_all add: real.held_inv_def set_eth_link_def request_redial_def)

definition service_watchdog :: "config \<Rightarrow> string \<Rightarrow> 'r \<Rightarrow> 'p \<Rightarrow> watchdog_cfg \<Rightarrow> ('r real_dialer, 'p) watchdog" where
  "service_watchdog cfg pass r p wc = watchdog_new (real_dialer_new cfg pass r) p wc"

lemma service_watchdog_held: "real.held_inv (service_watchdog cfg pass r p wc)"
  by (simp add: real.held_inv_def holds_session_def service_watchdog_def watchdog_new_def
      real_dialer_new_def)

text \<open>
  C8 (safety). The service never loses a session handle and never dials on top of one: whatever
  the RAS interface and the probes answer, whichever blocking task panics and in whatever order
  steps, link changes and redial requests come, the dialer holds a handle exactly while the
  watchdog is in the connected phase, and a step that dials does so with the cable not known to be
  out and on a dialer that holds no handle.
\<close>

theorem session_held_iff_connected:
  assumes "serving (real_dialer_ops A crash) P (service_watchdog cfg pass r p wc) w"
  shows "(rd_session (wd_dialer w) \<noteq> None \<longleftrightarrow> wd_phase w = PConnected)
    \<and> (wd_dial_calls (snd (run_once (real_dialer_ops A crash) P clk w)) \<noteq> wd_dial_calls w \<longrightarrow>
        wd_eth_link w \<noteq> Some False
        \<and> (\<exists>d. rd_session d = None
             \<and> wd_dialer (snd (run_once (real_dialer_ops A crash) P clk w)) = snd (real_dial A crash d)))"
proof -
  have h: "real.held_inv w" by (rule serving_held [OF assms service_watchdog_held])
  have "dl_dial (real_dialer_ops A crash) = real_dial A crash" by (simp add: real_dialer_ops_def)
  with h real.dial_only_dead [OF h, of A crash P clk] show ?thesis
    by (simp add: real.held_inv_def holds_session_def)
qed

definition quiet_ras :: "ras_act list ras_api" where
  "quiet_ras = ras_recorder (\<lambda>_. (0, 7)) (\<lambda>_. [])"

definition no_crash :: "'r crash" where
  "no_crash r = None"

theorem session_held_iff_connected_witness:
  "rd_session (wd_dialer (snd (run_once (real_dialer_ops quiet_ras no_crash) (\<lambda>p::unit. (Alive, p)) 0
     (service_watchdog config_default ''pw'' [] () demo_cfg)))) = Some 7"
proof -
  let ?w = "service_watchdog config_default ''pw'' [] () demo_cfg"
  let ?D = "real_dialer_ops quiet_ras no_crash"
  have p: "wd_phase (snd (run_once ?D (\<lambda>p. (Alive, p)) 0 ?w)) = PConnected"
    and s: "the (rd_session (wd_dialer (snd (run_once ?D (\<lambda>p. (Alive, p)) 0 ?w)))) = 7"
    by (simp_all add: run_once_def do_dial_def dial_ok_def service_watchdog_def watchdog_new_def
        real_dialer_ops_def real_dial_def dial_task_def no_crash_def real_dialer_new_def quiet_ras_def
        ras_dial_def dial_once_recorder dial_outcome_def)
  have "serving ?D (\<lambda>p. (Alive, p)) ?w (snd (run_once ?D (\<lambda>p. (Alive, p)) 0 ?w))"
    by (rule serving_step [OF serving_start])
  from conjunct1 [OF session_held_iff_connected [OF this]] p
  have "rd_session (wd_dialer (snd (run_once ?D (\<lambda>p. (Alive, p)) 0 ?w))) \<noteq> None" by blast
  with s show ?thesis by (metis option.collapse)
qed

section \<open>A stuck port\<close>

primrec dial_times :: "'r ras_api \<Rightarrow> 'r crash \<Rightarrow> nat \<Rightarrow> 'r real_dialer \<Rightarrow> 'r real_dialer" where
  "dial_times A crash 0 d = d"
| "dial_times A crash (Suc n) d = snd (real_dial A crash (dial_times A crash n d))"

lemma restart_recorder:
  "\<exists>l'. restart_rasman (ras_recorder ans rows) l = (Inr (), l')
     \<and> count_list l' ActStartMan = count_list l ActStartMan + 1
     \<and> count_list l' ActDial = count_list l ActDial"
proof -
  have w: "\<exists>k. snd (wait_state (ras_recorder ans rows) SvStopped n l) = l @ replicate k (ActSleep (500 * 10 ^ 6))"
    for n l
  proof (induction n arbitrary: l)
    case (Suc n)
    from Suc.IH [of "l @ [ActSleep (500 * 10 ^ 6)]"] obtain k where
      "snd (wait_state (ras_recorder ans rows) SvStopped n (l @ [ActSleep (500 * 10 ^ 6)]))
        = l @ replicate (Suc k) (ActSleep (500 * 10 ^ 6))" by auto
    then show ?case
      by (intro exI [of _ "Suc k"]) (simp only: wait_state.simps Let_def ras_recorder_simps, simp)
  qed (auto intro: exI [of _ 0])
  have c: "count_list (replicate k (ActSleep x)) ActStartMan = 0"
    "count_list (replicate k (ActSleep x)) ActDial = 0" for k x
    by (induction k) auto
  from w [of 20 "l @ [ActStopMan]"] obtain k where
    "stop_rasman (ras_recorder ans rows) l = l @ ActStopMan # replicate k (ActSleep (500 * 10 ^ 6))"
    by (auto simp: stop_rasman_def)
  moreover have "wait_state (ras_recorder ans rows) SvRunning 20 x = (True, x @ [ActSleep (500 * 10 ^ 6)])"
    for x using wait_state.simps(2) [of "ras_recorder ans rows" SvRunning 19 x]
    by (simp only: Let_def ras_recorder_simps if_True) simp
  ultimately show ?thesis by (simp add: restart_rasman_def c)
qed

lemma count_hang_acts: "count_list (hang_acts hs) ActStartMan = 0" "count_list (hang_acts hs) ActDial = 0"
  by (induction hs) (auto simp: hang_acts_def)

lemma real_dial_stuck:
  fixes rows :: "ras_act list \<Rightarrow> ras_row list"
  assumes "\<And>l. wedged (fst (ans l))"
  defines "A \<equiv> ras_recorder ans rows"
  shows "count_list (rd_sys (snd (real_dial A no_crash d))) ActDial = count_list (rd_sys d) ActDial + 2"
    and "rd_wedge_fails (snd (real_dial A no_crash d)) =
      (if 3 \<le> rd_wedge_fails d + 1 then 0 else rd_wedge_fails d + 1)"
    and "count_list (rd_sys (snd (real_dial A no_crash d))) ActStartMan =
      count_list (rd_sys d) ActStartMan + (if 3 \<le> rd_wedge_fails d + 1 then 1 else 0)"
proof -
  have o: "\<exists>c m. dial_outcome (ans l) = Inl (RasOther c m) \<and> wedged c \<and> c \<noteq> 0" for l
    using assms(1) [of l] by (cases "ans l") (auto simp: wedged_def dial_outcome_def)
  have z: "fst (ans l) \<noteq> 0" for l using assms(1) [of l] by (auto simp: wedged_def)
  obtain c m l' where t: "ras_dial A (rd_pbk d) (rd_entry d) (rd_user d) (rd_pass d) (rd_sys d)
      = (Inl (RasOther c m), l')" "wedged c"
    "count_list l' ActDial = count_list (rd_sys d) ActDial + 2"
    "count_list l' ActStartMan = count_list (rd_sys d) ActStartMan"
  proof (cases rule: ras_dial_cases [of ans "rd_sys d" rows "rd_pbk d" "rd_entry d" "rd_user d" "rd_pass d"])
    case direct
    with assms(1) show thesis by simp
  next
    case (retry hs l')
    with o [of l'] z [of l'] that show thesis
      by (auto simp: A_def count_hang_acts)
  qed
  obtain l2 where r: "restart_rasman A l' = (Inr (), l2)"
    "count_list l2 ActStartMan = count_list l' ActStartMan + 1"
    "count_list l2 ActDial = count_list l' ActDial"
    using restart_recorder [of ans rows l'] unfolding A_def by blast
  have d: "real_dial A no_crash d = (Inl (dial_error_of (RasOther c m)),
      count_failure A no_crash c (d\<lparr>rd_sys := l'\<rparr>))"
    using t(1) by (simp add: real_dial_def dial_task_def no_crash_def dial_error_of_def)
  note f = count_failure_def restart_task_def no_crash_def wedge_restart_after_def Let_def
  show "count_list (rd_sys (snd (real_dial A no_crash d))) ActDial = count_list (rd_sys d) ActDial + 2"
    using t r unfolding d by (simp add: f)
  show "rd_wedge_fails (snd (real_dial A no_crash d)) =
      (if 3 \<le> rd_wedge_fails d + 1 then 0 else rd_wedge_fails d + 1)"
    using t unfolding d by (simp add: f)
  show "count_list (rd_sys (snd (real_dial A no_crash d))) ActStartMan =
      count_list (rd_sys d) ActStartMan + (if 3 \<le> rd_wedge_fails d + 1 then 1 else 0)"
    using t r unfolding d by (simp add: f)
qed

text \<open>
  A stuck port. While every call of RasDial answers that the port is busy (756 or
  813), RasMan is restarted at exactly every third dial, never more often, and each dial makes two
  attempts.
\<close>

theorem stuck_port_restarts_every_third:
  assumes "\<And>l. fst (ans l) \<in> {756, 813}"
  shows "let l = rd_sys (dial_times (ras_recorder ans rows) no_crash n (real_dialer_new cfg pass [])) in
     count_list l ActStartMan = n div 3 \<and> count_list l ActDial = 2 * n"
proof -
  have w: "wedged (fst (ans l))" for l using assms [of l] by (auto simp: wedged_def)
  let ?d = "\<lambda>n. dial_times (ras_recorder ans rows) no_crash n (real_dialer_new cfg pass [])"
  have "count_list (rd_sys (?d n)) ActStartMan = n div 3
      \<and> rd_wedge_fails (?d n) = word_of_nat (n mod 3) \<and> count_list (rd_sys (?d n)) ActDial = 2 * n"
  proof (induction n)
    case 0
    show ?case by (simp add: real_dialer_new_def)
  next
    case (Suc n)
    note s = real_dial_stuck [OF w, where rows = rows and d = "?d n"]
    have c: "(n mod 3 = 0 \<and> Suc n mod 3 = 1 \<and> Suc n div 3 = n div 3)
      \<or> (n mod 3 = 1 \<and> Suc n mod 3 = 2 \<and> Suc n div 3 = n div 3)
      \<or> (n mod 3 = 2 \<and> Suc n mod 3 = 0 \<and> Suc n div 3 = n div 3 + 1)" by presburger
    have m: "\<not> (3::u32) \<le> 1" "\<not> (3::u32) \<le> 2" by (simp_all add: word_le_nat_alt)
    from c show ?case using Suc.IH s m by (elim disjE) simp_all
  qed
  then show ?thesis by (simp add: Let_def)
qed

theorem stuck_port_restarts_every_third_witness:
  "count_list (rd_sys (dial_times (ras_recorder (\<lambda>_. (756, 0)) (\<lambda>_. [])) no_crash 7
     (real_dialer_new config_default [] []))) ActStartMan = 2"
  using stuck_port_restarts_every_third [of "\<lambda>_. (756, 0)" "\<lambda>_. []" 7 config_default "[]"]
  by (simp add: Let_def)

section \<open>The pacing of the service\<close>

text \<open>The watchdog configuration \<open>run\<close> builds.\<close>

definition service_watchdog_cfg :: "config \<Rightarrow> watchdog_cfg" where
  "service_watchdog_cfg cfg =
     \<lparr>wg_redial_min = from_secs 1, wg_redial_max = from_secs 300,
      wg_probe_interval = from_secs (unat (dc_probe_interval_secs (cf_dial cfg))),
      wg_auth_fail_delay = auth_fail_delay_default\<rparr>"

lemma serving_reach: "serving D P (watchdog_new d p cfg) w \<Longrightarrow> wd_reach D P cfg w"
proof (induction rule: serving.induct)
  case serving_start
  show ?case by (rule reach_new)
qed (auto intro: wd_reach.intros)

lemma next_delay_between:
  "bo_min b \<le> bo_max b \<Longrightarrow> bo_min b \<le> fst (next_delay b) \<and> fst (next_delay b) \<le> bo_max b"
  by (simp add: next_delay_def Let_def)

lemma valid_interval: "validate cfg = Inr u \<Longrightarrow> 5 \<le> dc_probe_interval_secs (cf_dial cfg)"
  by (auto simp: validate_def not_less split: if_splits)

text \<open>
  The pacing of the service. With a configuration that passes validation, every step
  of the watchdog, in every state the main loop can bring it to, asks to be called again not
  before one second and not later than ten minutes or the configured probe interval: the main loop
  neither spins nor falls asleep.
\<close>

theorem service_pacing:
  assumes "validate cfg = Inr ()"
    and "serving D P (watchdog_new d p (service_watchdog_cfg cfg)) w"
  shows "from_secs 1 \<le> fst (run_once D P clk w)
    \<and> fst (run_once D P clk w)
        \<le> max (from_secs 600) (from_secs (unat (dc_probe_interval_secs (cf_dial cfg))))"
proof -
  let ?i = "unat (dc_probe_interval_secs (cf_dial cfg))"
  from wd_reach_cfg [OF serving_reach [OF assms(2)]]
  have c: "wd_cfg w = service_watchdog_cfg cfg" "bo_min (wd_backoff w) = from_secs 1"
    "bo_max (wd_backoff w) = from_secs 300"
    by (simp_all add: service_watchdog_cfg_def)
  have i: "5 \<le> ?i" using valid_interval [OF assms(1)] by (simp add: word_le_nat_alt)
  have b: "from_secs 1 \<le> fst (next_delay (wd_backoff w))"
    "fst (next_delay (wd_backoff w)) \<le> from_secs 300"
    using next_delay_between [of "wd_backoff w"] c(2,3) by (simp_all add: from_secs_def)
  from run_once_delay [of D P clk w] show ?thesis
    using i b by (auto simp: delay_set_def c(1) service_watchdog_cfg_def link_down_retry_def
        auth_fail_delay_default_def from_secs_def)
qed

definition wired_cfg :: config where
  "wired_cfg = config_default\<lparr>cf_account := \<lparr>ac_student_id = ''31'', ac_password_blob = []\<rparr>,
     cf_wireless := wireless_default\<lparr>wc_enabled := False\<rparr>\<rparr>"

lemma wired_cfg_valid: "validate wired_cfg = Inr ()"
proof -
  have "trim ''31'' \<noteq> []"
    by (simp add: trim_def trim_start.simps trim_end.simps ws_len_def ws_len_end_def is_ws_def Let_def upt_rec)
  moreover have "parse_http_probe_target ''http://223.5.5.5'' \<noteq> None"
    by (simp add: parse_http_probe_target_def parse_url_def strip_prefix_def rsplit_once_def
        parse_ipv4_def parse_octet_def is_digit_def digits_val_def digit_val_def)
  ultimately show ?thesis
    by (simp add: validate_Inr wired_cfg_def config_default_def dial_default_def heartbeat_default_def
        wireless_default_def)
qed

theorem service_pacing_witness:
  "from_secs 1 \<le> fst (run_once demo_dialer (\<lambda>p::unit. (Alive, p)) 0
     (watchdog_new 0 () (service_watchdog_cfg wired_cfg)))"
  by (rule conjunct1 [OF service_pacing [OF wired_cfg_valid serving_start]])

end
