(* ===== verification/Adapter.thy ===== *)
theory Adapter
  imports Prelude
begin

text \<open>
  \<open>src/src/adapter.rs\<close>: which network adapter the service probes, logs in and dials over, whether the
  cable is plugged in, and the removal of the DNS servers of the PPP interface. The Windows call
  \<open>GetAdaptersAddresses\<close> and the \<open>netsh\<close> child process are arguments of the definitions.
\<close>

section \<open>Virtual adapters\<close>

definition virtual_keywords :: "string list" where
  "virtual_keywords = [''wintun'', ''tun'', ''tap'', ''tailscale'', ''clash'', ''wireguard'', ''hyper-v'',
     ''vmware'', ''virtualbox'', ''vethernet'', ''loopback'', ''wan miniport'']"

text \<open>
  \<open>str::to_lowercase\<close> as far as an ASCII keyword can see it: the ASCII letters, and the two other
  characters whose lower case has an ASCII letter (U+0130 and the Kelvin sign U+212A). Every other
  character maps to bytes outside ASCII and is left as it is.
\<close>

fun to_lowercase :: "string \<Rightarrow> string" where
  "to_lowercase (a # b # c # s) =
     (if (of_char a :: nat) = 196 \<and> (of_char b :: nat) = 176
      then CHR ''i'' # char_of (204::nat) # char_of (135::nat) # to_lowercase (c # s)
      else if (of_char a :: nat) = 226 \<and> (of_char b :: nat) = 132 \<and> (of_char c :: nat) = 170
      then CHR ''k'' # to_lowercase s
      else ascii_lower a # to_lowercase (b # c # s))"
| "to_lowercase [a, b] =
     (if (of_char a :: nat) = 196 \<and> (of_char b :: nat) = 176
      then [CHR ''i'', char_of (204::nat), char_of (135::nat)]
      else [ascii_lower a, ascii_lower b])"
| "to_lowercase [a] = [ascii_lower a]"
| "to_lowercase [] = []"

definition is_virtual :: "string \<Rightarrow> bool" where
  "is_virtual name_or_desc =
     (let lower = to_lowercase name_or_desc in list_ex (contains lower) virtual_keywords)"

section \<open>What the system reports\<close>

record adapter_info =
  ai_name :: string
  ai_ipv4 :: ipv4
  ai_gateway :: "ipv4 option"
  ai_ifindex :: u32

record raw_adapter =
  ra_name :: string
  ra_desc :: string
  ra_ipv4 :: "ipv4 option"
  ra_gateway :: "ipv4 option"
  ra_ifindex :: u32
  ra_oper_up :: bool
  ra_has_dns :: bool

text \<open>A socket address: a null pointer, or a length, a family and the IPv4 address it would hold.\<close>

datatype socket_address = NullAddress | SocketAddress int u16 ipv4

record gaa_node =
  gn_iftype :: u32
  gn_oper_status :: u32
  gn_friendly_name :: "u16 list option"
  gn_description :: "u16 list option"
  gn_unicast :: "socket_address list"
  gn_gateways :: "socket_address list"
  gn_ifindex :: u32
  gn_dns :: bool

definition if_type_ethernet :: u32 where "if_type_ethernet = 6"
definition if_type_ppp :: u32 where "if_type_ppp = 23"
definition if_type_ieee80211 :: u32 where "if_type_ieee80211 = 71"
definition if_oper_status_up :: u32 where "if_oper_status_up = 1"

text \<open>\<open>String::from_utf16\<close>: an unpaired surrogate is an error.\<close>

definition utf8 :: "nat \<Rightarrow> string" where
  "utf8 n = map char_of
     (if n < 128 then [n] else if n < 2048 then [192 + n div 64, 128 + n mod 64]
      else if n < 65536 then [224 + n div 4096, 128 + n div 64 mod 64, 128 + n mod 64]
      else [240 + n div 262144, 128 + n div 4096 mod 64, 128 + n div 64 mod 64, 128 + n mod 64])"

fun from_utf16 :: "u16 list \<Rightarrow> string option" where
  "from_utf16 [] = Some []"
| "from_utf16 (x # xs) =
     (let n = unat x
      in if n < 55296 \<or> 57344 \<le> n then map_option (\<lambda>s. utf8 n @ s) (from_utf16 xs)
         else if 56320 \<le> n then None
         else (case xs of [] \<Rightarrow> None
               | y # ys \<Rightarrow>
                   if 56320 \<le> unat y \<and> unat y < 57344
                   then map_option (\<lambda>s. utf8 (65536 + (n - 55296) * 1024 + (unat y - 56320)) @ s) (from_utf16 ys)
                   else None))"

definition pwstr_to_string :: "u16 list option \<Rightarrow> string" where
  "pwstr_to_string p =
     (case p of None \<Rightarrow> [] | Some w \<Rightarrow> (case from_utf16 w of Some s \<Rightarrow> s | None \<Rightarrow> []))"

fun sockaddr_ipv4 :: "socket_address \<Rightarrow> ipv4 option" where
  "sockaddr_ipv4 NullAddress = None"
| "sockaddr_ipv4 (SocketAddress len family ip) = (if len < 16 \<or> family \<noteq> 2 then None else Some ip)"

fun find_map :: "('a \<Rightarrow> 'b option) \<Rightarrow> 'a list \<Rightarrow> 'b option" where
  "find_map f [] = None"
| "find_map f (x # xs) = (case f x of Some y \<Rightarrow> Some y | None \<Rightarrow> find_map f xs)"

definition unicast_ipv4 :: "gaa_node \<Rightarrow> ipv4 option" where
  "unicast_ipv4 a = find_map sockaddr_ipv4 (gn_unicast a)"

definition gateway_ipv4 :: "gaa_node \<Rightarrow> ipv4 option" where
  "gateway_ipv4 a = find_map sockaddr_ipv4 (gn_gateways a)"

definition raw_of :: "gaa_node \<Rightarrow> raw_adapter" where
  "raw_of a = \<lparr>ra_name = pwstr_to_string (gn_friendly_name a), ra_desc = pwstr_to_string (gn_description a),
     ra_ipv4 = unicast_ipv4 a, ra_gateway = gateway_ipv4 a, ra_ifindex = gn_ifindex a,
     ra_oper_up = (gn_oper_status a = if_oper_status_up), ra_has_dns = gn_dns a\<rparr>"

text \<open>
  \<open>GetAdaptersAddresses\<close>, given the size of the buffer: the return code, the size it writes back and
  the adapters it fills in.
\<close>

type_synonym 'w gaa = "u32 \<Rightarrow> 'w \<Rightarrow> (u32 \<times> u32 \<times> gaa_node list) \<times> 'w"

definition adapters :: "'w gaa \<Rightarrow> (gaa_node \<Rightarrow> bool) \<Rightarrow> 'w \<Rightarrow> (string + raw_adapter list) \<times> 'w" where
  "adapters G selector w =
     (let ((ret, size, nodes), w) = G (15 * 1024) w;
          ((ret, size, nodes), w) = (if ret = 111 then G size w else ((ret, size, nodes), w))
      in if ret \<noteq> 0
         then (Inl (''GetAdaptersAddresses failed: error '' @ dec (unat ret)), w)
         else (Inr (map raw_of (filter selector nodes)), w))"

section \<open>Selection\<close>

definition info_of :: "raw_adapter \<Rightarrow> adapter_info option" where
  "info_of a = map_option (\<lambda>ip. \<lparr>ai_name = ra_name a, ai_ipv4 = ip, ai_gateway = ra_gateway a,
     ai_ifindex = ra_ifindex a\<rparr>) (ra_ipv4 a)"

definition candidates :: "raw_adapter list \<Rightarrow> adapter_info list" where
  "candidates raws = List.map_filter info_of
     (filter (\<lambda>a. \<not> is_virtual (ra_name a) \<and> \<not> is_virtual (ra_desc a)) raws)"

definition gateway_first :: "adapter_info list \<Rightarrow> adapter_info list" where
  "gateway_first = sort_key (\<lambda>a. of_bool (ai_gateway a = None) :: nat)"

definition first_of :: "'a list \<Rightarrow> 'a option" where
  "first_of xs = (case xs of [] \<Rightarrow> None | x # _ \<Rightarrow> Some x)"

definition physical_adapter :: "'w gaa \<Rightarrow> 'w \<Rightarrow> (string + adapter_info) \<times> 'w" where
  "physical_adapter G w =
     (case adapters G (\<lambda>a. gn_iftype a = if_type_ethernet \<and> gn_oper_status a = if_oper_status_up) w of
        (Inl e, w) \<Rightarrow> (Inl e, w)
      | (Inr raws, w) \<Rightarrow>
          (case first_of (gateway_first (candidates raws)) of
             Some a \<Rightarrow> (Inr a, w)
           | None \<Rightarrow> (Inl ''No usable physical Ethernet adapter found'', w)))"

definition ppp_adapter_ip :: "'w gaa \<Rightarrow> 'w \<Rightarrow> ipv4 option \<times> 'w" where
  "ppp_adapter_ip G w =
     (case adapters G (\<lambda>a. gn_iftype a = if_type_ppp) w of
        (Inl e, w) \<Rightarrow> (None, w)
      | (Inr raws, w) \<Rightarrow> (find_map ra_ipv4 raws, w))"

definition ppp_adapter :: "'w gaa \<Rightarrow> 'w \<Rightarrow> adapter_info option \<times> 'w" where
  "ppp_adapter G w =
     (case adapters G (\<lambda>a. gn_iftype a = if_type_ppp) w of
        (Inl e, w) \<Rightarrow> (None, w)
      | (Inr raws, w) \<Rightarrow> (find_map info_of raws, w))"

definition wlan_adapter :: "'w gaa \<Rightarrow> 'w \<Rightarrow> adapter_info option \<times> 'w" where
  "wlan_adapter G w =
     (case adapters G (\<lambda>a. gn_iftype a = if_type_ieee80211 \<and> gn_oper_status a = if_oper_status_up) w of
        (Inl e, w) \<Rightarrow> (None, w)
      | (Inr raws, w) \<Rightarrow> (first_of (gateway_first (candidates raws)), w))"

fun link_scan :: "raw_adapter list \<Rightarrow> bool \<Rightarrow> bool \<Rightarrow> bool \<times> bool" where
  "link_scan [] found up = (found, up)"
| "link_scan (a # as) found up =
     (if is_virtual (ra_name a) \<or> is_virtual (ra_desc a) then link_scan as found up
      else link_scan as True (if ra_oper_up a then True else up))"

definition ethernet_link_up :: "'w gaa \<Rightarrow> 'w \<Rightarrow> bool option \<times> 'w" where
  "ethernet_link_up G w =
     (case adapters G (\<lambda>a. gn_iftype a = if_type_ethernet) w of
        (Inl e, w) \<Rightarrow> (None, w)
      | (Inr raws, w) \<Rightarrow>
          (let (found, up) = link_scan raws False False in (if found then Some up else None, w)))"

definition other_adapter_has_dns :: "'w gaa \<Rightarrow> 'w \<Rightarrow> bool \<times> 'w" where
  "other_adapter_has_dns G w =
     (case adapters G (\<lambda>a. gn_iftype a \<noteq> if_type_ppp \<and> gn_oper_status a = if_oper_status_up) w of
        (Inl e, w) \<Rightarrow> (False, w)
      | (Inr raws, w) \<Rightarrow> (list_ex ra_has_dns raws, w))"

section \<open>Detaching the DNS of the PPP interface\<close>

text \<open>
  The child process and the clock. \<open>np_try_wait\<close> answers whether the process has ended, \<open>np_wait\<close>
  waits for it, \<open>np_kill\<close> kills it (both answer the debug text of their result), \<open>np_output\<close> gives its exit status and output once it has ended.
\<close>

record 'w netsh_api =
  np_spawn :: "string list \<Rightarrow> 'w \<Rightarrow> (string + unit) \<times> 'w"
  np_try_wait :: "'w \<Rightarrow> (string + bool) \<times> 'w"
  np_kill :: "'w \<Rightarrow> string \<times> 'w"
  np_wait :: "'w \<Rightarrow> string \<times> 'w"
  np_output :: "'w \<Rightarrow> (string + bool \<times> string) \<times> 'w"
  np_now :: "'w \<Rightarrow> nat"
  np_sleep :: "duration \<Rightarrow> 'w \<Rightarrow> 'w"
  np_observe :: "'w \<Rightarrow> 'w"

definition netsh_args :: "string \<Rightarrow> string list" where
  "netsh_args name = [''interface'', ''ipv4'', ''set'', ''dnsservers'', ''name='' @ name, ''source=static'',
     ''address=none'']"

text \<open>The polling loop; \<open>None\<close> when the fuel does not suffice.\<close>

primrec poll_child :: "'w netsh_api \<Rightarrow> nat \<Rightarrow> nat \<Rightarrow> 'w \<Rightarrow> ((string + unit) \<times> 'w) option" where
  "poll_child P 0 deadline w = None"
| "poll_child P (Suc fuel) deadline w =
     (case np_try_wait P w of
        (Inr True, w) \<Rightarrow> Some (Inr (), w)
      | (Inl e, w) \<Rightarrow> Some (Inl e, snd (np_wait P (snd (np_kill P w))))
      | (Inr False, w) \<Rightarrow>
          if deadline \<le> np_now P w
          then (let (killed, w) = np_kill P w; (reaped, w) = np_wait P w
                in Some (Inl (''netsh DNS command timed out (kill='' @ killed @ '', wait='' @ reaped @ '')''), w))
          else poll_child P fuel deadline (np_sleep P (25 * 1000000) w))"

text \<open>\<open>args.join\<close> with a space.\<close>

fun join_args :: "string list \<Rightarrow> string" where
  "join_args [] = []"
| "join_args [a] = a"
| "join_args (a # b # rest) = a @ '' '' @ join_args (b # rest)"

definition set_ppp_dns_none :: "'w netsh_api \<Rightarrow> nat \<Rightarrow> string \<Rightarrow> 'w \<Rightarrow> ((string + unit) \<times> 'w) option" where
  "set_ppp_dns_none P fuel name w =
     (case np_spawn P (netsh_args name) w of
        (Inl e, w) \<Rightarrow> Some (Inl e, w)
      | (Inr _, w) \<Rightarrow>
          (case poll_child P fuel (np_now P w + from_secs 5) w of
             None \<Rightarrow> None
           | Some (Inl e, w) \<Rightarrow> Some (Inl e, w)
           | Some (Inr _, w) \<Rightarrow>
               (case np_output P w of
                  (Inl e, w) \<Rightarrow> Some (Inl e, w)
                | (Inr (ok, out), w) \<Rightarrow>
                    Some (if ok then Inr ()
                          else Inl (''netsh '' @ join_args (netsh_args name) @ '' failed: '' @ trim out), w))))"

definition detach_ppp_dns ::
  "'w gaa \<Rightarrow> 'w netsh_api \<Rightarrow> nat \<Rightarrow> string \<Rightarrow> 'w \<Rightarrow> 'w option" where
  "detach_ppp_dns G P fuel entry w =
     (let (dns, w) = other_adapter_has_dns G w
      in if \<not> dns then Some w
         else (case set_ppp_dns_none P fuel entry w of
                 None \<Rightarrow> None
               | Some (Inl e, w) \<Rightarrow> Some w
               | Some (Inr _, w) \<Rightarrow> Some (np_observe P w)))"

text \<open>
  \<open>observe_dns\<close>: the flag \<open>OBSERVING\<close> and the observer threads that run. \<open>spawns\<close> says whether the
  thread can be started; the thread resets the flag when it ends.
\<close>

record observer =
  ob_observing :: bool
  ob_running :: nat

definition observe_dns :: "bool \<Rightarrow> observer \<Rightarrow> observer" where
  "observe_dns spawns ob =
     (if ob_observing ob then ob
      else (let ob = ob\<lparr>ob_observing := True\<rparr>
            in if spawns then ob\<lparr>ob_running := ob_running ob + 1\<rparr> else ob\<lparr>ob_observing := False\<rparr>))"

definition observer_exit :: "observer \<Rightarrow> observer" where
  "observer_exit ob = ob\<lparr>ob_observing := False, ob_running := ob_running ob - 1\<rparr>"

section \<open>Properties\<close>

lemma first_of_insort:
  "first_of (insort_key f x xs) = Some (case first_of xs of None \<Rightarrow> x | Some y \<Rightarrow> if f x \<le> f y then x else y)"
  by (cases xs) (auto simp: first_of_def)

text \<open>The stable sort by the absence of a gateway takes the first adapter with a gateway, if any.\<close>

lemma first_of_gateway_first:
  "first_of (gateway_first xs) =
     (case find (\<lambda>a. ai_gateway a \<noteq> None) xs of Some a \<Rightarrow> Some a | None \<Rightarrow> first_of xs)"
proof (induction xs)
  case Nil
  show ?case by (simp add: gateway_first_def first_of_def)
next
  case (Cons x xs)
  have g: "gateway_first (x # xs) = insort_key (\<lambda>a. of_bool (ai_gateway a = None) :: nat) x (gateway_first xs)"
    by (simp add: gateway_first_def)
  show ?case
  proof (cases "find (\<lambda>a. ai_gateway a \<noteq> None) xs")
    case None
    then have "list_all (\<lambda>a. ai_gateway a = None) xs" by (simp add: find_None_iff list_all_iff)
    with None show ?thesis
      unfolding g first_of_insort Cons.IH by (cases xs) (simp_all add: first_of_def)
  next
    case (Some a)
    then have "ai_gateway a \<noteq> None" by (auto simp: find_Some_iff)
    with Some show ?thesis unfolding g first_of_insort Cons.IH by auto
  qed
qed

lemma set_candidates:
  "a \<in> set (candidates raws) \<longleftrightarrow> (\<exists>r \<in> set raws. \<not> is_virtual (ra_name r) \<and> \<not> is_virtual (ra_desc r)
     \<and> info_of r = Some a)"
  by (force simp: candidates_def List.map_filter_def)

lemma adapters_sel: "fst (adapters G sel w) = Inr raws \<Longrightarrow> r \<in> set raws \<Longrightarrow> \<exists>n. sel n \<and> r = raw_of n"
  by (auto simp: adapters_def Let_def case_prod_beta split: if_splits)

lemma link_scan_eq:
  "link_scan raws found up =
     (found \<or> (\<exists>r \<in> set raws. \<not> is_virtual (ra_name r) \<and> \<not> is_virtual (ra_desc r)),
      up \<or> (\<exists>r \<in> set raws. \<not> is_virtual (ra_name r) \<and> \<not> is_virtual (ra_desc r) \<and> ra_oper_up r))"
  by (induction raws found up rule: link_scan.induct) auto

text \<open>
  The cable counts as out exactly when there is a non-virtual Ethernet adapter and none of them is
  up; one adapter that is up is enough for a link.
\<close>

lemma ethernet_link_up_cases:
  assumes "adapters G (\<lambda>a. gn_iftype a = if_type_ethernet) w = (Inr raws, w')"
  shows "fst (ethernet_link_up G w) =
    (let real = filter (\<lambda>r. \<not> is_virtual (ra_name r) \<and> \<not> is_virtual (ra_desc r)) raws
     in if real = [] then None else Some (list_ex ra_oper_up real))"
  using assms by (auto simp: ethernet_link_up_def link_scan_eq Let_def filter_empty_conv list_ex_iff)

text \<open>
  C16 (equivalence). The adapter the service binds its probes and its heartbeat to. Sorting the
  candidates is the same as taking the first one with a gateway and, without any, the first one: the
  adapter chosen is an Ethernet adapter that is up and has an IPv4 address, neither its name nor its
  description names a virtual adapter, and it has a gateway if any of the candidates has one. An
  error means that the enumeration failed or that there is no candidate.
\<close>

theorem physical_adapter_choice:
  "case fst (adapters G (\<lambda>n. gn_iftype n = if_type_ethernet \<and> gn_oper_status n = if_oper_status_up) w) of
     Inl e \<Rightarrow> fst (physical_adapter G w) = Inl e
   | Inr raws \<Rightarrow>
       (case fst (physical_adapter G w) of
          Inl _ \<Rightarrow> candidates raws = []
        | Inr a \<Rightarrow> (case find (\<lambda>b. ai_gateway b \<noteq> None) (candidates raws) of
                       Some b \<Rightarrow> a = b | None \<Rightarrow> first_of (candidates raws) = Some a)
            \<and> (\<exists>n. gn_iftype n = if_type_ethernet \<and> gn_oper_status n = if_oper_status_up
                 \<and> info_of (raw_of n) = Some a
                 \<and> \<not> is_virtual (ra_name (raw_of n)) \<and> \<not> is_virtual (ra_desc (raw_of n))))"
proof -
  let ?sel = "\<lambda>n. gn_iftype n = if_type_ethernet \<and> gn_oper_status n = if_oper_status_up"
  show ?thesis
  proof (cases "fst (adapters G ?sel w)")
    case (Inl e)
    then show ?thesis by (auto simp: physical_adapter_def split: prod.splits)
  next
    case (Inr raws)
    have p: "fst (physical_adapter G w) = (case first_of (gateway_first (candidates raws)) of
        Some a \<Rightarrow> Inr a | None \<Rightarrow> Inl ''No usable physical Ethernet adapter found'')"
      using Inr by (auto simp: physical_adapter_def split: prod.splits option.splits)
    show ?thesis
    proof (cases "first_of (gateway_first (candidates raws))")
      case None
      then have "length (gateway_first (candidates raws)) = 0"
        by (simp add: first_of_def split: list.splits)
      then have "candidates raws = []" by (simp add: gateway_first_def)
      with Inr None show ?thesis by (simp add: p)
    next
      case (Some a)
      then have f: "case find (\<lambda>b. ai_gateway b \<noteq> None) (candidates raws) of
          Some b \<Rightarrow> a = b | None \<Rightarrow> first_of (candidates raws) = Some a"
        by (auto simp: first_of_gateway_first split: option.splits)
      then have "a \<in> set (candidates raws)"
        by (auto simp: find_Some_iff first_of_def split: option.splits list.splits)
      then obtain r where r: "r \<in> set raws" "\<not> is_virtual (ra_name r)" "\<not> is_virtual (ra_desc r)"
        "info_of r = Some a" by (auto simp: set_candidates)
      with adapters_sel [OF Inr, of r] f show ?thesis by (auto simp: Inr p Some)
    qed
  qed
qed

section \<open>The netsh child\<close>

text \<open>
  What the code relies on: the clock does not run backwards, a sleep lasts as long as asked, and a
  process that has ended or been waited for no longer runs.
\<close>

definition netsh_laws :: "'w netsh_api \<Rightarrow> ('w \<Rightarrow> bool) \<Rightarrow> bool" where
  "netsh_laws P running \<longleftrightarrow>
     (\<forall>w. np_now P w \<le> np_now P (snd (np_try_wait P w)))
     \<and> (\<forall>d w. np_now P w + d \<le> np_now P (np_sleep P d w))
     \<and> (\<forall>w. fst (np_try_wait P w) = Inr True \<longrightarrow> \<not> running (snd (np_try_wait P w)))
     \<and> (\<forall>w. \<not> running (snd (np_wait P w)))
     \<and> (\<forall>w. \<not> running w \<longrightarrow> \<not> running (snd (np_output P w)))
     \<and> (\<forall>args w e. fst (np_spawn P args w) = Inl e \<longrightarrow> running (snd (np_spawn P args w)) = running w)"

lemma poll_child_ends:
  assumes l: "netsh_laws P running"
  shows "deadline < np_now P w + fuel * 25000000 \<Longrightarrow>
    \<exists>r w'. poll_child P (Suc fuel) deadline w = Some (r, w') \<and> \<not> running w'"
proof (induction fuel arbitrary: w)
  case 0
  obtain t w1 where t: "np_try_wait P w = (t, w1)" by fastforce
  with l have n: "np_now P w \<le> np_now P w1" and d: "t = Inr True \<Longrightarrow> \<not> running w1"
    unfolding netsh_laws_def by (metis snd_conv, metis fst_conv snd_conv)
  have k: "\<not> running (snd (np_wait P x))" for x using l by (simp add: netsh_laws_def)
  show ?case
  proof (cases t)
    case (Inr b)
    with 0 n d k t show ?thesis by (cases b) (auto simp: case_prod_beta)
  qed (use t k in auto)
next
  case (Suc fuel)
  obtain t w1 where t: "np_try_wait P w = (t, w1)" by fastforce
  with l have n: "np_now P w \<le> np_now P w1" and d: "t = Inr True \<Longrightarrow> \<not> running w1"
    unfolding netsh_laws_def by (metis snd_conv, metis fst_conv snd_conv)
  have k: "\<not> running (snd (np_wait P x))" for x using l by (simp add: netsh_laws_def)
  have "np_now P w1 + 25000000 \<le> np_now P (np_sleep P 25000000 w1)" using l by (simp add: netsh_laws_def)
  with Suc.prems n have "deadline < np_now P (np_sleep P 25000000 w1) + fuel * 25000000" by simp
  note ih = Suc.IH [OF this]
  show ?case
  proof (cases t)
    case (Inr b)
    show ?thesis
    proof (cases b)
      case True
      with d t Inr show ?thesis by simp
    next
      case False
      with t Inr k ih show ?thesis
        by (subst poll_child.simps(2)) (simp add: case_prod_beta del: poll_child.simps)
    qed
  qed (use t k in auto)
qed

text \<open>
  The command that clears the DNS servers of the PPP interface is bounded and
  leaves nothing behind: whatever netsh does, the polling loop of 25 ms ends within 202 rounds of
  its five-second deadline, and when the function returns, the child has been waited for, so no
  process is left that could still change DNS settings.
\<close>

theorem netsh_bounded_and_reaped:
  assumes "netsh_laws P running" and "\<not> running w" and "202 \<le> fuel"
  shows "\<exists>r w'. set_ppp_dns_none P fuel name w = Some (r, w') \<and> \<not> running w'"
proof (cases "np_spawn P (netsh_args name) w")
  case (Pair t w1)
  show ?thesis
  proof (cases t)
    case (Inl e)
    with assms(1,2) Pair have "\<not> running w1" unfolding netsh_laws_def by (metis fst_conv snd_conv)
    with Pair Inl show ?thesis by (simp add: set_ppp_dns_none_def)
  next
    case (Inr u)
    from assms(3) obtain n where n: "fuel = Suc n" "201 \<le> n" by (cases fuel) auto
    have "np_now P w1 + from_secs 5 < np_now P w1 + n * 25000000" using n(2) by (simp add: from_secs_def)
    from poll_child_ends [OF assms(1) this] obtain r w2 where
      p: "poll_child P fuel (np_now P w1 + from_secs 5) w1 = Some (r, w2)" "\<not> running w2"
      by (auto simp: n(1))
    with assms(1) have "\<not> running (snd (np_output P w2))" by (simp add: netsh_laws_def)
    with p Pair Inr show ?thesis
      by (auto simp: set_ppp_dns_none_def split: sum.splits prod.splits)
  qed
qed

text \<open>A child that never ends by itself, over a clock and the flag whether it runs.\<close>

definition hung_netsh :: "(nat \<times> bool) netsh_api" where
  "hung_netsh = \<lparr>np_spawn = \<lambda>_ (t, _). (Inr (), t, True), np_try_wait = \<lambda>w. (Inr (\<not> snd w), w),
     np_kill = \<lambda>(t, _). (''Ok(())'', t, False), np_wait = \<lambda>(t, _). (''Ok(1)'', t, False),
     np_output = \<lambda>w. (Inr (False, []), w), np_now = fst, np_sleep = \<lambda>d (t, r). (t + d, r),
     np_observe = \<lambda>w. w\<rparr>"

theorem netsh_bounded_and_reaped_witness:
  "\<exists>r t. set_ppp_dns_none hung_netsh 202 ''gdut-net'' (0, False) = Some (r, t, False)"
proof -
  have "netsh_laws hung_netsh snd"
    by (simp add: netsh_laws_def hung_netsh_def split: prod.splits)
  from netsh_bounded_and_reaped [OF this, of "(0, False)" 202 "''gdut-net''"] obtain r w' where
    "set_ppp_dns_none hung_netsh 202 ''gdut-net'' (0, False) = Some (r, w')" "\<not> snd w'" by auto
  then show ?thesis by (cases w') auto
qed

lemma one_observer:
  "ob_running ob = of_bool (ob_observing ob) \<Longrightarrow>
     ob_running (observe_dns b ob) = of_bool (ob_observing (observe_dns b ob))
     \<and> ob_running (observer_exit ob) = of_bool (ob_observing (observer_exit ob))"
  by (auto simp: observe_dns_def observer_exit_def Let_def)

end
