(* ===== verification/Worker.thy ===== *)
theory Worker
  imports Supervisor_Props Routes
begin

text \<open>
  The wireless worker of \<open>src/src/runtime.rs\<close> (\<open>WirelessWorker\<close>): it executes the effects of the
  wireless lane one after the other over the route guard. What the worker asks of the WLAN, of the
  portal, of the probe and of time is the record \<open>worker_env\<close> over a world state \<open>'w\<close>. The race of
  an awaited call with the stop token is \<open>we_cut\<close>: \<open>Some w\<close> when the stop comes first, leaving
  the world \<open>w\<close>.
\<close>

section \<open>State\<close>

record 'w worker_env =
  we_associate :: "string \<Rightarrow> 'w \<Rightarrow> (string + string + unit) \<times> 'w"
  we_disassociate :: "'w \<Rightarrow> 'w"
  we_net :: "'w net"
  we_login_deadline :: "'w \<Rightarrow> bool"
  we_auth_deadline :: "duration \<Rightarrow> 'w \<Rightarrow> bool"
  we_probe :: "ipv4 \<Rightarrow> ipv4 option \<Rightarrow> string \<Rightarrow> 'w \<Rightarrow> probe_verdict \<times> 'w"
  we_sleep :: "duration \<Rightarrow> 'w \<Rightarrow> 'w"
  we_cut :: "'w \<Rightarrow> 'w option"
  we_deliver :: "'w \<Rightarrow> bool"

record ('k, 'w) worker =
  wk_world :: 'w
  wk_portal_url :: string
  wk_wlan_ac_ip :: string
  wk_user :: string
  wk_pass :: string
  wk_portal_ip :: ipv4
  wk_probe_ip :: ipv4
  wk_sent :: "event list"
  wk_egress :: "'k route_guard egress"
  wk_egress_error :: "string option"

datatype lane_msg = LaneEffect effect | Shutdown "effect list"

definition worker_new :: "config \<Rightarrow> string \<Rightarrow> 'k \<Rightarrow> 'w \<Rightarrow> string + ('k, 'w) worker" where
  "worker_new cfg pass k w =
     (case (map_option fst (parse_http_probe_target (wc_portal_url (cf_wireless cfg))),
            parse_ipv4 (wc_probe_host (cf_wireless cfg))) of
        (Some portal_ip, Some probe_ip) \<Rightarrow>
          Inr \<lparr>wk_world = w, wk_portal_url = wc_portal_url (cf_wireless cfg),
               wk_wlan_ac_ip = wc_wlan_ac_ip (cf_wireless cfg),
               wk_user = ac_student_id (cf_account cfg), wk_pass = pass,
               wk_portal_ip = portal_ip, wk_probe_ip = probe_ip, wk_sent = [],
               wk_egress = egress_new (route_guard_new k), wk_egress_error = None\<rparr>
      | _ \<Rightarrow> Inl ''Wireless: portal_url/probe_host invalid, manager disabled'')"

section \<open>Effects\<close>

definition send_event :: "'w worker_env \<Rightarrow> event \<Rightarrow> ('k, 'w) worker \<Rightarrow> ('k, 'w) worker" where
  "send_event N ev wk =
     (if we_deliver N (wk_world wk) then wk\<lparr>wk_sent := wk_sent wk @ [ev]\<rparr> else wk)"

definition raced :: "'w worker_env \<Rightarrow> bool \<Rightarrow> ('w \<Rightarrow> 'a \<times> 'w) \<Rightarrow> 'w \<Rightarrow> 'a option \<times> 'w" where
  "raced N race_stop task w =
     (case (if race_stop then we_cut N w else None) of
        Some w' \<Rightarrow> (None, w')
      | None \<Rightarrow> (let (x, w') = task w in (Some x, w')))"

definition run_associate ::
  "'w worker_env \<Rightarrow> bool \<Rightarrow> string \<Rightarrow> ('k, 'w) worker \<Rightarrow> ('k, 'w) worker" where
  "run_associate N race_stop profile wk =
     (case raced N race_stop (we_associate N profile) (wk_world wk) of
        (None, w) \<Rightarrow> wk\<lparr>wk_world := w\<rparr>
      | (Some joined, w) \<Rightarrow>
          send_event N (AssociateFinished
              (case joined of Inl e \<Rightarrow> Inl (''associate task join failed: '' @ e) | Inr r \<Rightarrow> r))
            (wk\<lparr>wk_world := w\<rparr>))"

definition run_acquire :: "'k ip_helper \<Rightarrow> wlan_endpoint \<Rightarrow> ('k, 'w) worker \<Rightarrow> ('k, 'w) worker" where
  "run_acquire H ep wk =
     (let (r, e) = acquire (route_guard_ops H) ep (wk_egress wk)
      in wk\<lparr>wk_egress := e, wk_egress_error :=
           (case r of Inl m \<Rightarrow> Some (''Wireless Egress acquisition failed: '' @ m) | Inr _ \<Rightarrow> None)\<rparr>)"

text \<open>\<open>portal::login\<close> with its own deadline, inside the timeout of the effect.\<close>

definition portal_attempt_of ::
  "'v serde \<Rightarrow> 'w worker_env \<Rightarrow> ipv4 \<Rightarrow> duration \<Rightarrow> ('k, 'w) worker \<Rightarrow> 'w \<Rightarrow> portal_attempt \<times> 'w" where
  "portal_attempt_of J N src timeout wk w =
     (let (r, w') = login_inner J (we_net N) src (wk_portal_url wk) (wk_user wk) (wk_pass wk)
                      (wk_wlan_ac_ip wk) w
      in if we_auth_deadline N timeout w then (TimedOut, w')
         else if we_login_deadline N w
         then (PortalFailed ''Portal authentication deadline exceeded'', w')
         else (case r of Inr (status, body) \<Rightarrow> (Replied status body, w')
               | Inl e \<Rightarrow> (PortalFailed e, w')))"

definition run_portal_auth ::
  "'v serde \<Rightarrow> 'w worker_env \<Rightarrow> bool \<Rightarrow> ipv4 \<Rightarrow> duration \<Rightarrow> ('k, 'w) worker \<Rightarrow> ('k, 'w) worker" where
  "run_portal_auth J N race_stop src timeout wk =
     (case wk_egress_error wk of
        Some e \<Rightarrow> send_event N (PortalFinished (PortalFailed e)) (wk\<lparr>wk_egress_error := None\<rparr>)
      | None \<Rightarrow>
          (case raced N race_stop (portal_attempt_of J N src timeout wk) (wk_world wk) of
             (None, w) \<Rightarrow> wk\<lparr>wk_world := w\<rparr>
           | (Some attempt, w) \<Rightarrow> send_event N (PortalFinished attempt) (wk\<lparr>wk_world := w\<rparr>)))"

definition run_wlan_probe ::
  "'w worker_env \<Rightarrow> bool \<Rightarrow> ipv4 \<Rightarrow> ipv4 option \<Rightarrow> string \<Rightarrow> ('k, 'w) worker \<Rightarrow> ('k, 'w) worker" where
  "run_wlan_probe N race_stop src gateway url wk =
     (case raced N race_stop (we_probe N src gateway url) (wk_world wk) of
        (None, w) \<Rightarrow> wk\<lparr>wk_world := w\<rparr>
      | (Some verdict, w) \<Rightarrow> send_event N (WlanProbeFinished verdict) (wk\<lparr>wk_world := w\<rparr>))"

definition clean_routes :: "'k ip_helper \<Rightarrow> ('k, 'w) worker \<Rightarrow> ('k, 'w) worker" where
  "clean_routes H wk =
     (let e = wk_egress wk; g = eg_ops e
      in wk\<lparr>wk_egress := e\<lparr>eg_ops := g\<lparr>rg_kernel :=
           cleanup_stale H [wk_portal_ip wk, wk_probe_ip wk] (rg_kernel g)\<rparr>\<rparr>\<rparr>)"

fun run_effect ::
  "'v serde \<Rightarrow> 'k ip_helper \<Rightarrow> 'w worker_env \<Rightarrow> bool \<Rightarrow> effect \<Rightarrow> ('k, 'w) worker \<Rightarrow> ('k, 'w) worker"
where
  "run_effect J H N race_stop CleanupStaleRoutes wk = clean_routes H wk"
| "run_effect J H N race_stop (Associate profile) wk = run_associate N race_stop profile wk"
| "run_effect J H N race_stop Disassociate wk =
     wk\<lparr>wk_world := snd (raced N race_stop (\<lambda>w. ((), we_disassociate N w)) (wk_world wk))\<rparr>"
| "run_effect J H N race_stop (AcquireWirelessEgress ep) wk = run_acquire H ep wk"
| "run_effect J H N race_stop (SuppressMetric ifindex target) wk =
     wk\<lparr>wk_egress := suppress_metric (route_guard_ops H)
          \<lparr>ep_gateway = Ipv4 0 0 0 0, ep_ifindex = ifindex\<rparr> target (wk_egress wk)\<rparr>"
| "run_effect J H N race_stop ReleaseMetric wk =
     wk\<lparr>wk_egress := snd (release_metric (route_guard_ops H) (wk_egress wk))\<rparr>"
| "run_effect J H N race_stop TeardownRoutes wk =
     wk\<lparr>wk_egress := snd (release (route_guard_ops H) (wk_egress wk)), wk_egress_error := None\<rparr>"
| "run_effect J H N race_stop (Settle d) wk =
     wk\<lparr>wk_world := snd (raced N race_stop (\<lambda>w. ((), we_sleep N d w)) (wk_world wk))\<rparr>"
| "run_effect J H N race_stop (PortalAuth src timeout) wk = run_portal_auth J N race_stop src timeout wk"
| "run_effect J H N race_stop (WlanProbe src gateway url) wk =
     run_wlan_probe N race_stop src gateway url wk"
| "run_effect J H N race_stop _ wk = wk"

section \<open>The loop\<close>

text \<open>What the loop waits for: a message of the lane, or two seconds without one.\<close>

datatype lane_input = Msg lane_msg | IdleTick

definition retry_worker :: "'k ip_helper \<Rightarrow> ('k, 'w) worker \<Rightarrow> ('k, 'w) worker" where
  "retry_worker H wk = wk\<lparr>wk_egress := snd (retry_cleanup (route_guard_ops H) (wk_egress wk))\<rparr>"

fun worker_run ::
  "'v serde \<Rightarrow> 'k ip_helper \<Rightarrow> 'w worker_env \<Rightarrow> lane_input list \<Rightarrow> ('k, 'w) worker \<Rightarrow> ('k, 'w) worker"
where
  "worker_run J H N [] wk = wk"
| "worker_run J H N (IdleTick # ins) wk =
     worker_run J H N ins (if has_pending_cleanup (wk_egress wk) then retry_worker H wk else wk)"
| "worker_run J H N (Msg (LaneEffect e) # ins) wk =
     worker_run J H N ins (run_effect J H N True e (retry_worker H wk))"
| "worker_run J H N (Msg (Shutdown es) # ins) wk =
     fold (run_effect J H N False) es (retry_worker H wk)"

text \<open>The end of the worker: its egress is dropped, and the route guard in it.\<close>

definition worker_drop :: "'k ip_helper \<Rightarrow> ('k, 'w) worker \<Rightarrow> 'k route_guard" where
  "worker_drop H wk = teardown H (eg_ops (egress_drop (route_guard_ops H) (wk_egress wk)))"

text \<open>The worker as \<open>run\<close> starts it.\<close>

definition worker_start :: "'k ip_helper \<Rightarrow> ('k, 'w) worker \<Rightarrow> ('k, 'w) worker" where
  "worker_start H wk =
     wk\<lparr>wk_egress := own_destinations (route_guard_ops H) [wk_portal_ip wk, wk_probe_ip wk] (wk_egress wk)\<rparr>"

section \<open>The worker keeps the egress exact\<close>

text \<open>
  Both ledgers list the installed routes once, and no row of the system table is neither an original
  one nor in the ledger.
\<close>

definition worker_inv :: "('k \<Rightarrow> forward_row set) \<Rightarrow> forward_row set \<Rightarrow> ('k, 'w) worker \<Rightarrow> bool" where
  "worker_inv K K0 wk \<longleftrightarrow> guard.ledger_exact (wk_egress wk) \<and> metric_inv (wk_egress wk)
     \<and> no_leak K K0 (eg_ops (wk_egress wk))"

lemma send_event_egress [simp]: "wk_egress (send_event N ev wk) = wk_egress wk"
  by (simp add: send_event_def)

lemma worker_inv_egress: "wk_egress wk' = wk_egress wk \<Longrightarrow> worker_inv K K0 wk' = worker_inv K K0 wk"
  by (simp add: worker_inv_def)

lemma run_associate_egress [simp]: "wk_egress (run_associate N r p wk) = wk_egress wk"
  by (simp add: run_associate_def split: prod.splits option.splits)

lemma run_portal_auth_egress [simp]: "wk_egress (run_portal_auth J N r src t wk) = wk_egress wk"
  by (simp add: run_portal_auth_def split: prod.splits option.splits)

lemma run_wlan_probe_egress [simp]: "wk_egress (run_wlan_probe N r src g u wk) = wk_egress wk"
  by (simp add: run_wlan_probe_def split: prod.splits option.splits)

lemma cleanup_stale_table:
  assumes "table_laws H K" shows "K (cleanup_stale H dests k) \<subseteq> K k"
proof -
  have row: "K (cleanup_row H dests r k) \<subseteq> K k" for r k
  proof -
    have "K (snd (ih_delete H r k)) \<subseteq> K k" for r k
      using assms by (auto simp: table_laws_def)
    then show ?thesis by (simp add: cleanup_row_def Let_def kernel_del_def case_prod_beta)
  qed
  have "K (fold (cleanup_row H dests) rows k) \<subseteq> K k" for rows
  proof (induction rows arbitrary: k)
    case (Cons r rows)
    from Cons.IH [of "cleanup_row H dests r k"] row [of r k] show ?case by auto
  qed simp
  then show ?thesis by (simp add: cleanup_stale_def split: option.splits)
qed

lemma retry_worker_inv:
  assumes "table_laws H K" "worker_inv K K0 wk" shows "worker_inv K K0 (retry_worker H wk)"
  using assms guard.retry_cleanup_ledger [of "wk_egress wk" H]
    retry_cleanup_exact(2) [of "wk_egress wk" "route_guard_ops H"]
    egress_stable.retry_keeps [OF route_guard_stable [OF assms(1)], of K0 "wk_egress wk"]
  by (simp add: worker_inv_def retry_worker_def)

lemma run_effect_inv:
  assumes l: "table_laws H K" and w: "worker_inv K K0 wk"
  shows "worker_inv K K0 (run_effect J H N race_stop e wk)"
proof -
  let ?e = "wk_egress wk"
  note st = route_guard_stable [OF l, of K0]
  from w have i: "guard.ledger_exact ?e" "metric_inv ?e" "no_leak K K0 (eg_ops ?e)"
    by (simp_all add: worker_inv_def)
  show ?thesis
  proof (cases e)
    case CleanupStaleRoutes
    from i(3) cleanup_stale_table [OF l, of "[wk_portal_ip wk, wk_probe_ip wk]" "rg_kernel (eg_ops ?e)"]
    show ?thesis using i CleanupStaleRoutes
      by (auto simp: worker_inv_def clean_routes_def guard.ledger_exact_def metric_inv_def no_leak_def Let_def)
  next
    case (AcquireWirelessEgress ep)
    with i egress_stable.acquire_keeps [OF st, of ?e ep] metric_inv_ops(4) [of "route_guard_ops H" ep ?e]
      guard.acquire_ledger [of ?e H ep]
    show ?thesis by (simp add: worker_inv_def run_acquire_def case_prod_beta Let_def)
  next
    case (SuppressMetric ifindex target)
    with i egress_stable.suppress_keeps [OF st, of "eg_ops ?e" ifindex target]
    show ?thesis
      by (simp add: worker_inv_def guard.suppress_ledger metric_inv_ops(2)) (simp add: suppress_metric_def)
  next
    case ReleaseMetric
    with i egress_stable.release_metric_keeps [OF st, of ?e]
      release_metric_pending(2) [OF i(2), of "route_guard_ops H"] guard.release_metric_ledger [of H ?e]
    show ?thesis by (simp add: worker_inv_def)
  next
    case TeardownRoutes
    with i egress_stable.release_keeps [OF st, of ?e] metric_inv_release [OF i(2), of "route_guard_ops H"]
      guard.release_ledger [of ?e H]
    show ?thesis by (simp add: worker_inv_def)
  qed (use w in \<open>simp_all add: worker_inv_def\<close>)
qed

lemma fold_effects_inv:
  assumes l: "table_laws H K"
  shows "worker_inv K K0 wk \<Longrightarrow> worker_inv K K0 (fold (run_effect J H N r) es wk)"
  by (induction es arbitrary: wk) (simp_all add: run_effect_inv [OF l])

lemma worker_run_inv:
  assumes l: "table_laws H K" shows "worker_inv K K0 wk \<Longrightarrow> worker_inv K K0 (worker_run J H N ins wk)"
proof (induction ins arbitrary: wk)
  case (Cons i ins)
  show ?case
  proof (cases i)
    case IdleTick
    with Cons show ?thesis by (simp add: retry_worker_inv [OF l])
  next
    case (Msg m)
    with Cons show ?thesis
      by (cases m) (simp_all add: retry_worker_inv [OF l] run_effect_inv [OF l] fold_effects_inv [OF l])
  qed
qed simp

lemma worker_new_egress:
  "worker_new cfg pass k w = Inr wk \<Longrightarrow> wk_egress wk = egress_new (route_guard_new k)"
  by (auto simp: worker_new_def split: option.splits)

lemma worker_start_inv:
  assumes "table_laws H K" "worker_new cfg pass k w = Inr wk"
  shows "worker_inv K (K k) (worker_start H wk)"
proof -
  let ?e = "egress_new (route_guard_new k)"
  have g: "guard.ledger_exact ?e" "metric_inv ?e" "no_leak K (K k) (eg_ops ?e)"
    by (simp_all add: guard.ledger_exact_def egress_new_def route_guard_new_def no_leak_def metric_inv_def)
  let ?u = "?e\<lparr>eg_dests := [wk_portal_ip wk, wk_probe_ip wk]\<rparr>"
  have "no_leak K (K k) (eg_ops (snd (retry_cleanup (route_guard_ops H) ?u)))"
    by (rule egress_stable.retry_keeps [OF route_guard_stable [OF assms(1)]]) (use g(3) in simp)
  with g worker_new_egress [OF assms(2)] show ?thesis
    by (simp add: worker_inv_def worker_start_def guard.own_destinations_ledger metric_inv_ops(3))
       (simp add: own_destinations_def)
qed

section \<open>Nothing is left behind\<close>

lemma delete_all_no_leak:
  "table_laws H K \<Longrightarrow> no_leak K K0 g \<Longrightarrow> no_leak K K0 (delete_all H rs g)"
  by (induction H rs g rule: delete_all.induct) (simp_all add: no_leak_delete)

lemma delete_all_ledger:
  assumes "\<And>r k. fst (ih_delete H r k) \<in> {0, 1168}"
  shows "set (rg_added (delete_all H rs g)) = set (rg_added g) - set rs"
proof (induction rs arbitrary: g)
  case (Cons r rs)
  obtain d gw i where r: "r = (d, gw, i)" by (cases r)
  have "fst (kernel_del H d gw i (rg_kernel g)) = Inr ()"
    using assms [of "mk_forward_row d gw i" "rg_kernel g"]
    by (auto simp: kernel_del_def Let_def case_prod_beta)
  then have "rg_added (snd (guard_delete_route H d gw i g)) = filter (\<lambda>x. x \<noteq> r) (rg_added g)"
    by (auto simp: guard_delete_route_def r split: prod.splits sum.splits)
  with Cons.IH [of "snd (guard_delete_route H d gw i g)"] r show ?case by auto
qed simp

text \<open>The end of an egress: its own release, then the guard's.\<close>

lemma drop_leaves_no_route:
  assumes l: "table_laws H K" and del: "\<And>r k. fst (ih_delete H r k) \<in> {0, 1168}" and e: "no_leak K K0 (eg_ops e)"
  shows "K (rg_kernel (teardown H (eg_ops (egress_drop (route_guard_ops H) e)))) \<subseteq> K0"
proof -
  define g where "g = eg_ops (egress_drop (route_guard_ops H) e)"
  from e have n: "no_leak K K0 g"
    unfolding egress_drop_def g_def by (rule egress_stable.release_keeps [OF route_guard_stable [OF l]])
  have "set (rg_added (delete_all H (rg_added g) g)) = {}" by (simp add: delete_all_ledger [OF del])
  moreover have "no_leak K K0 (delete_all H (rg_added g) g)" by (rule delete_all_no_leak [OF l n])
  ultimately have "K (rg_kernel (delete_all H (rg_added g) g)) \<subseteq> K0" by (simp add: no_leak_def)
  moreover have "K (rg_kernel (teardown H g)) \<subseteq> K (rg_kernel (delete_all H (rg_added g) g))"
    unfolding teardown_def by (rule restore_metric_table [OF l])
  ultimately show ?thesis by (simp add: g_def)
qed

text \<open>
  C5 (safety). However the service runs and ends, no route of the takeover survives it: for every
  sequence of lane messages, every behaviour of the WLAN, the portal, the probe and the clock, every
  race with the stop token, every failure to create a route and every loss of the shutdown message,
  once the worker is dropped the system routing table holds no row that was not there when it
  started, as long as the system does not refuse to delete rows.
\<close>

theorem worker_leaves_no_route:
  assumes "table_laws H K" and "worker_new cfg pass k w = Inr wk"
    and "\<And>r k. fst (ih_delete H r k) \<in> {0, 1168}"
  shows "K (rg_kernel (worker_drop H (worker_run J H N ins (worker_start H wk)))) \<subseteq> K k"
proof -
  have "worker_inv K (K k) (worker_run J H N ins (worker_start H wk))"
    by (rule worker_run_inv [OF assms(1) worker_start_inv [OF assms(1,2)]])
  with drop_leaves_no_route [OF assms(1,3)] show ?thesis by (simp add: worker_inv_def worker_drop_def)
qed

definition idle_env :: "unit worker_env" where
  "idle_env = \<lparr>we_associate = \<lambda>_ w. (Inr (Inr ()), w), we_disassociate = \<lambda>w. w,
     we_net = \<lparr>nt_get = \<lambda>_ _ n. (None, n), nt_sleep = \<lambda>_ n. n\<rparr>, we_login_deadline = \<lambda>_. False,
     we_auth_deadline = \<lambda>_ _. False, we_probe = \<lambda>_ _ _ w. (Alive, w), we_sleep = \<lambda>_ w. w,
     we_cut = \<lambda>_. None, we_deliver = \<lambda>_. True\<rparr>"

definition demo_worker :: "(forward_row list \<times> (u32 \<Rightarrow> if_row), unit) worker" where
  "demo_worker = \<lparr>wk_world = (), wk_portal_url = default_portal_url, wk_wlan_ac_ip = default_wlan_ac_ip,
     wk_user = [], wk_pass = ''pw'', wk_portal_ip = Ipv4 10 0 3 2, wk_probe_ip = Ipv4 223 5 5 5,
     wk_sent = [], wk_egress = egress_new (route_guard_new demo_kernel), wk_egress_error = None\<rparr>"

lemma demo_worker_new: "worker_new config_default ''pw'' demo_kernel () = Inr demo_worker"
  using default_targets
  by (simp add: worker_new_def demo_worker_def config_default_def wireless_default_def account_default_def)

theorem worker_leaves_no_route_witness:
  "set (fst (rg_kernel (worker_drop demo_helper (worker_run demo_json demo_helper idle_env
     [Msg (LaneEffect (AcquireWirelessEgress \<lparr>ep_gateway = Ipv4 172 16 0 1, ep_ifindex = 15\<rparr>))]
     (worker_start demo_helper demo_worker))))) = {}"
proof -
  have d: "\<And>r k. fst (ih_delete demo_helper r k) \<in> {0, 1168}"
    by (simp add: demo_helper_def case_prod_beta)
  from worker_leaves_no_route [OF demo_table_laws demo_worker_new d, of demo_json idle_env
     "[Msg (LaneEffect (AcquireWirelessEgress \<lparr>ep_gateway = Ipv4 172 16 0 1, ep_ifindex = 15\<rparr>))]"]
  show ?thesis by (simp add: demo_kernel_def case_prod_beta)
qed

section \<open>Logins only over the own routes\<close>

lemma retain_all: "(\<forall>r \<in> set rs. W r) \<Longrightarrow> retain_routes E W rs x f = (rs, x, f)"
  by (induction rs) auto

lemma retry_cleanup_idle:
  assumes "\<not> has_pending_cleanup e" shows "retry_cleanup E e = (Inr (), e)"
proof -
  have "retain_routes E (wanted e) (eg_added e) (eg_ops e) None = (eg_added e, eg_ops e, None)"
    using assms by (intro retain_all) (auto simp: has_pending_cleanup_def list_ex_iff)
  with assms show ?thesis by (simp add: retry_cleanup_def has_pending_cleanup_def)
qed

lemma run_settle [simp]:
  "wk_egress (run_effect J H N r (Settle d) wk) = wk_egress wk"
  "wk_egress_error (run_effect J H N r (Settle d) wk) = wk_egress_error wk"
  "wk_sent (run_effect J H N r (Settle d) wk) = wk_sent wk"
  by simp_all

lemma retry_worker_fields [simp]:
  "wk_egress_error (retry_worker H wk) = wk_egress_error wk"
  "wk_sent (retry_worker H wk) = wk_sent wk" "wk_world (retry_worker H wk) = wk_world wk"
  by (simp_all add: retry_worker_def)

lemma acquire_dests: "eg_dests (snd (acquire E ep x)) = eg_dests x"
  by (simp add: acquire_def Let_def case_prod_beta split: option.splits)

lemma release_dests: "eg_dests (snd (release E x)) = eg_dests x"
  using retry_cleanup_fields(1) [of E "x\<lparr>eg_route_endpoint := None\<rparr>"]
  by (simp add: release_def Let_def case_prod_beta release_metric_fields split: sum.splits)

lemma run_effect_dests:
  "eg_dests (wk_egress (run_effect J H N r e wk)) = eg_dests (wk_egress wk)"
  by (cases e) (simp_all add: clean_routes_def run_acquire_def Let_def case_prod_beta
      acquire_dests release_dests release_metric_fields suppress_metric_def)

lemma worker_run_dests:
  "eg_dests (wk_egress (worker_run J H N ins wk)) = eg_dests (wk_egress wk)"
proof (induction ins arbitrary: wk)
  case (Cons i ins)
  have f: "eg_dests (wk_egress (fold (run_effect J H N r) es x)) = eg_dests (wk_egress x)" for r es x
    by (induction es arbitrary: x) (simp_all add: run_effect_dests)
  have t: "eg_dests (wk_egress (retry_worker H x)) = eg_dests (wk_egress x)"
    for x :: "('a, 'b) worker" by (simp add: retry_worker_def)
  show ?case
  proof (cases i)
    case (Msg m)
    with Cons show ?thesis by (cases m) (simp_all add: run_effect_dests f t)
  qed (simp add: Cons t)
qed simp

text \<open>
  C6 (safety). The portal only ever sees a login over the service's own routes. At any point of the
  worker's life, the three effects of a login do one of two things: if the acquisition of the egress
  fails, no request is made, and the login is reported as failed with the reason; if it succeeds,
  the login runs while the routes the service has installed are exactly the host routes to the
  portal and the probe host through the gateway and interface acquired.
\<close>

theorem login_only_over_own_routes:
  fixes J :: "'v serde" and ep :: wlan_endpoint and src :: ipv4 and t :: duration
  assumes "table_laws H K" and "worker_new cfg pass k w = Inr wk0"
    and "wk = worker_run J H N ins (worker_start H wk0)"
    and "settled = snd (raced N True (\<lambda>w. ((), we_sleep N d w)) (wk_world wk))"
    and wk1_def: "wk1 = worker_run J H N [Msg (LaneEffect (AcquireWirelessEgress ep))] wk"
    and wk3_def: "wk3 = worker_run J H N (map (\<lambda>e. Msg (LaneEffect e))
                  [AcquireWirelessEgress ep, Settle d, PortalAuth src t]) wk"
  shows "case wk_egress_error wk1 of
      Some m \<Rightarrow> wk_world wk3 = settled \<and> wk_sent wk3 = wk_sent wk
          @ (if we_deliver N settled then [PortalFinished (PortalFailed m)] else [])
    | None \<Rightarrow> wk3 = run_portal_auth J N True src t (wk1\<lparr>wk_world := settled\<rparr>)
        \<and> set (rg_added (eg_ops (wk_egress wk3))) =
            (\<lambda>dest. (dest, ep_gateway ep, ep_ifindex ep)) ` {wk_portal_ip wk0, wk_probe_ip wk0}"
proof -
  have inv: "worker_inv K (K k) (retry_worker H wk)"
    unfolding assms(3)
    by (rule retry_worker_inv [OF assms(1) worker_run_inv [OF assms(1) worker_start_inv [OF assms(1,2)]]])
  have dests: "eg_dests (wk_egress (retry_worker H wk)) = [wk_portal_ip wk0, wk_probe_ip wk0]"
    using worker_new_egress [OF assms(2)] retry_cleanup_fields(1)
    by (simp add: retry_worker_def assms(3) worker_run_dests worker_start_def own_destinations_def)
  have wk1: "wk1 = run_acquire H ep (retry_worker H wk)" by (simp add: wk1_def)
  define e where "e = wk_egress (retry_worker H wk)"
  have world: "wk_world wk1 = wk_world wk" "wk_sent wk1 = wk_sent wk"
    by (simp_all add: wk1 run_acquire_def case_prod_beta)
  have wk3: "wk3 = run_portal_auth J N True src t (retry_worker H ((retry_worker H wk1)\<lparr>wk_world := settled\<rparr>))"
    using world(1) by (simp add: wk3_def wk1 assms(4))
  show ?thesis
  proof (cases "wk_egress_error wk1")
    case (Some m)
    then show ?thesis
      by (simp add: wk3 run_portal_auth_def send_event_def world)
  next
    case None
    then obtain u where u: "fst (acquire (route_guard_ops H) ep e) = Inr u"
      by (auto simp: wk1 run_acquire_def e_def case_prod_beta split: sum.splits)
    have i: "guard.ledger_exact e" "metric_inv e" using inv by (simp_all add: worker_inv_def e_def)
    note a = guard.acquire_success [OF i u]
    have we: "wk_egress wk1 = snd (acquire (route_guard_ops H) ep e)"
      by (simp add: wk1 run_acquire_def e_def case_prod_beta)
    then have idle: "retry_cleanup (route_guard_ops H) (wk_egress wk1) = (Inr (), wk_egress wk1)"
      by (intro retry_cleanup_idle) (simp add: a)
    then have "retry_worker H ((retry_worker H wk1)\<lparr>wk_world := settled\<rparr>) = wk1\<lparr>wk_world := settled\<rparr>"
      by (simp add: retry_worker_def)
    with None show ?thesis
      using a(2) dests by (simp add: wk3 we e_def)
  qed
qed

theorem login_only_over_own_routes_witness:
  "set (rg_added (eg_ops (wk_egress (worker_run demo_json demo_helper idle_env
     (map (\<lambda>e. Msg (LaneEffect e))
        [AcquireWirelessEgress \<lparr>ep_gateway = Ipv4 172 16 0 1, ep_ifindex = 15\<rparr>, Settle (from_secs 3),
         PortalAuth (Ipv4 172 16 5 9) login_timeout]) (worker_start demo_helper demo_worker))))) =
   {(Ipv4 10 0 3 2, Ipv4 172 16 0 1, 15), (Ipv4 223 5 5 5, Ipv4 172 16 0 1, 15)}"
proof -
  let ?ep = "\<lparr>ep_gateway = Ipv4 172 16 0 1, ep_ifindex = 15\<rparr> :: wlan_endpoint"
  let ?wk = "worker_start demo_helper demo_worker"
  have err: "wk_egress_error (worker_run demo_json demo_helper idle_env
      [Msg (LaneEffect (AcquireWirelessEgress ?ep))] ?wk) = None"
    by (simp add: worker_start_def demo_worker_def run_acquire_def retry_worker_def demo_simps Let_def)
  have ips: "wk_portal_ip demo_worker = Ipv4 10 0 3 2" "wk_probe_ip demo_worker = Ipv4 223 5 5 5"
    by (simp_all add: demo_worker_def)
  note over = login_only_over_own_routes [where ep = ?ep and J = demo_json and N = idle_env and ins = "[]"
      and d = "from_secs 3" and src = "Ipv4 172 16 5 9" and t = login_timeout,
      OF demo_table_laws demo_worker_new refl refl refl refl]
  from conjunct2 [OF over [unfolded worker_run.simps(1) err option.case]]
  show ?thesis
    unfolding ips by (simp only: image_insert image_empty wlan_endpoint.select_convs list.map)
qed

end
