(* ===== verification/Shell.thy ===== *)
theory Shell
  imports Dialer Adapter Worker Supervisor_Life
begin

text \<open>
  The service's main loop in \<open>src/src/runtime.rs\<close>: \<open>RealProber\<close>, the \<open>Shell\<close> that feeds events to the
  supervisor, executes its main-lane effects inline and returns their results to the queue, and the
  \<open>run\<close> function with the stop handshake. What the shell reads and writes outside itself is the
  record \<open>shell_env\<close> over a world \<open>'w\<close>.
\<close>

section \<open>The prober\<close>

record 'w real_prober =
  rp_interface :: string
  rp_http_url :: string
  rp_world :: 'w

datatype resolve_error = NoPhysical string | InterfaceMismatch string string

definition resolve_adapter ::
  "'w gaa \<Rightarrow> 'w real_prober \<Rightarrow> (resolve_error + adapter_info) \<times> 'w real_prober" where
  "resolve_adapter G p =
     (let (ppp, w) = ppp_adapter G (rp_world p); p = p\<lparr>rp_world := w\<rparr>
      in case (case ppp of
                 Some a \<Rightarrow> if rp_interface p = [] \<or> ai_name a = rp_interface p then Some a else None
               | None \<Rightarrow> None) of
           Some a \<Rightarrow> (Inr a, p)
         | None \<Rightarrow>
             (let (r, w) = physical_adapter G (rp_world p); p = p\<lparr>rp_world := w\<rparr>
              in case r of
                   Inl e \<Rightarrow> (Inl (NoPhysical e), p)
                 | Inr physical \<Rightarrow>
                     if rp_interface p = [] \<or> ai_name physical = rp_interface p then (Inr physical, p)
                     else (Inl (InterfaceMismatch (rp_interface p) (ai_name physical)), p)))"

record 'w probe_env =
  pe_gaa :: "'w gaa"
  pe_icmp :: "'w \<Rightarrow> ipv4 \<Rightarrow> ipv4 \<Rightarrow> bool"
  pe_http :: "'w \<Rightarrow> ipv4 \<Rightarrow> string \<Rightarrow> (u16 \<times> string) option"
  pe_after :: "'w \<Rightarrow> 'w"

definition real_probe :: "'w probe_env \<Rightarrow> 'w real_prober prober" where
  "real_probe E p =
     (case resolve_adapter (pe_gaa E) p of
        (Inr a, p) \<Rightarrow>
          (probe_once (pe_icmp E (rp_world p)) (pe_http E (rp_world p)) (ai_ipv4 a) (ai_gateway a)
             (rp_http_url p), p\<lparr>rp_world := pe_after E (rp_world p)\<rparr>)
      | (Inl e, p) \<Rightarrow> (LinkDown, p))"

section \<open>The shell\<close>

text \<open>
  \<open>se_clock\<close> reads both clocks of the core, \<open>se_wall\<close> the clock of the watchdog; \<open>se_crash\<close> says
  when a blocking task panics; \<open>se_lane_send\<close> is false when the wireless lane is closed.
\<close>

record 'w shell_env =
  se_clock :: "'w \<Rightarrow> (u64 \<times> u64) \<times> 'w"
  se_wall :: "'w \<Rightarrow> int \<times> 'w"
  se_gaa :: "'w gaa"
  se_crash :: "'w crash"
  se_associated :: "'w \<Rightarrow> bool \<times> 'w"
  se_save :: "config \<Rightarrow> string \<Rightarrow> 'w \<Rightarrow> (string + unit) \<times> 'w"
  se_toast :: "string \<Rightarrow> string \<Rightarrow> 'w \<Rightarrow> (string + unit) \<times> 'w"
  se_lane_send :: "effect \<Rightarrow> 'w \<Rightarrow> bool \<times> 'w"

text \<open>\<open>sh_published\<close> is what the snapshot channel has held so far, \<open>sh_lane\<close> what the lane accepted.\<close>

record ('d, 'p, 'w) shell =
  sh_core :: supervisor
  sh_watchdog :: "('d, 'p) watchdog"
  sh_cfg :: config
  sh_cfg_path :: string
  sh_published :: "state_snapshot list"
  sh_lane :: "effect list"
  sh_shutdown_effects :: "effect list"
  sh_stopping :: bool
  sh_wake_at :: "u64 option"
  sh_world :: 'w

definition step_watchdog ::
  "'w shell_env \<Rightarrow> 'd dialer_ops \<Rightarrow> 'p prober \<Rightarrow> ('d, 'p, 'w) shell \<Rightarrow> event option \<times> ('d, 'p, 'w) shell"
where
  "step_watchdog N D P sh =
     (let (clk, w) = se_wall N (sh_world sh);
          (delay, wd) = run_once D P clk (sh_watchdog sh);
          (ip, w) = ppp_adapter_ip (se_gaa N) w
      in (Some (WatchdogStepped \<lparr>st_delay = delay, st_session = view wd,
                  st_ppp_ip = map_option show_ipv4 ip\<rparr>),
          sh\<lparr>sh_watchdog := wd, sh_world := w\<rparr>))"

definition sample_link :: "'w shell_env \<Rightarrow> ('d, 'p, 'w) shell \<Rightarrow> event option \<times> ('d, 'p, 'w) shell" where
  "sample_link N sh =
     (case se_crash N (sh_world sh) of
        Some (_, w) \<Rightarrow> (Some (LinkSampled None None), sh\<lparr>sh_world := w\<rparr>)
      | None \<Rightarrow>
          (let (up, w) = ethernet_link_up (se_gaa N) (sh_world sh);
               (ip, w) = ppp_adapter_ip (se_gaa N) w
           in (Some (LinkSampled up (map_option show_ipv4 ip)), sh\<lparr>sh_world := w\<rparr>)))"

definition wlan_sample_of :: "adapter_info \<Rightarrow> wlan_sample" where
  "wlan_sample_of a = \<lparr>wl_ipv4 = ai_ipv4 a, wl_gateway = ai_gateway a, wl_ifindex = ai_ifindex a\<rparr>"

definition sample_wireless ::
  "'w shell_env \<Rightarrow> ('d, 'p, 'w) shell \<Rightarrow> event option \<times> ('d, 'p, 'w) shell" where
  "sample_wireless N sh =
     (case se_crash N (sh_world sh) of
        Some (_, w) \<Rightarrow>
          (Some (WirelessSampled \<lparr>wsm_associated = False, wsm_wlan = None\<rparr>), sh\<lparr>sh_world := w\<rparr>)
      | None \<Rightarrow>
          (let (assoc, w) = se_associated N (sh_world sh); (wlan, w) = wlan_adapter (se_gaa N) w
           in (Some (WirelessSampled
                 \<lparr>wsm_associated = assoc, wsm_wlan = map_option wlan_sample_of wlan\<rparr>),
               sh\<lparr>sh_world := w\<rparr>)))"

fun exec_main ::
  "'w shell_env \<Rightarrow> 'd dialer_ops \<Rightarrow> 'p prober \<Rightarrow> effect \<Rightarrow> ('d, 'p, 'w) shell
    \<Rightarrow> event option \<times> ('d, 'p, 'w) shell"
where
  "exec_main N D P StepWatchdog sh = step_watchdog N D P sh"
| "exec_main N D P RequestRedial sh = (None, sh\<lparr>sh_watchdog := request_redial (sh_watchdog sh)\<rparr>)"
| "exec_main N D P (SetWatchdogLink up) sh = (None, sh\<lparr>sh_watchdog := set_eth_link up (sh_watchdog sh)\<rparr>)"
| "exec_main N D P Hangup sh = (None, sh\<lparr>sh_watchdog := watchdog_shutdown D (sh_watchdog sh)\<rparr>)"
| "exec_main N D P SampleLink sh = sample_link N sh"
| "exec_main N D P SampleWireless sh = sample_wireless N sh"
| "exec_main N D P (PersistMode m) sh =
     (let cfg = (sh_cfg sh)\<lparr>cf_wireless := (cf_wireless (sh_cfg sh))\<lparr>wc_mode := m\<rparr>\<rparr>
      in (None, sh\<lparr>sh_cfg := cfg, sh_world := snd (se_save N cfg (sh_cfg_path sh) (sh_world sh))\<rparr>))"
| "exec_main N D P (Notify key title body) sh =
     (let (r, w) = se_toast N title body (sh_world sh)
      in (Some (NotifyResult key (case r of Inr _ \<Rightarrow> True | Inl _ \<Rightarrow> False)), sh\<lparr>sh_world := w\<rparr>))"
| "exec_main N D P _ sh = (None, sh)"

text \<open>The inner loop of \<open>drain\<close> over the effects of one reaction; \<open>q\<close> is the event queue.\<close>

fun run_effects ::
  "'w shell_env \<Rightarrow> 'd dialer_ops \<Rightarrow> 'p prober \<Rightarrow> effect list \<Rightarrow> event list \<Rightarrow> ('d, 'p, 'w) shell
    \<Rightarrow> event list \<times> ('d, 'p, 'w) shell"
where
  "run_effects N D P [] q sh = (q, sh)"
| "run_effects N D P (e # es) q sh =
     (case lane_of e of
        MainLane \<Rightarrow>
          (let (r, sh) = exec_main N D P e sh
           in run_effects N D P es (case r of Some ev \<Rightarrow> q @ [ev] | None \<Rightarrow> q) sh)
      | WirelessLane \<Rightarrow>
          if sh_stopping sh
          then run_effects N D P es q (sh\<lparr>sh_shutdown_effects := sh_shutdown_effects sh @ [e]\<rparr>)
          else (let (sent, w) = se_lane_send N e (sh_world sh)
                in run_effects N D P es q
                     (sh\<lparr>sh_world := w, sh_lane := sh_lane sh @ (if sent then [e] else [])\<rparr>)))"

text \<open>One round of \<open>drain\<close>: the event is given to the core and its reaction carried out.\<close>

definition react ::
  "'v serde \<Rightarrow> 'w shell_env \<Rightarrow> 'd dialer_ops \<Rightarrow> 'p prober \<Rightarrow> event \<Rightarrow> event list \<Rightarrow> ('d, 'p, 'w) shell
    \<Rightarrow> event list \<times> ('d, 'p, 'w) shell" where
  "react J N D P ev q sh =
     (let ((now, wall), w) = se_clock N (sh_world sh);
          (core, r) = on J ev now wall (sh_core sh)
      in run_effects N D P (re_effects r) q
           (sh\<lparr>sh_core := core, sh_world := w, sh_wake_at := re_wake_at r,
               sh_published := sh_published sh @ (case re_snapshot r of Some x \<Rightarrow> [x] | None \<Rightarrow> [])\<rparr>))"

section \<open>The queue empties\<close>

text \<open>
  The number of events the shell processes because of an event that comes from outside, itself
  included, and because of an effect.
\<close>

fun event_cost :: "event \<Rightarrow> nat" where
  "event_cost Wake = 5"
| "event_cost (LinkSampled _ _) = 3"
| "event_cost (Command _) = 3"
| "event_cost (WatchdogStepped _) = 2"
| "event_cost (Heartbeat _) = 2"
| "event_cost Started = 2"
| "event_cost _ = 1"

fun effect_cost :: "effect \<Rightarrow> nat" where
  "effect_cost SampleLink = 3"
| "effect_cost StepWatchdog = 2"
| "effect_cost SampleWireless = 1"
| "effect_cost (Notify _ _ _) = 1"
| "effect_cost _ = 0"

abbreviation queue_cost :: "event list \<Rightarrow> nat" where
  "queue_cost q \<equiv> sum_list (map event_cost q)"

abbreviation effects_cost :: "effect list \<Rightarrow> nat" where
  "effects_cost es \<equiv> sum_list (map effect_cost es)"

lemma exec_main_cost:
  "(case fst (exec_main N D P e sh) of Some ev \<Rightarrow> event_cost ev | None \<Rightarrow> 0) \<le> effect_cost e"
  by (cases e) (simp_all add: step_watchdog_def sample_link_def sample_wireless_def Let_def
      case_prod_beta split: option.splits)

lemma run_effects_cost: "queue_cost (fst (run_effects N D P es q sh)) \<le> queue_cost q + effects_cost es"
proof (induction es arbitrary: q sh)
  case (Cons e es)
  show ?case
  proof (cases "lane_of e")
    case MainLane
    let ?r = "exec_main N D P e sh"
    from Cons.IH [of "case fst ?r of Some ev \<Rightarrow> q @ [ev] | None \<Rightarrow> q" "snd ?r"] exec_main_cost [of N D P e sh]
    show ?thesis by (simp add: MainLane case_prod_beta split: option.splits)
  next
    case WirelessLane
    then show ?thesis
      by (simp add: case_prod_beta) (meson Cons.IH le_add2 le_trans add_left_mono)
  qed
qed simp

lemma update_metric_cost: "effects_cost (update_metric s) = 0"
  by (auto simp: update_metric_def Let_def split: option.splits)

lemma handle_action_cost: "handle_action a t wall s = (go, s', e) \<Longrightarrow> effects_cost e = 0"
  by (cases a) (auto simp: act_portal_auth_def act_probe_def split: option.splits if_splits)

lemma maybe_notify_cost [simp]: "effects_cost (snd (maybe_notify k t b now l)) < 2"
  by (simp add: maybe_notify_def)

lemma effects_of_cost: "effects_cost (effects_of J ev now wall s) < event_cost ev"
proof (cases rule: step_cases [of J ev now wall s])
  case silent
  then show ?thesis by (cases ev) simp_all
next
  case (started s')
  then have "effects_of J ev now wall s = snd (handle_started now wall s)" by simp
  with started(2) show ?thesis by (simp add: handle_started_def Let_def)
next
  case (running s')
  then have e: "effects_of J ev now wall s = snd (handle_event J ev now wall s)" by simp
  show ?thesis
    unfolding e
  proof (cases ev)
    case (WirelessSampled sm)
    show "effects_cost (snd (handle_event J ev now wall s)) < event_cost ev"
    proof (cases rule: handle_wireless_sampled_cases [of s sm now wall])
      case (decided b a u go v e)
      with handle_action_cost [OF decided(4)] update_metric_cost [of v] show ?thesis by (auto simp: handle_event_def WirelessSampled)
    qed (simp_all add: handle_event_def WirelessSampled)
  next
    case (Command c)
    then show "effects_cost (snd (handle_event J ev now wall s)) < event_cost ev"
      by (cases c) (simp_all add: handle_event_def Let_def)
  next
    case (WatchdogStepped st)
    then show "effects_cost (snd (handle_event J ev now wall s)) < event_cost ev"
      by (auto simp: handle_event_def handle_watchdog_stepped_def session_failing_def Let_def
          case_prod_beta split: session_status.splits)
  next
    case (Heartbeat h)
    then show "effects_cost (snd (handle_event J ev now wall s)) < event_cost ev"
      by (auto simp: handle_event_def handle_heartbeat_def Let_def case_prod_beta
          split: heartbeat_status.splits)
  next
    case (LinkSampled up ip)
    then show "effects_cost (snd (handle_event J ev now wall s)) < event_cost ev"
      by (auto simp: handle_event_def handle_link_sampled_def Let_def log_event_def)
  next
    case Wake
    then show "effects_cost (snd (handle_event J ev now wall s)) < event_cost ev"
      by (auto simp: handle_event_def handle_wake_def wake_wired_def wake_wireless_def Let_def
          split: option.splits)
  qed (simp_all add: handle_event_def handle_stop_def Let_def)
qed

text \<open>What a round does to the core, and the shell the effects start from.\<close>

definition stamp_of :: "'w shell_env \<Rightarrow> event \<Rightarrow> ('d, 'p, 'w) shell \<Rightarrow> stamped" where
  "stamp_of N ev sh = (ev, fst (se_clock N (sh_world sh)))"

definition reacted :: "'v serde \<Rightarrow> 'w shell_env \<Rightarrow> event \<Rightarrow> ('d, 'p, 'w) shell \<Rightarrow> ('d, 'p, 'w) shell" where
  "reacted J N ev sh =
     sh\<lparr>sh_core := run J [stamp_of N ev sh] (sh_core sh), sh_world := snd (se_clock N (sh_world sh)),
        sh_wake_at := re_wake_at (snd (on J ev (fst (fst (se_clock N (sh_world sh))))
           (snd (fst (se_clock N (sh_world sh)))) (sh_core sh))),
        sh_published := sh_published sh @ published J [stamp_of N ev sh] (sh_core sh)\<rparr>"

lemma react_eq:
  "react J N D P ev q sh =
     run_effects N D P (emitted J [stamp_of N ev sh] (sh_core sh)) q (reacted J N ev sh)"
proof -
  obtain now wall w where c: "se_clock N (sh_world sh) = ((now, wall), w)" by (metis prod.exhaust_sel)
  show ?thesis
    by (simp add: react_def reacted_def stamp_of_def c step_def effects_of_def case_prod_beta)
qed

lemma react_cost: "queue_cost (fst (react J N D P ev q sh)) < event_cost ev + queue_cost q"
proof -
  obtain now wall where c: "stamp_of N ev sh = (ev, now, wall)"
    by (metis prod.exhaust_sel stamp_of_def)
  from run_effects_cost [of N D P "effects_of J ev now wall (sh_core sh)" q "reacted J N ev sh"]
    effects_of_cost [of J ev now wall "sh_core sh"]
  show ?thesis by (simp add: react_eq c)
qed

function drain ::
  "'v serde \<Rightarrow> 'w shell_env \<Rightarrow> 'd dialer_ops \<Rightarrow> 'p prober \<Rightarrow> event list \<Rightarrow> ('d, 'p, 'w) shell
    \<Rightarrow> ('d, 'p, 'w) shell"
where
  "drain J N D P q sh =
     (case q of [] \<Rightarrow> sh
      | ev # q \<Rightarrow> drain J N D P (fst (react J N D P ev q sh)) (snd (react J N D P ev q sh)))"
  by pat_completeness auto
termination
  by (relation "measure (\<lambda>(J, N, D, P, q, sh). queue_cost q)") (simp_all add: react_cost case_prod_beta)

declare drain.simps [simp del]

end
