(* ===== verification/Service.thy ===== *)
theory Service
  imports Shell
begin

text \<open>
  \<open>run\<close> in \<open>src/src/runtime.rs\<close>: the start of the service, its main loop and the stop handshake, and
  what holds of every state of the shell between two events.
\<close>

section \<open>The main loop\<close>

definition shell_new :: "config \<Rightarrow> string \<Rightarrow> ('d, 'p) watchdog \<Rightarrow> 'w \<Rightarrow> ('d, 'p, 'w) shell" where
  "shell_new cfg path wd w =
     \<lparr>sh_core = supervisor_new cfg, sh_watchdog = wd, sh_cfg = cfg, sh_cfg_path = path,
      sh_published = [compose (supervisor_new cfg)], sh_lane = [], sh_shutdown_effects = [],
      sh_stopping = False, sh_wake_at = None, sh_world = w\<rparr>"

text \<open>Whether the wireless worker is spawned.\<close>

definition spawns_worker :: "config \<Rightarrow> string \<Rightarrow> 'k \<Rightarrow> 'w \<Rightarrow> bool" where
  "spawns_worker cfg pass k w \<longleftrightarrow>
     wc_enabled (cf_wireless cfg) \<and> (case worker_new cfg pass k w of Inr _ \<Rightarrow> True | Inl _ \<Rightarrow> False)"

record ('d, 'p, 'w) main_loop =
  ml_shell :: "('d, 'p, 'w) shell"
  ml_hb_alive :: bool
  ml_wireless_alive :: bool

definition service_start ::
  "'v serde \<Rightarrow> 'w shell_env \<Rightarrow> 'd dialer_ops \<Rightarrow> 'p prober \<Rightarrow> config \<Rightarrow> string \<Rightarrow> ('d, 'p) watchdog \<Rightarrow>
   bool \<Rightarrow> 'w \<Rightarrow> ('d, 'p, 'w) main_loop" where
  "service_start J N D P cfg path wd wireless w =
     \<lparr>ml_shell = drain J N D P [Started] (shell_new cfg path wd w), ml_hb_alive = True,
      ml_wireless_alive = wireless\<rparr>"

definition sleep_for :: "u64 \<Rightarrow> ('d, 'p, 'w) shell \<Rightarrow> duration" where
  "sleep_for now sh =
     (case sh_wake_at sh of
        Some at \<Rightarrow> unat (sat_sub at now) * 1000000
      | None \<Rightarrow> from_secs (60 * 60 * 24))"

text \<open>
  The branch \<open>select\<close> takes: \<open>None\<close> from a channel means that its senders are gone. A branch whose
  guard is off cannot be taken; its input is ignored.
\<close>

datatype loop_input =
    StopSignal
  | CommandIn "command option"
  | HeartbeatIn "heartbeat_status option"
  | WirelessIn "event option"
  | TimerElapsed

definition begin_stop :: "('d, 'p, 'w) main_loop \<Rightarrow> ('d, 'p, 'w) main_loop" where
  "begin_stop L = L\<lparr>ml_shell := (ml_shell L)\<lparr>sh_stopping := True\<rparr>\<rparr>"

fun select_input ::
  "loop_input \<Rightarrow> ('d, 'p, 'w) main_loop \<Rightarrow> event list \<times> ('d, 'p, 'w) main_loop" where
  "select_input StopSignal L = ([Stop], begin_stop L)"
| "select_input (CommandIn (Some cmd)) L = ([Command cmd], L)"
| "select_input (CommandIn None) L = ([Stop], begin_stop L)"
| "select_input (HeartbeatIn (Some status)) L = (if ml_hb_alive L then ([Heartbeat status], L) else ([], L))"
| "select_input (HeartbeatIn None) L = ([], L\<lparr>ml_hb_alive := False\<rparr>)"
| "select_input (WirelessIn (Some ev)) L = (if ml_wireless_alive L then ([ev], L) else ([], L))"
| "select_input (WirelessIn None) L =
     (if ml_wireless_alive L then ([WirelessDied], L\<lparr>ml_wireless_alive := False\<rparr>) else ([], L))"
| "select_input TimerElapsed L = ([Wake], L)"

definition turn ::
  "'v serde \<Rightarrow> 'w shell_env \<Rightarrow> 'd dialer_ops \<Rightarrow> 'p prober \<Rightarrow> loop_input \<Rightarrow> ('d, 'p, 'w) main_loop
    \<Rightarrow> ('d, 'p, 'w) main_loop" where
  "turn J N D P i L =
     (let (q, L) = select_input i L in L\<lparr>ml_shell := drain J N D P q (ml_shell L)\<rparr>)"

fun serve ::
  "'v serde \<Rightarrow> 'w shell_env \<Rightarrow> 'd dialer_ops \<Rightarrow> 'p prober \<Rightarrow> loop_input list \<Rightarrow> ('d, 'p, 'w) main_loop
    \<Rightarrow> ('d, 'p, 'w) main_loop"
where
  "serve J N D P [] L = L"
| "serve J N D P (i # is) L =
     (if sh_stopping (ml_shell L) then L else serve J N D P is (turn J N D P i L))"

text \<open>The stop handshake: the message that ends the worker.\<close>

definition shutdown_msg :: "('d, 'p, 'w) shell \<Rightarrow> lane_msg \<times> ('d, 'p, 'w) shell" where
  "shutdown_msg sh = (Shutdown (sh_shutdown_effects sh), sh\<lparr>sh_shutdown_effects := []\<rparr>)"

section \<open>What the effects leave alone\<close>

lemma exec_main_fields [simp]:
  "sh_core (snd (exec_main N D P e sh)) = sh_core sh"
  "sh_published (snd (exec_main N D P e sh)) = sh_published sh"
  "sh_stopping (snd (exec_main N D P e sh)) = sh_stopping sh"
  "sh_lane (snd (exec_main N D P e sh)) = sh_lane sh"
  "sh_shutdown_effects (snd (exec_main N D P e sh)) = sh_shutdown_effects sh"
  "sh_wake_at (snd (exec_main N D P e sh)) = sh_wake_at sh"
  by (cases e; simp add: step_watchdog_def sample_link_def sample_wireless_def Let_def case_prod_beta
      split: option.splits)+

lemma run_effects_Cons:
  "run_effects N D P (e # es) q sh =
     (if lane_of e = MainLane
      then run_effects N D P es (q @ (case fst (exec_main N D P e sh) of Some ev \<Rightarrow> [ev] | None \<Rightarrow> []))
             (snd (exec_main N D P e sh))
      else if sh_stopping sh
      then run_effects N D P es q (sh\<lparr>sh_shutdown_effects := sh_shutdown_effects sh @ [e]\<rparr>)
      else run_effects N D P es q
             (sh\<lparr>sh_world := snd (se_lane_send N e (sh_world sh)),
                 sh_lane := sh_lane sh @ (if fst (se_lane_send N e (sh_world sh)) then [e] else [])\<rparr>))"
  by (cases "lane_of e") (simp_all add: case_prod_beta split: option.splits)

declare run_effects.simps(2) [simp del]

lemma run_effects_fields [simp]:
  "sh_core (snd (run_effects N D P es q sh)) = sh_core sh
   \<and> sh_published (snd (run_effects N D P es q sh)) = sh_published sh
   \<and> sh_stopping (snd (run_effects N D P es q sh)) = sh_stopping sh
   \<and> sh_wake_at (snd (run_effects N D P es q sh)) = sh_wake_at sh"
  by (induction es arbitrary: q sh) (simp_all add: run_effects_Cons)

definition lane_order :: "('d, 'p, 'w) shell \<Rightarrow> effect list \<Rightarrow> ('d, 'p, 'w) shell \<Rightarrow> bool" where
  "lane_order sh es sh' \<longleftrightarrow>
     ((\<not> sh_stopping sh \<longrightarrow> sh_shutdown_effects sh = []) \<longrightarrow>
        sh_lane sh' @ sh_shutdown_effects sh'
          = sh_lane sh @ sh_shutdown_effects sh @ filter (\<lambda>e. lane_of e = WirelessLane) es
        \<and> (\<not> sh_stopping sh' \<longrightarrow> sh_shutdown_effects sh' = []))"

lemma run_effects_lane:
  assumes "\<And>e w. fst (se_lane_send N e w)"
  shows "lane_order sh es (snd (run_effects N D P es q sh))"
proof (induction es arbitrary: q sh)
  case (Cons e es)
  show ?case
  proof (cases "lane_of e")
    case MainLane
    with Cons.IH [of "snd (exec_main N D P e sh)"] show ?thesis
      by (simp add: run_effects_Cons lane_order_def)
  next
    case WirelessLane
    have w: "lane_order (sh\<lparr>sh_shutdown_effects := sh_shutdown_effects sh @ [e]\<rparr>) es
        (snd (run_effects N D P es q (sh\<lparr>sh_shutdown_effects := sh_shutdown_effects sh @ [e]\<rparr>)))"
      "lane_order (sh\<lparr>sh_world := snd (se_lane_send N e (sh_world sh)), sh_lane := sh_lane sh @ [e]\<rparr>) es
        (snd (run_effects N D P es q
          (sh\<lparr>sh_world := snd (se_lane_send N e (sh_world sh)), sh_lane := sh_lane sh @ [e]\<rparr>)))"
      by (rule Cons.IH)+
    then show ?thesis by (auto simp: WirelessLane run_effects_Cons assms lane_order_def)
  qed
qed (simp add: lane_order_def)

section \<open>The shell runs the core\<close>

lemma reacted_fields [simp]:
  "sh_core (reacted J N ev sh) = run J [stamp_of N ev sh] (sh_core sh)"
  "sh_published (reacted J N ev sh) = sh_published sh @ published J [stamp_of N ev sh] (sh_core sh)"
  "sh_stopping (reacted J N ev sh) = sh_stopping sh" "sh_lane (reacted J N ev sh) = sh_lane sh"
  "sh_shutdown_effects (reacted J N ev sh) = sh_shutdown_effects sh"
  "sh_watchdog (reacted J N ev sh) = sh_watchdog sh"
  by (simp_all add: reacted_def)

text \<open>Whatever the queue does to the shell is a run of the core on stamped events.\<close>

definition runs_core ::
  "'v serde \<Rightarrow> 'w shell_env \<Rightarrow> stamped list \<Rightarrow> ('d, 'p, 'w) shell \<Rightarrow> ('d, 'p, 'w) shell \<Rightarrow> bool" where
  "runs_core J N es sh sh' \<longleftrightarrow> sh_core sh' = run J es (sh_core sh)
     \<and> sh_published sh' = sh_published sh @ published J es (sh_core sh)
     \<and> ((\<forall>e w. fst (se_lane_send N e w)) \<longrightarrow> lane_order sh (emitted J es (sh_core sh)) sh')"

lemma runs_core_Nil: "runs_core J N [] sh sh"
  by (simp add: runs_core_def lane_order_def)

lemma runs_core_append:
  "runs_core J N as sh sh' \<Longrightarrow> runs_core J N bs sh' sh'' \<Longrightarrow> runs_core J N (as @ bs) sh sh''"
  by (auto simp: runs_core_def lane_order_def)

lemma runs_core_react: "runs_core J N [stamp_of N ev sh] sh (snd (react J N D P ev q sh))"
  using run_effects_lane [of N "reacted J N ev sh" "emitted J [stamp_of N ev sh] (sh_core sh)" D P q]
    run_effects_fields [of N D P "emitted J [stamp_of N ev sh] (sh_core sh)" q "reacted J N ev sh"]
  by (simp add: runs_core_def react_eq lane_order_def)

lemma drain_runs_core: "\<exists>es. length es \<le> queue_cost q \<and> runs_core J N es sh (drain J N D P q sh)"
proof (induction J N D P q sh rule: drain.induct)
  case (1 J N D P q sh)
  show ?case
  proof (cases q)
    case Nil
    then show ?thesis by (subst drain.simps) (auto intro: runs_core_Nil)
  next
    case (Cons ev r)
    let ?r = "react J N D P ev r sh"
    from "1.IH" [OF Cons] obtain es where
      es: "length es \<le> queue_cost (fst ?r)" "runs_core J N es (snd ?r) (drain J N D P (fst ?r) (snd ?r))"
      by blast
    have "length (stamp_of N ev sh # es) \<le> queue_cost q"
      using es(1) react_cost [of J N D P ev r sh] Cons by simp
    moreover have "runs_core J N (stamp_of N ev sh # es) sh (drain J N D P q sh)"
      using runs_core_append [OF runs_core_react es(2)] by (subst drain.simps) (simp add: Cons)
    ultimately show ?thesis by blast
  qed
qed

lemma runs_core_stopping: "runs_core J N [] sh (sh\<lparr>sh_stopping := True\<rparr>)"
  by (simp add: runs_core_def lane_order_def)

lemma drain_stopping [simp]: "sh_stopping (drain J N D P q sh) = sh_stopping sh"
proof (induction J N D P q sh rule: drain.induct)
  case (1 J N D P q sh)
  then show ?case by (subst drain.simps) (auto simp: react_eq split: list.split)
qed

lemma select_input_cost: "queue_cost (fst (select_input i L)) \<le> 5"
proof -
  have "event_cost ev \<le> 5" for ev by (cases ev) simp_all
  then show ?thesis by (cases "(i, L)" rule: select_input.cases) simp_all
qed

lemma select_input_shell: "runs_core J N [] (ml_shell L) (ml_shell (snd (select_input i L)))"
  by (cases "(i, L)" rule: select_input.cases)
     (simp_all add: runs_core_Nil begin_stop_def runs_core_stopping)

lemma turn_runs_core:
  "\<exists>es. length es \<le> 5 \<and> runs_core J N es (ml_shell L) (ml_shell (turn J N D P i L))"
proof -
  let ?L = "snd (select_input i L)"
  obtain es where es: "length es \<le> queue_cost (fst (select_input i L))"
    "runs_core J N es (ml_shell ?L) (drain J N D P (fst (select_input i L)) (ml_shell ?L))"
    using drain_runs_core by blast
  from runs_core_append [OF select_input_shell es(2)] le_trans [OF es(1) select_input_cost]
  show ?thesis by (auto simp: turn_def case_prod_beta)
qed

lemma serve_runs_core:
  "\<exists>es. length es \<le> 5 * length ins \<and> runs_core J N es (ml_shell L) (ml_shell (serve J N D P ins L))"
proof (induction ins arbitrary: L)
  case Nil
  show ?case by (simp add: runs_core_Nil)
next
  case (Cons i ins)
  obtain a where a: "length a \<le> 5" "runs_core J N a (ml_shell L) (ml_shell (turn J N D P i L))"
    using turn_runs_core by blast
  from Cons.IH [of "turn J N D P i L"] obtain b where b: "length b \<le> 5 * length ins"
    "runs_core J N b (ml_shell (turn J N D P i L)) (ml_shell (serve J N D P ins (turn J N D P i L)))" by blast
  show ?case
  proof (cases "sh_stopping (ml_shell L)")
    case True
    then show ?thesis by (auto intro: exI [of _ "[]"] runs_core_Nil)
  next
    case False
    with a b runs_core_append [OF a(2) b(2)] show ?thesis by (intro exI [of _ "a @ b"]) simp
  qed
qed

lemma service_runs_core:
  "\<exists>es. length es \<le> 2 + 5 * length ins
    \<and> runs_core J N es (shell_new cfg path wd w)
        (ml_shell (serve J N D P ins (service_start J N D P cfg path wd wireless w)))"
proof -
  obtain a where a: "length a \<le> 2"
    "runs_core J N a (shell_new cfg path wd w) (drain J N D P [Started] (shell_new cfg path wd w))"
    using drain_runs_core [where q = "[Started]"] by fastforce
  let ?L = "service_start J N D P cfg path wd wireless w"
  obtain b where b: "length b \<le> 5 * length ins" "runs_core J N b (ml_shell ?L) (ml_shell (serve J N D P ins ?L))"
    using serve_runs_core by blast
  have "ml_shell ?L = drain J N D P [Started] (shell_new cfg path wd w)" by (simp add: service_start_def)
  with a b show ?thesis by (intro exI [of _ "a @ b"]) (auto intro: runs_core_append)
qed

text \<open>
  C1 (refinement). The running service is a run of the supervisor core, and every turn of its loop
  ends. Whatever the environment answers and whatever inputs arrive, the queue empties after at most
  five events per input (two at the start); the core is then in the state some sequence of that many
  events brings it to, the status channel has held exactly the snapshots this run publishes after the
  initial one, and the lane of the wireless worker together with the effects kept for the shutdown
  holds exactly the wireless effects of this run, in order and without loss, while the lane is open.
\<close>

theorem service_refines_core:
  assumes "\<And>e w. fst (se_lane_send N e w)"
    and "sh = ml_shell (serve J N D P ins (service_start J N D P cfg path wd wireless w))"
  shows "\<exists>es. length es \<le> 2 + 5 * length ins
    \<and> sh_core sh = run J es (supervisor_new cfg)
    \<and> sh_published sh = compose (supervisor_new cfg) # published J es (supervisor_new cfg)
    \<and> sh_lane sh @ sh_shutdown_effects sh
        = filter (\<lambda>e. lane_of e = WirelessLane) (emitted J es (supervisor_new cfg))"
proof -
  obtain es where "length es \<le> 2 + 5 * length ins" "runs_core J N es (shell_new cfg path wd w) sh"
    using service_runs_core [where ins = ins and J = J and N = N and D = D and P = P and cfg = cfg
        and path = path and wd = wd and w = w and wireless = wireless] unfolding assms(2) by auto
  then show ?thesis using assms(1)
    by (intro exI [of _ es]) (simp add: runs_core_def lane_order_def shell_new_def)
qed

text \<open>An environment in which nothing happens.\<close>

definition quiet_shell_env :: "unit shell_env" where
  "quiet_shell_env = \<lparr>se_clock = \<lambda>w. ((0, 0), w), se_wall = \<lambda>w. (0, w), se_gaa = \<lambda>_ w. ((0, 0, []), w),
     se_crash = no_crash, se_associated = \<lambda>w. (False, w), se_save = \<lambda>_ _ w. (Inr (), w),
     se_toast = \<lambda>_ _ w. (Inr (), w), se_lane_send = \<lambda>_ w. (True, w)\<rparr>"

abbreviation demo_service :: "loop_input list \<Rightarrow> (ras_act list real_dialer, unit, unit) main_loop" where
  "demo_service ins \<equiv> serve demo_json quiet_shell_env (real_dialer_ops quiet_ras no_crash) (\<lambda>p. (Alive, p)) ins
     (service_start demo_json quiet_shell_env (real_dialer_ops quiet_ras no_crash) (\<lambda>p. (Alive, p)) wired_only
        config_path (service_watchdog wired_only ''pw'' [] () demo_cfg) False ())"

theorem service_refines_core_witness:
  "\<exists>es. length es \<le> 7 \<and> sh_core (ml_shell (demo_service [TimerElapsed])) = run demo_json es (supervisor_new wired_only)"
proof -
  have "fst (se_lane_send quiet_shell_env e w)" for e w by (simp add: quiet_shell_env_def)
  from service_refines_core [OF this refl, where J = demo_json and D = "real_dialer_ops quiet_ras no_crash" and
      P = "\<lambda>p. (Alive, p)" and ins = "[TimerElapsed]" and cfg = wired_only and path = config_path and
      wd = "service_watchdog wired_only ''pw'' [] () demo_cfg" and wireless = False and w = "()"]
  show ?thesis by (elim exE) (auto simp del: serve.simps)
qed

end
