(* ===== verification/Service_Props.thy ===== *)
theory Service_Props
  imports Service
begin

text \<open>
  Properties of the running service: what a subscriber of the status channel sees, when the service
  dials, and how it stops.
\<close>

section \<open>States between two events\<close>

inductive shell_reach ::
  "'v serde \<Rightarrow> 'w shell_env \<Rightarrow> 'd dialer_ops \<Rightarrow> 'p prober \<Rightarrow> ('d, 'p, 'w) shell \<Rightarrow> ('d, 'p, 'w) shell \<Rightarrow> bool"
  for J N D P sh0 where
  reach_start: "shell_reach J N D P sh0 sh0"
| reach_event: "shell_reach J N D P sh0 sh \<Longrightarrow> shell_reach J N D P sh0 (snd (react J N D P ev q sh))"
| reach_stop: "shell_reach J N D P sh0 sh \<Longrightarrow> shell_reach J N D P sh0 (sh\<lparr>sh_stopping := True\<rparr>)"

lemma drain_reach: "shell_reach J N D P sh0 sh \<Longrightarrow> shell_reach J N D P sh0 (drain J N D P q sh)"
proof (induction J N D P q sh rule: drain.induct)
  case (1 J N D P q sh)
  then show ?case
    by (subst drain.simps) (auto split: list.split intro: reach_event)
qed

lemma turn_reach:
  assumes "shell_reach J N D P sh0 (ml_shell L)"
  shows "shell_reach J N D P sh0 (ml_shell (turn J N D P i L))"
proof -
  have "shell_reach J N D P sh0 (ml_shell (snd (select_input i L)))"
    using assms by (cases "(i, L)" rule: select_input.cases) (auto simp: begin_stop_def intro: reach_stop)
  then show ?thesis by (simp add: turn_def case_prod_beta drain_reach)
qed

lemma serve_reach:
  "shell_reach J N D P sh0 (ml_shell L) \<Longrightarrow> shell_reach J N D P sh0 (ml_shell (serve J N D P ins L))"
  by (induction ins arbitrary: L) (simp_all add: turn_reach)

lemma service_reach:
  "shell_reach J N D P (shell_new cfg path wd w)
     (ml_shell (serve J N D P ins (service_start J N D P cfg path wd wireless w)))"
  by (rule serve_reach) (simp add: service_start_def drain_reach reach_start)

section \<open>The cable\<close>

text \<open>The effects tell the watchdog the new link state first, and only when it changed.\<close>

definition link_told :: "supervisor \<Rightarrow> supervisor \<Rightarrow> effect list \<Rightarrow> bool" where
  "link_told s s' es \<longleftrightarrow>
     (\<exists>rest. es = (if su_eth_link s' \<noteq> su_eth_link s then [SetWatchdogLink (su_eth_link s')] else []) @ rest
       \<and> (\<forall>up. SetWatchdogLink up \<notin> set rest))"

lemma handle_event_link_told:
  "link_told s (fst (handle_event J ev now wall s)) (snd (handle_event J ev now wall s))"
proof (cases ev)
  case (LinkSampled up ip)
  show ?thesis
    unfolding LinkSampled link_told_def
    by (auto simp: handle_event_def handle_link_sampled_def Let_def log_event_def)
next
  case (WirelessSampled sm)
  have "SetWatchdogLink up \<notin> set (snd (handle_wireless_sampled sm now wall s))" for up
  proof (cases rule: handle_wireless_sampled_cases [of s sm now wall])
    case (decided b a u go v e)
    have "SetWatchdogLink up \<notin> set e" using decided(4)
      by (cases a) (auto simp: act_portal_auth_def act_probe_def split: option.splits if_splits)
    moreover have "SetWatchdogLink up \<notin> set (update_metric v)"
      by (auto simp: update_metric_def Let_def split: option.splits)
    ultimately show ?thesis by (simp add: decided(5))
  qed simp_all
  then show ?thesis by (simp add: link_told_def handle_event_def WirelessSampled)
next
  case (Command c)
  then show ?thesis by (cases c) (simp_all add: link_told_def handle_event_def Let_def log_event_def)
qed (auto simp: link_told_def handler_defs maybe_notify_def case_prod_beta
      split: option.splits session_status.splits heartbeat_status.splits)

lemma step_link_told: "link_told s (step J ev now wall s) (effects_of J ev now wall s)"
proof (cases rule: step_cases [of J ev now wall s])
  case silent
  then show ?thesis by (simp add: link_told_def)
next
  case (started s')
  then have "effects_of J ev now wall s = snd (handle_started now wall s)"
    "s' = fst (handle_started now wall s)" by simp_all
  with started(4) show ?thesis by (auto simp: link_told_def handle_started_def Let_def log_event_def)
next
  case (running s')
  with handle_event_link_told [of s J ev now wall] show ?thesis
    by (simp add: link_told_def split: if_splits)
qed

lemma run_once_gated:
  "wd_eth_link w = Some False \<Longrightarrow> wd_dial_calls (snd (run_once D P clk w)) = wd_dial_calls w"
  by (cases rule: step_connected_cases [of w D P clk])
     (simp_all add: run_once_def manual_redial_def Let_def case_prod_beta hangup_def record_drop_def
       do_dial_gated same_session_def)

lemma run_effects_untold:
  "\<forall>up. SetWatchdogLink up \<notin> set es \<Longrightarrow>
     wd_eth_link (sh_watchdog (snd (run_effects N D P es q sh))) = wd_eth_link (sh_watchdog sh)
     \<and> (wd_eth_link (sh_watchdog sh) = Some False \<longrightarrow>
          wd_dial_calls (sh_watchdog (snd (run_effects N D P es q sh))) = wd_dial_calls (sh_watchdog sh))"
proof (induction es arbitrary: q sh)
  case (Cons e es)
  have "wd_eth_link (sh_watchdog (snd (exec_main N D P e sh))) = wd_eth_link (sh_watchdog sh)
     \<and> (wd_eth_link (sh_watchdog sh) = Some False \<longrightarrow>
          wd_dial_calls (sh_watchdog (snd (exec_main N D P e sh))) = wd_dial_calls (sh_watchdog sh))"
    using Cons.prems
    by (cases e) (auto simp: step_watchdog_def sample_link_def sample_wireless_def run_once_gated
        request_redial_def watchdog_shutdown_def Let_def case_prod_beta split: option.splits)
  with Cons show ?case by (simp add: run_effects_Cons)
qed simp

definition link_synced :: "('d, 'p, 'w) shell \<Rightarrow> bool" where
  "link_synced sh \<longleftrightarrow> wd_eth_link (sh_watchdog sh) = su_eth_link (sh_core sh)"

lemma react_link:
  assumes "link_synced sh"
  shows "link_synced (snd (react J N D P ev q sh))
    \<and> (su_eth_link (sh_core (snd (react J N D P ev q sh))) = Some False \<longrightarrow>
         wd_dial_calls (sh_watchdog (snd (react J N D P ev q sh))) = wd_dial_calls (sh_watchdog sh))"
proof -
  obtain now wall where c: "stamp_of N ev sh = (ev, now, wall)" by (metis prod.exhaust_sel stamp_of_def)
  let ?s = "sh_core sh" let ?r = "reacted J N ev sh"
  let ?t = "step J ev now wall ?s"
  from step_link_told [of ?s J ev now wall] obtain rest where
    r: "effects_of J ev now wall ?s = (if su_eth_link ?t \<noteq> su_eth_link ?s then [SetWatchdogLink (su_eth_link ?t)]
          else []) @ rest" "\<forall>up. SetWatchdogLink up \<notin> set rest"
    unfolding link_told_def by blast
  show ?thesis
  proof (cases "su_eth_link ?t = su_eth_link ?s")
    case True
    with run_effects_untold [OF r(2), of N D P q ?r] r(1) assms show ?thesis
      by (auto simp: react_eq c link_synced_def)
  next
    case False
    let ?u = "?r\<lparr>sh_watchdog := set_eth_link (su_eth_link ?t) (sh_watchdog sh)\<rparr>"
    have "react J N D P ev q sh = run_effects N D P rest q ?u"
      using False r(1) by (simp add: react_eq c run_effects_Cons)
    with run_effects_untold [OF r(2), of N D P q ?u] run_effects_fields [of N D P rest q ?u] show ?thesis
      by (auto simp: link_synced_def set_eth_link_def c)
  qed
qed

lemma link_synced_new: "wd_eth_link wd = None \<Longrightarrow> link_synced (shell_new cfg path wd w)"
  by (simp add: link_synced_def shell_new_def supervisor_new_def supervisor_init_def Let_def split: option.splits)

lemma reach_link_synced:
  "shell_reach J N D P sh0 sh \<Longrightarrow> link_synced sh0 \<Longrightarrow> link_synced sh"
  by (induction rule: shell_reach.induct) (simp_all add: react_link, simp add: link_synced_def)

text \<open>
  C2 (safety). The service never dials with the cable out. Between any two events the watchdog works
  with the link state the supervisor knows, and the processing of an event after which that state is
  down, whatever it samples or steps, makes no dial.
\<close>

theorem no_dial_while_unplugged:
  assumes "shell_reach J N D P (shell_new cfg path (watchdog_new d p wcfg) w) sh"
  shows "wd_eth_link (sh_watchdog sh) = su_eth_link (sh_core sh)
    \<and> (su_eth_link (sh_core (snd (react J N D P ev q sh))) = Some False \<longrightarrow>
         wd_dial_calls (sh_watchdog (snd (react J N D P ev q sh))) = wd_dial_calls (sh_watchdog sh))"
proof -
  have "link_synced sh"
    by (rule reach_link_synced [OF assms]) (simp add: link_synced_new watchdog_new_def)
  with react_link [OF this, of J N D P ev q] show ?thesis by (simp add: link_synced_def)
qed

theorem no_dial_while_unplugged_witness:
  "wd_eth_link (sh_watchdog (ml_shell (demo_service [TimerElapsed])))
     = su_eth_link (sh_core (ml_shell (demo_service [TimerElapsed])))"
proof -
  have "shell_reach demo_json quiet_shell_env (real_dialer_ops quiet_ras no_crash) (\<lambda>p. (Alive, p))
      (shell_new wired_only config_path (service_watchdog wired_only ''pw'' [] () demo_cfg) ())
      (ml_shell (demo_service [TimerElapsed]))" by (rule service_reach)
  from no_dial_while_unplugged [OF this [unfolded service_watchdog_def], of Wake "[]"]
  show ?thesis by (simp add: service_watchdog_def del: serve.simps)
qed

section \<open>What a subscriber sees\<close>

lemma reach_runs_core: "shell_reach J N D P sh0 sh \<Longrightarrow> \<exists>es. runs_core J N es sh0 sh"
proof (induction rule: shell_reach.induct)
  case reach_start
  show ?case using runs_core_Nil by blast
next
  case (reach_event sh ev q)
  then show ?case using runs_core_append [OF _ runs_core_react] by blast
next
  case (reach_stop sh)
  then show ?case using runs_core_append [OF _ runs_core_stopping] by blast
qed

lemma silent_before_start:
  assumes "\<not> su_started s" shows "su_started (run J es s) \<or> run J es s = s \<and> published J es s = []"
proof (induction es rule: rev_induct)
  case (snoc x es)
  obtain ev now wall where x: "x = (ev, now, wall)" by (cases x)
  from snoc show ?case
  proof
    assume "su_started (run J es s)"
    then have "su_started (run J (es @ [x]) s)"
      by (simp add: x step_dispatch dispatch_def handle_event_lifecycle case_prod_beta handle_started_def Let_def)
    then show ?thesis by blast
  next
    assume "run J es s = s \<and> published J es s = []"
    with assms show ?thesis
      by (cases "ev = Started")
         (simp_all add: x step_dispatch dispatch_def on_def handle_started_def log_event_def Let_def case_prod_beta)
  qed
qed simp

text \<open>
  C15 (invariant). A client of the status channel never reads a stale state. Between any two events, on
  every path of the service, the value the channel holds is the snapshot composed from the current
  state of the supervisor, from the initial value at the start to the one left after the stop.
\<close>

theorem status_channel_current:
  assumes "shell_reach J N D P (shell_new cfg path wd w) sh"
  shows "sh_published sh \<noteq> [] \<and> last (sh_published sh) = compose (sh_core sh)"
proof -
  let ?s = "supervisor_new cfg"
  have n: "su_last_snapshot ?s = None" "\<not> su_started ?s"
    by (simp_all add: supervisor_new_def supervisor_init_def Let_def split: option.splits)
  then have c: "snapshot_current ?s" by (simp add: snapshot_current_def)
  from reach_runs_core [OF assms] obtain es where
    es: "sh_core sh = run J es ?s" "sh_published sh = compose ?s # published J es ?s"
    by (auto simp: runs_core_def shell_new_def)
  from silent_before_start [OF n(2), of J es] show ?thesis
  proof
    assume "su_started (run J es ?s)"
    with snapshot_current_run [OF c, of J es] published_last [OF n(1), of J es] show ?thesis
      by (auto simp: es snapshot_current_def split: if_splits)
  next
    assume "run J es ?s = ?s \<and> published J es ?s = []"
    then show ?thesis by (simp add: es)
  qed
qed

theorem status_channel_current_witness:
  "last (sh_published (ml_shell (demo_service [TimerElapsed])))
     = compose (sh_core (ml_shell (demo_service [TimerElapsed])))"
  by (rule conjunct2 [OF status_channel_current [OF service_reach]])

section \<open>The stop\<close>

text \<open>What the wireless worker sends back, and what it therefore brings to the loop.\<close>

fun worker_result :: "event \<Rightarrow> bool" where
  "worker_result (AssociateFinished _) = True"
| "worker_result (PortalFinished _) = True"
| "worker_result (WlanProbeFinished _) = True"
| "worker_result _ = False"

lemma send_event_results:
  "worker_result ev \<Longrightarrow> list_all worker_result (wk_sent wk) \<Longrightarrow>
     list_all worker_result (wk_sent (send_event N ev wk))"
  by (simp add: send_event_def)

lemma run_effect_results:
  "list_all worker_result (wk_sent wk) \<Longrightarrow> list_all worker_result (wk_sent (run_effect J H N r e wk))"
  by (cases e) (simp_all add: clean_routes_def run_associate_def run_acquire_def run_portal_auth_def
      run_wlan_probe_def Let_def case_prod_beta send_event_results split: option.splits prod.splits)

text \<open>The worker only ever sends results.\<close>

lemma worker_sends_results:
  "list_all worker_result (wk_sent wk) \<Longrightarrow> list_all worker_result (wk_sent (worker_run J H N ins wk))"
proof (induction ins arbitrary: wk)
  case (Cons i ins)
  have f: "list_all worker_result (wk_sent x) \<Longrightarrow>
      list_all worker_result (wk_sent (fold (run_effect J H N r) es x))" for r es x
    by (induction es arbitrary: x) (simp_all add: run_effect_results)
  show ?case
  proof (cases i)
    case (Msg m)
    with Cons f show ?thesis by (cases m) (simp_all add: run_effect_results)
  next
    case IdleTick
    with Cons show ?thesis by simp
  qed
qed simp

fun input_ok :: "loop_input \<Rightarrow> bool" where
  "input_ok (WirelessIn (Some ev)) = worker_result ev"
| "input_ok _ = True"

definition running :: "('d, 'p, 'w) shell \<Rightarrow> bool" where
  "running sh \<longleftrightarrow> su_started (sh_core sh) \<and> \<not> su_stopped (sh_core sh)"

lemma run_effects_no_stop: "Stop \<notin> set q \<Longrightarrow> Stop \<notin> set (fst (run_effects N D P es q sh))"
proof (induction es arbitrary: q sh)
  case (Cons e es)
  have "fst (exec_main N D P e sh) \<noteq> Some Stop"
    by (cases e) (simp_all add: step_watchdog_def sample_link_def sample_wireless_def Let_def
        case_prod_beta split: option.splits)
  then have "Stop \<notin> set (q @ (case fst (exec_main N D P e sh) of Some ev \<Rightarrow> [ev] | None \<Rightarrow> []))"
    using Cons.prems by (simp split: option.splits)
  with Cons show ?case by (simp add: run_effects_Cons)
qed simp

lemma react_running:
  assumes "running sh \<or> ev = Started \<and> \<not> su_started (sh_core sh) \<and> \<not> su_stopped (sh_core sh)" "ev \<noteq> Stop"
  shows "running (snd (react J N D P ev q sh))"
proof -
  obtain now wall where c: "stamp_of N ev sh = (ev, now, wall)" by (metis prod.exhaust_sel stamp_of_def)
  have "su_started (step J ev now wall (sh_core sh)) \<and> \<not> su_stopped (step J ev now wall (sh_core sh))"
    using assms by (auto simp: running_def step_dispatch dispatch_def handle_event_lifecycle
        handle_started_def log_event_def Let_def case_prod_beta)
  then show ?thesis by (simp add: running_def react_eq c)
qed

lemma drain_running: "running sh \<Longrightarrow> Stop \<notin> set q \<Longrightarrow> running (drain J N D P q sh)"
proof (induction J N D P q sh rule: drain.induct)
  case (1 J N D P q sh)
  show ?case
  proof (cases q)
    case Nil
    with "1.prems" show ?thesis by (subst drain.simps) simp
  next
    case (Cons ev r)
    have "Stop \<notin> set (fst (react J N D P ev r sh))"
      using "1.prems" Cons by (auto simp: react_eq dest: run_effects_no_stop)
    moreover have "running (snd (react J N D P ev r sh))"
      using "1.prems" Cons by (auto intro: react_running)
    ultimately show ?thesis using "1.IH" Cons by (subst drain.simps) simp
  qed
qed

lemma serve_running:
  "running (ml_shell L) \<Longrightarrow> list_all input_ok ins \<Longrightarrow> \<not> sh_stopping (ml_shell (serve J N D P ins L)) \<Longrightarrow>
     running (ml_shell (serve J N D P ins L))"
proof (induction ins arbitrary: L)
  case (Cons i ins)
  have stop: "sh_stopping (ml_shell (turn J N D P i L)) = sh_stopping (ml_shell (snd (select_input i L)))"
    by (simp add: turn_def case_prod_beta drain_stopping)
  have stay: "sh_stopping (ml_shell x) \<Longrightarrow> serve J N D P ins x = x" for x by (cases ins) simp_all
  show ?case
  proof (cases "sh_stopping (ml_shell L) \<or> sh_stopping (ml_shell (turn J N D P i L))")
    case True
    with Cons.prems(3) stay show ?thesis by (auto split: if_splits)
  next
    case False
    have "running (ml_shell (snd (select_input i L))) \<and> Stop \<notin> set (fst (select_input i L))"
      using False Cons.prems(1,2) unfolding stop
      by (cases "(i, L)" rule: select_input.cases) (auto simp: begin_stop_def)
    then have "running (ml_shell (turn J N D P i L))"
      by (simp add: turn_def case_prod_beta drain_running)
    with Cons False show ?thesis by simp
  qed
qed simp

lemma start_running: "running (ml_shell (service_start J N D P cfg path wd wireless w))"
proof -
  let ?sh = "shell_new cfg path wd w"
  have "\<not> su_started (sh_core ?sh) \<and> \<not> su_stopped (sh_core ?sh)"
    by (simp add: shell_new_def supervisor_new_def supervisor_init_def Let_def split: option.splits)
  then have "running (snd (react J N D P Started [] ?sh))" by (intro react_running) auto
  moreover have "Stop \<notin> set (fst (react J N D P Started [] ?sh))"
    by (simp add: react_eq run_effects_no_stop)
  ultimately show ?thesis
    by (simp add: service_start_def drain.simps [of _ _ _ _ "[Started]"] drain_running)
qed

lemma stop_effects:
  assumes "su_started s" "\<not> su_stopped s" "brain_ok s"
  shows "effects_of J Stop now wall s =
      Hangup # (if su_brain s = None then [] else [TeardownRoutes, Disassociate])"
  using assms by (cases "su_brain s")
    (auto simp: effects_of_dispatch dispatch_def handle_event_def handle_stop_def brain_ok_def Let_def)

lemma run_effects_shutdown:
  "\<not> sh_stopping sh \<Longrightarrow> sh_shutdown_effects (snd (run_effects N D P es q sh)) = sh_shutdown_effects sh"
  by (induction es arbitrary: q sh) (simp_all add: run_effects_Cons)

lemma reach_shutdown_empty:
  "shell_reach J N D P sh0 sh \<Longrightarrow> sh_shutdown_effects sh0 = [] \<Longrightarrow> \<not> sh_stopping sh \<Longrightarrow>
     sh_shutdown_effects sh = []"
  by (induction rule: shell_reach.induct) (auto simp: react_eq run_effects_shutdown)

lemma drain_Stop:
  assumes "running sh" "brain_ok (sh_core sh)" "sh_stopping sh"
    and sh': "sh' = drain J N D P [Stop] sh"
  shows "wd_dialer (sh_watchdog sh') = dl_hangup D (wd_dialer (sh_watchdog sh))"
    and "sh_wake_at sh' = None"
    and "sh_shutdown_effects sh' = sh_shutdown_effects sh
      @ (if su_brain (sh_core sh) = None then [] else [TeardownRoutes, Disassociate])"
proof -
  obtain now wall w where c: "se_clock N (sh_world sh) = ((now, wall), w)" by (metis prod.exhaust_sel)
  have r: "react J N D P Stop [] sh = run_effects N D P (Hangup #
      (if su_brain (sh_core sh) = None then [] else [TeardownRoutes, Disassociate])) [] (reacted J N Stop sh)"
    using assms(1,2) by (simp add: react_eq stamp_of_def c stop_effects running_def)
  then have e: "fst (react J N D P Stop [] sh) = []" using assms(3) by (simp add: run_effects_Cons)
  then have d: "sh' = snd (react J N D P Stop [] sh)"
    unfolding sh' by (subst drain.simps, simp, subst drain.simps, simp)
  have "su_stopped (step J Stop now wall (sh_core sh))"
    using assms(1) by (simp add: running_def step_dispatch dispatch_def handle_event_lifecycle case_prod_beta)
  then have "re_wake_at (snd (on J Stop now wall (sh_core sh))) = None"
    using assms(1) by (simp add: on_def step_def Let_def case_prod_beta running_def)
  then show "sh_wake_at sh' = None" using assms(3) by (simp add: d r run_effects_Cons reacted_def c)
  show "wd_dialer (sh_watchdog sh') = dl_hangup D (wd_dialer (sh_watchdog sh))"
    "sh_shutdown_effects sh' = sh_shutdown_effects sh
      @ (if su_brain (sh_core sh) = None then [] else [TeardownRoutes, Disassociate])"
    using assms(3) by (simp_all add: d r run_effects_Cons watchdog_shutdown_def)
qed

text \<open>
  C3 (safety). The stop. Whatever happened before, when the stop signal comes, or the command channel
  closes, the same turn of the loop hangs the wired session up: it calls RasHangUp once, with the handle of
  the session and after everything RAS was asked before, waits for it to take effect, and makes no other
  call to RAS; without a session it makes no call. No session handle is left and no timer; the message
  handed to the wireless worker tears the routes down and leaves the WLAN exactly when the wireless side is
  alive; and the loop takes no further input.
\<close>

theorem stop_hangs_up_and_tears_down:
  assumes "list_all input_ok ins" and "i \<in> {StopSignal, CommandIn None}"
    and "L = serve J N (real_dialer_ops A crash) P ins
          (service_start J N (real_dialer_ops A crash) P cfg path wd wireless w)"
    and "\<not> sh_stopping (ml_shell L)"
    and "L' = turn J N (real_dialer_ops A crash) P i L"
  shows "(let d = wd_dialer (sh_watchdog (ml_shell L)); d' = wd_dialer (sh_watchdog (ml_shell L'))
        in rd_sys d' =
             (case rd_session d of
                None \<Rightarrow> rd_sys d
              | Some h \<Rightarrow> (case ra_hangup A h (rd_sys d) of
                    (ret, r) \<Rightarrow> if ret = 0 \<or> ret = 668 then ra_sleep A (300 * 10 ^ 6) r else r)))
    \<and> rd_session (wd_dialer (sh_watchdog (ml_shell L'))) = None \<and> sh_wake_at (ml_shell L') = None
    \<and> fst (shutdown_msg (ml_shell L')) =
        Shutdown (if su_brain (sh_core (ml_shell L)) = None then [] else [TeardownRoutes, Disassociate])
    \<and> serve J N (real_dialer_ops A crash) P ins' L' = L'"
proof -
  let ?D = "real_dialer_ops A crash" let ?sh = "(ml_shell L)\<lparr>sh_stopping := True\<rparr>"
  have reach: "shell_reach J N ?D P (shell_new cfg path wd w) (ml_shell L)"
    unfolding assms(3) by (rule service_reach)
  obtain es where core: "sh_core (ml_shell L) = run J es (supervisor_new cfg)"
    using reach_runs_core [OF reach] by (auto simp: runs_core_def shell_new_def)
  have b: "brain_ok (sh_core (ml_shell L))"
    using sup_inv_run [OF sup_inv_new, of J es cfg] by (simp add: core sup_inv_def)
  have r: "running (ml_shell L)"
    using serve_running [OF start_running assms(1)] assms(3,4) by metis
  have none: "sh_shutdown_effects (ml_shell L) = []"
    using reach_shutdown_empty [OF reach] assms(4) by (simp add: shell_new_def)
  have L': "ml_shell L' = drain J N ?D P [Stop] ?sh"
    using assms(2,5) by (auto simp: turn_def begin_stop_def)
  have sh: "running ?sh" "brain_ok (sh_core ?sh)" "sh_stopping ?sh" using r b by (simp_all add: running_def)
  have "rd_session (dl_hangup ?D d) = None" for d
    by (simp add: real_dialer_ops_def real_hangup_def split: option.split)
  moreover have "rd_sys (dl_hangup ?D d) = (case rd_session d of None \<Rightarrow> rd_sys d
      | Some h \<Rightarrow> (case ra_hangup A h (rd_sys d) of
          (ret, r) \<Rightarrow> if ret = 0 \<or> ret = 668 then ra_sleep A (300 * 10 ^ 6) r else r))" for d
    by (simp add: real_dialer_ops_def real_hangup_def session_hangup_def split: option.split prod.split)
  moreover have "serve J N ?D P ins' L' = L'"
    by (cases ins') (simp_all add: L')
  ultimately show ?thesis
    using drain_Stop [OF sh refl, of J N ?D P] none by (simp add: L' shutdown_msg_def Let_def)
qed

text \<open>A service whose watchdog has dialled; the RAS interface records the calls.\<close>

abbreviation dialled_watchdog :: "(ras_act list real_dialer, unit) watchdog" where
  "dialled_watchdog \<equiv> snd (run_once (real_dialer_ops quiet_ras no_crash) (\<lambda>p. (Alive, p)) 0
     (service_watchdog wired_only ''pw'' [] () demo_cfg))"

abbreviation dialled_service :: "(ras_act list real_dialer, unit, unit) main_loop" where
  "dialled_service \<equiv> service_start demo_json quiet_shell_env (real_dialer_ops quiet_ras no_crash) (\<lambda>p. (Alive, p))
     wired_only config_path dialled_watchdog False ()"

lemma dialled_session: "rd_session (wd_dialer dialled_watchdog) = Some 7"
  by (simp add: run_once_def do_dial_def dial_ok_def service_watchdog_def watchdog_new_def
      real_dialer_ops_def real_dial_def dial_task_def no_crash_def real_dialer_new_def quiet_ras_def
      ras_dial_def dial_once_recorder dial_outcome_def)

lemma dialled_service_watchdog: "sh_watchdog (ml_shell dialled_service) = dialled_watchdog"
proof -
  have "emitted demo_json [(Started, c)] (supervisor_new wired_only) = []" for c
    by (cases c) (simp add: effects_of_dispatch dispatch_def handle_started_def supervisor_new_def supervisor_init_def
        wired_only_def log_event_def Let_def)
  then show ?thesis
    by (simp add: service_start_def drain.simps [of _ _ _ _ "[Started]"] react_eq reacted_def shell_new_def
        stamp_of_def drain.simps [of _ _ _ _ "[]"] case_prod_beta)
qed

theorem stop_hangs_up_and_tears_down_witness:
  "rd_session (wd_dialer (sh_watchdog (ml_shell dialled_service))) = Some 7
   \<and> rd_sys (wd_dialer (sh_watchdog (ml_shell (turn demo_json quiet_shell_env
       (real_dialer_ops quiet_ras no_crash) (\<lambda>p. (Alive, p)) StopSignal dialled_service)))) =
     rd_sys (wd_dialer (sh_watchdog (ml_shell dialled_service))) @ [ActHang 7, ActSleep (300 * 10 ^ 6)]"
proof -
  have held: "rd_session (wd_dialer (sh_watchdog (ml_shell dialled_service))) = Some 7"
    by (simp only: dialled_service_watchdog dialled_session)
  have "\<not> sh_stopping (ml_shell dialled_service)"
    by (simp add: service_start_def shell_new_def)
  from stop_hangs_up_and_tears_down [where ins = "[]", simplified serve.simps, OF _ _ refl this refl, of StopSignal] held
  show ?thesis by (simp add: Let_def quiet_ras_def)
qed

section \<open>Wireless side of the start\<close>

text \<open>
  The comment in \<open>WirelessWorker::new\<close>: the worker is spawned exactly when the supervisor has a
  takeover brain, so neither runs without the other.
\<close>

lemma worker_iff_brain: "spawns_worker cfg pass k w \<longleftrightarrow> su_brain (supervisor_new cfg) \<noteq> None"
  by (auto simp: spawns_worker_def worker_new_def supervisor_new_def supervisor_init_def Let_def
      split: option.splits)

section \<open>The sleep\<close>

text \<open>The loop sleeps until the time the core asked for, to the millisecond.\<close>

lemma sleep_for_reaches:
  "sh_wake_at sh = Some at \<Longrightarrow> unat now + as_millis (sleep_for now sh) = max (unat now) (unat at)"
  by (auto simp: sleep_for_def as_millis_def unat_sat_sub)

end
