(* ===== verification/Heartbeat.thy ===== *)
theory Heartbeat
  imports Protocol
begin

text \<open>
  \<open>src/src/heartbeat/spec.rs\<close>: the packets of the Dr.COM heartbeat. The digests are the third-party
  functions MD5, MD4 and SHA-1, arguments of \<open>crypt_bytes\<close>.
\<close>

section \<open>Byte arrays\<close>

text \<open>\<open>pkt[i..i + n].copy_from_slice\<close> and \<open>&pkt[i..j]\<close>.\<close>

definition copy_at :: "nat \<Rightarrow> u8 list \<Rightarrow> u8 list \<Rightarrow> u8 list" where
  "copy_at i bs pkt = take i pkt @ bs @ drop (i + length bs) pkt"

definition sub_bytes :: "nat \<Rightarrow> nat \<Rightarrow> 'a list \<Rightarrow> 'a list" where
  "sub_bytes i j xs = take (j - i) (drop i xs)"

definition le_bytes32 :: "u32 \<Rightarrow> u8 list" where
  "le_bytes32 x = [ucast x, ucast (drop_bit 8 x), ucast (drop_bit 16 x), ucast (drop_bit 24 x)]"

definition be_bytes16 :: "u16 \<Rightarrow> u8 list" where
  "be_bytes16 x = [ucast (drop_bit 8 x), ucast x]"

definition from_le16 :: "u8 \<Rightarrow> u8 \<Rightarrow> u16" where
  "from_le16 a b = ucast a + push_bit 8 (ucast b)"

section \<open>Packets\<close>

definition hb_port :: u16 where "hb_port = 61440"
definition ka1_len :: nat where "ka1_len = 96"
definition ka2_len :: nat where "ka2_len = 40"

definition next_cnt :: "u8 \<Rightarrow> u8" where
  "next_cnt cnt = (cnt + 2) mod 128"

definition ka1_pkt1 :: "u8 \<Rightarrow> u8 list" where
  "ka1_pkt1 cnt = [7, cnt, 8, 0, 1, 0, 0, 0]"

record ka1_init =
  ki_seed :: "u8 list"
  ki_host_ip :: "u8 list"
  ki_flag :: "u8 list option"

definition first_byte :: "u8 list \<Rightarrow> u8 option" where
  "first_byte pkt = (case pkt of [] \<Rightarrow> None | b # _ \<Rightarrow> Some b)"

definition file_flag :: "u8 list \<Rightarrow> u8 list option" where
  "file_flag pkt = (if pkt ! 2 = 0x10 then Some [pkt ! 6, pkt ! 7] else None)"

definition parse_ka1_resp :: "u8 list \<Rightarrow> ka1_init option" where
  "parse_ka1_resp pkt =
     (if first_byte pkt \<noteq> Some 7 \<or> length pkt < 30 then None
      else Some \<lparr>ki_seed = sub_bytes 8 12 pkt, ki_host_ip = sub_bytes 12 16 pkt, ki_flag = file_flag pkt\<rparr>)"

record digests =
  dg_md5 :: "u8 list \<Rightarrow> u8 list"
  dg_md4 :: "u8 list \<Rightarrow> u8 list"
  dg_sha1 :: "u8 list \<Rightarrow> u8 list"

definition pick :: "nat list \<Rightarrow> u8 list \<Rightarrow> u8 list" where
  "pick is d = map (\<lambda>i. d ! i) is"

definition plain_bytes :: "u8 list" where
  "plain_bytes = le_bytes32 20000711 @ le_bytes32 126"

definition md5_bytes :: "digests \<Rightarrow> u8 list \<Rightarrow> u8 list" where
  "md5_bytes H seed = pick [2, 3, 8, 9, 5, 6, 13, 14] (dg_md5 H seed)"

definition md4_bytes :: "digests \<Rightarrow> u8 list \<Rightarrow> u8 list" where
  "md4_bytes H seed = pick [1, 2, 8, 9, 4, 5, 11, 12] (dg_md4 H seed)"

definition sha1_bytes :: "digests \<Rightarrow> u8 list \<Rightarrow> u8 list" where
  "sha1_bytes H seed = pick [2, 3, 9, 10, 5, 6, 15, 16] (dg_sha1 H seed)"

definition crypt_bytes :: "digests \<Rightarrow> u8 list \<Rightarrow> u8 list" where
  "crypt_bytes H seed =
     (let m = seed ! 0 mod 4
      in if m = 0 then plain_bytes else if m = 1 then md5_bytes H seed
         else if m = 2 then md4_bytes H seed else sha1_bytes H seed)"

definition ka1_pkt2 :: "digests \<Rightarrow> u8 \<Rightarrow> bool \<Rightarrow> u8 list \<Rightarrow> u8 list \<Rightarrow> u8 list \<Rightarrow> u8 list" where
  "ka1_pkt2 H cnt first host_ip seed flag =
     (let pkt = (replicate ka1_len 0)[0 := 7, 1 := cnt, 2 := 0x60, 3 := 0, 4 := 3, 5 := 0];
          pkt = copy_at 12 host_ip pkt;
          pkt = pkt[16 := 0, 17 := (if first then 0x62 else 0x63)];
          pkt = copy_at 18 flag pkt;
          pkt = copy_at 20 seed pkt
      in copy_at 24 (crypt_bytes H seed) pkt)"

text \<open>The exclusive or of the 16-bit little-endian words; an odd last byte is not part of a word.\<close>

fun xor_words :: "u8 list \<Rightarrow> u16" where
  "xor_words (a # b # rest) = xor (from_le16 a b) (xor_words rest)"
| "xor_words _ = 0"

definition ka2_checksum :: "u8 list \<Rightarrow> u8 list" where
  "ka2_checksum pkt = le_bytes32 (ucast (xor_words pkt) * 0x2c7)"

definition ka2_header :: "u8 \<Rightarrow> u8 \<Rightarrow> u8 list \<Rightarrow> u16 \<Rightarrow> u8 list \<Rightarrow> u8 list" where
  "ka2_header cnt type flag rand key =
     (let pkt = (replicate ka2_len 0)[0 := 7, 1 := cnt, 2 := 0x28, 3 := 0, 4 := 0x0b, 5 := type];
          pkt = copy_at 6 flag pkt;
          pkt = copy_at 8 (be_bytes16 rand) pkt
      in copy_at 16 key pkt)"

definition ka2_pkt1 :: "u8 \<Rightarrow> u8 list \<Rightarrow> u16 \<Rightarrow> u8 list \<Rightarrow> u8 list" where
  "ka2_pkt1 cnt flag rand key = ka2_header cnt 1 flag rand key"

record ka2_resp =
  kr_key :: "u8 list"
  kr_flag :: "u8 list option"

definition parse_ka2_resp :: "u8 list \<Rightarrow> ka2_resp option" where
  "parse_ka2_resp pkt =
     (if first_byte pkt \<noteq> Some 7 \<or> length pkt < 20 then None
      else Some \<lparr>kr_key = sub_bytes 16 20 pkt, kr_flag = file_flag pkt\<rparr>)"

definition ka2_pkt2 :: "u8 \<Rightarrow> u8 list \<Rightarrow> u16 \<Rightarrow> u8 list \<Rightarrow> u8 list \<Rightarrow> u8 list" where
  "ka2_pkt2 cnt flag rand key host_ip =
     (let pkt = copy_at 28 host_ip (ka2_header cnt 3 flag rand key)
      in copy_at 24 (ka2_checksum pkt) pkt)"

section \<open>Layout\<close>

text \<open>The byte arrays of the code have their length in the type.\<close>

definition fields_ok :: "u8 list \<Rightarrow> u8 list \<Rightarrow> u8 list \<Rightarrow> bool" where
  "fields_ok flag key host_ip \<longleftrightarrow> length flag = 2 \<and> length key = 4 \<and> length host_ip = 4"

lemma list4: "length xs = 4 \<Longrightarrow> \<exists>a b c d. xs = [a, b, c, d]"
  by (auto simp: numeral_eq_Suc length_Suc_conv)

lemma list2: "length xs = 2 \<Longrightarrow> \<exists>a b. xs = [a, b]"
  by (auto simp: numeral_eq_Suc length_Suc_conv)

lemma length_copy_at [simp]: "i + length bs \<le> length pkt \<Longrightarrow> length (copy_at i bs pkt) = length pkt"
  by (simp add: copy_at_def)

lemma le_bytes32_length [simp]: "length (le_bytes32 x) = 4"
  by (simp add: le_bytes32_def)

lemma crypt_bytes_length [simp]: "length (crypt_bytes H seed) = 8"
  by (simp add: crypt_bytes_def Let_def plain_bytes_def md5_bytes_def md4_bytes_def sha1_bytes_def pick_def)

text \<open>The type-3 packet, byte by byte.\<close>

lemma ka2_pkt2_bytes:
  assumes "flag = [f0, f1]" "key = [k0, k1, k2, k3]" "host_ip = [h0, h1, h2, h3]"
  shows "ka2_pkt2 cnt flag rand key host_ip =
    (let hd = [7, cnt, 0x28, 0, 0x0b, 3, f0, f1, ucast (drop_bit 8 rand), ucast rand, 0, 0, 0, 0, 0, 0]
          @ key @ [0, 0, 0, 0];
         tl = host_ip @ [0, 0, 0, 0, 0, 0, 0, 0]
     in hd @ ka2_checksum (hd @ [0, 0, 0, 0] @ tl) @ tl)"
  using assms
  by (simp add: ka2_pkt2_def ka2_header_def Let_def copy_at_def ka2_len_def be_bytes16_def numeral_eq_Suc
      le_bytes32_def ka2_checksum_def)

text \<open>
  The checksum loses nothing: the product of the 16-bit sum fits into 32 bits, so two packets have the
  same checksum exactly when the exclusive or of their words is the same.
\<close>

lemma le_bytes32_inj: "le_bytes32 x = le_bytes32 y \<longleftrightarrow> x = y"
proof
  assume "le_bytes32 x = le_bytes32 y"
  then have e: "(ucast x :: u8) = ucast y" "(ucast (drop_bit 8 x) :: u8) = ucast (drop_bit 8 y)"
    "(ucast (drop_bit 16 x) :: u8) = ucast (drop_bit 16 y)" "(ucast (drop_bit 24 x) :: u8) = ucast (drop_bit 24 y)"
    by (simp_all add: le_bytes32_def)
  show "x = y"
  proof (rule bit_word_eqI)
    fix n :: nat assume n: "n < LENGTH(32)"
    have b: "bit (drop_bit k z) m = bit (ucast (drop_bit k z) :: u8) m" if "m < 8" for k m and z :: u32
      using that by (simp add: bit_ucast_iff)
    consider "n < 8" | "8 \<le> n \<and> n < 16" | "16 \<le> n \<and> n < 24" | "24 \<le> n \<and> n < 32" using n by force
    then show "bit x n = bit y n"
    proof cases
      case 1
      with b [of n 0 x] b [of n 0 y] e(1) show ?thesis by simp
    next
      case 2
      then have "n - 8 < 8" by arith
      with 2 b [of "n - 8" 8 x] b [of "n - 8" 8 y] e(2) show ?thesis by (simp add: bit_drop_bit_eq)
    next
      case 3
      then have "n - 16 < 8" by arith
      with 3 b [of "n - 16" 16 x] b [of "n - 16" 16 y] e(3) show ?thesis by (simp add: bit_drop_bit_eq)
    next
      case 4
      then have "n - 24 < 8" by arith
      with 4 b [of "n - 24" 24 x] b [of "n - 24" 24 y] e(4) show ?thesis by (simp add: bit_drop_bit_eq)
    qed
  qed
qed simp

lemma ka2_checksum_eq: "ka2_checksum p = ka2_checksum q \<longleftrightarrow> xor_words p = xor_words q"
proof -
  have u: "unat ((ucast x :: u32) * 0x2c7) = unat x * 711" for x :: u16
  proof -
    have "unat x < 2 ^ 16" using unsigned_less [of x] by simp
    then have "unat x * 711 < 2 ^ 32" by simp
    moreover have "unat (ucast x :: u32) = unat x" using \<open>unat x < 2 ^ 16\<close>
      by (simp add: unsigned_ucast_eq take_bit_nat_eq_self)
    ultimately show ?thesis by (simp add: unat_word_ariths)
  qed
  show ?thesis
    unfolding ka2_checksum_def le_bytes32_inj
    by (metis u mult_cancel2 word_unat_eq_iff zero_neq_numeral)
qed

text \<open>
  The confirmation packet of the heartbeat. Its fields can be read back where the
  protocol puts them, with the parser the code uses for answers; a receiver that blanks the four
  checksum bytes and computes the checksum again gets these bytes; and the checksum catches every
  packet whose words add up, by exclusive or, to a different sum.
\<close>

theorem ka2_packet_roundtrip:
  assumes "fields_ok flag key host_ip" and "p = ka2_pkt2 cnt flag rand key host_ip"
  shows "length p = ka2_len \<and> sub_bytes 6 8 p = flag \<and> sub_bytes 8 10 p = be_bytes16 rand \<and> sub_bytes 28 32 p = host_ip
    \<and> parse_ka2_resp p = Some \<lparr>kr_key = key, kr_flag = None\<rparr>
    \<and> sub_bytes 24 28 p = ka2_checksum (copy_at 24 [0, 0, 0, 0] p)
    \<and> (sub_bytes 24 28 p = ka2_checksum q \<longleftrightarrow> xor_words q = xor_words (copy_at 24 [0, 0, 0, 0] p))"
proof -
  from assms(1) obtain f0 f1 k0 k1 k2 k3 h0 h1 h2 h3 where
    f: "flag = [f0, f1]" "key = [k0, k1, k2, k3]" "host_ip = [h0, h1, h2, h3]"
    unfolding fields_ok_def by (metis list2 list4)
  obtain c0 c1 c2 c3 where c: "ka2_checksum ([7, cnt, 0x28, 0, 0x0b, 3, f0, f1, ucast (drop_bit 8 rand), ucast rand,
      0, 0, 0, 0, 0, 0, k0, k1, k2, k3, 0, 0, 0, 0, 0, 0, 0, 0, h0, h1, h2, h3, 0, 0, 0, 0, 0, 0, 0, 0])
      = [c0, c1, c2, c3]"
    unfolding ka2_checksum_def le_bytes32_def by blast
  have p: "p = [7, cnt, 0x28, 0, 0x0b, 3, f0, f1, ucast (drop_bit 8 rand), ucast rand,
      0, 0, 0, 0, 0, 0, k0, k1, k2, k3, 0, 0, 0, 0, c0, c1, c2, c3, h0, h1, h2, h3, 0, 0, 0, 0, 0, 0, 0, 0]"
    unfolding assms(2) ka2_pkt2_bytes [OF f] using c by (simp add: f Let_def)
  have s: "sub_bytes 24 28 p = ka2_checksum (copy_at 24 [0, 0, 0, 0] p)"
    using c by (simp add: p sub_bytes_def copy_at_def)
  have "length p = ka2_len \<and> sub_bytes 6 8 p = flag \<and> sub_bytes 8 10 p = be_bytes16 rand \<and> sub_bytes 28 32 p = host_ip
    \<and> parse_ka2_resp p = Some \<lparr>kr_key = key, kr_flag = None\<rparr>"
    by (simp add: p f sub_bytes_def ka2_len_def be_bytes16_def parse_ka2_resp_def first_byte_def file_flag_def)
  with s show ?thesis using ka2_checksum_eq [of "copy_at 24 [0, 0, 0, 0] p" q] by auto
qed

theorem ka2_packet_roundtrip_witness:
  "parse_ka2_resp (ka2_pkt2 2 [0xdc, 2] 0x1234 [1, 2, 3, 4] [10, 0, 3, 2])
     = Some \<lparr>kr_key = [1, 2, 3, 4], kr_flag = None\<rparr>"
  using ka2_packet_roundtrip [OF _ refl, where flag = "[0xdc, 2]" and key = "[1, 2, 3, 4]" and
      host_ip = "[10, 0, 3, 2]" and cnt = 2 and rand = "0x1234"]
  by (simp add: fields_ok_def)

section \<open>Counters\<close>

lemma next_cnt_of_nat: "next_cnt (word_of_nat n) = word_of_nat ((n + 2) mod 128)"
proof (rule word_unat_eq_iff [THEN iffD2])
  have "unat (next_cnt (word_of_nat n)) = (n mod 256 + 2) mod 256 mod 128"
    by (simp add: next_cnt_def unat_mod unat_word_ariths unat_of_nat)
  also have "\<dots> = (n mod 256 + 2) mod 128" by (rule mod_mod_cancel) simp
  also have "\<dots> = (n mod 256 mod 128 + 2) mod 128" by (rule mod_add_left_eq [symmetric])
  also have "n mod 256 mod 128 = n mod 128" by (rule mod_mod_cancel) simp
  also have "(n mod 128 + 2) mod 128 = (n + 2) mod 128" by (rule mod_add_left_eq)
  finally show "unat (next_cnt (word_of_nat n)) = unat (word_of_nat ((n + 2) mod 128) :: u8)"
    by (simp add: unat_of_nat)
qed

text \<open>After \<open>n\<close> steps from \<open>c\<close> below 128.\<close>

lemma next_cnt_iter: "c < 128 \<Longrightarrow> (next_cnt ^^ n) (word_of_nat c) = word_of_nat ((c + 2 * n) mod 128)"
proof (induction n)
  case (Suc n)
  have "((c + 2 * n) mod 128 + 2) mod 128 = (c + 2 * n + 2) mod 128" by (rule mod_add_left_eq)
  also have "c + 2 * n + 2 = c + 2 * Suc n" by simp
  finally have "((c + 2 * n) mod 128 + 2) mod 128 = (c + 2 * Suc n) mod 128" .
  with Suc show ?case by (simp add: next_cnt_of_nat)
qed simp

end
