(* ===== verification/Heartbeat_Session.thy ===== *)
theory Heartbeat_Session
  imports Heartbeat
begin

text \<open>
  \<open>src/src/heartbeat/session.rs\<close>: the UDP session of the compatibility heartbeat. The socket, the stop
  token, the clock, the random numbers and the status channel are the record \<open>hb_env\<close> over a world
  \<open>'w\<close>; reading the stop token may change the world, so it can be cancelled between two reads.
\<close>

section \<open>Environment\<close>

datatype recv_error = RecvTimeout | RecvFailed string

record 'w hb_env =
  hb_bind :: "'w \<Rightarrow> (string + unit) \<times> 'w"
  hb_connect :: "'w \<Rightarrow> (string + unit) \<times> 'w"
  hb_read_timeout :: "'w \<Rightarrow> (string + unit) \<times> 'w"
  hb_send :: "u8 list \<Rightarrow> 'w \<Rightarrow> (string + unit) \<times> 'w"
  hb_recv :: "'w \<Rightarrow> (recv_error + u8 list) \<times> 'w"
  hb_stopped :: "'w \<Rightarrow> bool \<times> 'w"
  hb_now :: "'w \<Rightarrow> nat"
  hb_sleep :: "duration \<Rightarrow> 'w \<Rightarrow> 'w"
  hb_rand :: "'w \<Rightarrow> u16 \<times> 'w"
  hb_status :: "heartbeat_status \<Rightarrow> 'w \<Rightarrow> 'w"

definition recv_timeout_limit :: nat where "recv_timeout_limit = 5"
definition ka1_to_ka2_delay :: duration where "ka1_to_ka2_delay = from_secs 3"
definition bind_err_msg :: string where
  "bind_err_msg = ''Port 61440 in use, compatibility mode unavailable''"

record session =
  ss_ka1_cnt :: u8
  ss_ka2_cnt :: u8
  ss_ka1_flag :: "u8 list"
  ss_ka2_flag :: "u8 list"

text \<open>
  How a part of a round ends: with a value, with the round reset (\<open>continue\<close>) and the flags learned so
  far, with the return of
  the function, or without enough fuel for a sleep.
\<close>

datatype 'a hb = Next 'a | Reset session | Over "string + unit" | OutOfFuel

section \<open>Receiving and sleeping\<close>

text \<open>\<open>n\<close> of the five attempts are left.\<close>

primrec recv_loop :: "'w hb_env \<Rightarrow> nat \<Rightarrow> 'w \<Rightarrow> u8 list option \<times> 'w" where
  "recv_loop E 0 w = (None, w)"
| "recv_loop E (Suc n) w =
     (let (stop, w) = hb_stopped E w
      in if stop then (None, w)
         else (case hb_recv E w of
                 (Inr bytes, w) \<Rightarrow> (Some bytes, w)
               | (Inl RecvTimeout, w) \<Rightarrow> recv_loop E n w
               | (Inl (RecvFailed _), w) \<Rightarrow> (None, w)))"

definition recv_retry :: "'w hb_env \<Rightarrow> 'w \<Rightarrow> u8 list option \<times> 'w" where
  "recv_retry E w = recv_loop E recv_timeout_limit w"

text \<open>\<open>sleep_interruptible\<close>; \<open>None\<close> when the fuel does not suffice.\<close>

primrec sleep_until :: "'w hb_env \<Rightarrow> nat \<Rightarrow> nat \<Rightarrow> 'w \<Rightarrow> (bool \<times> 'w) option" where
  "sleep_until E 0 deadline w = None"
| "sleep_until E (Suc fuel) deadline w =
     (if hb_now E w < deadline
      then (let (stop, w') = hb_stopped E w
            in if stop then Some (False, w')
               else sleep_until E fuel deadline
                      (hb_sleep E (min (100 * 1000000) (deadline - hb_now E w')) w'))
      else (let (stop, w') = hb_stopped E w in Some (\<not> stop, w')))"

definition sleep_interruptible :: "'w hb_env \<Rightarrow> nat \<Rightarrow> duration \<Rightarrow> 'w \<Rightarrow> (bool \<times> 'w) option" where
  "sleep_interruptible E fuel dur w = sleep_until E fuel (hb_now E w + dur) w"

definition pause :: "'w hb_env \<Rightarrow> nat \<Rightarrow> duration \<Rightarrow> 'w \<Rightarrow> unit hb \<times> 'w" where
  "pause E fuel dur w =
     (case sleep_interruptible E fuel dur w of
        None \<Rightarrow> (OutOfFuel, w)
      | Some (True, w) \<Rightarrow> (Next (), w)
      | Some (False, w) \<Rightarrow> (Over (Inr ()), w))"

text \<open>A failed call is reported on the status channel and ends the session with the same message.\<close>

definition fail_with :: "'w hb_env \<Rightarrow> string \<Rightarrow> 'w \<Rightarrow> 'a hb \<times> 'w" where
  "fail_with E msg w = (Over (Inl msg), hb_status E (HbError msg) w)"

definition send_or_fail :: "'w hb_env \<Rightarrow> string \<Rightarrow> u8 list \<Rightarrow> 'w \<Rightarrow> unit hb \<times> 'w" where
  "send_or_fail E what pkt w =
     (case hb_send E pkt w of
        (Inr _, w) \<Rightarrow> (Next (), w)
      | (Inl e, w) \<Rightarrow> fail_with E (what @ '' send failed: '' @ e) w)"

text \<open>The continuation after a part of a round.\<close>

definition andthen :: "'a hb \<times> 'w \<Rightarrow> ('a \<Rightarrow> 'w \<Rightarrow> 'b hb \<times> 'w) \<Rightarrow> 'b hb \<times> 'w" where
  "andthen r k =
     (case r of (Next a, w) \<Rightarrow> k a w | (Reset s, w) \<Rightarrow> (Reset s, w) | (Over x, w) \<Rightarrow> (Over x, w)
              | (OutOfFuel, w) \<Rightarrow> (OutOfFuel, w))"

section \<open>One round\<close>

definition session_new :: session where
  "session_new = \<lparr>ss_ka1_cnt = 1, ss_ka2_cnt = 0, ss_ka1_flag = [0, 0], ss_ka2_flag = [0, 0]\<rparr>"

text \<open>KA1: probe and handshake.\<close>

definition ka1_exchange :: "digests \<Rightarrow> 'w hb_env \<Rightarrow> session \<Rightarrow> 'w \<Rightarrow> (u8 list \<times> session) hb \<times> 'w" where
  "ka1_exchange H E s w =
     andthen (send_or_fail E ''ka1_pkt1'' (ka1_pkt1 (ss_ka1_cnt s)) w) (\<lambda>_ w.
       (case recv_retry E w of
          (None, w) \<Rightarrow> (Reset s, w)
        | (Some resp, w) \<Rightarrow>
            (case parse_ka1_resp resp of
               None \<Rightarrow> (Reset s, w)
             | Some init \<Rightarrow>
                 (let s = (case ki_flag init of Some f \<Rightarrow> s\<lparr>ss_ka1_flag := f\<rparr> | None \<Rightarrow> s)
                  in andthen (send_or_fail E ''ka1_pkt2''
                       (ka1_pkt2 H (ss_ka1_cnt s) True (ki_host_ip init) (ki_seed init) (ss_ka1_flag s)) w)
                     (\<lambda>_ w. (Next (ki_host_ip init, s), w))))))"

text \<open>The key of an answer, and the flag it may carry.\<close>

definition learn_key :: "u8 list \<Rightarrow> session \<Rightarrow> 'w \<Rightarrow> (u8 list \<times> session) hb \<times> 'w" where
  "learn_key resp s w =
     (case parse_ka2_resp resp of
        None \<Rightarrow> (Reset s, w)
      | Some r \<Rightarrow> (Next (kr_key r, case kr_flag r of Some f \<Rightarrow> s\<lparr>ss_ka2_flag := f\<rparr> | None \<Rightarrow> s), w))"

definition is_file_packet :: "u8 list \<Rightarrow> bool" where
  "is_file_packet resp \<longleftrightarrow> first_byte resp = Some 7 \<and> 3 \<le> length resp \<and> resp ! 2 = 0x10"

definition learned_flag :: "u8 list \<Rightarrow> session \<Rightarrow> session" where
  "learned_flag resp s =
     (case parse_ka2_resp resp of
        Some r \<Rightarrow> (case kr_flag r of Some f \<Rightarrow> s\<lparr>ss_ka2_flag := f\<rparr> | None \<Rightarrow> s)
      | None \<Rightarrow> s)"

text \<open>KA2: key exchange; a file packet brings a new flag, and the first packet is sent again.\<close>

definition no_key :: "u8 list" where "no_key = [0, 0, 0, 0]"

definition ka2_request ::
  "'w hb_env \<Rightarrow> string \<Rightarrow> session \<Rightarrow> (u8 list \<Rightarrow> 'w \<Rightarrow> (u8 list \<times> session) hb \<times> 'w) \<Rightarrow> 'w
    \<Rightarrow> (u8 list \<times> session) hb \<times> 'w" where
  "ka2_request E what s answer w =
     (let (rand, w) = hb_rand E w
      in andthen (send_or_fail E what (ka2_pkt1 (ss_ka2_cnt s) (ss_ka2_flag s) rand no_key) w) (\<lambda>_ w.
           (case recv_retry E w of (None, w) \<Rightarrow> (Reset s, w) | (Some resp, w) \<Rightarrow> answer resp w)))"

definition ka2_exchange :: "'w hb_env \<Rightarrow> session \<Rightarrow> 'w \<Rightarrow> (u8 list \<times> session) hb \<times> 'w" where
  "ka2_exchange E s w =
     ka2_request E ''ka2_pkt1'' s (\<lambda>resp w.
       if is_file_packet resp
       then (let s = learned_flag resp s
             in ka2_request E ''ka2_pkt1 (retry)'' s (\<lambda>resp w. learn_key resp s w) w)
       else learn_key resp s w) w"

text \<open>KA2: confirmation, and the advance of both counters.\<close>

definition ka2_confirm :: "'w hb_env \<Rightarrow> u8 list \<Rightarrow> u8 list \<Rightarrow> session \<Rightarrow> 'w \<Rightarrow> session hb \<times> 'w" where
  "ka2_confirm E host_ip key s w =
     (let (rand, w) = hb_rand E w
      in andthen (send_or_fail E ''ka2_pkt2'' (ka2_pkt2 (ss_ka2_cnt s) (ss_ka2_flag s) rand key host_ip) w)
           (\<lambda>_ w. (Next (s\<lparr>ss_ka1_cnt := next_cnt (ss_ka1_cnt s), ss_ka2_cnt := next_cnt (ss_ka2_cnt s)\<rparr>), w)))"

text \<open>One pass of the loop.\<close>

definition hb_round ::
  "digests \<Rightarrow> 'w hb_env \<Rightarrow> nat \<Rightarrow> duration \<Rightarrow> session \<Rightarrow> 'w \<Rightarrow> session hb \<times> 'w" where
  "hb_round H E fuel interval s w =
     (let (stop, w) = hb_stopped E w
      in if stop then (Over (Inr ()), w)
         else andthen (ka1_exchange H E s w) (\<lambda>(host_ip, s) w.
              andthen (pause E fuel ka1_to_ka2_delay w) (\<lambda>_ w.
              andthen (ka2_exchange E s w) (\<lambda>(key, s) w.
              andthen (ka2_confirm E host_ip key s w) (\<lambda>s w.
              andthen (pause E fuel (interval - ka1_to_ka2_delay) w) (\<lambda>_ w. (Next s, w)))))))"

text \<open>\<open>n\<close> passes of the loop; \<open>Next\<close> means that the session still runs.\<close>

primrec hb_loop ::
  "digests \<Rightarrow> 'w hb_env \<Rightarrow> nat \<Rightarrow> duration \<Rightarrow> nat \<Rightarrow> session \<Rightarrow> 'w \<Rightarrow> session hb \<times> 'w" where
  "hb_loop H E fuel interval 0 s w = (Next s, w)"
| "hb_loop H E fuel interval (Suc n) s w =
     (case hb_round H E fuel interval s w of
        (Next s, w) \<Rightarrow> hb_loop H E fuel interval n s w
      | (Reset s, w) \<Rightarrow> hb_loop H E fuel interval n s w
      | (Over x, w) \<Rightarrow> (Over x, w)
      | (OutOfFuel, w) \<Rightarrow> (OutOfFuel, w))"

text \<open>\<open>peer\<close> is the text of the server's address and port.\<close>

definition open_socket :: "'w hb_env \<Rightarrow> string \<Rightarrow> 'w \<Rightarrow> unit hb \<times> 'w" where
  "open_socket E peer w =
     (case hb_bind E w of
        (Inl e, w) \<Rightarrow> (Over (Inl (bind_err_msg @ '': '' @ e)), hb_status E (HbError bind_err_msg) w)
      | (Inr _, w) \<Rightarrow>
          (case hb_connect E (hb_status E HbRunning w) of
             (Inl e, w) \<Rightarrow> fail_with E (''connect '' @ peer @ '' failed: '' @ e) w
           | (Inr _, w) \<Rightarrow>
               (case hb_read_timeout E w of
                  (Inl e, w) \<Rightarrow> fail_with E (''Failed to set recv timeout: '' @ e) w
                | (Inr _, w) \<Rightarrow> (Next (), w))))"

definition run_blocking ::
  "digests \<Rightarrow> 'w hb_env \<Rightarrow> string \<Rightarrow> nat \<Rightarrow> duration \<Rightarrow> nat \<Rightarrow> 'w \<Rightarrow> session hb \<times> 'w" where
  "run_blocking H E peer fuel interval n w =
     andthen (open_socket E peer w) (\<lambda>_ w. hb_loop H E fuel interval n session_new w)"

section \<open>What goes over the wire\<close>

text \<open>
  The packets of round \<open>k\<close>, modulo 64: the counters are odd for KA1 and even for KA2.
\<close>

definition hb_packet :: "digests \<Rightarrow> nat \<Rightarrow> u8 list \<Rightarrow> bool" where
  "hb_packet H k p \<longleftrightarrow>
     p = ka1_pkt1 (word_of_nat (2 * k + 1))
     \<or> (\<exists>ip seed flag. length ip = 4 \<and> length seed = 4 \<and> length flag = 2
          \<and> p = ka1_pkt2 H (word_of_nat (2 * k + 1)) True ip seed flag)
     \<or> (\<exists>flag rand key ip. fields_ok flag key ip
          \<and> (p = ka2_pkt1 (word_of_nat (2 * k)) flag rand key \<or> p = ka2_pkt2 (word_of_nat (2 * k)) flag rand key ip))"

definition session_ok :: "nat \<Rightarrow> session \<Rightarrow> bool" where
  "session_ok k s \<longleftrightarrow> k < 64 \<and> ss_ka1_cnt s = word_of_nat (2 * k + 1) \<and> ss_ka2_cnt s = word_of_nat (2 * k)
     \<and> length (ss_ka1_flag s) = 2 \<and> length (ss_ka2_flag s) = 2"

lemma session_ok_new: "session_ok 0 session_new"
  by (simp add: session_ok_def session_new_def)

lemma session_ok_next:
  assumes "session_ok k s"
  shows "session_ok ((k + 1) mod 64)
    (s\<lparr>ss_ka1_cnt := next_cnt (ss_ka1_cnt s), ss_ka2_cnt := next_cnt (ss_ka2_cnt s)\<rparr>)"
proof -
  have k: "k = 63 \<or> k < 63" using assms by (auto simp: session_ok_def)
  then have "(2 * k + 1 + 2) mod 128 = 2 * ((k + 1) mod 64) + 1" "(2 * k + 2) mod 128 = 2 * ((k + 1) mod 64)"
    by auto
  with assms show ?thesis
    by (simp add: session_ok_def next_cnt_of_nat del: of_nat_add of_nat_mult of_nat_Suc add_Suc_right)
qed

lemma parsed_lengths:
  "parse_ka1_resp resp = Some init \<Longrightarrow> length (ki_seed init) = 4 \<and> length (ki_host_ip init) = 4
     \<and> (\<forall>f. ki_flag init = Some f \<longrightarrow> length f = 2)"
  "parse_ka2_resp resp = Some r \<Longrightarrow> length (kr_key r) = 4 \<and> (\<forall>f. kr_flag r = Some f \<longrightarrow> length f = 2)"
  by (auto simp: parse_ka1_resp_def parse_ka2_resp_def file_flag_def sub_bytes_def split: if_splits)

text \<open>
  What the environment does to the packets sent: only \<open>hb_send\<close> adds one.
\<close>

definition records :: "'w hb_env \<Rightarrow> ('w \<Rightarrow> u8 list list) \<Rightarrow> bool" where
  "records E sent \<longleftrightarrow> (\<forall>w. sent (snd (hb_bind E w)) = sent w \<and> sent (snd (hb_connect E w)) = sent w
     \<and> sent (snd (hb_read_timeout E w)) = sent w \<and> sent (snd (hb_recv E w)) = sent w
     \<and> sent (snd (hb_stopped E w)) = sent w \<and> sent (snd (hb_rand E w)) = sent w
     \<and> (\<forall>d. sent (hb_sleep E d w) = sent w) \<and> (\<forall>st. sent (hb_status E st w) = sent w)
     \<and> (\<forall>p. sent (snd (hb_send E p w)) = sent w @ [p]))"

text \<open>
  The order of the packets. \<open>hb_log H k ph l\<close>: \<open>l\<close> is what a session has sent that is in round \<open>k\<close>
  (modulo 64) at the point \<open>ph\<close> of that round. A round is probe, handshake, one or two requests for a
  key, confirmation; it may be broken off at any point and then begins again with the probe and the
  same counters. The confirmation carries the address of the handshake, and it alone advances the
  round.
\<close>

datatype hb_phase = PhStart | PhProbed | PhShaken "u8 list" | PhAsked "u8 list" bool

inductive hb_log :: "digests \<Rightarrow> nat \<Rightarrow> hb_phase \<Rightarrow> u8 list list \<Rightarrow> bool" for H where
  log_start: "hb_log H 0 PhStart []"
| log_probe: "hb_log H k ph l \<Longrightarrow> hb_log H k PhProbed (l @ [ka1_pkt1 (word_of_nat (2 * k + 1))])"
| log_shake: "hb_log H k PhProbed l \<Longrightarrow> length ip = 4 \<Longrightarrow> length seed = 4 \<Longrightarrow> length flag = 2 \<Longrightarrow>
    hb_log H k (PhShaken ip) (l @ [ka1_pkt2 H (word_of_nat (2 * k + 1)) True ip seed flag])"
| log_ask: "hb_log H k (PhShaken ip) l \<Longrightarrow> length flag = 2 \<Longrightarrow>
    hb_log H k (PhAsked ip False) (l @ [ka2_pkt1 (word_of_nat (2 * k)) flag rand no_key])"
| log_ask_again: "hb_log H k (PhAsked ip False) l \<Longrightarrow> length flag = 2 \<Longrightarrow>
    hb_log H k (PhAsked ip True) (l @ [ka2_pkt1 (word_of_nat (2 * k)) flag rand no_key])"
| log_confirm: "hb_log H k (PhAsked ip again) l \<Longrightarrow> fields_ok flag key ip \<Longrightarrow>
    hb_log H ((k + 1) mod 64) PhStart (l @ [ka2_pkt2 (word_of_nat (2 * k)) flag rand key ip])"

lemma hb_log_packets: "hb_log H k ph l \<Longrightarrow> k < 64 \<and> (\<forall>p \<in> set l. \<exists>k < 64. hb_packet H k p)"
proof (induction rule: hb_log.induct)
  case (log_shake k l ip seed flag)
  then have "hb_packet H k (ka1_pkt2 H (word_of_nat (2 * k + 1)) True ip seed flag)"
    unfolding hb_packet_def by blast
  with log_shake.IH show ?case by auto
next
  case (log_ask k ip l flag rand)
  then have "fields_ok flag no_key no_key" by (simp add: fields_ok_def no_key_def)
  then have "hb_packet H k (ka2_pkt1 (word_of_nat (2 * k)) flag rand no_key)"
    unfolding hb_packet_def by blast
  with log_ask.IH show ?case by auto
next
  case (log_ask_again k ip l flag rand)
  then have "fields_ok flag no_key no_key" by (simp add: fields_ok_def no_key_def)
  then have "hb_packet H k (ka2_pkt1 (word_of_nat (2 * k)) flag rand no_key)"
    unfolding hb_packet_def by blast
  with log_ask_again.IH show ?case by auto
next
  case (log_confirm k ip again l flag key rand)
  then have "hb_packet H k (ka2_pkt2 (word_of_nat (2 * k)) flag rand key ip)"
    unfolding hb_packet_def by blast
  with log_confirm.IH show ?case by auto
qed (auto simp: hb_packet_def)

subsection \<open>The parts of a round\<close>

lemma recv_loop_sent: "records E sent \<Longrightarrow> sent (snd (recv_loop E n w)) = sent w"
proof (induction n arbitrary: w)
  case (Suc n)
  then show ?case
    by (auto simp: records_def case_prod_beta split: sum.split recv_error.split)
qed simp

lemma sleep_until_sent:
  "records E sent \<Longrightarrow> sleep_until E fuel deadline w = Some (b, w') \<Longrightarrow> sent w' = sent w"
proof (induction fuel arbitrary: w)
  case (Suc fuel)
  then show ?case by (auto simp: records_def case_prod_beta split: if_splits)
qed simp

text \<open>What a part of round \<open>k\<close> leaves behind, by the way it ends.\<close>

definition hb_post ::
  "digests \<Rightarrow> ('w \<Rightarrow> u8 list list) \<Rightarrow> nat \<Rightarrow> ('a \<Rightarrow> u8 list list \<Rightarrow> bool) \<Rightarrow> 'a hb \<times> 'w \<Rightarrow> bool" where
  "hb_post H sent k Q r \<longleftrightarrow>
     (case fst r of
        Next a \<Rightarrow> Q a (sent (snd r))
      | Reset s \<Rightarrow> session_ok k s \<and> (\<exists>ph. hb_log H k ph (sent (snd r)))
      | _ \<Rightarrow> \<exists>k ph. hb_log H k ph (sent (snd r)))"

lemma hb_postI:
  "Q a (sent w) \<Longrightarrow> hb_post H sent k Q (Next a, w)"
  "session_ok k s \<Longrightarrow> hb_log H k ph (sent w) \<Longrightarrow> hb_post H sent k Q (Reset s, w)"
  "hb_log H k' ph (sent w) \<Longrightarrow> hb_post H sent k Q (Over x, w)"
  "hb_log H k' ph (sent w) \<Longrightarrow> hb_post H sent k Q (OutOfFuel, w)"
  by (auto simp: hb_post_def)

lemma andthen_post:
  assumes "hb_post H sent k Q r" "\<And>a w. Q a (sent w) \<Longrightarrow> hb_post H sent k R (f a w)"
  shows "hb_post H sent k R (andthen r f)"
  using assms by (cases r; cases "fst r") (auto simp: andthen_def hb_post_def)

lemma send_post:
  assumes "records E sent" "hb_log H k' ph (sent w @ [p])"
  shows "hb_post H sent k (\<lambda>_ l. l = sent w @ [p]) (send_or_fail E what p w)"
proof -
  obtain r x where x: "hb_send E p w = (r, x)" by (cases "hb_send E p w")
  with assms(1) have "sent x = sent w @ [p]" "sent (hb_status E st x) = sent x" for st
    by (simp_all add: records_def) (metis snd_conv)
  with assms(2) x show ?thesis
    by (auto simp: send_or_fail_def fail_with_def split: sum.split intro!: hb_postI)
qed

lemma pause_post:
  assumes "records E sent" "hb_log H k' ph (sent w)"
  shows "hb_post H sent k (\<lambda>_ l. l = sent w) (pause E fuel d w)"
  using assms sleep_until_sent [OF assms(1), of fuel "hb_now E w + d" w]
  by (auto simp: pause_def sleep_interruptible_def split: option.split bool.split intro!: hb_postI)

lemma recv_cases:
  assumes "records E sent"
    and "\<And>x. sent x = sent w \<Longrightarrow> hb_post H sent k Q (a x)"
    and "\<And>resp x. sent x = sent w \<Longrightarrow> hb_post H sent k Q (b resp x)"
  shows "hb_post H sent k Q (case recv_retry E w of (None, w) \<Rightarrow> a w | (Some resp, w) \<Rightarrow> b resp w)"
  using recv_loop_sent [OF assms(1), of recv_timeout_limit w] assms(2,3)
  by (auto simp: recv_retry_def split: prod.split option.split)

lemma ka1_post:
  assumes e: "records E sent" and l: "hb_log H k ph (sent w)" and s: "session_ok k s"
  shows "hb_post H sent k (\<lambda>(ip, s) l. length ip = 4 \<and> session_ok k s \<and> hb_log H k (PhShaken ip) l)
    (ka1_exchange H E s w)"
proof -
  let ?Q = "\<lambda>(ip, s) l. length ip = 4 \<and> session_ok k s \<and> hb_log H k (PhShaken ip) l"
  have p: "hb_log H k PhProbed (sent w @ [ka1_pkt1 (ss_ka1_cnt s)])"
    using log_probe [OF l] s by (simp add: session_ok_def)
  have answer: "hb_post H sent k ?Q (case parse_ka1_resp resp of None \<Rightarrow> (Reset s, x)
       | Some init \<Rightarrow>
           (let s = (case ki_flag init of Some f \<Rightarrow> s\<lparr>ss_ka1_flag := f\<rparr> | None \<Rightarrow> s)
            in andthen (send_or_fail E ''ka1_pkt2''
                 (ka1_pkt2 H (ss_ka1_cnt s) True (ki_host_ip init) (ki_seed init) (ss_ka1_flag s)) x)
               (\<lambda>_ w. (Next (ki_host_ip init, s), w))))"
    if x: "hb_log H k PhProbed (sent x)" for x resp
  proof (cases "parse_ka1_resp resp")
    case None
    with x s show ?thesis by (simp add: hb_postI)
  next
    case (Some init)
    define t where "t = (case ki_flag init of Some f \<Rightarrow> s\<lparr>ss_ka1_flag := f\<rparr> | None \<Rightarrow> s)"
    have n: "length (ki_host_ip init) = 4" "length (ki_seed init) = 4"
      using parsed_lengths(1) [OF Some] by simp_all
    have t: "session_ok k t"
      using s parsed_lengths(1) [OF Some] by (auto simp: t_def session_ok_def split: option.split)
    then have "length (ss_ka1_flag t) = 2" "ss_ka1_cnt t = word_of_nat (2 * k + 1)"
      by (simp_all only: session_ok_def)
    with log_shake [OF x n] have q: "hb_log H k (PhShaken (ki_host_ip init))
        (sent x @ [ka1_pkt2 H (ss_ka1_cnt t) True (ki_host_ip init) (ki_seed init) (ss_ka1_flag t)])" by simp
    have "hb_post H sent k ?Q (andthen (send_or_fail E ''ka1_pkt2''
         (ka1_pkt2 H (ss_ka1_cnt t) True (ki_host_ip init) (ki_seed init) (ss_ka1_flag t)) x)
       (\<lambda>_ w. (Next (ki_host_ip init, t), w)))"
      using n t q by (intro andthen_post [OF send_post [OF e q]] hb_postI) simp
    then show ?thesis by (simp add: Some t_def Let_def)
  qed
  show ?thesis
    unfolding ka1_exchange_def
    using p s by (intro andthen_post [OF send_post [OF e p]] recv_cases [OF e])
      (auto intro!: answer hb_postI(2))
qed

lemma learn_key_post:
  assumes "session_ok k s" "hb_log H k (PhAsked ip again) (sent w)"
  shows "hb_post H sent k (\<lambda>(key, s) l. length key = 4 \<and> session_ok k s \<and> (\<exists>again. hb_log H k (PhAsked ip again) l))
    (learn_key resp s w)"
  using assms parsed_lengths(2) [of resp]
  by (auto simp: learn_key_def session_ok_def split: option.split intro!: hb_postI)

lemma learned_flag_ok: "session_ok k s \<Longrightarrow> session_ok k (learned_flag resp s)"
  using parsed_lengths(2) [of resp] by (auto simp: learned_flag_def session_ok_def split: option.split)

lemma rand_sent: "records E sent \<Longrightarrow> hb_rand E w = (rand, x) \<Longrightarrow> sent x = sent w"
  by (metis records_def snd_conv)

lemma ka2_request_post:
  assumes e: "records E sent" and s: "session_ok k s"
    and l: "\<And>rand. hb_log H k ph (sent w @ [ka2_pkt1 (ss_ka2_cnt s) (ss_ka2_flag s) rand no_key])"
    and a: "\<And>resp x. hb_log H k ph (sent x) \<Longrightarrow> hb_post H sent k Q (answer resp x)"
  shows "hb_post H sent k Q (ka2_request E what s answer w)"
proof -
  obtain rand x where x: "hb_rand E w = (rand, x)" by (cases "hb_rand E w")
  have p: "hb_log H k ph (sent x @ [ka2_pkt1 (ss_ka2_cnt s) (ss_ka2_flag s) rand no_key])"
    using l by (simp add: rand_sent [OF e x])
  show ?thesis
    unfolding ka2_request_def x Let_def prod.case
    using p s by (intro andthen_post [OF send_post [OF e p]] recv_cases [OF e])
      (auto intro!: a hb_postI(2))
qed

lemma ka2_post:
  assumes e: "records E sent" and s: "session_ok k s" and l: "hb_log H k (PhShaken ip) (sent w)"
  shows "hb_post H sent k (\<lambda>(key, s) l. length key = 4 \<and> session_ok k s \<and> (\<exists>again. hb_log H k (PhAsked ip again) l))
    (ka2_exchange E s w)"
proof -
  let ?Q = "\<lambda>(key, s) l. length key = 4 \<and> session_ok k s \<and> (\<exists>again. hb_log H k (PhAsked ip again) l)"
  have c: "ss_ka2_cnt t = word_of_nat (2 * k)" "length (ss_ka2_flag t) = 2" if "session_ok k t" for t
    using that by (simp_all add: session_ok_def)
  have again: "hb_post H sent k ?Q (ka2_request E what t (\<lambda>resp w. learn_key resp t w) x)"
    if "session_ok k t" "hb_log H k (PhAsked ip False) (sent x)" for what t x
    by (rule ka2_request_post [OF e that(1), where ph = "PhAsked ip True"])
      (use log_ask_again [OF that(2)] that(1) in \<open>auto simp: c learn_key_post\<close>)
  show ?thesis
    unfolding ka2_exchange_def
    by (rule ka2_request_post [OF e s, where ph = "PhAsked ip False"])
      (use log_ask [OF l] s in \<open>auto simp: c Let_def learn_key_post learned_flag_ok intro!: again\<close>)
qed

lemma ka2_confirm_post:
  assumes e: "records E sent" and s: "session_ok k s" and l: "hb_log H k (PhAsked ip again) (sent w)"
    and n: "length key = 4" "length ip = 4"
  shows "hb_post H sent k (\<lambda>s l. session_ok ((k + 1) mod 64) s \<and> hb_log H ((k + 1) mod 64) PhStart l)
    (ka2_confirm E ip key s w)"
proof -
  obtain rand x where x: "hb_rand E w = (rand, x)" by (cases "hb_rand E w")
  have c: "ss_ka2_cnt s = word_of_nat (2 * k)" "length (ss_ka2_flag s) = 2"
    using s by (simp_all add: session_ok_def)
  then have "fields_ok (ss_ka2_flag s) key ip" using n by (simp add: fields_ok_def)
  from log_confirm [OF l this]
  have p: "hb_log H ((k + 1) mod 64) PhStart (sent x @ [ka2_pkt2 (ss_ka2_cnt s) (ss_ka2_flag s) rand key ip])"
    by (simp only: c rand_sent [OF e x])
  show ?thesis
    unfolding ka2_confirm_def x Let_def prod.case
    using session_ok_next [OF s] p by (intro andthen_post [OF send_post [OF e p]] hb_postI) simp
qed

subsection \<open>Rounds\<close>

lemma hb_round_post:
  assumes e: "records E sent" and s: "session_ok k s" and l: "hb_log H k ph (sent w)"
  shows "hb_post H sent k (\<lambda>s l. session_ok ((k + 1) mod 64) s \<and> hb_log H ((k + 1) mod 64) PhStart l)
    (hb_round H E fuel interval s w)"
proof -
  define k' where "k' = (k + 1) mod 64"
  note confirm = ka2_confirm_post [OF e, of k, folded k'_def]
  let ?Q = "\<lambda>s l. session_ok k' s \<and> hb_log H k' PhStart l"
  obtain stop x where x: "hb_stopped E w = (stop, x)" by (cases "hb_stopped E w")
  then have "sent x = sent w" using e by (metis records_def snd_conv)
  with l have l: "hb_log H k ph (sent x)" by simp
  have last: "hb_post H sent k ?Q (andthen (pause E fuel d y) (\<lambda>_ w. (Next t, w)))"
    if "?Q t (sent y)" for d t y
    using that by (intro andthen_post [OF pause_post [OF e]] hb_postI) auto
  have mid: "hb_post H sent k ?Q (andthen (pause E fuel ka1_to_ka2_delay y) (\<lambda>_ w.
        andthen (ka2_exchange E t w) (\<lambda>(key, s) w.
        andthen (ka2_confirm E ip key s w) (\<lambda>s w.
        andthen (pause E fuel (interval - ka1_to_ka2_delay) w) (\<lambda>_ w. (Next s, w))))))"
    if "length ip = 4" "session_ok k t" "hb_log H k (PhShaken ip) (sent y)" for ip t y
  proof (rule andthen_post [OF pause_post [OF e that(3)]])
    fix z assume "sent z = sent y"
    with that(3) have z: "hb_log H k (PhShaken ip) (sent z)" by simp
    show "hb_post H sent k ?Q (andthen (ka2_exchange E t z) (\<lambda>(key, s) w.
        andthen (ka2_confirm E ip key s w) (\<lambda>s w.
        andthen (pause E fuel (interval - ka1_to_ka2_delay) w) (\<lambda>_ w. (Next s, w)))))"
      by (rule andthen_post [OF ka2_post [OF e that(2) z]])
        (use that(1) in \<open>auto intro!: andthen_post [OF confirm] last\<close>)
  qed
  show ?thesis
  proof (cases stop)
    case True
    with x l show ?thesis by (simp add: hb_round_def hb_postI(3))
  next
    case False
    with x have "hb_round H E fuel interval s w =
      andthen (ka1_exchange H E s x) (\<lambda>(host_ip, s) w.
        andthen (pause E fuel ka1_to_ka2_delay w) (\<lambda>_ w.
        andthen (ka2_exchange E s w) (\<lambda>(key, s) w.
        andthen (ka2_confirm E host_ip key s w) (\<lambda>s w.
        andthen (pause E fuel (interval - ka1_to_ka2_delay) w) (\<lambda>_ w. (Next s, w))))))"
      by (simp add: hb_round_def)
    moreover have "hb_post H sent k ?Q \<dots>"
      by (rule andthen_post [OF ka1_post [OF e l s]]) (auto intro!: mid)
    ultimately show ?thesis by (simp add: k'_def)
  qed
qed

lemma hb_loop_log:
  assumes e: "records E sent"
  shows "session_ok k s \<Longrightarrow> hb_log H k ph (sent w) \<Longrightarrow>
    \<exists>k ph. hb_log H k ph (sent (snd (hb_loop H E fuel interval n s w)))
      \<and> (\<forall>t. fst (hb_loop H E fuel interval n s w) = Next t \<longrightarrow> session_ok k t)"
proof (induction n arbitrary: k ph s w)
  case (Suc n)
  obtain r x where r: "hb_round H E fuel interval s w = (r, x)" by (cases "hb_round H E fuel interval s w")
  have "hb_post H sent k (\<lambda>s l. session_ok ((k + 1) mod 64) s \<and> hb_log H ((k + 1) mod 64) PhStart l) (r, x)"
    using hb_round_post [OF e Suc.prems, of fuel interval] by (simp add: r)
  then have p: "\<And>t. r = Next t \<Longrightarrow> session_ok ((k + 1) mod 64) t \<and> hb_log H ((k + 1) mod 64) PhStart (sent x)"
    "\<And>t. r = Reset t \<Longrightarrow> session_ok k t \<and> (\<exists>ph. hb_log H k ph (sent x))"
    "\<And>y. r = Over y \<or> r = OutOfFuel \<Longrightarrow> \<exists>k ph. hb_log H k ph (sent x)"
    by (auto simp: hb_post_def)
  show ?case
  proof (cases r)
    case (Next t)
    with p(1) Suc.IH [of "(k + 1) mod 64" t PhStart x] show ?thesis by (simp add: r)
  next
    case (Reset t)
    with p(2) obtain ph where "session_ok k t" "hb_log H k ph (sent x)" by blast
    with Suc.IH [of k t ph x] Reset show ?thesis by (simp add: r)
  qed (use p(3) in \<open>simp_all add: r\<close>)
qed auto

lemma hb_packet_shape:
  assumes "hb_packet H k p" shows "p ! 0 = 7 \<and> length p \<in> {8, ka1_len, ka2_len}"
proof -
  have h: "length (ka2_header c t flag rand key) = 40 \<and> ka2_header c t flag rand key ! 0 = 7"
    if "length flag = 2" "length key = 4" for c t flag rand key
    using that by (simp add: ka2_header_def Let_def ka2_len_def be_bytes16_def copy_at_def nth_append)
  from assms show ?thesis
    unfolding hb_packet_def fields_ok_def
  proof (elim disjE exE conjE)
    assume "p = ka1_pkt1 (word_of_nat (2 * k + 1))"
    then show ?thesis by (simp add: ka1_pkt1_def)
  next
    fix ip seed flag :: "u8 list"
    assume "length ip = 4" "length seed = 4" "length flag = 2"
      "p = ka1_pkt2 H (word_of_nat (2 * k + 1)) True ip seed flag"
    then show ?thesis
      by (simp add: ka1_pkt2_def Let_def ka1_len_def copy_at_def nth_append)
  next
    fix flag key ip rand
    assume "length flag = 2" "length key = 4" "length ip = 4"
      "p = ka2_pkt1 (word_of_nat (2 * k)) flag rand key"
    with h show ?thesis by (simp add: ka2_pkt1_def ka2_len_def)
  next
    fix flag key ip rand
    assume l: "length flag = 2" "length key = 4" "length ip = 4"
      "p = ka2_pkt2 (word_of_nat (2 * k)) flag rand key ip"
    have "length (ka2_checksum x) = 4" for x by (simp add: ka2_checksum_def)
    with h [OF l(1,2)] l(3,4) show ?thesis
      by (simp add: ka2_pkt2_def Let_def ka2_len_def copy_at_def nth_append)
  qed
qed

text \<open>
  C22 (invariant). Everything the heartbeat ever sends follows the protocol, packet by packet and in order.
  Whatever the server answers, including file packets, truncated and foreign datagrams, and however often a
  round is broken off: the packets sent are a sequence of rounds, each a probe, then the handshake, then one
  or two requests for a key, then a confirmation with the address of the handshake, and a round that is broken
  off starts again from the probe; in round \<open>k\<close>, counted from 0 modulo 64, the KA1 packets carry the odd
  counter \<open>2 * k + 1\<close> and the KA2 packets one less, and the round advances with the confirmation and with
  nothing else. A session that still runs holds the counters of the round its packets have reached. Each packet
  starts with byte 7 and has 8, 96 or 40 bytes; the keys, flags, seeds and addresses in it have their full
  length.
\<close>

theorem heartbeat_sends_protocol_packets:
  assumes "records E sent" and "sent w = []"
    and "run_blocking H E peer fuel interval n w = (r, w')"
  shows "(\<exists>k ph. hb_log H k ph (sent w') \<and> (\<forall>s. r = Next s \<longrightarrow> session_ok k s))
    \<and> (\<forall>p \<in> set (sent w'). (\<exists>k < 64. hb_packet H k p) \<and> p ! 0 = 7 \<and> length p \<in> {8, ka1_len, ka2_len})"
proof -
  have start: "hb_log H 0 PhStart (sent w)" using assms(2) log_start by simp
  have o: "hb_post H sent 0 (\<lambda>_ l. l = sent w) (open_socket E peer w)"
  proof -
    obtain a x where a: "hb_bind E w = (a, x)" by (cases "hb_bind E w")
    obtain b y where b: "hb_connect E (hb_status E HbRunning x) = (b, y)"
      by (cases "hb_connect E (hb_status E HbRunning x)")
    obtain c z where c: "hb_read_timeout E y = (c, z)" by (cases "hb_read_timeout E y")
    have st: "sent (hb_status E t v) = sent v" for t v using assms(1) by (simp add: records_def)
    have "sent x = sent w" "sent y = sent w" "sent z = sent w"
      using assms(1) a b c st by (metis records_def snd_conv)+
    with start a b c show ?thesis
      by (auto simp: open_socket_def fail_with_def st split: sum.split intro!: hb_postI)
  qed
  have log: "\<exists>k ph. hb_log H k ph (sent w') \<and> (\<forall>s. r = Next s \<longrightarrow> session_ok k s)"
  proof (cases "open_socket E peer w")
    case (Pair q x)
    with o assms(3) start hb_loop_log [OF assms(1) session_ok_new, of H PhStart x fuel interval n] show ?thesis
      by (cases q) (auto simp: run_blocking_def andthen_def hb_post_def)
  qed
  with hb_log_packets hb_packet_shape show ?thesis by blast
qed

text \<open>A server that never answers.\<close>

definition silent_env :: "(u8 list list \<times> nat) hb_env" where
  "silent_env = \<lparr>hb_bind = \<lambda>w. (Inr (), w), hb_connect = \<lambda>w. (Inr (), w), hb_read_timeout = \<lambda>w. (Inr (), w),
     hb_send = \<lambda>p (l, t). (Inr (), l @ [p], t), hb_recv = \<lambda>w. (Inl RecvTimeout, w),
     hb_stopped = \<lambda>w. (False, w), hb_now = snd, hb_sleep = \<lambda>d (l, t). (l, t + d), hb_rand = \<lambda>w. (0, w),
     hb_status = \<lambda>_ w. w\<rparr>"

abbreviation no_digests :: digests where
  "no_digests \<equiv> \<lparr>dg_md5 = \<lambda>_. [], dg_md4 = \<lambda>_. [], dg_sha1 = \<lambda>_. []\<rparr>"

lemma silent_recv: "recv_loop silent_env n w = (None, w)"
  by (induction n) (simp_all add: silent_env_def)

lemma silent_round: "snd (run_blocking no_digests silent_env [] 32 (from_secs 10) (Suc 0) ([], 0)) = ([ka1_pkt1 1], 0)"
proof -
  have "send_or_fail silent_env what p (l, t) = (Next (), l @ [p], t)" for what p l t
    by (simp add: send_or_fail_def silent_env_def)
  moreover have "hb_stopped silent_env w = (False, w)" for w by (simp add: silent_env_def)
  moreover have "open_socket silent_env [] w = (Next (), w)" for w by (simp add: open_socket_def silent_env_def)
  ultimately show ?thesis
    by (simp add: run_blocking_def andthen_def hb_round_def ka1_exchange_def recv_retry_def silent_recv
        session_new_def)
qed

theorem heartbeat_sends_protocol_packets_witness:
  "\<exists>k ph. hb_log no_digests k ph [[7, 1, 8, 0, 1, 0, 0, 0]]"
proof -
  have r: "records silent_env fst" by (simp add: records_def silent_env_def split: prod.split)
  obtain q where q: "run_blocking no_digests silent_env [] 32 (from_secs 10) (Suc 0) ([], 0) = (q, [ka1_pkt1 1], 0)"
    using silent_round by (metis prod.collapse)
  from heartbeat_sends_protocol_packets [OF r _ q] show ?thesis by (auto simp: ka1_pkt1_def)
qed

section \<open>The session does not get stuck\<close>

text \<open>The clock does not run backwards, and a sleep lasts at least as long as asked.\<close>

definition clock_laws :: "'w hb_env \<Rightarrow> bool" where
  "clock_laws E \<longleftrightarrow> (\<forall>w. hb_now E w \<le> hb_now E (snd (hb_stopped E w)))
     \<and> (\<forall>d w. hb_now E w + d \<le> hb_now E (hb_sleep E d w))"

lemma sleep_until_ends:
  assumes "clock_laws E"
  shows "deadline \<le> hb_now E w + fuel * 100000000 \<Longrightarrow> sleep_until E (Suc fuel) deadline w \<noteq> None"
proof (induction fuel arbitrary: w)
  case 0
  then show ?case by (simp add: case_prod_beta)
next
  case (Suc fuel)
  let ?x = "snd (hb_stopped E w)"
  let ?d = "min (100 * 1000000) (deadline - hb_now E ?x)"
  have "hb_now E w \<le> hb_now E ?x" "hb_now E ?x + ?d \<le> hb_now E (hb_sleep E ?d ?x)"
    using assms by (simp_all add: clock_laws_def)
  with Suc.prems have "deadline \<le> hb_now E (hb_sleep E ?d ?x) + fuel * 100000000" by (auto simp: min_def split: if_splits)
  note ih = Suc.IH [OF this]
  show ?case
    by (subst sleep_until.simps(2)) (use ih in \<open>auto simp: case_prod_beta simp del: sleep_until.simps\<close>)
qed

text \<open>A part of a round that does not run out of fuel.\<close>

definition ends :: "'a hb \<times> 'w \<Rightarrow> bool" where
  "ends r \<longleftrightarrow> fst r \<noteq> OutOfFuel"

lemma ends_simps [simp]: "ends (Next a, w)" "ends (Reset s, w)" "ends (Over x, w)"
  by (simp_all add: ends_def)

lemma pause_ends: "clock_laws E \<Longrightarrow> dur \<le> fuel * 100000000 \<Longrightarrow> ends (pause E (Suc fuel) dur w)"
  using sleep_until_ends [of E "hb_now E w + dur" w fuel]
  by (auto simp: pause_def sleep_interruptible_def split: option.split bool.split simp del: sleep_until.simps)

lemma andthen_ends [intro!]: "ends r \<Longrightarrow> (\<And>a w. ends (k a w)) \<Longrightarrow> ends (andthen r k)"
  by (cases r; cases "fst r") (auto simp: andthen_def ends_def)

lemma send_ends [simp]: "ends (send_or_fail E what p w)"
  by (simp add: send_or_fail_def fail_with_def split: prod.split sum.split)

lemma learn_key_ends [simp]: "ends (learn_key resp s w)"
  by (simp add: learn_key_def split: option.split)

lemma ka1_ends [simp]: "ends (ka1_exchange H E s w)"
  by (auto simp: ka1_exchange_def Let_def split: prod.split option.split)

lemma ka2_request_ends: "(\<And>resp w. ends (answer resp w)) \<Longrightarrow> ends (ka2_request E what s answer w)"
  by (auto simp: ka2_request_def case_prod_beta split: option.split)

lemma ka2_ends [simp]: "ends (ka2_exchange E s w)"
  by (auto simp: ka2_exchange_def Let_def intro!: ka2_request_ends)

lemma ka2_confirm_ends [simp]: "ends (ka2_confirm E ip key s w)"
  by (auto simp: ka2_confirm_def case_prod_beta)

lemma hb_round_ends:
  assumes "clock_laws E" "interval \<le> fuel * 100000000" "30 \<le> fuel"
  shows "ends (hb_round H E (Suc fuel) interval s w)"
proof -
  have "ends (pause E (Suc fuel) ka1_to_ka2_delay x)" "ends (pause E (Suc fuel) (interval - ka1_to_ka2_delay) x)" for x
    by (rule pause_ends [OF assms(1)]; use assms(2,3) in \<open>simp add: ka1_to_ka2_delay_def from_secs_def\<close>)+
  then show ?thesis by (auto simp: hb_round_def case_prod_beta)
qed

text \<open>
  C20 (termination). No sleep of the heartbeat lasts for ever: with a clock that runs, the sleeps of a
  round, sliced into tenths of a second, end after as many slices as the interval has, at least 31, so
  the session is always either running or has returned; and once the stop token is set and stays set,
  the next pass of the loop returns normally, without another packet.
\<close>

theorem heartbeat_never_stuck:
  assumes "clock_laws E" and "interval \<le> fuel * 100000000" and "30 \<le> fuel"
  shows "fst (run_blocking H E peer (Suc fuel) interval n w) \<noteq> OutOfFuel
    \<and> (fst (hb_stopped E w) \<longrightarrow> hb_loop H E (Suc fuel) interval (Suc n) s w = (Over (Inr ()), snd (hb_stopped E w)))"
proof -
  have "ends (hb_loop H E (Suc fuel) interval n s w)" for s w
  proof (induction n arbitrary: s w)
    case (Suc n)
    obtain r x where r: "hb_round H E (Suc fuel) interval s w = (r, x)" by (cases "hb_round H E (Suc fuel) interval s w")
    with hb_round_ends [OF assms, of H s w] Suc.IH show ?case by (cases r) (simp_all add: ends_def)
  qed simp
  moreover have "ends (open_socket E peer w)"
    by (simp add: open_socket_def fail_with_def split: prod.split sum.split)
  ultimately have "ends (run_blocking H E peer (Suc fuel) interval n w)"
    by (auto simp: run_blocking_def)
  then show ?thesis by (simp add: ends_def hb_round_def case_prod_beta)
qed

theorem heartbeat_never_stuck_witness:
  "fst (run_blocking no_digests silent_env [] 101 (from_secs 10) 1000 ([], 0)) \<noteq> OutOfFuel"
proof -
  have "clock_laws silent_env" by (simp add: clock_laws_def silent_env_def split: prod.split)
  from heartbeat_never_stuck [OF this, of "from_secs 10" 100] show ?thesis by (simp add: from_secs_def)
qed

end
