(* ===== verification/Payload.thy ===== *)
theory Payload
  imports Prelude
begin

text \<open>
  \<open>src/src/payload.rs\<close> and \<open>src/src/packaging.rs\<close>: the container that carries the program files behind
  the installer, \<open>[setup][data...][TOC][footer]\<close>. The digest SHA-256 and the file system calls are
  arguments. A \<open>usize\<close> is a natural number; the running out of memory is not modelled.
\<close>

section \<open>Bytes\<close>

definition bytes_of :: "string \<Rightarrow> u8 list" where
  "bytes_of s = map (\<lambda>c. word_of_nat (of_char c)) s"

definition string_of :: "u8 list \<Rightarrow> string" where
  "string_of bs = map (\<lambda>b. char_of (unat b)) bs"

lemma string_of_bytes [simp]: "string_of (bytes_of s) = s"
proof -
  have "char_of (unat (word_of_nat (of_char c) :: u8)) = c" for c
  proof -
    have "(of_char c :: nat) < 256" by simp
    then have "unat (word_of_nat (of_char c) :: u8) = of_char c" by (simp add: unat_of_nat del: of_nat_of_char)
    then show ?thesis by simp
  qed
  then show ?thesis by (simp add: string_of_def bytes_of_def comp_def)
qed

lemma bytes_of_length [simp]: "length (bytes_of s) = length s"
  by (simp add: bytes_of_def)

text \<open>\<open>str::from_utf8\<close>: the well-formed byte sequences.\<close>

definition cont :: "nat \<Rightarrow> nat \<Rightarrow> u8 \<Rightarrow> bool" where
  "cont lo hi b \<longleftrightarrow> lo \<le> unat b \<and> unat b \<le> hi"

definition is_cont :: "u8 \<Rightarrow> bool" where
  "is_cont b \<longleftrightarrow> cont 128 191 b"

fun utf8_valid :: "u8 list \<Rightarrow> bool" where
  "utf8_valid [] = True"
| "utf8_valid (a # s) =
     (let n = unat a
      in if n < 128 then utf8_valid s
         else if 194 \<le> n \<and> n \<le> 223
         then (case s of b # s \<Rightarrow> is_cont b \<and> utf8_valid s | _ \<Rightarrow> False)
         else if 224 \<le> n \<and> n \<le> 239
         then (case s of b # c # s \<Rightarrow>
                 cont (if n = 224 then 160 else 128) (if n = 237 then 159 else 191) b \<and> is_cont c
                 \<and> utf8_valid s | _ \<Rightarrow> False)
         else if 240 \<le> n \<and> n \<le> 244
         then (case s of b # c # d # s \<Rightarrow>
                 cont (if n = 240 then 144 else 128) (if n = 244 then 143 else 191) b \<and> is_cont c
                 \<and> is_cont d \<and> utf8_valid s | _ \<Rightarrow> False)
         else False)"

section \<open>Names\<close>

datatype payload_error =
    EmptyName | PathInName string | ControlInName string | DuplicateName string | NameTooLong
  | BadVersion nat | TocOutOfRange nat nat | CountTooLarge | TocTruncated | EntryTruncated | NotUtf8
  | DataOutOfRange string | BadChecksum string | TrailingBytes

text \<open>\<open>char::is_control\<close>: U+0000 to U+001F and U+007F to U+009F, in UTF-8.\<close>

fun has_control :: "string \<Rightarrow> bool" where
  "has_control [] = False"
| "has_control (c # s) =
     ((of_char c :: nat) < 32 \<or> (of_char c :: nat) = 127
      \<or> (of_char c :: nat) = 194 \<and> (case s of d # _ \<Rightarrow> (of_char d :: nat) < 160 | [] \<Rightarrow> False)
      \<or> has_control s)"

definition validate_name :: "string \<Rightarrow> payload_error + unit" where
  "validate_name name =
     (if name = [] then Inl EmptyName
      else if CHR ''/'' \<in> set name \<or> CHR 92 \<in> set name \<or> contains name ''..'' \<or> CHR '':'' \<in> set name
      then Inl (PathInName name)
      else if has_control name then Inl (ControlInName name)
      else Inr ())"

section \<open>Packing\<close>

definition magic :: "u8 list" where "magic = bytes_of ''GDUTPAK1''"
definition payload_version :: nat where "payload_version = 1"
definition footer_len :: nat where "footer_len = 24"

type_synonym sha = "u8 list \<Rightarrow> u8 list"

record payload_entry =
  pe_name :: string
  pe_data :: "u8 list"

fun check_names :: "string list \<Rightarrow> (string \<times> u8 list) list \<Rightarrow> payload_error + unit" where
  "check_names seen [] = Inr ()"
| "check_names seen ((name, _) # es) =
     (case validate_name name of
        Inl e \<Rightarrow> Inl e
      | Inr _ \<Rightarrow> if name \<in> set seen then Inl (DuplicateName name) else check_names (name # seen) es)"

definition toc_entry :: "sha \<Rightarrow> string \<Rightarrow> nat \<Rightarrow> u8 list \<Rightarrow> u8 list" where
  "toc_entry H name offset data =
     le_bytes 2 (length (bytes_of name)) @ bytes_of name @ le_bytes 8 offset @ le_bytes 8 (length data) @ H data"

fun pack_entries ::
  "sha \<Rightarrow> (string \<times> u8 list) list \<Rightarrow> u8 list \<Rightarrow> u8 list \<Rightarrow> payload_error + (u8 list \<times> u8 list)" where
  "pack_entries H [] out toc = Inr (out, toc)"
| "pack_entries H ((name, data) # es) out toc =
     (if 65535 < length (bytes_of name) then Inl NameTooLong
      else pack_entries H es (out @ data) (toc @ toc_entry H name (length out) data))"

definition footer :: "nat \<Rightarrow> nat \<Rightarrow> u8 list" where
  "footer count toc_offset = magic @ le_bytes 4 payload_version @ le_bytes 4 count @ le_bytes 8 toc_offset"

definition pack :: "sha \<Rightarrow> u8 list \<Rightarrow> (string \<times> u8 list) list \<Rightarrow> payload_error + u8 list" where
  "pack H setup entries =
     (case check_names [] entries of
        Inl e \<Rightarrow> Inl e
      | Inr _ \<Rightarrow>
          (case pack_entries H entries setup [] of
             Inl e \<Rightarrow> Inl e
           | Inr (out, toc) \<Rightarrow> Inr (out @ toc @ footer (length entries) (length out))))"

section \<open>Unpacking\<close>

definition sub :: "nat \<Rightarrow> nat \<Rightarrow> 'a list \<Rightarrow> 'a list" where
  "sub i j xs = take (j - i) (drop i xs)"

text \<open>One entry of the table at \<open>pos\<close>: the entry and the position after it.\<close>

definition unpack_entry ::
  "sha \<Rightarrow> u8 list \<Rightarrow> nat \<Rightarrow> u8 list \<Rightarrow> nat \<Rightarrow> payload_error + (payload_entry \<times> nat)" where
  "unpack_entry H exe toc_offset toc pos =
     (if length toc < pos + 2 then Inl TocTruncated
      else (let name_len = from_le (sub pos (pos + 2) toc); pos = pos + 2
            in if length toc < pos + name_len + 8 + 8 + 32 then Inl EntryTruncated
               else (let name_bytes = sub pos (pos + name_len) toc
                     in if \<not> utf8_valid name_bytes then Inl NotUtf8
                        else (let name = string_of name_bytes
                              in case validate_name name of
                                   Inl e \<Rightarrow> Inl e
                                 | Inr _ \<Rightarrow>
                                     (let pos = pos + name_len;
                                          offset = from_le (sub pos (pos + 8) toc); pos = pos + 8;
                                          len = from_le (sub pos (pos + 8) toc); pos = pos + 8;
                                          want = sub pos (pos + 32) toc; pos = pos + 32
                                      in if 2 ^ 64 \<le> offset + len \<or> toc_offset < offset + len
                                         then Inl (DataOutOfRange name)
                                         else (let data = sub offset (offset + len) exe
                                               in if H data \<noteq> want then Inl (BadChecksum name)
                                                  else Inr (\<lparr>pe_name = name, pe_data = data\<rparr>, pos)))))))"

primrec unpack_entries ::
  "sha \<Rightarrow> u8 list \<Rightarrow> nat \<Rightarrow> u8 list \<Rightarrow> nat \<Rightarrow> nat \<Rightarrow> payload_error + (payload_entry list \<times> nat)" where
  "unpack_entries H exe toc_offset toc 0 pos = Inr ([], pos)"
| "unpack_entries H exe toc_offset toc (Suc count) pos =
     (case unpack_entry H exe toc_offset toc pos of
        Inl e \<Rightarrow> Inl e
      | Inr (entry, pos) \<Rightarrow>
          (case unpack_entries H exe toc_offset toc count pos of
             Inl e \<Rightarrow> Inl e
           | Inr (es, pos) \<Rightarrow> Inr (entry # es, pos)))"

definition unpack :: "sha \<Rightarrow> u8 list \<Rightarrow> payload_error + payload_entry list option" where
  "unpack H exe =
     (if length exe < footer_len then Inr None
      else (let ft = drop (length exe - footer_len) exe
            in if take 8 ft \<noteq> magic then Inr None
               else (let version = from_le (sub 8 12 ft)
                     in if version \<noteq> payload_version then Inl (BadVersion version)
                        else (let count = from_le (sub 12 16 ft); toc_offset = from_le (sub 16 24 ft);
                                  toc_end = length exe - footer_len
                              in if toc_end < toc_offset then Inl (TocOutOfRange toc_offset toc_end)
                                 else (let toc = sub toc_offset toc_end exe
                                       in if length toc div 51 < count then Inl CountTooLarge
                                          else (case unpack_entries H exe toc_offset toc count 0 of
                                                  Inl e \<Rightarrow> Inl e
                                                | Inr (es, pos) \<Rightarrow>
                                                    if pos \<noteq> length toc then Inl TrailingBytes
                                                    else Inr (Some es)))))))"

section \<open>What was packed comes out again\<close>

lemma sub_mid: "xs = a @ b @ c \<Longrightarrow> length a = i \<Longrightarrow> i + length b = j \<Longrightarrow> sub i j xs = b"
  by (simp add: sub_def)

lemma check_names_ok:
  "check_names seen es = Inr u \<Longrightarrow> (\<forall>(n, d) \<in> set es. validate_name n = Inr ())
     \<and> distinct (map fst es) \<and> set (map fst es) \<inter> set seen = {}"
proof (induction seen es rule: check_names.induct)
  case (2 seen name d es)
  then show ?case by (auto split: sum.splits if_splits)
qed simp

primrec toc_of :: "sha \<Rightarrow> nat \<Rightarrow> (string \<times> u8 list) list \<Rightarrow> u8 list" where
  "toc_of H off [] = []"
| "toc_of H off (e # es) = toc_entry H (fst e) off (snd e) @ toc_of H (off + length (snd e)) es"

lemma pack_entries_eq:
  "pack_entries H es out toc =
     (if list_all (\<lambda>e. length (bytes_of (fst e)) \<le> 65535) es
      then Inr (out @ concat (map snd es), toc @ toc_of H (length out) es) else Inl NameTooLong)"
  by (induction H es out toc rule: pack_entries.induct) auto

text \<open>The digest has 32 bytes.\<close>

definition sha_ok :: "sha \<Rightarrow> bool" where
  "sha_ok H \<longleftrightarrow> (\<forall>d. length (H d) = 32)"

lemma toc_entry_length: "sha_ok H \<Longrightarrow> length (toc_entry H name off data) = 50 + length name"
  by (simp add: toc_entry_def sha_ok_def)

lemma unpack_entry_packed:
  assumes "sha_ok H" "toc = pre @ toc_entry H name off data @ post" "length pre = pos"
    and "validate_name name = Inr ()" "utf8_valid (bytes_of name)" "length (bytes_of name) \<le> 65535"
    and "off + length data \<le> toc_offset" "toc_offset < 2 ^ 64" "sub off (off + length data) exe = data"
  shows "unpack_entry H exe toc_offset toc pos =
    Inr (\<lparr>pe_name = name, pe_data = data\<rparr>, pos + length (toc_entry H name off data))"
proof -
  let ?n = "bytes_of name" let ?l = "le_bytes 2 (length ?n)"
  have h: "length (H data) = 32" using assms(1) by (simp add: sha_ok_def)
  have toc: "toc = pre @ ?l @ ?n @ le_bytes 8 off @ le_bytes 8 (length data) @ H data @ post"
    by (simp add: assms(2) toc_entry_def)
  have "sub pos (pos + 2) toc = ?l" by (rule sub_mid [OF toc]) (simp_all add: assms(3))
  then have l: "from_le (sub pos (pos + 2) toc) = length ?n"
    using assms(6) by (simp add: from_le_le_bytes)
  have n: "sub (pos + 2) (pos + 2 + length ?n) toc = ?n"
    by (rule sub_mid [of _ "pre @ ?l"]) (simp_all add: toc assms(3))
  let ?p = "pos + 2 + length ?n"
  have "sub ?p (?p + 8) toc = le_bytes 8 off"
    by (rule sub_mid [of _ "pre @ ?l @ ?n"]) (simp_all add: toc assms(3))
  then have o: "from_le (sub ?p (?p + 8) toc) = off" using assms(7,8) by (simp add: from_le_le_bytes)
  have "sub (?p + 8) (?p + 8 + 8) toc = le_bytes 8 (length data)"
    by (rule sub_mid [of _ "pre @ ?l @ ?n @ le_bytes 8 off"]) (simp_all add: toc assms(3))
  then have d: "from_le (sub (?p + 8) (?p + 8 + 8) toc) = length data"
    using assms(7,8) by (simp add: from_le_le_bytes)
  have w: "sub (?p + 8 + 8) (?p + 8 + 8 + 32) toc = H data"
    by (rule sub_mid [of _ "pre @ ?l @ ?n @ le_bytes 8 off @ le_bytes 8 (length data)"])
       (simp_all add: toc assms(3) h)
  have len: "length toc = pos + 50 + length ?n + length post" by (simp add: toc h assms(3))
  show ?thesis
    unfolding unpack_entry_def
    using assms(4-9) l n o d w len
    by (simp add: Let_def toc_entry_length [OF assms(1)])
qed

lemma unpack_entries_packed:
  assumes "sha_ok H" "toc_offset < 2 ^ 64"
  shows "toc = pre @ toc_of H off es @ post \<Longrightarrow> length pre = pos \<Longrightarrow>
    \<forall>e \<in> set es. validate_name (fst e) = Inr () \<and> utf8_valid (bytes_of (fst e)) \<and> length (bytes_of (fst e)) \<le> 65535
    \<Longrightarrow> drop off exe = concat (map snd es) @ rest \<Longrightarrow> off + length (concat (map snd es)) \<le> toc_offset \<Longrightarrow>
    unpack_entries H exe toc_offset toc (length es) pos =
      Inr (map (\<lambda>e. \<lparr>pe_name = fst e, pe_data = snd e\<rparr>) es, pos + length (toc_of H off es))"
proof (induction es arbitrary: pre off pos)
  case (Cons e es)
  let ?t = "toc_entry H (fst e) off (snd e)"
  have "sub off (off + length (snd e)) exe = snd e" using Cons.prems(4) by (simp add: sub_def)
  then have u: "unpack_entry H exe toc_offset toc pos =
      Inr (\<lparr>pe_name = fst e, pe_data = snd e\<rparr>, pos + length ?t)"
    using Cons.prems assms by (intro unpack_entry_packed [where post = "toc_of H (off + length (snd e)) es @ post"]) auto
  have "drop (off + length (snd e)) exe = concat (map snd es) @ rest"
    using drop_drop [of "length (snd e)" off exe] Cons.prems(4) by (simp add: add.commute)
  then have "unpack_entries H exe toc_offset toc (length es) (pos + length ?t) =
      Inr (map (\<lambda>e. \<lparr>pe_name = fst e, pe_data = snd e\<rparr>) es,
           pos + length ?t + length (toc_of H (off + length (snd e)) es))"
    using Cons.prems by (intro Cons.IH [where pre = "pre @ ?t"]) auto
  with u show ?case by simp
qed simp

lemma footer_length [simp]: "length (footer count off) = footer_len"
  by (simp add: footer_def magic_def footer_len_def)

lemma toc_of_length:
  "sha_ok H \<Longrightarrow> \<forall>e \<in> set es. fst e \<noteq> [] \<Longrightarrow> 51 * length es \<le> length (toc_of H off es)"
proof (induction es arbitrary: off)
  case (Cons e es)
  then have n: "1 \<le> length (fst e)" by (cases "fst e") simp_all
  have "51 * length es \<le> length (toc_of H (off + length (snd e)) es)" using Cons by simp
  with n show ?case using Cons.prems(1) by (simp add: toc_entry_length)
qed simp

lemma validate_name_ok:
  "validate_name name = Inr () \<Longrightarrow> name \<noteq> [] \<and> CHR ''/'' \<notin> set name \<and> CHR 92 \<notin> set name
     \<and> CHR '':'' \<notin> set name \<and> \<not> contains name ''..''"
  by (simp add: validate_name_def split: if_splits)

lemma unpack_pack:
  assumes "sha_ok H" and "pack H setup es = Inr exe" and "length exe < 2 ^ 63" and "length es < 2 ^ 32"
    and "\<And>name. name \<in> fst ` set es \<Longrightarrow> utf8_valid (bytes_of name)"
  shows "unpack H exe = Inr (Some (map (\<lambda>(name, data). \<lparr>pe_name = name, pe_data = data\<rparr>) es))"
proof -
  from assms(2) have c: "check_names [] es = Inr ()"
    and l: "list_all (\<lambda>e. length (bytes_of (fst e)) \<le> 65535) es"
    by (auto simp: pack_def pack_entries_eq split: sum.splits if_splits)
  define out toc where "out = setup @ concat (map snd es)" and "toc = toc_of H (length setup) es"
  define foot where "foot = footer (length es) (length out)"
  have exe: "exe = out @ toc @ foot"
    using assms(2) c l by (simp add: pack_def pack_entries_eq out_def toc_def foot_def)
  note names = check_names_ok [OF c]
  have e: "\<forall>e \<in> set es. validate_name (fst e) = Inr () \<and> utf8_valid (bytes_of (fst e)) \<and> length (bytes_of (fst e)) \<le> 65535"
    using names l assms(5) by (auto simp: list_all_iff)
  have len: "length exe = length out + length toc + footer_len" by (simp add: exe foot_def)
  have bound: "\<not> length exe < footer_len" "\<not> length exe - footer_len < length out" using len by simp_all
  have ol: "length out < 2 ^ 64" using assms(3) len by simp
  have ft: "drop (length exe - footer_len) exe = foot" by (simp add: exe foot_def)
  have f0: "take 8 foot = magic" by (simp add: foot_def footer_def magic_def)
  have f1: "from_le (sub 8 12 foot) = 1"
    by (subst sub_mid [of _ magic "le_bytes 4 payload_version"])
       (simp_all add: foot_def footer_def magic_def payload_version_def from_le_le_bytes)
  have f2: "from_le (sub 12 16 foot) = length es"
    by (subst sub_mid [of _ "magic @ le_bytes 4 payload_version" "le_bytes 4 (length es)"])
       (use assms(4) in \<open>simp_all add: foot_def footer_def magic_def from_le_le_bytes\<close>)
  have f3: "from_le (sub 16 24 foot) = length out"
    by (subst sub_mid [of _ "magic @ le_bytes 4 payload_version @ le_bytes 4 (length es)" "le_bytes 8 (length out)" "[]"])
       (use ol in \<open>simp_all add: foot_def footer_def magic_def from_le_le_bytes\<close>)
  have tocs: "sub (length out) (length exe - footer_len) exe = toc"
    by (rule sub_mid [of _ out toc foot]) (simp_all add: exe foot_def)
  have "\<forall>e \<in> set es. fst e \<noteq> []" using e validate_name_ok by blast
  from toc_of_length [OF assms(1) this, of "length setup"] have cnt: "\<not> length toc div 51 < length es"
    unfolding toc_def [symmetric]
    by (simp add: not_less less_eq_div_iff_mult_less_eq mult.commute [of _ 51])
  have d: "drop (length setup) exe = concat (map snd es) @ toc @ foot" by (simp add: exe out_def)
  have "unpack_entries H exe (length out) toc (length es) 0 =
      Inr (map (\<lambda>e. \<lparr>pe_name = fst e, pe_data = snd e\<rparr>) es, 0 + length toc)"
    using unpack_entries_packed [OF assms(1) ol, where pre = "[]" and post = "[]" and off = "length setup"
        and toc = toc and exe = exe and es = es and pos = 0] e d
    by (simp add: toc_def out_def)
  then show ?thesis
    using cnt by (simp add: unpack_def ft f0 f1 f2 f3 tocs Let_def payload_version_def case_prod_beta' bound)
qed

text \<open>
  What the packer writes, the installer reads back. For every installer image and every
  list of files the packer accepts, unpacking the result gives exactly these files, names and bytes, in
  order, as long as the image stays below 2 to the 63 bytes, the largest size of a vector, with fewer
  than 2 to the 32 files; the names are then pairwise different and free of path separators.
\<close>

theorem payload_roundtrip:
  assumes "sha_ok H" and "pack H setup es = Inr exe" and "length exe < 2 ^ 63" and "length es < 2 ^ 32"
    and "\<And>name. name \<in> fst ` set es \<Longrightarrow> utf8_valid (bytes_of name)"
  shows "unpack H exe = Inr (Some (map (\<lambda>(name, data). \<lparr>pe_name = name, pe_data = data\<rparr>) es))
    \<and> distinct (map fst es) \<and> (\<forall>name \<in> fst ` set es. name \<noteq> [] \<and> CHR ''/'' \<notin> set name \<and> CHR 92 \<notin> set name)"
proof -
  from assms(2) have "check_names [] es = Inr ()" by (auto simp: pack_def split: sum.splits)
  note names = check_names_ok [OF this]
  then have "\<forall>name \<in> fst ` set es. validate_name name = Inr ()" by auto
  with names unpack_pack [OF assms] validate_name_ok show ?thesis by blast
qed

definition demo_sha :: sha where "demo_sha data = replicate 32 (word_of_nat (length data))"

lemma demo_sha_ok: "sha_ok demo_sha"
  by (simp add: sha_ok_def demo_sha_def)

lemma pack_demo: "\<exists>exe. pack demo_sha [77, 90] [(''a.exe'', [1, 2, 3])] = Inr exe \<and> length exe = 84"
  by (simp add: pack_def validate_name_def toc_entry_length [OF demo_sha_ok] footer_len_def)

theorem payload_roundtrip_witness:
  "\<exists>exe. pack demo_sha [77, 90] [(''a.exe'', [1, 2, 3])] = Inr exe
    \<and> unpack demo_sha exe = Inr (Some [\<lparr>pe_name = ''a.exe'', pe_data = [1, 2, 3]\<rparr>])"
proof -
  obtain exe where e: "pack demo_sha [77, 90] [(''a.exe'', [1, 2, 3])] = Inr exe" "length exe = 84"
    using pack_demo by blast
  have u: "utf8_valid (bytes_of name)" if "name \<in> fst ` set [(''a.exe'', [1::u8, 2, 3])]" for name
    using that by (simp add: bytes_of_def)
  from payload_roundtrip [OF demo_sha_ok e(1) _ _ u] e show ?thesis by simp
qed

lemma packed_demo: "\<exists>exe. unpack demo_sha exe = Inr (Some [\<lparr>pe_name = ''a.exe'', pe_data = [1, 2, 3]\<rparr>])"
proof -
  obtain exe where e: "pack demo_sha [77, 90] [(''a.exe'', [1, 2, 3])] = Inr exe" "length exe = 84"
    using pack_demo by blast
  have u: "utf8_valid (bytes_of name)" if "name \<in> fst ` set [(''a.exe'', [1::u8, 2, 3])]" for name
    using that by (simp add: bytes_of_def)
  from unpack_pack [OF demo_sha_ok e(1) _ _ u] e show ?thesis by auto
qed

section \<open>What unpacking lets through\<close>

lemma bytes_of_string [simp]: "bytes_of (string_of bs) = bs"
proof -
  have "(word_of_nat (of_char (char_of (unat b) :: char)) :: u8) = b" for b :: u8
  proof -
    have "unat b < 256" using unsigned_less [of b] by simp
    then show ?thesis by simp
  qed
  then show ?thesis by (simp add: bytes_of_def string_of_def comp_def)
qed

lemma sub_split: "i \<le> j \<Longrightarrow> j \<le> k \<Longrightarrow> sub i k xs = sub i j xs @ sub j k xs"
  using take_add [of "j - i" "k - j" "drop i xs"] by (simp add: sub_def)

lemma sub_join:
  "i \<le> j \<Longrightarrow> j \<le> k \<Longrightarrow> sub i j xs @ sub j k xs = sub i k xs"
  "i \<le> j \<Longrightarrow> j \<le> k \<Longrightarrow> sub i j xs @ sub j k xs @ ys = sub i k xs @ ys"
  by (simp_all add: sub_split [of i j k] del: append_assoc flip: append_assoc)

lemma sub_length: "j \<le> length xs \<Longrightarrow> length (sub i j xs) = j - i"
  by (simp add: sub_def)

lemma unpack_entry_record:
  assumes "unpack_entry H exe toc_offset toc pos = Inr (e, pos')" and "toc_offset \<le> length exe"
  shows "validate_name (pe_name e) = Inr () \<and> utf8_valid (bytes_of (pe_name e)) \<and> pos \<le> pos' \<and> pos' \<le> length toc
    \<and> (\<exists>off. sub pos pos' toc = toc_entry H (pe_name e) off (pe_data e)
         \<and> off + length (pe_data e) \<le> toc_offset \<and> sub off (off + length (pe_data e)) exe = pe_data e)"
proof -
  define l where "l = from_le (sub pos (pos + 2) toc)"
  let ?p = "pos + 2 + l"
  define off where "off = from_le (sub ?p (?p + 8) toc)"
  define len where "len = from_le (sub (?p + 8) (?p + 16) toc)"
  let ?bytes = "sub (pos + 2) ?p toc" let ?data = "sub off (off + len) exe"
  have b: "\<not> length toc < ?p + 8 + 8 + 32" "utf8_valid ?bytes" "validate_name (string_of ?bytes) = Inr ()"
    "off + len \<le> toc_offset" "H ?data = sub (?p + 16) (?p + 48) toc"
    "e = \<lparr>pe_name = string_of ?bytes, pe_data = ?data\<rparr>" "pos' = ?p + 48"
    using assms(1) unfolding unpack_entry_def Let_def l_def [symmetric]
    by (auto simp: off_def len_def add.assoc split: if_splits sum.splits)
  have d: "length ?data = len" using b(4) assms(2) by (simp add: sub_def)
  have n: "length ?bytes = l" using b(1) by (simp add: sub_length)
  have "sub pos pos' toc = sub pos (pos + 2) toc @ ?bytes @ sub ?p (?p + 8) toc
      @ sub (?p + 8) (?p + 16) toc @ sub (?p + 16) (?p + 48) toc"
    unfolding b(7) by (simp add: sub_join)
  also have "sub pos (pos + 2) toc = le_bytes 2 l"
    unfolding l_def by (rule le_bytes_from_le_len [symmetric]) (use b(1) in \<open>simp add: sub_length\<close>)
  also have "sub ?p (?p + 8) toc = le_bytes 8 off"
    unfolding off_def by (rule le_bytes_from_le_len [symmetric]) (use b(1) in \<open>simp add: sub_length\<close>)
  also have "sub (?p + 8) (?p + 16) toc = le_bytes 8 len"
    unfolding len_def by (rule le_bytes_from_le_len [symmetric]) (use b(1) in \<open>simp add: sub_length\<close>)
  finally have "sub pos pos' toc = toc_entry H (pe_name e) off (pe_data e)"
    using n d by (simp add: b(5,6) toc_entry_def)
  with b d show ?thesis by (intro conjI exI [of _ off]) simp_all
qed

text \<open>The table that is read is made of the records of the entries that are returned.\<close>

abbreviation entry_records :: "sha \<Rightarrow> payload_entry list \<Rightarrow> nat list \<Rightarrow> u8 list" where
  "entry_records H es offs \<equiv> concat (map2 (\<lambda>e off. toc_entry H (pe_name e) off (pe_data e)) es offs)"

abbreviation in_front :: "u8 list \<Rightarrow> nat \<Rightarrow> payload_entry \<Rightarrow> nat \<Rightarrow> bool" where
  "in_front exe toc_offset e off \<equiv>
     off + length (pe_data e) \<le> toc_offset \<and> sub off (off + length (pe_data e)) exe = pe_data e"

lemma unpack_entries_records:
  "unpack_entries H exe toc_offset toc count pos = Inr (es, pos') \<Longrightarrow> toc_offset \<le> length exe \<Longrightarrow> pos \<le> length toc \<Longrightarrow>
     length es = count \<and> pos \<le> pos' \<and> pos' \<le> length toc
     \<and> (\<forall>e \<in> set es. validate_name (pe_name e) = Inr () \<and> utf8_valid (bytes_of (pe_name e)))
     \<and> (\<exists>offs. sub pos pos' toc = entry_records H es offs \<and> list_all2 (in_front exe toc_offset) es offs)"
proof (induction count arbitrary: pos es)
  case 0
  then show ?case by (auto simp: sub_def)
next
  case (Suc count)
  then obtain e q es' where e: "unpack_entry H exe toc_offset toc pos = Inr (e, q)"
    "unpack_entries H exe toc_offset toc count q = Inr (es', pos')" "es = e # es'"
    by (auto split: sum.splits)
  from unpack_entry_record [OF e(1) Suc.prems(2)] obtain off where
    r: "validate_name (pe_name e) = Inr ()" "utf8_valid (bytes_of (pe_name e))" "pos \<le> q" "q \<le> length toc"
      "sub pos q toc = toc_entry H (pe_name e) off (pe_data e)" "in_front exe toc_offset e off" by blast
  from Suc.IH [OF e(2) Suc.prems(2) r(4)] obtain offs where
    i: "length es' = count" "q \<le> pos'" "pos' \<le> length toc"
      "\<forall>e \<in> set es'. validate_name (pe_name e) = Inr () \<and> utf8_valid (bytes_of (pe_name e))"
      "sub q pos' toc = entry_records H es' offs" "list_all2 (in_front exe toc_offset) es' offs" by blast
  have "sub pos pos' toc = entry_records H es (off # offs)"
    using sub_split [OF r(3) i(2), of toc] by (simp add: r(5) i(5) e(3))
  moreover have "list_all2 (in_front exe toc_offset) es (off # offs)" using r(6) i(6) by (simp add: e(3))
  ultimately show ?case using r i e(3) by (intro conjI exI [of _ "off # offs"]) simp_all
qed

lemma footer_read:
  assumes "length ft = footer_len" "take 8 ft = magic" "from_le (sub 8 12 ft) = payload_version"
  shows "ft = footer (from_le (sub 12 16 ft)) (from_le (sub 16 24 ft))"
proof -
  have "ft = sub 0 24 ft" using assms(1) by (simp add: sub_def footer_len_def)
  also have "\<dots> = sub 0 8 ft @ sub 8 12 ft @ sub 12 16 ft @ sub 16 24 ft"
    by (simp add: sub_join)
  also have "sub 0 8 ft = magic" using assms(2) by (simp add: sub_def)
  also have "sub 8 12 ft = le_bytes 4 payload_version"
    unfolding assms(3) [symmetric] by (rule le_bytes_from_le_len [symmetric])
      (use assms(1) in \<open>simp add: sub_length footer_len_def\<close>)
  also have "sub 12 16 ft = le_bytes 4 (from_le (sub 12 16 ft))"
    by (rule le_bytes_from_le_len [symmetric]) (use assms(1) in \<open>simp add: sub_length footer_len_def\<close>)
  also have "sub 16 24 ft = le_bytes 8 (from_le (sub 16 24 ft))"
    by (rule le_bytes_from_le_len [symmetric]) (use assms(1) in \<open>simp add: sub_length footer_len_def\<close>)
  finally show ?thesis by (simp add: footer_def)
qed

text \<open>
  C40 (safety). Whatever bytes the installer finds behind itself, corrupted or forged: if it unpacks files, the
  image ends with a table and a footer that are, byte for byte, what the packer writes for exactly these files, with
  some offset for each. So each file lies as a whole in front of the table, at the offset and with the length of
  its own record; its digest is the one in this record; and there are never more files than the table has room
  for. Each name is not empty and has no separator, drive colon or parent directory in it, so that the file stays
  in the installation directory.
\<close>

theorem unpack_lets_through_only_checked_files:
  assumes "unpack H exe = Inr (Some es)"
  shows "(\<exists>toc_offset offs. drop toc_offset exe =
        concat (map2 (\<lambda>e off. toc_entry H (pe_name e) off (pe_data e)) es offs) @ footer (length es) toc_offset
      \<and> list_all2 (\<lambda>e off. off + length (pe_data e) \<le> toc_offset
          \<and> sub off (off + length (pe_data e)) exe = pe_data e) es offs
      \<and> 51 * length es \<le> length exe - toc_offset)
    \<and> (\<forall>e \<in> set es. pe_name e \<noteq> [] \<and> CHR ''/'' \<notin> set (pe_name e) \<and> CHR 92 \<notin> set (pe_name e)
          \<and> CHR '':'' \<notin> set (pe_name e) \<and> \<not> contains (pe_name e) ''..'')"
proof -
  define n where "n = length exe - footer_len"
  define ft where "ft = drop n exe"
  define tof where "tof = from_le (sub 16 24 ft)"
  define toc where "toc = sub tof n exe"
  have b: "\<not> length exe < footer_len" "\<not> n < tof" "\<not> length toc div 51 < from_le (sub 12 16 ft)"
    "take 8 ft = magic" "from_le (sub 8 12 ft) = payload_version"
    and u: "unpack_entries H exe tof toc (from_le (sub 12 16 ft)) 0 = Inr (es, length toc)"
    using assms(1) unfolding unpack_def Let_def n_def [symmetric] ft_def [symmetric] tof_def [symmetric]
      toc_def [symmetric] by (auto split: if_splits sum.splits)
  have tof: "tof \<le> n" "tof \<le> length exe" "length toc = n - tof" "n \<le> length exe"
    using b by (simp_all add: n_def toc_def sub_def)
  from unpack_entries_records [OF u tof(2)] obtain offs where
    r: "length es = from_le (sub 12 16 ft)" "sub 0 (length toc) toc = entry_records H es offs"
      "list_all2 (in_front exe tof) es offs"
      "\<forall>e \<in> set es. validate_name (pe_name e) = Inr ()" by blast
  have "length ft = footer_len" using b(1) by (simp add: ft_def n_def)
  from footer_read [OF this b(4,5)] have ft: "ft = footer (length es) tof" by (simp add: r(1) tof_def)
  have "drop tof exe = toc @ ft"
    using append_take_drop_id [of "n - tof" "drop tof exe"] tof(1) by (simp add: sub_def toc_def ft_def)
  moreover have "toc = entry_records H es offs" using r(2) by (simp add: sub_def)
  ultimately have "drop tof exe = entry_records H es offs @ footer (length es) tof" using ft by simp
  moreover have "51 * length es \<le> length exe - tof"
  proof -
    have "length es \<le> length toc div 51" using r(1) b(3) by simp
    then have "length es * 51 \<le> length toc" by (simp add: less_eq_div_iff_mult_less_eq)
    with tof show ?thesis by linarith
  qed
  ultimately show ?thesis using r(3,4) validate_name_ok by blast
qed

theorem unpack_lets_through_only_checked_files_witness:
  "\<exists>exe toc_offset off. unpack demo_sha exe = Inr (Some [\<lparr>pe_name = ''a.exe'', pe_data = [1, 2, 3]\<rparr>])
    \<and> drop toc_offset exe = toc_entry demo_sha ''a.exe'' off [1, 2, 3] @ footer 1 toc_offset"
proof -
  obtain exe where u: "unpack demo_sha exe = Inr (Some [\<lparr>pe_name = ''a.exe'', pe_data = [1, 2, 3]\<rparr>])"
    using packed_demo by blast
  from unpack_lets_through_only_checked_files [OF this] obtain toc_offset off where
    "drop toc_offset exe = toc_entry demo_sha ''a.exe'' off [1, 2, 3] @ footer 1 toc_offset"
    by (auto simp: list_all2_Cons1)
  with u show ?thesis by blast
qed

end
