(* ===== verification/Files.thy ===== *)
theory Files
  imports Prelude "HOL-Library.Finite_Map"
begin

text \<open>
  What the installer uses of \<open>std::fs\<close>: a disk is a finite map from paths to files and folders. Any
  operation may fail; a list of faults says which of the coming operations do, with the text of the
  error and, for a write, how many bytes got through. A failing operation changes nothing else. Other
  processes do not write to the disk meanwhile, and paths are compared as they are, letter by letter.
\<close>

section \<open>Paths\<close>

text \<open>A path is the list of its components; an empty first component stands for a root without drive.\<close>

type_synonym fpath = "string list"

definition is_separator :: "char \<Rightarrow> bool" where
  "is_separator c \<longleftrightarrow> c = CHR 92 \<or> c = CHR ''/''"

fun components :: "string \<Rightarrow> string \<Rightarrow> string list" where
  "components acc [] = [rev acc]"
| "components acc (c # s) = (if is_separator c then rev acc # components [] s else components (c # acc) s)"

definition path_of :: "string \<Rightarrow> fpath" where
  "path_of s =
     (case components [] s of
        [] \<Rightarrow> []
      | a # cs \<Rightarrow> (if a = [] \<and> cs = [] then [] else [a]) @ filter (\<lambda>c. c \<noteq> [] \<and> c \<noteq> ''.'') cs)"

definition is_root :: "fpath \<Rightarrow> bool" where
  "is_root p \<longleftrightarrow> p = [] \<or> length p = 1 \<and> (hd p = [] \<or> last (hd p) = CHR '':'')"

definition path_parent :: "fpath \<Rightarrow> fpath option" where
  "path_parent p = (if is_root p then None else Some (butlast p))"

definition path_file_name :: "fpath \<Rightarrow> string option" where
  "path_file_name p = (if is_root p \<or> last p = ''..'' then None else Some (last p))"

text \<open>
  \<open>Path::with_extension\<close>: the text after the last dot is replaced; a dot at the start of the name does
  not begin an extension.
\<close>

definition file_stem :: "string \<Rightarrow> string" where
  "file_stem name = (case rsplit_once (CHR ''.'') name of Some (a, b) \<Rightarrow> if a = [] then name else a | None \<Rightarrow> name)"

definition with_extension :: "fpath \<Rightarrow> string \<Rightarrow> fpath" where
  "with_extension p ext = butlast p @ [file_stem (last p) @ ''.'' @ ext]"

section \<open>Errors\<close>

datatype io_error = NotFound | AlreadyExists | NotEmpty | Failed string

text \<open>
  An error of \<^verbatim>\<open>anyhow\<close>: a message or a cause, wrapped in contexts; \<open>Several\<close> is the text of a
  step that collects the failures of its parts and joins them.
\<close>

datatype err = Msg string | Io io_error | Ctx string err | Several string "err list"

type_synonym ('a, 'w) outcome = "(err + 'a) \<times> 'w"

definition then_do :: "('e + 'a) \<times> 'w \<Rightarrow> ('a \<Rightarrow> 'w \<Rightarrow> ('e + 'b) \<times> 'w) \<Rightarrow> ('e + 'b) \<times> 'w" where
  "then_do r k = (case r of (Inl e, w) \<Rightarrow> (Inl e, w) | (Inr a, w) \<Rightarrow> k a w)"

lemma then_do_simps [simp]:
  "then_do (Inl e, w) k = (Inl e, w)" "then_do (Inr a, w) k = k a w"
  by (simp_all add: then_do_def)

lemma then_do_Inr:
  "then_do r k = (Inr b, w') \<longleftrightarrow> (\<exists>a w. r = (Inr a, w) \<and> k a w = (Inr b, w'))"
  by (cases r; cases "fst r") (auto simp: then_do_def)

lemma sum_case_Inr:
  "(case x of Inl e \<Rightarrow> (Inl (f e), w) | Inr a \<Rightarrow> g a) = (Inr b, w') \<longleftrightarrow> (\<exists>a. x = Inr a \<and> g a = (Inr b, w'))"
  by (cases x) auto

lemma then_doE:
  assumes "then_do r k = (x, w')"
  obtains (ok) a w where "r = (Inr a, w)" "k a w = (x, w')" | (fail) e where "r = (Inl e, w')" "x = Inl e"
  using assms by (cases r; cases "fst r") (auto simp: then_do_def)

definition with_ctx :: "string \<Rightarrow> (err + 'a) \<times> 'w \<Rightarrow> ('a, 'w) outcome" where
  "with_ctx s r = (case r of (Inl e, w) \<Rightarrow> (Inl (Ctx s e), w) | (Inr a, w) \<Rightarrow> (Inr a, w))"

lemma with_ctx_Inr [simp]: "with_ctx s r = (Inr a, w) \<longleftrightarrow> r = (Inr a, w)"
  by (cases r; cases "fst r") (auto simp: with_ctx_def)

lemma with_ctx_snd [simp]: "snd (with_ctx s r) = snd r"
  by (cases r; cases "fst r") (auto simp: with_ctx_def)

definition io :: "(io_error + 'a) \<times> 'w \<Rightarrow> ('a, 'w) outcome" where
  "io r = (case r of (Inl e, w) \<Rightarrow> (Inl (Io e), w) | (Inr a, w) \<Rightarrow> (Inr a, w))"

lemma io_Inr [simp]: "io r = (Inr a, w) \<longleftrightarrow> r = (Inr a, w)"
  by (cases r; cases "fst r") (auto simp: io_def)

lemma io_simps [simp]: "io (Inl e, w) = (Inl (Io e), w)" "io (Inr a, w) = (Inr a, w)"
  by (simp_all add: io_def)

definition ensure :: "bool \<Rightarrow> err \<Rightarrow> 'w \<Rightarrow> (unit, 'w) outcome" where
  "ensure b e w = (if b then Inr () else Inl e, w)"

lemma ensure_Inr [simp]: "ensure b e w = (Inr u, w') \<longleftrightarrow> b \<and> w' = w"
  by (auto simp: ensure_def)

section \<open>The disk\<close>

datatype node = File "u8 list" | Folder

text \<open>\<open>dk_next\<close> is the counter of staged files of the process \<open>dk_pid\<close>.\<close>

record disk =
  dk_nodes :: "(fpath, node) fmap"
  dk_faults :: "(string \<times> nat) option list"
  dk_pid :: nat
  dk_next :: nat

abbreviation node_at :: "disk \<Rightarrow> fpath \<Rightarrow> node option" where
  "node_at d \<equiv> fmlookup (dk_nodes d)"

definition set_node :: "fpath \<Rightarrow> node \<Rightarrow> disk \<Rightarrow> disk" where
  "set_node p n d = d\<lparr>dk_nodes := fmupd p n (dk_nodes d)\<rparr>"

definition drop_node :: "fpath \<Rightarrow> disk \<Rightarrow> disk" where
  "drop_node p d = d\<lparr>dk_nodes := fmdrop p (dk_nodes d)\<rparr>"

lemma node_at_set [simp]: "node_at (set_node p n d) = (node_at d)(p \<mapsto> n)"
  by (simp add: set_node_def fun_eq_iff)

lemma node_at_drop [simp]: "node_at (drop_node p d) = (node_at d)(p := None)"
  by (auto simp: drop_node_def fun_eq_iff)

lemma node_frame [simp]:
  "dk_pid (set_node p n d) = dk_pid d" "dk_next (set_node p n d) = dk_next d"
  "dk_pid (drop_node p d) = dk_pid d" "dk_next (drop_node p d) = dk_next d"
  by (simp_all add: set_node_def drop_node_def)

definition next_fault :: "disk \<Rightarrow> (string \<times> nat) option" where
  "next_fault d = (case dk_faults d of [] \<Rightarrow> None | f # _ \<Rightarrow> f)"

definition use_fault :: "disk \<Rightarrow> disk" where
  "use_fault d = d\<lparr>dk_faults := tl (dk_faults d)\<rparr>"

lemma use_fault_simps [simp]:
  "dk_nodes (use_fault d) = dk_nodes d" "dk_pid (use_fault d) = dk_pid d" "dk_next (use_fault d) = dk_next d"
  by (simp_all add: use_fault_def)

text \<open>How many operations will still fail.\<close>

definition fault_count :: "disk \<Rightarrow> nat" where
  "fault_count d = length (filter (\<lambda>f. f \<noteq> None) (dk_faults d))"

lemma fault_count_use: "fault_count d = fault_count (use_fault d) + (if next_fault d = None then 0 else 1)"
  by (cases "dk_faults d") (auto simp: fault_count_def use_fault_def next_fault_def)

lemma fault_count_use_le [simp]: "fault_count (use_fault d) \<le> fault_count d"
  using fault_count_use [of d] by simp

lemma fault_count_frame [simp]:
  "fault_count (set_node p n d) = fault_count d" "fault_count (drop_node p d) = fault_count d"
  "fault_count (d\<lparr>dk_next := k\<rparr>) = fault_count d"
  by (simp_all add: fault_count_def set_node_def drop_node_def)

text \<open>One operation: it fails when its fault is due, and otherwise does its work.\<close>

definition attempt :: "(disk \<Rightarrow> (io_error + 'a) \<times> disk) \<Rightarrow> disk \<Rightarrow> (io_error + 'a) \<times> disk" where
  "attempt f d =
     (case next_fault d of Some (e, _) \<Rightarrow> (Inl (Failed e), use_fault d) | None \<Rightarrow> f (use_fault d))"

text \<open>No fault is left.\<close>

definition calm :: "disk \<Rightarrow> bool" where
  "calm d \<longleftrightarrow> dk_faults d = []"

lemma calm_simps [simp]:
  "calm (set_node p n d) = calm d" "calm (drop_node p d) = calm d" "calm (d\<lparr>dk_next := k\<rparr>) = calm d"
  by (simp_all add: calm_def set_node_def drop_node_def)

lemma calm_attempt [simp]: "calm d \<Longrightarrow> attempt f d = f d"
  by (cases d) (simp add: calm_def attempt_def next_fault_def use_fault_def)

lemma calm_next [simp]: "calm d \<Longrightarrow> next_fault d = None" "calm d \<Longrightarrow> use_fault d = d"
  by (cases d, simp_all add: calm_def next_fault_def use_fault_def)

section \<open>Operations\<close>

definition fs_read :: "fpath \<Rightarrow> disk \<Rightarrow> (io_error + u8 list) \<times> disk" where
  "fs_read p = attempt (\<lambda>d.
     (case node_at d p of
        None \<Rightarrow> (Inl NotFound, d)
      | Some Folder \<Rightarrow> (Inl (Failed ''not a file''), d)
      | Some (File b) \<Rightarrow> (Inr b, d)))"

text \<open>\<open>symlink_metadata\<close>: whether the node is a file.\<close>

definition fs_is_file :: "fpath \<Rightarrow> disk \<Rightarrow> (io_error + bool) \<times> disk" where
  "fs_is_file p = attempt (\<lambda>d.
     (case node_at d p of None \<Rightarrow> (Inl NotFound, d) | Some n \<Rightarrow> (Inr (n \<noteq> Folder), d)))"

text \<open>\<open>Path::exists\<close> takes a failure for an absence, \<open>try_exists\<close> does not.\<close>

definition fs_exists :: "fpath \<Rightarrow> disk \<Rightarrow> bool \<times> disk" where
  "fs_exists p d = (next_fault d = None \<and> node_at d p \<noteq> None, use_fault d)"

definition fs_try_exists :: "fpath \<Rightarrow> disk \<Rightarrow> (io_error + bool) \<times> disk" where
  "fs_try_exists p = attempt (\<lambda>d. (Inr (node_at d p \<noteq> None), d))"

text \<open>\<open>OpenOptions::create_new\<close>.\<close>

definition fs_create_new :: "fpath \<Rightarrow> disk \<Rightarrow> (io_error + unit) \<times> disk" where
  "fs_create_new p = attempt (\<lambda>d.
     if node_at d p \<noteq> None then (Inl AlreadyExists, d)
     else if node_at d (butlast p) \<noteq> Some Folder then (Inl NotFound, d)
     else (Inr (), set_node p (File []) d))"

text \<open>\<open>write_all\<close> through an open handle; the bytes before a failure stay in the file.\<close>

definition fs_write_all :: "fpath \<Rightarrow> u8 list \<Rightarrow> disk \<Rightarrow> (io_error + unit) \<times> disk" where
  "fs_write_all p b d =
     (case next_fault d of
        Some (e, n) \<Rightarrow> (Inl (Failed e), set_node p (File (take n b)) (use_fault d))
      | None \<Rightarrow> (Inr (), set_node p (File b) (use_fault d)))"

definition fs_sync_all :: "disk \<Rightarrow> (io_error + unit) \<times> disk" where
  "fs_sync_all = attempt (\<lambda>d. (Inr (), d))"

text \<open>\<open>rename\<close> of a file; the source never renames a folder.\<close>

definition fs_rename :: "fpath \<Rightarrow> fpath \<Rightarrow> disk \<Rightarrow> (io_error + unit) \<times> disk" where
  "fs_rename p q = attempt (\<lambda>d.
     (case node_at d p of
        None \<Rightarrow> (Inl NotFound, d)
      | Some Folder \<Rightarrow> (Inl (Failed ''not a file''), d)
      | Some (File b) \<Rightarrow>
          if node_at d q = Some Folder then (Inl (Failed ''is a folder''), d)
          else (Inr (), set_node q (File b) (drop_node p d))))"

definition fs_remove_file :: "fpath \<Rightarrow> disk \<Rightarrow> (io_error + unit) \<times> disk" where
  "fs_remove_file p = attempt (\<lambda>d.
     (case node_at d p of
        None \<Rightarrow> (Inl NotFound, d)
      | Some Folder \<Rightarrow> (Inl (Failed ''not a file''), d)
      | Some (File _) \<Rightarrow> (Inr (), drop_node p d)))"

text \<open>\<open>create_dir_all\<close>: the folder and those above it.\<close>

primrec make_folders :: "fpath list \<Rightarrow> disk \<Rightarrow> (io_error + unit) \<times> disk" where
  "make_folders [] d = (Inr (), d)"
| "make_folders (p # ps) d =
     (case node_at d p of
        Some Folder \<Rightarrow> make_folders ps d
      | Some (File _) \<Rightarrow> (Inl AlreadyExists, d)
      | None \<Rightarrow> make_folders ps (set_node p Folder d))"

definition ancestors :: "fpath \<Rightarrow> fpath list" where
  "ancestors p = map (\<lambda>n. take n p) [1..<Suc (length p)]"

definition fs_create_dir_all :: "fpath \<Rightarrow> disk \<Rightarrow> (io_error + unit) \<times> disk" where
  "fs_create_dir_all p = attempt (make_folders (ancestors p))"

definition children :: "fpath \<Rightarrow> disk \<Rightarrow> fpath fset" where
  "children p d = ffilter (\<lambda>q. q \<noteq> [] \<and> butlast q = p) (fmdom (dk_nodes d))"

definition fs_remove_dir :: "fpath \<Rightarrow> disk \<Rightarrow> (io_error + unit) \<times> disk" where
  "fs_remove_dir p = attempt (\<lambda>d.
     (case node_at d p of
        None \<Rightarrow> (Inl NotFound, d)
      | Some (File _) \<Rightarrow> (Inl (Failed ''not a folder''), d)
      | Some Folder \<Rightarrow> if children p d \<noteq> {||} then (Inl NotEmpty, d) else (Inr (), drop_node p d)))"

text \<open>\<open>std::fs::write\<close> creates or truncates the file; a failed write may leave a part of the bytes.\<close>

definition fs_write :: "fpath \<Rightarrow> u8 list \<Rightarrow> disk \<Rightarrow> (io_error + unit) \<times> disk" where
  "fs_write p b d =
     (if node_at d p = Some Folder then (Inl (Failed ''is a folder''), use_fault d)
      else if node_at d (butlast p) \<noteq> Some Folder then (Inl NotFound, use_fault d)
      else fs_write_all p b d)"

text \<open>What \<open>read_dir\<close> may list: the children of the folder in any order.\<close>

definition listing :: "fpath \<Rightarrow> disk \<Rightarrow> fpath list \<Rightarrow> bool" where
  "listing p d qs \<longleftrightarrow> distinct qs \<and> set qs = fset (children p d)"

section \<open>Effects\<close>

text \<open>An operation leaves the counter alone and changes at most the node at \<open>p\<close>.\<close>

definition touches :: "fpath set \<Rightarrow> disk \<Rightarrow> disk \<Rightarrow> bool" where
  "touches P d d' \<longleftrightarrow> (\<forall>x. x \<notin> P \<longrightarrow> node_at d' x = node_at d x) \<and> dk_pid d' = dk_pid d"

lemma touches_refl [simp]: "touches P d d"
  by (simp add: touches_def)

lemma touches_trans: "touches P d d' \<Longrightarrow> touches P d' d'' \<Longrightarrow> touches P d d''"
  by (simp add: touches_def)

lemma touches_mono: "touches P d d' \<Longrightarrow> P \<subseteq> Q \<Longrightarrow> touches Q d d'"
  by (auto simp: touches_def)

lemma touches_steps [simp]:
  "touches P (use_fault d) d' = touches P d d'"
  "touches P d (use_fault d') = touches P d d'"
  "touches P d (d'\<lparr>dk_next := k\<rparr>) = touches P d d'"
  "touches P (d\<lparr>dk_next := k\<rparr>) d' = touches P d d'"
  "p \<in> P \<Longrightarrow> touches P d (set_node p n d') = touches P d d'"
  "p \<in> P \<Longrightarrow> touches P d (drop_node p d') = touches P d d'"
  by (auto simp: touches_def set_node_def drop_node_def)

lemma fs_read_eff:
  "fs_read p d = (r, d') \<Longrightarrow> d' = use_fault d \<and> (\<forall>b. r = Inr b \<longrightarrow> node_at d p = Some (File b))
     \<and> (r = Inl NotFound \<longrightarrow> node_at d p = None)"
  by (auto simp: fs_read_def attempt_def split: option.splits node.splits)

lemma fs_is_file_eff:
  "fs_is_file p d = (r, d') \<Longrightarrow> d' = use_fault d \<and> (r = Inr True \<longrightarrow> (\<exists>b. node_at d p = Some (File b)))
     \<and> (r = Inr False \<longrightarrow> node_at d p = Some Folder) \<and> (r = Inl NotFound \<longrightarrow> node_at d p = None)"
  by (auto simp: fs_is_file_def attempt_def split: option.splits) (metis node.exhaust)

lemma fs_create_new_eff:
  "fs_create_new p d = (r, d') \<Longrightarrow>
     (r = Inr () \<and> node_at d p = None \<and> node_at d (butlast p) = Some Folder \<and> d' = set_node p (File []) (use_fault d))
     \<or> (d' = use_fault d \<and> (\<exists>e. r = Inl e) \<and> (r = Inl AlreadyExists \<longrightarrow> node_at d p \<noteq> None))"
  by (auto simp: fs_create_new_def attempt_def split: option.splits if_splits)

lemma fs_write_all_eff:
  "fs_write_all p b d = (r, d') \<Longrightarrow> \<exists>c. d' = set_node p (File c) (use_fault d) \<and> (r = Inr () \<longrightarrow> c = b)"
  by (auto simp: fs_write_all_def split: option.splits)

lemma fs_sync_all_eff: "fs_sync_all d = (r, d') \<Longrightarrow> d' = use_fault d"
  by (auto simp: fs_sync_all_def attempt_def split: option.splits)

lemma fs_exists_eff: "fs_exists p d = (b, d') \<Longrightarrow> d' = use_fault d \<and> (b \<longrightarrow> node_at d p \<noteq> None)"
  by (auto simp: fs_exists_def)

lemma fs_rename_eff:
  "fs_rename p q d = (r, d') \<Longrightarrow>
     (\<exists>b. r = Inr () \<and> node_at d p = Some (File b) \<and> node_at d q \<noteq> Some Folder
          \<and> d' = set_node q (File b) (drop_node p (use_fault d)))
     \<or> (d' = use_fault d \<and> (\<exists>e. r = Inl e) \<and> (r = Inl NotFound \<longrightarrow> node_at d p = None)
          \<and> (next_fault d = None \<longrightarrow> (\<forall>b. node_at d p \<noteq> Some (File b)) \<or> node_at d q = Some Folder))"
  by (auto simp: fs_rename_def attempt_def split: option.splits node.splits if_splits)

lemma fs_remove_file_eff:
  "fs_remove_file p d = (r, d') \<Longrightarrow>
     (\<exists>b. r = Inr () \<and> node_at d p = Some (File b) \<and> d' = drop_node p (use_fault d))
     \<or> (d' = use_fault d \<and> (\<exists>e. r = Inl e) \<and> (r = Inl NotFound \<longrightarrow> node_at d p = None))"
  by (auto simp: fs_remove_file_def attempt_def split: option.splits node.splits)

end
