(* ===== verification/File_Backup.thy ===== *)
theory File_Backup
  imports Files
begin

text \<open>
  \<open>src/src/setup/file_backup.rs\<close>: file contents captured before an installation, their restoration, and
  the replacement of a file that never leaves a half-written one behind.
\<close>

section \<open>Replacing a file\<close>

definition stage_name :: "nat \<Rightarrow> nat \<Rightarrow> string" where
  "stage_name pid n = ''.gdut-install-'' @ dec pid @ ''-'' @ dec n"

lemma stage_name_inj: "stage_name pid a = stage_name pid b \<Longrightarrow> a = b"
  by (auto simp: stage_name_def dest: dec_inj)

text \<open>The loop that creates the staged file: a name that is taken is skipped.\<close>

function stage :: "fpath \<Rightarrow> disk \<Rightarrow> (err + fpath) \<times> disk" where
  "stage parent d =
     (let staged = parent @ [stage_name (dk_pid d) (dk_next d)]
      in case fs_create_new staged (d\<lparr>dk_next := Suc (dk_next d)\<rparr>) of
           (Inr _, d) \<Rightarrow> (Inr staged, d)
         | (Inl e, d) \<Rightarrow>
             if e = AlreadyExists then stage parent d
             else (Inl (Ctx ''Failed to create staged file'' (Io e)), d))"
  by pat_completeness auto

definition taken :: "fpath \<Rightarrow> disk \<Rightarrow> nat set" where
  "taken parent d = {n. dk_next d \<le> n \<and> node_at d (parent @ [stage_name (dk_pid d) n]) \<noteq> None}"

lemma finite_taken: "finite (taken parent d)"
proof -
  have "inj_on (\<lambda>n. parent @ [stage_name (dk_pid d) n]) UNIV"
    by (auto intro!: inj_onI dest: stage_name_inj)
  moreover have "finite (dom (node_at d))" by simp
  ultimately have "finite ((\<lambda>n. parent @ [stage_name (dk_pid d) n]) -` dom (node_at d))"
    using finite_vimageI by (metis inj_on_def injI UNIV_I)
  then show ?thesis by (rule finite_subset [rotated]) (auto simp: taken_def intro: fmdom'I)
qed

termination stage
proof (relation "measure (\<lambda>(parent, d). card (taken parent d))", goal_cases)
  case (2 parent d staged r d' e)
  from 2(2) [symmetric] 2(3-) have e: "d' = use_fault (d\<lparr>dk_next := Suc (dk_next d)\<rparr>)"
    and t: "node_at d staged \<noteq> None"
    by (auto dest!: fs_create_new_eff)
  have "taken parent d' = taken parent d - {dk_next d}"
    by (auto simp: taken_def e)
  moreover have "dk_next d \<in> taken parent d" using t by (simp add: taken_def 2(1))
  ultimately have "card (taken parent d') < card (taken parent d)"
    using card_Diff1_less [OF finite_taken [of parent d]] by metis
  then show ?case by simp
qed simp

declare stage.simps [simp del]

text \<open>The closure that writes, keeps the previous file aside and publishes the new one.\<close>

type_synonym publisher = "fpath \<Rightarrow> fpath \<Rightarrow> disk \<Rightarrow> (io_error + unit) \<times> disk"

definition swap_in :: "publisher \<Rightarrow> fpath \<Rightarrow> fpath \<Rightarrow> disk \<Rightarrow> (unit, disk) outcome" where
  "swap_in publish staged path d =
     (let previous = with_extension staged ''old''; (taken, d) = fs_exists previous d
      in then_do (ensure (\<not> taken) (Msg ''Staging backup already exists'') d) (\<lambda>_ d.
         then_do (case fs_rename path previous d of
                    (Inr _, d) \<Rightarrow> (Inr True, d)
                  | (Inl e, d) \<Rightarrow>
                      if e = NotFound then (Inr False, d)
                      else (Inl (Ctx ''Failed to retain previous file'' (Io e)), d)) (\<lambda>had_previous d.
         (case publish staged path d of
            (Inl e, d) \<Rightarrow>
              then_do (if had_previous
                       then with_ctx ''Replacement failed; original retained'' (io (fs_rename previous path d))
                       else (Inr (), d))
                (\<lambda>_ d. (Inl (Ctx ''Failed to publish staged file'' (Io e)), d))
          | (Inr _, d) \<Rightarrow>
              if had_previous
              then with_ctx ''Failed to remove previous staged file'' (io (fs_remove_file previous d))
              else (Inr (), d)))))"

definition write_and_swap :: "publisher \<Rightarrow> fpath \<Rightarrow> fpath \<Rightarrow> u8 list \<Rightarrow> disk \<Rightarrow> (unit, disk) outcome" where
  "write_and_swap publish staged path bytes d =
     then_do (io (fs_write_all staged bytes d)) (\<lambda>_ d.
     then_do (io (fs_sync_all d)) (\<lambda>_ d. swap_in publish staged path d))"

definition check_destination :: "fpath \<Rightarrow> disk \<Rightarrow> (unit, disk) outcome" where
  "check_destination path d =
     (case fs_is_file path d of
        (Inr f, d) \<Rightarrow> ensure f (Msg ''Destination is not a regular file'') d
      | (Inl e, d) \<Rightarrow> if e = NotFound then (Inr (), d) else (Inl (Ctx ''Failed to inspect destination'' (Io e)), d))"

definition replace_file_with :: "publisher \<Rightarrow> fpath \<Rightarrow> u8 list \<Rightarrow> disk \<Rightarrow> (unit, disk) outcome" where
  "replace_file_with publish path bytes d =
     then_do (check_destination path d) (\<lambda>_ d.
       (case path_parent path of
          None \<Rightarrow> (Inl (Msg ''File destination has no parent''), d)
        | Some parent \<Rightarrow>
            then_do (stage parent d) (\<lambda>staged d.
              (let (result, d) = write_and_swap publish staged path bytes d
               in (result, snd (fs_remove_file staged d))))))"

definition replace_file :: "fpath \<Rightarrow> u8 list \<Rightarrow> disk \<Rightarrow> (unit, disk) outcome" where
  "replace_file path bytes d = replace_file_with fs_rename path bytes d"

section \<open>Capture and restore\<close>

type_synonym file_backup = "(fpath \<times> u8 list option) list"

fun capture_files :: "file_backup \<Rightarrow> fpath list \<Rightarrow> disk \<Rightarrow> (file_backup, disk) outcome" where
  "capture_files files [] d = (Inr files, d)"
| "capture_files files (path # paths) d =
     (if path \<in> fst ` set files then capture_files files paths d
      else (case fs_read path d of
              (Inr bytes, d) \<Rightarrow> capture_files (files @ [(path, Some bytes)]) paths d
            | (Inl e, d) \<Rightarrow>
                if e = NotFound then capture_files (files @ [(path, None)]) paths d
                else (Inl (Ctx ''Failed to back up'' (Io e)), d)))"

definition backup_capture :: "fpath list \<Rightarrow> disk \<Rightarrow> (file_backup, disk) outcome" where
  "backup_capture paths d = capture_files [] paths d"

definition restore_file :: "fpath \<Rightarrow> u8 list option \<Rightarrow> disk \<Rightarrow> (unit, disk) outcome" where
  "restore_file path before d =
     (case before of
        Some bytes \<Rightarrow>
          (let (current, d) = fs_read path d
           in if current = Inr bytes then (Inr (), d)
              else with_ctx ''Failed to restore original bytes'' (replace_file path bytes d))
      | None \<Rightarrow>
          (case fs_remove_file path d of
             (Inr _, d) \<Rightarrow> (Inr (), d)
           | (Inl e, d) \<Rightarrow>
               if e = NotFound then (Inr (), d)
               else (Inl (Ctx ''Failed to remove newly installed file'' (Io e)), d)))"

text \<open>The loop over the files in reverse order; it returns the failures, each with its path.\<close>

primrec restore_each :: "file_backup \<Rightarrow> disk \<Rightarrow> (fpath \<times> err) list \<times> disk" where
  "restore_each [] d = ([], d)"
| "restore_each (f # fs) d =
     (let (r, d) = restore_file (fst f) (snd f) d; (failures, d) = restore_each fs d
      in ((case r of Inl e \<Rightarrow> (fst f, e) # failures | Inr _ \<Rightarrow> failures), d))"

definition backup_restore :: "file_backup \<Rightarrow> disk \<Rightarrow> (unit, disk) outcome" where
  "backup_restore files d =
     (let (failures, d) = restore_each (rev files) d
      in ensure (failures = []) (Several ''File rollback failed'' (map snd failures)) d)"

section \<open>What a replacement does\<close>

text \<open>Names of staged files and of the files put aside.\<close>

definition is_staging :: "fpath \<Rightarrow> bool" where
  "is_staging p \<longleftrightarrow> p \<noteq> [] \<and> (\<exists>s. last p = ''.gdut-install-'' @ s)"

lemma dec_no_char: "c \<in> set (dec n) \<Longrightarrow> is_digit c"
  using dec_all_digits [of n] by (simp add: list_all_iff)

lemma old_name:
  "with_extension (parent @ [stage_name pid n]) ''old'' = parent @ [stage_name pid n @ ''.old'']"
proof -
  let ?r = "''gdut-install-'' @ dec pid @ ''-'' @ dec n"
  have e: "stage_name pid n = [] @ CHR ''.'' # ?r" by (simp add: stage_name_def)
  have "CHR ''.'' \<notin> set ?r" by simp
  then have "rsplit_once (CHR ''.'') (stage_name pid n) = Some ([], ?r)"
    unfolding rsplit_once_Some using e by blast
  then show ?thesis by (simp add: with_extension_def file_stem_def)
qed

lemma is_staging_names [simp]:
  "is_staging (parent @ [stage_name pid n])" "is_staging (parent @ [stage_name pid n @ ''.old''])"
  by (simp_all add: is_staging_def stage_name_def)

lemma stage_eff:
  "stage parent d = (r, d') \<Longrightarrow>
     dk_pid d' = dk_pid d \<and> fault_count d' \<le> fault_count d \<and>
     ((\<exists>n. r = Inr (parent @ [stage_name (dk_pid d) n]) \<and> node_at d (parent @ [stage_name (dk_pid d) n]) = None
        \<and> node_at d' = (node_at d)(parent @ [stage_name (dk_pid d) n] \<mapsto> File []))
      \<or> ((\<exists>e. r = Inl e) \<and> node_at d' = node_at d))"
proof (induction parent d rule: stage.induct)
  case (1 parent d)
  let ?s = "parent @ [stage_name (dk_pid d) (dk_next d)]"
  obtain q d1 where c: "fs_create_new ?s (d\<lparr>dk_next := Suc (dk_next d)\<rparr>) = (q, d1)" by force
  note e = fs_create_new_eff [OF c]
  show ?case
  proof (cases "q = Inl AlreadyExists")
    case True
    then have d1: "node_at d1 = node_at d" "dk_pid d1 = dk_pid d" "fault_count d1 \<le> fault_count d"
      using e fault_count_use_le [of "d\<lparr>dk_next := Suc (dk_next d)\<rparr>"] by auto
    have "stage parent d1 = (r, d')" using 1(2) c True by (simp add: stage.simps [of parent d])
    with 1(1) [OF refl c [symmetric] True refl] d1 show ?thesis by auto
  next
    case False
    with 1(2) c have "(q = Inr () \<and> r = Inr ?s \<or> (\<exists>e. r = Inl e) \<and> (\<exists>e. q = Inl e)) \<and> d' = d1"
      by (auto simp: stage.simps [of parent d] split: sum.splits if_splits)
    with e show ?thesis using fault_count_use_le [of "d\<lparr>dk_next := Suc (dk_next d)\<rparr>"] by auto
  qed
qed

text \<open>
  The closure: on success exactly the destination has changed, besides the staged file. On failure the
  destination is as it was, or the publication and the way back both failed and the original lies under
  the name put aside, or the destination already has the new bytes.
\<close>

definition kept_or_new :: "fpath \<Rightarrow> fpath \<Rightarrow> u8 list \<Rightarrow> disk \<Rightarrow> disk \<Rightarrow> bool" where
  "kept_or_new p q b d d' \<longleftrightarrow> node_at d' p = node_at d p \<or> node_at d' p = Some (File b)
     \<or> (\<exists>c. node_at d p = Some (File c) \<and> node_at d' p = None \<and> node_at d' q = Some (File c)
           \<and> 2 \<le> fault_count d)"

lemma swap_in_eff:
  assumes "swap_in fs_rename s p d = (r, d')" and q: "q = with_extension s ''old''"
    and ne: "s \<noteq> q" "s \<noteq> p" "q \<noteq> p" and b: "node_at d s = Some (File b)"
  shows "touches {p, s, q} d d' \<and> (r = Inr () \<longrightarrow> node_at d' p = Some (File b)) \<and> kept_or_new p q b d d'"
proof -
  obtain t d1 where t: "fs_exists q d = (t, d1)" by force
  obtain x d2 where x: "fs_rename p q d1 = (x, d2)" by force
  obtain y d3 where y: "fs_rename s p d2 = (y, d3)" by force
  obtain z d4 where z: "fs_rename q p d3 = (z, d4)" by force
  obtain v d5 where v: "fs_remove_file q d3 = (v, d5)" by force
  have d1: "d1 = use_fault d" using fs_exists_eff [OF t] by simp
  note xe = fs_rename_eff [OF x, unfolded d1] and ye = fs_rename_eff [OF y] and ze = fs_rename_eff [OF z]
    and ve = fs_remove_file_eff [OF v]
  note run = assms(1) [unfolded swap_in_def q [symmetric] t Let_def prod.case ensure_def]
  consider (taken) t | (prev) c where "\<not> t" "x = Inr ()" "node_at d p = Some (File c)"
      "d2 = set_node q (File c) (drop_node p (use_fault (use_fault d)))"
    | (none) "\<not> t" "x = Inl NotFound" "node_at d p = None" "d2 = use_fault (use_fault d)"
    | (failed) e where "\<not> t" "x = Inl e" "e \<noteq> NotFound" "d2 = use_fault (use_fault d)"
    using xe by auto
  then show ?thesis
  proof cases
    case taken
    with run d1 show ?thesis by (auto simp: kept_or_new_def)
  next
    case failed
    with run x show ?thesis by (auto simp: kept_or_new_def)
  next
    case none
    from run none x y have "d' = d3" "r = Inr () \<longrightarrow> y = Inr ()" by (auto split: sum.splits)
    with ye none b ne show ?thesis by (auto simp: kept_or_new_def)
  next
    case prev
    show ?thesis
    proof (cases y)
      case (Inr u)
      with run prev x y v have "d' = d5" by (auto simp: with_ctx_def io_def split: sum.splits)
      with Inr ye ve prev b ne show ?thesis by (auto simp: kept_or_new_def)
    next
      case (Inl e)
      with run prev x y z have "d' = d4" "r \<noteq> Inr ()" by (auto simp: with_ctx_def io_def split: sum.splits)
      have "next_fault d2 \<noteq> None" "d3 = use_fault d2" using ye prev b ne Inl by auto
      moreover from this have "z \<noteq> Inr () \<Longrightarrow> next_fault d3 \<noteq> None" using ze prev ne by auto
      ultimately have "z \<noteq> Inr () \<Longrightarrow> 2 \<le> fault_count d"
        using fault_count_use [of d2] fault_count_use [of d3] fault_count_use [of "use_fault d"]
          fault_count_use [of d] prev by auto
      with \<open>d' = d4\<close> \<open>r \<noteq> Inr ()\<close> Inl ye ze prev b ne show ?thesis by (auto simp: kept_or_new_def)
    qed
  qed
qed

lemma write_and_swap_eff:
  assumes "write_and_swap fs_rename s p b d = (r, d')" and "q = with_extension s ''old''"
    and "s \<noteq> q" "s \<noteq> p" "q \<noteq> p"
  shows "touches {p, s, q} d d' \<and> (r = Inr () \<longrightarrow> node_at d' p = Some (File b)) \<and> kept_or_new p q b d d'"
proof -
  obtain x d1 where x: "fs_write_all s b d = (x, d1)" by force
  obtain y d2 where y: "fs_sync_all d1 = (y, d2)" by force
  from fs_write_all_eff [OF x] obtain c where c: "d1 = set_node s (File c) (use_fault d)" "x = Inr () \<longrightarrow> c = b" by blast
  note d2 = fs_sync_all_eff [OF y]
  show ?thesis
  proof (cases "x = Inr () \<and> y = Inr ()")
    case True
    then have "swap_in fs_rename s p d2 = (r, d')" using assms(1) x y by (simp add: write_and_swap_def)
    moreover have "fault_count d2 \<le> fault_count d"
      using c d2 fault_count_use_le [of d1] by (auto intro: le_trans [OF _ fault_count_use_le])
    ultimately show ?thesis using swap_in_eff [of s p d2 r d' q b] True c d2 assms(2-5)
      by (auto simp: kept_or_new_def touches_def)
  next
    case False
    then have "d' = d1 \<or> d' = d2" "r \<noteq> Inr ()"
      using assms(1) x y by (auto simp: write_and_swap_def io_def split: sum.splits)
    then show ?thesis using c d2 assms(4) by (auto simp: kept_or_new_def)
  qed
qed

lemma check_destination_eff:
  "check_destination p d = (r, d') \<Longrightarrow> d' = use_fault d \<and> (r = Inr () \<longrightarrow> node_at d p \<noteq> Some Folder)"
  by (cases "fs_is_file p d"; cases "fst (fs_is_file p d)")
     (auto simp: check_destination_def ensure_def dest!: fs_is_file_eff split: if_splits)

lemma replace_file_eff:
  assumes "replace_file p b d = (r, d')" and "\<not> is_staging p"
  shows "(\<forall>x. x \<noteq> p \<and> \<not> is_staging x \<longrightarrow> node_at d' x = node_at d x) \<and> dk_pid d' = dk_pid d
    \<and> (r = Inr () \<longrightarrow> node_at d' p = Some (File b)) \<and> (\<exists>q. is_staging q \<and> kept_or_new p q b d d')
    \<and> (node_at d p = Some Folder \<longrightarrow> r \<noteq> Inr () \<and> node_at d' = node_at d)"
proof -
  obtain x d1 where x: "check_destination p d = (x, d1)" by force
  note d1 = check_destination_eff [OF x]
  have staging: "\<exists>q. is_staging q" using is_staging_names by blast
  show ?thesis
  proof (cases "x = Inr () \<and> path_parent p \<noteq> None")
    case False
    then have "d' = d1 \<and> r \<noteq> Inr ()"
      using assms(1) x by (cases x) (auto simp: replace_file_def replace_file_with_def split: option.splits)
    with d1 staging show ?thesis by (auto simp: kept_or_new_def)
  next
    case True
    then obtain parent where parent: "path_parent p = Some parent" by blast
    obtain y d2 where y: "stage parent d1 = (y, d2)" by force
    note d2 = stage_eff [OF y]
    have folder: "node_at d p \<noteq> Some Folder" using d1 True by simp
    show ?thesis
    proof (cases y)
      case (Inl e)
      then have "d' = d2 \<and> r \<noteq> Inr ()"
        using assms(1) x y True parent by (auto simp: replace_file_def replace_file_with_def)
      with d2 Inl d1 folder staging show ?thesis by (auto simp: kept_or_new_def)
    next
      case (Inr s)
      with d2 obtain n where n: "s = parent @ [stage_name (dk_pid d1) n]"
        "node_at d2 = (node_at d1)(s \<mapsto> File [])" "dk_pid d2 = dk_pid d1" by auto
      define q where "q = with_extension s ''old''"
      have st: "is_staging s" "is_staging q" "s \<noteq> q" by (simp_all add: n(1) q_def old_name)
      then have ne: "s \<noteq> p" "q \<noteq> p" using assms(2) by auto
      obtain d3 where w: "write_and_swap fs_rename s p b d2 = (r, d3)" and d': "d' = snd (fs_remove_file s d3)"
        using assms(1) x y Inr True parent
        by (auto simp: replace_file_def replace_file_with_def Let_def split: prod.splits)
      note e = write_and_swap_eff [OF w q_def st(3) ne]
      obtain v where "fs_remove_file s d3 = (v, d')" using d' by (cases "fs_remove_file s d3") simp
      from fs_remove_file_eff [OF this] have "touches {s} d3 d'" by auto
      with e n(2,3) d1 ne have same: "x \<noteq> p \<Longrightarrow> x \<noteq> s \<Longrightarrow> x \<noteq> q \<Longrightarrow> node_at d' x = node_at d x" for x
        by (simp add: touches_def)
      have "dk_pid d' = dk_pid d" using \<open>touches {s} d3 d'\<close> e n(3) d1 by (simp add: touches_def)
      moreover have "node_at d' p = node_at d3 p" "node_at d' q = node_at d3 q"
        using \<open>touches {s} d3 d'\<close> ne st by (auto simp: touches_def)
      moreover have "node_at d2 p = node_at d p" using n(2) d1 ne by simp
      moreover have "fault_count d2 \<le> fault_count d" using d1 d2 by (auto intro: le_trans [OF _ fault_count_use_le])
      ultimately show ?thesis
        using e same st folder by (auto simp: kept_or_new_def intro!: exI [of _ q])
    qed
  qed
qed

text \<open>
  The process stops in its operation \<open>k\<close>, counted from 0, of which a write may have done \<open>n\<close> bytes: no later operation
  does anything. That is the run in which operation \<open>k\<close> and those the code would still try after it fail: an
  operation that fails leaves the nodes as they are, a write aside, and after a failed one the code tries no more
  than three others.
\<close>

definition stopped_at :: "nat \<Rightarrow> nat \<Rightarrow> disk \<Rightarrow> disk" where
  "stopped_at k n d = d\<lparr>dk_faults := take k (dk_faults d @ replicate k None)
     @ Some (''stopped'', n) # replicate 8 (Some (''stopped'', 0))\<rparr>"

lemma stopped_at_nodes [simp]: "dk_nodes (stopped_at k n d) = dk_nodes d"
  by (simp add: stopped_at_def)

lemma stopped_operation:
  assumes "next_fault d = Some (e, n)"
  shows "snd (fs_is_file p d) = use_fault d" "snd (fs_create_new p d) = use_fault d" "snd (fs_sync_all d) = use_fault d"
    "snd (fs_exists p d) = use_fault d" "snd (fs_rename p q d) = use_fault d" "snd (fs_remove_file p d) = use_fault d"
    "snd (fs_write_all p b d) = set_node p (File (take n b)) (use_fault d)"
  using assms by (simp_all add: fs_is_file_def fs_create_new_def fs_sync_all_def fs_exists_def fs_rename_def
      fs_remove_file_def fs_write_all_def attempt_def)

text \<open>
  C37 (safety). A file is replaced as a whole or not at all. When at most one operation fails, and the process runs
  on, the destination holds its old content or the complete new one. When more fail, and when the process stops at
  any operation, it can also be missing, as it is between the two renames; then, and only if it was a file before,
  its old content lies complete under a staging name. It never holds anything else: no part of the new bytes, and
  no mixture. No other file changes but staged ones, success means that the new bytes are there, and a folder in the
  place of the file is never touched.
\<close>

theorem replacement_is_all_or_nothing:
  assumes "replace_file p b d = (r, d')" and "\<not> is_staging p"
  shows "(\<forall>x. x \<noteq> p \<and> \<not> is_staging x \<longrightarrow> node_at d' x = node_at d x)
    \<and> (r = Inr () \<longrightarrow> node_at d' p = Some (File b))
    \<and> (fault_count d \<le> 1 \<longrightarrow> node_at d' p = node_at d p \<or> node_at d' p = Some (File b))
    \<and> (node_at d' p = node_at d p \<or> node_at d' p = Some (File b)
        \<or> node_at d' p = None \<and> (\<exists>c q. node_at d p = Some (File c) \<and> is_staging q \<and> node_at d' q = Some (File c)))
    \<and> (node_at d p = Some Folder \<longrightarrow> r \<noteq> Inr () \<and> node_at d' = node_at d)
    \<and> (\<forall>k n. let e = snd (replace_file p b (stopped_at k n d)) in
         (\<forall>x. x \<noteq> p \<and> \<not> is_staging x \<longrightarrow> node_at e x = node_at d x)
       \<and> (node_at e p = node_at d p \<or> node_at e p = Some (File b)
          \<or> node_at e p = None \<and> (\<exists>c q. node_at d p = Some (File c) \<and> is_staging q \<and> node_at e q = Some (File c))))"
proof -
  have run: "(\<forall>x. x \<noteq> p \<and> \<not> is_staging x \<longrightarrow> node_at e x = node_at d x)
     \<and> (node_at e p = node_at d p \<or> node_at e p = Some (File b)
       \<or> node_at e p = None \<and> (\<exists>c q. node_at d p = Some (File c) \<and> is_staging q \<and> node_at e q = Some (File c)))"
    if "replace_file p b f = (s, e)" "dk_nodes f = dk_nodes d" for f s e
    using replace_file_eff [OF that(1) assms(2)] that(2) unfolding kept_or_new_def by metis
  note e = replace_file_eff [OF assms]
  then obtain q where "is_staging q" "kept_or_new p q b d d'" by blast
  moreover have "let e = snd (replace_file p b (stopped_at k n d)) in
         (\<forall>x. x \<noteq> p \<and> \<not> is_staging x \<longrightarrow> node_at e x = node_at d x)
       \<and> (node_at e p = node_at d p \<or> node_at e p = Some (File b)
          \<or> node_at e p = None \<and> (\<exists>c q. node_at d p = Some (File c) \<and> is_staging q \<and> node_at e q = Some (File c)))" for k n
    using run [OF prod.collapse [symmetric] stopped_at_nodes] by (simp add: Let_def)
  ultimately show ?thesis
    using e run [OF assms(1) refl] by (auto simp: kept_or_new_def)
qed

text \<open>
  On a disk where nothing fails, a file can always be replaced: if its folder exists, no
  folder is in its place and no staged file of a former run lies about, the replacement succeeds, and
  afterwards the disk differs from before in exactly that file.
\<close>

theorem replacement_succeeds_on_working_disk:
  assumes "calm d" and "node_at d p \<noteq> Some Folder" and "path_parent p = Some parent"
    and "node_at d parent = Some Folder" and "\<And>x. is_staging x \<Longrightarrow> node_at d x = None" and "\<not> is_staging p"
  shows "\<exists>d'. replace_file p b d = (Inr (), d') \<and> node_at d' = (node_at d)(p \<mapsto> File b)"
proof -
  define s where "s = parent @ [stage_name (dk_pid d) (dk_next d)]"
  define q where "q = with_extension s ''old''"
  have st: "is_staging s" "is_staging q" "s \<noteq> q" by (simp_all add: s_def q_def old_name)
  then have ne: "s \<noteq> p" "q \<noteq> p" "node_at d s = None" "node_at d q = None" using assms(5,6) by auto
  have "parent = butlast s" by (simp add: s_def)
  let ?d1 = "set_node s (File []) (d\<lparr>dk_next := Suc (dk_next d)\<rparr>)"
  have stage: "stage parent d = (Inr s, ?d1)"
    using assms(1,4) ne by (simp add: stage.simps [of parent d] fs_create_new_def Let_def s_def [symmetric]
        \<open>parent = butlast s\<close> [symmetric])
  have check: "check_destination p d = (Inr (), d)"
    using assms(1,2) by (auto simp: check_destination_def fs_is_file_def ensure_def split: option.splits)
  show ?thesis
  proof (cases "node_at d p")
    case None
    then show ?thesis
      using assms(1,3) ne st
      by (simp add: replace_file_def replace_file_with_def check stage write_and_swap_def fs_write_all_def
          fs_sync_all_def swap_in_def q_def [symmetric] fs_exists_def ensure_def fs_rename_def
          fs_remove_file_def fun_eq_iff)
  next
    case (Some n)
    with assms(2) obtain c where "node_at d p = Some (File c)" by (cases n) auto
    then show ?thesis
      using assms(1,3) ne st
      by (simp add: replace_file_def replace_file_with_def check stage write_and_swap_def fs_write_all_def
          fs_sync_all_def swap_in_def q_def [symmetric] fs_exists_def ensure_def fs_rename_def
          fs_remove_file_def fun_eq_iff with_ctx_def)
  qed
qed

definition demo_disk :: "(string \<times> nat) option list \<Rightarrow> disk" where
  "demo_disk faults =
     \<lparr>dk_nodes = fmap_of_list [([''C:''], Folder), ([''C:'', ''a.exe''], File [1])],
      dk_faults = faults, dk_pid = 7, dk_next = 0\<rparr>"

theorem replacement_is_all_or_nothing_witness:
  "\<exists>r d'. replace_file [''C:'', ''a.exe''] [2, 3] (demo_disk [None, None, Some (''disk full'', 1)]) = (r, d')
    \<and> (node_at d' [''C:'', ''a.exe''] = Some (File [1]) \<or> node_at d' [''C:'', ''a.exe''] = Some (File [2, 3]))"
proof -
  let ?d = "demo_disk [None, None, Some (''disk full'', 1)]"
  obtain r d' where e: "replace_file [''C:'', ''a.exe''] [2, 3] ?d = (r, d')" by force
  have "\<not> is_staging [''C:'', ''a.exe'']" by (simp add: is_staging_def)
  moreover have "fault_count ?d \<le> 1" by (simp add: demo_disk_def fault_count_def)
  moreover have "node_at ?d [''C:'', ''a.exe''] = Some (File [1])" by (simp add: demo_disk_def fmlookup_of_list)
  ultimately show ?thesis using replacement_is_all_or_nothing [OF e] e by auto
qed

text \<open>The gap is real: a stop in the second rename, on a disk where nothing fails, leaves no file at the destination.\<close>

lemma stop_between_renames:
  "dk_nodes (snd (replace_file [''C:'', ''a.exe''] [2, 3] (stopped_at 6 0 (demo_disk [])))) =
     fmap_of_list [([''C:''], Folder), ([''C:'', ''.gdut-install-7-0.old''], File [1]), ([''C:'', ''.gdut-install-7-0''], File [2, 3])]"
  by code_simp

theorem replacement_succeeds_on_working_disk_witness:
  "\<exists>d'. replace_file [''C:'', ''b.exe''] [5] (demo_disk []) = (Inr (), d')
    \<and> node_at d' = (node_at (demo_disk []))([''C:'', ''b.exe''] \<mapsto> File [5])"
proof (rule replacement_succeeds_on_working_disk)
  show "node_at (demo_disk []) x = None" if "is_staging x" for x
    using that by (auto simp: is_staging_def demo_disk_def fmlookup_of_list)
qed (simp_all add: calm_def demo_disk_def fmlookup_of_list path_parent_def is_root_def is_staging_def)

section \<open>What a restoration does\<close>

lemma restore_file_eff:
  assumes "restore_file p before d = (r, d')" and "\<not> is_staging p"
  shows "(\<forall>x. x \<noteq> p \<and> \<not> is_staging x \<longrightarrow> node_at d' x = node_at d x)
    \<and> (r = Inr () \<longrightarrow> node_at d' p = map_option File before)"
proof (cases before)
  case None
  obtain x d1 where x: "fs_remove_file p d = (x, d1)" by force
  from fs_remove_file_eff [OF x] assms(1) x None show ?thesis
    by (auto simp: restore_file_def split: sum.splits if_splits)
next
  case (Some b)
  obtain x d1 where x: "fs_read p d = (x, d1)" by force
  note d1 = fs_read_eff [OF x]
  show ?thesis
  proof (cases "x = Inr b")
    case True
    with assms(1) x d1 Some show ?thesis by (auto simp: restore_file_def)
  next
    case False
    then have "(\<exists>e. r = Inl e) \<and> (\<exists>e. replace_file p b d1 = (Inl e, d')) \<or> replace_file p b d1 = (r, d')"
      using assms(1) x Some by (auto simp: restore_file_def with_ctx_def split: prod.splits sum.splits)
    then obtain q where q: "replace_file p b d1 = (q, d')" "r = Inr () \<longrightarrow> q = Inr ()" by auto
    from replace_file_eff [OF q(1) assms(2)] q(2) d1 Some show ?thesis by auto
  qed
qed

lemma restore_each_eff:
  "restore_each fs d = (failures, d') \<Longrightarrow> \<forall>p \<in> fst ` set fs. \<not> is_staging p \<Longrightarrow> distinct (map fst fs) \<Longrightarrow>
     (\<forall>x. x \<notin> fst ` set fs \<and> \<not> is_staging x \<longrightarrow> node_at d' x = node_at d x)
     \<and> (\<forall>f \<in> set fs. fst f \<notin> fst ` set failures \<longrightarrow> node_at d' (fst f) = map_option File (snd f))
     \<and> fst ` set failures \<subseteq> fst ` set fs"
proof (induction fs arbitrary: d failures)
  case (Cons f fs)
  obtain r d1 where f: "restore_file (fst f) (snd f) d = (r, d1)" by force
  obtain g where g: "restore_each fs d1 = (g, d')" "failures = (case r of Inl e \<Rightarrow> (fst f, e) # g | Inr _ \<Rightarrow> g)"
    using Cons.prems(1) f by (auto split: prod.splits)
  note e = restore_file_eff [OF f] and i = Cons.IH [OF g(1)]
  from Cons.prems have "\<not> is_staging (fst f)" "fst f \<notin> fst ` set fs" by auto
  with e i Cons.prems g(2) show ?case by (cases r) auto
qed simp

lemma capture_files_eff:
  "capture_files files ps d = (Inr files', d') \<Longrightarrow> distinct (map fst files) \<Longrightarrow>
     node_at d' = node_at d \<and> distinct (map fst files') \<and> fst ` set files' = fst ` set files \<union> set ps
     \<and> (\<forall>f \<in> set files'. f \<in> set files \<or> node_at d (fst f) = map_option File (snd f))"
proof (induction files ps d rule: capture_files.induct)
  case (2 files p ps d)
  show ?case
  proof (cases "p \<in> fst ` set files")
    case True
    with 2 show ?thesis by auto
  next
    case False
    obtain x d1 where x: "fs_read p d = (x, d1)" by force
    note d1 = fs_read_eff [OF x]
    show ?thesis
    proof (cases x)
      case (Inr b)
      with False x 2 d1 show ?thesis by auto
    next
      case (Inl e)
      with 2(4) False x have "e = NotFound" by (auto split: if_splits)
      with 2(4) False x Inl have "capture_files (files @ [(p, None)]) ps d1 = (Inr files', d')" by simp
      moreover have "distinct (map fst (files @ [(p, None)]))" using 2(5) False by simp
      ultimately have "node_at d' = node_at d1 \<and> distinct (map fst files')
          \<and> fst ` set files' = fst ` set (files @ [(p, None)]) \<union> set ps
          \<and> (\<forall>f \<in> set files'. f \<in> set (files @ [(p, None)]) \<or> node_at d1 (fst f) = map_option File (snd f))"
        by (rule 2(2) [OF False x [symmetric] Inl \<open>e = NotFound\<close>])
      with d1 Inl \<open>e = NotFound\<close> show ?thesis by auto
    qed
  qed
qed auto

text \<open>
  C38 (roundtrip). Whatever happens between the capture of files and their restoration, and whatever fails
  during the restoration: every captured path that is not reported holds again what it held, or is absent
  again; a locked file does not keep the others from being restored. Nothing else changes but staged files,
  and the restoration succeeds exactly if it has nothing to report.
\<close>

theorem restore_undoes_all_but_reported:
  assumes "backup_capture ps d0 = (Inr files, d1)" and "\<forall>p \<in> set ps. \<not> is_staging p"
    and "restore_each (rev files) d2 = (failures, d3)"
  shows "node_at d1 = node_at d0
    \<and> (\<forall>p \<in> set ps. p \<notin> fst ` set failures \<longrightarrow> node_at d3 p = node_at d0 p)
    \<and> (\<forall>x. x \<notin> set ps \<and> \<not> is_staging x \<longrightarrow> node_at d3 x = node_at d2 x)
    \<and> fst ` set failures \<subseteq> set ps
    \<and> ((\<exists>d. backup_restore files d2 = (Inr (), d)) \<longleftrightarrow> failures = [])"
proof -
  note c = capture_files_eff [OF assms(1) [unfolded backup_capture_def], simplified]
  then have ps: "fst ` set files = set ps" and dist: "distinct (map fst (rev files))" by (simp_all add: rev_map [symmetric])
  note r = restore_each_eff [OF assms(3)]
  have "\<forall>p \<in> set ps. p \<notin> fst ` set failures \<longrightarrow> node_at d3 p = node_at d0 p"
    using r c ps dist assms(2) by (metis (no_types, lifting) imageE set_rev)
  moreover have "(\<exists>d. backup_restore files d2 = (Inr (), d)) \<longleftrightarrow> failures = []"
    using assms(3) by (auto simp: backup_restore_def ensure_def)
  ultimately show ?thesis using r c ps dist assms(2) by (simp del: split_paired_All)
qed

lemma demo_capture:
  "backup_capture [[''C:'', ''a.exe''], [''C:'', ''b.exe'']] (demo_disk []) =
     (Inr [([''C:'', ''a.exe''], Some [1]), ([''C:'', ''b.exe''], None)], demo_disk [])"
  by (simp add: backup_capture_def fs_read_def calm_def demo_disk_def fmlookup_of_list)

theorem restore_undoes_all_but_reported_witness:
  "\<exists>files failures d3. backup_capture [[''C:'', ''a.exe''], [''C:'', ''b.exe'']] (demo_disk []) = (Inr files, demo_disk [])
    \<and> restore_each (rev files) (set_node [''C:'', ''b.exe''] (File [9]) (demo_disk [Some (''locked'', 0)])) = (failures, d3)
    \<and> ([''C:'', ''a.exe''] \<notin> fst ` set failures \<longrightarrow> node_at d3 [''C:'', ''a.exe''] = Some (File [1]))"
proof -
  let ?fs = "[([''C:'', ''a.exe''], Some [1 :: u8]), ([''C:'', ''b.exe''], None)]"
  obtain failures d3 where r:
    "restore_each (rev ?fs) (set_node [''C:'', ''b.exe''] (File [9]) (demo_disk [Some (''locked'', 0)])) = (failures, d3)"
    by force
  have "\<forall>p \<in> set [[''C:'', ''a.exe''], [''C:'', ''b.exe'']]. \<not> is_staging p" by (simp add: is_staging_def)
  from restore_undoes_all_but_reported [OF demo_capture this r]
  have "[''C:'', ''a.exe''] \<notin> fst ` set failures \<longrightarrow> node_at d3 [''C:'', ''a.exe''] = Some (File [1])"
    by (simp add: demo_disk_def fmlookup_of_list)
  with demo_capture r show ?thesis by blast
qed

lemma backup_restore_ok:
  assumes "backup_capture ps d0 = (Inr files, d1)" and "\<forall>p \<in> set ps. \<not> is_staging p"
    and "backup_restore files d2 = (Inr (), d3)"
  shows "(\<forall>p \<in> set ps. node_at d3 p = node_at d0 p)
    \<and> (\<forall>x. x \<notin> set ps \<and> \<not> is_staging x \<longrightarrow> node_at d3 x = node_at d2 x)"
proof -
  note c = capture_files_eff [OF assms(1) [unfolded backup_capture_def], simplified]
  then have ps: "fst ` set files = set ps" and dist: "distinct (map fst (rev files))" by (simp_all add: rev_map [symmetric])
  from assms(3) have e: "restore_each (rev files) d2 = ([], d3)"
    by (auto simp: backup_restore_def ensure_def split: prod.splits if_splits)
  from restore_each_eff [OF e] ps dist assms(2) c show ?thesis
    by (simp del: split_paired_All) (metis (no_types, lifting) imageE)
qed

end
