(* ===== verification/Packaging.thy ===== *)
theory Packaging
  imports Files Payload "HOL-Library.Char_ord" "HOL-Library.List_Lexorder" "HOL-Library.Multiset"
begin

text \<open>
  \<open>src/src/packaging.rs\<close>: the files of the payload directory and the extra files, sorted by name, are
  packed behind the installer. The order in which the system lists a directory is an argument.
\<close>

section \<open>Collecting\<close>

definition name_error :: "payload_error \<Rightarrow> err" where
  "name_error e =
     (case e of
        EmptyName \<Rightarrow> Msg ''payload entry name is empty''
      | PathInName n \<Rightarrow> Ctx n (Msg ''must not contain path separators or ..'')
      | ControlInName n \<Rightarrow> Ctx n (Msg ''contains control characters'')
      | DuplicateName n \<Rightarrow> Ctx n (Msg ''duplicate payload entry name'')
      | NameTooLong \<Rightarrow> Msg ''payload name too long''
      | BadVersion _ \<Rightarrow> Msg ''unsupported payload version''
      | TocOutOfRange _ _ \<Rightarrow> Msg ''payload TOC offset out of range''
      | CountTooLarge \<Rightarrow> Msg ''payload entry count exceeds TOC capacity''
      | TocTruncated \<Rightarrow> Msg ''payload TOC truncated''
      | EntryTruncated \<Rightarrow> Msg ''payload TOC entry truncated''
      | NotUtf8 \<Rightarrow> Msg ''payload entry name is not UTF-8''
      | DataOutOfRange n \<Rightarrow> Ctx n (Msg ''out of data range'')
      | BadChecksum n \<Rightarrow> Ctx n (Msg ''checksum mismatch'')
      | TrailingBytes \<Rightarrow> Msg ''payload TOC has trailing bytes'')"

text \<open>\<open>file_name\<close> and \<open>to_str\<close>; a name is given by its bytes.\<close>

definition utf8_name :: "fpath \<Rightarrow> string option" where
  "utf8_name p =
     (case path_file_name p of
        Some n \<Rightarrow> if utf8_valid (bytes_of n) then Some n else None
      | None \<Rightarrow> None)"

definition checked_name :: "string \<Rightarrow> fpath \<Rightarrow> 'w \<Rightarrow> (string, 'w) outcome" where
  "checked_name msg p w =
     (case utf8_name p of
        None \<Rightarrow> (Inl (Msg msg), w)
      | Some n \<Rightarrow> (case validate_name n of Inl e \<Rightarrow> (Inl (name_error e), w) | Inr _ \<Rightarrow> (Inr n, w)))"

definition read_entry :: "string \<Rightarrow> fpath \<Rightarrow> disk \<Rightarrow> (payload_entry, disk) outcome" where
  "read_entry name p d =
     then_do (with_ctx ''Failed to read'' (io (fs_read p d)))
       (\<lambda>bytes d. (Inr \<lparr>pe_name = name, pe_data = bytes\<rparr>, d))"

text \<open>One item of the directory: an item or its type may be unreadable, and what is not a file is skipped.\<close>

definition collect_item :: "fpath \<Rightarrow> disk \<Rightarrow> (payload_entry option, disk) outcome" where
  "collect_item p d =
     then_do (io (attempt (\<lambda>d. (Inr (), d)) d)) (\<lambda>_ d.
     then_do (io (fs_is_file p d)) (\<lambda>is_file d.
       if \<not> is_file then (Inr None, d)
       else then_do (checked_name ''Non-UTF-8 file name'' p d) (\<lambda>name d.
            then_do (read_entry name p d) (\<lambda>entry d. (Inr (Some entry), d)))))"

primrec collect_items :: "fpath list \<Rightarrow> disk \<Rightarrow> (payload_entry list, disk) outcome" where
  "collect_items [] d = (Inr [], d)"
| "collect_items (p # ps) d =
     then_do (collect_item p d) (\<lambda>item d.
     then_do (collect_items ps d) (\<lambda>entries d.
       (Inr (case item of Some entry \<Rightarrow> entry # entries | None \<Rightarrow> entries), d)))"

definition sort_entries :: "payload_entry list \<Rightarrow> payload_entry list" where
  "sort_entries es = sort_key pe_name es"

definition collect_dir :: "(fpath \<Rightarrow> disk \<Rightarrow> fpath list) \<Rightarrow> fpath \<Rightarrow> disk \<Rightarrow> (payload_entry list, disk) outcome" where
  "collect_dir ls dir d =
     then_do (with_ctx ''Failed to read'' (io (attempt (\<lambda>d.
                if node_at d dir = Some Folder then (Inr (), d)
                else (Inl (if node_at d dir = None then NotFound else Failed ''not a folder''), d)) d))) (\<lambda>_ d.
     then_do (collect_items (ls dir d) d) (\<lambda>entries d. (Inr (sort_entries entries), d)))"

section \<open>Packing into a file\<close>

fun add_extras :: "fpath list \<Rightarrow> payload_entry list \<Rightarrow> disk \<Rightarrow> (payload_entry list, disk) outcome" where
  "add_extras [] entries d = (Inr entries, d)"
| "add_extras (extra # extras) entries d =
     then_do (checked_name ''Non-UTF-8 extra file name'' extra d) (\<lambda>name d.
       if name \<in> pe_name ` set entries then (Inl (Ctx name (Msg ''duplicate payload entry'')), d)
       else then_do (read_entry name extra d) (\<lambda>entry d. add_extras extras (entries @ [entry]) d))"

definition write_output :: "fpath \<Rightarrow> u8 list \<Rightarrow> disk \<Rightarrow> (unit, disk) outcome" where
  "write_output out bytes d =
     then_do (case path_parent out of
                Some parent \<Rightarrow> io (fs_create_dir_all parent d)
              | None \<Rightarrow> (Inr (), d))
       (\<lambda>_ d. with_ctx ''Failed to write'' (io (fs_write out bytes d)))"

definition pack_into_file ::
  "sha \<Rightarrow> (fpath \<Rightarrow> disk \<Rightarrow> fpath list) \<Rightarrow> fpath \<Rightarrow> fpath list \<Rightarrow> fpath \<Rightarrow> fpath \<Rightarrow> disk \<Rightarrow> (unit, disk) outcome" where
  "pack_into_file H ls setup extras payload_dir out d =
     then_do (with_ctx ''Failed to read'' (io (fs_read setup d))) (\<lambda>setup_bytes d.
     then_do (collect_dir ls payload_dir d) (\<lambda>entries d.
     then_do (add_extras extras entries d) (\<lambda>entries d.
       (case pack H setup_bytes (map (\<lambda>e. (pe_name e, pe_data e)) (sort_entries entries)) of
          Inl e \<Rightarrow> (Inl (name_error e), d)
        | Inr bytes \<Rightarrow> write_output out bytes d))))"

section \<open>The result does not depend on the order of the directory\<close>

text \<open>What a path contributes on a disk where nothing fails.\<close>

definition entry_of :: "disk \<Rightarrow> fpath \<Rightarrow> payload_entry option" where
  "entry_of d p =
     (case node_at d p of
        Some (File b) \<Rightarrow> Some \<lparr>pe_name = last p, pe_data = b\<rparr>
      | _ \<Rightarrow> None)"

definition good_name :: "fpath \<Rightarrow> bool" where
  "good_name p \<longleftrightarrow> utf8_name p = Some (last p) \<and> validate_name (last p) = Inr ()"

lemma checked_name_ok [simp]: "checked_name msg p w = (Inr n, w') \<longleftrightarrow> good_name p \<and> n = last p \<and> w' = w"
  by (auto simp: checked_name_def good_name_def utf8_name_def path_file_name_def split: option.splits sum.splits if_splits)

lemma read_entry_ok:
  "calm d \<Longrightarrow> read_entry n p d = (Inr e, d') \<longleftrightarrow> d' = d \<and> (\<exists>b. node_at d p = Some (File b) \<and> e = \<lparr>pe_name = n, pe_data = b\<rparr>)"
  by (auto simp: read_entry_def then_do_Inr fs_read_def split: option.splits node.splits)

lemma collect_item_ok:
  "calm d \<Longrightarrow> node_at d p \<noteq> None \<Longrightarrow> collect_item p d = (Inr x, d') \<longleftrightarrow>
     d' = d \<and> x = entry_of d p \<and> (entry_of d p \<noteq> None \<longrightarrow> good_name p)"
  by (auto simp: collect_item_def then_do_Inr fs_is_file_def entry_of_def read_entry_ok split: option.splits node.splits if_splits)

lemma collect_items_ok:
  "calm d \<Longrightarrow> \<forall>p \<in> set ps. node_at d p \<noteq> None \<Longrightarrow> collect_items ps d = (Inr es, d') \<longleftrightarrow>
     d' = d \<and> es = List.map_filter (entry_of d) ps \<and> (\<forall>p \<in> set ps. entry_of d p \<noteq> None \<longrightarrow> good_name p)"
proof (induction ps arbitrary: es)
  case (Cons p ps)
  then show ?case
    by (auto simp: then_do_Inr collect_item_ok List.map_filter_simps split: option.splits)
qed (auto simp: List.map_filter_simps)

lemma listing_member:
  assumes "p \<in> set ps" "listing dir d ps"
  shows "p = dir @ [last p] \<and> node_at d p \<noteq> None"
proof -
  have "p \<noteq> []" "butlast p = dir" "node_at d p \<noteq> None"
    using assms by (auto simp: listing_def children_def fmlookup_dom_iff)
  then show ?thesis using append_butlast_last_id by metis
qed

lemma children_names:
  assumes "p \<in> set ps" "q \<in> set ps" "listing dir d ps" "last p = last q"
  shows "p = q"
  using listing_member [OF assms(1,3)] listing_member [OF assms(2,3)] assms(4) by metis

lemma set_map_filter: "set (List.map_filter f xs) = {y. \<exists>x \<in> set xs. f x = Some y}"
  by (induction xs) (auto simp: List.map_filter_simps split: option.splits)

lemma map_filter_mset: "mset ps = mset qs \<Longrightarrow> mset (List.map_filter f ps) = mset (List.map_filter f qs)"
  by (simp add: List.map_filter_def mset_filter)

lemma map_filter_pe_inj:
  assumes "listing dir d ps"
  shows "inj_on pe_name (set (List.map_filter (entry_of d) ps))"
proof (rule inj_onI)
  fix x y
  assume "x \<in> set (List.map_filter (entry_of d) ps)" "y \<in> set (List.map_filter (entry_of d) ps)"
    and n: "pe_name x = pe_name y"
  then obtain p q where p: "p \<in> set ps" "entry_of d p = Some x" and q: "q \<in> set ps" "entry_of d q = Some y"
    by (auto simp: List.map_filter_def)
  from p(2) q(2) n have "last p = last q" by (auto simp: entry_of_def split: option.splits node.splits)
  with children_names [OF p(1) q(1) assms] p(2) q(2) show "x = y" by simp
qed

lemma sort_entries_perm:
  assumes "listing dir d ps" "listing dir d qs"
  shows "sort_entries (List.map_filter (entry_of d) ps) = sort_entries (List.map_filter (entry_of d) qs)"
proof -
  have "mset ps = mset qs" using assms set_eq_iff_mset_eq_distinct unfolding listing_def by metis
  then have m: "mset (List.map_filter (entry_of d) ps) = mset (List.map_filter (entry_of d) qs)"
    by (rule map_filter_mset)
  have "sort_key pe_name (List.map_filter (entry_of d) ps) = sort_key pe_name (List.map_filter (entry_of d) qs)"
    by (rule sort_key_inj_key_eq) (use m map_filter_pe_inj [OF assms(1)] in simp_all)
  then show ?thesis by (simp add: sort_entries_def)
qed

text \<open>
  The packed installer is reproducible: the order in which the system happens to list
  the payload directory makes no difference. On a disk where nothing fails, two orders in which the
  packer succeeds leave exactly the same disk behind, and when it succeeds with one order it succeeds
  with every other.
\<close>

theorem packing_is_reproducible:
  assumes "calm d" and "\<And>d. listing dir d (ls1 dir d)" and "\<And>d. listing dir d (ls2 dir d)"
    and "pack_into_file H ls1 setup extras dir out d = (Inr (), d')"
  shows "pack_into_file H ls2 setup extras dir out d = (Inr (), d')"
proof -
  have "collect_dir ls1 dir d = (Inr es, d1) \<Longrightarrow> collect_dir ls2 dir d = (Inr es, d1)" for es d1
  proof -
    assume c: "collect_dir ls1 dir d = (Inr es, d1)"
    note l1 = assms(2) [of d] and l2 = assms(3) [of d]
    have e: "\<forall>p \<in> set (ls1 dir d). node_at d p \<noteq> None" "\<forall>p \<in> set (ls2 dir d). node_at d p \<noteq> None"
      using l1 l2 listing_member by blast+
    have "set (ls1 dir d) = set (ls2 dir d)" using l1 l2 by (simp add: listing_def)
    with c sort_entries_perm [OF l1 l2] show ?thesis
      using assms(1) by (auto simp: collect_dir_def then_do_Inr collect_items_ok [OF assms(1) e(1)]
          collect_items_ok [OF assms(1) e(2)] split: if_splits)
  qed
  then show ?thesis
    using assms(1,4) by (auto simp: pack_into_file_def then_do_Inr fs_read_def split: option.splits node.splits)
qed

definition demo_source :: disk where
  "demo_source =
     \<lparr>dk_nodes = fmap_of_list [([''C:''], Folder), ([''C:'', ''s.exe''], File [77, 90]), ([''C:'', ''p''], Folder),
        ([''C:'', ''p'', ''b''], File [1]), ([''C:'', ''p'', ''a''], File [2])],
      dk_faults = [], dk_pid = 7, dk_next = 0\<rparr>"

definition sorted_ls :: "fpath \<Rightarrow> disk \<Rightarrow> fpath list" where
  "sorted_ls p d = sorted_list_of_set (fset (children p d))"

lemma listing_sorted: "listing p d (sorted_ls p d)" "listing p d (rev (sorted_ls p d))"
  by (simp_all add: listing_def sorted_ls_def)

lemma demo_children: "children [''C:'', ''p''] demo_source = {|[''C:'', ''p'', ''a''], [''C:'', ''p'', ''b'']|}"
  by (auto simp: children_def demo_source_def fmdom_of_list)

lemma demo_ls: "sorted_ls [''C:'', ''p''] demo_source = [[''C:'', ''p'', ''a''], [''C:'', ''p'', ''b'']]"
  by (simp add: sorted_ls_def demo_children)

lemma demo_nodes [simp]:
  "node_at demo_source [''C:'', ''s.exe''] = Some (File [77, 90])"
  "node_at demo_source [''C:'', ''p''] = Some Folder" "node_at demo_source [''C:''] = Some Folder"
  "node_at demo_source [''C:'', ''p'', ''a''] = Some (File [2])"
  "node_at demo_source [''C:'', ''p'', ''b''] = Some (File [1])"
  "node_at demo_source [''C:'', ''out.exe''] = None"
  by (simp_all add: demo_source_def fmlookup_of_list)

lemma demo_calm: "calm demo_source"
  by (simp add: demo_source_def calm_def)

lemma demo_good: "good_name [''C:'', ''p'', ''a'']" "good_name [''C:'', ''p'', ''b'']"
  by (simp_all add: good_name_def utf8_name_def path_file_name_def is_root_def bytes_of_def validate_name_def)

lemma demo_collect:
  "collect_dir sorted_ls [''C:'', ''p''] demo_source =
     (Inr [\<lparr>pe_name = ''a'', pe_data = [2]\<rparr>, \<lparr>pe_name = ''b'', pe_data = [1]\<rparr>], demo_source)"
proof -
  have "collect_items (sorted_ls [''C:'', ''p''] demo_source) demo_source =
      (Inr [\<lparr>pe_name = ''a'', pe_data = [2]\<rparr>, \<lparr>pe_name = ''b'', pe_data = [1]\<rparr>], demo_source)"
    by (subst collect_items_ok [OF demo_calm])
       (auto simp: demo_ls List.map_filter_simps entry_of_def demo_good)
  then show ?thesis using demo_calm by (simp add: collect_dir_def sort_entries_def with_ctx_def)
qed

lemma demo_pack:
  "\<exists>d'. pack_into_file demo_sha sorted_ls [''C:'', ''s.exe''] [] [''C:'', ''p''] [''C:'', ''out.exe''] demo_source = (Inr (), d')"
proof -
  have "\<exists>bytes. pack demo_sha [77, 90] [(''a'', [2]), (''b'', [1])] = Inr bytes"
    by (simp add: pack_def validate_name_def)
  then show ?thesis
    using demo_calm by (auto simp: pack_into_file_def fs_read_def demo_collect sort_entries_def with_ctx_def
        write_output_def path_parent_def is_root_def fs_create_dir_all_def ancestors_def fs_write_def fs_write_all_def)
qed

theorem packing_is_reproducible_witness:
  "\<exists>d'. pack_into_file demo_sha sorted_ls [''C:'', ''s.exe''] [] [''C:'', ''p''] [''C:'', ''out.exe''] demo_source = (Inr (), d')
    \<and> pack_into_file demo_sha (\<lambda>p d. rev (sorted_ls p d)) [''C:'', ''s.exe''] [] [''C:'', ''p''] [''C:'', ''out.exe''] demo_source = (Inr (), d')"
proof -
  obtain d' where d': "pack_into_file demo_sha sorted_ls [''C:'', ''s.exe''] [] [''C:'', ''p''] [''C:'', ''out.exe''] demo_source = (Inr (), d')"
    using demo_pack by blast
  from packing_is_reproducible [where ?ls2.0 = "\<lambda>p d. rev (sorted_ls p d)", OF demo_calm _ _ d'] listing_sorted d'
  show ?thesis by blast
qed

section \<open>The result contains the inputs\<close>

lemma add_extras_ok:
  "calm d \<Longrightarrow> add_extras ps es d = (Inr es', d') \<Longrightarrow>
     d' = d \<and> set es' = set es \<union> set (List.map_filter (entry_of d) ps) \<and> (\<forall>p \<in> set ps. good_name p)"
proof (induction ps arbitrary: es)
  case (Cons p ps)
  then obtain e b where e: "good_name p" "node_at d p = Some (File b)" "e = \<lparr>pe_name = last p, pe_data = b\<rparr>"
    "add_extras ps (es @ [e]) d = (Inr es', d')"
    by (auto simp: then_do_Inr read_entry_ok split: if_splits)
  then have "entry_of d p = Some e" by (simp add: entry_of_def)
  with Cons.IH [OF Cons.prems(1) e(4)] e(1) show ?case by (auto simp: List.map_filter_simps)
qed (simp add: List.map_filter_simps)

lemma entry_fields [simp]: "\<lparr>pe_name = pe_name e, pe_data = pe_data e\<rparr> = e"
  by (cases e) simp

lemma good_name_utf8: "good_name p \<Longrightarrow> utf8_valid (bytes_of (last p))"
  by (auto simp: good_name_def utf8_name_def split: option.splits if_splits)

lemma write_output_ok:
  "calm d \<Longrightarrow> write_output out bytes d = (Inr (), d') \<Longrightarrow> node_at d' out = Some (File bytes)"
  by (auto simp: write_output_def then_do_Inr fs_write_def fs_write_all_def split: option.splits if_splits)

text \<open>
  C39 (functional). The installer that the packer writes contains exactly the files it was given: when the
  packer succeeds on a disk where nothing fails, unpacking the file it wrote gives the files of the payload
  directory and the extra files, with their contents, sorted by name and without a duplicate.
\<close>

theorem packed_installer_unpacks_to_inputs:
  assumes "calm d" and "\<And>d. listing dir d (ls dir d)" and "sha_ok H"
    and "pack_into_file H ls setup extras dir out d = (Inr (), d')"
  shows "\<exists>bytes es. node_at d' out = Some (File bytes) \<and> sorted (map pe_name es) \<and> distinct (map pe_name es)
    \<and> set es = {e. \<exists>p \<in> set (ls dir d) \<union> set extras. entry_of d p = Some e}
    \<and> (length bytes < 2 ^ 63 \<and> length es < 2 ^ 32 \<longrightarrow> unpack H bytes = Inr (Some es))"
proof -
  obtain sb es0 d0 es1 d1 bytes d2 where c: "collect_dir ls dir d = (Inr es0, d0)"
    and a: "add_extras extras es0 d0 = (Inr es1, d1)"
    and p: "pack H sb (map (\<lambda>e. (pe_name e, pe_data e)) (sort_entries es1)) = Inr bytes"
    and w: "write_output out bytes d1 = (Inr (), d')"
    using assms(1,4) by (auto simp: pack_into_file_def then_do_Inr fs_read_def sum_case_Inr split: option.splits node.splits)
  note l = listing_member [OF _ assms(2) [of d]]
  have c: "d0 = d" "set es0 = set (List.map_filter (entry_of d) (ls dir d))"
    "\<forall>p \<in> set (ls dir d). entry_of d p \<noteq> None \<longrightarrow> good_name p"
    using c l assms(1) by (auto simp: collect_dir_def then_do_Inr collect_items_ok sort_entries_def split: if_splits)
  note a = add_extras_ok [OF _ a, unfolded c(1), OF assms(1)]
  let ?es = "sort_entries es1" let ?ps = "map (\<lambda>e. (pe_name e, pe_data e)) ?es"
  have set: "set ?es = {e. \<exists>p \<in> set (ls dir d) \<union> set extras. entry_of d p = Some e}"
    using a c by (auto simp: sort_entries_def set_map_filter)
  have u: "utf8_valid (bytes_of n)" if "n \<in> fst ` set ?ps" for n
  proof -
    from that obtain e where e: "e \<in> set ?es" "n = pe_name e" by auto
    with set obtain q where q: "q \<in> set (ls dir d) \<union> set extras" "entry_of d q = Some e" by auto
    then have "good_name q" using c(3) a by auto
    moreover have "n = last q" using e q by (auto simp: entry_of_def split: option.splits node.splits)
    ultimately show ?thesis by (simp add: good_name_utf8)
  qed
  have "check_names [] ?ps = Inr ()" using p by (auto simp: pack_def split: sum.splits)
  from check_names_ok [OF this] have dist: "distinct (map pe_name ?es)" by (simp add: comp_def)
  have "sorted (map pe_name ?es)" by (simp add: sort_entries_def)
  moreover have "unpack H bytes = Inr (Some ?es)" if "length bytes < 2 ^ 63" "length ?es < 2 ^ 32"
    using unpack_pack [OF assms(3) p that(1) _ u] that(2) by (simp add: comp_def)
  moreover have "node_at d' out = Some (File bytes)" using write_output_ok [OF _ w] a assms(1) by simp
  ultimately show ?thesis using set dist by blast
qed

theorem packed_installer_unpacks_to_inputs_witness:
  "\<exists>d' bytes es. pack_into_file demo_sha sorted_ls [''C:'', ''s.exe''] [] [''C:'', ''p''] [''C:'', ''out.exe''] demo_source = (Inr (), d')
    \<and> node_at d' [''C:'', ''out.exe''] = Some (File bytes) \<and> sorted (map pe_name es)
    \<and> \<lparr>pe_name = ''b'', pe_data = [1]\<rparr> \<in> set es"
proof -
  obtain d' where d': "pack_into_file demo_sha sorted_ls [''C:'', ''s.exe''] [] [''C:'', ''p''] [''C:'', ''out.exe''] demo_source = (Inr (), d')"
    using demo_pack by blast
  have "entry_of demo_source [''C:'', ''p'', ''b''] = Some \<lparr>pe_name = ''b'', pe_data = [1]\<rparr>" by (simp add: entry_of_def)
  with packed_installer_unpacks_to_inputs [OF demo_calm listing_sorted(1) demo_sha_ok d'] d' show ?thesis
    unfolding demo_ls by force
qed

end
