(* ===== verification/Registry.thy ===== *)
theory Registry
  imports Files Ras
begin

text \<open>
  \<open>src/src/win32.rs\<close>, \<open>src/src/setup/registry_backup.rs\<close>, and the registry calls of
  \<open>src/src/eventlog.rs\<close> and \<open>src/src/tray/mod.rs\<close>. The Windows registry is an argument: its calls return
  a code, 0 for success and 2 for a key or value that does not exist.
\<close>

section \<open>The registry calls\<close>

datatype hkey = HkeyCurrentUser | HkeyLocalMachine

datatype reg_access = KeyRead | KeySetValue

type_synonym reg_key = "hkey \<times> string"
type_synonym reg_value = "u32 \<times> u8 list"

text \<open>
  \<open>rg_size\<close> is \<open>RegGetValueW\<close> without a buffer: code, kind and length; \<open>rg_get n\<close> is the call with a
  buffer of \<open>n\<close> bytes: code, kind, the buffer and the length. \<open>rg_info\<close>: code, number of subkeys and of
  values.
\<close>

record 'w reg_api =
  rg_open :: "reg_access \<Rightarrow> reg_key \<Rightarrow> 'w \<Rightarrow> u32 \<times> 'w"
  rg_size :: "reg_key \<Rightarrow> string \<Rightarrow> 'w \<Rightarrow> (u32 \<times> u32 \<times> nat) \<times> 'w"
  rg_get :: "nat \<Rightarrow> reg_key \<Rightarrow> string \<Rightarrow> 'w \<Rightarrow> (u32 \<times> u32 \<times> u8 list \<times> nat) \<times> 'w"
  rg_create :: "reg_key \<Rightarrow> 'w \<Rightarrow> u32 \<times> 'w"
  rg_set :: "reg_key \<Rightarrow> string \<Rightarrow> reg_value \<Rightarrow> 'w \<Rightarrow> u32 \<times> 'w"
  rg_delete :: "reg_key \<Rightarrow> string \<Rightarrow> 'w \<Rightarrow> u32 \<times> 'w"
  rg_info :: "reg_key \<Rightarrow> 'w \<Rightarrow> (u32 \<times> nat \<times> nat) \<times> 'w"
  rg_delete_key :: "reg_key \<Rightarrow> 'w \<Rightarrow> u32 \<times> 'w"
  rg_delete_tree :: "reg_key \<Rightarrow> 'w \<Rightarrow> u32 \<times> 'w"
  rg_close :: "reg_key \<Rightarrow> 'w \<Rightarrow> u32 \<times> 'w"

definition code_error :: "string \<Rightarrow> u32 \<Rightarrow> err" where
  "code_error what code = Msg (what @ '': '' @ dec (unat code))"

definition reg_sz :: u32 where "reg_sz = 1"
definition reg_expand_sz :: u32 where "reg_expand_sz = 2"
definition reg_binary :: u32 where "reg_binary = 3"
definition reg_dword :: u32 where "reg_dword = 4"

section \<open>Writing values\<close>

definition wide_bytes :: "string \<Rightarrow> u8 list" where
  "wide_bytes s = concat (map (\<lambda>c. le_bytes 2 (unat c)) (utf16 s @ [0]))"

definition reg_create :: "'w reg_api \<Rightarrow> reg_key \<Rightarrow> 'w \<Rightarrow> (unit, 'w) outcome" where
  "reg_create R k w =
     (case rg_create R k w of (code, w) \<Rightarrow>
        (if code \<noteq> 0 then Inl (code_error ''RegCreateKeyExW failed'' code) else Inr (), w))"

definition reg_set_value :: "'w reg_api \<Rightarrow> reg_key \<Rightarrow> string option \<Rightarrow> reg_value \<Rightarrow> 'w \<Rightarrow> (unit, 'w) outcome" where
  "reg_set_value R k name v w =
     then_do (reg_create R k w) (\<lambda>_ w.
       (let (code, w) = rg_set R k (case name of Some n \<Rightarrow> n | None \<Rightarrow> []) v w; w = snd (rg_close R k w)
        in (if code \<noteq> 0
            then Inl (Ctx (case name of Some n \<Rightarrow> n | None \<Rightarrow> ''(default)'') (code_error ''RegSetValueExW failed'' code))
            else Inr (), w)))"

definition reg_set_string :: "'w reg_api \<Rightarrow> reg_key \<Rightarrow> string option \<Rightarrow> string \<Rightarrow> 'w \<Rightarrow> (unit, 'w) outcome" where
  "reg_set_string R k name s w = reg_set_value R k name (reg_sz, wide_bytes s) w"

definition reg_set_dword :: "'w reg_api \<Rightarrow> reg_key \<Rightarrow> string \<Rightarrow> u32 \<Rightarrow> 'w \<Rightarrow> (unit, 'w) outcome" where
  "reg_set_dword R k name v w = reg_set_value R k (Some name) (reg_dword, le_bytes 4 (unat v)) w"

section \<open>Backup of values\<close>

record registry_backup =
  rb_key :: reg_key
  rb_existed :: bool
  rb_values :: "(string \<times> reg_value option) list"

definition read_value :: "'w reg_api \<Rightarrow> reg_key \<Rightarrow> string \<Rightarrow> 'w \<Rightarrow> (reg_value option, 'w) outcome" where
  "read_value R k name w =
     (let ((code, kind, len), w) = rg_size R k name w
      in if code = 2 then (Inr None, w)
         else then_do (ensure (code = 0) (code_error ''Cannot size registry backup'' code) w) (\<lambda>_ w.
           (let ((code, kind, bytes, len), w) = rg_get R len k name w
            in then_do (ensure (code = 0) (code_error ''Cannot read registry backup'' code) w) (\<lambda>_ w.
                 (Inr (Some (kind, take len bytes)), w)))))"

primrec read_values :: "'w reg_api \<Rightarrow> reg_key \<Rightarrow> string list \<Rightarrow> 'w \<Rightarrow> ((string \<times> reg_value option) list, 'w) outcome" where
  "read_values R k [] w = (Inr [], w)"
| "read_values R k (n # ns) w =
     then_do (read_value R k n w) (\<lambda>v w.
     then_do (read_values R k ns w) (\<lambda>vs w. (Inr ((n, v) # vs), w)))"

definition registry_capture :: "'w reg_api \<Rightarrow> reg_key \<Rightarrow> string list \<Rightarrow> 'w \<Rightarrow> (registry_backup, 'w) outcome" where
  "registry_capture R k names w =
     (let (code, w) = rg_open R KeyRead k w; existed = (code = 0)
      in then_do (ensure (existed \<or> code = 2) (code_error ''Cannot inspect registry key'' code) w) (\<lambda>_ w.
           (let w = if existed then snd (rg_close R k w) else w
            in then_do (read_values R k names w) (\<lambda>values w.
                 (Inr \<lparr>rb_key = k, rb_existed = existed, rb_values = values\<rparr>, w)))))"

definition restore_value :: "'w reg_api \<Rightarrow> reg_key \<Rightarrow> string \<times> reg_value option \<Rightarrow> 'w \<Rightarrow> err option \<times> 'w" where
  "restore_value R k nv w =
     (let (code, w) = (case snd nv of Some v \<Rightarrow> rg_set R k (fst nv) v w | None \<Rightarrow> rg_delete R k (fst nv) w)
      in (if code \<noteq> 0 \<and> \<not> (snd nv = None \<and> code = 2) then Some (code_error (fst nv) code) else None, w))"

primrec restore_values :: "'w reg_api \<Rightarrow> reg_key \<Rightarrow> (string \<times> reg_value option) list \<Rightarrow> 'w \<Rightarrow> err list \<times> 'w" where
  "restore_values R k [] w = ([], w)"
| "restore_values R k (nv # nvs) w =
     (let (e, w) = restore_value R k nv w; (es, w) = restore_values R k nvs w
      in (case e of Some e \<Rightarrow> e # es | None \<Rightarrow> es, w))"

definition remove_new_key :: "'w reg_api \<Rightarrow> reg_key \<Rightarrow> u32 \<times> nat \<times> nat \<Rightarrow> 'w \<Rightarrow> (unit, 'w) outcome" where
  "remove_new_key R k info w =
     (case info of (query, subkeys, values) \<Rightarrow>
        then_do (ensure (query = 0) (code_error ''Cannot inspect restored registry key'' query) w) (\<lambda>_ w.
          if subkeys = 0 \<and> values = 0
          then (let (code, w) = rg_delete_key R k w
                in ensure (code = 0 \<or> code = 2) (code_error ''Cannot remove newly created registry key'' code) w)
          else (Inr (), w)))"

definition registry_restore :: "'w reg_api \<Rightarrow> registry_backup \<Rightarrow> 'w \<Rightarrow> (unit, 'w) outcome" where
  "registry_restore R b w =
     (let k = rb_key b; (code, w) = rg_create R k w
      in then_do (ensure (code = 0) (code_error ''Cannot open registry key for rollback'' code) w) (\<lambda>_ w.
           (let (failures, w) = restore_values R k (rb_values b) w;
                (info, w) = rg_info R k w; w = snd (rg_close R k w)
            in then_do (ensure (failures = []) (Several ''Registry rollback failed'' failures) w) (\<lambda>_ w.
                 if rb_existed b then (Inr (), w) else remove_new_key R k info w))))"

section \<open>The event source and the autostart value\<close>

definition backslash :: string where "backslash = [CHR 92]"

definition event_source_name :: string where "event_source_name = ''gdut-net''"

definition source_subkey :: string where
  "source_subkey = ''SYSTEM'' @ backslash @ ''CurrentControlSet'' @ backslash @ ''Services'' @ backslash @ ''EventLog'' @ backslash
     @ ''Application'' @ backslash @ ''gdut-net''"

definition source_key :: reg_key where "source_key = (HkeyLocalMachine, source_subkey)"

definition win32_err :: "string \<Rightarrow> u32 \<Rightarrow> err" where
  "win32_err step code = Msg (step @ '' failed: error '' @ dec (unat code))"

definition open_source_key :: "'w reg_api \<Rightarrow> 'w \<Rightarrow> (unit, 'w) outcome" where
  "open_source_key R w =
     (case rg_create R source_key w of (code, w) \<Rightarrow>
        (if code \<noteq> 0 then Inl (win32_err ''RegCreateKeyExW'' code) else Inr (), w))"

definition register_source :: "'w reg_api \<Rightarrow> 'w \<Rightarrow> (unit, 'w) outcome" where
  "register_source R w =
     then_do (open_source_key R w) (\<lambda>_ w.
       (let (ret_msg, w) = rg_set R source_key ''EventMessageFile''
              (reg_expand_sz, wide_bytes (''%SystemRoot%'' @ backslash @ ''System32'' @ backslash @ ''netmsg.dll'')) w;
            (ret_types, w) = rg_set R source_key ''TypesSupported'' (reg_dword, le_bytes 4 7) w;
            w = snd (rg_close R source_key w)
        in (if ret_msg \<noteq> 0 then Inl (win32_err ''Write EventMessageFile'' ret_msg)
            else if ret_types \<noteq> 0 then Inl (win32_err ''Write TypesSupported'' ret_types) else Inr (), w)))"

definition unregister_source :: "'w reg_api \<Rightarrow> 'w \<Rightarrow> (unit, 'w) outcome" where
  "unregister_source R w =
     (case rg_delete_tree R source_key w of (code, w) \<Rightarrow>
        (if code \<noteq> 0 \<and> code \<noteq> 2 then Inl (win32_err ''RegDeleteTreeW'' code) else Inr (), w))"

definition run_key :: reg_key where
  "run_key = (HkeyCurrentUser,
     ''Software'' @ backslash @ ''Microsoft'' @ backslash @ ''Windows'' @ backslash @ ''CurrentVersion'' @ backslash @ ''Run'')"

definition register_autostart :: "'w reg_api \<Rightarrow> string \<Rightarrow> 'w \<Rightarrow> (unit, 'w) outcome" where
  "register_autostart R tray_exe w =
     reg_set_string R run_key (Some ''gdut-net-tray'') ([CHR 34] @ tray_exe @ [CHR 34] @ '' tray'') w"

definition unregister_autostart :: "'w reg_api \<Rightarrow> 'w \<Rightarrow> (unit, 'w) outcome" where
  "unregister_autostart R w =
     (let (code, w) = rg_open R KeySetValue run_key w
      in if code \<noteq> 0 then (Inr (), w)
         else (Inr (), snd (rg_close R run_key (snd (rg_delete R run_key ''gdut-net-tray'' w)))))"

section \<open>What the registry promises\<close>

text \<open>
  \<open>V w\<close> is the content of the registry in the world \<open>w\<close>: the keys that exist with their values.
  \<open>norm\<close> is what \<open>RegGetValueW\<close> makes of a stored value, a string without a terminator gets one.
\<close>

type_synonym 'w reg_view = "'w \<Rightarrow> reg_key \<Rightarrow> (string \<rightharpoonup> reg_value) option"

definition reg_at :: "'w reg_view \<Rightarrow> 'w \<Rightarrow> reg_key \<Rightarrow> string \<Rightarrow> reg_value option" where
  "reg_at V w k n = (case V w k of None \<Rightarrow> None | Some vs \<Rightarrow> vs n)"

definition reg_reads :: "'w reg_api \<Rightarrow> 'w reg_view \<Rightarrow> (reg_value \<Rightarrow> reg_value) \<Rightarrow> bool" where
  "reg_reads R V norm \<longleftrightarrow>
     (\<forall>a k w c w'. rg_open R a k w = (c, w') \<longrightarrow> V w' = V w \<and> (c = 0 \<longrightarrow> V w k \<noteq> None) \<and> (c = 2 \<longrightarrow> V w k = None))
   \<and> (\<forall>k n w c kd l w'. rg_size R k n w = ((c, kd, l), w') \<longrightarrow> V w' = V w \<and> (c = 2 \<longrightarrow> reg_at V w k n = None))
   \<and> (\<forall>m k n w c kd b l w'. rg_get R m k n w = ((c, kd, b, l), w') \<longrightarrow>
        V w' = V w \<and> (c = 0 \<longrightarrow> map_option norm (reg_at V w k n) = Some (kd, take l b)))
   \<and> (\<forall>k w c s v w'. rg_info R k w = ((c, s, v), w') \<longrightarrow> V w' = V w
        \<and> (c = 0 \<longrightarrow> (\<exists>vs. V w k = Some vs \<and> finite (dom vs) \<and> v = card (dom vs))
             \<and> (s = 0 \<longleftrightarrow> (\<forall>sub. V w (fst k, snd k @ backslash @ sub) = None))))
   \<and> (\<forall>k w c w'. rg_close R k w = (c, w') \<longrightarrow> V w' = V w)"

definition reg_writes :: "'w reg_api \<Rightarrow> 'w reg_view \<Rightarrow> bool" where
  "reg_writes R V \<longleftrightarrow>
     (\<forall>k w c w'. rg_create R k w = (c, w') \<longrightarrow>
        V w' = (if c = 0 \<and> V w k = None then (V w)(k := Some Map.empty) else V w))
   \<and> (\<forall>k n v w c w'. rg_set R k n v w = (c, w') \<longrightarrow>
        (c \<noteq> 0 \<longrightarrow> V w' = V w) \<and> (\<forall>vs. c = 0 \<and> V w k = Some vs \<longrightarrow> V w' = (V w)(k := Some (vs(n \<mapsto> v)))))
   \<and> (\<forall>k n w c w'. rg_delete R k n w = (c, w') \<longrightarrow>
        (c \<noteq> 0 \<longrightarrow> V w' = V w) \<and> (c = 2 \<longrightarrow> reg_at V w k n = None)
        \<and> (\<forall>vs. c = 0 \<and> V w k = Some vs \<longrightarrow> V w' = (V w)(k := Some (vs(n := None)))))
   \<and> (\<forall>k w c w'. rg_delete_key R k w = (c, w') \<longrightarrow> V w' = (if c = 0 then (V w)(k := None) else V w))"

text \<open>A key that could not be deleted because it is not there: the code 2.\<close>

definition reg_laws :: "'w reg_api \<Rightarrow> 'w reg_view \<Rightarrow> (reg_value \<Rightarrow> reg_value) \<Rightarrow> bool" where
  "reg_laws R V norm \<longleftrightarrow> reg_reads R V norm \<and> reg_writes R V
     \<and> (\<forall>k w w'. rg_delete_key R k w = (2, w') \<longrightarrow> V w k = None)"

lemma reg_laws_parts: "reg_laws R V norm \<Longrightarrow> reg_reads R V norm" "reg_laws R V norm \<Longrightarrow> reg_writes R V"
  by (simp_all add: reg_laws_def)

lemmas rg_open_law = reg_reads_def [THEN iffD1, OF reg_laws_parts(1), THEN conjunct1, rule_format]
lemmas rg_size_law = reg_reads_def [THEN iffD1, OF reg_laws_parts(1), THEN conjunct2, THEN conjunct1, rule_format]
lemmas rg_get_law = reg_reads_def [THEN iffD1, OF reg_laws_parts(1), THEN conjunct2, THEN conjunct2, THEN conjunct1, rule_format]
lemmas rg_info_law = reg_reads_def [THEN iffD1, OF reg_laws_parts(1), THEN conjunct2, THEN conjunct2, THEN conjunct2, THEN conjunct1, rule_format]
lemmas rg_create_law = reg_writes_def [THEN iffD1, OF reg_laws_parts(2), THEN conjunct1, rule_format]
lemmas rg_set_law' = reg_writes_def [THEN iffD1, OF reg_laws_parts(2), THEN conjunct2, THEN conjunct1, rule_format]
lemmas rg_delete_law' = reg_writes_def [THEN iffD1, OF reg_laws_parts(2), THEN conjunct2, THEN conjunct2, THEN conjunct1, rule_format]
lemmas rg_delete_key_law = reg_writes_def [THEN iffD1, OF reg_laws_parts(2), THEN conjunct2, THEN conjunct2, THEN conjunct2, rule_format]

lemma rg_close_law: "reg_laws R V norm \<Longrightarrow> V (snd (rg_close R k w)) = V w"
  by (cases "rg_close R k w") (auto simp: reg_laws_def reg_reads_def simp del: split_paired_All)

lemma rg_set_law:
  "reg_laws R V norm \<Longrightarrow> rg_set R k n v w = (c, w') \<Longrightarrow> V w k = Some vs \<Longrightarrow>
     V w' = (if c = 0 then (V w)(k := Some (vs(n \<mapsto> v))) else V w)"
  using rg_set_law' [of R V norm k n v w c w'] by auto

lemma rg_delete_law:
  "reg_laws R V norm \<Longrightarrow> rg_delete R k n w = (c, w') \<Longrightarrow> V w k = Some vs \<Longrightarrow>
     V w' = (if c = 0 then (V w)(k := Some (vs(n := None))) else V w) \<and> (c = 2 \<longrightarrow> vs n = None)"
  using rg_delete_law' [of R V norm k n w c w'] by (auto simp: reg_at_def)

lemma read_value_ok:
  assumes laws: "reg_laws R V norm" and "read_value R k n w = (Inr v, w')"
  shows "V w' = V w \<and> v = map_option norm (reg_at V w k n)"
proof -
  obtain c kd l w1 where s: "rg_size R k n w = ((c, kd, l), w1)" by (metis prod.exhaust)
  obtain c' kd' b l' w2 where g: "rg_get R l k n w1 = ((c', kd', b, l'), w2)" by (metis prod.exhaust)
  from assms(2) s g have "c = 2 \<and> v = None \<and> w' = w1 \<or> c \<noteq> 2 \<and> c' = 0 \<and> v = Some (kd', take l' b) \<and> w' = w2"
    by (auto simp: read_value_def then_do_Inr split: if_splits)
  with rg_size_law [OF laws s] rg_get_law [OF laws g] show ?thesis by (auto simp: reg_at_def)
qed

lemma read_values_ok:
  "reg_laws R V norm \<Longrightarrow> read_values R k ns w = (Inr vs, w') \<Longrightarrow>
     V w' = V w \<and> vs = map (\<lambda>n. (n, map_option norm (reg_at V w k n))) ns"
proof (induction ns arbitrary: w vs)
  case (Cons n ns)
  then obtain v w1 vs1 where v: "read_value R k n w = (Inr v, w1)" "read_values R k ns w1 = (Inr vs1, w')"
    "vs = (n, v) # vs1" by (auto simp: then_do_Inr)
  from read_value_ok [OF Cons.prems(1) v(1)] Cons.IH [OF Cons.prems(1) v(2)] v(3) show ?case by (simp add: reg_at_def)
qed simp

lemma registry_capture_ok:
  assumes laws: "reg_laws R V norm" and "registry_capture R k names w = (Inr b, w')"
  shows "V w' = V w \<and> rb_key b = k \<and> rb_existed b = (V w k \<noteq> None)
    \<and> rb_values b = map (\<lambda>n. (n, map_option norm (reg_at V w k n))) names"
proof -
  obtain c w1 where o: "rg_open R KeyRead k w = (c, w1)" by force
  from assms(2) o obtain vs where c: "c = 0 \<or> c = 2"
    and vs: "read_values R k names (if c = 0 then snd (rg_close R k w1) else w1) = (Inr vs, w')"
    and b: "b = \<lparr>rb_key = k, rb_existed = (c = 0), rb_values = vs\<rparr>"
    by (auto simp: registry_capture_def Let_def then_do_Inr)
  from read_values_ok [OF laws vs] rg_open_law [OF laws o] rg_close_law [OF laws, of k w1] c b show ?thesis by (auto simp: reg_at_def)
qed

lemma restore_value_ok:
  assumes "reg_laws R V norm" and "restore_value R k (n, v) w = (None, w')" and "V w k = Some vs"
  shows "V w' = (V w)(k := Some (vs(n := v)))"
proof (cases v)
  case None
  obtain c w1 where d: "rg_delete R k n w = (c, w1)" by force
  with assms(2) None have "c = 0 \<or> c = 2" "w' = w1" by (auto simp: restore_value_def split: if_splits)
  with rg_delete_law [OF assms(1) d assms(3)] assms(3) None show ?thesis by (intro ext) auto
next
  case (Some x)
  obtain c w1 where d: "rg_set R k n x w = (c, w1)" by force
  with assms(2) Some have "c = 0" "w' = w1" by (auto simp: restore_value_def split: if_splits)
  with rg_set_law [OF assms(1) d assms(3)] Some show ?thesis by simp
qed

lemma restore_values_ok:
  "reg_laws R V norm \<Longrightarrow> restore_values R k nvs w = ([], w') \<Longrightarrow> V w k = Some vs \<Longrightarrow> distinct (map fst nvs) \<Longrightarrow>
     \<exists>vs'. V w' = (V w)(k := Some vs') \<and> (\<forall>(n, v) \<in> set nvs. vs' n = v) \<and> (\<forall>n. n \<notin> fst ` set nvs \<longrightarrow> vs' n = vs n)"
proof (induction nvs arbitrary: w vs)
  case Nil
  then show ?case by (auto intro!: exI [of _ vs])
next
  case (Cons nv nvs)
  obtain n v where nv: "nv = (n, v)" by force
  obtain w1 where r: "restore_value R k (n, v) w = (None, w1)" "restore_values R k nvs w1 = ([], w')"
    using Cons.prems(2) nv by (auto split: prod.splits option.splits)
  note v1 = restore_value_ok [OF Cons.prems(1) r(1) Cons.prems(3)]
  have "V w1 k = Some (vs(n := v))" "distinct (map fst nvs)" using v1 Cons.prems(4) by simp_all
  from Cons.IH [OF Cons.prems(1) r(2) this] obtain vs' where "V w' = (V w1)(k := Some vs')"
    "\<forall>(n, v) \<in> set nvs. vs' n = v" "\<forall>m. m \<notin> fst ` set nvs \<longrightarrow> vs' m = (vs(n := v)) m" by blast
  moreover have "n \<notin> fst ` set nvs" using Cons.prems(4) nv by simp
  ultimately show ?case using v1 nv by (intro exI [of _ vs']) auto
qed

lemma registry_restore_ok:
  assumes "reg_laws R V norm" and "distinct names"
    and "registry_capture R k names w0 = (Inr b, w1)" and "registry_restore R b w2 = (Inr (), w3)"
  shows "V w1 = V w0
    \<and> (\<forall>n \<in> set names. reg_at V w3 k n = map_option norm (reg_at V w0 k n))
    \<and> (\<forall>n. n \<notin> set names \<longrightarrow> reg_at V w3 k n = reg_at V w2 k n)
    \<and> (\<forall>k'. k' \<noteq> k \<longrightarrow> V w3 k' = V w2 k')
    \<and> (V w0 k = None \<and> (\<forall>n. n \<notin> set names \<longrightarrow> reg_at V w2 k n = None)
         \<and> (\<forall>sub. V w2 (fst k, snd k @ backslash @ sub) = None) \<longrightarrow> V w3 k = None)"
proof -
  note cap = registry_capture_ok [OF assms(1,3)]
  obtain c w4 where c: "rg_create R k w2 = (c, w4)" by force
  obtain es w5 where es: "restore_values R k (rb_values b) w4 = (es, w5)" by force
  obtain q sk vn w6 where q: "rg_info R k w5 = ((q, sk, vn), w6)" by (metis prod.exhaust)
  let ?w7 = "snd (rg_close R k w6)"
  from assms(4) cap c es q have 0: "c = 0" "es = []"
    and last: "if V w0 k \<noteq> None then w3 = ?w7 else remove_new_key R k (q, sk, vn) ?w7 = (Inr (), w3)"
    by (auto simp: registry_restore_def Let_def then_do_Inr split: if_splits)
  obtain vs where vs: "V w4 k = Some vs" "\<forall>k'. k' \<noteq> k \<longrightarrow> V w4 k' = V w2 k'" "\<forall>n. vs n = reg_at V w2 k n"
    using rg_create_law [OF assms(1) c] 0 by (cases "V w2 k") (auto simp: reg_at_def)
  let ?vals = "rb_values b"
  have keys: "map fst ?vals = names" using cap by (simp add: comp_def)
  obtain vs' where vs': "V w5 = (V w4)(k := Some vs')" "\<forall>(n, v) \<in> set ?vals. vs' n = v"
    "\<forall>n. n \<notin> fst ` set ?vals \<longrightarrow> vs' n = vs n"
    using restore_values_ok [OF assms(1) es [unfolded 0] vs(1)] keys assms(2) by auto
  have 7: "V ?w7 = V w5" using rg_info_law [OF assms(1) q] rg_close_law [OF assms(1)] by metis
  have names: "\<forall>n \<in> set names. vs' n = map_option norm (reg_at V w0 k n)" using vs'(2) cap by auto
  have others: "\<forall>n. n \<notin> set names \<longrightarrow> vs' n = reg_at V w2 k n" using vs'(3) vs(3) keys by (metis set_map)
  show ?thesis
  proof (cases "V w0 k = None")
    case False
    with last 7 names others vs' vs(2) cap show ?thesis by (simp add: reg_at_def)
  next
    case True
    with last obtain c' w8 where d: "rg_delete_key R k ?w7 = (c', w8)" and q0: "q = 0"
      and w3: "if sk = 0 \<and> vn = 0 then w3 = w8 \<and> (c' = 0 \<or> c' = 2) else w3 = ?w7"
      by (cases "rg_delete_key R k ?w7") (auto simp: remove_new_key_def then_do_Inr split: if_splits)
    note info = rg_info_law [OF assms(1) q]
    then have vn: "vn = card (dom vs')" "finite (dom vs')" using q0 vs'(1) by auto
    have none: "reg_at V w0 k n = None" for n using True by (simp add: reg_at_def)
    show ?thesis
    proof (cases "sk = 0 \<and> vn = 0")
      case True
      then have "vs' = Map.empty" using vn by simp
      moreover have "V w3 = (V w5)(k := None)"
      proof -
        have "c' = 2 \<longrightarrow> V ?w7 k = None" using d assms(1) unfolding reg_laws_def by blast
        then have "c' = 0" using True w3 7 vs'(1) by auto
        with rg_delete_key_law [OF assms(1) d] True w3 7 show ?thesis by simp
      qed
      ultimately show ?thesis using names others vs' vs(2) cap none by (auto simp: reg_at_def)
    next
      case False
      have sub: "vs' = Map.empty \<longrightarrow> (\<exists>sub. V w2 (fst k, snd k @ backslash @ sub) \<noteq> None)"
      proof
        assume "vs' = Map.empty"
        then have "sk \<noteq> 0" using False vn by simp
        then obtain sub where "V w5 (fst k, snd k @ backslash @ sub) \<noteq> None" using info q0 by auto
        moreover have "(fst k, snd k @ backslash @ sub) \<noteq> k" by (cases k) (simp add: backslash_def)
        ultimately show "\<exists>sub. V w2 (fst k, snd k @ backslash @ sub) \<noteq> None"
          using vs'(1) vs(2) by (intro exI [of _ sub]) auto
      qed
      have "(\<forall>n. n \<notin> set names \<longrightarrow> reg_at V w2 k n = None) \<longrightarrow> vs' = Map.empty"
        using names others none by (intro impI ext) (metis option.map(1))
      with sub have keep: "\<not> ((\<forall>n. n \<notin> set names \<longrightarrow> reg_at V w2 k n = None)
          \<and> (\<forall>sub. V w2 (fst k, snd k @ backslash @ sub) = None))" by metis
      have w3: "V w3 k' = (if k' = k then Some vs' else V w2 k')" for k'
        using w3 False 7 vs'(1) vs(2) by (auto simp del: split_paired_All)
      have "V w1 = V w0" using cap by simp
      with keep names others show ?thesis
        by (intro conjI; (simp add: reg_at_def [of V w3] w3)?)
    qed
  qed
qed

text \<open>
  The registry comes back exactly as it was. If the values of a key were captured and are
  restored later, whatever was done to the registry in between, and the restoration reports success, then
  every captured value is back with its type and bytes, or absent again; the other values of the key and all
  other keys are as before the restoration; and a key that had not existed is gone again, unless somebody
  has put other values or subkeys into it.
\<close>

theorem registry_comes_back:
  assumes "reg_laws R V norm" and "distinct names"
    and "registry_capture R k names w0 = (Inr b, w1)" and "registry_restore R b w2 = (Inr (), w3)"
  shows "V w1 = V w0
    \<and> (\<forall>n \<in> set names. reg_at V w3 k n = map_option norm (reg_at V w0 k n))
    \<and> (\<forall>n. n \<notin> set names \<longrightarrow> reg_at V w3 k n = reg_at V w2 k n)
    \<and> (\<forall>k'. k' \<noteq> k \<longrightarrow> V w3 k' = V w2 k')
    \<and> (V w0 k = None \<and> (\<forall>n. n \<notin> set names \<longrightarrow> reg_at V w2 k n = None)
         \<and> (\<forall>sub. V w2 (fst k, snd k @ backslash @ sub) = None) \<longrightarrow> V w3 k = None)"
  by (rule registry_restore_ok [OF assms])

section \<open>A registry without failures\<close>

text \<open>The world is the registry itself; subkeys are keys whose name continues with a backslash.\<close>

type_synonym regs = "reg_key \<Rightarrow> (string \<rightharpoonup> reg_value) option"

definition plain_registry :: "regs reg_api" where
  "plain_registry =
     \<lparr>rg_open = \<lambda>_ k w. (if w k = None then 2 else 0, w),
      rg_size = \<lambda>k n w. (case reg_at id w k n of None \<Rightarrow> (2, 0, 0) | Some (kd, b) \<Rightarrow> (0, kd, length b), w),
      rg_get = \<lambda>m k n w. (case reg_at id w k n of None \<Rightarrow> (2, 0, [], 0) | Some (kd, b) \<Rightarrow> (0, kd, b, length b), w),
      rg_create = \<lambda>k w. (0, case w k of None \<Rightarrow> w(k := Some Map.empty) | Some _ \<Rightarrow> w),
      rg_set = \<lambda>k n v w. (case w k of None \<Rightarrow> (2, w) | Some vs \<Rightarrow> (0, w(k := Some (vs(n \<mapsto> v))))),
      rg_delete = \<lambda>k n w. (case w k of
          None \<Rightarrow> (2, w) | Some vs \<Rightarrow> if vs n = None then (2, w) else (0, w(k := Some (vs(n := None))))),
      rg_info = \<lambda>k w. ((1, 0, 0), w),
      rg_delete_key = \<lambda>k w. if w k = None then (2, w) else (0, w(k := None)),
      rg_delete_tree = \<lambda>k w. if w k = None then (2, w) else (0, w(k := None)),
      rg_close = \<lambda>_ w. (0, w)\<rparr>"

lemma plain_registry_simps [simp]:
  "rg_open plain_registry a k w = (if w k = None then 2 else 0, w)"
  "rg_size plain_registry k n w =
     (case reg_at id w k n of None \<Rightarrow> (2, 0, 0) | Some (kd, b) \<Rightarrow> (0, kd, length b), w)"
  "rg_get plain_registry m k n w =
     (case reg_at id w k n of None \<Rightarrow> (2, 0, [], 0) | Some (kd, b) \<Rightarrow> (0, kd, b, length b), w)"
  "rg_create plain_registry k w = (0, case w k of None \<Rightarrow> w(k := Some Map.empty) | Some _ \<Rightarrow> w)"
  "rg_set plain_registry k n v w =
     (case w k of None \<Rightarrow> (2, w) | Some vs \<Rightarrow> (0, w(k := Some (vs(n \<mapsto> v)))))"
  "rg_delete plain_registry k n w =
     (case w k of None \<Rightarrow> (2, w) | Some vs \<Rightarrow> if vs n = None then (2, w) else (0, w(k := Some (vs(n := None)))))"
  "rg_info plain_registry k w = ((1, 0, 0), w)" "rg_close plain_registry k w = (0, w)"
  "rg_delete_key plain_registry k w = (if w k = None then (2, w) else (0, w(k := None)))"
  by (simp_all add: plain_registry_def)

lemma plain_registry_laws: "reg_laws plain_registry id id"
  unfolding reg_laws_def
proof (intro conjI)
  show "reg_reads plain_registry id id"
    by (auto simp: reg_reads_def reg_at_def split: option.splits if_splits)
  show "reg_writes plain_registry id"
    by (auto simp: reg_writes_def reg_at_def split: option.splits if_splits)
  show "\<forall>k w w'. rg_delete_key plain_registry k w = (2, w') \<longrightarrow> id w k = None"
    by (auto split: if_splits)
qed

definition demo_regs :: regs where
  "demo_regs = (\<lambda>k. None)((HkeyLocalMachine, ''Soft'') \<mapsto> [''owned'' \<mapsto> (1, [65]), ''mine'' \<mapsto> (3, [9])])"

definition changed_regs :: regs where
  "changed_regs = (\<lambda>k. None)((HkeyLocalMachine, ''Soft'') \<mapsto> [''owned'' \<mapsto> (3, [1]), ''added'' \<mapsto> (4, [1]), ''mine'' \<mapsto> (3, [8])])"

theorem registry_comes_back_witness:
  "\<exists>b w1 w3. registry_capture plain_registry (HkeyLocalMachine, ''Soft'') [''owned'', ''added''] demo_regs = (Inr b, w1)
    \<and> registry_restore plain_registry b changed_regs = (Inr (), w3)
    \<and> reg_at id w3 (HkeyLocalMachine, ''Soft'') ''owned'' = Some (1, [65])
    \<and> reg_at id w3 (HkeyLocalMachine, ''Soft'') ''added'' = None
    \<and> reg_at id w3 (HkeyLocalMachine, ''Soft'') ''mine'' = Some (3, [8])"
proof -
  let ?k = "(HkeyLocalMachine, ''Soft'')"
  let ?b = "\<lparr>rb_key = ?k, rb_existed = True, rb_values = [(''owned'', Some (1, [65])), (''added'', None)]\<rparr>"
  have b: "registry_capture plain_registry ?k [''owned'', ''added''] demo_regs = (Inr ?b, demo_regs)"
    by (simp add: registry_capture_def demo_regs_def read_value_def reg_at_def ensure_def Let_def)
  obtain w3 where w3: "registry_restore plain_registry ?b changed_regs = (Inr (), w3)"
    by (simp add: registry_restore_def restore_value_def changed_regs_def ensure_def Let_def)
  have "distinct [''owned'', ''added'']" by simp
  from registry_comes_back [OF plain_registry_laws this b w3] b w3 show ?thesis
    by (simp add: reg_at_def demo_regs_def changed_regs_def option.map_id0)
qed

end
