(* ===== verification/Crypto.thy ===== *)
theory Crypto
  imports Registry Payload Codec
begin

text \<open>
  \<open>src/src/crypto.rs\<close>: the stored password, a blob \<open>GDUT1:<entropy>:<base64>\<close>. The base64 library, the
  Windows data protection calls, the registry and the random numbers are arguments.
\<close>

section \<open>The blob\<close>

record base64 =
  b64_encode :: "u8 list \<Rightarrow> string"
  b64_decode :: "string \<Rightarrow> u8 list option"

definition blob_prefix :: string where "blob_prefix = ''GDUT1:''"
definition entropy_len :: nat where "entropy_len = 32"
definition entropy_key :: reg_key where "entropy_key = (HkeyLocalMachine, ''SOFTWARE'' @ backslash @ ''gdut-net'')"
definition entropy_value :: string where "entropy_value = ''entropy''"

definition wrap_blob :: "base64 \<Rightarrow> string \<Rightarrow> u8 list \<Rightarrow> string" where
  "wrap_blob B entropy_hex protected = blob_prefix @ entropy_hex @ '':'' @ b64_encode B protected"

definition is_hexdigit :: "char \<Rightarrow> bool" where
  "is_hexdigit c \<longleftrightarrow> (let n = (of_char c :: nat) in 48 \<le> n \<and> n \<le> 57 \<or> 65 \<le> n \<and> n \<le> 70 \<or> 97 \<le> n \<and> n \<le> 102)"

definition unwrap_blob :: "base64 \<Rightarrow> string \<Rightarrow> (string \<times> u8 list) option" where
  "unwrap_blob B s =
     (case strip_prefix blob_prefix s of
        None \<Rightarrow> None
      | Some rest \<Rightarrow>
          (case split_once (CHR '':'') rest of
             None \<Rightarrow> None
           | Some (entropy_hex, protected_b64) \<Rightarrow>
               if entropy_hex = [] \<or> length entropy_hex mod 2 \<noteq> 0 \<or> \<not> list_all is_hexdigit entropy_hex then None
               else (case b64_decode B protected_b64 of
                       None \<Rightarrow> None
                     | Some protected \<Rightarrow>
                         if protected = [] then None else Some (to_ascii_lowercase entropy_hex, protected))))"

definition hex_char :: "nat \<Rightarrow> char" where
  "hex_char n = (if n < 10 then char_of (48 + n) else char_of (87 + n))"

definition hex_encode :: "u8 list \<Rightarrow> string" where
  "hex_encode bytes = concat (map (\<lambda>b. [hex_char (unat b div 16), hex_char (unat b mod 16)]) bytes)"

definition hex_value :: "char \<Rightarrow> nat option" where
  "hex_value c =
     (let n = of_char c
      in if 48 \<le> n \<and> n \<le> 57 then Some (n - 48) else if 65 \<le> n \<and> n \<le> 70 then Some (n - 55)
         else if 97 \<le> n \<and> n \<le> 102 then Some (n - 87) else None)"

text \<open>\<open>u8::from_str_radix\<close> of two characters; a plus sign is allowed in front.\<close>

definition hex_byte :: "char \<Rightarrow> char \<Rightarrow> u8 option" where
  "hex_byte a b =
     (if a = CHR ''+'' then map_option word_of_nat (hex_value b)
      else (case (hex_value a, hex_value b) of
              (Some x, Some y) \<Rightarrow> Some (word_of_nat (16 * x + y)) | _ \<Rightarrow> None))"

fun hex_decode :: "string \<Rightarrow> err + u8 list" where
  "hex_decode (a # b # s) =
     (case hex_byte a b of
        None \<Rightarrow> Inl (Msg ''invalid digit found in string'')
      | Some x \<Rightarrow> (case hex_decode s of Inl e \<Rightarrow> Inl e | Inr xs \<Rightarrow> Inr (x # xs)))"
| "hex_decode _ = Inr []"

section \<open>Protecting and unprotecting\<close>

text \<open>\<open>dp_random\<close> fills the 32 bytes of a new entropy.\<close>

record 'w crypt_api =
  dp_protect :: "u8 list \<Rightarrow> u8 list \<Rightarrow> 'w \<Rightarrow> (string + u8 list) \<times> 'w"
  dp_unprotect :: "u8 list \<Rightarrow> u8 list \<Rightarrow> 'w \<Rightarrow> (string + u8 list) \<times> 'w"
  dp_random :: "'w \<Rightarrow> u8 list \<times> 'w"
  dp_base64 :: base64

text \<open>The value is read into a buffer of 32 bytes in one call.\<close>

definition ensure_entropy :: "'w reg_api \<Rightarrow> 'w crypt_api \<Rightarrow> 'w \<Rightarrow> (u8 list, 'w) outcome" where
  "ensure_entropy R C w =
     (let ((ret, kind, buf, size), w) = rg_get R entropy_len entropy_key entropy_value w
      in if ret = 0 \<and> size = entropy_len then (Inr buf, w)
         else
           (let (entropy, w) = dp_random C w; (ret, w) = rg_create R entropy_key w
            in if ret \<noteq> 0 then (Inl (win32_err ''RegCreateKeyExW'' ret), w)
               else (let (ret, w) = rg_set R entropy_key entropy_value (reg_binary, entropy) w;
                         (closed, w) = rg_close R entropy_key w
                     in (if ret \<noteq> 0 then Inl (win32_err ''RegSetValueExW'' ret)
                         else if closed \<noteq> 0 then Inl (win32_err ''RegCloseKey'' closed)
                         else Inr entropy, w))))"

definition delete_entropy :: "'w reg_api \<Rightarrow> 'w \<Rightarrow> (unit, 'w) outcome" where
  "delete_entropy R w =
     (case rg_delete_tree R entropy_key w of (ret, w) \<Rightarrow>
        (if ret \<noteq> 0 \<and> ret \<noteq> 2 then Inl (win32_err ''RegDeleteTreeW'' ret) else Inr (), w))"

definition protect :: "'w reg_api \<Rightarrow> 'w crypt_api \<Rightarrow> string \<Rightarrow> 'w \<Rightarrow> (string, 'w) outcome" where
  "protect R C plain w =
     then_do (ensure_entropy R C w) (\<lambda>entropy w.
       (case dp_protect C (bytes_of plain) entropy w of
          (Inl e, w) \<Rightarrow> (Inl (Msg (''CryptProtectData failed: '' @ e)), w)
        | (Inr protected, w) \<Rightarrow> (Inr (wrap_blob (dp_base64 C) (hex_encode entropy) protected), w)))"

definition unprotect :: "'w crypt_api \<Rightarrow> string \<Rightarrow> 'w \<Rightarrow> (string, 'w) outcome" where
  "unprotect C blob w =
     (case unwrap_blob (dp_base64 C) blob of
        None \<Rightarrow> (Inl (Msg ''Invalid blob format (expected GDUT1:<hex>:<base64>)''), w)
      | Some (entropy_hex, protected) \<Rightarrow>
          (case hex_decode entropy_hex of
             Inl e \<Rightarrow> (Inl e, w)
           | Inr entropy \<Rightarrow>
               (case dp_unprotect C protected entropy w of
                  (Inl e, w) \<Rightarrow> (Inl (Msg (''CryptUnprotectData failed: '' @ e)), w)
                | (Inr plain, w) \<Rightarrow>
                    (if utf8_valid plain then Inr (string_of plain)
                     else Inl (Msg ''Decrypted result is not valid UTF-8''), w))))"

section \<open>The password comes back\<close>

lemma hex_char_props:
  assumes "n < 16"
  shows "is_hexdigit (hex_char n)" "ascii_lower (hex_char n) = hex_char n" "hex_value (hex_char n) = Some n"
    "hex_char n \<noteq> CHR '':''" "hex_char n \<noteq> CHR ''+''"
proof -
  have "\<forall>n \<in> set [0..<16]. is_hexdigit (hex_char n) \<and> ascii_lower (hex_char n) = hex_char n
      \<and> hex_value (hex_char n) = Some n"
    by (simp add: upt_conv_Cons is_hexdigit_def hex_char_def ascii_lower_def hex_value_def)
  then show "is_hexdigit (hex_char n)" "ascii_lower (hex_char n) = hex_char n" "hex_value (hex_char n) = Some n"
    using assms by simp_all
  moreover have "\<not> is_hexdigit (CHR '':'')" "\<not> is_hexdigit (CHR ''+'')" by (simp_all add: is_hexdigit_def)
  ultimately show "hex_char n \<noteq> CHR '':''" "hex_char n \<noteq> CHR ''+''" by metis+
qed

lemma nibbles: "unat (b::u8) div 16 < 16" "unat b mod 16 < 16" "16 * (unat b div 16) + unat b mod 16 = unat b"
  using unat_u8_less [of b] by auto

lemma hex_encode_props:
  "length (hex_encode bs) = 2 * length bs" "list_all is_hexdigit (hex_encode bs)"
  "to_ascii_lowercase (hex_encode bs) = hex_encode bs" "CHR '':'' \<notin> set (hex_encode bs)"
  by (induction bs) (auto simp: hex_encode_def to_ascii_lowercase_def hex_char_props [OF nibbles(1)]
    hex_char_props [OF nibbles(2)] hex_char_props(4) [OF nibbles(1), symmetric] hex_char_props(4) [OF nibbles(2), symmetric])

lemma hex_byte_encode: "hex_byte (hex_char (unat b div 16)) (hex_char (unat b mod 16)) = Some b"
  using nibbles [of b] by (simp add: hex_byte_def hex_char_props)

lemma hex_decode_encode: "hex_decode (hex_encode bs) = Inr bs"
  by (induction bs) (simp_all add: hex_encode_def hex_byte_encode)

interpretation hex: codec hex_encode "\<lambda>s. case hex_decode s of Inr b \<Rightarrow> Some b | Inl _ \<Rightarrow> None" "\<lambda>_. True"
  by unfold_locales (simp add: hex_decode_encode)

lemma unwrap_wrap:
  assumes "b64_decode B (b64_encode B p) = Some p" "p \<noteq> []" "e \<noteq> []"
  shows "unwrap_blob B (wrap_blob B (hex_encode e) p) = Some (hex_encode e, p)"
proof -
  let ?x = "b64_encode B p"
  have "split_once (CHR '':'') (hex_encode e @ '':'' @ ?x) = Some (hex_encode e, ?x)"
    by (simp add: split_once_Some hex_encode_props)
  moreover have "hex_encode e \<noteq> []" using assms(3) hex_encode_props(1) [of e] by auto
  ultimately show ?thesis using assms(1,2) hex_encode_props [of e] by (simp add: unwrap_blob_def wrap_blob_def)
qed

text \<open>
  What the code relies on: base64 is read back, Windows decrypts what it has encrypted with the same
  entropy, on this or any later state of the machine, an encryption is never empty, and buffers have the
  length that was asked for.
\<close>

definition crypt_laws :: "'w reg_api \<Rightarrow> 'w crypt_api \<Rightarrow> bool" where
  "crypt_laws R C \<longleftrightarrow>
     (\<forall>p. b64_decode (dp_base64 C) (b64_encode (dp_base64 C) p) = Some p)
   \<and> (\<forall>p e w c w1. dp_protect C p e w = (Inr c, w1) \<longrightarrow> c \<noteq> [] \<and> (\<forall>w2. fst (dp_unprotect C c e w2) = Inr p))
   \<and> (\<forall>w. length (fst (dp_random C w)) = entropy_len)
   \<and> (\<forall>m k n w. length (fst (snd (snd (fst (rg_get R m k n w))))) = m)"

lemma unprotect_protect:
  assumes "crypt_laws R C" and "protect R C plain w = (Inr blob, w1)" and "utf8_valid (bytes_of plain)"
  shows "\<exists>w3. unprotect C blob w2 = (Inr plain, w3)"
proof -
  from assms(2) obtain entropy wa where e: "ensure_entropy R C w = (Inr entropy, wa)"
    and k: "(case dp_protect C (bytes_of plain) entropy wa of
      (Inl e, w) \<Rightarrow> (Inl (Msg (''CryptProtectData failed: '' @ e)), w)
      | (Inr c, w) \<Rightarrow> (Inr (wrap_blob (dp_base64 C) (hex_encode entropy) c), w)) = (Inr blob, w1)"
    by (auto simp: protect_def then_do_Inr)
  obtain r wb where r: "dp_protect C (bytes_of plain) entropy wa = (r, wb)" by force
  from k obtain c where c: "dp_protect C (bytes_of plain) entropy wa = (Inr c, w1)"
    and blob: "blob = wrap_blob (dp_base64 C) (hex_encode entropy) c"
    using r by (cases r) auto
  have laws: "length (fst (dp_random C v)) = entropy_len" "length (fst (snd (snd (fst (rg_get R m k n v))))) = m"
    "b64_decode (dp_base64 C) (b64_encode (dp_base64 C) p) = Some p" for v m k n p
    using assms(1) unfolding crypt_laws_def by blast+
  have "length entropy = entropy_len"
  proof -
    obtain ret kind buf size wb where g: "rg_get R entropy_len entropy_key entropy_value w = ((ret, kind, buf, size), wb)"
      by (metis prod.exhaust)
    then have "length buf = entropy_len" using laws(2) [of entropy_len entropy_key entropy_value w] by simp
    moreover obtain r wc where r: "dp_random C wb = (r, wc)" by force
    then have "length r = entropy_len" using laws(1) [of wb] by simp
    ultimately show ?thesis using e g r by (auto simp: ensure_entropy_def Let_def split: if_splits prod.splits)
  qed
  then have ne: "entropy \<noteq> []" by (auto simp: entropy_len_def)
  have d: "c \<noteq> []" "fst (dp_unprotect C c entropy w2) = Inr (bytes_of plain)"
    using assms(1) c unfolding crypt_laws_def by blast+
  obtain w3 where "dp_unprotect C c entropy w2 = (Inr (bytes_of plain), w3)"
    using d(2) by (cases "dp_unprotect C c entropy w2") simp
  then have "unprotect C blob w2 = (Inr plain, w3)"
    using assms(3) by (simp add: unprotect_def blob unwrap_wrap [OF laws(3) d(1) ne] hex_decode_encode)
  then show ?thesis by blast
qed

text \<open>
  A stored password can always be read back: what \<open>protect\<close> made of a password,
  \<open>unprotect\<close> turns into the same password at any later time, even when the entropy in the registry has
  been deleted or replaced meanwhile, for the blob carries it.
\<close>

theorem password_comes_back:
  assumes "crypt_laws R C" and "protect R C plain w = (Inr blob, w1)" and "utf8_valid (bytes_of plain)"
  shows "\<exists>w3. unprotect C blob w2 = (Inr plain, w3)"
  by (rule unprotect_protect [OF assms])

text \<open>A machine for the witness: encryption appends a byte, base64 writes the bytes as they are.\<close>

definition demo_crypt :: "regs crypt_api" where
  "demo_crypt =
     \<lparr>dp_protect = \<lambda>p e w. (Inr (p @ [0]), w), dp_unprotect = \<lambda>c e w. (Inr (butlast c), w),
      dp_random = \<lambda>w. (replicate 32 7, w), dp_base64 = \<lparr>b64_encode = string_of, b64_decode = \<lambda>s. Some (bytes_of s)\<rparr>\<rparr>"

text \<open>A registry in which the entropy cannot be found.\<close>

definition demo_reg :: "regs reg_api" where
  "demo_reg = plain_registry\<lparr>rg_get := \<lambda>m k n w. ((2, 0, replicate m 0, 0), w)\<rparr>"

theorem password_comes_back_witness:
  "\<exists>blob w1 w3. protect demo_reg demo_crypt ''pw'' demo_regs = (Inr blob, w1)
    \<and> unprotect demo_crypt blob (\<lambda>_. None) = (Inr ''pw'', w3)"
proof -
  have l: "crypt_laws demo_reg demo_crypt"
    by (simp add: crypt_laws_def demo_reg_def demo_crypt_def entropy_len_def)
  obtain blob w1 where p: "protect demo_reg demo_crypt ''pw'' demo_regs = (Inr blob, w1)"
    by (simp add: protect_def ensure_entropy_def demo_reg_def demo_crypt_def demo_regs_def entropy_key_def
        backslash_def Let_def)
  have "utf8_valid (bytes_of ''pw'')" by (simp add: bytes_of_def)
  from password_comes_back [OF l p this] p show ?thesis by blast
qed

end
