(* ===== verification/Service_Control.thy ===== *)
theory Service_Control
  imports Files Ras
begin

text \<open>
  The service manager part of \<open>src/src/service.rs\<close>, and the pure modules \<open>src/src/cmdline.rs\<close> and
  \<open>src/src/home_mode.rs\<close> it uses. The service manager and the clock are an argument; a call returns the
  text of its error. Access rights are part of the calls. The path, the duration or the advice at the end of a
  message is left out of it.
\<close>

section \<open>Command lines and home mode\<close>

fun until_ascii_ws :: "string \<Rightarrow> string" where
  "until_ascii_ws [] = []"
| "until_ascii_ws (c # s) = (if is_ascii_ws c then [] else c # until_ascii_ws s)"

definition first_token :: "string \<Rightarrow> string" where
  "first_token line =
     (case strip_prefix [CHR 34] line of
        Some rest \<Rightarrow> (case split_once (CHR 34) rest of Some (token, _) \<Rightarrow> token | None \<Rightarrow> rest)
      | None \<Rightarrow> until_ascii_ws line)"

lemma first_token_quoted: "CHR 34 \<notin> set exe \<Longrightarrow> first_token ([CHR 34] @ exe @ [CHR 34] @ args) = exe"
proof -
  assume q: "CHR 34 \<notin> set exe"
  then have "split_once (CHR 34) (exe @ [CHR 34] @ args) = Some (exe, args)" by (simp add: split_once_Some)
  then show ?thesis by (simp add: first_token_def strip_prefix_def)
qed

lemma first_token_plain:
  "CHR 34 \<notin> set exe \<Longrightarrow> list_all (\<lambda>c. \<not> is_ascii_ws c) exe \<Longrightarrow> first_token (exe @ '' '' @ args) = exe"
proof -
  assume q: "CHR 34 \<notin> set exe" and ws: "list_all (\<lambda>c. \<not> is_ascii_ws c) exe"
  have "until_ascii_ws (exe @ '' '' @ args) = exe" using ws by (induction exe) (auto simp: is_ascii_ws_def)
  moreover have "strip_prefix [CHR 34] (exe @ '' '' @ args) = None" using q by (cases exe) (auto simp: strip_prefix_def)
  ultimately show ?thesis by (simp add: first_token_def)
qed

definition start_auto :: u32 where "start_auto = 2"
definition start_demand :: u32 where "start_demand = 3"
definition start_disabled :: u32 where "start_disabled = 4"

definition tray_should_exit :: "u32 \<Rightarrow> bool \<Rightarrow> bool" where
  "tray_should_exit start_type running \<longleftrightarrow> \<not> running \<and> (start_type = start_demand \<or> start_type = start_disabled)"

section \<open>The service manager\<close>

datatype svc_access = AcQueryConfig | AcQueryStatus | AcStop | AcStart | AcDelete | AcChangeConfig
datatype open_error = OpenMissing | OpenFailed string
datatype create_error = CreateExists | CreateFailed string

text \<open>What \<open>create_service\<close> registers: executable, arguments, start type.\<close>

record svc_info =
  si_exe :: string
  si_args :: "string list"
  si_start :: u32

text \<open>\<open>sc_config\<close> gives the whole command line and the start type; \<open>sc_recovery\<close> the reset period and the delays.\<close>

record 'w scm_api =
  sc_connect :: "bool \<Rightarrow> 'w \<Rightarrow> (string + unit) \<times> 'w"
  sc_open :: "svc_access list \<Rightarrow> 'w \<Rightarrow> (open_error + unit) \<times> 'w"
  sc_status :: "'w \<Rightarrow> (string + svc_state) \<times> 'w"
  sc_config :: "'w \<Rightarrow> (string + string \<times> u32) \<times> 'w"
  sc_start :: "'w \<Rightarrow> (string + unit) \<times> 'w"
  sc_stop :: "'w \<Rightarrow> (string + unit) \<times> 'w"
  sc_delete :: "'w \<Rightarrow> (string + unit) \<times> 'w"
  sc_create :: "svc_info \<Rightarrow> 'w \<Rightarrow> (create_error + unit) \<times> 'w"
  sc_change :: "svc_info \<Rightarrow> 'w \<Rightarrow> (string + unit) \<times> 'w"
  sc_restore :: "string \<Rightarrow> u32 \<Rightarrow> 'w \<Rightarrow> (string + unit) \<times> 'w"
  sc_recovery :: "duration \<Rightarrow> duration list \<Rightarrow> 'w \<Rightarrow> (string + unit) \<times> 'w"
  sc_now :: "'w \<Rightarrow> nat \<times> 'w"
  sc_sleep :: "duration \<Rightarrow> 'w \<Rightarrow> 'w"

definition sys :: "(string + 'a) \<times> 'w \<Rightarrow> ('a, 'w) outcome" where
  "sys r = (case r of (Inl e, w) \<Rightarrow> (Inl (Msg e), w) | (Inr a, w) \<Rightarrow> (Inr a, w))"

lemma sys_Inr [simp]: "sys r = (Inr a, w) \<longleftrightarrow> r = (Inr a, w)"
  by (cases r; cases "fst r") (auto simp: sys_def)

lemma sys_simps [simp]: "sys (Inr a, w) = (Inr a, w)" "sys (Inl e, w) = (Inl (Msg e), w)"
  by (simp_all add: sys_def)

lemma with_ctx_ok [simp]: "with_ctx c (Inr a, w) = (Inr a, w)"
  by (simp add: with_ctx_def)

definition opened :: "(open_error + unit) \<times> 'w \<Rightarrow> (unit, 'w) outcome" where
  "opened r =
     (case r of
        (Inr _, w) \<Rightarrow> (Inr (), w)
      | (Inl OpenMissing, w) \<Rightarrow> (Inl (Msg ''service does not exist''), w)
      | (Inl (OpenFailed e), w) \<Rightarrow> (Inl (Msg e), w))"

lemma opened_Inr [simp]: "opened r = (Inr u, w) \<longleftrightarrow> r = (Inr (), w)"
  by (cases r; cases "fst r") (auto simp: opened_def split: open_error.splits)

definition no_manager :: string where "no_manager = ''Failed to connect to service manager''"

section \<open>Starting and stopping\<close>

definition stop_poll :: duration where "stop_poll = 250 * 10 ^ 6"

text \<open>
  The loop of \<open>stop_service\<close> until the deadline; the number of rounds is bounded by the sleeps that fit
  into the time limit, see \<open>await_stopped_enough\<close>.
\<close>

primrec await_stopped :: "'w scm_api \<Rightarrow> nat \<Rightarrow> nat \<Rightarrow> 'w \<Rightarrow> (unit, 'w) outcome" where
  "await_stopped S 0 deadline w = (Inl (Msg ''Service did not stop within''), w)"
| "await_stopped S (Suc n) deadline w =
     (let (now, w) = sc_now S w
      in if deadline \<le> now then (Inl (Msg ''Service did not stop within''), w)
         else then_do (sys (sc_status S w)) (\<lambda>st w.
           if st = SvStopped then (Inr (), w) else await_stopped S n deadline (sc_sleep S stop_poll w)))"

definition poll_rounds :: "duration \<Rightarrow> nat" where
  "poll_rounds timeout = timeout div stop_poll + 2"

definition stop_service :: "'w scm_api \<Rightarrow> duration \<Rightarrow> 'w \<Rightarrow> (unit, 'w) outcome" where
  "stop_service S timeout w =
     then_do (with_ctx no_manager (sys (sc_connect S False w))) (\<lambda>_ w.
       (case sc_open S [AcQueryStatus, AcStop] w of
          (Inl _, w) \<Rightarrow> (Inr (), w)
        | (Inr _, w) \<Rightarrow>
            then_do (sys (sc_status S w)) (\<lambda>st w.
              if st = SvStopped then (Inr (), w)
              else (let w = snd (sc_stop S w); (now, w) = sc_now S w
                    in await_stopped S (poll_rounds timeout) (now + timeout) w))))"

definition start_service :: "'w scm_api \<Rightarrow> 'w \<Rightarrow> (unit, 'w) outcome" where
  "start_service S w =
     then_do (with_ctx no_manager (sys (sc_connect S False w))) (\<lambda>_ w.
     then_do (with_ctx ''gdut-net service is not installed'' (opened (sc_open S [AcStart, AcQueryStatus] w))) (\<lambda>_ w.
     then_do (sys (sc_status S w)) (\<lambda>st w.
       if st \<noteq> SvRunning then sys (sc_start S w) else (Inr (), w))))"

definition wait_limit :: duration where "wait_limit = from_secs 10"
definition wait_poll :: duration where "wait_poll = 500 * 10 ^ 6"

primrec wait_loop :: "'w scm_api \<Rightarrow> nat \<Rightarrow> nat \<Rightarrow> 'w \<Rightarrow> (unit, 'w) outcome" where
  "wait_loop S 0 start w = (Inl (Msg ''Timed out waiting for service to stop''), w)"
| "wait_loop S (Suc n) start w =
     then_do (sys (sc_status S w)) (\<lambda>st w.
       if st = SvStopped then (Inr (), w)
       else (let (now, w) = sc_now S w
             in if wait_limit \<le> now - start then (Inl (Msg ''Timed out waiting for service to stop''), w)
                else wait_loop S n start (sc_sleep S wait_poll w)))"

definition wait_stopped :: "'w scm_api \<Rightarrow> 'w \<Rightarrow> (unit, 'w) outcome" where
  "wait_stopped S w = (let (start, w) = sc_now S w in wait_loop S 22 start w)"

section \<open>Registration\<close>

text \<open>The registered service is stopped for up to twenty rounds before its configuration is replaced.\<close>

primrec settle_stopped :: "'w scm_api \<Rightarrow> nat \<Rightarrow> 'w \<Rightarrow> (unit, 'w) outcome" where
  "settle_stopped S 0 w = (Inr (), w)"
| "settle_stopped S (Suc n) w =
     then_do (sys (sc_status S w)) (\<lambda>st w.
       if st = SvStopped then (Inr (), w) else settle_stopped S n (sc_sleep S wait_poll w))"

definition service_info :: "string \<Rightarrow> string \<Rightarrow> svc_info" where
  "service_info cfg_path service_exe =
     \<lparr>si_exe = service_exe, si_args = [''--config'', cfg_path, ''run''], si_start = start_auto\<rparr>"

definition refresh_service :: "'w scm_api \<Rightarrow> svc_info \<Rightarrow> 'w \<Rightarrow> (bool, 'w) outcome" where
  "refresh_service S info w =
     then_do (with_ctx ''Service already exists, failed to open'' (opened (sc_open S [AcChangeConfig, AcQueryStatus] w)))
       (\<lambda>_ w. then_do (settle_stopped S 20 (snd (sc_stop S w))) (\<lambda>_ w.
         then_do (with_ctx ''Service already exists, failed to update config'' (sys (sc_change S info w)))
           (\<lambda>_ w. (Inr True, w))))"

definition create_service :: "'w scm_api \<Rightarrow> string \<Rightarrow> string \<Rightarrow> 'w \<Rightarrow> (bool, 'w) outcome" where
  "create_service S cfg_path service_exe w =
     then_do (with_ctx ''Failed to connect to service manager (administrator required)'' (sys (sc_connect S True w)))
       (\<lambda>_ w. (case sc_create S (service_info cfg_path service_exe) w of
          (Inr _, w) \<Rightarrow> (Inr False, w)
        | (Inl CreateExists, w) \<Rightarrow> refresh_service S (service_info cfg_path service_exe) w
        | (Inl (CreateFailed e), w) \<Rightarrow> (Inl (Ctx ''Failed to create service'' (Msg e)), w)))"

definition restore_service_path :: "'w scm_api \<Rightarrow> string \<Rightarrow> string \<Rightarrow> 'w \<Rightarrow> (unit, 'w) outcome" where
  "restore_service_path S cfg_path service_exe w =
     then_do (create_service S cfg_path service_exe w) (\<lambda>_ w. (Inr (), w))"

definition delete_service :: "'w scm_api \<Rightarrow> 'w \<Rightarrow> (unit, 'w) outcome" where
  "delete_service S w =
     then_do (sys (sc_connect S False w)) (\<lambda>_ w.
       (case sc_open S [AcDelete] w of
          (Inr _, w) \<Rightarrow> with_ctx ''Failed to delete service'' (sys (sc_delete S w))
        | (Inl OpenMissing, w) \<Rightarrow> (Inr (), w)
        | (Inl (OpenFailed e), w) \<Rightarrow> (Inl (Ctx ''Failed to open service for rollback deletion'' (Msg e)), w)))"

definition restore_previous_service :: "'w scm_api \<Rightarrow> string \<Rightarrow> u32 \<Rightarrow> 'w \<Rightarrow> (unit, 'w) outcome" where
  "restore_previous_service S command start_type w =
     then_do (sys (sc_connect S False w)) (\<lambda>_ w.
     then_do (opened (sc_open S [AcChangeConfig] w)) (\<lambda>_ w. sys (sc_restore S command start_type w)))"

definition reset_period :: duration where "reset_period = from_secs 86400"

definition set_recovery_actions :: "'w scm_api \<Rightarrow> 'w \<Rightarrow> (unit, 'w) outcome" where
  "set_recovery_actions S w =
     then_do (with_ctx no_manager (sys (sc_connect S False w))) (\<lambda>_ w.
     then_do (with_ctx ''Failed to open service for CHANGE_CONFIG'' (opened (sc_open S [AcChangeConfig] w))) (\<lambda>_ w.
       with_ctx ''Failed to update service failure actions''
         (sys (sc_recovery S reset_period (map from_secs [5, 30, 60]) w))))"

section \<open>The state before an installation, and the way back\<close>

datatype prev_service = PrevNone | PrevKnown string u32 bool | PrevUnknown

definition capture_prev_service :: "'w scm_api \<Rightarrow> 'w \<Rightarrow> prev_service \<times> 'w" where
  "capture_prev_service S w =
     (case sc_connect S False w of
        (Inl _, w) \<Rightarrow> (PrevUnknown, w)
      | (Inr _, w) \<Rightarrow>
          (case sc_open S [AcQueryConfig, AcQueryStatus] w of
             (Inr _, w) \<Rightarrow>
               (let (config, w) = sc_config S w; (status, w) = sc_status S w
                in (case (config, status) of
                      (Inr (command, start_type), Inr st) \<Rightarrow>
                        if st = SvRunning \<or> st = SvStopped then PrevKnown command start_type (st = SvRunning)
                        else PrevUnknown
                    | _ \<Rightarrow> PrevUnknown, w))
           | (Inl OpenMissing, w) \<Rightarrow> (PrevNone, w)
           | (Inl (OpenFailed _), w) \<Rightarrow> (PrevUnknown, w)))"

datatype rollback_outcome = NotNeeded | Restored | RestoredUnknown | RollbackFailed err

definition rollback_install :: "'w scm_api \<Rightarrow> prev_service \<Rightarrow> 'w \<Rightarrow> rollback_outcome \<times> 'w" where
  "rollback_install S prev w =
     (case prev of
        PrevUnknown \<Rightarrow>
          (case start_service S w of
             (Inr _, w) \<Rightarrow> (RestoredUnknown, w)
           | (Inl e, w) \<Rightarrow> (RollbackFailed (Ctx ''registration unchanged, but the start failed'' e), w))
      | PrevNone \<Rightarrow>
          (case delete_service S w of
             (Inr _, w) \<Rightarrow> (Restored, w) | (Inl e, w) \<Rightarrow> (RollbackFailed e, w))
      | PrevKnown command start_type was_running \<Rightarrow>
          (case then_do (restore_previous_service S command start_type w)
                  (\<lambda>_ w. if was_running then start_service S w else (Inr (), w)) of
             (Inr _, w) \<Rightarrow> (Restored, w)
           | (Inl e, w) \<Rightarrow> (RollbackFailed (Ctx ''Failed to restore previous service'' e), w)))"

definition rollback_line_en :: "rollback_outcome \<Rightarrow> err option" where
  "rollback_line_en outcome =
     (case outcome of
        NotNeeded \<Rightarrow> None
      | Restored \<Rightarrow> Some (Msg ''Rolled back to the previous service.'')
      | RestoredUnknown \<Rightarrow>
          Some (Msg ''Service existed but its path was unreadable; registration untouched, service restarted.'')
      | RollbackFailed r \<Rightarrow> Some (Ctx ''ROLLBACK FAILED'' r))"

section \<open>Queries\<close>

definition home_mode_standby :: "'w scm_api \<Rightarrow> 'w \<Rightarrow> bool option \<times> 'w" where
  "home_mode_standby S w =
     (case sc_connect S False w of
        (Inl _, w) \<Rightarrow> (None, w)
      | (Inr _, w) \<Rightarrow>
          (case sc_open S [AcQueryStatus, AcQueryConfig] w of
             (Inl _, w) \<Rightarrow> (None, w)
           | (Inr _, w) \<Rightarrow>
               (let (status, w) = sc_status S w; (config, w) = sc_config S w
                in (Some (tray_should_exit
                      (case config of Inr (_, start_type) \<Rightarrow> start_type | Inl _ \<Rightarrow> start_auto)
                      (case status of Inr st \<Rightarrow> st = SvRunning | Inl _ \<Rightarrow> False)), w))))"

text \<open>The installed version is read from the registry by \<open>version\<close>.\<close>

datatype install_state = NotInstalled | Installed "string option" "string option" | StateUnknown

definition install_state :: "'w scm_api \<Rightarrow> ('w \<Rightarrow> string option \<times> 'w) \<Rightarrow> 'w \<Rightarrow> install_state \<times> 'w" where
  "install_state S version w =
     (case sc_connect S False w of
        (Inl _, w) \<Rightarrow> (StateUnknown, w)
      | (Inr _, w) \<Rightarrow>
          (case sc_open S [AcQueryStatus, AcQueryConfig] w of
             (Inr _, w) \<Rightarrow>
               (let (config, w) = sc_config S w; (ver, w) = version w
                in (Installed (case config of
                        Inr (raw, _) \<Rightarrow> (let exe = first_token raw in if exe = [] then None else Some exe)
                      | Inl _ \<Rightarrow> None) ver, w))
           | (Inl OpenMissing, w) \<Rightarrow> (NotInstalled, w)
           | (Inl (OpenFailed _), w) \<Rightarrow> (StateUnknown, w)))"

section \<open>What the service manager promises\<close>

text \<open>\<open>V w\<close> is the registered service in the world \<open>w\<close>.\<close>

record svc =
  sv_command :: string
  sv_start :: u32
  sv_state :: svc_state

definition same_reg :: "svc option \<Rightarrow> svc option \<Rightarrow> bool" where
  "same_reg a b \<longleftrightarrow> map_option (\<lambda>s. (sv_command s, sv_start s)) a = map_option (\<lambda>s. (sv_command s, sv_start s)) b"

lemma same_reg_refl [simp]: "same_reg a a"
  by (simp add: same_reg_def)

lemma same_reg_trans: "same_reg a b \<Longrightarrow> same_reg b c \<Longrightarrow> same_reg a c"
  by (simp add: same_reg_def)

definition scm_queries :: "'w scm_api \<Rightarrow> ('w \<Rightarrow> svc option) \<Rightarrow> bool" where
  "scm_queries S V \<longleftrightarrow>
     (\<forall>c w r w'. sc_connect S c w = (r, w') \<longrightarrow> V w' = V w)
   \<and> (\<forall>a w r w'. sc_open S a w = (r, w') \<longrightarrow> V w' = V w \<and> (r = Inr () \<longrightarrow> V w \<noteq> None) \<and> (r = Inl OpenMissing \<longrightarrow> V w = None))
   \<and> (\<forall>w r w'. sc_status S w = (r, w') \<longrightarrow> V w' = V w \<and> (\<forall>st. r = Inr st \<longrightarrow> map_option sv_state (V w) = Some st))
   \<and> (\<forall>w r w'. sc_config S w = (r, w') \<longrightarrow> V w' = V w
        \<and> (\<forall>c t. r = Inr (c, t) \<longrightarrow> map_option (\<lambda>s. (sv_command s, sv_start s)) (V w) = Some (c, t)))"

definition scm_changes :: "'w scm_api \<Rightarrow> ('w \<Rightarrow> svc option) \<Rightarrow> bool" where
  "scm_changes S V \<longleftrightarrow>
     (\<forall>w r w'. sc_start S w = (r, w') \<longrightarrow> same_reg (V w') (V w)
        \<and> (r = Inr () \<longrightarrow> (\<exists>s. V w' = Some s \<and> sv_state s \<noteq> SvStopped)))
   \<and> (\<forall>w r w'. sc_delete S w = (r, w') \<longrightarrow> (r = Inr () \<longrightarrow> V w' = None) \<and> (r \<noteq> Inr () \<longrightarrow> V w' = V w))
   \<and> (\<forall>c t w r w'. sc_restore S c t w = (r, w') \<longrightarrow> (r \<noteq> Inr () \<longrightarrow> V w' = V w)
        \<and> (r = Inr () \<longrightarrow> V w' = map_option (\<lambda>s. s\<lparr>sv_command := c, sv_start := t\<rparr>) (V w)))"

definition scm_laws :: "'w scm_api \<Rightarrow> ('w \<Rightarrow> svc option) \<Rightarrow> bool" where
  "scm_laws S V \<longleftrightarrow> scm_queries S V \<and> scm_changes S V"

lemma scm_parts: "scm_laws S V \<Longrightarrow> scm_queries S V" "scm_laws S V \<Longrightarrow> scm_changes S V"
  by (simp_all add: scm_laws_def)

lemmas sc_connect_law = scm_queries_def [THEN iffD1, OF scm_parts(1), THEN conjunct1, rule_format]
lemmas sc_open_law = scm_queries_def [THEN iffD1, OF scm_parts(1), THEN conjunct2, THEN conjunct1, rule_format]
lemmas sc_status_law = scm_queries_def [THEN iffD1, OF scm_parts(1), THEN conjunct2, THEN conjunct2, THEN conjunct1, rule_format]
lemmas sc_config_law = scm_queries_def [THEN iffD1, OF scm_parts(1), THEN conjunct2, THEN conjunct2, THEN conjunct2, rule_format]
lemmas sc_start_law = scm_changes_def [THEN iffD1, OF scm_parts(2), THEN conjunct1, rule_format]
lemmas sc_delete_law = scm_changes_def [THEN iffD1, OF scm_parts(2), THEN conjunct2, THEN conjunct1, rule_format]
lemmas sc_restore_law = scm_changes_def [THEN iffD1, OF scm_parts(2), THEN conjunct2, THEN conjunct2, rule_format]

lemma sys_cases: "sys r = (x, w) \<Longrightarrow> snd r = w \<and> (\<forall>a. x = Inr a \<longleftrightarrow> fst r = Inr a)"
  by (cases r; cases "fst r") (auto simp: sys_def)

lemma start_service_eff:
  assumes "scm_laws S V" "start_service S w = (r, w')"
  shows "same_reg (V w') (V w) \<and> (r = Inr () \<longrightarrow> (\<exists>s. V w' = Some s \<and> sv_state s \<noteq> SvStopped))"
proof -
  obtain a w1 where a: "sc_connect S False w = (a, w1)" by force
  obtain b w2 where b: "sc_open S [AcStart, AcQueryStatus] w1 = (b, w2)" by force
  obtain c w3 where c: "sc_status S w2 = (c, w3)" by force
  obtain d w4 where d: "sc_start S w3 = (d, w4)" by force
  note l = sc_connect_law [OF assms(1) a] sc_open_law [OF assms(1) b] sc_status_law [OF assms(1) c] sc_start_law [OF assms(1) d]
  have "w' = w1 \<and> r \<noteq> Inr () \<or> w' = w2 \<and> r \<noteq> Inr () \<or> w' = w3 \<and> (r \<noteq> Inr () \<or> c = Inr SvRunning)
      \<or> w' = w4 \<and> (r = Inr () \<longleftrightarrow> d = Inr ())"
    using assms(2) a b c d
    by (auto simp: start_service_def with_ctx_def sys_def opened_def then_do_def
        split: sum.splits if_splits open_error.splits)
  with l show ?thesis by auto
qed

lemma delete_service_eff:
  assumes "scm_laws S V" "delete_service S w = (Inr (), w')"
  shows "V w' = None"
proof -
  obtain a w1 where a: "sc_connect S False w = (a, w1)" by force
  obtain b w2 where b: "sc_open S [AcDelete] w1 = (b, w2)" by force
  obtain c w3 where c: "sc_delete S w2 = (c, w3)" by force
  have "b = Inl OpenMissing \<and> w' = w2 \<or> w' = w3 \<and> c = Inr ()"
    using assms(2) a b c by (auto simp: delete_service_def then_do_Inr split: sum.splits open_error.splits)
  with sc_connect_law [OF assms(1) a] sc_open_law [OF assms(1) b] sc_delete_law [OF assms(1) c] show ?thesis by auto
qed

lemma restore_previous_eff:
  assumes "scm_laws S V" "restore_previous_service S c t w = (Inr (), w')"
  shows "\<exists>s. V w = Some s \<and> V w' = Some (s\<lparr>sv_command := c, sv_start := t\<rparr>)"
proof -
  from assms(2) obtain w1 w2 where a: "sc_connect S False w = (Inr (), w1)"
    and b: "sc_open S [AcChangeConfig] w1 = (Inr (), w2)" and d: "sc_restore S c t w2 = (Inr (), w')"
    by (auto simp: restore_previous_service_def then_do_Inr)
  from sc_connect_law [OF assms(1) a] sc_open_law [OF assms(1) b] sc_restore_law [OF assms(1) d] show ?thesis by auto
qed

lemma capture_prev_eff:
  assumes "scm_laws S V" "capture_prev_service S w = (prev, w')"
  shows "V w' = V w \<and> (prev = PrevNone \<longrightarrow> V w = None)
    \<and> (\<forall>c t run. prev = PrevKnown c t run \<longrightarrow>
         V w = Some \<lparr>sv_command = c, sv_start = t, sv_state = (if run then SvRunning else SvStopped)\<rparr>)"
proof -
  obtain a w1 where a: "sc_connect S False w = (a, w1)" by force
  obtain b w2 where b: "sc_open S [AcQueryConfig, AcQueryStatus] w1 = (b, w2)" by force
  obtain c w3 where c: "sc_config S w2 = (c, w3)" by force
  obtain d w4 where d: "sc_status S w3 = (d, w4)" by force
  note l = sc_connect_law [OF assms(1) a] sc_open_law [OF assms(1) b] sc_config_law [OF assms(1) c] sc_status_law [OF assms(1) d]
  have v: "V w' = V w"
    using assms(2) a b c d l by (auto simp: capture_prev_service_def split: sum.splits open_error.splits if_splits)
  have "prev = PrevNone \<longrightarrow> b = Inl OpenMissing"
    using assms(2) a b c d by (auto simp: capture_prev_service_def split: sum.splits open_error.splits if_splits)
  moreover have "prev = PrevKnown x t run \<longrightarrow> c = Inr (x, t) \<and> d = Inr (if run then SvRunning else SvStopped)" for x t run
    using assms(2) a b c d by (auto simp: capture_prev_service_def split: sum.splits open_error.splits if_splits)
  ultimately show ?thesis using v l by (auto simp: svc.equality)
qed

lemma rollback_install_eff:
  assumes "scm_laws S V" and "capture_prev_service S w0 = (prev, w1)" and "rollback_install S prev w2 = (outcome, w3)"
  shows "V w1 = V w0
    \<and> (outcome = Restored \<longrightarrow> same_reg (V w3) (V w0)
         \<and> (\<forall>s0. V w0 = Some s0 \<and> sv_state s0 = SvRunning \<longrightarrow> (\<exists>s3. V w3 = Some s3 \<and> sv_state s3 \<noteq> SvStopped)))
    \<and> (prev = PrevUnknown \<longrightarrow> same_reg (V w3) (V w2) \<and> outcome \<noteq> Restored)"
proof -
  note c = capture_prev_eff [OF assms(1,2)]
  show ?thesis
  proof (cases prev)
    case PrevNone
    with assms(3) have "outcome = Restored \<longrightarrow> delete_service S w2 = (Inr (), w3)"
      by (cases "delete_service S w2"; cases "fst (delete_service S w2)") (auto simp: rollback_install_def)
    with delete_service_eff [OF assms(1)] c PrevNone show ?thesis by auto
  next
    case PrevUnknown
    obtain r w where s: "start_service S w2 = (r, w)" by force
    with assms(3) PrevUnknown have "w3 = w \<and> outcome \<noteq> Restored" by (auto simp: rollback_install_def split: sum.splits)
    with start_service_eff [OF assms(1) s] c PrevUnknown show ?thesis by auto
  next
    case (PrevKnown cmd t run)
    have "outcome = Restored \<Longrightarrow> \<exists>w. restore_previous_service S cmd t w2 = (Inr (), w)
        \<and> (if run then start_service S w = (Inr (), w3) else w3 = w)"
      using assms(3) PrevKnown
      by (auto simp: rollback_install_def then_do_def split: sum.splits prod.splits if_splits)
    moreover have "outcome = Restored \<longrightarrow> same_reg (V w3) (V w0)
        \<and> (run \<longrightarrow> (\<exists>s3. V w3 = Some s3 \<and> sv_state s3 \<noteq> SvStopped))"
    proof
      assume "outcome = Restored"
      with calculation obtain w where w: "restore_previous_service S cmd t w2 = (Inr (), w)"
        and go: "if run then start_service S w = (Inr (), w3) else w3 = w" by blast
      from restore_previous_eff [OF assms(1) w] c PrevKnown have same: "same_reg (V w) (V w0)"
        by (auto simp: same_reg_def)
      show "same_reg (V w3) (V w0) \<and> (run \<longrightarrow> (\<exists>s3. V w3 = Some s3 \<and> sv_state s3 \<noteq> SvStopped))"
      proof (cases run)
        case True
        with go have "start_service S w = (Inr (), w3)" by simp
        from start_service_eff [OF assms(1) this] same show ?thesis by (auto dest: same_reg_trans)
      qed (use go same in simp)
    qed
    ultimately show ?thesis using c PrevKnown by (auto split: if_splits)
  qed
qed

text \<open>
  A rollback that reports \<open>Restored\<close> has put the service back as it was before the
  installation: the same command line and start type, running again if it was running, and no service at
  all if there was none. A service whose registration could not be read beforehand keeps its registration
  whatever happens, and the rollback never claims to have restored it.
\<close>

theorem rollback_restores_service:
  assumes "scm_laws S V" and "capture_prev_service S w0 = (prev, w1)" and "rollback_install S prev w2 = (outcome, w3)"
  shows "V w1 = V w0
    \<and> (outcome = Restored \<longrightarrow> same_reg (V w3) (V w0)
         \<and> (\<forall>s0. V w0 = Some s0 \<and> sv_state s0 = SvRunning \<longrightarrow> (\<exists>s3. V w3 = Some s3 \<and> sv_state s3 \<noteq> SvStopped)))
    \<and> (prev = PrevUnknown \<longrightarrow> same_reg (V w3) (V w2) \<and> outcome \<noteq> Restored)"
  by (rule rollback_install_eff [OF assms])

text \<open>A service manager over the registered service and the time, for the witnesses.\<close>

type_synonym plain_world = "svc option \<times> nat"

definition at_service :: "(svc \<Rightarrow> (string + 'a) \<times> svc option) \<Rightarrow> plain_world \<Rightarrow> (string + 'a) \<times> plain_world" where
  "at_service f w =
     (case fst w of None \<Rightarrow> (Inl ''no service'', w) | Some s \<Rightarrow> (fst (f s), (snd (f s), snd w)))"

definition plain_scm :: "plain_world scm_api" where
  "plain_scm =
     \<lparr>sc_connect = (\<lambda>_ w. (Inr (), w)),
      sc_open = (\<lambda>_ w. (if fst w = None then Inl OpenMissing else Inr (), w)),
      sc_status = at_service (\<lambda>s. (Inr (sv_state s), Some s)),
      sc_config = at_service (\<lambda>s. (Inr (sv_command s, sv_start s), Some s)),
      sc_start = at_service (\<lambda>s. (Inr (), Some (s\<lparr>sv_state := SvRunning\<rparr>))),
      sc_stop = at_service (\<lambda>s. (Inr (), Some (s\<lparr>sv_state := SvStopped\<rparr>))),
      sc_delete = at_service (\<lambda>_. (Inr (), None)),
      sc_create = (\<lambda>i w. case fst w of
          None \<Rightarrow> (Inr (), (Some \<lparr>sv_command = si_exe i, sv_start = si_start i, sv_state = SvStopped\<rparr>, snd w))
        | Some _ \<Rightarrow> (Inl CreateExists, w)),
      sc_change = (\<lambda>i. at_service (\<lambda>s. (Inr (), Some (s\<lparr>sv_command := si_exe i, sv_start := si_start i\<rparr>)))),
      sc_restore = (\<lambda>c t. at_service (\<lambda>s. (Inr (), Some (s\<lparr>sv_command := c, sv_start := t\<rparr>)))),
      sc_recovery = (\<lambda>_ _. at_service (\<lambda>s. (Inr (), Some s))),
      sc_now = (\<lambda>w. (snd w, w)),
      sc_sleep = (\<lambda>d w. (fst w, snd w + d))\<rparr>"

lemma plain_calls:
  "sc_connect plain_scm b w = (Inr (), w)"
  "sc_open plain_scm a w = (if fst w = None then Inl OpenMissing else Inr (), w)"
  "sc_status plain_scm w = at_service (\<lambda>s. (Inr (sv_state s), Some s)) w"
  "sc_stop plain_scm w = at_service (\<lambda>s. (Inr (), Some (s\<lparr>sv_state := SvStopped\<rparr>))) w"
  "sc_now plain_scm w = (snd w, w)"
  by (simp_all add: plain_scm_def)

lemma at_service_iff:
  "at_service f w = (r, w') \<longleftrightarrow>
     (fst w = None \<and> r = Inl ''no service'' \<and> w' = w
      \<or> (\<exists>s. fst w = Some s \<and> r = fst (f s) \<and> w' = (snd (f s), snd w)))"
  by (cases w) (auto simp: at_service_def split: option.splits)

lemma plain_scm_ok: "scm_laws plain_scm fst"
  by (auto simp: scm_laws_def scm_queries_def scm_changes_def plain_scm_def at_service_iff same_reg_def split: if_splits)

theorem rollback_restores_service_witness:
  "case capture_prev_service plain_scm (Some \<lparr>sv_command = ''old.exe'', sv_start = 3, sv_state = SvRunning\<rparr>, 0) of
     (prev, w1) \<Rightarrow> prev = PrevKnown ''old.exe'' 3 True
       \<and> (case rollback_install plain_scm prev (Some \<lparr>sv_command = ''new.exe'', sv_start = 2, sv_state = SvStopped\<rparr>, 5) of
            (outcome, w3) \<Rightarrow> outcome = Restored \<and> same_reg (fst w3) (Some \<lparr>sv_command = ''old.exe'', sv_start = 3, sv_state = SvRunning\<rparr>))"
proof -
  let ?w0 = "(Some \<lparr>sv_command = ''old.exe'', sv_start = 3, sv_state = SvRunning\<rparr>, 0) :: plain_world"
  let ?w2 = "(Some \<lparr>sv_command = ''new.exe'', sv_start = 2, sv_state = SvStopped\<rparr>, 5) :: plain_world"
  have c: "capture_prev_service plain_scm ?w0 = (PrevKnown ''old.exe'' 3 True, ?w0)"
    by (simp add: capture_prev_service_def plain_scm_def at_service_def)
  have r: "rollback_install plain_scm (PrevKnown ''old.exe'' 3 True) ?w2
      = (Restored, (Some \<lparr>sv_command = ''old.exe'', sv_start = 3, sv_state = SvRunning\<rparr>, 5))"
    by (simp add: rollback_install_def restore_previous_service_def start_service_def then_do_def with_ctx_def
        sys_def opened_def plain_scm_def at_service_def)
  from rollback_restores_service [OF plain_scm_ok c r] c r show ?thesis by simp
qed

section \<open>The waits end\<close>

text \<open>\<open>T w\<close> is the time in the world \<open>w\<close>.\<close>

definition clock_laws :: "'w scm_api \<Rightarrow> ('w \<Rightarrow> nat) \<Rightarrow> bool" where
  "clock_laws S T \<longleftrightarrow>
     (\<forall>w now w'. sc_now S w = (now, w') \<longrightarrow> T w \<le> now \<and> now \<le> T w')
   \<and> (\<forall>d w. T w + d \<le> T (sc_sleep S d w))
   \<and> (\<forall>w r w'. sc_status S w = (r, w') \<longrightarrow> T w \<le> T w')
   \<and> (\<forall>b w r w'. sc_connect S b w = (r, w') \<longrightarrow> T w \<le> T w')
   \<and> (\<forall>a w r w'. sc_open S a w = (r, w') \<longrightarrow> T w \<le> T w')
   \<and> (\<forall>w r w'. sc_stop S w = (r, w') \<longrightarrow> T w \<le> T w')"

lemmas clock_now = clock_laws_def [THEN iffD1, THEN conjunct1, rule_format]
lemmas clock_sleep = clock_laws_def [THEN iffD1, THEN conjunct2, THEN conjunct1, rule_format]
lemmas clock_status = clock_laws_def [THEN iffD1, THEN conjunct2, THEN conjunct2, THEN conjunct1, rule_format]
lemmas clock_calls = clock_laws_def [THEN iffD1, THEN conjunct2, THEN conjunct2, THEN conjunct2, rule_format]

lemma plain_clock: "clock_laws plain_scm snd"
  by (auto simp: clock_laws_def plain_scm_def at_service_iff)

lemma rounds_cover: "timeout < (timeout div stop_poll + 1) * stop_poll"
  using dividend_less_div_times [of stop_poll timeout] by (simp add: stop_poll_def)

text \<open>Two budgets that both cover the time left give the same answer.\<close>

lemma await_stopped_enough:
  assumes "clock_laws S T" "deadline \<le> T w + n * stop_poll" "deadline \<le> T w + m * stop_poll"
  shows "await_stopped S (Suc n) deadline w = await_stopped S (Suc m) deadline w"
  using assms(2,3)
proof (induction n arbitrary: m w)
  case 0
  obtain now w' where now: "sc_now S w = (now, w')" by force
  with clock_now [OF assms(1) now] 0 show ?case by simp
next
  case (Suc n)
  obtain now w1 where now: "sc_now S w = (now, w1)" by force
  show ?case
  proof (cases "deadline \<le> now")
    case False
    have t1: "T w \<le> now" "now \<le> T w1" using clock_now [OF assms(1) now] by auto
    with False Suc.prems have "m \<noteq> 0" by (cases m) auto
    then obtain k where m: "m = Suc k" using not0_implies_Suc by blast
    obtain r w2 where st: "sc_status S w1 = (r, w2)" by force
    let ?w = "sc_sleep S stop_poll w2"
    have "T w + stop_poll \<le> T ?w" using clock_sleep [OF assms(1), of w2 stop_poll] clock_status [OF assms(1) st] t1 by linarith
    with Suc.prems m have "await_stopped S (Suc n) deadline ?w = await_stopped S (Suc k) deadline ?w"
      by (intro Suc.IH) auto
    with now st m False show ?thesis by (auto simp: then_do_def sys_def split: sum.splits)
  qed (use now in simp)
qed

lemma wait_loop_enough:
  assumes "clock_laws S T" "start + wait_limit \<le> T w + n * wait_poll" "start + wait_limit \<le> T w + m * wait_poll"
  shows "wait_loop S (Suc n) start w = wait_loop S (Suc m) start w"
  using assms(2,3)
proof (induction n arbitrary: m w)
  case 0
  obtain r w1 where st: "sc_status S w = (r, w1)" by force
  obtain now w2 where now: "sc_now S w1 = (now, w2)" by force
  have "wait_limit \<le> now - start" using clock_status [OF assms(1) st] clock_now [OF assms(1) now] 0 by linarith
  with st now show ?case by (auto simp: then_do_def sys_def split: sum.splits)
next
  case (Suc n)
  obtain r w1 where st: "sc_status S w = (r, w1)" by force
  obtain now w2 where now: "sc_now S w1 = (now, w2)" by force
  have t: "T w \<le> T w1" "T w1 \<le> now" "now \<le> T w2" using clock_status [OF assms(1) st] clock_now [OF assms(1) now] by auto
  show ?case
  proof (cases "wait_limit \<le> now - start")
    case False
    with Suc.prems t have "m \<noteq> 0" by (cases m) auto
    then obtain k where m: "m = Suc k" using not0_implies_Suc by blast
    have "T w + wait_poll \<le> T (sc_sleep S wait_poll w2)" using clock_sleep [OF assms(1), of w2 wait_poll] t by linarith
    with Suc.prems m have "wait_loop S (Suc n) start (sc_sleep S wait_poll w2) = wait_loop S (Suc k) start (sc_sleep S wait_poll w2)"
      by (intro Suc.IH) auto
    with now st m False show ?thesis by (auto simp: then_do_def sys_def split: sum.splits)
  qed (use st now in \<open>auto simp: then_do_def sys_def split: sum.splits\<close>)
qed

text \<open>
  The polling loops come to an end on their own: the rounds allotted to
  \<open>stop_service\<close> for its time limit and to \<open>wait_stopped\<close> for its ten seconds are never used up, so
  any larger number of rounds gives the same answer and the same final state.
\<close>

theorem polling_ends_by_the_clock:
  assumes "clock_laws S T" and "sc_now S w = (now, w1)" and "poll_rounds timeout \<le> k" and "22 \<le> j"
  shows "await_stopped S k (now + timeout) w1 = await_stopped S (poll_rounds timeout) (now + timeout) w1
    \<and> wait_loop S j now w1 = wait_stopped S w"
proof -
  have t: "now \<le> T w1" using clock_now [OF assms(1,2)] by simp
  have k: "k = Suc (k - 1)" "timeout div stop_poll + 1 \<le> k - 1" using assms(3) by (auto simp: poll_rounds_def)
  have "timeout < (timeout div stop_poll + 1) * stop_poll" by (rule rounds_cover)
  moreover have "(timeout div stop_poll + 1) * stop_poll \<le> (k - 1) * stop_poll" using k by (intro mult_right_mono) auto
  ultimately have "await_stopped S (Suc (k - 1)) (now + timeout) w1
      = await_stopped S (Suc (timeout div stop_poll + 1)) (now + timeout) w1"
    by (intro await_stopped_enough [OF assms(1)]) (use t in linarith)+
  moreover have "wait_loop S (Suc (j - 1)) now w1 = wait_loop S (Suc 21) now w1"
    using t assms(4) by (intro wait_loop_enough [OF assms(1)]) (auto simp: wait_limit_def wait_poll_def from_secs_def)
  moreover have "j = Suc (j - 1)" using assms(4) by simp
  ultimately show ?thesis using k assms(2) by (simp add: poll_rounds_def wait_stopped_def)
qed

theorem polling_ends_by_the_clock_witness:
  "await_stopped plain_scm 500 (from_secs 2) (Some \<lparr>sv_command = [], sv_start = 2, sv_state = SvRunning\<rparr>, 0)
     = await_stopped plain_scm (poll_rounds (from_secs 2)) (from_secs 2) (Some \<lparr>sv_command = [], sv_start = 2, sv_state = SvRunning\<rparr>, 0)"
  using polling_ends_by_the_clock [OF plain_clock, of "(Some \<lparr>sv_command = [], sv_start = 2, sv_state = SvRunning\<rparr>, 0)" 0
      "(Some \<lparr>sv_command = [], sv_start = 2, sv_state = SvRunning\<rparr>, 0)" "from_secs 2" 500 22]
  by (simp add: plain_scm_def poll_rounds_def from_secs_def stop_poll_def)

section \<open>What a stop promises\<close>

text \<open>A service manager that answers: a registered service can be opened and asked, and stays registered while it is stopped.\<close>

definition answering :: "'w scm_api \<Rightarrow> ('w \<Rightarrow> svc option) \<Rightarrow> bool" where
  "answering S V \<longleftrightarrow>
     (\<forall>c w. fst (sc_connect S c w) = Inr ())
   \<and> (\<forall>a w. V w \<noteq> None \<longrightarrow> fst (sc_open S a w) = Inr ())
   \<and> (\<forall>w. V w \<noteq> None \<longrightarrow> (\<exists>st. fst (sc_status S w) = Inr st))
   \<and> (\<forall>w r w'. sc_stop S w = (r, w') \<longrightarrow> same_reg (V w') (V w))
   \<and> (\<forall>w now w'. sc_now S w = (now, w') \<longrightarrow> V w' = V w)
   \<and> (\<forall>d w. same_reg (V (sc_sleep S d w)) (V w))"

lemma same_reg_None: "same_reg a b \<Longrightarrow> a = None \<longleftrightarrow> b = None"
  by (cases a; cases b) (simp_all add: same_reg_def)

lemma await_stopped_eff:
  assumes l: "scm_laws S V" "clock_laws S T" "answering S V"
    and "V w \<noteq> None" "deadline \<le> T w + n * stop_poll" "await_stopped S (Suc n) deadline w = (r, w')"
  shows "(r = Inr () \<and> (\<exists>s. V w' = Some s \<and> sv_state s = SvStopped))
    \<or> (r = Inl (Msg ''Service did not stop within'') \<and> deadline \<le> T w')"
  using assms(4-6)
proof (induction n arbitrary: w)
  case 0
  obtain now w1 where now: "sc_now S w = (now, w1)" by force
  with clock_now [OF l(2) now] 0 show ?case by auto
next
  case (Suc n)
  obtain now w1 where now: "sc_now S w = (now, w1)" by force
  have t1: "T w \<le> now" "now \<le> T w1" using clock_now [OF l(2) now] by auto
  have v1: "V w1 = V w" using l(3) now by (auto simp: answering_def)
  obtain c w2 where st: "sc_status S w1 = (c, w2)" by force
  with l(3) Suc.prems(1) v1 obtain x where x: "c = Inr x" unfolding answering_def by (metis fst_conv)
  from sc_status_law [OF l(1) st] x v1 have v2: "V w2 = V w" "map_option sv_state (V w) = Some x" by auto
  let ?w = "sc_sleep S stop_poll w2"
  have "T w + stop_poll \<le> T ?w" using clock_sleep [OF l(2), of w2 stop_poll] clock_status [OF l(2) st] t1 by linarith
  with Suc.prems have d: "deadline \<le> T ?w + n * stop_poll" by simp
  have "same_reg (V ?w) (V w2)" using l(3) unfolding answering_def by blast
  with v2 Suc.prems(1) have v3: "V ?w \<noteq> None" using same_reg_None by metis
  note ih = Suc.IH [OF v3 d]
  show ?case
  proof (cases "deadline \<le> now \<or> x = SvStopped")
    case True
    with Suc.prems(3) now st x v2 t1 show ?thesis by (auto simp: then_do_def sys_def split: if_splits)
  next
    case False
    with Suc.prems(3) now st x have "await_stopped S (Suc n) deadline ?w = (r, w')" by (simp add: then_do_def sys_def)
    then show ?thesis by (rule ih)
  qed
qed

text \<open>
  Stopping the service gives one of two answers when the service manager answers its calls.
  It succeeds, and then no service is running: there is none, or it is stopped. Or it reports that the
  service did not stop in time, and then the whole time limit has passed.
\<close>

theorem stop_service_stops_or_times_out:
  assumes "scm_laws S V" and "clock_laws S T" and "answering S V"
    and "stop_service S timeout w = (r, w')"
  shows "(r = Inr () \<and> (\<forall>s. V w' = Some s \<longrightarrow> sv_state s = SvStopped))
    \<or> (r = Inl (Msg ''Service did not stop within'') \<and> T w + timeout \<le> T w')"
proof -
  obtain a w1 where a: "sc_connect S False w = (a, w1)" by force
  have ai: "a = Inr ()" using assms(3) a unfolding answering_def by (metis fst_conv)
  obtain b w2 where b: "sc_open S [AcQueryStatus, AcStop] w1 = (b, w2)" by force
  obtain c w3 where c: "sc_status S w2 = (c, w3)" by force
  obtain e w4 where e: "sc_stop S w3 = (e, w4)" by force
  obtain now w5 where now: "sc_now S w4 = (now, w5)" by force
  have v: "V w1 = V w" "V w2 = V w" "V w3 = V w"
    using sc_connect_law [OF assms(1) a] sc_open_law [OF assms(1) b] sc_status_law [OF assms(1) c] by auto
  have v5: "V w5 = V w4" "same_reg (V w4) (V w3)" using assms(3) e now unfolding answering_def by blast+
  have t: "T w \<le> now" "now \<le> T w5"
    using clock_calls [OF assms(2)] clock_status [OF assms(2) c] clock_now [OF assms(2) now] a b e by (meson order_trans)+
  show ?thesis
  proof (cases "V w")
    case None
    with sc_open_law [OF assms(1) b] v have "b \<noteq> Inr ()" by simp
    with assms(4) a ai b have "r = Inr () \<and> w' = w2" by (cases b) (auto simp: stop_service_def)
    with None v show ?thesis by simp
  next
    case (Some s)
    have bi: "b = Inr ()" using assms(3) b Some v unfolding answering_def by (metis fst_conv option.simps(3))
    obtain x where x: "c = Inr x" using assms(3) c Some v unfolding answering_def by (metis fst_conv option.simps(3))
    show ?thesis
    proof (cases "x = SvStopped")
      case True
      with assms(4) a ai b bi c x have "r = Inr () \<and> w' = w3" by (simp add: stop_service_def)
      with sc_status_law [OF assms(1) c] x True Some v show ?thesis by simp
    next
      case False
      with assms(4) a ai b bi c x e now
      have "await_stopped S (Suc (timeout div stop_poll + 1)) (now + timeout) w5 = (r, w')"
        by (simp add: stop_service_def poll_rounds_def)
      moreover have "timeout < (timeout div stop_poll + 1) * stop_poll" by (rule rounds_cover)
      moreover have "V w5 \<noteq> None" using v5 v Some same_reg_None by (metis option.simps(3))
      ultimately show ?thesis using await_stopped_eff [OF assms(1-3), of w5 "now + timeout" "timeout div stop_poll + 1" r w'] t
        by (auto intro: order_trans)
    qed
  qed
qed

lemma plain_answering: "answering plain_scm fst"
  by (auto simp: answering_def plain_scm_def at_service_iff at_service_def same_reg_def split: option.splits)

theorem stop_service_stops_or_times_out_witness:
  "let w = (Some \<lparr>sv_command = [], sv_start = 2, sv_state = SvRunning\<rparr>, 0); w' = snd (stop_service plain_scm (from_secs 2) w)
   in fst (stop_service plain_scm (from_secs 2) w) = Inr () \<and> (\<forall>s\<in>set_option (fst w'). sv_state s = SvStopped)"
proof -
  let ?w = "(Some \<lparr>sv_command = [], sv_start = 2, sv_state = SvRunning\<rparr>, 0) :: plain_world"
  let ?w' = "(Some \<lparr>sv_command = [], sv_start = 2, sv_state = SvStopped\<rparr>, 0) :: plain_world"
  have rounds: "poll_rounds (from_secs 2) = Suc 9" by (simp add: poll_rounds_def from_secs_def stop_poll_def)
  have "await_stopped plain_scm (poll_rounds (from_secs 2)) (from_secs 2) ?w' = (Inr (), ?w')"
    unfolding rounds await_stopped.simps by (simp add: plain_calls at_service_def from_secs_def)
  then have r: "stop_service plain_scm (from_secs 2) ?w = (Inr (), ?w')"
    by (simp add: stop_service_def plain_calls at_service_def)
  from stop_service_stops_or_times_out [OF plain_scm_ok plain_clock plain_answering r] r show ?thesis by simp
qed

end
