(* ===== verification/Install.thy ===== *)
theory Install
  imports Service_Control File_Backup Crypto Config
begin

text \<open>
  The installation part of \<open>src/src/service.rs\<close>: \<open>install_core\<close>, the backup of what it changes, and
  \<open>install_with_rollback\<close>. It works on a machine, a disk with everything else that Windows keeps; the
  registry, the service manager, encryption and RAS are arguments, as in the theories of these parts.
\<close>

section \<open>The machine\<close>

record 'x machine =
  mc_disk :: disk
  mc_rest :: 'x

definition on_disk :: "(disk \<Rightarrow> 'a \<times> disk) \<Rightarrow> 'x machine \<Rightarrow> 'a \<times> 'x machine" where
  "on_disk f w = (case f (mc_disk w) of (a, d) \<Rightarrow> (a, w\<lparr>mc_disk := d\<rparr>))"

text \<open>
  \<open>ho_check_entry\<close> is \<open>RasValidateEntryNameW\<close>, \<open>ho_clear\<close> is \<open>RasSetCredentialsW\<close> clearing; the TOML
  codec gives \<open>None\<close> for an error.
\<close>

record 'w host =
  ho_scm :: "'w scm_api"
  ho_reg :: "'w reg_api"
  ho_crypt :: "'w crypt_api"
  ho_ras :: "'w ras_api"
  ho_check_entry :: "wstr \<Rightarrow> wstr \<Rightarrow> 'w \<Rightarrow> u32 \<times> 'w"
  ho_clear :: "wstr \<Rightarrow> wstr \<Rightarrow> 'w \<Rightarrow> u32 \<times> 'w"
  ho_from_toml :: "string \<Rightarrow> config option"
  ho_to_toml :: "config \<Rightarrow> string option"

section \<open>The configuration on the disk\<close>

definition config_text :: "config_error \<Rightarrow> string" where
  "config_text e =
     (case e of
        StudentIdEmpty \<Rightarrow> ''account.student_id must not be empty''
      | BadHeartbeatModule m \<Rightarrow> ''heartbeat.module only supports gdut, got '' @ m
      | ProbeIntervalTooSmall \<Rightarrow> ''dial.probe_interval_secs must be >= 5''
      | BadHttpProbeUrl u \<Rightarrow> ''dial.http_probe_url must be http:// + IPv4 literal (with optional port), got '' @ u
      | BadPortalUrl u \<Rightarrow> ''wireless.portal_url must be http:// + IPv4 literal (with optional port), got '' @ u
      | BadProbeHost h \<Rightarrow> ''wireless.probe_host must be an IPv4 literal, got '' @ h
      | BadDebounce \<Rightarrow> ''wireless takeover_after_secs/release_after_secs must be >= 1''
      | BadStandbyMetric \<Rightarrow> ''wireless.standby_metric must be <= 9999 (0 = disable)'')"

definition load_failure :: "load_error \<Rightarrow> err" where
  "load_failure e =
     (case e of
        ReadFailed p \<Rightarrow> Msg (''Failed to read config file: '' @ p)
      | TomlFailed p \<Rightarrow> Msg (''Failed to parse config file: '' @ p)
      | Invalid c \<Rightarrow> Msg (config_text c))"

text \<open>\<open>read_to_string\<close> refuses a file that is not UTF-8.\<close>

definition read_to_string :: "io_error + u8 list \<Rightarrow> string option" where
  "read_to_string r = (case r of Inl _ \<Rightarrow> None | Inr b \<Rightarrow> if utf8_valid b then Some (string_of b) else None)"

definition load_config :: "'x machine host \<Rightarrow> string \<Rightarrow> 'x machine \<Rightarrow> (config, 'x machine) outcome" where
  "load_config H path w =
     (case on_disk (fs_read (path_of path)) w of (r, w) \<Rightarrow>
        (case config_load (\<lambda>_. read_to_string r) (ho_from_toml H) path of
           Inl e \<Rightarrow> (Inl (load_failure e), w)
         | Inr cfg \<Rightarrow> (Inr cfg, w)))"

definition parent_folder :: "string \<Rightarrow> 'x machine \<Rightarrow> (unit, 'x machine) outcome" where
  "parent_folder path w =
     (case path_parent (path_of path) of
        Some p \<Rightarrow> if p \<noteq> [] then with_ctx ''Failed to create directory'' (io (on_disk (fs_create_dir_all p) w)) else (Inr (), w)
      | None \<Rightarrow> (Inr (), w))"

definition save_config :: "'x machine host \<Rightarrow> config \<Rightarrow> string \<Rightarrow> 'x machine \<Rightarrow> (unit, 'x machine) outcome" where
  "save_config H cfg path w =
     then_do (parent_folder path w) (\<lambda>_ w.
       (case ho_to_toml H cfg of
          None \<Rightarrow> (Inl (Msg ''Failed to serialize config''), w)
        | Some body \<Rightarrow> with_ctx (''Failed to write config file: '' @ path) (io (on_disk (fs_write (path_of path) (bytes_of body)) w))))"

definition config_or_default :: "'x machine host \<Rightarrow> string \<Rightarrow> 'x machine \<Rightarrow> (config \<times> bool, 'x machine) outcome" where
  "config_or_default H path w =
     (let (there, w) = on_disk (fs_exists (path_of path)) w
      in if there then then_do (load_config H path w) (\<lambda>cfg w. (Inr (cfg, True), w)) else (Inr (config_default, False), w))"

section \<open>Installing\<close>

datatype credential = PlainText string | KeepExisting

record install_request =
  iq_cfg_path :: string
  iq_student_id :: "string option"
  iq_credential :: credential
  iq_service_exe :: string
  iq_tray_exe :: string

record install_outcome =
  iu_cfg_path :: string
  iu_refreshed :: bool

definition install_password :: "'w host \<Rightarrow> credential \<Rightarrow> config \<Rightarrow> 'w \<Rightarrow> (string, 'w) outcome" where
  "install_password H credential cfg w =
     (case credential of
        PlainText p \<Rightarrow> if p = [] then (Inl (Msg ''Password must not be empty''), w) else (Inr p, w)
      | KeepExisting \<Rightarrow>
          if ac_password_blob (cf_account cfg) = []
          then (Inl (Msg ''No stored password to keep (config has no password_blob)''), w)
          else with_ctx ''Stored password cannot be decrypted (entropy/config mismatch)''
                 (unprotect (ho_crypt H) (ac_password_blob (cf_account cfg)) w))"

definition take_student_id :: "string option \<Rightarrow> config \<Rightarrow> config" where
  "take_student_id given cfg =
     (case given of
        Some sid \<Rightarrow> if trim sid \<noteq> [] then cfg\<lparr>cf_account := (cf_account cfg)\<lparr>ac_student_id := sid\<rparr>\<rparr> else cfg
      | None \<Rightarrow> cfg)"

text \<open>The probe address of old versions is blocked on the campus.\<close>

definition migrate_probe_url :: "config \<Rightarrow> config" where
  "migrate_probe_url cfg =
     (if dc_http_probe_url (cf_dial cfg) = ''http://9.9.9.9''
      then cfg\<lparr>cf_dial := (cf_dial cfg)\<lparr>dc_http_probe_url := ''http://223.5.5.5''\<rparr>\<rparr> else cfg)"

definition store_password :: "'w host \<Rightarrow> credential \<Rightarrow> string \<Rightarrow> config \<Rightarrow> 'w \<Rightarrow> (config, 'w) outcome" where
  "store_password H credential password cfg w =
     (case credential of
        PlainText _ \<Rightarrow> then_do (protect (ho_reg H) (ho_crypt H) password w) (\<lambda>blob w.
            (Inr (cfg\<lparr>cf_account := (cf_account cfg)\<lparr>ac_password_blob := blob\<rparr>\<rparr>), w))
      | KeepExisting \<Rightarrow> (Inr cfg, w))"

definition make_pbk_folder :: "string \<Rightarrow> 'x machine \<Rightarrow> (unit, 'x machine) outcome" where
  "make_pbk_folder pbk w =
     (case path_parent (path_of pbk) of
        Some p \<Rightarrow> io (on_disk (fs_create_dir_all p) w) | None \<Rightarrow> (Inr (), w))"

text \<open>The part up to the written configuration: the configuration and the password.\<close>

definition write_config :: "'x machine host \<Rightarrow> install_request \<Rightarrow> 'x machine \<Rightarrow> (config \<times> string, 'x machine) outcome" where
  "write_config H req w =
     then_do (config_or_default H (iq_cfg_path req) w) (\<lambda>(cfg, _) w.
     then_do (install_password H (iq_credential req) cfg w) (\<lambda>password w.
       (let cfg = take_student_id (iq_student_id req) cfg
        in then_do (ensure (trim (ac_student_id (cf_account cfg)) \<noteq> []) (Msg ''Student ID must not be empty'') w) (\<lambda>_ w.
           then_do (store_password H (iq_credential req) password (migrate_probe_url cfg) w) (\<lambda>cfg w.
           then_do (save_config H cfg (iq_cfg_path req) w) (\<lambda>_ w. (Inr (cfg, password), w)))))))"

definition install_core :: "'x machine host \<Rightarrow> install_request \<Rightarrow> 'x machine \<Rightarrow> (install_outcome, 'x machine) outcome" where
  "install_core H req w =
     then_do (write_config H req w) (\<lambda>(cfg, password) w.
       (let pbk = dc_pbk_path (cf_dial cfg); name = dc_entry_name (cf_dial cfg)
        in then_do (make_pbk_folder pbk w) (\<lambda>_ w.
           then_do (sys (ensure_entry (ho_ras H) pbk name w)) (\<lambda>_ w.
           then_do (sys (set_credentials (ho_ras H) pbk name (ac_student_id (cf_account cfg)) password w)) (\<lambda>_ w.
           then_do (with_ctx ''Failed to create/update service'' (create_service (ho_scm H) (iq_cfg_path req) (iq_service_exe req) w))
             (\<lambda>refreshed w.
              (let w = snd (set_recovery_actions (ho_scm H) w); w = snd (register_source (ho_reg H) w)
               in then_do (register_autostart (ho_reg H) (iq_tray_exe req) w) (\<lambda>_ w.
                    (Inr \<lparr>iu_cfg_path = iq_cfg_path req, iu_refreshed = refreshed\<rparr>, w)))))))))"

section \<open>The backup and the rollback\<close>

record install_backup =
  ib_files :: file_backup
  ib_cfg :: config
  ib_old_password :: "string option"
  ib_had_entry :: bool
  ib_autostart :: registry_backup

text \<open>The code 183 says that the entry exists.\<close>

definition dial_entry_exists :: "'x machine host \<Rightarrow> config \<Rightarrow> 'x machine \<Rightarrow> (bool, 'x machine) outcome" where
  "dial_entry_exists H cfg w =
     (let (there, w) = on_disk (fs_exists (path_of (dc_pbk_path (cf_dial cfg)))) w
      in if \<not> there then (Inr False, w)
         else (let (code, w) = ho_check_entry H (wide_own (dc_pbk_path (cf_dial cfg))) (wide_own (dc_entry_name (cf_dial cfg))) w
               in if code = 183 then (Inr True, w)
                  else then_do (ensure (code = 0) (code_error ''Cannot inspect existing RAS entry'' code) w) (\<lambda>_ w. (Inr False, w))))"

definition clear_install_credentials :: "'w host \<Rightarrow> config \<Rightarrow> 'w \<Rightarrow> (unit, 'w) outcome" where
  "clear_install_credentials H cfg w =
     (let (code, w) = ho_clear H (wide_own (dc_pbk_path (cf_dial cfg))) (wide_own (dc_entry_name (cf_dial cfg))) w
      in ensure (code = 0) (code_error ''RasSetCredentialsW(clear) failed'' code) w)"

definition install_capture :: "'x machine host \<Rightarrow> string \<Rightarrow> 'x machine \<Rightarrow> (install_backup, 'x machine) outcome" where
  "install_capture H cfg_path w =
     then_do (config_or_default H cfg_path w) (\<lambda>(cfg, had_config) w.
     then_do (dial_entry_exists H cfg w) (\<lambda>had_entry w.
     then_do (ensure (\<not> (had_entry \<and> \<not> had_config))
                (Msg ''Existing dial phonebook has no config; restore its config before installing'') w) (\<lambda>_ w.
     then_do (if had_entry
              then then_do (with_ctx ''Cannot back up existing dial credentials''
                              (unprotect (ho_crypt H) (ac_password_blob (cf_account cfg)) w)) (\<lambda>p w. (Inr (Some p), w))
              else (Inr None, w)) (\<lambda>old_password w.
     then_do (on_disk (backup_capture [path_of cfg_path, path_of (dc_pbk_path (cf_dial cfg))]) w) (\<lambda>files w.
     then_do (registry_capture (ho_reg H) run_key [''gdut-net-tray''] w) (\<lambda>autostart w.
       (Inr \<lparr>ib_files = files, ib_cfg = cfg, ib_old_password = old_password, ib_had_entry = had_entry,
             ib_autostart = autostart\<rparr>, w)))))))"

text \<open>A step of the restoration that only adds to the failures.\<close>

definition noting :: "string \<Rightarrow> (unit, 'w) outcome \<Rightarrow> err list \<times> 'w" where
  "noting what r = (case r of (Inl e, w) \<Rightarrow> ([Ctx what e], w) | (Inr _, w) \<Rightarrow> ([], w))"

definition clear_new_credentials :: "'x machine host \<Rightarrow> install_backup \<Rightarrow> 'x machine \<Rightarrow> err list \<times> 'x machine" where
  "clear_new_credentials H b w =
     (if ib_had_entry b then ([], w)
      else (case dial_entry_exists H (ib_cfg b) w of
              (Inr True, w) \<Rightarrow> noting ''Failed to clear new RAS credentials'' (clear_install_credentials H (ib_cfg b) w)
            | (Inr False, w) \<Rightarrow> ([], w)
            | (Inl e, w) \<Rightarrow> ([Ctx ''Failed to inspect new RAS credentials'' e], w)))"

definition install_restore :: "'x machine host \<Rightarrow> install_backup \<Rightarrow> 'x machine \<Rightarrow> (unit, 'x machine) outcome" where
  "install_restore H b w =
     (let (e1, w) = clear_new_credentials H b w;
          (e2, w) = noting ''Failed to restore tray autostart'' (registry_restore (ho_reg H) (ib_autostart b) w);
          (e3, w) = noting [] (on_disk (backup_restore (ib_files b)) w);
          (e4, w) = (case ib_old_password b of
              Some password \<Rightarrow> noting ''Failed to restore previous RAS credentials''
                (sys (set_credentials (ho_ras H) (dc_pbk_path (cf_dial (ib_cfg b))) (dc_entry_name (cf_dial (ib_cfg b)))
                       (ac_student_id (cf_account (ib_cfg b))) password w))
            | None \<Rightarrow> ([], w))
      in ensure (e1 @ e2 @ e3 @ e4 = []) (Several [] (e1 @ e2 @ e3 @ e4)) w)"

record install_failure =
  if_error :: err
  if_rollback :: rollback_outcome

definition install_with_rollback ::
  "'x machine host \<Rightarrow> install_request \<Rightarrow> prev_service \<Rightarrow> 'x machine \<Rightarrow> (install_failure + install_outcome) \<times> 'x machine" where
  "install_with_rollback H req prev w =
     (if prev = PrevUnknown
      then (Inl \<lparr>if_error = Msg ''Cannot safely back up service state; retry when service status is available'',
                 if_rollback = NotNeeded\<rparr>, w)
      else (case install_capture H (iq_cfg_path req) w of
              (Inl e, w) \<Rightarrow> (Inl \<lparr>if_error = e, if_rollback = NotNeeded\<rparr>, w)
            | (Inr backup, w) \<Rightarrow>
                (case install_core H req w of
                   (Inr done, w) \<Rightarrow> (Inr done, w)
                 | (Inl e, w) \<Rightarrow>
                     (let (restored, w) = install_restore H backup w;
                          (service, w) = rollback_install (ho_scm H) prev w
                      in (Inl \<lparr>if_error = e,
                                if_rollback = (case restored of Inr _ \<Rightarrow> service | Inl f \<Rightarrow> RollbackFailed f)\<rparr>, w)))))"

definition existing_account :: "'x machine host \<Rightarrow> string \<Rightarrow> 'x machine \<Rightarrow> string option \<times> 'x machine" where
  "existing_account H cfg_path w =
     (case load_config H cfg_path w of
        (Inl _, w) \<Rightarrow> (None, w)
      | (Inr cfg, w) \<Rightarrow>
          (let sid = trim (ac_student_id (cf_account cfg))
           in (if sid = [] \<or> ac_password_blob (cf_account cfg) = [] then None else Some sid, w)))"

end
