(* ===== verification/Install_Props.thy ===== *)
theory Install_Props
  imports Install
begin

text \<open>
  What an installation that fails leaves behind. A view \<open>f\<close> of the machine, the files, the registry or the
  registered service, is kept by the calls that only ask, and by the calls about other parts.
\<close>

section \<open>Views that calls keep\<close>

definition nodes :: "'x machine \<Rightarrow> fpath \<Rightarrow> node option" where
  "nodes w = node_at (mc_disk w)"

definition queries_keep :: "'w host \<Rightarrow> ('w \<Rightarrow> 'b) \<Rightarrow> bool" where
  "queries_keep H f \<longleftrightarrow>
     (\<forall>c w. f (snd (sc_connect (ho_scm H) c w)) = f w) \<and> (\<forall>a w. f (snd (sc_open (ho_scm H) a w)) = f w)
   \<and> (\<forall>w. f (snd (sc_status (ho_scm H) w)) = f w) \<and> (\<forall>w. f (snd (sc_config (ho_scm H) w)) = f w)
   \<and> (\<forall>a k w. f (snd (rg_open (ho_reg H) a k w)) = f w) \<and> (\<forall>k n w. f (snd (rg_size (ho_reg H) k n w)) = f w)
   \<and> (\<forall>m k n w. f (snd (rg_get (ho_reg H) m k n w)) = f w) \<and> (\<forall>k w. f (snd (rg_close (ho_reg H) k w)) = f w)
   \<and> (\<forall>c e w. f (snd (dp_unprotect (ho_crypt H) c e w)) = f w) \<and> (\<forall>p n w. f (snd (ho_check_entry H p n w)) = f w)"

definition commands_keep :: "'w host \<Rightarrow> ('w \<Rightarrow> 'b) \<Rightarrow> bool" where
  "commands_keep H f \<longleftrightarrow>
     (\<forall>w. f (snd (sc_start (ho_scm H) w)) = f w) \<and> (\<forall>w. f (snd (sc_delete (ho_scm H) w)) = f w)
   \<and> (\<forall>c t w. f (snd (sc_restore (ho_scm H) c t w)) = f w)
   \<and> (\<forall>p n u s w. f (snd (ra_set_credentials (ho_ras H) p n u s w)) = f w)"

text \<open>What is not a file does not depend on the disk.\<close>

definition off_disk :: "('x machine \<Rightarrow> 'b) \<Rightarrow> bool" where
  "off_disk f \<longleftrightarrow> (\<forall>w d. f (w\<lparr>mc_disk := d\<rparr>) = f w)"

lemma queries_keepD:
  assumes "queries_keep H f"
  shows "f (snd (sc_connect (ho_scm H) c w)) = f w" "f (snd (sc_open (ho_scm H) a w)) = f w"
    "f (snd (sc_status (ho_scm H) w)) = f w" "f (snd (sc_config (ho_scm H) w)) = f w"
    "f (snd (rg_open (ho_reg H) ac k w)) = f w" "f (snd (rg_size (ho_reg H) k n w)) = f w"
    "f (snd (rg_get (ho_reg H) m k n w)) = f w" "f (snd (rg_close (ho_reg H) k w)) = f w"
    "f (snd (dp_unprotect (ho_crypt H) cy e w)) = f w" "f (snd (ho_check_entry H p en w)) = f w"
  using assms by (auto simp: queries_keep_def simp del: split_paired_All)

lemma commands_keepD:
  assumes "commands_keep H f"
  shows "f (snd (sc_start (ho_scm H) w)) = f w" "f (snd (sc_delete (ho_scm H) w)) = f w"
    "f (snd (sc_restore (ho_scm H) c t w)) = f w"
    "f (snd (ra_set_credentials (ho_ras H) p n u s w)) = f w"
  using assms by (auto simp: commands_keep_def)

lemma snd_then_do: "snd (then_do r k) = (case fst r of Inl _ \<Rightarrow> snd r | Inr a \<Rightarrow> snd (k a (snd r)))"
  by (cases r; cases "fst r") (auto simp: then_do_def)

lemma snd_steps [simp]: "snd (sys r) = snd r" "snd (opened q) = snd q" "snd (io i) = snd i" "snd (ensure b e w) = w"
  by (simp_all add: sys_def opened_def io_def ensure_def split: prod.split sum.split open_error.split)

lemma snd_noting [simp]: "snd (noting what r) = snd r"
  by (cases r; cases "fst r") (auto simp: noting_def)

lemma then_do_keeps:
  "f (snd r) = f w \<Longrightarrow> (\<And>a w'. f w' = f w \<Longrightarrow> f (snd (k a w')) = f w) \<Longrightarrow> f (snd (then_do r k)) = f w"
  by (simp add: snd_then_do split: sum.split)

lemma snd_on_disk: "snd (on_disk g w) = w\<lparr>mc_disk := snd (g (mc_disk w))\<rparr>"
  by (cases "g (mc_disk w)") (simp add: on_disk_def)

lemmas snd_simps = snd_then_do snd_on_disk case_prod_unfold Let_def

section \<open>The service calls\<close>

lemma capture_prev_keeps: "queries_keep H f \<Longrightarrow> f (snd (capture_prev_service (ho_scm H) w)) = f w"
  by (simp add: capture_prev_service_def snd_simps queries_keepD split: sum.split open_error.split)

lemma start_service_keeps:
  "queries_keep H f \<Longrightarrow> commands_keep H f \<Longrightarrow> f (snd (start_service (ho_scm H) w)) = f w"
  by (simp add: start_service_def snd_simps queries_keepD commands_keepD split: sum.split)

lemma rollback_keeps:
  assumes "queries_keep H f" "commands_keep H f"
  shows "f (snd (rollback_install (ho_scm H) prev w)) = f w"
proof -
  have "f (snd (delete_service (ho_scm H) w)) = f w" for w
    using assms by (simp add: delete_service_def snd_simps queries_keepD commands_keepD split: sum.split open_error.split)
  moreover have "f (snd (restore_previous_service (ho_scm H) c t w)) = f w" for c t w
    using assms by (simp add: restore_previous_service_def snd_simps queries_keepD commands_keepD split: sum.split)
  ultimately show ?thesis
    using start_service_keeps [OF assms]
    by (simp add: rollback_install_def snd_simps split: sum.split prev_service.split)
qed

lemma rollback_outcomes:
  "rollback_install S prev w = (u, w') \<Longrightarrow> prev \<noteq> PrevUnknown \<Longrightarrow> u \<noteq> NotNeeded \<and> u \<noteq> RestoredUnknown"
  by (auto simp: rollback_install_def split: prev_service.splits prod.splits sum.splits)

section \<open>The capture\<close>

lemma fs_nodes:
  "node_at (snd (fs_exists p d)) = node_at d" "node_at (snd (fs_read p d)) = node_at d"
  using fs_exists_eff [of p d] fs_read_eff [of p d] by (metis prod.collapse use_fault_simps(1))+

lemma capture_files_nodes: "node_at (snd (capture_files files ps d)) = node_at d"
  by (induction ps arbitrary: files d) (simp_all add: case_prod_unfold fs_nodes split: sum.split io_error.split)

lemma backup_capture_nodes: "node_at (snd (backup_capture ps d)) = node_at d"
  by (simp add: backup_capture_def capture_files_nodes)

lemma read_values_keeps: "queries_keep H f \<Longrightarrow> f (snd (read_values (ho_reg H) k ns w)) = f w"
  by (induction ns arbitrary: w) (simp_all add: read_value_def snd_simps queries_keepD split: sum.split)

lemma registry_capture_keeps: "queries_keep H f \<Longrightarrow> f (snd (registry_capture (ho_reg H) k ns w)) = f w"
  by (simp add: registry_capture_def snd_simps queries_keepD read_values_keeps split: sum.split)

lemma unprotect_keeps: "queries_keep H f \<Longrightarrow> f (snd (unprotect (ho_crypt H) blob w)) = f w"
  by (simp add: unprotect_def snd_simps queries_keepD split: sum.split option.split)

text \<open>Either the view is about files and the operation leaves them alone, or it is not.\<close>

definition view_of :: "('x machine \<Rightarrow> 'b) \<Rightarrow> bool" where
  "view_of f \<longleftrightarrow> (\<forall>w d. node_at d = node_at (mc_disk w) \<longrightarrow> f (w\<lparr>mc_disk := d\<rparr>) = f w)"

lemma view_nodes: "view_of nodes"
  by (simp add: view_of_def nodes_def)

lemma view_off_disk: "off_disk f \<Longrightarrow> view_of f"
  by (simp add: view_of_def off_disk_def)

lemma on_disk_keeps: "view_of f \<Longrightarrow> node_at (snd (g (mc_disk w))) = node_at (mc_disk w) \<Longrightarrow> f (snd (on_disk g w)) = f w"
  by (simp add: view_of_def snd_on_disk)

lemma config_or_default_keeps: "view_of f \<Longrightarrow> f (snd (config_or_default H path w)) = f w"
  by (simp add: config_or_default_def load_config_def snd_then_do case_prod_unfold Let_def on_disk_keeps fs_nodes split: sum.split)

lemma dial_entry_keeps: "view_of f \<Longrightarrow> queries_keep H f \<Longrightarrow> f (snd (dial_entry_exists H cfg w)) = f w"
  by (simp add: dial_entry_exists_def snd_then_do case_prod_unfold Let_def on_disk_keeps fs_nodes queries_keepD split: sum.split)

lemma install_capture_keeps:
  assumes "view_of f" "queries_keep H f"
  shows "f (snd (install_capture H path w)) = f w"
  unfolding install_capture_def case_prod_unfold
  by (intro then_do_keeps)
    (use assms in \<open>simp_all add: on_disk_keeps backup_capture_nodes config_or_default_keeps
       dial_entry_keeps unprotect_keeps registry_capture_keeps snd_then_do split: sum.split\<close>)

lemma on_disk_Inr: "on_disk g w = (r, w') \<longleftrightarrow> (\<exists>d. g (mc_disk w) = (r, d) \<and> w' = w\<lparr>mc_disk := d\<rparr>)"
  by (cases "g (mc_disk w)") (auto simp: on_disk_def)

lemma keeps_at: "f (snd g) = f w \<Longrightarrow> g = (r, w') \<Longrightarrow> f w' = f w"
  by simp

text \<open>The two files and the value that an installation backs up.\<close>

definition owned_files :: "install_backup \<Rightarrow> string \<Rightarrow> fpath list" where
  "owned_files b cfg_path = [path_of cfg_path, path_of (dc_pbk_path (cf_dial (ib_cfg b)))]"

lemma install_capture_ok:
  assumes "install_capture H path w = (Inr b, w')"
    and q: "queries_keep H nodes" "queries_keep H R" "off_disk R"
  shows "\<exists>d d1 wr. backup_capture (owned_files b path) d = (Inr (ib_files b), d1) \<and> node_at d = nodes w
     \<and> registry_capture (ho_reg H) run_key [''gdut-net-tray''] wr = (Inr (ib_autostart b), w') \<and> R wr = R w
     \<and> (\<exists>had wc. config_or_default H path w = (Inr (ib_cfg b, had), wc))"
proof -
  note v = view_nodes view_off_disk [OF q(3)]
  from assms(1) obtain cfg had w1 entry w2 old w3 files w4 auto
    where a: "config_or_default H path w = (Inr (cfg, had), w1)"
      "dial_entry_exists H cfg w1 = (Inr entry, w2)"
      "(if entry then then_do (with_ctx ''Cannot back up existing dial credentials''
                              (unprotect (ho_crypt H) (ac_password_blob (cf_account cfg)) w2)) (\<lambda>p w. (Inr (Some p), w))
              else (Inr None, w2)) = (Inr old, w3)"
      "on_disk (backup_capture [path_of path, path_of (dc_pbk_path (cf_dial cfg))]) w3 = (Inr files, w4)"
      "registry_capture (ho_reg H) run_key [''gdut-net-tray''] w4 = (Inr auto, w')"
    and b: "b = \<lparr>ib_files = files, ib_cfg = cfg, ib_old_password = old, ib_had_entry = entry, ib_autostart = auto\<rparr>"
    by (auto simp: install_capture_def then_do_Inr simp del: split_paired_Ex)
  have k: "f w4 = f w \<and> f w3 = f w" if f: "view_of f" "queries_keep H f" for f :: "'a machine \<Rightarrow> 'c"
  proof -
    have "f w1 = f w" by (rule keeps_at [OF config_or_default_keeps a(1)]) (rule f)
    moreover have "f w2 = f w1" by (rule keeps_at [OF dial_entry_keeps a(2)]) (rule f)+
    moreover have "f w3 = f w2"
      using unprotect_keeps [OF f(2), of "ac_password_blob (cf_account cfg)" w2] a(3)
      by (cases entry) (auto simp: then_do_Inr)
    moreover have "f w4 = f w3" by (rule keeps_at [OF on_disk_keeps a(4)]) (rule f backup_capture_nodes)+
    ultimately show ?thesis by simp
  qed
  from a(4) obtain d1 where "backup_capture [path_of path, path_of (dc_pbk_path (cf_dial cfg))] (mc_disk w3) = (Inr files, d1)"
    by (auto simp: on_disk_Inr)
  moreover have "node_at (mc_disk w3) = nodes w" using k [OF v(1) q(1)] by (simp add: nodes_def)
  moreover have "R w4 = R w" using k [OF v(2) q(2)] by simp
  ultimately show ?thesis using a(1,5) b by (auto simp: owned_files_def)
qed

section \<open>The restoration\<close>

lemma noting_ok: "noting what r = ([], w) \<longleftrightarrow> r = (Inr (), w)"
  by (cases r; cases "fst r") (auto simp: noting_def)

lemma set_credentials_keeps:
  "commands_keep H f \<Longrightarrow> f (snd (set_credentials (ho_ras H) pbk name user pass w)) = f w"
  by (simp add: set_credentials_def case_prod_unfold Let_def commands_keepD)

lemma install_restore_ok:
  assumes "install_restore H b w = (Inr (), w')"
    and k: "commands_keep H nodes" "commands_keep H R" "off_disk R"
  shows "\<exists>w1 w2 d. registry_restore (ho_reg H) (ib_autostart b) w1 = (Inr (), w2)
     \<and> backup_restore (ib_files b) (mc_disk w2) = (Inr (), d) \<and> nodes w' = node_at d \<and> R w' = R w2"
proof -
  obtain e1 w1 where 1: "clear_new_credentials H b w = (e1, w1)" by force
  obtain e2 w2 where 2: "noting ''Failed to restore tray autostart'' (registry_restore (ho_reg H) (ib_autostart b) w1) = (e2, w2)" by force
  obtain e3 w3 where 3: "noting [] (on_disk (backup_restore (ib_files b)) w2) = (e3, w3)" by force
  from assms(1) 1 2 3 have e: "e2 = []" "e3 = []"
    and w': "case ib_old_password b of None \<Rightarrow> w' = w3
      | Some p \<Rightarrow> w' = snd (set_credentials (ho_ras H) (dc_pbk_path (cf_dial (ib_cfg b))) (dc_entry_name (cf_dial (ib_cfg b)))
                       (ac_student_id (cf_account (ib_cfg b))) p w3)"
    by (auto simp: install_restore_def noting_def split: option.split_asm prod.split_asm sum.split_asm)
  have "nodes w' = nodes w3 \<and> R w' = R w3"
    using w' set_credentials_keeps [OF k(1)] set_credentials_keeps [OF k(2)] by (auto split: option.splits)
  moreover from 3 e obtain d where d: "backup_restore (ib_files b) (mc_disk w2) = (Inr (), d)" "w3 = w2\<lparr>mc_disk := d\<rparr>"
    by (auto simp: noting_ok on_disk_Inr)
  moreover have "R w3 = R w2" using k(3) d by (simp add: off_disk_def)
  moreover have "registry_restore (ho_reg H) (ib_autostart b) w1 = (Inr (), w2)" using 2 e by (simp add: noting_ok)
  ultimately have "registry_restore (ho_reg H) (ib_autostart b) w1 = (Inr (), w2)
    \<and> backup_restore (ib_files b) (mc_disk w2) = (Inr (), d) \<and> nodes w' = node_at d \<and> R w' = R w2"
    by (simp add: nodes_def)
  then show ?thesis by blast
qed

text \<open>What the calls of the machine keep; \<open>R\<close> is the registry, \<open>V\<close> the registered service.\<close>

definition machine_laws ::
  "'x machine host \<Rightarrow> 'x machine reg_view \<Rightarrow> (reg_value \<Rightarrow> reg_value) \<Rightarrow> ('x machine \<Rightarrow> svc option) \<Rightarrow> bool" where
  "machine_laws H R norm V \<longleftrightarrow>
     scm_laws (ho_scm H) V \<and> reg_laws (ho_reg H) R norm
   \<and> queries_keep H nodes \<and> queries_keep H R \<and> queries_keep H V
   \<and> commands_keep H nodes \<and> commands_keep H R \<and> off_disk R \<and> off_disk V"

lemma machine_lawsD:
  assumes "machine_laws H R norm V"
  shows "scm_laws (ho_scm H) V" "reg_laws (ho_reg H) R norm" "queries_keep H nodes" "queries_keep H R" "queries_keep H V"
    "commands_keep H nodes" "commands_keep H R" "off_disk R" "off_disk V"
  using assms by (simp_all add: machine_laws_def)

text \<open>The backup in one sentence: what it owned is back.\<close>

lemma install_backup_roundtrip:
  assumes laws: "machine_laws H R norm V"
    and cap: "install_capture H path w0 = (Inr b, w1)" and res: "install_restore H b w2 = (Inr (), w3)"
    and paths: "\<forall>p \<in> set (owned_files b path). \<not> is_staging p"
  shows "(\<forall>p \<in> set (owned_files b path). nodes w3 p = nodes w0 p)
    \<and> reg_at R w3 run_key ''gdut-net-tray'' = map_option norm (reg_at R w0 run_key ''gdut-net-tray'')"
proof -
  note l = machine_lawsD [OF laws]
  from install_capture_ok [OF cap l(3,4,8)] obtain d d1 wr where c: "backup_capture (owned_files b path) d = (Inr (ib_files b), d1)"
    "node_at d = nodes w0" "registry_capture (ho_reg H) run_key [''gdut-net-tray''] wr = (Inr (ib_autostart b), w1)" "R wr = R w0"
    by blast
  from install_restore_ok [OF res l(6,7,8)] obtain v1 v2 e where r: "registry_restore (ho_reg H) (ib_autostart b) v1 = (Inr (), v2)"
    "backup_restore (ib_files b) (mc_disk v2) = (Inr (), e)" "nodes w3 = node_at e" "R w3 = R v2" by blast
  have "\<forall>p \<in> set (owned_files b path). node_at e p = node_at d p"
    using backup_restore_ok [OF c(1) paths r(2)] by blast
  moreover have "reg_at R v2 run_key ''gdut-net-tray'' = map_option norm (reg_at R wr run_key ''gdut-net-tray'')"
    using registry_restore_ok [OF l(2) _ c(3) r(1)] by simp
  ultimately show ?thesis using c(2,4) r(3,4) by (simp add: nodes_def reg_at_def)
qed

text \<open>
  C24 (safety). A failed installation is undone, or says that it is not. When \<open>install_with_rollback\<close> fails
  and reports that nothing needed a rollback, nothing has changed: no file, no registry value, no service.
  When it reports \<open>Restored\<close>, the configuration and the phonebook are byte for byte what they were, the
  autostart value is back, and the service is registered as before and running again if it was. The outcome
  for a service whose state could not be read never occurs, for such an installation is refused.
\<close>

theorem failed_install_is_undone:
  assumes "machine_laws H R norm V"
    and "capture_prev_service (ho_scm H) w0 = (prev, w1)"
    and "install_with_rollback H req prev w1 = (Inl f, w2)"
    and "\<forall>cfg had w. config_or_default H (iq_cfg_path req) w1 = (Inr (cfg, had), w) \<longrightarrow>
           \<not> is_staging (path_of (iq_cfg_path req)) \<and> \<not> is_staging (path_of (dc_pbk_path (cf_dial cfg)))"
  shows "(if_rollback f = NotNeeded \<longrightarrow> nodes w2 = nodes w0 \<and> R w2 = R w0 \<and> V w2 = V w0)
    \<and> (if_rollback f = Restored \<longrightarrow>
         nodes w2 (path_of (iq_cfg_path req)) = nodes w0 (path_of (iq_cfg_path req))
         \<and> (\<forall>cfg had w. config_or_default H (iq_cfg_path req) w1 = (Inr (cfg, had), w) \<longrightarrow>
              nodes w2 (path_of (dc_pbk_path (cf_dial cfg))) = nodes w0 (path_of (dc_pbk_path (cf_dial cfg))))
         \<and> reg_at R w2 run_key ''gdut-net-tray'' = map_option norm (reg_at R w0 run_key ''gdut-net-tray'')
         \<and> same_reg (V w2) (V w0)
         \<and> (\<forall>s. V w0 = Some s \<and> sv_state s = SvRunning \<longrightarrow> (\<exists>s'. V w2 = Some s' \<and> sv_state s' \<noteq> SvStopped)))
    \<and> if_rollback f \<noteq> RestoredUnknown"
proof -
  note l = machine_lawsD [OF assms(1)]
  have 1: "nodes w1 = nodes w0" "R w1 = R w0" "V w1 = V w0"
    using capture_prev_keeps [OF l(3)] capture_prev_keeps [OF l(4)] capture_prev_keeps [OF l(5)] assms(2)
    by (metis snd_conv)+
  obtain c wc where c: "install_capture H (iq_cfg_path req) w1 = (c, wc)" by force
  have keep: "nodes wc = nodes w1" "R wc = R w1" "V wc = V w1"
    using install_capture_keeps [OF view_nodes l(3)] install_capture_keeps [OF view_off_disk [OF l(8)] l(4)]
      install_capture_keeps [OF view_off_disk [OF l(9)] l(5)] c by (metis snd_conv)+
  show ?thesis
  proof (cases "prev = PrevUnknown \<or> (\<exists>e. c = Inl e)")
    case True
    with assms(3) c have "if_rollback f = NotNeeded \<and> (w2 = w1 \<or> w2 = wc)"
      by (auto simp: install_with_rollback_def split: if_splits)
    with 1 keep show ?thesis by auto
  next
    case False
    then obtain b where b: "install_capture H (iq_cfg_path req) w1 = (Inr b, wc)" and prev: "prev \<noteq> PrevUnknown"
      using c by (cases c) auto
    obtain r wr where r: "install_core H req wc = (r, wr)" by force
    obtain s ws where s: "install_restore H b wr = (s, ws)" by force
    obtain u wu where u: "rollback_install (ho_scm H) prev ws = (u, wu)" by force
    from assms(3) b prev r s u have f: "w2 = wu" "if_rollback f = (case s of Inr _ \<Rightarrow> u | Inl e \<Rightarrow> RollbackFailed e)"
      by (auto simp: install_with_rollback_def split: sum.splits)
    have svc: "u \<noteq> NotNeeded" "u \<noteq> RestoredUnknown" using rollback_outcomes [OF u prev] by simp_all
    have after: "nodes wu = nodes ws" "R wu = R ws"
      using rollback_keeps [OF l(3,6)] rollback_keeps [OF l(4,7)] u by (metis snd_conv)+
    have no: "if_rollback f \<noteq> NotNeeded" "if_rollback f \<noteq> RestoredUnknown" using f svc by (cases s; simp)+
    show ?thesis
    proof (cases "if_rollback f = Restored")
      case True
      then have ok: "s = Inr ()" "u = Restored" using f by (cases s; simp)+
      from install_capture_ok [OF b l(3,4,8)] obtain had w where
        cfg: "config_or_default H (iq_cfg_path req) w1 = (Inr (ib_cfg b, had), w)" by blast
      then have own: "\<forall>p \<in> set (owned_files b (iq_cfg_path req)). \<not> is_staging p"
        using assms(4) by (auto simp: owned_files_def)
      have restored: "nodes ws (path_of (iq_cfg_path req)) = nodes w1 (path_of (iq_cfg_path req))"
        "nodes ws (path_of (dc_pbk_path (cf_dial (ib_cfg b)))) = nodes w1 (path_of (dc_pbk_path (cf_dial (ib_cfg b))))"
        "reg_at R ws run_key ''gdut-net-tray'' = map_option norm (reg_at R w1 run_key ''gdut-net-tray'')"
        using install_backup_roundtrip [OF assms(1) b s [unfolded ok(1)] own] by (simp_all add: owned_files_def)
      have reg: "reg_at R w2 run_key n = reg_at R ws run_key n" "reg_at R w1 run_key n = reg_at R w0 run_key n" for n
        using f after 1 by (simp_all add: reg_at_def)
      from rollback_install_eff [OF l(1) assms(2) u] ok f have "same_reg (V w2) (V w0)
         \<and> (\<forall>s. V w0 = Some s \<and> sv_state s = SvRunning \<longrightarrow> (\<exists>s'. V w2 = Some s' \<and> sv_state s' \<noteq> SvStopped))" by blast
      with True no restored reg f after 1 cfg show ?thesis by simp
    qed (use no in simp)
  qed
qed

section \<open>A machine for the witnesses\<close>

text \<open>Its rest is a registry and a service manager; \<open>deny\<close> is the code with which RAS refuses credentials.\<close>

type_synonym demo_rest = "regs \<times> plain_world"

definition in_regs :: "(regs \<Rightarrow> 'a \<times> regs) \<Rightarrow> demo_rest machine \<Rightarrow> 'a \<times> demo_rest machine" where
  "in_regs g w = (let x = g (fst (mc_rest w)) in (fst x, w\<lparr>mc_rest := (snd x, snd (mc_rest w))\<rparr>))"

definition in_scm :: "(plain_world \<Rightarrow> 'a \<times> plain_world) \<Rightarrow> demo_rest machine \<Rightarrow> 'a \<times> demo_rest machine" where
  "in_scm g w = (let x = g (snd (mc_rest w)) in (fst x, w\<lparr>mc_rest := (fst (mc_rest w), snd x)\<rparr>))"

definition demo_scm :: "demo_rest machine scm_api" where
  "demo_scm =
     \<lparr>sc_connect = (\<lambda>c. in_scm (sc_connect plain_scm c)), sc_open = (\<lambda>a. in_scm (sc_open plain_scm a)),
      sc_status = in_scm (sc_status plain_scm), sc_config = in_scm (sc_config plain_scm),
      sc_start = in_scm (sc_start plain_scm), sc_stop = in_scm (sc_stop plain_scm),
      sc_delete = in_scm (sc_delete plain_scm), sc_create = (\<lambda>i. in_scm (sc_create plain_scm i)),
      sc_change = (\<lambda>i. in_scm (sc_change plain_scm i)), sc_restore = (\<lambda>c t. in_scm (sc_restore plain_scm c t)),
      sc_recovery = (\<lambda>r d. in_scm (sc_recovery plain_scm r d)), sc_now = in_scm (sc_now plain_scm),
      sc_sleep = (\<lambda>d w. w\<lparr>mc_rest := (fst (mc_rest w), sc_sleep plain_scm d (snd (mc_rest w)))\<rparr>)\<rparr>"

definition demo_registry :: "demo_rest machine reg_api" where
  "demo_registry =
     \<lparr>rg_open = (\<lambda>a k. in_regs (rg_open plain_registry a k)), rg_size = (\<lambda>k n. in_regs (rg_size plain_registry k n)),
      rg_get = (\<lambda>m k n. in_regs (rg_get demo_reg m k n)), rg_create = (\<lambda>k. in_regs (rg_create plain_registry k)),
      rg_set = (\<lambda>k n v. in_regs (rg_set plain_registry k n v)), rg_delete = (\<lambda>k n. in_regs (rg_delete plain_registry k n)),
      rg_info = (\<lambda>k. in_regs (rg_info plain_registry k)), rg_delete_key = (\<lambda>k. in_regs (rg_delete_key plain_registry k)),
      rg_delete_tree = (\<lambda>k. in_regs (rg_delete_tree plain_registry k)), rg_close = (\<lambda>k. in_regs (rg_close plain_registry k))\<rparr>"

definition demo_ras :: "u32 \<Rightarrow> 'x machine ras_api" where
  "demo_ras deny =
     \<lparr>ra_set_entry = \<lambda>p n e w. (0, w), ra_set_credentials = \<lambda>_ _ _ _ w. (deny, w),
      ra_dial = \<lambda>_ _ w. ((0, 0), w), ra_hangup = \<lambda>_ w. (0, w), ra_row_size = 1, ra_enum = \<lambda>_ _. (0, 0, []),
      ra_status = \<lambda>_ _. (0, False, 0), ra_error_text = \<lambda>_. None, ra_detach_dns = \<lambda>_ w. w, ra_sleep = \<lambda>_ w. w,
      rm_open = \<lambda>_. Inr (), rm_query = \<lambda>_. Some SvRunning, rm_stop = \<lambda>w. w, rm_start = \<lambda>w. (Inr (), w)\<rparr>"

definition demo_dpapi :: "'x machine crypt_api" where
  "demo_dpapi =
     \<lparr>dp_protect = \<lambda>p e w. (Inr (p @ [0]), w), dp_unprotect = \<lambda>c e w. (Inr (butlast c), w),
      dp_random = \<lambda>w. (replicate 32 7, w), dp_base64 = \<lparr>b64_encode = string_of, b64_decode = \<lambda>s. Some (bytes_of s)\<rparr>\<rparr>"

text \<open>The TOML codec of the demonstration knows the account only, in hexadecimal.\<close>

definition demo_to_toml :: "config \<Rightarrow> string option" where
  "demo_to_toml c =
     (if c = config_default\<lparr>cf_account := cf_account c\<rparr>
      then Some (hex_encode (bytes_of (ac_student_id (cf_account c))) @ ''='' @ hex_encode (bytes_of (ac_password_blob (cf_account c))))
      else None)"

definition demo_from_toml :: "string \<Rightarrow> config option" where
  "demo_from_toml s =
     (case split_once (CHR ''='') s of
        None \<Rightarrow> None
      | Some (a, b) \<Rightarrow> (case (hex_decode a, hex_decode b) of
          (Inr x, Inr y) \<Rightarrow> Some (config_default\<lparr>cf_account := \<lparr>ac_student_id = string_of x, ac_password_blob = string_of y\<rparr>\<rparr>)
        | _ \<Rightarrow> None))"

definition demo_host :: "u32 \<Rightarrow> demo_rest machine host" where
  "demo_host deny =
     \<lparr>ho_scm = demo_scm, ho_reg = demo_registry, ho_crypt = demo_dpapi, ho_ras = demo_ras deny,
      ho_check_entry = \<lambda>_ _ w. (0, w), ho_clear = \<lambda>_ _ w. (0, w),
      ho_from_toml = demo_from_toml, ho_to_toml = demo_to_toml\<rparr>"

definition demo_regs_of :: "demo_rest machine reg_view" where
  "demo_regs_of w = fst (mc_rest w)"

definition demo_service_of :: "demo_rest machine \<Rightarrow> svc option" where
  "demo_service_of w = fst (snd (mc_rest w))"

lemma in_scm_iff: "in_scm g w = (r, w') \<longleftrightarrow> (\<exists>y. g (snd (mc_rest w)) = (r, y) \<and> w' = w\<lparr>mc_rest := (fst (mc_rest w), y)\<rparr>)"
  by (cases "g (snd (mc_rest w))") (auto simp: in_scm_def)

lemma in_regs_iff: "in_regs g w = (r, w') \<longleftrightarrow> (\<exists>y. g (fst (mc_rest w)) = (r, y) \<and> w' = w\<lparr>mc_rest := (y, snd (mc_rest w))\<rparr>)"
  by (cases "g (fst (mc_rest w))") (auto simp: in_regs_def)

lemma demo_scm_ok: "scm_laws demo_scm demo_service_of"
  unfolding scm_laws_def
proof
  show "scm_queries demo_scm demo_service_of"
    by (auto simp: scm_queries_def demo_scm_def in_scm_iff plain_scm_def at_service_iff demo_service_of_def split: if_splits)
  show "scm_changes demo_scm demo_service_of"
    by (auto simp: scm_changes_def demo_scm_def in_scm_iff plain_scm_def at_service_iff demo_service_of_def same_reg_def)
qed

lemma demo_registry_ok: "reg_laws demo_registry demo_regs_of id"
  unfolding reg_laws_def
proof (intro conjI)
  show "reg_reads demo_registry demo_regs_of id"
    by (auto simp: reg_reads_def reg_at_def demo_registry_def demo_reg_def in_regs_def demo_regs_of_def split: option.splits if_splits)
  show "reg_writes demo_registry demo_regs_of"
    by (auto simp: reg_writes_def reg_at_def demo_registry_def in_regs_def demo_regs_of_def split: option.splits if_splits)
  show "\<forall>k w w'. rg_delete_key demo_registry k w = (2, w') \<longrightarrow> demo_regs_of w k = None"
    by (auto simp: demo_registry_def in_regs_def demo_regs_of_def split: if_splits)
qed

lemma at_service_same: "snd (at_service (\<lambda>s. (g s, Some s)) w) = w"
  by (cases w) (simp add: at_service_def split: option.split)

lemma demo_host_parts [simp]:
  "ho_scm (demo_host deny) = demo_scm" "ho_reg (demo_host deny) = demo_registry"
  "ho_crypt (demo_host deny) = demo_dpapi" "ho_ras (demo_host deny) = demo_ras deny"
  "ho_check_entry (demo_host deny) p n w = (0, w)" "ho_clear (demo_host deny) p n w = (0, w)"
  "ho_to_toml (demo_host deny) = demo_to_toml" "ho_from_toml (demo_host deny) = demo_from_toml"
  by (simp_all add: demo_host_def)

lemma demo_keeps:
  assumes "\<And>w x. f (w\<lparr>mc_rest := (fst (mc_rest w), x)\<rparr>) = f w"
  shows "commands_keep (demo_host deny) f"
  using assms by (simp add: commands_keep_def demo_scm_def in_scm_def demo_ras_def Let_def)

lemma demo_queries: "queries_keep (demo_host deny) f"
  by (simp add: queries_keep_def demo_scm_def in_scm_def plain_scm_def at_service_same demo_registry_def demo_reg_def in_regs_def demo_dpapi_def Let_def)

lemma demo_host_laws: "machine_laws (demo_host deny) demo_regs_of id demo_service_of"
  unfolding machine_laws_def
  by (intro conjI demo_keeps demo_queries) (simp_all add: demo_scm_ok demo_registry_ok off_disk_def demo_regs_of_def demo_service_of_def nodes_def)

definition demo_machine :: "svc option \<Rightarrow> demo_rest machine" where
  "demo_machine s = \<lparr>mc_disk = demo_disk [], mc_rest = ([run_key \<mapsto> Map.empty], (s, 0))\<rparr>"

definition demo_request :: install_request where
  "demo_request = \<lparr>iq_cfg_path = ''C:'' @ [CHR 92] @ ''cfg.toml'', iq_student_id = Some ''31'', iq_credential = KeepExisting,
     iq_service_exe = ''new.exe'', iq_tray_exe = ''new.exe''\<rparr>"

lemma demo_paths:
  "path_of (iq_cfg_path demo_request) = [''C:'', ''cfg.toml'']"
  "path_of (dc_pbk_path (cf_dial config_default)) = [''C:'', ''ProgramData'', ''gdut-net'', ''gdut.pbk'']"
  by code_simp+

lemma demo_disk_paths:
  "next_fault (demo_disk []) = None" "use_fault (demo_disk []) = demo_disk []"
  "node_at (demo_disk []) [''C:'', ''cfg.toml''] = None"
  "node_at (demo_disk []) [''C:'', ''ProgramData'', ''gdut-net'', ''gdut.pbk''] = None"
  by (simp_all add: demo_disk_def next_fault_def use_fault_def fmlookup_of_list)

definition demo_backup :: install_backup where
  "demo_backup =
     \<lparr>ib_files = [([''C:'', ''cfg.toml''], None), ([''C:'', ''ProgramData'', ''gdut-net'', ''gdut.pbk''], None)],
      ib_cfg = config_default, ib_old_password = None, ib_had_entry = False,
      ib_autostart = \<lparr>rb_key = run_key, rb_existed = True, rb_values = [(''gdut-net-tray'', None)]\<rparr>\<rparr>"

lemma demo_registry_simps:
  "rg_open demo_registry a k = in_regs (rg_open plain_registry a k)" "rg_size demo_registry k n = in_regs (rg_size plain_registry k n)"
  "rg_create demo_registry k = in_regs (rg_create plain_registry k)" "rg_delete demo_registry k n = in_regs (rg_delete plain_registry k n)"
  "rg_get demo_registry m k n = in_regs (rg_get demo_reg m k n)" "rg_set demo_registry k n v = in_regs (rg_set plain_registry k n v)"
  "rg_info demo_registry k = in_regs (rg_info plain_registry k)" "rg_close demo_registry k = in_regs (rg_close plain_registry k)"
  by (simp_all add: demo_registry_def)

lemma demo_config: "config_or_default (demo_host d) (iq_cfg_path demo_request) (demo_machine s) = (Inr (config_default, False), demo_machine s)"
  by (simp add: config_or_default_def on_disk_def demo_machine_def fs_exists_def demo_paths demo_disk_paths)

lemma demo_entry: "dial_entry_exists (demo_host d) config_default (demo_machine s) = (Inr False, demo_machine s)"
  by (simp add: dial_entry_exists_def on_disk_def demo_machine_def fs_exists_def demo_paths demo_disk_paths)

lemma demo_install_capture: "install_capture (demo_host d) (iq_cfg_path demo_request) (demo_machine s) = (Inr demo_backup, demo_machine s)"
  by (simp add: install_capture_def demo_config demo_entry)
    (simp add: demo_machine_def on_disk_def demo_paths demo_disk_paths backup_capture_def fs_read_def
      attempt_def registry_capture_def demo_registry_simps in_regs_def read_value_def reg_at_def ensure_def demo_backup_def)

lemma demo_core: "\<exists>e. install_core (demo_host d) demo_request (demo_machine s) = (Inl e, demo_machine s)"
  by (simp add: install_core_def write_config_def demo_config install_password_def)
    (simp add: demo_request_def install_password_def config_default_def account_default_def)

lemma demo_restore: "\<exists>w. install_restore (demo_host d) demo_backup (demo_machine None) = (Inr (), w)"
proof -
  have f: "fs_remove_file p (demo_disk []) = (Inl NotFound, demo_disk [])" if "p \<in> fst ` set (ib_files demo_backup)" for p
    using that by (auto simp: demo_backup_def fs_remove_file_def attempt_def demo_disk_paths)
  have b: "backup_restore (ib_files demo_backup) (demo_disk []) = (Inr (), demo_disk [])"
    using f by (simp add: backup_restore_def restore_file_def ensure_def demo_backup_def)
  have "clear_new_credentials (demo_host d) demo_backup (demo_machine None) = ([], demo_machine None)"
    by (simp add: clear_new_credentials_def demo_entry demo_backup_def)
  moreover have "registry_restore demo_registry (ib_autostart demo_backup) (demo_machine None) = (Inr (), demo_machine None)"
    by (simp add: registry_restore_def demo_backup_def demo_registry_simps in_regs_def demo_machine_def restore_value_def ensure_def)
  ultimately show ?thesis using b
    by (simp add: install_restore_def noting_def on_disk_def demo_machine_def)
      (simp add: demo_backup_def ensure_def)
qed

theorem failed_install_is_undone_witness:
  "\<exists>f w2. install_with_rollback (demo_host 0) demo_request PrevNone (demo_machine None) = (Inl f, w2)
    \<and> if_rollback f = Restored \<and> nodes w2 [''C:'', ''cfg.toml''] = None \<and> demo_service_of w2 = None"
proof -
  obtain w where w: "install_restore (demo_host 0) demo_backup (demo_machine None) = (Inr (), w)" using demo_restore by blast
  have prev: "capture_prev_service (ho_scm (demo_host 0)) (demo_machine None) = (PrevNone, demo_machine None)"
    by (simp add: capture_prev_service_def demo_scm_def in_scm_def plain_scm_def demo_machine_def)
  obtain u wu where u: "rollback_install demo_scm PrevNone w = (u, wu)" by force
  obtain e where core: "install_core (demo_host 0) demo_request (demo_machine None) = (Inl e, demo_machine None)"
    using demo_core by blast
  have r: "install_with_rollback (demo_host 0) demo_request PrevNone (demo_machine None)
      = (Inl \<lparr>if_error = e, if_rollback = u\<rparr>, wu)"
    using core by (simp add: install_with_rollback_def demo_install_capture w u)
  have "u = Restored"
    using u by (cases "fst (snd (mc_rest w))") (auto simp: rollback_install_def delete_service_def demo_scm_def in_scm_def plain_scm_def at_service_def)
  moreover have names: "\<forall>cfg had w. config_or_default (demo_host 0) (iq_cfg_path demo_request) (demo_machine None) = (Inr (cfg, had), w) \<longrightarrow>
      \<not> is_staging (path_of (iq_cfg_path demo_request)) \<and> \<not> is_staging (path_of (dc_pbk_path (cf_dial cfg)))"
    by (auto simp: demo_config is_staging_def demo_paths)
  have "nodes (demo_machine None) [''C:'', ''cfg.toml''] = None" "demo_service_of (demo_machine None) = None"
    by (simp_all add: nodes_def demo_machine_def demo_disk_paths demo_service_of_def)
  ultimately show ?thesis
    using failed_install_is_undone [OF demo_host_laws prev r names] r by (simp add: demo_paths same_reg_def)
qed

section \<open>What a successful installation has stored\<close>

text \<open>
  The calls that follow the written configuration leave its file alone, and the TOML codec reads back what
  it wrote.
\<close>

definition leaves_alone :: "'w host \<Rightarrow> ('w \<Rightarrow> 'b) \<Rightarrow> bool" where
  "leaves_alone H f \<longleftrightarrow>
     queries_keep H f \<and> commands_keep H f
   \<and> (\<forall>w. f (snd (sc_stop (ho_scm H) w)) = f w) \<and> (\<forall>i w. f (snd (sc_create (ho_scm H) i w)) = f w)
   \<and> (\<forall>i w. f (snd (sc_change (ho_scm H) i w)) = f w) \<and> (\<forall>r d w. f (snd (sc_recovery (ho_scm H) r d w)) = f w)
   \<and> (\<forall>d w. f (sc_sleep (ho_scm H) d w) = f w)
   \<and> (\<forall>k w. f (snd (rg_create (ho_reg H) k w)) = f w) \<and> (\<forall>k n v w. f (snd (rg_set (ho_reg H) k n v w)) = f w)
   \<and> (\<forall>p n e w. f (snd (ra_set_entry (ho_ras H) p n e w)) = f w)"

definition toml_laws :: "'w host \<Rightarrow> bool" where
  "toml_laws H \<longleftrightarrow>
     (\<forall>cfg body. ho_to_toml H cfg = Some body \<longrightarrow> ho_from_toml H body = Some cfg \<and> utf8_valid (bytes_of body))"

lemma leaves_aloneD:
  assumes "leaves_alone H f"
  shows "queries_keep H f" "commands_keep H f" "f (snd (sc_stop (ho_scm H) w)) = f w"
    "f (snd (sc_create (ho_scm H) i w)) = f w" "f (snd (sc_change (ho_scm H) i w)) = f w"
    "f (snd (sc_recovery (ho_scm H) r d w)) = f w" "f (sc_sleep (ho_scm H) du w) = f w"
    "f (snd (rg_create (ho_reg H) k w)) = f w" "f (snd (rg_set (ho_reg H) k n v w)) = f w"
    "f (snd (ra_set_entry (ho_ras H) p en e w)) = f w"
  using assms by (auto simp: leaves_alone_def simp del: split_paired_All)

lemmas alone_simps = leaves_aloneD queries_keepD [OF leaves_aloneD(1)] commands_keepD [OF leaves_aloneD(2)]

lemma create_service_alone:
  assumes "leaves_alone H f"
  shows "f (snd (create_service (ho_scm H) c e w)) = f w"
proof -
  have "f (snd (settle_stopped (ho_scm H) n w)) = f w" for n w
    using assms by (induction n arbitrary: w) (simp_all add: snd_then_do alone_simps split: sum.split)
  then show ?thesis
    using assms by (simp add: create_service_def refresh_service_def snd_simps alone_simps split: sum.split create_error.split)
qed

lemma register_source_alone: "leaves_alone H f \<Longrightarrow> f (snd (register_source (ho_reg H) w)) = f w"
  by (simp add: register_source_def open_source_key_def snd_simps alone_simps split: sum.split)

lemma set_string_alone: "leaves_alone H f \<Longrightarrow> f (snd (reg_set_string (ho_reg H) k n s w)) = f w"
  by (simp add: reg_set_string_def reg_set_value_def reg_create_def snd_simps alone_simps split: sum.split)

lemma recovery_alone: "leaves_alone H f \<Longrightarrow> f (snd (set_recovery_actions (ho_scm H) w)) = f w"
  by (simp add: set_recovery_actions_def snd_simps alone_simps split: sum.split)

lemma entry_alone: "leaves_alone H f \<Longrightarrow> f (snd (ensure_entry (ho_ras H) p n w)) = f w"
  by (simp add: ensure_entry_def case_prod_unfold Let_def alone_simps)

text \<open>Making folders never changes a file.\<close>

lemma new_folder_file: "node_at d p = Some (File b) \<Longrightarrow> node_at d a = None \<Longrightarrow> node_at (set_node a n d) p = Some (File b)"
  by auto

lemma make_folders_file: "node_at d p = Some (File b) \<Longrightarrow> node_at (snd (make_folders ps d)) p = Some (File b)"
  by (induction ps arbitrary: d) (auto simp: new_folder_file simp del: node_at_set split: option.split node.split)

lemma create_dir_file: "node_at d p = Some (File b) \<Longrightarrow> node_at (snd (fs_create_dir_all q d)) p = Some (File b)"
  by (auto simp: fs_create_dir_all_def attempt_def make_folders_file split: option.split)

lemma fs_write_ok: "fs_write p b d = (Inr (), d') \<Longrightarrow> node_at d' p = Some (File b)"
  by (auto simp: fs_write_def fs_write_all_def split: if_splits option.splits)

lemma save_config_ok:
  assumes "save_config H cfg path w = (Inr (), w')"
  shows "\<exists>body. ho_to_toml H cfg = Some body \<and> nodes w' (path_of path) = Some (File (bytes_of body))"
proof -
  from assms obtain body wa d where b: "ho_to_toml H cfg = Some body"
    and d: "fs_write (path_of path) (bytes_of body) (mc_disk wa) = (Inr (), d)" "w' = wa\<lparr>mc_disk := d\<rparr>"
    by (auto simp: save_config_def then_do_Inr on_disk_Inr split: option.splits)
  from fs_write_ok [OF d(1)] b d(2) show ?thesis by (simp add: nodes_def)
qed

lemma load_config_ok:
  assumes "toml_laws H" "ho_to_toml H cfg = Some body" "validate cfg = Inr ()"
    and "nodes w (path_of path) = Some (File (bytes_of body))" "calm (mc_disk w)"
  shows "load_config H path w = (Inr cfg, w)"
proof -
  have "fs_read (path_of path) (mc_disk w) = (Inr (bytes_of body), mc_disk w)"
    using assms(4,5) by (simp add: fs_read_def attempt_def nodes_def)
  with assms(1-3) show ?thesis
    by (simp add: load_config_def on_disk_def read_to_string_def config_load_def toml_laws_def)
qed

lemma default_urls:
  "parse_http_probe_target default_portal_url \<noteq> None" "parse_ipv4 default_probe_host \<noteq> None"
  "parse_http_probe_target ''http://223.5.5.5'' \<noteq> None"
  by (simp_all add: parse_http_probe_target_def parse_url_def default_portal_url_def
      default_probe_host_def strip_prefix_def rsplit_once_def parse_ipv4_def parse_octet_def
      is_digit_def digits_val_def digit_val_def parse_uint_def dec.simps digit_def char_of_def
      bit_Suc_0_iff)

lemma new_account_valid:
  assumes "cfg = config_default \<or> validate cfg = Inr ()" and "trim sid \<noteq> []"
  shows "validate ((migrate_probe_url cfg)\<lparr>cf_account := \<lparr>ac_student_id = sid, ac_password_blob = blob\<rparr>\<rparr>) = Inr ()"
  using assms default_urls
  by (auto simp: validate_Inr migrate_probe_url_def config_default_def dial_default_def heartbeat_default_def wireless_default_def
      wireless_ok_def default_takeover_after_def default_release_after_def default_standby_metric_def)

lemma write_config_ok:
  assumes "write_config H req w = (Inr (cfg, password), w')" and "iq_credential req = PlainText p"
  shows "password = p \<and> p \<noteq> [] \<and> (\<exists>w1 w2 blob old had w0.
      config_or_default H (iq_cfg_path req) w = (Inr (old, had), w0)
    \<and> protect (ho_reg H) (ho_crypt H) p w1 = (Inr blob, w2)
    \<and> cfg = (migrate_probe_url old)\<lparr>cf_account :=
        \<lparr>ac_student_id = ac_student_id (cf_account (take_student_id (iq_student_id req) old)), ac_password_blob = blob\<rparr>\<rparr>
    \<and> trim (ac_student_id (cf_account cfg)) \<noteq> []
    \<and> save_config H cfg (iq_cfg_path req) w2 = (Inr (), w'))"
proof -
  have acc: "cf_account (migrate_probe_url c) = cf_account c" for c by (simp add: migrate_probe_url_def)
  have take: "migrate_probe_url (take_student_id g c) = (migrate_probe_url c)\<lparr>cf_account := cf_account (take_student_id g c)\<rparr>" for g c
    by (auto simp: migrate_probe_url_def take_student_id_def split: option.split)
  have upd: "a\<lparr>ac_password_blob := blob\<rparr> = \<lparr>ac_student_id = ac_student_id a, ac_password_blob = blob\<rparr>" for a :: account and blob
    by (cases a) simp
  from assms show ?thesis
    by (auto simp: write_config_def then_do_Inr Let_def install_password_def store_password_def acc take upd split: if_splits)
      (intro exI conjI; (assumption | rule refl))
qed

lemma core_after_config:
  assumes "leaves_alone H (\<lambda>w. nodes w q)" and "install_core H req w = (Inr u, w')"
    and "\<And>cfg password w1. write_config H req w = (Inr (cfg, password), w1) \<Longrightarrow> nodes w1 q = Some (File b)"
  shows "nodes w' q = Some (File b)"
proof -
  let ?f = "\<lambda>w. nodes w q"
  note alone = entry_alone [OF assms(1)] create_service_alone [OF assms(1)] recovery_alone [OF assms(1)]
    register_source_alone [OF assms(1)] set_string_alone [OF assms(1)] leaves_aloneD(2) [OF assms(1)]
  from assms(2) obtain cfg password w1 w2 w3 w4 w5 r where
    s: "write_config H req w = (Inr (cfg, password), w1)" "make_pbk_folder (dc_pbk_path (cf_dial cfg)) w1 = (Inr (), w2)"
    "ensure_entry (ho_ras H) (dc_pbk_path (cf_dial cfg)) (dc_entry_name (cf_dial cfg)) w2 = (Inr (), w3)"
    "set_credentials (ho_ras H) (dc_pbk_path (cf_dial cfg)) (dc_entry_name (cf_dial cfg))
        (ac_student_id (cf_account cfg)) password w3 = (Inr (), w4)"
    "create_service (ho_scm H) (iq_cfg_path req) (iq_service_exe req) w4 = (Inr r, w5)"
    "register_autostart (ho_reg H) (iq_tray_exe req)
        (snd (register_source (ho_reg H) (snd (set_recovery_actions (ho_scm H) w5)))) = (Inr (), w')"
    by (auto simp: install_core_def then_do_Inr Let_def)
  have "nodes w2 q = Some (File b)"
    using s(2) assms(3) [OF s(1)] create_dir_file [of "mc_disk w1" q b]
    by (auto simp: make_pbk_folder_def nodes_def on_disk_Inr split: option.splits)
      (metis snd_conv)
  moreover have "?f w3 = ?f w2" by (rule keeps_at [OF _ s(3)]) (rule alone)
  moreover have "?f w4 = ?f w3" by (rule keeps_at [OF _ s(4)]) (rule set_credentials_keeps [OF alone(6)])
  moreover have "?f w5 = ?f w4" by (rule keeps_at [OF _ s(5)]) (rule alone)
  moreover have "?f w' = ?f w5"
    by (rule keeps_at [OF _ s(6)]) (simp add: register_autostart_def alone)
  ultimately show ?thesis by simp
qed


lemma ascii_utf8: "list_all (\<lambda>c. of_char c < (128 :: nat)) s \<Longrightarrow> utf8_valid (bytes_of s)"
  by (induction s) (auto simp: bytes_of_def unat_of_nat Let_def)

lemma hexdigit_ascii: "is_hexdigit c \<Longrightarrow> of_char c < (128 :: nat)" "is_hexdigit c \<Longrightarrow> c \<noteq> CHR ''=''"
  by (auto simp: is_hexdigit_def Let_def)

lemma hex_ascii: "list_all (\<lambda>c. of_char c < (128 :: nat)) (hex_encode b)" "CHR ''='' \<notin> set (hex_encode b)"
  using hex_encode_props(2) [of b] hexdigit_ascii by (auto simp: list_all_iff)

lemma demo_toml: "toml_laws (demo_host d)"
proof -
  have "demo_from_toml body = Some cfg \<and> utf8_valid (bytes_of body)" if b: "demo_to_toml cfg = Some body" for cfg body
  proof -
    let ?x = "hex_encode (bytes_of (ac_student_id (cf_account cfg)))" and ?y = "hex_encode (bytes_of (ac_password_blob (cf_account cfg)))"
    from b have c: "cfg = config_default\<lparr>cf_account := cf_account cfg\<rparr>" and body: "body = ?x @ ''='' @ ?y"
      by (auto simp: demo_to_toml_def split: if_splits)
    have "split_once (CHR ''='') body = Some (?x, ?y)" by (simp add: body split_once_Some hex_ascii)
    then have "demo_from_toml body = Some (config_default\<lparr>cf_account := cf_account cfg\<rparr>)"
      by (simp add: demo_from_toml_def hex_decode_encode)
    moreover have "utf8_valid (bytes_of body)" by (rule ascii_utf8) (simp add: body hex_ascii)
    ultimately show ?thesis using c by simp
  qed
  then show ?thesis by (simp add: toml_laws_def)
qed

lemma demo_crypt_laws: "crypt_laws (ho_reg (demo_host d)) (ho_crypt (demo_host d))"
  by (simp add: crypt_laws_def demo_registry_def demo_reg_def in_regs_def demo_dpapi_def entropy_len_def Let_def)

lemma demo_alone: "leaves_alone (demo_host d) (\<lambda>w. nodes w q)"
  unfolding leaves_alone_def
  by (intro conjI demo_keeps demo_queries)
    (simp_all add: nodes_def demo_scm_def in_scm_def demo_registry_def in_regs_def demo_ras_def Let_def)

lemma demo_set:
  "\<exists>w'. reg_set_value demo_registry k n v w = (Inr (), w') \<and> mc_disk w' = mc_disk w \<and> snd (mc_rest w') = snd (mc_rest w)"
  by (cases "fst (mc_rest w) k")
    (auto simp: reg_set_value_def reg_create_def demo_registry_simps in_regs_def Let_def split: option.split)

lemma demo_protect:
  "\<exists>blob w'. protect demo_registry demo_dpapi p w = (Inr blob, w') \<and> mc_disk w' = mc_disk w \<and> snd (mc_rest w') = snd (mc_rest w)"
  by (cases "fst (mc_rest w) entropy_key")
    (simp_all add: protect_def ensure_entropy_def demo_registry_simps demo_reg_def demo_dpapi_def in_regs_def Let_def)

definition demo_account :: "string \<Rightarrow> config" where
  "demo_account blob = config_default\<lparr>cf_account := \<lparr>ac_student_id = ''31'', ac_password_blob = blob\<rparr>\<rparr>"

lemma demo_save:
  assumes "mc_disk w = demo_disk []"
  shows "\<exists>b. save_config (demo_host d) (demo_account blob) (iq_cfg_path demo_request) w
    = (Inr (), w\<lparr>mc_disk := set_node [''C:'', ''cfg.toml''] (File b) (demo_disk [])\<rparr>)"
proof -
  have "node_at (demo_disk []) [''C:''] = Some Folder" by (simp add: demo_disk_def fmlookup_of_list)
  with assms show ?thesis
    by (simp add: save_config_def parent_folder_def demo_paths path_parent_def is_root_def on_disk_def fs_create_dir_all_def
        attempt_def ancestors_def demo_disk_paths demo_to_toml_def demo_account_def fs_write_def fs_write_all_def)
      (auto simp: set_node_def)
qed

lemma demo_folder:
  assumes "mc_disk w = set_node [''C:'', ''cfg.toml''] (File b) (demo_disk [])"
  shows "\<exists>w'. make_pbk_folder (dc_pbk_path (cf_dial config_default)) w = (Inr (), w') \<and> mc_rest w' = mc_rest w"
proof -
  have "node_at (demo_disk []) [''C:''] = Some Folder"
    "node_at (demo_disk []) [''C:'', ''ProgramData''] = None" "node_at (demo_disk []) [''C:'', ''ProgramData'', ''gdut-net''] = None"
    by (simp_all add: demo_disk_def fmlookup_of_list)
  moreover have "next_fault (set_node p n (demo_disk [])) = None" "use_fault (set_node p n (demo_disk [])) = set_node p n (demo_disk [])" for p n
    by (simp_all add: set_node_def next_fault_def use_fault_def demo_disk_def)
  ultimately show ?thesis using assms
    by (simp add: make_pbk_folder_def demo_paths path_parent_def is_root_def on_disk_def fs_create_dir_all_def attempt_def
        ancestors_def demo_disk_paths)
qed

lemma demo_install:
  "\<exists>u w'. install_core (demo_host 0) (demo_request\<lparr>iq_credential := PlainText ''pw''\<rparr>) (demo_machine None) = (Inr u, w')"
proof -
  let ?w = "demo_machine None"
  obtain blob w1 where p: "protect demo_registry demo_dpapi ''pw'' ?w = (Inr blob, w1)" "mc_disk w1 = demo_disk []"
    "snd (mc_rest w1) = (None, 0)"
    using demo_protect [of "''pw''" ?w] by (auto simp: demo_machine_def)
  obtain b where s: "save_config (demo_host 0) (demo_account blob) (iq_cfg_path demo_request) w1
    = (Inr (), w1\<lparr>mc_disk := set_node [''C:'', ''cfg.toml''] (File b) (demo_disk [])\<rparr>)" using demo_save [OF p(2)] by blast
  obtain w2 where f: "make_pbk_folder (dc_pbk_path (cf_dial config_default)) (w1\<lparr>mc_disk := set_node [''C:'', ''cfg.toml''] (File b) (demo_disk [])\<rparr>)
    = (Inr (), w2)" "mc_rest w2 = mc_rest w1"
    using demo_folder [of "w1\<lparr>mc_disk := set_node [''C:'', ''cfg.toml''] (File b) (demo_disk [])\<rparr>"] by auto
  have e: "ensure_entry (demo_ras 0) a c w = (Inr (), w)" "set_credentials (demo_ras 0) a c g h w = (Inr (), w)"
    for a c g h and w :: "demo_rest machine"
    by (simp_all add: ensure_entry_def set_credentials_def demo_ras_def)
  obtain w3 where v: "create_service demo_scm (iq_cfg_path demo_request) (iq_service_exe demo_request) w2 = (Inr False, w3)"
    using f(2) p(3) by (simp add: create_service_def demo_scm_def in_scm_def plain_scm_def)
  have c: "write_config (demo_host 0) (demo_request\<lparr>iq_credential := PlainText ''pw''\<rparr>) ?w
    = (Inr (demo_account blob, ''pw''), w1\<lparr>mc_disk := set_node [''C:'', ''cfg.toml''] (File b) (demo_disk [])\<rparr>)"
  proof -
    have sid: "trim ''31'' \<noteq> []" by code_simp
    have "migrate_probe_url (take_student_id (iq_student_id demo_request) config_default) = config_default\<lparr>cf_account := \<lparr>ac_student_id = ''31'', ac_password_blob = []\<rparr>\<rparr>"
      using sid by (simp add: migrate_probe_url_def take_student_id_def demo_request_def config_default_def dial_default_def account_default_def)
    moreover have "ac_student_id (cf_account (take_student_id (iq_student_id demo_request) config_default)) = ''31''"
      using sid by (simp add: take_student_id_def demo_request_def)
    ultimately show ?thesis using p(1) s sid
      by (simp add: write_config_def demo_config install_password_def store_password_def ensure_def demo_account_def)
  qed
  obtain w4 where "reg_set_value demo_registry run_key (Some ''gdut-net-tray'') (reg_sz, wide_bytes ([CHR 34] @ iq_tray_exe demo_request @ [CHR 34] @ '' tray''))
      (snd (register_source demo_registry (snd (set_recovery_actions demo_scm w3)))) = (Inr (), w4)"
    using demo_set by blast
  then show ?thesis using f(1) v
    by (simp add: install_core_def c e register_autostart_def reg_set_string_def Let_def)
      (simp add: demo_account_def)
qed


end
