(* ===== verification/Shell_Integration.thy ===== *)
theory Shell_Integration
  imports Install_Props Adapter
begin

text \<open>
  \<open>src/src/shell.rs\<close> and the table of \<open>src/src/shell_shortcuts.rs\<close>: Start Menu shortcuts, the uninstall
  entry in the registry, their backup, and the delayed removal of the installation folder. The COM calls
  that write a shortcut are an argument, as are the environment variables.
\<close>

section \<open>The shortcuts\<close>

text \<open>Names that are not ASCII are given by their UTF-8 bytes.\<close>

record shortcut =
  st_name :: string
  st_target :: string
  st_args :: string
  st_admin :: bool

definition shortcuts :: "shortcut list" where
  "shortcuts =
     [\<lparr>st_name = ''GDUT Net'', st_target = ''gdut-net.exe'', st_args = [], st_admin = False\<rparr>,
      \<lparr>st_name = [CHR 0xE7, CHR 0x8A, CHR 0xB6, CHR 0xE6, CHR 0x80, CHR 0x81, CHR 0xE6, CHR 0x9F, CHR 0xA5, CHR 0xE7, CHR 0x9C, CHR 0x8B], st_target = ''status.bat'', st_args = [], st_admin = False\<rparr>,
      \<lparr>st_name = [CHR 0xE5, CHR 0x9B, CHR 0x9E, CHR 0xE6, CHR 0xA0, CHR 0xA1, CHR 0xE6, CHR 0xA8, CHR 0xA1, CHR 0xE5, CHR 0xBC, CHR 0x8F], st_target = ''campus.bat'', st_args = [], st_admin = True\<rparr>,
      \<lparr>st_name = [CHR 0xE5, CHR 0x9B, CHR 0x9E, CHR 0xE5, CHR 0xAE, CHR 0xB6, CHR 0xE6, CHR 0xA8, CHR 0xA1, CHR 0xE5, CHR 0xBC, CHR 0x8F], st_target = ''home.bat'', st_args = [], st_admin = True\<rparr>,
      \<lparr>st_name = [CHR 0xE5, CHR 0x90, CHR 0xAF, CHR 0xE5, CHR 0x8A, CHR 0xA8, CHR 0xE6, CHR 0x89, CHR 0x98, CHR 0xE7, CHR 0x9B, CHR 0x98], st_target = ''gdut-net.exe'', st_args = ''tray'', st_admin = False\<rparr>,
      \<lparr>st_name = [CHR 0xE6, CHR 0x97, CHR 0xA0, CHR 0xE7, CHR 0xBA, CHR 0xBF, CHR 0xE4, CHR 0xBD, CHR 0x93, CHR 0xE6, CHR 0xA3, CHR 0x80], st_target = ''wireless-test.bat'', st_args = [], st_admin = True\<rparr>,
      \<lparr>st_name = [CHR 0xE6, CHR 0x89, CHR 0x93, CHR 0xE5, CHR 0xBC, CHR 0x80, CHR 0xE6, CHR 0x97, CHR 0xA5, CHR 0xE5, CHR 0xBF, CHR 0x97], st_target = ''open-logs.bat'', st_args = [], st_admin = False\<rparr>,
      \<lparr>st_name = [CHR 0xE4, CHR 0xBB, CHR 0xA3, CHR 0xE7, CHR 0x90, CHR 0x86, CHR 0xE6, CHR 0xA3, CHR 0x80, CHR 0xE6, CHR 0x9F, CHR 0xA5], st_target = ''proxy-check.bat'', st_args = [], st_admin = False\<rparr>,
      \<lparr>st_name = [CHR 0xE8, CHR 0xAF, CHR 0xB4, CHR 0xE6, CHR 0x98, CHR 0x8E], st_target = [CHR 0xE8, CHR 0xAF, CHR 0xB4, CHR 0xE6, CHR 0x98, CHR 0x8E] @ ''.txt'', st_args = [], st_admin = False\<rparr>,
      \<lparr>st_name = [CHR 0xE5, CHR 0x8D, CHR 0xB8, CHR 0xE8, CHR 0xBD, CHR 0xBD] @ '' GDUT Net'', st_target = ''gdut-net-setup.exe'', st_args = ''--uninstall'', st_admin = True\<rparr>]"

definition extra_targets :: "string list" where
  "extra_targets = [''gdut-net.exe'', ''gdut-net-setup.exe'']"

section \<open>What Windows does\<close>

text \<open>
  A shortcut as it is saved. \<open>sa_save\<close> stands for the calls on the shell link from its creation to
  \<open>IPersistFile::Save\<close>; \<open>sa_spawn\<close> starts \<open>cmd /c\<close> with a command line, detached, in the folder for
  temporary files.
\<close>

record link =
  ln_target :: string
  ln_args :: string
  ln_description :: string
  ln_folder :: "string option"
  ln_admin :: bool

record 'w shell_api =
  sa_program_data :: "string option"
  sa_program_files :: "string option"
  sa_com_init :: "'w \<Rightarrow> (string + unit) \<times> 'w"
  sa_com_exit :: "'w \<Rightarrow> 'w"
  sa_save :: "fpath \<Rightarrow> link \<Rightarrow> 'w \<Rightarrow> (string + unit) \<times> 'w"
  sa_spawn :: "string \<Rightarrow> 'w \<Rightarrow> (string + unit) \<times> 'w"

definition start_menu_folder :: string where "start_menu_folder = ''GDUT Net''"

definition uninstall_key :: reg_key where
  "uninstall_key = (HkeyLocalMachine,
     ''SOFTWARE'' @ backslash @ ''Microsoft'' @ backslash @ ''Windows'' @ backslash @ ''CurrentVersion'' @ backslash @ ''Uninstall''
       @ backslash @ ''gdut-net'')"

definition start_menu_dir :: "'w shell_api \<Rightarrow> err + string" where
  "start_menu_dir A =
     (case sa_program_data A of
        None \<Rightarrow> Inl (Msg ''ProgramData is not set'')
      | Some base \<Rightarrow> Inr (path_join (path_join base (''Microsoft'' @ backslash @ ''Windows'' @ backslash @ ''Start Menu'' @ backslash
           @ ''Programs'')) start_menu_folder))"

definition shortcut_file :: "string \<Rightarrow> shortcut \<Rightarrow> fpath" where
  "shortcut_file dir s = path_of (path_join dir (st_name s @ ''.lnk''))"

section \<open>The backup\<close>

record shell_backup =
  sb_files :: file_backup
  sb_registry :: registry_backup
  sb_directory :: fpath
  sb_existed :: bool

definition uninstall_values :: "string list" where
  "uninstall_values =
     [''DisplayName'', ''DisplayVersion'', ''InstallLocation'', ''DisplayIcon'', ''UninstallString'', ''QuietUninstallString'',
      ''NoModify'', ''NoRepair'']"

definition shell_capture :: "'x machine host \<Rightarrow> 'x machine shell_api \<Rightarrow> 'x machine \<Rightarrow> (shell_backup, 'x machine) outcome" where
  "shell_capture H A w =
     (case start_menu_dir A of
        Inl e \<Rightarrow> (Inl e, w)
      | Inr dir \<Rightarrow>
          then_do (io (on_disk (fs_try_exists (path_of dir)) w)) (\<lambda>existed w.
          then_do (on_disk (backup_capture (map (shortcut_file dir) shortcuts)) w) (\<lambda>files w.
          then_do (registry_capture (ho_reg H) uninstall_key uninstall_values w) (\<lambda>registry w.
            (Inr \<lparr>sb_files = files, sb_registry = registry, sb_directory = path_of dir, sb_existed = existed\<rparr>, w)))))"

definition remove_new_folder :: "shell_backup \<Rightarrow> 'x machine \<Rightarrow> err list \<times> 'x machine" where
  "remove_new_folder b w =
     (if sb_existed b then ([], w)
      else (case on_disk (fs_remove_dir (sb_directory b)) w of
              (Inr _, w) \<Rightarrow> ([], w)
            | (Inl e, w) \<Rightarrow> (if e = NotFound \<or> e = NotEmpty then [] else [Ctx ''Failed to remove new Start Menu folder'' (Io e)], w)))"

definition shell_restore :: "'x machine host \<Rightarrow> shell_backup \<Rightarrow> 'x machine \<Rightarrow> (unit, 'x machine) outcome" where
  "shell_restore H b w =
     (let (e1, w) = noting [] (on_disk (backup_restore (sb_files b)) w);
          (e2, w) = noting [] (registry_restore (ho_reg H) (sb_registry b) w);
          (e3, w) = remove_new_folder b w
      in ensure (e1 @ e2 @ e3 = []) (Several ''Shell rollback failed'' (e1 @ e2 @ e3)) w)"

section \<open>Creating and removing\<close>

text \<open>\<open>Path::parent\<close> of a target, as text: the target is a file in the installation folder.\<close>

definition link_of :: "string \<Rightarrow> shortcut \<Rightarrow> link" where
  "link_of folder s =
     \<lparr>ln_target = path_join folder (st_target s), ln_args = st_args s, ln_description = st_name s,
      ln_folder = Some folder, ln_admin = st_admin s\<rparr>"

definition create_shortcut :: "'w shell_api \<Rightarrow> fpath \<Rightarrow> link \<Rightarrow> 'w \<Rightarrow> (unit, 'w) outcome" where
  "create_shortcut A lnk l w =
     (case sa_com_init A w of
        (Inl e, w) \<Rightarrow> (Inl (Msg (''CoInitializeEx failed: '' @ e)), w)
      | (Inr _, w) \<Rightarrow>
          (let (r, w) = sys (sa_save A lnk l w); w = sa_com_exit A w
           in with_ctx ''Failed to create shortcut'' (r, w)))"

primrec create_shortcuts ::
  "'x machine shell_api \<Rightarrow> string \<Rightarrow> string \<Rightarrow> shortcut list \<Rightarrow> 'x machine \<Rightarrow> (unit, 'x machine) outcome" where
  "create_shortcuts A dir folder [] w = (Inr (), w)"
| "create_shortcuts A dir folder (s # ss) w =
     (let (there, w) = on_disk (fs_exists (path_of (path_join folder (st_target s)))) w
      in then_do (ensure there (Msg (''Shortcut target missing: '' @ path_join folder (st_target s))) w) (\<lambda>_ w.
         then_do (create_shortcut A (shortcut_file dir s) (link_of folder s) w) (\<lambda>_ w.
           create_shortcuts A dir folder ss w)))"

definition uninstall_strings :: "'w shell_api \<Rightarrow> string \<Rightarrow> string \<Rightarrow> (string \<times> string) list" where
  "uninstall_strings A folder version =
     (let quoted = [CHR 34] @ setup_exe (sa_program_files A) @ [CHR 34]
      in [(''DisplayName'', ''GDUT Net''), (''DisplayVersion'', version), (''InstallLocation'', folder),
          (''DisplayIcon'', install_exe (sa_program_files A)), (''UninstallString'', quoted @ '' --uninstall''),
          (''QuietUninstallString'', quoted @ '' --silent --uninstall'')])"

primrec set_strings :: "'w reg_api \<Rightarrow> reg_key \<Rightarrow> (string \<times> string) list \<Rightarrow> 'w \<Rightarrow> (unit, 'w) outcome" where
  "set_strings R k [] w = (Inr (), w)"
| "set_strings R k (nv # nvs) w = then_do (reg_set_string R k (Some (fst nv)) (snd nv) w) (\<lambda>_ w. set_strings R k nvs w)"

definition write_uninstall_key :: "'w host \<Rightarrow> 'w shell_api \<Rightarrow> string \<Rightarrow> string \<Rightarrow> 'w \<Rightarrow> (unit, 'w) outcome" where
  "write_uninstall_key H A folder version w =
     then_do (set_strings (ho_reg H) uninstall_key (uninstall_strings A folder version) w) (\<lambda>_ w.
     then_do (reg_set_dword (ho_reg H) uninstall_key ''NoModify'' 1 w) (\<lambda>_ w.
       reg_set_dword (ho_reg H) uninstall_key ''NoRepair'' 1 w))"

definition install_shell_integration ::
  "'x machine host \<Rightarrow> 'x machine shell_api \<Rightarrow> string \<Rightarrow> string \<Rightarrow> 'x machine \<Rightarrow> (unit, 'x machine) outcome" where
  "install_shell_integration H A folder version w =
     (case start_menu_dir A of
        Inl e \<Rightarrow> (Inl e, w)
      | Inr dir \<Rightarrow>
          then_do (with_ctx (''Failed to create '' @ dir) (io (on_disk (fs_create_dir_all (path_of dir)) w))) (\<lambda>_ w.
          then_do (create_shortcuts A dir folder shortcuts w) (\<lambda>_ w. write_uninstall_key H A folder version w)))"

text \<open>
  \<open>remove_dir_all\<close>: when it fails, a number \<open>n\<close> of levels may be left below the folder.
\<close>

definition keep_levels :: "fpath \<Rightarrow> nat \<Rightarrow> disk \<Rightarrow> disk" where
  "keep_levels p n d = d\<lparr>dk_nodes := fmfilter (\<lambda>q. \<not> (take (length p) q = p \<and> length p + n \<le> length q)) (dk_nodes d)\<rparr>"

definition fs_remove_dir_all :: "fpath \<Rightarrow> disk \<Rightarrow> (io_error + unit) \<times> disk" where
  "fs_remove_dir_all p d =
     (case node_at d p of
        None \<Rightarrow> (Inl (case next_fault d of Some (e, _) \<Rightarrow> Failed e | None \<Rightarrow> NotFound), use_fault d)
      | Some (File _) \<Rightarrow> (Inl (Failed ''not a folder''), use_fault d)
      | Some Folder \<Rightarrow>
          (case next_fault d of
             Some (e, n) \<Rightarrow> (Inl (Failed e), keep_levels p (Suc n) (use_fault d))
           | None \<Rightarrow> (Inr (), keep_levels p 0 (use_fault d))))"

text \<open>The codes 2 and 3 say that the key or a part of its path does not exist.\<close>

definition delete_uninstall_key :: "'w reg_api \<Rightarrow> 'w \<Rightarrow> (unit, 'w) outcome" where
  "delete_uninstall_key R w =
     (case rg_delete_tree R uninstall_key w of (ret, w) \<Rightarrow>
        (if ret \<noteq> 0 \<and> ret \<noteq> 2 \<and> ret \<noteq> 3 then Inl (code_error ''RegDeleteTreeW failed'' ret) else Inr (), w))"

definition remove_shell_integration :: "'x machine host \<Rightarrow> 'x machine shell_api \<Rightarrow> 'x machine \<Rightarrow> (unit, 'x machine) outcome" where
  "remove_shell_integration H A w =
     (let w = (case start_menu_dir A of Inr dir \<Rightarrow> snd (on_disk (fs_remove_dir_all (path_of dir)) w) | Inl _ \<Rightarrow> w);
          w = snd (delete_uninstall_key (ho_reg H) w)
      in (Inr (), w))"

definition removal_script :: "string \<Rightarrow> string" where
  "removal_script dir =
     (let q = [CHR 34] @ dir @ [CHR 34]
      in ''@echo off & for /l %i in (1,1,90) do (rmdir /s /q '' @ q @ '' 2>nul & if not exist '' @ q
           @ '' exit /b & ping -n 2 127.0.0.1 >nul)'')"

definition schedule_install_dir_removal :: "'w shell_api \<Rightarrow> string \<Rightarrow> 'w \<Rightarrow> (unit, 'w) outcome" where
  "schedule_install_dir_removal A dir w =
     with_ctx ''Failed to spawn delayed directory removal'' (sys (sa_spawn A (removal_script dir) w))"

section \<open>The installed version\<close>

text \<open>\<open>String::from_utf16_lossy\<close>: an unpaired surrogate becomes U+FFFD.\<close>

fun from_utf16_lossy :: "u16 list \<Rightarrow> string" where
  "from_utf16_lossy [] = []"
| "from_utf16_lossy (x # xs) =
     (let n = unat x
      in if n < 55296 \<or> 57344 \<le> n then utf8 n @ from_utf16_lossy xs
         else if 56320 \<le> n then utf8 65533 @ from_utf16_lossy xs
         else (case xs of [] \<Rightarrow> utf8 65533
               | y # ys \<Rightarrow>
                   if 56320 \<le> unat y \<and> unat y < 57344
                   then utf8 (65536 + (n - 55296) * 1024 + (unat y - 56320)) @ from_utf16_lossy ys
                   else utf8 65533 @ from_utf16_lossy xs))"

fun wide_units :: "u8 list \<Rightarrow> u16 list" where
  "wide_units (a # b # bs) = word_of_nat (unat a + 256 * unat b) # wide_units bs"
| "wide_units _ = []"

text \<open>The value is read into a buffer of 256 units; the size includes the terminator.\<close>

definition read_uninstall_string :: "'w reg_api \<Rightarrow> string \<Rightarrow> 'w \<Rightarrow> string option \<times> 'w" where
  "read_uninstall_string R name w =
     (case rg_get R 512 uninstall_key name w of ((ret, kind, buf, len), w) \<Rightarrow>
        (if ret \<noteq> 0 then None else Some (from_utf16_lossy (take (len div 2 - 1) (wide_units buf))), w))"

definition installed_version :: "'w reg_api \<Rightarrow> 'w \<Rightarrow> string option \<times> 'w" where
  "installed_version R w = read_uninstall_string R ''DisplayVersion'' w"

section \<open>The backup comes back\<close>

lemma shortcut_names_distinct: "distinct (map st_name shortcuts)"
  by (simp add: shortcuts_def)

lemma components_join: "is_separator c \<Longrightarrow> components acc (d @ c # n) = components acc d @ components [] n"
  by (induction d arbitrary: acc) auto

lemma components_plain: "list_all (\<lambda>c. \<not> is_separator c) n \<Longrightarrow> components acc n = [rev acc @ n]"
  by (induction n arbitrary: acc) auto

lemma components_nonempty: "components acc d \<noteq> []"
  by (induction d arbitrary: acc) auto

lemma components_empty: "components acc d = [[]] \<Longrightarrow> acc = [] \<and> d = []"
  by (induction d arbitrary: acc) (auto simp: components_nonempty split: if_splits)

lemma path_of_join:
  assumes "d \<noteq> []" "n \<noteq> []" "n \<noteq> ''.''" "list_all (\<lambda>c. \<not> is_separator c) n"
  shows "path_of (path_join d n) = path_of d @ [n]"
proof -
  obtain a cs where c: "components [] d = a # cs"
    using components_nonempty [of "[]" d] by (cases "components [] d") auto
  with assms(1) components_empty [of "[]" d] have "\<not> (a = [] \<and> cs = [])" by auto
  moreover have "components [] (path_join d n) = a # cs @ [n]"
    by (simp add: path_join_def components_join is_separator_def c components_plain [OF assms(4)])
  ultimately show ?thesis using assms(2,3) c by (simp add: path_of_def)
qed

lemma shortcut_names:
  "list_all (\<lambda>s. list_all (\<lambda>c. \<not> is_separator c) (st_name s @ ''.lnk'')) shortcuts"
  by (simp add: shortcuts_def is_separator_def)

lemma shortcut_file_path:
  assumes "s \<in> set shortcuts" "dir \<noteq> []"
  shows "shortcut_file dir s = path_of dir @ [st_name s @ ''.lnk'']"
proof -
  have "list_all (\<lambda>c. \<not> is_separator c) (st_name s @ ''.lnk'')" using assms(1) shortcut_names by (auto simp: list_all_iff simp del: set_append)
  then show ?thesis unfolding shortcut_file_def by (intro path_of_join assms(2)) auto
qed

lemma start_menu_dir_nonempty: "start_menu_dir A = Inr dir \<Longrightarrow> dir \<noteq> []"
  by (auto simp: start_menu_dir_def path_join_def split: option.splits)

lemma shortcut_not_staging: "s \<in> set shortcuts \<Longrightarrow> dir \<noteq> [] \<Longrightarrow> \<not> is_staging (shortcut_file dir s)"
proof -
  assume s: "s \<in> set shortcuts" and d: "dir \<noteq> []"
  have "list_all (\<lambda>s. hd (st_name s) \<noteq> CHR ''.'' \<and> st_name s \<noteq> []) shortcuts" by (simp add: shortcuts_def)
  then have "hd (st_name s) \<noteq> CHR ''.'' \<and> st_name s \<noteq> []" using s by (auto simp: list_all_iff)
  then show ?thesis by (cases "st_name s") (auto simp: is_staging_def shortcut_file_path [OF s d])
qed

lemma fs_remove_dir_other: "x \<noteq> p \<Longrightarrow> node_at (snd (fs_remove_dir p d)) x = node_at d x"
  by (auto simp: fs_remove_dir_def attempt_def split: option.split node.split)

lemma fs_try_exists_nodes: "node_at (snd (fs_try_exists p d)) = node_at d"
  by (auto simp: fs_try_exists_def attempt_def split: option.split)

lemma shell_capture_keeps: "view_of f \<Longrightarrow> queries_keep H f \<Longrightarrow> f (snd (shell_capture H A w)) = f w"
  by (simp add: shell_capture_def snd_then_do on_disk_keeps fs_try_exists_nodes backup_capture_nodes registry_capture_keeps
      split: sum.split)

text \<open>A change of the registry changes nothing else.\<close>

definition writes_keep :: "'w host \<Rightarrow> ('w \<Rightarrow> 'b) \<Rightarrow> bool" where
  "writes_keep H f \<longleftrightarrow>
     (\<forall>k w. f (snd (rg_create (ho_reg H) k w)) = f w) \<and> (\<forall>k n v w. f (snd (rg_set (ho_reg H) k n v w)) = f w)
   \<and> (\<forall>k n w. f (snd (rg_delete (ho_reg H) k n w)) = f w) \<and> (\<forall>k w. f (snd (rg_info (ho_reg H) k w)) = f w)
   \<and> (\<forall>k w. f (snd (rg_delete_key (ho_reg H) k w)) = f w) \<and> (\<forall>k w. f (snd (rg_delete_tree (ho_reg H) k w)) = f w)
   \<and> (\<forall>k w. f (snd (rg_close (ho_reg H) k w)) = f w)"

lemma writes_keepD:
  assumes "writes_keep H f"
  shows "f (snd (rg_create (ho_reg H) k w)) = f w" "f (snd (rg_set (ho_reg H) k n v w)) = f w"
    "f (snd (rg_delete (ho_reg H) k n w)) = f w" "f (snd (rg_info (ho_reg H) k w)) = f w"
    "f (snd (rg_delete_key (ho_reg H) k w)) = f w" "f (snd (rg_delete_tree (ho_reg H) k w)) = f w"
    "f (snd (rg_close (ho_reg H) k w)) = f w"
  using assms by (auto simp: writes_keep_def simp del: split_paired_All)

lemma registry_restore_keeps:
  assumes "writes_keep H f"
  shows "f (snd (registry_restore (ho_reg H) b w)) = f w"
proof -
  have "f (snd (restore_values (ho_reg H) k nvs w)) = f w" for k nvs w
    using assms by (induction nvs arbitrary: w)
      (simp_all add: restore_value_def case_prod_unfold Let_def writes_keepD split: option.split)
  moreover have "f (snd (remove_new_key (ho_reg H) k i w)) = f w" for k i w
    using assms by (simp add: remove_new_key_def snd_simps writes_keepD split: sum.split)
  ultimately show ?thesis
    using assms by (simp add: registry_restore_def snd_simps writes_keepD split: sum.split)
qed

definition shell_files :: "string \<Rightarrow> fpath list" where
  "shell_files dir = map (shortcut_file dir) shortcuts"

lemma shell_capture_ok:
  assumes "shell_capture H A w = (Inr b, w')"
    and q: "queries_keep H nodes" "queries_keep H R" "off_disk R"
  shows "\<exists>dir d d1 wr. start_menu_dir A = Inr dir \<and> backup_capture (shell_files dir) d = (Inr (sb_files b), d1) \<and> node_at d = nodes w
     \<and> registry_capture (ho_reg H) uninstall_key uninstall_values wr = (Inr (sb_registry b), w') \<and> R wr = R w
     \<and> sb_directory b = path_of dir"
proof -
  note v = view_nodes view_off_disk [OF q(3)]
  from assms(1) obtain dir ex w1 files w2 reg where a: "start_menu_dir A = Inr dir"
      "on_disk (fs_try_exists (path_of dir)) w = (Inr ex, w1)"
      "on_disk (backup_capture (shell_files dir)) w1 = (Inr files, w2)"
      "registry_capture (ho_reg H) uninstall_key uninstall_values w2 = (Inr reg, w')"
    and b: "b = \<lparr>sb_files = files, sb_registry = reg, sb_directory = path_of dir, sb_existed = ex\<rparr>"
    by (auto simp: shell_capture_def shell_files_def then_do_Inr split: sum.splits)
  from a(3) obtain d1 where "backup_capture (shell_files dir) (mc_disk w1) = (Inr files, d1)" by (auto simp: on_disk_Inr)
  moreover have "nodes w1 = nodes w" by (rule keeps_at [OF on_disk_keeps a(2)]) (rule v fs_try_exists_nodes)+
  moreover have "R w1 = R w" by (rule keeps_at [OF on_disk_keeps a(2)]) (rule v fs_try_exists_nodes)+
  moreover have "R w2 = R w1" by (rule keeps_at [OF on_disk_keeps a(3)]) (rule v backup_capture_nodes)+
  ultimately show ?thesis using a(1,4) b by (auto simp: nodes_def)
qed

lemma shell_backup_roundtrip:
  assumes laws: "machine_laws H R norm V" and writes: "writes_keep H nodes"
    and cap: "shell_capture H A w0 = (Inr b, w1)" and res: "shell_restore H b w2 = (Inr (), w3)"
  shows "\<exists>dir. start_menu_dir A = Inr dir \<and> (\<forall>p \<in> set (shell_files dir). nodes w3 p = nodes w0 p)
    \<and> (\<forall>n \<in> set uninstall_values. reg_at R w3 uninstall_key n = map_option norm (reg_at R w0 uninstall_key n))
    \<and> (\<forall>x. x \<notin> set (shell_files dir) \<and> x \<noteq> path_of dir \<and> \<not> is_staging x \<longrightarrow> nodes w3 x = nodes w2 x)
    \<and> (\<forall>k. k \<noteq> uninstall_key \<longrightarrow> R w3 k = R w2 k)"
proof -
  note l = machine_lawsD [OF laws]
  from shell_capture_ok [OF cap l(3,4,8)] obtain dir d d1 wr where c: "start_menu_dir A = Inr dir"
    "backup_capture (shell_files dir) d = (Inr (sb_files b), d1)" "node_at d = nodes w0"
    "registry_capture (ho_reg H) uninstall_key uninstall_values wr = (Inr (sb_registry b), w1)" "R wr = R w0"
    "sb_directory b = path_of dir" by blast
  obtain e1 v1 where 1: "noting [] (on_disk (backup_restore (sb_files b)) w2) = (e1, v1)" by force
  obtain e2 v2 where 2: "noting [] (registry_restore (ho_reg H) (sb_registry b) v1) = (e2, v2)" by force
  obtain e3 v3 where 3: "remove_new_folder b v2 = (e3, v3)" by force
  from res 1 2 3 have e: "e1 = []" "e2 = []" "w3 = v3" by (auto simp: shell_restore_def)
  from 1 e obtain d2 where d2: "backup_restore (sb_files b) (mc_disk w2) = (Inr (), d2)" "v1 = w2\<lparr>mc_disk := d2\<rparr>"
    by (auto simp: noting_ok on_disk_Inr)
  have reg: "registry_restore (ho_reg H) (sb_registry b) v1 = (Inr (), v2)" using 2 e by (simp add: noting_ok)
  have ne: "dir \<noteq> []" using c(1) by (rule start_menu_dir_nonempty)
  have stag: "\<forall>p \<in> set (shell_files dir). \<not> is_staging p" using shortcut_not_staging ne by (auto simp: shell_files_def)
  have own: "\<forall>p \<in> set (shell_files dir). p \<noteq> path_of dir" using shortcut_file_path ne by (auto simp: shell_files_def)
  have "R v3 = R v2" and n3: "x \<noteq> path_of dir \<Longrightarrow> nodes v3 x = nodes v2 x" for x
    using 3 l(8) fs_remove_dir_other [of x "path_of dir"] c(6)
    by (auto simp: remove_new_folder_def nodes_def off_disk_def on_disk_def split: if_splits prod.splits sum.splits) (metis snd_conv)+
  have n2: "nodes v2 = nodes v1" 
    using registry_restore_keeps [OF writes, of "sb_registry b" v1] reg by simp
  note files = backup_restore_ok [OF c(2) stag d2(1)]
  note registry = registry_restore_ok [OF l(2) _ c(4) reg]
  have "distinct uninstall_values" by (simp add: uninstall_values_def)
  note registry = registry [OF this]
  have "nodes w3 p = nodes w0 p" if "p \<in> set (shell_files dir)" for p
    using that own n3 [of p] n2 files d2(2) c(3) e(3) by (simp add: nodes_def)
  moreover have "reg_at R w3 uninstall_key n = map_option norm (reg_at R w0 uninstall_key n)" if "n \<in> set uninstall_values" for n
    using that registry \<open>R v3 = R v2\<close> e(3) c(5) by (simp add: reg_at_def)
  moreover have "nodes w3 x = nodes w2 x" if "x \<notin> set (shell_files dir)" "x \<noteq> path_of dir" "\<not> is_staging x" for x
    using that n3 [of x] n2 files d2(2) e(3) by (simp add: nodes_def)
  moreover have "R w3 k = R w2 k" if "k \<noteq> uninstall_key" for k
    using that registry \<open>R v3 = R v2\<close> e(3) d2(2) l(8) by (simp add: off_disk_def del: split_paired_All)
  ultimately show ?thesis using c(1) by blast
qed

end
