(* ===== verification/Uninstall.thy ===== *)
theory Uninstall
  imports Shell_Integration
begin

text \<open>
  Removing the program: \<open>uninstall_core\<close> of \<open>src/src/service.rs\<close> with its report, the guard before the
  data folder is deleted, and what the report promises.
\<close>

section \<open>The steps\<close>

datatype step = StepDone | StepSkipped | StepFailed err

record uninstall_report =
  ur_service :: step
  ur_event_source :: step
  ur_entropy :: step
  ur_autostart :: step
  ur_purge :: "(fpath \<times> step) option"

definition step_uninstall_service :: string where "step_uninstall_service = ''uninstall_service''"
definition step_uninstall_event_source :: string where "step_uninstall_event_source = ''uninstall_event_source''"
definition step_uninstall_entropy :: string where "step_uninstall_entropy = ''uninstall_entropy''"
definition step_uninstall_autostart :: string where "step_uninstall_autostart = ''uninstall_autostart''"

definition rows :: "uninstall_report \<Rightarrow> (string \<times> step) list" where
  "rows r =
     [(step_uninstall_service, ur_service r), (step_uninstall_event_source, ur_event_source r),
      (step_uninstall_entropy, ur_entropy r), (step_uninstall_autostart, ur_autostart r)]"

definition remove_service :: "'w scm_api \<Rightarrow> 'w \<Rightarrow> (step, 'w) outcome" where
  "remove_service S w =
     then_do (with_ctx ''Failed to connect to service manager (administrator required)'' (sys (sc_connect S False w))) (\<lambda>_ w.
       (case sc_open S [AcQueryStatus, AcStop, AcDelete] w of
          (Inr _, w) \<Rightarrow>
            then_do (sys (sc_status S w)) (\<lambda>st w.
            then_do (if st \<noteq> SvStopped then wait_stopped S (snd (sc_stop S w)) else (Inr (), w)) (\<lambda>_ w.
            then_do (with_ctx ''Failed to delete service'' (sys (sc_delete S w))) (\<lambda>_ w. (Inr StepDone, w))))
        | (Inl OpenMissing, w) \<Rightarrow> (Inr StepSkipped, w)
        | (Inl (OpenFailed e), w) \<Rightarrow> (Inl (Msg (''Failed to open service: '' @ e)), w)))"

definition tolerated :: "(unit, 'w) outcome \<Rightarrow> step \<times> 'w" where
  "tolerated r = (case r of (Inr _, w) \<Rightarrow> (StepDone, w) | (Inl e, w) \<Rightarrow> (StepFailed e, w))"

section \<open>The data folder\<close>

definition program_data_dir :: "string \<Rightarrow> fpath" where
  "program_data_dir cfg_path = (case path_parent (path_of cfg_path) of Some p \<Rightarrow> p | None \<Rightarrow> path_of data_dir)"

definition ensure_purge_safe :: "fpath \<Rightarrow> 'w \<Rightarrow> (unit, 'w) outcome" where
  "ensure_purge_safe dir w =
     ensure ((case path_file_name dir of Some n \<Rightarrow> to_lowercase n | None \<Rightarrow> []) = ''gdut-net'')
       (Msg ''Refusing to delete suspicious directory (not named gdut-net), please remove manually'') w"

definition purge_data :: "string \<Rightarrow> 'x machine \<Rightarrow> (fpath \<times> step, 'x machine) outcome" where
  "purge_data cfg_path w =
     (let dir = program_data_dir cfg_path
      in then_do (ensure_purge_safe dir w) (\<lambda>_ w.
           (case on_disk (fs_remove_dir_all dir) w of
              (Inr _, w) \<Rightarrow> (Inr (dir, StepDone), w)
            | (Inl NotFound, w) \<Rightarrow> (Inr (dir, StepSkipped), w)
            | (Inl e, w) \<Rightarrow> (Inl (Ctx ''Failed to remove'' (Io e)), w))))"

definition uninstall_core ::
  "'x machine host \<Rightarrow> 'x machine shell_api \<Rightarrow> string \<Rightarrow> bool \<Rightarrow> 'x machine \<Rightarrow> (uninstall_report, 'x machine) outcome" where
  "uninstall_core H A cfg_path purge w =
     then_do (remove_service (ho_scm H) w) (\<lambda>service w.
       (let (source, w) = tolerated (unregister_source (ho_reg H) w);
            (entropy, w) = tolerated (delete_entropy (ho_reg H) w);
            (autostart, w) = tolerated (unregister_autostart (ho_reg H) w);
            w = snd (remove_shell_integration H A w)
        in then_do (if purge then then_do (purge_data cfg_path w) (\<lambda>p w. (Inr (Some p), w)) else (Inr None, w)) (\<lambda>purged w.
             (Inr \<lparr>ur_service = service, ur_event_source = source, ur_entropy = entropy, ur_autostart = autostart,
                   ur_purge = purged\<rparr>, w))))"

section \<open>Only own folders are deleted\<close>

definition below :: "fpath \<Rightarrow> fpath \<Rightarrow> bool" where
  "below p x \<longleftrightarrow> take (length p) x = p"

lemma below_length: "below p x \<Longrightarrow> length p \<le> length x"
  unfolding below_def by (metis length_take min.cobounded1)

lemma keep_levels_node: "node_at (keep_levels p n d) x = (if below p x \<and> length p + n \<le> length x then None else node_at d x)"
  by (simp add: keep_levels_def below_def)

lemma remove_dir_all_eff:
  "fs_remove_dir_all p d = (r, d') \<Longrightarrow>
     (\<forall>x. node_at d' x = node_at d x \<or> node_at d' x = None \<and> below p x)
     \<and> (r = Inr () \<longrightarrow> (\<forall>x. below p x \<longrightarrow> node_at d' x = None))"
  by (auto simp: fs_remove_dir_all_def keep_levels_node below_length split: option.splits node.splits if_splits)

lemma wait_stopped_keeps:
  assumes "queries_keep H f" "\<forall>d w. f (sc_sleep (ho_scm H) d w) = f w" "\<forall>w. f (snd (sc_now (ho_scm H) w)) = f w"
  shows "f (snd (wait_stopped (ho_scm H) w)) = f w"
proof -
  have "f (snd (wait_loop (ho_scm H) n s w)) = f w" for n s w
    using assms by (induction n arbitrary: w) (simp_all add: snd_simps queries_keepD split: sum.split)
  then show ?thesis using assms(3) by (simp add: wait_stopped_def case_prod_unfold Let_def)
qed

lemma remove_service_keeps:
  assumes "leaves_alone H f" "\<forall>w. f (snd (sc_now (ho_scm H) w)) = f w"
  shows "f (snd (remove_service (ho_scm H) w)) = f w"
  using assms wait_stopped_keeps [OF leaves_aloneD(1) [OF assms(1)] _ assms(2)]
  by (simp add: remove_service_def snd_simps alone_simps split: sum.split open_error.split)

lemma snd_tolerated [simp]: "snd (tolerated r) = snd r"
  by (cases r; cases "fst r") (auto simp: tolerated_def)

lemma tolerated_done: "fst (tolerated (x, w)) = StepDone \<longleftrightarrow> x = Inr ()"
  by (cases x) (auto simp: tolerated_def)

lemma registry_steps_keep:
  assumes "writes_keep H f" "queries_keep H f"
  shows "f (snd (unregister_source (ho_reg H) w)) = f w" "f (snd (delete_entropy (ho_reg H) w)) = f w"
    "f (snd (unregister_autostart (ho_reg H) w)) = f w" "f (snd (delete_uninstall_key (ho_reg H) w)) = f w"
  using assms by (simp_all add: unregister_source_def delete_entropy_def unregister_autostart_def delete_uninstall_key_def
      case_prod_unfold Let_def writes_keepD queries_keepD)

lemma purge_data_eff:
  assumes "purge_data path w = (r, w')"
  shows "\<forall>x. nodes w' x = nodes w x \<or> nodes w' x = None \<and> below (program_data_dir path) x
     \<and> (\<exists>n. path_file_name (program_data_dir path) = Some n \<and> to_lowercase n = ''gdut-net'')"
proof -
  obtain q d where q: "fs_remove_dir_all (program_data_dir path) (mc_disk w) = (q, d)" by force
  let ?safe = "(case path_file_name (program_data_dir path) of Some n \<Rightarrow> to_lowercase n | None \<Rightarrow> []) = ''gdut-net''"
  have "w' = w \<or> w' = w\<lparr>mc_disk := d\<rparr> \<and> ?safe"
  proof (cases ?safe)
    case True
    with assms q show ?thesis
      by (auto simp: purge_data_def ensure_purge_safe_def ensure_def on_disk_def Let_def split: sum.splits io_error.splits)
  next
    case False
    with assms show ?thesis by (simp add: purge_data_def ensure_purge_safe_def ensure_def Let_def)
  qed
  with remove_dir_all_eff [OF q] show ?thesis by (auto simp: nodes_def split: option.splits)
qed

text \<open>
  C26 (safety). Removing the program deletes nothing that is not its own. Whatever fails on the way, no file
  or folder is created or changed, and what is gone lay in the program's Start Menu folder, or, only if the
  user asked for the data to be deleted, in the folder of the configuration file, and only if that folder is
  named gdut-net: a configuration in any other folder, such as the root of a drive, is never a reason to
  delete that folder.
\<close>

theorem uninstall_deletes_only_own_folders:
  assumes "leaves_alone H nodes" and "writes_keep H nodes" and "\<forall>w. nodes (snd (sc_now (ho_scm H) w)) = nodes w"
    and "uninstall_core H A cfg_path purge w = (r, w')"
  shows "nodes w' x = nodes w x
    \<or> nodes w' x = None
      \<and> ((\<exists>dir. start_menu_dir A = Inr dir \<and> below (path_of dir) x)
         \<or> purge \<and> below (program_data_dir cfg_path) x
           \<and> (\<exists>n. path_file_name (program_data_dir cfg_path) = Some n \<and> to_lowercase n = ''gdut-net''))"
proof -
  note q = leaves_aloneD(1) [OF assms(1)]
  obtain s w1 where s: "remove_service (ho_scm H) w = (s, w1)" by force
  have 1: "nodes w1 = nodes w" using remove_service_keeps [OF assms(1,3)] s by (metis snd_conv)
  show ?thesis
  proof (cases s)
    case Inl
    with assms(4) s 1 show ?thesis by (auto simp: uninstall_core_def)
  next
    case (Inr st)
    define v where "v = snd (unregister_autostart (ho_reg H) (snd (delete_entropy (ho_reg H) (snd (unregister_source (ho_reg H) w1)))))"
    have v: "nodes v = nodes w" by (simp add: v_def registry_steps_keep [OF assms(2) q] 1)
    define u where "u = snd (remove_shell_integration H A v)"
    have u: "nodes u x = nodes v x \<or> nodes u x = None \<and> (\<exists>dir. start_menu_dir A = Inr dir \<and> below (path_of dir) x)"
    proof (cases "start_menu_dir A")
      case (Inr dir)
      obtain q' d where d: "fs_remove_dir_all (path_of dir) (mc_disk v) = (q', d)" by force
      have "nodes u = node_at d"
        using Inr d registry_steps_keep(4) [OF assms(2) q] by (simp add: u_def remove_shell_integration_def on_disk_def) (simp add: nodes_def)
      with remove_dir_all_eff [OF d] Inr show ?thesis by (auto simp: nodes_def)
    qed (simp add: u_def remove_shell_integration_def registry_steps_keep(4) [OF assms(2) q])
    have "w' = u \<and> \<not> purge \<or> purge \<and> w' = snd (purge_data cfg_path u)"
      using assms(4) s Inr unfolding u_def v_def
      by (auto simp: uninstall_core_def case_prod_unfold Let_def then_do_def split: if_splits sum.splits prod.splits)
    with u v purge_data_eff [OF surjective_pairing, of cfg_path u] show ?thesis by metis
  qed
qed

definition demo_shell :: "'w shell_api" where
  "demo_shell =
     \<lparr>sa_program_data = Some ''D:'', sa_program_files = None, sa_com_init = \<lambda>w. (Inr (), w), sa_com_exit = \<lambda>w. w,
      sa_save = \<lambda>_ _ w. (Inr (), w), sa_spawn = \<lambda>_ w. (Inr (), w)\<rparr>"

lemma demo_writes: 
  assumes "\<And>w x. f (w\<lparr>mc_rest := (x, snd (mc_rest w))\<rparr>) = f w"
  shows "writes_keep (demo_host d) f"
  using assms by (simp add: writes_keep_def demo_registry_def in_regs_def Let_def)

theorem uninstall_deletes_only_own_folders_witness:
  "nodes (snd (uninstall_core (demo_host 0) demo_shell (iq_cfg_path demo_request) True (demo_machine None))) [''C:'', ''a.exe'']
     = Some (File [1])"
proof -
  obtain r w' where u: "uninstall_core (demo_host 0) demo_shell (iq_cfg_path demo_request) True (demo_machine None) = (r, w')" by force
  have "leaves_alone (demo_host 0) nodes"
    unfolding leaves_alone_def
    by (intro conjI demo_keeps demo_queries)
      (simp_all add: nodes_def demo_scm_def in_scm_def demo_registry_def in_regs_def demo_ras_def Let_def)
  moreover have "writes_keep (demo_host 0) nodes" by (rule demo_writes) (simp add: nodes_def)
  moreover have "\<forall>w. nodes (snd (sc_now (ho_scm (demo_host 0)) w)) = nodes w"
    by (simp add: demo_scm_def in_scm_def nodes_def Let_def)
  moreover have "\<not> below (path_of dir) [''C:'', ''a.exe'']" if "start_menu_dir demo_shell = Inr dir" for dir
  proof -
    have "hd (path_of dir) = ''D:''" "path_of dir \<noteq> []"
      using that by (auto simp: start_menu_dir_def demo_shell_def path_join_def path_of_def is_separator_def)
    then show ?thesis by (cases "path_of dir") (auto simp: below_def)
  qed
  moreover have "path_file_name (program_data_dir (iq_cfg_path demo_request)) = None"
    by (simp add: program_data_dir_def demo_paths path_parent_def is_root_def path_file_name_def)
  moreover have "nodes (demo_machine None) [''C:'', ''a.exe''] = Some (File [1])"
    by (simp add: nodes_def demo_machine_def demo_disk_def fmlookup_of_list)
  ultimately show ?thesis
    using uninstall_deletes_only_own_folders [OF _ _ _ u, of "[''C:'', ''a.exe'']"] u by auto
qed

section \<open>The report is true\<close>

text \<open>What deleting a key with all that is below it promises.\<close>

definition tree_laws :: "'w reg_api \<Rightarrow> 'w reg_view \<Rightarrow> bool" where
  "tree_laws R V \<longleftrightarrow>
     (\<forall>k w c w'. rg_delete_tree R k w = (c, w') \<longrightarrow>
        (c = 0 \<or> c = 2 \<longrightarrow> V w' k = None) \<and> (\<forall>k'. V w' k' = V w k' \<or> V w' k' = None))"

lemma tree_lawsD:
  assumes "tree_laws R V" "rg_delete_tree R k w = (c, w')"
  shows "c = 0 \<or> c = 2 \<Longrightarrow> V w' k = None" "V w k' = None \<Longrightarrow> V w' k' = None"
  using assms unfolding tree_laws_def by metis+

lemma gone_stays:
  assumes "reg_laws R V norm" "tree_laws R V" "V w k = None"
  shows "V (snd (unregister_source R w)) k = None" "V (snd (delete_entropy R w)) k = None"
    "V (snd (delete_uninstall_key R w)) k = None" "V (snd (unregister_autostart R w)) k = None"
proof -
  have tree: "V (snd (rg_delete_tree R q w)) k = None" for q
    using tree_lawsD(2) [OF assms(2) _ assms(3)] by (metis surjective_pairing)
  show "V (snd (unregister_source R w)) k = None" "V (snd (delete_entropy R w)) k = None"
    "V (snd (delete_uninstall_key R w)) k = None"
    using tree by (simp_all add: unregister_source_def delete_entropy_def delete_uninstall_key_def case_prod_unfold)
  obtain c w1 where o: "rg_open R KeySetValue run_key w = (c, w1)" by force
  obtain e w2 where d: "rg_delete R run_key ''gdut-net-tray'' w1 = (e, w2)" by force
  have key: "V w1 = V w" "c = 0 \<longrightarrow> V w run_key \<noteq> None" using rg_open_law [OF assms(1) o] by auto
  have "c = 0 \<longrightarrow> V w2 k = None"
  proof
    assume "c = 0"
    then obtain vs where vs: "V w1 run_key = Some vs" using key by auto
    with assms(3) key have "k \<noteq> run_key" by auto
    with rg_delete_law [OF assms(1) d vs] key(1) assms(3) show "V w2 k = None" by simp
  qed
  then show "V (snd (unregister_autostart R w)) k = None"
    using o d key(1) assms(3) rg_close_law [OF assms(1), of run_key w2] by (simp add: unregister_autostart_def)
qed

lemma shell_removal:
  "\<exists>v. snd (remove_shell_integration H A w) = snd (delete_uninstall_key (ho_reg H) v) \<and> mc_rest v = mc_rest w \<and> (\<exists>d. v = w\<lparr>mc_disk := d\<rparr>)"
proof (cases "start_menu_dir A")
  case Inl
  then show ?thesis by (intro exI [of _ w]) (auto simp: remove_shell_integration_def intro!: exI [of _ "mc_disk w"])
next
  case (Inr dir)
  then show ?thesis
    by (intro exI [of _ "snd (on_disk (fs_remove_dir_all (path_of dir)) w)"]) (auto simp: remove_shell_integration_def snd_on_disk)
qed

lemma purge_off_disk: "off_disk g \<Longrightarrow> g (snd (purge_data path w)) = g w"
  by (simp add: purge_data_def Let_def ensure_purge_safe_def snd_simps off_disk_def split: sum.split io_error.split)

lemma purge_data_done:
  assumes "purge_data path w = (Inr (dir, st), w')"
  shows "dir = program_data_dir path \<and> (st = StepDone \<longrightarrow> (\<forall>x. below dir x \<longrightarrow> nodes w' x = None))"
proof -
  obtain q d where q: "fs_remove_dir_all (program_data_dir path) (mc_disk w) = (q, d)" by force
  from assms q have "(case (q, w\<lparr>mc_disk := d\<rparr>) of
              (Inr _, w) \<Rightarrow> (Inr (program_data_dir path, StepDone), w)
            | (Inl NotFound, w) \<Rightarrow> (Inr (program_data_dir path, StepSkipped), w)
            | (Inl e, w) \<Rightarrow> (Inl (Ctx ''Failed to remove'' (Io e)), w)) = (Inr (dir, st), w')"
    unfolding purge_data_def Let_def then_do_Inr on_disk_def ensure_purge_safe_def ensure_Inr by simp
  then show ?thesis using remove_dir_all_eff [OF q] by (cases q) (auto simp: nodes_def split: io_error.splits)
qed

lemma removed_key:
  assumes "tree_laws R V"
  shows "unregister_source R w = (Inr (), w') \<Longrightarrow> V w' source_key = None"
    "delete_entropy R w = (Inr (), w') \<Longrightarrow> V w' entropy_key = None"
  using tree_lawsD(1) [OF assms]
  by (auto simp: unregister_source_def delete_entropy_def split: prod.splits if_splits)

text \<open>
  C27 (error). The report of a removal is true. If \<open>uninstall_core\<close> returns a report, the service is gone,
  and the report says that it was skipped only if there was none; an event source or an encryption key
  reported as removed does not exist any more; and if the data was to be deleted, the report names the
  folder, and nothing is left below it when it says that it was removed.
\<close>

theorem uninstall_report_is_true:
  assumes "machine_laws H R norm V" and "tree_laws (ho_reg H) R" and "writes_keep H V"
    and "uninstall_core H A cfg_path purge w = (Inr report, w')"
  shows "V w' = None \<and> (ur_service report = StepSkipped \<longrightarrow> V w = None)
    \<and> (ur_event_source report = StepDone \<longrightarrow> R w' source_key = None)
    \<and> (ur_entropy report = StepDone \<longrightarrow> R w' entropy_key = None)
    \<and> (ur_purge report = None \<longleftrightarrow> \<not> purge)
    \<and> (\<forall>dir st. ur_purge report = Some (dir, st) \<longrightarrow> dir = program_data_dir cfg_path
         \<and> (st = StepDone \<longrightarrow> (\<forall>x. below dir x \<longrightarrow> nodes w' x = None)))"
proof -
  note l = machine_lawsD [OF assms(1)]
  from assms(4) obtain st w1 where s: "remove_service (ho_scm H) w = (Inr st, w1)"
    by (auto simp: uninstall_core_def then_do_Inr)
  obtain a w2 where a: "unregister_source (ho_reg H) w1 = (a, w2)" by force
  obtain b w3 where b: "delete_entropy (ho_reg H) w2 = (b, w3)" by force
  obtain c w4 where c: "unregister_autostart (ho_reg H) w3 = (c, w4)" by force
  obtain d w5 where d: "remove_shell_integration H A w4 = (d, w5)" by force
  from assms(4) s a b c d obtain purged where
    p: "(if purge then then_do (purge_data cfg_path w5) (\<lambda>p w. (Inr (Some p), w)) else (Inr None, w5)) = (Inr purged, w')"
    and rep: "ur_service report = st" "ur_event_source report = fst (tolerated (a, w2))" "ur_entropy report = fst (tolerated (b, w3))"
      "ur_purge report = purged"
    by (cases purge) (auto simp: uninstall_core_def case_prod_unfold Let_def then_do_Inr)
  have gone: "V w1 = None \<and> (st = StepSkipped \<longrightarrow> V w = None)"
  proof -
    obtain x v1 where x: "sc_connect (ho_scm H) False w = (x, v1)" by force
    obtain y v2 where y: "sc_open (ho_scm H) [AcQueryStatus, AcStop, AcDelete] v1 = (y, v2)" by force
    have "y = Inl OpenMissing \<and> w1 = v2 \<and> st = StepSkipped \<or> st = StepDone \<and> (\<exists>v. sc_delete (ho_scm H) v = (Inr (), w1))"
      using s x y by (auto simp: remove_service_def then_do_Inr split: sum.splits open_error.splits)
    with sc_connect_law [OF l(1) x] sc_open_law [OF l(1) y] sc_delete_law [OF l(1)] show ?thesis by auto
  qed
  obtain v where v: "w5 = snd (delete_uninstall_key (ho_reg H) v)" "\<exists>e. v = w4\<lparr>mc_disk := e\<rparr>"
    using shell_removal [of H A w4] d by auto
  have end_views: "g w' = g w5" if "off_disk g" for g :: "'a machine \<Rightarrow> 'b"
    using p purge_off_disk [OF that, of cfg_path w5] by (cases purge) (auto simp: then_do_Inr)
  have svc: "V w' = None"
  proof -
    note k = registry_steps_keep [OF assms(3) l(5)]
    have "V w4 = V w1" using k(1) [of w1] k(2) [of w2] k(3) [of w3] a b c by simp
    moreover have "V w5 = V w4" using v k(4) [of v] l(9) by (auto simp: off_disk_def)
    ultimately show ?thesis using gone end_views [OF l(9)] by simp
  qed
  note g = gone_stays [OF l(2) assms(2)]
  have late: "R w' k = None" if "R w4 k = None" for k
    using that v l(8) g(3) [of v k] end_views [OF l(8)] by (auto simp: off_disk_def)
  have src: "R w' source_key = None" if "a = Inr ()"
    using removed_key(1) [OF assms(2) a [unfolded that]] g(2) [of w2 source_key] g(4) [of w3 source_key] b c late by simp
  have ent: "R w' entropy_key = None" if "b = Inr ()"
    using removed_key(2) [OF assms(2) b [unfolded that]] g(4) [of w3 entropy_key] c late by simp
  have pn: "purged = None \<longleftrightarrow> \<not> purge" using p by (cases purge) (auto simp: then_do_Inr)
  have pd: "dir = program_data_dir cfg_path \<and> (st' = StepDone \<longrightarrow> (\<forall>x. below dir x \<longrightarrow> nodes w' x = None))"
    if "purged = Some (dir, st')" for dir st'
  proof (rule purge_data_done)
    from p that show "purge_data cfg_path w5 = (Inr (dir, st'), w')" by (cases purge) (auto simp: then_do_Inr)
  qed
  show ?thesis
    unfolding rep tolerated_done
  proof (intro conjI allI impI)
    show "V w' = None" by (rule svc)
    show "V w = None" if "st = StepSkipped" using gone that by simp
    show "R w' source_key = None" if "a = Inr ()" by (rule src [OF that])
    show "R w' entropy_key = None" if "b = Inr ()" by (rule ent [OF that])
    show "purged = None \<longleftrightarrow> \<not> purge" by (rule pn)
    show "dir = program_data_dir cfg_path" if "purged = Some (dir, s')" for dir s' using pd [OF that] by simp
    show "nodes w' x = None" if "purged = Some (dir, s')" "s' = StepDone" "below dir x" for dir s' x
      using pd [OF that(1)] that by simp
  qed
qed

lemma demo_tree: "tree_laws demo_registry demo_regs_of"
  by (auto simp: tree_laws_def demo_registry_simps in_regs_def demo_regs_of_def demo_registry_def plain_registry_def split: if_splits)

definition demo_service :: svc where
  "demo_service = \<lparr>sv_command = ''old.exe'', sv_start = 2, sv_state = SvStopped\<rparr>"

theorem uninstall_report_is_true_witness:
  "\<exists>report w'. uninstall_core (demo_host 0) demo_shell (iq_cfg_path demo_request) False (demo_machine (Some demo_service)) = (Inr report, w')
    \<and> demo_service_of w' = None \<and> ur_service report = StepDone"
proof -
  let ?w = "demo_machine (Some demo_service)"
  obtain w1 where s: "remove_service demo_scm ?w = (Inr StepDone, w1)"
    by (simp add: remove_service_def demo_scm_def in_scm_def plain_scm_def demo_machine_def at_service_def demo_service_def)
  then obtain report w' where u: "uninstall_core (demo_host 0) demo_shell (iq_cfg_path demo_request) False ?w = (Inr report, w')"
    and st: "ur_service report = StepDone"
    by (auto simp: uninstall_core_def case_prod_unfold Let_def)
  have "writes_keep (demo_host 0) demo_service_of" by (rule demo_writes) (simp add: demo_service_of_def)
  from uninstall_report_is_true [OF demo_host_laws _ this u] demo_tree u st show ?thesis by simp
qed

end
