(* ===== verification/Transaction.thy ===== *)
theory Transaction
  imports Shell_Integration Packaging
begin

text \<open>
  \<open>src/src/setup/transaction.rs\<close> and \<open>load_payload\<close> of \<open>src/src/setup/work.rs\<close>: the order of the
  installation steps, the events it reports, and the rollback. The Chinese labels of the events are left out.
\<close>

section \<open>The events and the stages\<close>

definition step_stop_service :: string where "step_stop_service = ''stop_service''"
definition step_unpack :: string where "step_unpack = ''unpack''"
definition step_install_core :: string where "step_install_core = ''install_core''"
definition step_shell_integration :: string where "step_shell_integration = ''shell_integration''"
definition step_start_service :: string where "step_start_service = ''start_service''"

datatype install_event = EvStep string | EvStepDone string | EvDone "err + unit" rollback_outcome

text \<open>The flags that say what a rollback has to undo.\<close>

record progress =
  pg_files :: bool
  pg_core :: bool
  pg_stopped :: bool
  pg_shell :: bool

record 'w setup_stage =
  sg_key :: string
  sg_mark :: "progress \<Rightarrow> progress"
  sg_act :: "'w \<Rightarrow> (unit, 'w) outcome"

fun run_stages ::
  "'w setup_stage list \<Rightarrow> progress \<Rightarrow> 'w \<Rightarrow> (install_event list \<times> progress \<times> (err + unit)) \<times> 'w" where
  "run_stages [] p w = (([], p, Inr ()), w)"
| "run_stages (g # gs) p w =
     (case sg_act g w of
        (Inl e, w) \<Rightarrow> (([EvStep (sg_key g)], sg_mark g p, Inl e), w)
      | (Inr _, w) \<Rightarrow>
          (let ((es, p, r), w) = run_stages gs (sg_mark g p) w
           in ((EvStep (sg_key g) # EvStepDone (sg_key g) # es, p, r), w)))"

section \<open>Preparing\<close>

text \<open>
  What the installer knows of itself: its path, \<open>canonicalize\<close>, the order in which folders are listed,
  SHA-256, its version, and \<open>taskkill\<close> for the tray.
\<close>

record 'w setup_api =
  up_self :: "string + fpath"
  up_canonical :: "fpath \<Rightarrow> 'w \<Rightarrow> fpath option"
  up_list :: "fpath \<Rightarrow> disk \<Rightarrow> fpath list"
  up_sha :: sha
  up_version :: string
  up_kill_tray :: "'w \<Rightarrow> 'w"

definition current_exe :: "'w setup_api \<Rightarrow> 'w \<Rightarrow> (fpath, 'w) outcome" where
  "current_exe U w = (case up_self U of Inl e \<Rightarrow> (Inl (Msg e), w) | Inr p \<Rightarrow> (Inr p, w))"

definition load_payload :: "'x machine setup_api \<Rightarrow> 'x machine \<Rightarrow> (payload_entry list, 'x machine) outcome" where
  "load_payload U w =
     then_do (current_exe U w) (\<lambda>exe w.
     then_do (io (on_disk (fs_read exe) w)) (\<lambda>bytes w.
       (case unpack (up_sha U) bytes of
          Inl e \<Rightarrow> (Inl (name_error e), w)
        | Inr (Some entries) \<Rightarrow> (Inr entries, w)
        | Inr None \<Rightarrow>
            (let dir = (case path_parent exe of Some p \<Rightarrow> p | None \<Rightarrow> path_of ''.'') @ [''payload'']
             in with_ctx ''Not packed and no dev payload dir'' (on_disk (collect_dir (up_list U) dir) w)))))"

definition setup_name :: string where "setup_name = ''gdut-net-setup.exe''"

definition add_installer ::
  "'x machine setup_api \<Rightarrow> 'x machine shell_api \<Rightarrow> payload_entry list \<Rightarrow> 'x machine \<Rightarrow> (payload_entry list, 'x machine) outcome" where
  "add_installer U A entries w =
     then_do (current_exe U w) (\<lambda>self w.
       (let same_file = (case (up_canonical U self w, up_canonical U (path_of (setup_exe (sa_program_files A))) w) of
              (Some a, Some b) \<Rightarrow> a = b | _ \<Rightarrow> False)
        in if same_file then (Inr entries, w)
           else then_do (ensure (\<not> (\<exists>e \<in> set entries. to_ascii_lowercase (pe_name e) = to_ascii_lowercase setup_name))
                          (Msg ''Payload must not overwrite the installer'') w) (\<lambda>_ w.
                then_do (with_ctx ''Failed to read installer'' (io (on_disk (fs_read self) w))) (\<lambda>bytes w.
                  (Inr (entries @ [\<lparr>pe_name = setup_name, pe_data = bytes\<rparr>]), w)))))"

definition destination :: "'w shell_api \<Rightarrow> payload_entry \<Rightarrow> fpath" where
  "destination A e = path_of (path_join (install_dir (sa_program_files A)) (pe_name e))"

record prepared =
  pp_entries :: "payload_entry list"
  pp_files :: file_backup
  pp_core :: install_backup
  pp_shell :: shell_backup

definition prepare ::
  "'x machine host \<Rightarrow> 'x machine shell_api \<Rightarrow> 'x machine setup_api \<Rightarrow> prev_service \<Rightarrow> 'x machine \<Rightarrow> (prepared, 'x machine) outcome" where
  "prepare H A U prev w =
     then_do (ensure (prev \<noteq> PrevUnknown) (Msg ''Cannot safely back up service state; retry when service status is available'') w) (\<lambda>_ w.
     then_do (load_payload U w) (\<lambda>entries w.
     then_do (ensure (\<exists>e \<in> set entries. pe_name e = ''gdut-net.exe'') (Msg ''Payload is missing gdut-net.exe'') w) (\<lambda>_ w.
     then_do (add_installer U A entries w) (\<lambda>entries w.
     then_do (on_disk (backup_capture (map (destination A) entries)) w) (\<lambda>files w.
     then_do (install_capture H config_path w) (\<lambda>core w.
     then_do (shell_capture H A w) (\<lambda>shell w.
       (Inr \<lparr>pp_entries = entries, pp_files = files, pp_core = core, pp_shell = shell\<rparr>, w))))))))"

section \<open>Installing\<close>

primrec write_entries :: "'x machine shell_api \<Rightarrow> payload_entry list \<Rightarrow> 'x machine \<Rightarrow> (unit, 'x machine) outcome" where
  "write_entries A [] w = (Inr (), w)"
| "write_entries A (e # es) w =
     then_do (with_ctx ''Failed to write'' (on_disk (replace_file (destination A e) (pe_data e)) w)) (\<lambda>_ w. write_entries A es w)"

definition unpack_files :: "'x machine shell_api \<Rightarrow> payload_entry list \<Rightarrow> 'x machine \<Rightarrow> (unit, 'x machine) outcome" where
  "unpack_files A entries w =
     then_do (with_ctx ''Failed to create'' (io (on_disk (fs_create_dir_all (path_of (install_dir (sa_program_files A)))) w)))
       (\<lambda>_ w. write_entries A entries w)"

definition stop_limit :: duration where "stop_limit = from_secs 16"

record install_form =
  fm_student_id :: string
  fm_password :: "string option"

definition core_request :: "'w shell_api \<Rightarrow> install_form \<Rightarrow> install_request" where
  "core_request A form =
     \<lparr>iq_cfg_path = config_path, iq_student_id = Some (fm_student_id form),
      iq_credential = (case fm_password form of Some p \<Rightarrow> PlainText p | None \<Rightarrow> KeepExisting),
      iq_service_exe = install_exe (sa_program_files A), iq_tray_exe = install_exe (sa_program_files A)\<rparr>"

definition stages ::
  "'x machine host \<Rightarrow> 'x machine shell_api \<Rightarrow> 'x machine setup_api \<Rightarrow> install_form \<Rightarrow> prepared \<Rightarrow> 'x machine setup_stage list" where
  "stages H A U form b =
     [\<lparr>sg_key = step_stop_service, sg_mark = (\<lambda>p. p\<lparr>pg_stopped := True\<rparr>),
       sg_act = (\<lambda>w. then_do (stop_service (ho_scm H) stop_limit w) (\<lambda>_ w. (Inr (), up_kill_tray U w)))\<rparr>,
      \<lparr>sg_key = step_unpack, sg_mark = (\<lambda>p. p\<lparr>pg_files := True\<rparr>),
       sg_act = (\<lambda>w. with_ctx ''Failed to unpack'' (unpack_files A (pp_entries b) w))\<rparr>,
      \<lparr>sg_key = step_install_core, sg_mark = (\<lambda>p. p\<lparr>pg_core := True\<rparr>),
       sg_act = (\<lambda>w. then_do (install_core H (core_request A form) w) (\<lambda>_ w. (Inr (), w)))\<rparr>,
      \<lparr>sg_key = step_shell_integration, sg_mark = (\<lambda>p. p\<lparr>pg_shell := True\<rparr>),
       sg_act = install_shell_integration H A (install_dir (sa_program_files A)) (up_version U)\<rparr>,
      \<lparr>sg_key = step_start_service, sg_mark = (\<lambda>p. p), sg_act = start_service (ho_scm H)\<rparr>]"

text \<open>The rollback undoes what was begun; the service is started again only after its files and its configuration are back.\<close>

definition if_begun :: "bool \<Rightarrow> ('w \<Rightarrow> err list \<times> 'w) \<Rightarrow> 'w \<Rightarrow> err list \<times> 'w" where
  "if_begun c f w = (if c then f w else ([], w))"

definition roll_back ::
  "'x machine host \<Rightarrow> prev_service \<Rightarrow> prepared \<Rightarrow> progress \<Rightarrow> 'x machine \<Rightarrow> rollback_outcome \<times> 'x machine" where
  "roll_back H prev b p w =
     (let (f1, w) = noting ''Failed to stop service for rollback'' (stop_service (ho_scm H) stop_limit w);
          (f2, w) = if_begun (pg_files p) (\<lambda>w. noting [] (on_disk (backup_restore (pp_files b)) w)) w;
          (f3, w) = if_begun (pg_core p) (\<lambda>w. noting [] (install_restore H (pp_core b) w)) w;
          (service, w) = rollback_install (ho_scm H) prev w;
          f4 = (case service of RollbackFailed e \<Rightarrow> [e] | _ \<Rightarrow> []);
          (f5, w) = if_begun (pg_shell p) (\<lambda>w. noting [] (shell_restore H (pp_shell b) w)) w;
          failures = f1 @ f2 @ f3 @ f4 @ f5
      in (if failures = [] then service else RollbackFailed (Several [] failures), w))"

definition no_progress :: progress where
  "no_progress = \<lparr>pg_files = False, pg_core = False, pg_stopped = False, pg_shell = False\<rparr>"

definition run_install ::
  "'x machine host \<Rightarrow> 'x machine shell_api \<Rightarrow> 'x machine setup_api \<Rightarrow> install_form \<Rightarrow> 'x machine \<Rightarrow> install_event list \<times> 'x machine" where
  "run_install H A U form w =
     (let (prev, w) = capture_prev_service (ho_scm H) w
      in case prepare H A U prev w of
           (Inl e, w) \<Rightarrow> ([EvDone (Inl e) NotNeeded], w)
         | (Inr b, w) \<Rightarrow>
             (let ((es, p, r), w) = run_stages (stages H A U form b) no_progress w;
                  (rb, w) = (case r of
                      Inr _ \<Rightarrow> (NotNeeded, w)
                    | Inl _ \<Rightarrow> if pg_stopped p then roll_back H prev b p w else (NotNeeded, w))
              in (es @ [EvDone r rb], w)))"

end
