(* ===== verification/Transaction_Props.thy ===== *)
theory Transaction_Props
  imports Transaction Uninstall
begin

text \<open>
  What a failed run of the installer leaves behind, in terms of the steps it had begun.
\<close>

section \<open>Preparing changes nothing\<close>

lemma collect_items_nodes: "node_at (snd (collect_items ps d)) = node_at d"
proof (induction ps arbitrary: d)
  case (Cons p ps)
  have "node_at (snd (fs_is_file p d)) = node_at d" for d
    using fs_is_file_eff [of p d] by (metis prod.collapse use_fault_simps(1))
  then have "node_at (snd (collect_item p d)) = node_at d" for d
    by (simp add: collect_item_def attempt_def checked_name_def utf8_name_def read_entry_def snd_then_do fs_nodes case_prod_unfold Let_def
        split: option.split sum.split)
  with Cons show ?case by (simp add: snd_then_do split: sum.split)
qed simp

lemma collect_dir_nodes: "node_at (snd (collect_dir ls dir d)) = node_at d"
  by (simp add: collect_dir_def snd_then_do attempt_def collect_items_nodes split: sum.split option.split)

lemma load_payload_keeps: "view_of f \<Longrightarrow> f (snd (load_payload U w)) = f w"
  by (simp add: load_payload_def current_exe_def snd_then_do case_prod_unfold Let_def on_disk_keeps fs_nodes collect_dir_nodes
      split: sum.split option.split)

lemma add_installer_keeps: "view_of f \<Longrightarrow> f (snd (add_installer U A es w)) = f w"
  by (simp add: add_installer_def current_exe_def snd_then_do case_prod_unfold Let_def on_disk_keeps fs_nodes
      split: sum.split option.split)

lemma prepare_keeps:
  assumes "view_of f" "queries_keep H f"
  shows "f (snd (prepare H A U prev w)) = f w"
  unfolding prepare_def
  by (intro then_do_keeps)
    (use assms in \<open>simp_all add: load_payload_keeps add_installer_keeps on_disk_keeps backup_capture_nodes
       install_capture_keeps shell_capture_keeps\<close>)

definition payload_files :: "'w shell_api \<Rightarrow> prepared \<Rightarrow> fpath list" where
  "payload_files A b = map (destination A) (pp_entries b)"

lemma prepare_ok:
  assumes "prepare H A U prev w = (Inr b, w')"
    and q: "queries_keep H nodes" "queries_keep H R" "off_disk R"
  shows "prev \<noteq> PrevUnknown
    \<and> (\<exists>d d1. backup_capture (payload_files A b) d = (Inr (pp_files b), d1) \<and> node_at d = nodes w)
    \<and> (\<exists>v v'. install_capture H config_path v = (Inr (pp_core b), v') \<and> nodes v = nodes w \<and> R v = R w)
    \<and> (\<exists>v. shell_capture H A v = (Inr (pp_shell b), w') \<and> nodes v = nodes w \<and> R v = R w)"
proof -
  note v = view_nodes view_off_disk [OF q(3)]
  from assms(1) obtain es w1 es' w2 files w3 core w4 shell where a: "prev \<noteq> PrevUnknown"
    "load_payload U w = (Inr es, w1)" "add_installer U A es w1 = (Inr es', w2)"
    "on_disk (backup_capture (map (destination A) es')) w2 = (Inr files, w3)"
    "install_capture H config_path w3 = (Inr core, w4)" "shell_capture H A w4 = (Inr shell, w')"
    and b: "b = \<lparr>pp_entries = es', pp_files = files, pp_core = core, pp_shell = shell\<rparr>"
    by (auto simp: prepare_def then_do_Inr)
  have k: "f w2 = f w \<and> f w3 = f w \<and> f w4 = f w" if f: "view_of f" "queries_keep H f" for f :: "'a machine \<Rightarrow> 'c"
  proof -
    have "f w1 = f w" by (rule keeps_at [OF load_payload_keeps a(2)]) (rule f)
    moreover have "f w2 = f w1" by (rule keeps_at [OF add_installer_keeps a(3)]) (rule f)
    moreover have "f w3 = f w2" by (rule keeps_at [OF on_disk_keeps a(4)]) (rule f backup_capture_nodes)+
    moreover have "f w4 = f w3" by (rule keeps_at [OF install_capture_keeps a(5)]) (rule f)+
    ultimately show ?thesis by simp
  qed
  from a(4) obtain d1 where "backup_capture (map (destination A) es') (mc_disk w2) = (Inr files, d1)"
    by (auto simp: on_disk_Inr)
  moreover have "node_at (mc_disk w2) = nodes w" using k [OF v(1) q(1)] by (simp add: nodes_def)
  ultimately show ?thesis using a(1,5,6) b k [OF v(1) q(1)] k [OF v(2) q(2)] by (auto simp: payload_files_def)
qed

section \<open>The flags say which steps were begun\<close>

lemma step_keys [simp]:
  "step_unpack \<noteq> step_stop_service" "step_install_core \<noteq> step_stop_service" "step_shell_integration \<noteq> step_stop_service"
  "step_start_service \<noteq> step_stop_service" "step_install_core \<noteq> step_unpack" "step_shell_integration \<noteq> step_unpack"
  "step_start_service \<noteq> step_unpack" "step_shell_integration \<noteq> step_install_core" "step_start_service \<noteq> step_install_core"
  "step_start_service \<noteq> step_shell_integration"
  by (simp_all add: step_unpack_def step_stop_service_def step_install_core_def step_shell_integration_def step_start_service_def)

lemma stages_flags:
  assumes "run_stages (stages H A U form b) no_progress w = ((es, p, r), w')"
  shows "pg_stopped p \<and> (pg_files p \<longleftrightarrow> EvStep step_unpack \<in> set es) \<and> (pg_core p \<longleftrightarrow> EvStep step_install_core \<in> set es)
    \<and> (pg_shell p \<longleftrightarrow> EvStep step_shell_integration \<in> set es) \<and> (pg_core p \<longrightarrow> pg_files p) \<and> (pg_shell p \<longrightarrow> pg_core p)
    \<and> (\<not> pg_files p \<longrightarrow> (\<exists>e. stop_service (ho_scm H) stop_limit w = (Inl e, w')))"
  using assms step_keys [symmetric]
  by (auto simp: stages_def no_progress_def then_do_def split: prod.splits sum.splits)

section \<open>The rollback\<close>

text \<open>
  What the calls of the machine promise each other. Stopping the service, killing the tray and clearing
  credentials touch neither files nor the registry; a change of the registry touches nothing else.
\<close>

definition setup_laws ::
  "'x machine host \<Rightarrow> 'x machine setup_api \<Rightarrow> 'x machine reg_view \<Rightarrow> (reg_value \<Rightarrow> reg_value) \<Rightarrow> ('x machine \<Rightarrow> svc option) \<Rightarrow> bool" where
  "setup_laws H U R norm V \<longleftrightarrow>
     machine_laws H R norm V \<and> writes_keep H nodes \<and> writes_keep H V
   \<and> (\<forall>w. nodes (snd (sc_stop (ho_scm H) w)) = nodes w \<and> R (snd (sc_stop (ho_scm H) w)) = R w)
   \<and> (\<forall>w. nodes (snd (sc_now (ho_scm H) w)) = nodes w \<and> R (snd (sc_now (ho_scm H) w)) = R w)
   \<and> (\<forall>d w. nodes (sc_sleep (ho_scm H) d w) = nodes w \<and> R (sc_sleep (ho_scm H) d w) = R w)
   \<and> (\<forall>p n w. nodes (snd (ho_clear H p n w)) = nodes w)"

lemma setup_lawsD:
  assumes "setup_laws H U R norm V"
  shows "machine_laws H R norm V" "writes_keep H nodes" "writes_keep H V"
    "nodes (snd (sc_stop (ho_scm H) w)) = nodes w" "R (snd (sc_stop (ho_scm H) w)) = R w"
    "nodes (snd (sc_now (ho_scm H) w)) = nodes w" "R (snd (sc_now (ho_scm H) w)) = R w"
    "nodes (sc_sleep (ho_scm H) d w) = nodes w" "R (sc_sleep (ho_scm H) d w) = R w"
    "nodes (snd (ho_clear H p n w)) = nodes w"
  using assms by (auto simp: setup_laws_def)

lemma stop_service_keeps:
  assumes "queries_keep H f" "\<And>w. f (snd (sc_stop (ho_scm H) w)) = f w" "\<And>w. f (snd (sc_now (ho_scm H) w)) = f w"
    "\<And>d w. f (sc_sleep (ho_scm H) d w) = f w"
  shows "f (snd (stop_service (ho_scm H) limit w)) = f w"
proof -
  have "f (snd (await_stopped (ho_scm H) n dl w)) = f w" for n dl w
    using assms by (induction n arbitrary: w) (simp_all add: snd_simps queries_keepD split: sum.split)
  then show ?thesis using assms by (simp add: stop_service_def snd_simps queries_keepD split: sum.split)
qed

text \<open>The restoration of the configuration leaves every other file alone.\<close>

lemma install_restore_others:
  assumes laws: "setup_laws H U R norm V" and cap: "install_capture H path w0 = (Inr b, w1)"
    and res: "install_restore H b w = (r, w')" and r: "r = Inr ()"
    and x: "x \<notin> set (owned_files b path)" "\<not> is_staging x" and own: "\<forall>p \<in> set (owned_files b path). \<not> is_staging p"
  shows "nodes w' x = nodes w x"
proof -
  note l = setup_lawsD [OF laws] and m = machine_lawsD [OF setup_lawsD(1) [OF laws]]
  obtain e1 v1 where 1: "clear_new_credentials H b w = (e1, v1)" by force
  obtain e2 v2 where 2: "noting ''Failed to restore tray autostart'' (registry_restore (ho_reg H) (ib_autostart b) v1) = (e2, v2)" by force
  obtain e3 v3 where 3: "noting [] (on_disk (backup_restore (ib_files b)) v2) = (e3, v3)" by force
  have n1: "nodes v1 = nodes w"
  proof -
    have "nodes (snd (clear_new_credentials H b w)) = nodes w"
      using dial_entry_keeps [OF view_nodes m(3)]
      by (simp add: clear_new_credentials_def clear_install_credentials_def case_prod_unfold Let_def l(10) split: sum.split bool.split)
    then show ?thesis using 1 by simp
  qed
  have n2: "nodes v2 = nodes v1"
    using 2 registry_restore_keeps [OF l(2), of "ib_autostart b" v1] by (metis snd_conv snd_noting)
  from res r 1 2 3 have e: "e3 = []" and w': "w' = (case ib_old_password b of None \<Rightarrow> v3
      | Some p \<Rightarrow> snd (set_credentials (ho_ras H) (dc_pbk_path (cf_dial (ib_cfg b))) (dc_entry_name (cf_dial (ib_cfg b)))
                       (ac_student_id (cf_account (ib_cfg b))) p v3))"
    by (auto simp: install_restore_def noting_def split: option.split_asm prod.split_asm sum.split_asm)
  have n4: "nodes w' = nodes v3" using w' set_credentials_keeps [OF m(6)] by (simp split: option.split)
  from 3 e obtain d where d: "backup_restore (ib_files b) (mc_disk v2) = (Inr (), d)" "v3 = v2\<lparr>mc_disk := d\<rparr>"
    by (auto simp: noting_ok on_disk_Inr)
  from install_capture_ok [OF cap m(3,4,8)] obtain c c1 where "backup_capture (owned_files b path) c = (Inr (ib_files b), c1)" by blast
  from backup_restore_ok [OF this own d(1)] x n1 n2 n4 d(2) show ?thesis by (simp add: nodes_def)
qed

text \<open>
  The files of the payload, those of the configuration, the shortcuts and the names of staged files are
  different files.
\<close>

definition setup_apart :: "'w shell_api \<Rightarrow> prepared \<Rightarrow> bool" where
  "setup_apart A b \<longleftrightarrow>
     (\<forall>x \<in> set (payload_files A b) \<union> set (owned_files (pp_core b) config_path). \<not> is_staging x
        \<and> (\<forall>dir. start_menu_dir A = Inr dir \<longrightarrow> x \<notin> set (shell_files dir) \<and> x \<noteq> path_of dir))
   \<and> set (payload_files A b) \<inter> set (owned_files (pp_core b) config_path) = {}"

lemma if_begun_ok: "if_begun c (\<lambda>w. noting what (g w)) w = ([], w') \<longleftrightarrow> (if c then g w = (Inr (), w') else w' = w)"
  by (auto simp: if_begun_def noting_ok)

lemma roll_back_Restored:
  assumes "roll_back H prev b p w = (Restored, w')"
  shows "\<exists>w1 w2 w3 w4.
     stop_service (ho_scm H) stop_limit w = (Inr (), w1)
   \<and> (if pg_files p then on_disk (backup_restore (pp_files b)) w1 = (Inr (), w2) else w2 = w1)
   \<and> (if pg_core p then install_restore H (pp_core b) w2 = (Inr (), w3) else w3 = w2)
   \<and> rollback_install (ho_scm H) prev w3 = (Restored, w4)
   \<and> (if pg_shell p then shell_restore H (pp_shell b) w4 = (Inr (), w') else w' = w4)"
proof -
  obtain f1 w1 where 1: "noting ''Failed to stop service for rollback'' (stop_service (ho_scm H) stop_limit w) = (f1, w1)" by force
  obtain f2 w2 where 2: "if_begun (pg_files p) (\<lambda>w. noting [] (on_disk (backup_restore (pp_files b)) w)) w1 = (f2, w2)" by force
  obtain f3 w3 where 3: "if_begun (pg_core p) (\<lambda>w. noting [] (install_restore H (pp_core b) w)) w2 = (f3, w3)" by force
  obtain s w4 where 4: "rollback_install (ho_scm H) prev w3 = (s, w4)" by force
  obtain f5 w5 where 5: "if_begun (pg_shell p) (\<lambda>w. noting [] (shell_restore H (pp_shell b) w)) w4 = (f5, w5)" by force
  from assms 1 2 3 4 5 have "f1 = []" "f2 = []" "f3 = []" "f5 = []" "s = Restored" "w' = w5"
    by (auto simp: roll_back_def Let_def split: if_splits)
  with 1 2 3 4 5 have "stop_service (ho_scm H) stop_limit w = (Inr (), w1)
   \<and> (if pg_files p then on_disk (backup_restore (pp_files b)) w1 = (Inr (), w2) else w2 = w1)
   \<and> (if pg_core p then install_restore H (pp_core b) w2 = (Inr (), w3) else w3 = w2)
   \<and> rollback_install (ho_scm H) prev w3 = (Restored, w4)
   \<and> (if pg_shell p then shell_restore H (pp_shell b) w4 = (Inr (), w') else w' = w4)"
    by (simp add: noting_ok if_begun_ok)
  then show ?thesis by blast
qed

lemma run_key_other: "run_key \<noteq> uninstall_key"
  by (simp add: run_key_def uninstall_key_def)

lemma roll_back_undoes:
  assumes laws: "setup_laws H U R norm V" and prep: "prepare H A U prev w0 = (Inr b, w1)" and apart: "setup_apart A b"
    and rb: "roll_back H prev b p w = (Restored, w')"
  shows "(pg_files p \<longrightarrow> (\<forall>x \<in> set (payload_files A b). nodes w' x = nodes w0 x))
    \<and> (pg_core p \<longrightarrow> (\<forall>x \<in> set (owned_files (pp_core b) config_path). nodes w' x = nodes w0 x)
         \<and> reg_at R w' run_key ''gdut-net-tray'' = map_option norm (reg_at R w0 run_key ''gdut-net-tray''))
    \<and> (pg_shell p \<longrightarrow> (\<exists>dir. start_menu_dir A = Inr dir \<and> (\<forall>x \<in> set (shell_files dir). nodes w' x = nodes w0 x))
         \<and> (\<forall>n \<in> set uninstall_values. reg_at R w' uninstall_key n = map_option norm (reg_at R w0 uninstall_key n)))
    \<and> (\<not> pg_files p \<and> \<not> pg_core p \<and> \<not> pg_shell p \<longrightarrow> nodes w' = nodes w \<and> R w' = R w)"
proof -
  note l = setup_lawsD [OF laws] and m = machine_lawsD [OF setup_lawsD(1) [OF laws]]
  from prepare_ok [OF prep m(3,4,8)] obtain d d1 c c1 s where
    files: "backup_capture (payload_files A b) d = (Inr (pp_files b), d1)" "node_at d = nodes w0" and
    core: "install_capture H config_path c = (Inr (pp_core b), c1)" "nodes c = nodes w0" "R c = R w0" and
    shell: "shell_capture H A s = (Inr (pp_shell b), w1)" "nodes s = nodes w0" "R s = R w0" by blast
  from roll_back_Restored [OF rb] obtain v1 v2 v3 v4 where
    1: "stop_service (ho_scm H) stop_limit w = (Inr (), v1)" and
    2: "if pg_files p then on_disk (backup_restore (pp_files b)) v1 = (Inr (), v2) else v2 = v1" and
    3: "if pg_core p then install_restore H (pp_core b) v2 = (Inr (), v3) else v3 = v2" and
    4: "rollback_install (ho_scm H) prev v3 = (Restored, v4)" and
    5: "if pg_shell p then shell_restore H (pp_shell b) v4 = (Inr (), w') else w' = v4" by blast
  have k4: "nodes v4 = nodes v3" "R v4 = R v3"
    using rollback_keeps [OF m(3,6), of prev v3] rollback_keeps [OF m(4,7), of prev v3] 4 by simp_all
  have own: "\<forall>x \<in> set (owned_files (pp_core b) config_path). \<not> is_staging x" using apart by (auto simp: setup_apart_def)
  have after: "nodes w' x = nodes v3 x" if "x \<in> set (payload_files A b) \<union> set (owned_files (pp_core b) config_path)" for x
  proof (cases "pg_shell p")
    case True
    with 5 have "shell_restore H (pp_shell b) v4 = (Inr (), w')" by simp
    from shell_backup_roundtrip [OF l(1,2) shell(1) this] apart that k4(1) show ?thesis by (auto simp: setup_apart_def)
  qed (use 5 k4(1) in simp)
  have run: "R w' run_key = R v3 run_key"
  proof (cases "pg_shell p")
    case True
    with 5 have "shell_restore H (pp_shell b) v4 = (Inr (), w')" by simp
    from shell_backup_roundtrip [OF l(1,2) shell(1) this] have "\<forall>k. k \<noteq> uninstall_key \<longrightarrow> R w' k = R v4 k" by blast
    with k4(2) show ?thesis using run_key_other by metis
  qed (use 5 k4(2) in simp)
  have A: "nodes w' x = nodes w0 x" if "pg_files p" "x \<in> set (payload_files A b)" for x
  proof -
    from 2 that(1) obtain e where e: "backup_restore (pp_files b) (mc_disk v1) = (Inr (), e)" "v2 = v1\<lparr>mc_disk := e\<rparr>"
      by (auto simp: on_disk_Inr)
    have "\<forall>x \<in> set (payload_files A b). \<not> is_staging x" using apart by (auto simp: setup_apart_def)
    from backup_restore_ok [OF files(1) this e(1)] that files(2) e(2) have "nodes v2 x = nodes w0 x" by (simp add: nodes_def)
    moreover have "nodes v3 x = nodes v2 x"
    proof (cases "pg_core p")
      case True
      with 3 have "install_restore H (pp_core b) v2 = (Inr (), v3)" by simp
      from install_restore_others [OF laws core(1) this refl _ _ own, of x] apart that show ?thesis by (auto simp: setup_apart_def)
    qed (use 3 in simp)
    ultimately show ?thesis using after that by simp
  qed
  have B: "(\<forall>x \<in> set (owned_files (pp_core b) config_path). nodes w' x = nodes w0 x)
      \<and> reg_at R w' run_key ''gdut-net-tray'' = map_option norm (reg_at R w0 run_key ''gdut-net-tray'')" if "pg_core p"
  proof -
    from 3 that have "install_restore H (pp_core b) v2 = (Inr (), v3)" by simp
    from install_backup_roundtrip [OF l(1) core(1) this own] core(2,3) after run show ?thesis by (simp add: reg_at_def)
  qed
  have C: "(\<exists>dir. start_menu_dir A = Inr dir \<and> (\<forall>x \<in> set (shell_files dir). nodes w' x = nodes w0 x))
      \<and> (\<forall>n \<in> set uninstall_values. reg_at R w' uninstall_key n = map_option norm (reg_at R w0 uninstall_key n))" if "pg_shell p"
  proof -
    from 5 that have "shell_restore H (pp_shell b) v4 = (Inr (), w')" by simp
    from shell_backup_roundtrip [OF l(1,2) shell(1) this] shell(2,3) show ?thesis by (auto simp: reg_at_def)
  qed
  have D: "nodes w' = nodes w \<and> R w' = R w" if "\<not> pg_files p" "\<not> pg_core p" "\<not> pg_shell p"
    using that 2 3 5 k4 stop_service_keeps [OF m(3), of stop_limit w] stop_service_keeps [OF m(4), of stop_limit w] l(4-9) 1 by simp
  show ?thesis using A B C D by blast
qed

lemma roll_back_service:
  assumes laws: "setup_laws H U R norm V" and cap: "capture_prev_service (ho_scm H) w0 = (prev, w1)"
    and rb: "roll_back H prev b p w = (Restored, w')"
  shows "same_reg (V w') (V w0)
    \<and> (\<forall>s. V w0 = Some s \<and> sv_state s = SvRunning \<longrightarrow> (\<exists>s'. V w' = Some s' \<and> sv_state s' \<noteq> SvStopped))"
proof -
  note l = setup_lawsD [OF laws] and m = machine_lawsD [OF setup_lawsD(1) [OF laws]]
  from roll_back_Restored [OF rb] obtain v3 v4 where v: "rollback_install (ho_scm H) prev v3 = (Restored, v4)"
    "if pg_shell p then shell_restore H (pp_shell b) v4 = (Inr (), w') else w' = v4" by blast
  have "V (snd (shell_restore H (pp_shell b) v4)) = V v4"
    using registry_restore_keeps [OF l(3)] m(9)
    by (simp add: shell_restore_def remove_new_folder_def case_prod_unfold Let_def snd_on_disk off_disk_def split: sum.split)
  with v(2) have "V w' = V v4" by (auto split: if_splits)
  with rollback_install_eff [OF m(1) cap v(1)] show ?thesis by auto
qed

lemma roll_back_outcomes:
  assumes "roll_back H prev b p w = (q, w')" "prev \<noteq> PrevUnknown"
  shows "q \<noteq> NotNeeded \<and> q \<noteq> RestoredUnknown"
proof -
  have "\<exists>v. q = fst (rollback_install (ho_scm H) prev v) \<or> (\<exists>f. q = RollbackFailed f)"
    using assms(1) by (auto simp: roll_back_def case_prod_unfold Let_def split: if_splits)
  with rollback_outcomes [OF surjective_pairing assms(2), of "ho_scm H"] show ?thesis by auto
qed

lemma failed_setup_undone:
  assumes laws: "setup_laws H U R norm V" and prev: "capture_prev_service (ho_scm H) w0 = (prev, w1)"
    and prep: "prepare H A U prev w1 = (Inr b, w2)" and apart: "setup_apart A b"
    and run: "run_install H A U form w0 = (es @ [EvDone (Inl e) rb], w')"
  shows "rb \<noteq> NotNeeded \<and> rb \<noteq> RestoredUnknown \<and> (rb = Restored \<longrightarrow>
      (EvStep step_unpack \<in> set es \<longrightarrow> (\<forall>x \<in> set (payload_files A b). nodes w' x = nodes w0 x))
    \<and> (EvStep step_install_core \<in> set es \<longrightarrow>
          (\<forall>x \<in> set (owned_files (pp_core b) config_path). nodes w' x = nodes w0 x)
          \<and> reg_at R w' run_key ''gdut-net-tray'' = map_option norm (reg_at R w0 run_key ''gdut-net-tray''))
    \<and> (EvStep step_shell_integration \<in> set es \<longrightarrow>
          (\<exists>dir. start_menu_dir A = Inr dir \<and> (\<forall>x \<in> set (shell_files dir). nodes w' x = nodes w0 x))
          \<and> (\<forall>n \<in> set uninstall_values. reg_at R w' uninstall_key n = map_option norm (reg_at R w0 uninstall_key n)))
    \<and> (EvStep step_unpack \<notin> set es \<longrightarrow> nodes w' = nodes w0 \<and> R w' = R w0)
    \<and> same_reg (V w') (V w0)
    \<and> (\<forall>s. V w0 = Some s \<and> sv_state s = SvRunning \<longrightarrow> (\<exists>s'. V w' = Some s' \<and> sv_state s' \<noteq> SvStopped)))"
proof -
  note l = setup_lawsD [OF laws] and m = machine_lawsD [OF setup_lawsD(1) [OF laws]]
  have 1: "nodes w1 = nodes w0" "R w1 = R w0"
    using capture_prev_keeps [OF m(3), of w0] capture_prev_keeps [OF m(4), of w0] prev by simp_all
  have 2: "nodes w2 = nodes w1" "R w2 = R w1"
    using prepare_keeps [OF view_nodes m(3), of A U prev w1] prepare_keeps [OF view_off_disk [OF m(8)] m(4), of A U prev w1] prep by simp_all
  obtain fs p r w3 where s: "run_stages (stages H A U form b) no_progress w2 = ((fs, p, r), w3)" by (metis prod.exhaust)
  obtain q w4 where q: "roll_back H prev b p w3 = (q, w4)" by force
  note fl = stages_flags [OF s]
  from run prev prep s q fl have ev: "fs = es" "r = Inl e" "rb = q" "w' = w4"
    by (auto simp: run_install_def split: sum.splits)
  have prev': "prev \<noteq> PrevUnknown" using prepare_ok [OF prep m(3,4,8)] by blast
  have "rb \<noteq> NotNeeded" "rb \<noteq> RestoredUnknown" using roll_back_outcomes [OF q prev'] ev by simp_all
  moreover have "nodes w3 = nodes w2 \<and> R w3 = R w2" if "\<not> pg_files p"
  proof -
    from fl that obtain x where "stop_service (ho_scm H) stop_limit w2 = (x, w3)" by blast
    then show ?thesis
      using stop_service_keeps [OF m(3), of stop_limit w2] stop_service_keeps [OF m(4), of stop_limit w2] l(4-9) by simp
  qed
  moreover have "reg_at R w1 k n = reg_at R w0 k n" for k n using 1 by (simp add: reg_at_def)
  moreover have "roll_back H prev b p w3 = (Restored, w')" if "rb = Restored" using q ev that by simp
  ultimately show ?thesis
    using roll_back_undoes [OF laws prep apart, of p w3 w'] roll_back_service [OF laws prev, of b p w3 w'] fl 1 2 ev(1)
    by (simp add: 1) blast
qed

text \<open>
  C23 (safety). A failed run of the installer is undone as far as it had come. If the rollback reports
  \<open>Restored\<close>, then every program file is as before once the unpacking had begun; the configuration, the
  phonebook and the autostart value are as before once the configuration step had begun; the shortcuts and
  the uninstall entry are as before once the shell step had begun; if nothing but the stopping of the service
  was begun, no file and no registry value is different at all. In every case the service is registered as
  before, and running again if it was running. A run that ends with the report of a failure never reports
  \<open>NotNeeded\<close> after a step was begun. The files of the program, those of the configuration and those of the
  shortcuts are taken to be different files, none of them a staging name (\<open>setup_apart\<close>).
\<close>

theorem failed_setup_is_undone:
  assumes laws: "setup_laws H U R norm V" and prev: "capture_prev_service (ho_scm H) w0 = (prev, w1)"
    and prep: "prepare H A U prev w1 = (Inr b, w2)" and apart: "setup_apart A b"
    and run: "run_install H A U form w0 = (es @ [EvDone (Inl e) rb], w')"
  shows "rb \<noteq> NotNeeded \<and> rb \<noteq> RestoredUnknown \<and> (rb = Restored \<longrightarrow>
      (EvStep step_unpack \<in> set es \<longrightarrow> (\<forall>x \<in> set (payload_files A b). nodes w' x = nodes w0 x))
    \<and> (EvStep step_install_core \<in> set es \<longrightarrow>
          (\<forall>x \<in> set (owned_files (pp_core b) config_path). nodes w' x = nodes w0 x)
          \<and> reg_at R w' run_key ''gdut-net-tray'' = map_option norm (reg_at R w0 run_key ''gdut-net-tray''))
    \<and> (EvStep step_shell_integration \<in> set es \<longrightarrow>
          (\<exists>dir. start_menu_dir A = Inr dir \<and> (\<forall>x \<in> set (shell_files dir). nodes w' x = nodes w0 x))
          \<and> (\<forall>n \<in> set uninstall_values. reg_at R w' uninstall_key n = map_option norm (reg_at R w0 uninstall_key n)))
    \<and> (EvStep step_unpack \<notin> set es \<longrightarrow> nodes w' = nodes w0 \<and> R w' = R w0)
    \<and> same_reg (V w') (V w0)
    \<and> (\<forall>s. V w0 = Some s \<and> sv_state s = SvRunning \<longrightarrow> (\<exists>s'. V w' = Some s' \<and> sv_state s' \<noteq> SvStopped)))"
  by (rule failed_setup_undone [OF laws prev prep apart run])

lemma prepared_run:
  assumes prev: "capture_prev_service (ho_scm H) w0 = (prev, w1)" and prep: "prepare H A U prev w1 = (Inr b, w2)"
    and run: "run_install H A U form w0 = (evs, w')"
  shows "\<exists>es p r w3. run_stages (stages H A U form b) no_progress w2 = ((es, p, r), w3)
    \<and> (case r of Inr _ \<Rightarrow> evs = es @ [EvDone r NotNeeded] \<and> w' = w3
        | Inl _ \<Rightarrow> \<exists>q. roll_back H prev b p w3 = (q, w') \<and> evs = es @ [EvDone r q])"
proof -
  obtain es p r w3 where s: "run_stages (stages H A U form b) no_progress w2 = ((es, p, r), w3)" by (metis prod.exhaust)
  with stages_flags [OF s] run prev prep show ?thesis by (auto simp: run_install_def split: sum.splits prod.splits)
qed

text \<open>What a run that ends in a failure says about its rollback, whether or not it came to the steps.\<close>

lemma failed_run_outcome:
  assumes laws: "setup_laws H U R norm V" and run: "run_install H A U form w0 = (es @ [EvDone (Inl e) rb], w')"
  shows "rb \<noteq> RestoredUnknown
    \<and> (rb = NotNeeded \<longrightarrow> nodes w' = nodes w0 \<and> R w' = R w0 \<and> V w' = V w0)
    \<and> (rb = Restored \<longrightarrow> same_reg (V w') (V w0)
         \<and> (\<forall>s. V w0 = Some s \<and> sv_state s = SvRunning \<longrightarrow> (\<exists>s'. V w' = Some s' \<and> sv_state s' \<noteq> SvStopped)))"
proof -
  note m = machine_lawsD [OF setup_lawsD(1) [OF laws]]
  obtain prev w1 where prev: "capture_prev_service (ho_scm H) w0 = (prev, w1)" by force
  obtain x w2 where prep: "prepare H A U prev w1 = (x, w2)" by force
  have keep: "f w2 = f w0" if "view_of f" "queries_keep H f" for f :: "'a machine \<Rightarrow> 'c"
    using capture_prev_keeps [OF that(2), of w0] prepare_keeps [OF that, of A U prev w1] prev prep by simp
  show ?thesis
  proof (cases x)
    case (Inl d)
    with run prev prep have "rb = NotNeeded" "w' = w2" by (auto simp: run_install_def)
    with keep [OF view_nodes m(3)] keep [OF view_off_disk [OF m(8)] m(4)] keep [OF view_off_disk [OF m(9)] m(5)]
    show ?thesis by simp
  next
    case (Inr b)
    with prepared_run [OF prev _ run] prep obtain p w3 where q: "roll_back H prev b p w3 = (rb, w')"
      by (auto split: sum.splits) (metis old.sum.exhaust old.unit.exhaust)
    have "prev \<noteq> PrevUnknown" using prepare_ok [OF prep [unfolded Inr] m(3,4,8)] by blast
    with roll_back_outcomes [OF q] roll_back_service [OF laws prev, of b p w3 w'] q show ?thesis by blast
  qed
qed

section \<open>A run that cannot unpack\<close>

definition setup_machine :: "demo_rest machine" where
  "setup_machine = (demo_machine (Some demo_service))
     \<lparr>mc_disk := (demo_disk [])\<lparr>dk_nodes := fmap_of_list
        [([''C:''], Folder), ([''C:'', ''a.exe''], File [1]), ([''C:'', ''payload''], Folder),
         ([''C:'', ''payload'', ''gdut-net.exe''], File [2])]\<rparr>\<rparr>"

definition setup_tools :: "demo_rest machine setup_api" where
  "setup_tools =
     \<lparr>up_self = Inr [''C:'', ''a.exe''], up_canonical = \<lambda>_ _. None, up_list = \<lambda>_ _. [[''C:'', ''payload'', ''gdut-net.exe'']],
      up_sha = demo_sha, up_version = ''1.0'', up_kill_tray = \<lambda>w. w\<rparr>"

text \<open>The folder of the programs is a file.\<close>

definition setup_shell :: "demo_rest machine shell_api" where
  "setup_shell = demo_shell\<lparr>sa_program_files := Some (path_join ''C:'' ''a.exe'')\<rparr>"

definition setup_entries :: "payload_entry list" where
  "setup_entries = [\<lparr>pe_name = ''gdut-net.exe'', pe_data = [2]\<rparr>, \<lparr>pe_name = setup_name, pe_data = [1]\<rparr>]"

lemma capture_succeeds:
  assumes "calm d" "\<forall>p \<in> set ps. node_at d p \<noteq> Some Folder"
  shows "\<exists>files. backup_capture ps d = (Inr files, d)"
proof -
  have "\<exists>files. capture_files fs ps d = (Inr files, d)" for fs
    using assms by (induction ps arbitrary: fs) (auto simp: fs_read_def split: option.split node.split)
  then show ?thesis by (simp add: backup_capture_def)
qed

lemma setup_paths:
  "path_of config_path = [''C:'', ''ProgramData'', ''gdut-net'', ''config.toml'']"
  "path_of (setup_exe (sa_program_files setup_shell)) = [''C:'', ''a.exe'', ''gdut-net'', ''gdut-net-setup.exe'']"
  "map (destination setup_shell) setup_entries =
     [[''C:'', ''a.exe'', ''gdut-net'', ''gdut-net.exe''], [''C:'', ''a.exe'', ''gdut-net'', ''gdut-net-setup.exe'']]"
  "path_of (install_dir (sa_program_files setup_shell)) = [''C:'', ''a.exe'', ''gdut-net'']"
  by code_simp+

lemma setup_menu:
  "(case start_menu_dir setup_shell of Inl _ \<Rightarrow> False | Inr dir \<Rightarrow> list_all (\<lambda>p. hd p = ''D:'') (shell_files dir))"
  "(case start_menu_dir setup_shell of Inl _ \<Rightarrow> False | Inr dir \<Rightarrow> hd (path_of dir) = ''D:'')"
  by code_simp+

lemma setup_disk:
  "calm (mc_disk setup_machine)" "node_at (mc_disk setup_machine) [''C:''] = Some Folder"
  "node_at (mc_disk setup_machine) [''C:'', ''a.exe''] = Some (File [1])"
  "node_at (mc_disk setup_machine) p = Some Folder \<Longrightarrow> p = [''C:''] \<or> p = [''C:'', ''payload'']"
  "node_at (mc_disk setup_machine) [''C:'', ''payload''] = Some Folder"
  "node_at (mc_disk setup_machine) [''C:'', ''payload'', ''gdut-net.exe''] = Some (File [2])"
  "node_at (mc_disk setup_machine) [''C:'', ''ProgramData'', ''gdut-net'', ''config.toml''] = None"
  "node_at (mc_disk setup_machine) [''C:'', ''ProgramData'', ''gdut-net'', ''gdut.pbk''] = None"
  by (auto simp: setup_machine_def calm_def demo_disk_def demo_machine_def fmlookup_of_list split: if_splits)

lemma setup_on_disk: "g (mc_disk w) = (r, mc_disk w) \<Longrightarrow> on_disk g w = (r, w)" for w :: "'x machine"
  by (simp add: on_disk_def)

lemma setup_payload: "load_payload setup_tools setup_machine = (Inr [\<lparr>pe_name = ''gdut-net.exe'', pe_data = [2]\<rparr>], setup_machine)"
proof -
  have n: "good_name [''C:'', ''payload'', ''gdut-net.exe'']" by code_simp
  have u: "unpack demo_sha [1] = Inr None" by (simp add: unpack_def footer_len_def)
  have "collect_items [[''C:'', ''payload'', ''gdut-net.exe'']] (mc_disk setup_machine)
      = (Inr [\<lparr>pe_name = ''gdut-net.exe'', pe_data = [2]\<rparr>], mc_disk setup_machine)"
    using n setup_disk by (subst collect_items_ok) (auto simp: entry_of_def List.map_filter_simps)
  then have "collect_dir (up_list setup_tools) [''C:'', ''payload''] (mc_disk setup_machine)
      = (Inr [\<lparr>pe_name = ''gdut-net.exe'', pe_data = [2]\<rparr>], mc_disk setup_machine)"
    using setup_disk by (simp add: collect_dir_def setup_tools_def sort_entries_def)
  then have "on_disk (collect_dir (up_list setup_tools) [''C:'', ''payload'']) setup_machine
      = (Inr [\<lparr>pe_name = ''gdut-net.exe'', pe_data = [2]\<rparr>], setup_machine)" by (rule setup_on_disk)
  moreover have "on_disk (fs_read [''C:'', ''a.exe'']) setup_machine = (Inr [1], setup_machine)"
    using setup_disk by (intro setup_on_disk) (simp add: fs_read_def)
  moreover have "path_parent [''C:'', ''a.exe''] = Some [''C:'']" by (simp add: path_parent_def is_root_def)
  moreover have "up_self setup_tools = Inr [''C:'', ''a.exe'']" "up_sha setup_tools = demo_sha" by (simp_all add: setup_tools_def)
  ultimately show ?thesis using u by (simp add: load_payload_def current_exe_def)
qed

lemma setup_prepared:
  assumes "prev \<noteq> PrevUnknown"
  shows "\<exists>b. prepare (demo_host 0) setup_shell setup_tools prev setup_machine = (Inr b, setup_machine)
    \<and> pp_entries b = setup_entries \<and> ib_cfg (pp_core b) = config_default"
proof -
  let ?w = setup_machine
  have "on_disk (fs_read [''C:'', ''a.exe'']) ?w = (Inr [1], ?w)"
    using setup_disk by (intro setup_on_disk) (simp add: fs_read_def)
  moreover have "to_ascii_lowercase ''gdut-net.exe'' \<noteq> to_ascii_lowercase setup_name" by code_simp
  ultimately have add: "add_installer setup_tools setup_shell [\<lparr>pe_name = ''gdut-net.exe'', pe_data = [2]\<rparr>] ?w = (Inr setup_entries, ?w)"
    by (simp add: add_installer_def current_exe_def setup_tools_def setup_entries_def ensure_def)
  obtain files where files: "on_disk (backup_capture (map (destination setup_shell) setup_entries)) ?w = (Inr files, ?w)"
    using capture_succeeds [OF setup_disk(1), of "map (destination setup_shell) setup_entries"] setup_disk(4)
    by (force simp: setup_paths on_disk_def)
  have cfg: "config_or_default (demo_host 0) config_path ?w = (Inr (config_default, False), ?w)"
    using setup_disk by (simp add: config_or_default_def on_disk_def fs_exists_def setup_paths)
  have entry: "dial_entry_exists (demo_host 0) config_default ?w = (Inr False, ?w)"
    using setup_disk by (simp add: dial_entry_exists_def on_disk_def fs_exists_def demo_paths)
  obtain owned where "on_disk (backup_capture [path_of config_path, path_of (dc_pbk_path (cf_dial config_default))]) ?w = (Inr owned, ?w)"
    using capture_succeeds [OF setup_disk(1), of "[path_of config_path, path_of (dc_pbk_path (cf_dial config_default))]"] setup_disk(4)
    by (force simp: setup_paths demo_paths on_disk_def)
  moreover have "\<exists>v. registry_capture demo_registry run_key [''gdut-net-tray''] ?w = (Inr v, ?w)"
    by (simp add: registry_capture_def demo_registry_simps in_regs_def setup_machine_def demo_machine_def read_value_def reg_at_def ensure_def)
  ultimately obtain core where core: "install_capture (demo_host 0) config_path ?w = (Inr core, ?w)" "ib_cfg core = config_default"
    using cfg entry by (auto simp: install_capture_def ensure_def)
  obtain shell where shell: "shell_capture (demo_host 0) setup_shell ?w = (Inr shell, ?w)"
  proof -
    from setup_menu obtain dir where dir: "start_menu_dir setup_shell = Inr dir" "\<forall>p \<in> set (shell_files dir). hd p = ''D:''"
      by (auto simp: list_all_iff split: sum.splits)
    have "\<forall>p \<in> set (shell_files dir). node_at (mc_disk ?w) p \<noteq> Some Folder" using dir(2) setup_disk(4) by force
    then obtain fs where "on_disk (backup_capture (map (shortcut_file dir) shortcuts)) ?w = (Inr fs, ?w)"
      using capture_succeeds [OF setup_disk(1), of "shell_files dir"] by (auto simp: on_disk_def shell_files_def)
    moreover have "\<exists>e. on_disk (fs_try_exists (path_of dir)) ?w = (Inr e, ?w)"
      using setup_disk(1) by (simp add: on_disk_def fs_try_exists_def)
    moreover have "read_values demo_registry uninstall_key ns ?w = (Inr (map (\<lambda>n. (n, None)) ns), ?w)" for ns
      by (induction ns) (simp_all add: read_value_def demo_registry_simps in_regs_def setup_machine_def demo_machine_def reg_at_def ensure_def run_key_other [symmetric])
    then have "\<exists>v. registry_capture demo_registry uninstall_key uninstall_values ?w = (Inr v, ?w)"
      by (simp add: registry_capture_def demo_registry_simps in_regs_def setup_machine_def demo_machine_def ensure_def run_key_other [symmetric])
    ultimately show thesis using dir(1) that by (auto simp: shell_capture_def)
  qed
  from assms setup_payload add files core shell show ?thesis
    by (simp add: prepare_def ensure_def setup_entries_def)
qed

lemma setup_calls: "setup_laws (demo_host 0) setup_tools demo_regs_of id demo_service_of"
proof -
  have "writes_keep (demo_host 0) nodes" "writes_keep (demo_host 0) demo_service_of"
    by (rule demo_writes, simp add: nodes_def demo_service_of_def)+
  then show ?thesis
    unfolding setup_laws_def
    by (intro conjI demo_host_laws) (simp_all add: demo_scm_def in_scm_def nodes_def demo_regs_of_def plain_scm_def Let_def)
qed

lemma setup_unpack: "mc_disk w = mc_disk setup_machine \<Longrightarrow> \<exists>e. unpack_files setup_shell es w = (Inl e, w)"
  using setup_disk by (simp add: unpack_files_def setup_paths on_disk_def fs_create_dir_all_def ancestors_def upt_rec with_ctx_def)

theorem failed_setup_is_undone_witness:
  "\<exists>es e rb w'. run_install (demo_host 0) setup_shell setup_tools \<lparr>fm_student_id = ''31'', fm_password = None\<rparr> setup_machine
       = (es @ [EvDone (Inl e) rb], w')
    \<and> rb \<noteq> NotNeeded \<and> (rb = Restored \<longrightarrow> same_reg (demo_service_of w') (Some demo_service))"
proof -
  let ?H = "demo_host 0" and ?w = setup_machine and ?form = "\<lparr>fm_student_id = ''31'', fm_password = None\<rparr>"
  have svc: "demo_service_of ?w = Some demo_service" by (simp add: demo_service_of_def setup_machine_def demo_machine_def)
  obtain prev where prev: "capture_prev_service (ho_scm ?H) ?w = (prev, ?w)" "prev \<noteq> PrevUnknown"
    by (simp add: capture_prev_service_def demo_scm_def in_scm_def plain_scm_def setup_machine_def demo_machine_def demo_service_def at_service_def)
  from setup_prepared [OF prev(2)] obtain b where prep: "prepare ?H setup_shell setup_tools prev ?w = (Inr b, ?w)"
    and b: "pp_entries b = setup_entries" "ib_cfg (pp_core b) = config_default" by blast
  have own: "set (payload_files setup_shell b) \<union> set (owned_files (pp_core b) config_path)
      \<subseteq> {p. hd p = ''C:'' \<and> \<not> is_staging p}" "set (payload_files setup_shell b) \<inter> set (owned_files (pp_core b) config_path) = {}"
    using b by (simp_all add: payload_files_def owned_files_def setup_paths demo_paths is_staging_def)
  have menu: "hd p = ''D:''" if "start_menu_dir setup_shell = Inr dir" "p \<in> set (shell_files dir) \<or> p = path_of dir" for dir p
    using setup_menu that by (auto simp: list_all_iff)
  have apart: "setup_apart setup_shell b"
    unfolding setup_apart_def using own menu by (auto simp del: set_append)
  obtain x w1 where stop: "stop_service (ho_scm ?H) stop_limit ?w = (x, w1)" by force
  have d: "mc_disk w1 = mc_disk ?w"
    using stop_service_keeps [OF demo_queries, of mc_disk 0 stop_limit ?w] stop
    by (simp add: demo_scm_def in_scm_def plain_scm_def Let_def)
  obtain es e p w2 where s: "run_stages (stages ?H setup_shell setup_tools ?form b) no_progress ?w = ((es, p, Inl e), w2)"
    using stop setup_unpack [OF d, of "pp_entries b"]
    by (cases x) (auto simp: stages_def setup_tools_def with_ctx_def)
  have "pg_stopped p" using stages_flags [OF s] by simp
  then obtain rb w' where r: "run_install ?H setup_shell setup_tools ?form ?w = (es @ [EvDone (Inl e) rb], w')"
    using prev(1) prep s by (cases "roll_back ?H prev b p w2") (simp add: run_install_def)
  from failed_setup_is_undone [OF setup_calls prev(1) prep apart r] r svc show ?thesis by auto
qed

end
