(* ===== verification/Ipc.thy ===== *)
theory Ipc
  imports Service_Control Protocol
begin

text \<open>
  The two ends of the named pipe: \<open>serve_client\<close> of \<open>src/src/ipc/server.rs\<close> and the sessions of
  \<open>src/src/ipc/session.rs\<close>. The JSON codec is an argument. What a pipe will answer is a script of the coming
  results; every statement is for all scripts. Not modelled: creating the pipe with its security descriptor.
\<close>

section \<open>The server's end\<close>

text \<open>
  What the \<open>select!\<close> of a connection picks: a change of the status channel, with the value read after it, its
  end, or the result of a read. Each write takes the next result of the script; when there is none it succeeds.
\<close>

datatype serve_input = Changed state_snapshot | ChannelClosed | ReadDone "string + u8 list"

datatype connection = CnOpen frame_decoder | CnClosed | CnDropped

record serve_io =
  si_writes :: "bool list"
  si_out :: "u8 list"
  si_cmds :: "command list"

definition serve_write :: "u8 list \<Rightarrow> serve_io \<Rightarrow> bool \<times> serve_io" where
  "serve_write b w =
     (case si_writes w of
        False # rs \<Rightarrow> (False, w\<lparr>si_writes := rs\<rparr>)
      | rs \<Rightarrow> (True, w\<lparr>si_writes := tl rs, si_out := si_out w @ b\<rparr>))"

definition push_snapshot :: "(server_msg \<Rightarrow> u8 list) \<Rightarrow> state_snapshot \<Rightarrow> serve_io \<Rightarrow> bool \<times> serve_io" where
  "push_snapshot to_vec snap w = serve_write (encode_frame to_vec (State snap)) w"

text \<open>Frames that are not a message of a client are skipped.\<close>

fun forward :: "(u8 list \<Rightarrow> client_msg option) \<Rightarrow> u8 list list \<Rightarrow> serve_io \<Rightarrow> serve_io" where
  "forward parse [] w = w"
| "forward parse (f # fs) w =
     forward parse fs (case parse f of Some (Cmd c) \<Rightarrow> w\<lparr>si_cmds := si_cmds w @ [c]\<rparr> | None \<Rightarrow> w)"

fun serve_event ::
  "(server_msg \<Rightarrow> u8 list) \<Rightarrow> (u8 list \<Rightarrow> client_msg option) \<Rightarrow> serve_input \<Rightarrow> frame_decoder \<Rightarrow> serve_io \<Rightarrow> connection \<times> serve_io" where
  "serve_event to_vec parse (Changed snap) d w =
     (case push_snapshot to_vec snap w of (ok, w) \<Rightarrow> (if ok then CnOpen d else CnClosed, w))"
| "serve_event to_vec parse ChannelClosed d w = (CnClosed, w)"
| "serve_event to_vec parse (ReadDone (Inl e)) d w = (CnClosed, w)"
| "serve_event to_vec parse (ReadDone (Inr bytes)) d w =
     (if bytes = [] then (CnClosed, w)
      else (case feed d bytes of
              (d, Inl e) \<Rightarrow> (CnDropped, w)
            | (d, Inr frames) \<Rightarrow> (CnOpen d, forward parse frames w)))"

fun serve_loop ::
  "(server_msg \<Rightarrow> u8 list) \<Rightarrow> (u8 list \<Rightarrow> client_msg option) \<Rightarrow> serve_input list \<Rightarrow> frame_decoder \<Rightarrow> serve_io \<Rightarrow> connection \<times> serve_io" where
  "serve_loop to_vec parse [] d w = (CnOpen d, w)"
| "serve_loop to_vec parse (i # is) d w =
     (case serve_event to_vec parse i d w of
        (CnOpen d, w) \<Rightarrow> serve_loop to_vec parse is d w
      | r \<Rightarrow> r)"

definition serve_client ::
  "(server_msg \<Rightarrow> u8 list) \<Rightarrow> (u8 list \<Rightarrow> client_msg option) \<Rightarrow> state_snapshot \<Rightarrow> serve_input list \<Rightarrow> serve_io \<Rightarrow> connection \<times> serve_io" where
  "serve_client to_vec parse snap inputs w =
     (case push_snapshot to_vec snap w of
        (False, w) \<Rightarrow> (CnDropped, w)
      | (True, w) \<Rightarrow> serve_loop to_vec parse inputs decoder_default w)"

text \<open>
  The accepting loop: a stop, a client, or a failure to listen, with whether the stop came in the second that
  follows it. The result is the number of connections served and whether the loop has ended.
\<close>

datatype listen_event = LsStop | LsClient | LsFailed bool

fun accept_loop :: "listen_event list \<Rightarrow> nat \<Rightarrow> nat \<times> bool" where
  "accept_loop [] n = (n, False)"
| "accept_loop (LsStop # es) n = (n, True)"
| "accept_loop (LsClient # es) n = accept_loop es (n + 1)"
| "accept_loop (LsFailed stopped # es) n = (if stopped then (n, True) else accept_loop es n)"

section \<open>The client's end\<close>

definition connect_retries :: nat where "connect_retries = 20"
definition connect_retry_delay :: duration where "connect_retry_delay = 250 * 10 ^ 6"

text \<open>
  Opening the pipe and reading it take the next result of their scripts; without one there is no pipe, and a
  read finds it closed. A write succeeds when its script says nothing.
\<close>

record wire =
  wi_opens :: "(string + unit) list"
  wi_reads :: "(string + u8 list) list"
  wi_writes :: "(string + unit) list"
  wi_sent :: "u8 list"
  wi_slept :: "duration list"

definition wire_open :: "wire \<Rightarrow> (string + unit) \<times> wire" where
  "wire_open w = (case wi_opens w of [] \<Rightarrow> (Inl ''not found'', w) | r # rs \<Rightarrow> (r, w\<lparr>wi_opens := rs\<rparr>))"

definition wire_write :: "u8 list \<Rightarrow> wire \<Rightarrow> (string + unit) \<times> wire" where
  "wire_write b w =
     (case wi_writes w of
        Inl e # rs \<Rightarrow> (Inl e, w\<lparr>wi_writes := rs\<rparr>)
      | rs \<Rightarrow> (Inr (), w\<lparr>wi_writes := tl rs, wi_sent := wi_sent w @ b\<rparr>))"

record ipc_session =
  ps_decoder :: frame_decoder
  ps_buf :: "u8 list list"

fun connect_tries :: "nat \<Rightarrow> string option \<Rightarrow> wire \<Rightarrow> (ipc_session, wire) outcome" where
  "connect_tries 0 last_err w =
     (Inl (Ctx ''Failed to connect to the pipe (service not running?)''
        (Msg (case last_err of Some e \<Rightarrow> e | None \<Rightarrow> ''No available pipe instance''))), w)"
| "connect_tries (Suc n) last_err w =
     (case wire_open w of
        (Inr _, w) \<Rightarrow> (Inr \<lparr>ps_decoder = decoder_default, ps_buf = []\<rparr>, w)
      | (Inl e, w) \<Rightarrow> connect_tries n (Some e) (w\<lparr>wi_slept := wi_slept w @ [connect_retry_delay]\<rparr>))"

definition connect :: "wire \<Rightarrow> (ipc_session, wire) outcome" where
  "connect w = connect_tries connect_retries None w"

text \<open>The frames that are already there; those that are no message of the server are skipped.\<close>

fun pop_state :: "(u8 list \<Rightarrow> server_msg option) \<Rightarrow> u8 list list \<Rightarrow> state_snapshot option \<times> u8 list list" where
  "pop_state parse [] = (None, [])"
| "pop_state parse (f # fs) = (case parse f of Some (State s) \<Rightarrow> (Some s, fs) | None \<Rightarrow> pop_state parse fs)"

text \<open>The session is changed in place, so it is returned whatever the result is.\<close>

function next_snapshot ::
  "(u8 list \<Rightarrow> server_msg option) \<Rightarrow> ipc_session \<Rightarrow> wire \<Rightarrow> (err + state_snapshot) \<times> ipc_session \<times> wire" where
  "next_snapshot parse s w =
     (case pop_state parse (ps_buf s) of
        (Some st, fs) \<Rightarrow> (Inr st, s\<lparr>ps_buf := fs\<rparr>, w)
      | (None, fs) \<Rightarrow>
          (case wi_reads w of
             [] \<Rightarrow> (Inl (Msg ''Server closed the connection''), s\<lparr>ps_buf := fs\<rparr>, w)
           | Inl e # rs \<Rightarrow> (Inl (Ctx ''Failed to read pipe (service exited?)'' (Msg e)), s\<lparr>ps_buf := fs\<rparr>, w\<lparr>wi_reads := rs\<rparr>)
           | Inr bytes # rs \<Rightarrow>
               if bytes = [] then (Inl (Msg ''Server closed the connection''), s\<lparr>ps_buf := fs\<rparr>, w\<lparr>wi_reads := rs\<rparr>)
               else (case feed (ps_decoder s) bytes of
                       (d, Inl e) \<Rightarrow> (Inl (Msg ''IPC frame exceeds the 64 KiB limit''), \<lparr>ps_decoder = d, ps_buf = fs\<rparr>, w\<lparr>wi_reads := rs\<rparr>)
                     | (d, Inr frames) \<Rightarrow> next_snapshot parse \<lparr>ps_decoder = d, ps_buf = fs @ frames\<rparr> (w\<lparr>wi_reads := rs\<rparr>))))"
  by pat_completeness auto
termination
  by (relation "measure (\<lambda>(_, _, w). length (wi_reads w))") auto

declare next_snapshot.simps [simp del]

definition send_command :: "(client_msg \<Rightarrow> u8 list) \<Rightarrow> command \<Rightarrow> wire \<Rightarrow> (unit, wire) outcome" where
  "send_command to_vec c w =
     then_do (with_ctx ''Failed to write to pipe'' (sys (wire_write (encode_frame to_vec (Cmd c)) w))) (\<lambda>_ w.
       with_ctx ''Failed to flush pipe'' (sys (wire_write [] w)))"

text \<open>Frames are read until the predicate holds or the budget is used up; then the last one is returned.\<close>

fun confirm_loop ::
  "(u8 list \<Rightarrow> server_msg option) \<Rightarrow> (state_snapshot \<Rightarrow> bool) \<Rightarrow> nat \<Rightarrow> state_snapshot option \<Rightarrow> ipc_session \<Rightarrow> wire
     \<Rightarrow> (err + state_snapshot) \<times> ipc_session \<times> wire" where
  "confirm_loop parse confirm 0 last_st s w =
     ((case last_st of Some st \<Rightarrow> Inr st | None \<Rightarrow> Inl (Msg ''No frames read while awaiting confirmation'')), s, w)"
| "confirm_loop parse confirm (Suc n) last_st s w =
     (case next_snapshot parse s w of
        (Inl e, s, w) \<Rightarrow> (Inl e, s, w)
      | (Inr st, s, w) \<Rightarrow> if confirm st then (Inr st, s, w) else confirm_loop parse confirm n (Some st) s w)"

definition send_and_confirm ::
  "(client_msg \<Rightarrow> u8 list) \<Rightarrow> (u8 list \<Rightarrow> server_msg option) \<Rightarrow> command \<Rightarrow> (state_snapshot \<Rightarrow> bool) \<Rightarrow> nat \<Rightarrow> ipc_session \<Rightarrow> wire
     \<Rightarrow> (err + state_snapshot) \<times> ipc_session \<times> wire" where
  "send_and_confirm to_vec parse cmd confirm max_frames s w =
     (case send_command to_vec cmd w of
        (Inl e, w) \<Rightarrow> (Inl e, s, w)
      | (Inr _, w) \<Rightarrow> confirm_loop parse confirm max_frames None s w)"

definition status_snapshot :: "(u8 list \<Rightarrow> server_msg option) \<Rightarrow> wire \<Rightarrow> (state_snapshot, wire) outcome" where
  "status_snapshot parse w =
     then_do (connect w) (\<lambda>s w. (case next_snapshot parse s w of (r, _, w) \<Rightarrow> (r, w)))"

definition set_mode_confirmed ::
  "(client_msg \<Rightarrow> u8 list) \<Rightarrow> (u8 list \<Rightarrow> server_msg option) \<Rightarrow> net_mode \<Rightarrow> wire \<Rightarrow> (state_snapshot, wire) outcome" where
  "set_mode_confirmed to_vec parse mode w =
     then_do (connect w) (\<lambda>s w.
       (case next_snapshot parse s w of
          (Inl e, _, w) \<Rightarrow> (Inl e, w)
        | (Inr _, s, w) \<Rightarrow>
            (case send_and_confirm to_vec parse (SetMode mode) (\<lambda>st. sn_mode st = mode) 5 s w of
               (Inl e, _, w) \<Rightarrow> (Inl e, w)
             | (Inr st, _, w) \<Rightarrow>
                 if sn_mode st \<noteq> mode then (Inl (Msg ''Service did not confirm mode switch (check `status` output)''), w)
                 else (Inr st, w))))"

section \<open>What the server has sent and forwarded\<close>

text \<open>The snapshots among the inputs, and the bytes the client wrote.\<close>

fun pushed :: "serve_input list \<Rightarrow> state_snapshot list" where
  "pushed [] = []"
| "pushed (Changed s # is) = s # pushed is"
| "pushed (_ # is) = pushed is"

fun received :: "serve_input list \<Rightarrow> u8 list" where
  "received [] = []"
| "received (ReadDone (Inr b) # is) = b @ received is"
| "received (_ # is) = received is"

definition commands_in :: "(u8 list \<Rightarrow> client_msg option) \<Rightarrow> u8 list list \<Rightarrow> command list" where
  "commands_in parse fs = List.map_filter (\<lambda>f. map_option (\<lambda>m. case m of Cmd c \<Rightarrow> c) (parse f)) fs"

lemma commands_in_simps [simp]:
  "commands_in parse [] = []"
  "commands_in parse (f # fs) = (case parse f of Some (Cmd c) \<Rightarrow> c # commands_in parse fs | None \<Rightarrow> commands_in parse fs)"
  "commands_in parse (fs @ gs) = commands_in parse fs @ commands_in parse gs"
  by (auto simp: commands_in_def List.map_filter_def split: option.split client_msg.split)

lemma forward_eq: "forward parse fs w = w\<lparr>si_cmds := si_cmds w @ commands_in parse fs\<rparr>"
  by (induction fs arbitrary: w) (auto split: option.split client_msg.split)

lemma serve_write_ok: "serve_write b w = (True, w') \<Longrightarrow> si_out w' = si_out w @ b \<and> si_cmds w' = si_cmds w"
  by (auto simp: serve_write_def split: list.splits bool.splits)

lemma serve_write_fails: "serve_write b w = (False, w') \<Longrightarrow> si_out w' = si_out w \<and> si_cmds w' = si_cmds w"
  by (auto simp: serve_write_def split: list.splits bool.splits)

lemma serve_loop_open:
  assumes "serve_loop to_vec parse is d w = (CnOpen d', w')" "decoder_inv d" "\<not> fd_rejected d"
  shows "si_out w' = si_out w @ concat (map (encode_frame to_vec) (map State (pushed is)))
    \<and> scan_ok (fd_buf d) (received is) \<and> d' = d\<lparr>fd_buf := snd (scan (fd_buf d) (received is))\<rparr>
    \<and> si_cmds w' = si_cmds w @ commands_in parse (fst (scan (fd_buf d) (received is)))"
  using assms
proof (induction "is" arbitrary: d w)
  case Nil
  then show ?case by (auto simp: decoder_inv_def)
next
  case (Cons i "is")
  show ?case
  proof (cases i)
    case (Changed s)
    obtain ok w1 where w: "serve_write (encode_frame to_vec (State s)) w = (ok, w1)" by force
    with Cons.prems(1) Changed have "ok" "serve_loop to_vec parse is d w1 = (CnOpen d', w')"
      by (auto simp: push_snapshot_def split: if_splits)
    with Cons.IH Cons.prems(2,3) serve_write_ok w Changed show ?thesis by force
  next
    case ChannelClosed
    with Cons.prems(1) show ?thesis by simp
  next
    case (ReadDone r)
    show ?thesis
    proof (cases r)
      case (Inl e)
      with Cons.prems(1) ReadDone show ?thesis by simp
    next
      case (Inr b)
      let ?d = "d\<lparr>fd_buf := snd (scan (fd_buf d) b)\<rparr>"
      from Cons.prems(1) ReadDone Inr have ok: "scan_ok (fd_buf d) b" "feed d b = (?d, Inr (fst (scan (fd_buf d) b)))"
        and rest: "serve_loop to_vec parse is ?d (forward parse (fst (scan (fd_buf d) b)) w) = (CnOpen d', w')"
        using feed_eq [OF Cons.prems(2,3), of b] by (auto split: if_splits)
      have inv: "decoder_inv ?d" using feed_inv [OF Cons.prems(2), of b] ok(2) by simp
      from Cons.IH [OF rest inv] Cons.prems(3) ok(1) ReadDone Inr show ?thesis
        by (auto simp: forward_eq scan_append scan_ok_append case_prod_beta)
    qed
  qed
qed

section \<open>What the client reads\<close>

text \<open>
  The bytes that a script of reads will deliver, up to the first failure or the end; and the snapshots that are
  still to come for a session: those in its buffer and those in the lines of the stream.
\<close>

fun incoming :: "(string + u8 list) list \<Rightarrow> u8 list" where
  "incoming (Inr b # rs) = (if b = [] then [] else b @ incoming rs)"
| "incoming _ = []"

definition snapshots_in :: "(u8 list \<Rightarrow> server_msg option) \<Rightarrow> u8 list list \<Rightarrow> state_snapshot list" where
  "snapshots_in parse fs = List.map_filter (\<lambda>f. map_option (\<lambda>m. case m of State s \<Rightarrow> s) (parse f)) fs"

definition to_come :: "(u8 list \<Rightarrow> server_msg option) \<Rightarrow> ipc_session \<Rightarrow> wire \<Rightarrow> state_snapshot list" where
  "to_come parse s w = snapshots_in parse (ps_buf s @ fst (scan (fd_buf (ps_decoder s)) (incoming (wi_reads w))))"

definition in_step :: "ipc_session \<Rightarrow> wire \<Rightarrow> bool" where
  "in_step s w \<longleftrightarrow> decoder_inv (ps_decoder s) \<and> \<not> fd_rejected (ps_decoder s)
     \<and> scan_ok (fd_buf (ps_decoder s)) (incoming (wi_reads w))"

lemma snapshots_in_simps [simp]:
  "snapshots_in parse [] = []"
  "snapshots_in parse (f # fs) = (case parse f of Some (State s) \<Rightarrow> s # snapshots_in parse fs | None \<Rightarrow> snapshots_in parse fs)"
  "snapshots_in parse (fs @ gs) = snapshots_in parse fs @ snapshots_in parse gs"
  by (auto simp: snapshots_in_def List.map_filter_def split: option.split server_msg.split)

lemma pop_state_eq:
  "fst (pop_state parse fs) = (case snapshots_in parse fs of [] \<Rightarrow> None | s # _ \<Rightarrow> Some s)"
  "snapshots_in parse (snd (pop_state parse fs)) = tl (snapshots_in parse fs)"
  "fst (pop_state parse fs) = None \<Longrightarrow> snd (pop_state parse fs) = []"
  by (induction parse fs rule: pop_state.induct) (auto split: option.splits server_msg.splits)

lemma feed_step:
  assumes "decoder_inv d" "\<not> fd_rejected d" "scan_ok (fd_buf d) (b @ rest)"
  shows "feed d b = (d\<lparr>fd_buf := snd (scan (fd_buf d) b)\<rparr>, Inr (fst (scan (fd_buf d) b)))"
    "decoder_inv (d\<lparr>fd_buf := snd (scan (fd_buf d) b)\<rparr>)" "scan_ok (snd (scan (fd_buf d) b)) rest"
  using assms feed_eq [OF assms(1,2), of b] feed_inv [OF assms(1), of b] by (auto simp: scan_ok_append)

lemma next_snapshot_reads:
  assumes "in_step s w"
  shows "case next_snapshot parse s w of
      (Inr st, s', w') \<Rightarrow> to_come parse s w = st # to_come parse s' w' \<and> in_step s' w' \<and> wi_sent w' = wi_sent w \<and> wi_writes w' = wi_writes w
    | (Inl _, _, _) \<Rightarrow> to_come parse s w = []"
  using assms
proof (induction parse s w rule: next_snapshot.induct)
  case (1 parse s w)
  note inv = \<open>in_step s w\<close> [unfolded in_step_def]
  obtain r fs where p: "pop_state parse (ps_buf s) = (r, fs)" by force
  show ?case
  proof (cases r)
    case (Some st)
    have "snapshots_in parse (ps_buf s) = st # snapshots_in parse fs"
      using pop_state_eq(1,2) [of parse "ps_buf s"] p Some by (auto split: list.splits)
    with p Some inv show ?thesis
      by (subst next_snapshot.simps) (simp add: to_come_def in_step_def)
  next
    case None
    then have fs: "fs = []" "snapshots_in parse (ps_buf s) = []"
      using pop_state_eq(1,3) [of parse "ps_buf s"] p by (auto split: list.splits)
    show ?thesis
    proof (cases "\<exists>b rs. wi_reads w = Inr b # rs \<and> b \<noteq> []")
      case False
      then have "incoming (wi_reads w) = []" by (cases "wi_reads w" rule: incoming.cases) auto
      with False p None fs show ?thesis
        by (subst next_snapshot.simps) (auto simp: to_come_def split: list.splits sum.splits)
    next
      case True
      then obtain b rs where rd: "wi_reads w = Inr b # rs" "b \<noteq> []" by blast
      let ?d = "(ps_decoder s)\<lparr>fd_buf := snd (scan (fd_buf (ps_decoder s)) b)\<rparr>"
      let ?s = "\<lparr>ps_decoder = ?d, ps_buf = fst (scan (fd_buf (ps_decoder s)) b)\<rparr>" and ?w = "w\<lparr>wi_reads := rs\<rparr>"
      have ok: "scan_ok (fd_buf (ps_decoder s)) (b @ incoming rs)" using inv rd by simp
      note f = feed_step [OF _ _ ok]
      have in': "in_step ?s ?w" using f inv by (simp add: in_step_def)
      have same: "to_come parse ?s ?w = to_come parse s w"
        using rd fs(2) by (simp add: to_come_def scan_append case_prod_beta)
      have "next_snapshot parse s w = next_snapshot parse ?s ?w"
        using p None fs rd f(1) inv by (subst next_snapshot.simps) simp
      moreover have "feed (ps_decoder s) b = (?d, Inr (fst (scan (fd_buf (ps_decoder s)) b)))" using f(1) inv by simp
      note ih = 1(1) [OF p [symmetric] None rd(1) refl rd(2) this [symmetric] refl, unfolded fs(1) append_Nil, OF in']
      have "case next_snapshot parse ?s ?w of
          (Inr st, s', w') \<Rightarrow> to_come parse ?s ?w = st # to_come parse s' w' \<and> in_step s' w' \<and> wi_sent w' = wi_sent ?w \<and> wi_writes w' = wi_writes ?w
        | (Inl _, _, _) \<Rightarrow> to_come parse ?s ?w = []" by (rule ih)
      ultimately show ?thesis using same by (auto split: prod.splits sum.splits)
    qed
  qed
qed

text \<open>The snapshots that \<open>n\<close> calls in a row return, up to the first error.\<close>

fun receive :: "(u8 list \<Rightarrow> server_msg option) \<Rightarrow> nat \<Rightarrow> ipc_session \<Rightarrow> wire \<Rightarrow> state_snapshot list" where
  "receive parse 0 s w = []"
| "receive parse (Suc n) s w =
     (case next_snapshot parse s w of
        (Inr st, s, w) \<Rightarrow> st # receive parse n s w
      | (Inl _, _, _) \<Rightarrow> [])"

lemma receive_eq: "in_step s w \<Longrightarrow> receive parse n s w = take n (to_come parse s w)"
proof (induction n arbitrary: s w)
  case (Suc n)
  from next_snapshot_reads [OF Suc.prems, of parse] Suc.IH show ?case
    by (auto split: prod.splits sum.splits)
qed simp

text \<open>What the codec promises for some messages: compact text, within the limit, that is parsed back.\<close>

definition json_ok :: "('m \<Rightarrow> u8 list) \<Rightarrow> (u8 list \<Rightarrow> 'm option) \<Rightarrow> 'm set \<Rightarrow> bool" where
  "json_ok to_vec parse M \<longleftrightarrow>
     (\<forall>m \<in> M. 10 \<notin> set (to_vec m) \<and> length (to_vec m) < max_frame_bytes \<and> parse (to_vec m @ [10]) = Some m)"

lemma json_lines:
  assumes "json_ok to_vec parse (set ms)"
  shows "scan [] (concat (map (encode_frame to_vec) ms)) = (map (encode_frame to_vec) ms, [])"
    "scan_ok [] (concat (map (encode_frame to_vec) ms))"
proof -
  have e: "map (encode_frame to_vec) ms = map (\<lambda>b. b @ [10]) (map to_vec ms)" by (simp add: encode_frame_def)
  show l: "scan [] (concat (map (encode_frame to_vec) ms)) = (map (encode_frame to_vec) ms, [])"
    unfolding e by (rule scan_lines) (use assms in \<open>auto simp: json_ok_def list_all_iff\<close>)
  show "scan_ok [] (concat (map (encode_frame to_vec) ms))"
    using assms by (auto simp: scan_ok_iff l encode_frame_def json_ok_def)
qed

lemma json_snapshots:
  assumes "json_ok to_vec parse (State ` set ss)"
  shows "snapshots_in parse (map (\<lambda>s. encode_frame to_vec (State s)) ss) = ss"
  using assms by (induction ss) (auto simp: json_ok_def encode_frame_def)

lemma json_commands:
  assumes "json_ok to_vec parse (Cmd ` set cs)"
  shows "commands_in parse (map (\<lambda>c. encode_frame to_vec (Cmd c)) cs) = cs"
  using assms by (induction cs) (auto simp: json_ok_def encode_frame_def)

lemma incoming_chunks: "[] \<notin> set chunks \<Longrightarrow> incoming (map Inr chunks) = concat chunks"
  by (induction chunks) auto

lemma serve_client_open:
  assumes "serve_client to_vec parse snap is \<lparr>si_writes = rs, si_out = [], si_cmds = []\<rparr> = (CnOpen d, w)"
  shows "si_out w = concat (map (\<lambda>s. encode_frame to_vec (State s)) (snap # pushed is))
    \<and> si_cmds w = commands_in parse (fst (scan [] (received is)))"
proof -
  obtain ok w1 where p: "serve_write (encode_frame to_vec (State snap)) \<lparr>si_writes = rs, si_out = [], si_cmds = []\<rparr> = (ok, w1)"
    by force
  with assms have ok: "ok" and loop: "serve_loop to_vec parse is decoder_default w1 = (CnOpen d, w)"
    by (auto simp: serve_client_def push_snapshot_def split: bool.splits)
  have "\<not> fd_rejected decoder_default" by (simp add: decoder_default_def)
  from serve_loop_open [OF loop decoder_inv_default this] serve_write_ok [OF p [unfolded eqTrueI [OF ok]]]
  show ?thesis by (simp add: decoder_default_def comp_def)
qed

definition new_session :: ipc_session where
  "new_session = \<lparr>ps_decoder = decoder_default, ps_buf = []\<rparr>"

lemma new_session_in_step: "in_step new_session w \<longleftrightarrow> scan_ok [] (incoming (wi_reads w))"
  by (simp add: in_step_def new_session_def) (simp add: decoder_default_def)

lemma new_session_to_come: "to_come parse new_session w = snapshots_in parse (fst (scan [] (incoming (wi_reads w))))"
  by (simp add: to_come_def new_session_def decoder_default_def)

text \<open>
  C31 (refinement). The pipe carries both directions faithfully. Take any connection that is still open, with any
  interleaving of status changes and reads: the commands the server hands to the main loop are exactly those
  the client wrote, in order, and however the pipe cuts the server's bytes and however many of them have
  arrived, successive calls of \<open>next_snapshot\<close> return the snapshot of the moment of the connection and then the
  later ones, in order and without a gap, and all of them once all bytes have arrived.
\<close>

theorem pipe_carries_both_ways:
  assumes "serve_client st_vec cmd_parse snap is \<lparr>si_writes = rs, si_out = [], si_cmds = []\<rparr> = (CnOpen d, srv)"
    and "received is = concat (map (\<lambda>c. encode_frame cmd_vec (Cmd c)) cs)"
    and "json_ok cmd_vec cmd_parse (Cmd ` set cs)" and "json_ok st_vec st_parse (State ` set (snap # pushed is))"
    and "si_out srv = concat chunks @ later" and "[] \<notin> set chunks" and "wi_reads w = map Inr chunks"
  shows "si_cmds srv = cs
    \<and> (\<exists>k. (\<forall>n. receive st_parse n new_session w = take (min n k) (snap # pushed is))
        \<and> (later = [] \<longrightarrow> k = length (snap # pushed is)))"
proof -
  note srv = serve_client_open [OF assms(1)]
  let ?cmds = "map Cmd cs" and ?snaps = "map State (snap # pushed is)"
  have c: "json_ok cmd_vec cmd_parse (set ?cmds)" and s: "json_ok st_vec st_parse (set ?snaps)" using assms(3,4) by simp_all
  have "received is = concat (map (encode_frame cmd_vec) ?cmds)" by (simp add: assms(2) comp_def)
  then have cmds: "si_cmds srv = cs" using srv json_lines(1) [OF c] json_commands [OF assms(3)] by (simp add: comp_def)
  have out: "concat chunks @ later = concat (map (encode_frame st_vec) ?snaps)" using srv assms(5) by (simp add: comp_def)
  obtain fs t where f: "scan [] (concat chunks) = (fs, t)" by force
  obtain gs u where g: "scan t later = (gs, u)" by force
  from json_lines [OF s] out scan_append [of "[]" "concat chunks" later] f g
  have all: "fs @ gs = map (encode_frame st_vec) ?snaps" by simp
  have ok: "scan_ok [] (concat chunks)" using json_lines(2) [OF s] out scan_ok_append by metis
  let ?k = "length fs"
  have "fs = take ?k (map (encode_frame st_vec) ?snaps)" by (metis all append_eq_conv_conj)
  then have fs: "fs = map (\<lambda>s. encode_frame st_vec (State s)) (take ?k (snap # pushed is))"
    by (metis (no_types, lifting) map_map comp_def map_cong take_map)
  have "set (take ?k (snap # pushed is)) \<subseteq> set (snap # pushed is)" by (rule set_take_subset)
  with assms(4) have "json_ok st_vec st_parse (State ` set (take ?k (snap # pushed is)))" unfolding json_ok_def by blast
  from json_snapshots [OF this] fs have "snapshots_in st_parse fs = take ?k (snap # pushed is)" by simp
  then have "receive st_parse n new_session w = take (min n ?k) (snap # pushed is)" for n
    using receive_eq [of new_session w st_parse n] ok f assms(6,7)
    by (simp add: new_session_in_step new_session_to_come incoming_chunks)
  moreover have "?k = length (snap # pushed is)" if "later = []"
    using all g that arg_cong [OF all, of length] by simp
  ultimately show ?thesis using cmds by blast
qed

section \<open>Switching the mode\<close>

definition opens_within :: "nat \<Rightarrow> (string + unit) list \<Rightarrow> bool" where
  "opens_within n rs \<longleftrightarrow> Inr () \<in> set (take n rs)"

lemma connect_tries_eff:
  assumes "connect_tries n e w = (r, w')"
  shows "(if opens_within n (wi_opens w) then r = Inr new_session else \<exists>e. r = Inl e)
    \<and> wi_reads w' = wi_reads w \<and> wi_sent w' = wi_sent w \<and> wi_writes w' = wi_writes w"
  using assms
proof (induction n arbitrary: e w)
  case (Suc n)
  then show ?case
    by (cases "wi_opens w"; cases "hd (wi_opens w)")
      (fastforce simp: wire_open_def opens_within_def new_session_def)+
qed (auto simp: opens_within_def)

lemma next_snapshot_frame:
  "wi_sent (snd (snd (next_snapshot parse s w))) = wi_sent w \<and> wi_writes (snd (snd (next_snapshot parse s w))) = wi_writes w"
proof (induction parse s w rule: next_snapshot.induct)
  case (1 parse s w)
  show ?case
    by (subst (1 2) next_snapshot.simps) (use 1 in \<open>auto split: prod.split option.split list.split sum.split\<close>)
qed

lemma confirm_loop_eff:
  assumes "confirm_loop parse P n last_st s w = (r, s', w')" and "in_step s w" and "\<forall>st. last_st = Some st \<longrightarrow> \<not> P st"
  shows "wi_sent w' = wi_sent w \<and> (\<forall>st. P st \<longrightarrow> (r = Inr st \<longleftrightarrow> find P (take n (to_come parse s w)) = Some st))"
  using assms
proof (induction n arbitrary: last_st s w)
  case 0
  then show ?case by (auto split: option.splits)
next
  case (Suc n)
  obtain q s1 w1 where q: "next_snapshot parse s w = (q, s1, w1)" by (metis prod.exhaust)
  have keep: "wi_sent w1 = wi_sent w" using next_snapshot_frame [of parse s w] q by simp
  show ?case
  proof (cases q)
    case (Inl e)
    with next_snapshot_reads [OF Suc.prems(2), of parse] q Suc.prems(1) keep show ?thesis by auto
  next
    case (Inr st)
    with next_snapshot_reads [OF Suc.prems(2), of parse] q
    have more: "to_come parse s w = st # to_come parse s1 w1" "in_step s1 w1" by simp_all
    show ?thesis
    proof (cases "P st")
      case True
      with Suc.prems(1) q Inr more keep show ?thesis by auto
    next
      case False
      with Suc.prems(1) q Inr have "confirm_loop parse P n (Some st) s1 w1 = (r, s', w')" by simp
      from Suc.IH [OF this more(2)] False more(1) keep show ?thesis by auto
    qed
  qed
qed

lemma find_mode: "find P xs = Some x \<Longrightarrow> P x"
  by (induction xs) (auto split: if_splits)

text \<open>
  C32 (error). A mode switch is reported as done exactly when the service confirmed it. The command line sends
  one command, and only after it has read the snapshot of the connection; it succeeds with the first snapshot
  that has the requested mode among the next five that arrive, and in every other case, no pipe within twenty
  attempts, too few snapshots or five with another mode, it reports an error.
\<close>

theorem mode_switch_is_confirmed:
  assumes "set_mode_confirmed cmd_vec st_parse mode w = (r, w')" and "wi_writes w = []"
    and "scan_ok [] (incoming (wi_reads w))" and "snaps = snapshots_in st_parse (fst (scan [] (incoming (wi_reads w))))"
  shows "(\<forall>st. r = Inr st \<longleftrightarrow> opens_within 20 (wi_opens w) \<and> find (\<lambda>s. sn_mode s = mode) (take 5 (tl snaps)) = Some st)
    \<and> wi_sent w' = wi_sent w @ (if opens_within 20 (wi_opens w) \<and> snaps \<noteq> [] then encode_frame cmd_vec (Cmd (SetMode mode)) else [])"
proof -
  obtain c w1 where c: "connect w = (c, w1)" by force
  note k = connect_tries_eff [OF c [unfolded connect_def connect_retries_def]]
  show ?thesis
  proof (cases "opens_within 20 (wi_opens w)")
    case False
    with k c assms(1) show ?thesis by (auto simp: set_mode_confirmed_def)
  next
    case True
    with k have c1: "c = Inr new_session" and w1: "wi_reads w1 = wi_reads w" "wi_sent w1 = wi_sent w" "wi_writes w1 = []"
      using assms(2) by simp_all
    have step: "in_step new_session w1" and come: "to_come st_parse new_session w1 = snaps"
      using assms(3,4) w1 by (simp_all add: new_session_in_step new_session_to_come)
    obtain q s2 w2 where q: "next_snapshot st_parse new_session w1 = (q, s2, w2)" by (metis prod.exhaust)
    note n = next_snapshot_reads [OF step, of st_parse, unfolded come q]
    have w2: "wi_sent w2 = wi_sent w" "wi_writes w2 = []" using next_snapshot_frame [of st_parse new_session w1] q w1 by simp_all
    show ?thesis
    proof (cases q)
      case (Inl e)
      with n c c1 q assms(1) w2 True show ?thesis by (auto simp: set_mode_confirmed_def)
    next
      case (Inr st)
      let ?w = "w2\<lparr>wi_sent := wi_sent w2 @ encode_frame cmd_vec (Cmd (SetMode mode))\<rparr>"
      have send: "send_command cmd_vec (SetMode mode) w2 = (Inr (), ?w)"
        using w2 by (simp add: send_command_def wire_write_def sys_def)
      from n Inr have come2: "snaps = st # to_come st_parse s2 ?w" "in_step s2 ?w" by (simp_all add: to_come_def in_step_def)
      obtain v s3 w3 where v: "confirm_loop st_parse (\<lambda>s. sn_mode s = mode) 5 None s2 ?w = (v, s3, w3)" by (metis prod.exhaust)
      note cf = confirm_loop_eff [OF v come2(2)]
      from assms(1) c c1 q Inr send v
      have "w' = w3" "r = (case v of Inl e \<Rightarrow> Inl e | Inr st \<Rightarrow> if sn_mode st = mode then Inr st
          else Inl (Msg ''Service did not confirm mode switch (check `status` output)''))"
        by (auto simp: set_mode_confirmed_def send_and_confirm_def split: sum.splits if_splits)
      then have w': "w' = w3" and r: "r = Inr st' \<longleftrightarrow> v = Inr st' \<and> sn_mode st' = mode" for st' by (cases v; auto)+
      have "find (\<lambda>s. sn_mode s = mode) (take 5 (tl snaps)) = Some st' \<longleftrightarrow> v = Inr st' \<and> sn_mode st' = mode" for st'
        using cf come2(1) by (auto dest: find_mode)
      then show ?thesis using r w' cf come2(1) True w2(1) by simp
    qed
  qed
qed

section \<open>Concrete connections\<close>

text \<open>A codec for snapshots that differ only in the mode.\<close>

definition mode_snap :: "net_mode \<Rightarrow> state_snapshot" where
  "mode_snap m =
     \<lparr>sn_status = SIdle, sn_since_unix = None, sn_ip = None, sn_last_drop_reason = None, sn_redial_attempts = 0,
      sn_heartbeat = HbOff, sn_mode = m, sn_wireless = wireless_snapshot_default, sn_events = []\<rparr>"

definition demo_state_vec :: "server_msg \<Rightarrow> u8 list" where
  "demo_state_vec m = (case m of State s \<Rightarrow> [if sn_mode s = WiredExclusive then 1 else 2])"

definition demo_state_parse :: "u8 list \<Rightarrow> server_msg option" where
  "demo_state_parse b =
     (if b = [1, 10] then Some (State (mode_snap WiredExclusive))
      else if b = [2, 10] then Some (State (mode_snap WiredPlusStandby)) else None)"

definition demo_cmd_vec :: "client_msg \<Rightarrow> u8 list" where
  "demo_cmd_vec m = (case m of Cmd c \<Rightarrow> (case c of Redial \<Rightarrow> [7] | SetMode _ \<Rightarrow> [8]))"

definition demo_cmd_parse :: "u8 list \<Rightarrow> client_msg option" where
  "demo_cmd_parse b = (if b = [7, 10] then Some (Cmd Redial) else None)"

definition demo_inputs :: "serve_input list" where
  "demo_inputs = [ReadDone (Inr [7]), Changed (mode_snap WiredPlusStandby), ReadDone (Inr [10])]"

theorem pipe_carries_both_ways_witness:
  "\<exists>srv. serve_client demo_state_vec demo_cmd_parse (mode_snap WiredExclusive) demo_inputs
        \<lparr>si_writes = [], si_out = [], si_cmds = []\<rparr> = (CnOpen decoder_default, srv)
     \<and> si_cmds srv = [Redial] \<and> si_out srv = [1, 10, 2, 10]
     \<and> receive demo_state_parse 2 new_session
          \<lparr>wi_opens = [], wi_reads = [Inr [1], Inr [10, 2, 10]], wi_writes = [], wi_sent = [], wi_slept = []\<rparr>
        = [mode_snap WiredExclusive, mode_snap WiredPlusStandby]"
proof -
  let ?srv = "\<lparr>si_writes = [], si_out = [1, 10, 2, 10], si_cmds = [Redial]\<rparr>"
  let ?w = "\<lparr>wi_opens = [], wi_reads = [Inr [1], Inr [10, 2, 10]], wi_writes = [], wi_sent = [], wi_slept = []\<rparr>"
  have srv: "serve_client demo_state_vec demo_cmd_parse (mode_snap WiredExclusive) demo_inputs
      \<lparr>si_writes = [], si_out = [], si_cmds = []\<rparr> = (CnOpen decoder_default, ?srv)"
    by (simp add: serve_client_def push_snapshot_def serve_write_def demo_inputs_def demo_state_vec_def demo_cmd_parse_def
        encode_frame_def mode_snap_def feed_def decoder_default_def max_frame_bytes_def)
  have "received demo_inputs = concat (map (\<lambda>c. encode_frame demo_cmd_vec (Cmd c)) [Redial])"
    by (simp add: demo_inputs_def demo_cmd_vec_def encode_frame_def)
  moreover have "json_ok demo_cmd_vec demo_cmd_parse (Cmd ` set [Redial])"
    "json_ok demo_state_vec demo_state_parse (State ` set (mode_snap WiredExclusive # pushed demo_inputs))"
    by (simp_all add: json_ok_def demo_cmd_vec_def demo_cmd_parse_def demo_state_vec_def demo_state_parse_def demo_inputs_def
        max_frame_bytes_def mode_snap_def)
  moreover have "si_out ?srv = concat [[1], [10, 2, 10]] @ []" "[] \<notin> set [[1 :: u8], [10, 2, 10]]" by simp_all
  moreover have "wi_reads ?w = map Inr [[1], [10, 2, 10]]" by simp
  ultimately obtain k where k: "\<forall>n. receive demo_state_parse n new_session ?w
      = take (min n k) (mode_snap WiredExclusive # pushed demo_inputs)" "k = length (mode_snap WiredExclusive # pushed demo_inputs)"
    using pipe_carries_both_ways [OF srv, of demo_cmd_vec "[Redial]" demo_state_parse "[[1], [10, 2, 10]]" "[]" ?w] by blast
  have "receive demo_state_parse 2 new_session ?w = [mode_snap WiredExclusive, mode_snap WiredPlusStandby]"
    using k(1) [rule_format, of 2] k(2) by (simp add: demo_inputs_def)
  with srv show ?thesis by (intro exI [of _ ?srv]) simp
qed

theorem mode_switch_is_confirmed_witness:
  "fst (set_mode_confirmed demo_cmd_vec demo_state_parse WiredPlusStandby
      \<lparr>wi_opens = [Inl ''busy'', Inr ()], wi_reads = [Inr [1, 10, 1, 10], Inr [2, 10]], wi_writes = [], wi_sent = [], wi_slept = []\<rparr>)
   = Inr (mode_snap WiredPlusStandby)"
proof -
  let ?w = "\<lparr>wi_opens = [Inl ''busy'', Inr ()], wi_reads = [Inr [1, 10, 1, 10], Inr [2, 10]], wi_writes = [], wi_sent = [], wi_slept = []\<rparr>"
  obtain r w' where r: "set_mode_confirmed demo_cmd_vec demo_state_parse WiredPlusStandby ?w = (r, w')" by force
  have ok: "scan_ok [] (incoming (wi_reads ?w))" by (simp add: max_frame_bytes_def)
  have snaps: "[mode_snap WiredExclusive, mode_snap WiredExclusive, mode_snap WiredPlusStandby]
      = snapshots_in demo_state_parse (fst (scan [] (incoming (wi_reads ?w))))"
    by (simp add: demo_state_parse_def)
  have "opens_within 20 (wi_opens ?w)" by (simp add: opens_within_def)
  moreover have "find (\<lambda>s. sn_mode s = WiredPlusStandby)
      (take 5 (tl [mode_snap WiredExclusive, mode_snap WiredExclusive, mode_snap WiredPlusStandby])) = Some (mode_snap WiredPlusStandby)"
    by (simp add: mode_snap_def)
  moreover have "wi_writes ?w = []" by simp
  ultimately have "r = Inr (mode_snap WiredPlusStandby)" using mode_switch_is_confirmed [OF r _ ok snaps] by blast
  with r show ?thesis by simp
qed

end
