(* ===== verification/Status.thy ===== *)
theory Status
  imports Protocol
begin

text \<open>
  \<open>src/src/status.rs\<close>, the one translation of a snapshot into what the user sees, and the printing of
  \<open>src/src/cli.rs\<close>. Chinese text is given by its UTF-8 bytes.
\<close>

section \<open>The main state\<close>

datatype light = LightWired | LightWireless | LightBusy | LightOff

datatype primary = PrServiceDown | PrConnected | PrWirelessOnline | PrDialing | PrBackoff | PrAuthFail | PrIdle

record status_view =
  vw_primary :: primary
  vw_light :: light

text \<open>The arm for a connected session is \<open>unreachable!\<close> in the code: \<open>None\<close> is a panic.\<close>

definition primary_of :: "session_status \<Rightarrow> primary option" where
  "primary_of st =
     (case st of SDialing \<Rightarrow> Some PrDialing | SBackoff \<Rightarrow> Some PrBackoff | SAuthFail \<Rightarrow> Some PrAuthFail
      | SIdle \<Rightarrow> Some PrIdle | SConnected \<Rightarrow> None)"

definition status_view_of :: "state_snapshot option \<Rightarrow> status_view option" where
  "status_view_of s =
     (case s of
        None \<Rightarrow> Some \<lparr>vw_primary = PrServiceDown, vw_light = LightOff\<rparr>
      | Some s \<Rightarrow>
          if sn_status s = SConnected then Some \<lparr>vw_primary = PrConnected, vw_light = LightWired\<rparr>
          else if ws_phase (sn_wireless s) = WOnline then Some \<lparr>vw_primary = PrWirelessOnline, vw_light = LightWireless\<rparr>
          else (case primary_of (sn_status s) of
                  None \<Rightarrow> None
                | Some p \<Rightarrow> Some \<lparr>vw_primary = p, vw_light = (if p = PrIdle then LightOff else LightBusy)\<rparr>))"

section \<open>Words\<close>

definition word_zh :: "primary \<Rightarrow> string" where
  "word_zh p =
     (case p of
        PrServiceDown \<Rightarrow> [CHR 0xE6, CHR 0x9C, CHR 0x8D, CHR 0xE5, CHR 0x8A, CHR 0xA1, CHR 0xE6, CHR 0x9C, CHR 0xAA, CHR 0xE8, CHR 0xBF, CHR 0x90, CHR 0xE8, CHR 0xA1, CHR 0x8C]
      | PrConnected \<Rightarrow> [CHR 0xE5, CHR 0xB7, CHR 0xB2, CHR 0xE8, CHR 0xBF, CHR 0x9E, CHR 0xE6, CHR 0x8E, CHR 0xA5]
      | PrWirelessOnline \<Rightarrow> [CHR 0xE6, CHR 0x97, CHR 0xA0, CHR 0xE7, CHR 0xBA, CHR 0xBF, CHR 0xE6, CHR 0x8E, CHR 0xA5, CHR 0xE7, CHR 0xAE, CHR 0xA1]
      | PrDialing \<Rightarrow> [CHR 0xE6, CHR 0x8B, CHR 0xA8, CHR 0xE5, CHR 0x8F, CHR 0xB7, CHR 0xE4, CHR 0xB8, CHR 0xAD]
      | PrBackoff \<Rightarrow> [CHR 0xE9, CHR 0x87, CHR 0x8D, CHR 0xE6, CHR 0x8B, CHR 0xA8, CHR 0xE4, CHR 0xB8, CHR 0xAD]
      | PrAuthFail \<Rightarrow> [CHR 0xE8, CHR 0xAE, CHR 0xA4, CHR 0xE8, CHR 0xAF, CHR 0x81, CHR 0xE5, CHR 0xA4, CHR 0xB1, CHR 0xE8, CHR 0xB4, CHR 0xA5]
      | PrIdle \<Rightarrow> [CHR 0xE7, CHR 0xA9, CHR 0xBA, CHR 0xE9, CHR 0x97, CHR 0xB2])"

definition egress_zh :: "primary \<Rightarrow> string" where
  "egress_zh p =
     (case p of
        PrConnected \<Rightarrow> [CHR 0xE6, CHR 0x9C, CHR 0x89, CHR 0xE7, CHR 0xBA, CHR 0xBF]
      | PrWirelessOnline \<Rightarrow> [CHR 0xE6, CHR 0x97, CHR 0xA0, CHR 0xE7, CHR 0xBA, CHR 0xBF]
      | _ \<Rightarrow> em_dash)"

definition session_zh :: "session_status \<Rightarrow> string" where
  "session_zh s =
     (case s of
        SConnected \<Rightarrow> [CHR 0xE5, CHR 0xB7, CHR 0xB2, CHR 0xE8, CHR 0xBF, CHR 0x9E, CHR 0xE6, CHR 0x8E, CHR 0xA5]
      | SDialing \<Rightarrow> [CHR 0xE6, CHR 0x8B, CHR 0xA8, CHR 0xE5, CHR 0x8F, CHR 0xB7, CHR 0xE4, CHR 0xB8, CHR 0xAD]
      | SBackoff \<Rightarrow> [CHR 0xE9, CHR 0x87, CHR 0x8D, CHR 0xE6, CHR 0x8B, CHR 0xA8, CHR 0xE4, CHR 0xB8, CHR 0xAD]
      | SAuthFail \<Rightarrow> [CHR 0xE8, CHR 0xAE, CHR 0xA4, CHR 0xE8, CHR 0xAF, CHR 0x81, CHR 0xE5, CHR 0xA4, CHR 0xB1, CHR 0xE8, CHR 0xB4, CHR 0xA5]
      | SIdle \<Rightarrow> [CHR 0xE7, CHR 0xA9, CHR 0xBA, CHR 0xE9, CHR 0x97, CHR 0xB2])"

definition session_en :: "session_status \<Rightarrow> string" where
  "session_en s =
     (case s of
        SIdle \<Rightarrow> ''Idle''
      | SDialing \<Rightarrow> ''Dialing''
      | SConnected \<Rightarrow> ''Connected''
      | SBackoff \<Rightarrow> ''Backoff (retrying)''
      | SAuthFail \<Rightarrow> ''Auth failed'')"

definition wphase_zh :: "wphase \<Rightarrow> string" where
  "wphase_zh p =
     (case p of
        WOff \<Rightarrow> [CHR 0xE5, CHR 0x85, CHR 0xB3, CHR 0xE9, CHR 0x97, CHR 0xAD]
      | WJoining \<Rightarrow> [CHR 0xE8, CHR 0xBF, CHR 0x9E, CHR 0xE6, CHR 0x8E, CHR 0xA5, CHR 0xE4, CHR 0xB8, CHR 0xAD]
      | WAuthing \<Rightarrow> [CHR 0xE8, CHR 0xAE, CHR 0xA4, CHR 0xE8, CHR 0xAF, CHR 0x81, CHR 0xE4, CHR 0xB8, CHR 0xAD]
      | WOnline \<Rightarrow> [CHR 0xE5, CHR 0xB7, CHR 0xB2, CHR 0xE6, CHR 0x8E, CHR 0xA5, CHR 0xE7, CHR 0xAE, CHR 0xA1]
      | WError \<Rightarrow> [CHR 0xE9, CHR 0x94, CHR 0x99, CHR 0xE8, CHR 0xAF, CHR 0xAF])"

definition wphase_en :: "wphase \<Rightarrow> string" where
  "wphase_en p =
     (case p of
        WOff \<Rightarrow> ''Off''
      | WJoining \<Rightarrow> ''Joining''
      | WAuthing \<Rightarrow> ''Authenticating''
      | WOnline \<Rightarrow> ''Online''
      | WError \<Rightarrow> ''Error'')"

definition heartbeat_en :: "heartbeat_status \<Rightarrow> string" where
  "heartbeat_en h = (case h of HbOff \<Rightarrow> ''Off'' | HbRunning \<Rightarrow> ''Running'' | HbError e \<Rightarrow> ''Error ('' @ e @ '')'')"

definition mode_en :: "net_mode \<Rightarrow> string" where
  "mode_en m = (case m of WiredExclusive \<Rightarrow> ''Wired only (auto wireless takeover)'' | WiredPlusStandby \<Rightarrow> ''Wired + wireless standby'')"

definition wireless_en :: "wireless_snapshot \<Rightarrow> string" where
  "wireless_en w =
     (case (ws_ip w, ws_last_error w) of
        (Some ip, _) \<Rightarrow> wphase_en (ws_phase w) @ '' '' @ ip
      | (None, Some e) \<Rightarrow> wphase_en (ws_phase w) @ '' ('' @ e @ '')''
      | (None, None) \<Rightarrow> wphase_en (ws_phase w))"

definition status_line_zh :: "state_snapshot option \<Rightarrow> string" where
  "status_line_zh s =
     (case s of
        None \<Rightarrow> [CHR 0xE6, CHR 0x9C, CHR 0x8D, CHR 0xE5, CHR 0x8A, CHR 0xA1, CHR 0xE6, CHR 0x9C, CHR 0xAA, CHR 0xE8, CHR 0xBF, CHR 0x90, CHR 0xE8, CHR 0xA1, CHR 0x8C]
      | Some s \<Rightarrow> [CHR 0xE6, CHR 0x9C, CHR 0x89, CHR 0xE7, CHR 0xBA, CHR 0xBF, CHR 0xEF, CHR 0xBC, CHR 0x9A] @ session_zh (sn_status s) @ '' '' @ [CHR 0xC2, CHR 0xB7] @ '' WiFi'' @ [CHR 0xEF, CHR 0xBC, CHR 0x9A] @ wphase_zh (ws_phase (sn_wireless s)))"

section \<open>The command line\<close>

definition print_status :: "u64 \<Rightarrow> state_snapshot \<Rightarrow> string list" where
  "print_status now s =
     [''Status:     '' @ session_en (sn_status s),
      ''Uptime:   '' @ uptime_text now s,
      ''IP:       '' @ (case sn_ip s of Some ip \<Rightarrow> ip | None \<Rightarrow> em_dash),
      ''Drop reason: '' @ (case sn_last_drop_reason s of Some r \<Rightarrow> r | None \<Rightarrow> em_dash),
      ''Redial attempts: '' @ dec (unat (sn_redial_attempts s)),
      ''Heartbeat: '' @ heartbeat_en (sn_heartbeat s),
      ''Mode:     '' @ mode_en (sn_mode s),
      ''Wireless: '' @ wireless_en (sn_wireless s),
      ''Events:   '' @ dec (length (sn_events s)) @ '' recent'']"

section \<open>The words tell the states apart\<close>

lemma words_distinct:
  "session_en a = session_en b \<longleftrightarrow> a = b" "session_zh a = session_zh b \<longleftrightarrow> a = b"
  "wphase_en p = wphase_en q \<longleftrightarrow> p = q" "wphase_zh p = wphase_zh q \<longleftrightarrow> p = q"
  "mode_en m = mode_en n \<longleftrightarrow> m = n" "word_zh x = word_zh y \<longleftrightarrow> x = y"
  by (cases a; cases b; simp add: session_en_def session_zh_def)+
    ((cases p; cases q; simp add: wphase_en_def wphase_zh_def)+,
      (cases m; cases n; simp add: mode_en_def), (cases x; cases y; simp add: word_zh_def))

lemma view_light:
  "\<exists>v. status_view_of s = Some v \<and> (vw_light v = LightWired \<longleftrightarrow> vw_primary v = PrConnected)
     \<and> (vw_light v = LightWireless \<longleftrightarrow> vw_primary v = PrWirelessOnline)"
  by (cases s) (auto simp: status_view_of_def primary_of_def split: session_status.split)

end
