(* ===== verification/Tray.thy ===== *)
theory Tray
  imports Status Service_Control
begin

text \<open>
  The logic of \<open>src/src/tray/mod.rs\<close>: what a double click starts, the connection that keeps the cached
  snapshot, and one turn of the message pump. Windows objects are what they show; the main window and the
  creation of the threads are left out.
\<close>

section \<open>Starting\<close>

datatype singleton = SgPrimary | SgSecondary

text \<open>\<open>CreateMutexW\<close>: whether it succeeded, and whether the name existed.\<close>

definition acquire_singleton :: "string + bool \<Rightarrow> singleton" where
  "acquire_singleton r = (case r of Inr existed \<Rightarrow> if existed then SgSecondary else SgPrimary | Inl e \<Rightarrow> SgPrimary)"

datatype tray_start = HomeModeExit | WokeOther | Runs bool

definition run_tray :: "'w scm_api \<Rightarrow> string + bool \<Rightarrow> bool \<Rightarrow> 'w \<Rightarrow> tray_start \<times> 'w" where
  "run_tray S mutex show_gui w =
     (let (standby, w) = home_mode_standby S w
      in (if standby = Some True then HomeModeExit
          else (case acquire_singleton mutex of SgPrimary \<Rightarrow> Runs show_gui | SgSecondary \<Rightarrow> WokeOther), w))"

datatype double_click = HomeModeHint | InstallHint | StartTray tray_start

definition double_click_entry :: "'w scm_api \<Rightarrow> ('w \<Rightarrow> string option \<times> 'w) \<Rightarrow> string + bool \<Rightarrow> 'w \<Rightarrow> double_click \<times> 'w" where
  "double_click_entry S version mutex w =
     (case install_state S version w of
        (Installed exe v, w) \<Rightarrow>
          (let (standby, w) = home_mode_standby S w
           in if standby = Some True then (HomeModeHint, w)
              else (let (r, w) = run_tray S mutex True w in (StartTray r, w)))
      | (_, w) \<Rightarrow> (InstallHint, w))"

section \<open>Icons\<close>

datatype icon_kind = IcWiredUp | IcWirelessUp | IcBackoff | IcDown

definition all_icons :: "icon_kind list" where
  "all_icons = [IcWiredUp, IcWirelessUp, IcBackoff, IcDown]"

definition icon_color :: "icon_kind \<Rightarrow> u8 \<times> u8 \<times> u8" where
  "icon_color k =
     (case k of IcWiredUp \<Rightarrow> (0x2e, 0xc4, 0x8a) | IcWirelessUp \<Rightarrow> (0x30, 0x9c, 0xdc)
      | IcBackoff \<Rightarrow> (0xe0, 0xb0, 0x00) | IcDown \<Rightarrow> (0x88, 0x88, 0x88))"

definition icon_rgba :: "u8 \<times> u8 \<times> u8 \<Rightarrow> u8 list" where
  "icon_rgba c =
     (case c of (r, g, b) \<Rightarrow>
        concat (map (\<lambda>y. concat (map (\<lambda>x. [r, g, b, if 2 \<le> x \<and> x < 30 \<and> 2 \<le> y \<and> y < 30 then 0xff else 0]) [0..<32])) [0..<32]))"

definition icon_kind_of :: "state_snapshot option \<Rightarrow> icon_kind option" where
  "icon_kind_of s =
     map_option (\<lambda>v. case vw_light v of LightWired \<Rightarrow> IcWiredUp | LightWireless \<Rightarrow> IcWirelessUp | LightBusy \<Rightarrow> IcBackoff | LightOff \<Rightarrow> IcDown)
       (status_view_of s)"

text \<open>The position of a kind in the list, and the icon there.\<close>

fun index_of :: "'a \<Rightarrow> 'a list \<Rightarrow> nat option" where
  "index_of x [] = None"
| "index_of x (y # ys) = (if y = x then Some 0 else map_option Suc (index_of x ys))"

definition icon_for :: "'i list \<Rightarrow> icon_kind \<Rightarrow> 'i option" where
  "icon_for icons k =
     (case index_of k all_icons of None \<Rightarrow> None | Some i \<Rightarrow> if i < length icons then Some (icons ! i) else None)"

section \<open>The connection\<close>

text \<open>
  The outcomes of the calls of \<open>ipc_loop\<close>, in the order they happen. \<open>tp_waiting\<close> says that the loop is about
  to connect; what does not fit the place in the loop is no outcome of a call made there.
\<close>

datatype tray_input = ConnectFailed | ConnectedToService | GotSnapshot state_snapshot | StreamEnded

record tray_pipe =
  tp_waiting :: bool
  tp_cache :: "state_snapshot option"
  tp_texts :: "string list"
  tp_toasts :: nat
  tp_slept :: nat

definition connect_retry :: duration where "connect_retry = from_secs 3"

definition push_text :: "tray_pipe \<Rightarrow> tray_pipe" where
  "push_text t = t\<lparr>tp_texts := tp_texts t @ [status_line_zh (tp_cache t)]\<rparr>"

fun ipc_step :: "tray_pipe \<Rightarrow> tray_input \<Rightarrow> tray_pipe" where
  "ipc_step t ConnectFailed = (if tp_waiting t then t\<lparr>tp_slept := tp_slept t + connect_retry\<rparr> else t)"
| "ipc_step t ConnectedToService = (if tp_waiting t then t\<lparr>tp_waiting := False\<rparr> else t)"
| "ipc_step t (GotSnapshot s) = (if tp_waiting t then t else push_text (t\<lparr>tp_cache := Some s\<rparr>))"
| "ipc_step t StreamEnded =
     (if tp_waiting t then t
      else (let t = push_text (t\<lparr>tp_toasts := tp_toasts t + 1, tp_cache := None\<rparr>)
            in t\<lparr>tp_slept := tp_slept t + connect_retry, tp_waiting := True\<rparr>))"

definition ipc_loop :: "tray_input list \<Rightarrow> tray_pipe" where
  "ipc_loop is = foldl ipc_step \<lparr>tp_waiting = True, tp_cache = None, tp_texts = [], tp_toasts = 0, tp_slept = 0\<rparr> is"

section \<open>A turn of the pump\<close>

text \<open>What the user sees, with the two values that say when to change it.\<close>

record tray_ui =
  tu_status :: string
  tu_exclusive :: bool
  tu_standby :: bool
  tu_icon :: icon_kind
  tu_last_kind :: icon_kind
  tu_tooltip :: string
  tu_last_tooltip :: string
  tu_shown :: nat
  tu_commands :: "command list"
  tu_quit :: bool

datatype menu_item = MiExclusive | MiStandby | MiRedial | MiPanel | MiQuit | MiOther

definition tooltip_of :: "string \<Rightarrow> string" where
  "tooltip_of line = ''gdut-net '' @ em_dash @ '' '' @ line"

definition tray_ui_new :: tray_ui where
  "tray_ui_new =
     \<lparr>tu_status = status_line_zh None, tu_exclusive = True, tu_standby = False, tu_icon = IcDown, tu_last_kind = IcDown,
      tu_tooltip = tooltip_of (status_line_zh None), tu_last_tooltip = status_line_zh None, tu_shown = 0,
      tu_commands = [], tu_quit = False\<rparr>"

text \<open>Quitting ends the process at once.\<close>

fun menu_events :: "menu_item list \<Rightarrow> tray_ui \<Rightarrow> tray_ui" where
  "menu_events [] u = u"
| "menu_events (m # ms) u =
     (case m of
        MiExclusive \<Rightarrow> menu_events ms (u\<lparr>tu_commands := tu_commands u @ [SetMode WiredExclusive]\<rparr>)
      | MiStandby \<Rightarrow> menu_events ms (u\<lparr>tu_commands := tu_commands u @ [SetMode WiredPlusStandby]\<rparr>)
      | MiRedial \<Rightarrow> menu_events ms (u\<lparr>tu_commands := tu_commands u @ [Redial]\<rparr>)
      | MiPanel \<Rightarrow> menu_events ms (u\<lparr>tu_shown := tu_shown u + 1\<rparr>)
      | MiQuit \<Rightarrow> u\<lparr>tu_quit := True\<rparr>
      | MiOther \<Rightarrow> menu_events ms u)"

text \<open>The refresh from the cached snapshot; \<open>icon_ok\<close> is the result of \<open>set_icon\<close>, \<open>tip_ok\<close> of \<open>set_tooltip\<close>.\<close>

definition refresh :: "bool \<Rightarrow> bool \<Rightarrow> state_snapshot option \<Rightarrow> tray_ui \<Rightarrow> tray_ui option" where
  "refresh icon_ok tip_ok s u =
     (let line = status_line_zh s;
          u = (if tu_status u \<noteq> line then u\<lparr>tu_status := line\<rparr> else u);
          mode = (case s of None \<Rightarrow> WiredExclusive | Some s \<Rightarrow> sn_mode s);
          u = u\<lparr>tu_exclusive := (mode = WiredExclusive), tu_standby := (mode = WiredPlusStandby)\<rparr>
      in map_option (\<lambda>kind.
           (let u = (if kind \<noteq> tu_last_kind u
                     then (let u = (case icon_for all_icons kind of
                                      Some icon \<Rightarrow> if icon_ok then u\<lparr>tu_icon := icon\<rparr> else u
                                    | None \<Rightarrow> u)
                           in u\<lparr>tu_last_kind := kind\<rparr>)
                     else u)
            in if tu_last_tooltip u \<noteq> line
               then (let u = (if tip_ok then u\<lparr>tu_tooltip := tooltip_of line\<rparr> else u) in u\<lparr>tu_last_tooltip := line\<rparr>)
               else u)) (icon_kind_of s))"

record pump_turn =
  pt_processed :: bool
  pt_woke :: bool
  pt_clicks :: nat
  pt_menu :: "menu_item list"
  pt_texts :: "string list"
  pt_lock :: bool
  pt_icon_ok :: bool
  pt_tip_ok :: bool

definition turn_ui :: "pump_turn \<Rightarrow> state_snapshot option \<Rightarrow> tray_ui \<Rightarrow> tray_ui option" where
  "turn_ui i s u =
     (if pt_processed i then Some u
      else (let u = u\<lparr>tu_shown := tu_shown u + (if pt_woke i then 1 else 0) + pt_clicks i\<rparr>;
                u = menu_events (pt_menu i) u
            in if tu_quit u then Some u
               else (let u = (if pt_texts i = [] then u else u\<lparr>tu_status := last (pt_texts i)\<rparr>)
                     in if pt_lock i then refresh (pt_icon_ok i) (pt_tip_ok i) s u else Some u)))"

section \<open>What is shown is true\<close>

lemma icon_for_all: "icon_for all_icons k = Some k"
  by (cases k) (simp_all add: icon_for_def all_icons_def)

lemma icon_kind_total: "\<exists>k. icon_kind_of s = Some k"
  using view_light [of s] by (auto simp: icon_kind_of_def)

lemma icon_rgba_size: "length (icon_rgba c) = 32 * 32 * 4"
  by (cases c) (simp add: icon_rgba_def length_concat comp_def sum_list_triv)

text \<open>The state that is on the screen when it shows a snapshot.\<close>

definition shows_state :: "state_snapshot option \<Rightarrow> tray_ui \<Rightarrow> bool" where
  "shows_state s u \<longleftrightarrow>
     tu_status u = status_line_zh s \<and> tu_tooltip u = tooltip_of (status_line_zh s) \<and> Some (tu_icon u) = icon_kind_of s
   \<and> (tu_exclusive u \<longleftrightarrow> (case s of None \<Rightarrow> True | Some s \<Rightarrow> sn_mode s = WiredExclusive)) \<and> (tu_standby u \<longleftrightarrow> \<not> tu_exclusive u)"

text \<open>What was recorded as shown is what is shown.\<close>

definition ui_honest :: "tray_ui \<Rightarrow> bool" where
  "ui_honest u \<longleftrightarrow> tu_icon u = tu_last_kind u \<and> tu_tooltip u = tooltip_of (tu_last_tooltip u)"

fun turns :: "(pump_turn \<times> state_snapshot option) list \<Rightarrow> tray_ui \<Rightarrow> tray_ui option" where
  "turns [] u = Some u"
| "turns ((i, s) # ts) u =
     (if tu_quit u then Some u else (case turn_ui i s u of None \<Rightarrow> None | Some u \<Rightarrow> turns ts u))"

lemma menu_events_frame:
  "ui_honest (menu_events ms u) = ui_honest u"
  by (induction ms u rule: menu_events.induct) (auto simp: ui_honest_def split: menu_item.split)

lemma refresh_shows:
  assumes "ui_honest u"
  shows "\<exists>u'. refresh True True s u = Some u' \<and> ui_honest u' \<and> shows_state s u' \<and> tu_quit u' = tu_quit u"
proof -
  obtain k where "icon_kind_of s = Some k" using icon_kind_total by blast
  with assms show ?thesis
    by (cases s) (auto simp: refresh_def shows_state_def ui_honest_def icon_for_all Let_def intro: net_mode.exhaust)
qed

lemma refresh_total: "refresh a b s u \<noteq> None"
  using icon_kind_total [of s] by (auto simp: refresh_def Let_def)

lemma turn_total: "turn_ui i s u \<noteq> None"
  using refresh_total by (auto simp: turn_ui_def Let_def)

lemma turn_honest:
  assumes "turn_ui i s u = Some u'" "ui_honest u" "pt_icon_ok i" "pt_tip_ok i"
  shows "ui_honest u' \<and> (\<not> pt_processed i \<and> pt_lock i \<and> \<not> tu_quit u' \<longrightarrow> shows_state s u')"
proof (cases "pt_processed i")
  case True
  with assms show ?thesis by (simp add: turn_ui_def)
next
  case False
  let ?u = "menu_events (pt_menu i) (u\<lparr>tu_shown := tu_shown u + (if pt_woke i then 1 else 0) + pt_clicks i\<rparr>)"
  let ?v = "if pt_texts i = [] then ?u else ?u\<lparr>tu_status := last (pt_texts i)\<rparr>"
  have h: "ui_honest ?u" using assms(2) by (simp add: menu_events_frame) (simp add: ui_honest_def)
  then have "ui_honest ?v" by (simp add: ui_honest_def)
  then obtain r where "refresh True True s ?v = Some r" "ui_honest r" "shows_state s r" using refresh_shows by blast
  with False h assms(1,3,4) \<open>ui_honest ?v\<close> show ?thesis
    by (cases "tu_quit ?u") (auto simp: turn_ui_def Let_def split: if_splits)
qed

lemma turns_honest:
  "turns ts u = Some u' \<Longrightarrow> ui_honest u \<Longrightarrow> list_all (\<lambda>(i, s). pt_icon_ok i \<and> pt_tip_ok i) ts \<Longrightarrow> ui_honest u'"
  by (induction ts u rule: turns.induct) (auto split: if_splits option.splits dest: turn_honest)

lemma turns_snoc:
  "turns (ts @ [(i, s)]) u = (case turns ts u of None \<Rightarrow> None | Some v \<Rightarrow> if tu_quit v then Some v else turn_ui i s v)"
  by (induction ts u rule: turns.induct) (auto split: option.split)

text \<open>
  C33 (invariant). The tray shows the truth. However the turns of the message pump go, with whatever clicks,
  texts from the connection and snapshots in the cache: the pump never panics, and after every turn that is not
  cut short by pending messages or by quitting, the status line, the tooltip, the icon and the two mode check
  marks are those of the snapshot that is in the cache, as long as Windows accepts the icons and tooltips.
\<close>

theorem tray_shows_the_cached_snapshot:
  "\<exists>u. turns (ts @ [(i, s)]) tray_ui_new = Some u
    \<and> (list_all (\<lambda>(i, s). pt_icon_ok i \<and> pt_tip_ok i) (ts @ [(i, s)]) \<and> \<not> pt_processed i \<and> pt_lock i \<and> \<not> tu_quit u
         \<longrightarrow> shows_state s u)"
proof -
  have "turns ts u \<noteq> None" for ts u
    by (induction ts u rule: turns.induct) (auto simp: turn_total split: option.split)
  then obtain u v where u: "turns (ts @ [(i, s)]) tray_ui_new = Some u" "turns ts tray_ui_new = Some v" by blast
  have "ui_honest tray_ui_new" by (simp add: ui_honest_def tray_ui_new_def)
  with u turns_honest [OF u(2)] turn_honest [of i s v u] show ?thesis
    by (auto simp: turns_snoc split: if_splits)
qed

definition plain_turn :: "menu_item list \<Rightarrow> pump_turn" where
  "plain_turn ms =
     \<lparr>pt_processed = False, pt_woke = False, pt_clicks = 0, pt_menu = ms, pt_texts = [], pt_lock = True,
      pt_icon_ok = True, pt_tip_ok = True\<rparr>"

theorem tray_shows_the_cached_snapshot_witness:
  "\<exists>u. turns ([] @ [(plain_turn [MiRedial], None)]) tray_ui_new = Some u \<and> shows_state None u"
proof -
  obtain u where u: "turns ([] @ [(plain_turn [MiRedial], None)]) tray_ui_new = Some u"
    "list_all (\<lambda>(i, s). pt_icon_ok i \<and> pt_tip_ok i) ([] @ [(plain_turn [MiRedial], None :: state_snapshot option)])
       \<and> \<not> pt_processed (plain_turn [MiRedial]) \<and> pt_lock (plain_turn [MiRedial]) \<and> \<not> tu_quit u \<longrightarrow> shows_state None u"
    using tray_shows_the_cached_snapshot [of "[]" "plain_turn [MiRedial]" None] by blast
  moreover have "\<not> tu_quit u"
    using u(1) by (auto simp: turn_ui_def plain_turn_def tray_ui_new_def refresh_def icon_kind_of_def status_view_of_def Let_def)
  ultimately show ?thesis by (auto simp: plain_turn_def)
qed

end
