(* ===== verification/Setup_Args.thy ===== *)
theory Setup_Args
  imports Prelude Files Codec
begin

text \<open>
  \<open>src/src/setup_args.rs\<close>: the command line of the installer, and the quoting with which
  \<open>src/src/setup/mod.rs\<close> hands it to the elevated process.
\<close>

section \<open>Arguments and modes\<close>

datatype setup_mode = MdGui | MdRepair | MdUninstall | MdStartService | MdSilentInstall | MdSilentUninstall

record setup_args =
  ag_silent :: bool
  ag_uninstall :: bool
  ag_repair :: bool
  ag_start_service :: bool
  ag_keep_password :: bool
  ag_purge :: bool

definition setup_args_default :: setup_args where
  "setup_args_default =
     \<lparr>ag_silent = False, ag_uninstall = False, ag_repair = False, ag_start_service = False,
      ag_keep_password = False, ag_purge = False\<rparr>"

definition mode_of :: "setup_args \<Rightarrow> err + setup_mode" where
  "mode_of a =
     (if ag_keep_password a \<and> \<not> ag_silent a then Inl (Msg ''--keep-password requires --silent'')
      else if ag_purge a \<and> \<not> ag_uninstall a then Inl (Msg ''--purge requires --uninstall'')
      else if length (filter id [ag_uninstall a, ag_repair a, ag_start_service a]) > 1
      then Inl (Msg ''--uninstall/--repair/--start-service are mutually exclusive'')
      else if ag_silent a \<and> ag_start_service a then Inl (Msg ''--silent cannot combine with --start-service'')
      else Inr (case (ag_silent a, ag_uninstall a, ag_repair a, ag_start_service a) of
                  (True, True, _, _) \<Rightarrow> MdSilentUninstall
                | (True, False, _, _) \<Rightarrow> MdSilentInstall
                | (False, True, _, _) \<Rightarrow> MdUninstall
                | (False, _, True, _) \<Rightarrow> MdRepair
                | (False, _, _, True) \<Rightarrow> MdStartService
                | _ \<Rightarrow> MdGui))"

definition read_arg :: "string \<Rightarrow> setup_args \<Rightarrow> setup_args option" where
  "read_arg s a =
     (if s = ''--silent'' then Some (a\<lparr>ag_silent := True\<rparr>)
      else if s = ''--uninstall'' then Some (a\<lparr>ag_uninstall := True\<rparr>)
      else if s = ''--repair'' then Some (a\<lparr>ag_repair := True\<rparr>)
      else if s = ''--start-service'' then Some (a\<lparr>ag_start_service := True\<rparr>)
      else if s = ''--keep-password'' then Some (a\<lparr>ag_keep_password := True\<rparr>)
      else if s = ''--purge'' then Some (a\<lparr>ag_purge := True\<rparr>)
      else None)"

fun read_args :: "string list \<Rightarrow> setup_args \<Rightarrow> err + setup_args" where
  "read_args [] a = Inr a"
| "read_args (s # ss) a =
     (case read_arg s a of
        None \<Rightarrow> Inl (Msg (''unknown argument '' @ s))
      | Some a \<Rightarrow> read_args ss a)"

definition parse_args :: "string list \<Rightarrow> err + setup_args" where
  "parse_args ss =
     (case read_args ss setup_args_default of
        Inl e \<Rightarrow> Inl e
      | Inr a \<Rightarrow> (case mode_of a of Inl e \<Rightarrow> Inl e | Inr _ \<Rightarrow> Inr a))"

section \<open>The command line of the elevated process\<close>

fun join :: "string \<Rightarrow> string list \<Rightarrow> string" where
  "join sep [] = []"
| "join sep [x] = x"
| "join sep (x # y # xs) = x @ sep @ join sep (y # xs)"

definition quote_args :: "string list \<Rightarrow> string" where
  "quote_args args = join '' '' (map (\<lambda>a. if CHR '' '' \<in> set a then [CHR 34] @ a @ [CHR 34] else a) args)"

text \<open>How a command line without quotation marks is cut into arguments by the process that is started.\<close>

definition cut_args :: "string \<Rightarrow> string list" where
  "cut_args s = filter (\<lambda>a. a \<noteq> []) (split_char (CHR '' '') s)"

section \<open>What an accepted command line means\<close>

definition flags :: "string list" where
  "flags = [''--silent'', ''--uninstall'', ''--repair'', ''--start-service'', ''--keep-password'', ''--purge'']"

definition meant :: "string set \<Rightarrow> setup_args" where
  "meant S =
     \<lparr>ag_silent = (''--silent'' \<in> S), ag_uninstall = (''--uninstall'' \<in> S), ag_repair = (''--repair'' \<in> S),
      ag_start_service = (''--start-service'' \<in> S), ag_keep_password = (''--keep-password'' \<in> S), ag_purge = (''--purge'' \<in> S)\<rparr>"

lemma read_arg_meant:
  "read_arg s (meant S) = (if s \<in> set flags then Some (meant (insert s S)) else None)"
  by (auto simp: read_arg_def meant_def flags_def)

lemma read_args_meant:
  "read_args ss (meant S) = (if set ss \<subseteq> set flags then Inr (meant (S \<union> set ss))
     else Inl (Msg (''unknown argument '' @ hd (filter (\<lambda>s. s \<notin> set flags) ss))))"
  by (induction ss arbitrary: S) (auto simp: read_arg_meant)

lemma parse_args_eq:
  "parse_args ss = Inr a \<longleftrightarrow> set ss \<subseteq> set flags \<and> a = meant (set ss) \<and> (\<exists>m. mode_of a = Inr m)"
proof -
  have d: "setup_args_default = meant {}" by (simp add: setup_args_default_def meant_def)
  show ?thesis unfolding parse_args_def d read_args_meant by (auto split: sum.splits if_splits)
qed

lemma flags_plain: "s \<in> set flags \<Longrightarrow> CHR '' '' \<notin> set s \<and> s \<noteq> []"
  by (auto simp: flags_def)

lemma cut_join:
  "list_all (\<lambda>a. CHR '' '' \<notin> set a \<and> a \<noteq> []) as \<Longrightarrow> cut_args (join '' '' as) = as"
proof (induction as)
  case (Cons a as)
  then show ?case by (cases as) (simp_all add: cut_args_def split_char_single split_char_Cons)
qed (simp add: cut_args_def)

lemma quote_args_flags:
  assumes "set ss \<subseteq> set flags"
  shows "cut_args (quote_args ss) = ss"
proof -
  have "map (\<lambda>a. if CHR '' '' \<in> set a then [CHR 34] @ a @ [CHR 34] else a) ss = ss"
    using assms flags_plain by (intro map_idI) auto
  then show ?thesis using assms flags_plain by (simp add: quote_args_def cut_join list_all_iff subset_iff)
qed

interpretation elevated: codec quote_args "\<lambda>s. Some (cut_args s)" "\<lambda>ss. set ss \<subseteq> set flags"
  by unfold_locales (simp add: quote_args_flags)

text \<open>The elevated process cannot take one command line for another.\<close>

lemma elevated_line_is_unique:
  "set as \<subseteq> set flags \<Longrightarrow> set bs \<subseteq> set flags \<Longrightarrow> quote_args as = quote_args bs \<longleftrightarrow> as = bs"
  by (rule elevated.encode_eq_iff)

text \<open>
  C36 (type). Every command line the installer accepts is well formed and means one thing. It consists of known
  flags only, and each field says whether its flag was given, in whatever order and however often; the mode is
  defined, it is a silent one exactly with the flag for it and a removal exactly with that flag, the password is
  kept only by a silent run and data are deleted only by a removal; and the process that is started with
  elevated rights reads the very same arguments.
\<close>

theorem accepted_arguments_are_meant:
  assumes "parse_args ss = Inr a"
  shows "set ss \<subseteq> set flags \<and> a = meant (set ss)
    \<and> (\<exists>m. mode_of a = Inr m
        \<and> (m \<in> {MdSilentInstall, MdSilentUninstall} \<longleftrightarrow> ag_silent a)
        \<and> (m \<in> {MdUninstall, MdSilentUninstall} \<longleftrightarrow> ag_uninstall a)
        \<and> (m = MdStartService \<longleftrightarrow> ag_start_service a)
        \<and> (m = MdRepair \<longleftrightarrow> ag_repair a \<and> \<not> ag_silent a)
        \<and> (ag_keep_password a \<longrightarrow> m \<in> {MdSilentInstall, MdSilentUninstall})
        \<and> (ag_purge a \<longrightarrow> m \<in> {MdUninstall, MdSilentUninstall}))
    \<and> parse_args (cut_args (quote_args ss)) = Inr a"
proof -
  from assms obtain m where a: "set ss \<subseteq> set flags" "a = meant (set ss)" and m: "mode_of a = Inr m"
    by (auto simp: parse_args_eq)
  have "(m \<in> {MdSilentInstall, MdSilentUninstall} \<longleftrightarrow> ag_silent a)
        \<and> (m \<in> {MdUninstall, MdSilentUninstall} \<longleftrightarrow> ag_uninstall a)
        \<and> (m = MdStartService \<longleftrightarrow> ag_start_service a)
        \<and> (m = MdRepair \<longleftrightarrow> ag_repair a \<and> \<not> ag_silent a)
        \<and> (ag_keep_password a \<longrightarrow> m \<in> {MdSilentInstall, MdSilentUninstall})
        \<and> (ag_purge a \<longrightarrow> m \<in> {MdUninstall, MdSilentUninstall})"
    using m by (auto simp: mode_of_def split: if_splits bool.splits)
  with a m show ?thesis using assms quote_args_flags [OF a(1)] by auto
qed

theorem accepted_arguments_are_meant_witness:
  "parse_args [''--purge'', ''--silent'', ''--uninstall''] = Inr (meant {''--silent'', ''--uninstall'', ''--purge''})
    \<and> quote_args [''--purge'', ''--silent'', ''--uninstall''] = ''--purge --silent --uninstall''"
proof -
  have "parse_args [''--purge'', ''--silent'', ''--uninstall''] = Inr (meant {''--silent'', ''--uninstall'', ''--purge''})"
    by (auto simp: parse_args_def read_arg_def setup_args_default_def mode_of_def meant_def)
  from accepted_arguments_are_meant [OF this] this show ?thesis by (simp add: quote_args_def)
qed

end
