(* ===== verification/Setup_Work.thy ===== *)
theory Setup_Work
  imports Transaction_Props Setup_Args Ipc
begin

text \<open>
  The rest of the installer without its windows: the work of \<open>src/src/setup/work.rs\<close>, the silent mode of
  \<open>src/src/setup/silent.rs\<close>, and the entry of \<open>src/src/setup/mod.rs\<close>. Events carry their keys, the Chinese
  labels are left out; an error is printed as it is.
\<close>

section \<open>Events\<close>

definition step_wait_dial :: string where "step_wait_dial = ''wait_dial''"
definition step_uninstall_stop_service :: string where "step_uninstall_stop_service = ''uninstall_stop_service''"
definition step_uninstall_purge :: string where "step_uninstall_purge = ''uninstall_purge''"
definition step_uninstall_remove_dir :: string where "step_uninstall_remove_dir = ''uninstall_remove_dir''"

definition step_label_en :: "string \<Rightarrow> string" where
  "step_label_en key =
     (if key = step_stop_service then ''Stop old service''
      else if key = step_unpack then ''Unpack files''
      else if key = step_install_core then ''Write config and register service''
      else if key = step_shell_integration then ''Create Start Menu shortcuts''
      else if key = step_start_service then ''Start service''
      else if key = step_wait_dial then ''Wait for dial result''
      else if key = step_uninstall_stop_service then ''Stop service''
      else if key = step_uninstall_service then ''Remove service''
      else if key = step_uninstall_event_source then ''Remove event source''
      else if key = step_uninstall_entropy then ''Remove encryption key''
      else if key = step_uninstall_autostart then ''Remove tray autostart''
      else if key = step_uninstall_purge then ''Delete config and logs''
      else if key = step_uninstall_remove_dir then ''Remove install directory''
      else key)"

datatype step_outcome = OutDone | OutSkipped | OutFailed err

datatype work_event =
    WkStep string | WkStepDone string | WkStepFinished string step_outcome | WkDone "err + unit" rollback_outcome

definition outcome_of :: "step \<Rightarrow> step_outcome" where
  "outcome_of s = (case s of StepDone \<Rightarrow> OutDone | StepSkipped \<Rightarrow> OutSkipped | StepFailed e \<Rightarrow> OutFailed e)"

definition work_event_of :: "install_event \<Rightarrow> work_event" where
  "work_event_of e = (case e of EvStep k \<Rightarrow> WkStep k | EvStepDone k \<Rightarrow> WkStepDone k | EvDone r rb \<Rightarrow> WkDone r rb)"

section \<open>Removing\<close>

definition report_events :: "uninstall_report \<Rightarrow> work_event list" where
  "report_events r =
     map (\<lambda>(key, s). WkStepFinished key (outcome_of s)) (rows r)
     @ (case ur_purge r of Some (_, s) \<Rightarrow> [WkStepFinished step_uninstall_purge (outcome_of s)] | None \<Rightarrow> [])"

definition uninstall_work ::
  "'x machine host \<Rightarrow> 'x machine shell_api \<Rightarrow> 'x machine setup_api \<Rightarrow> bool \<Rightarrow> bool \<Rightarrow> 'x machine \<Rightarrow> work_event list \<times> 'x machine" where
  "uninstall_work H A U purge remove_dir w =
     (case stop_service (ho_scm H) stop_limit w of
        (Inl e, w) \<Rightarrow> ([WkStep step_uninstall_stop_service, WkDone (Inl e) NotNeeded], w)
      | (Inr _, w) \<Rightarrow>
          (let stopped = [WkStep step_uninstall_stop_service, WkStepDone step_uninstall_stop_service]
           in case uninstall_core H A config_path purge (up_kill_tray U w) of
                (Inl e, w) \<Rightarrow> (stopped @ [WkDone (Inl e) NotNeeded], w)
              | (Inr report, w) \<Rightarrow>
                  (let done = stopped @ report_events report
                   in if \<not> remove_dir then (done @ [WkDone (Inr ()) NotNeeded], w)
                      else (case schedule_install_dir_removal A (install_dir (sa_program_files A)) w of
                              (Inl e, w) \<Rightarrow> (done @ [WkStep step_uninstall_remove_dir, WkDone (Inl e) NotNeeded], w)
                            | (Inr _, w) \<Rightarrow>
                                (done @ [WkStep step_uninstall_remove_dir, WkStepDone step_uninstall_remove_dir,
                                         WkDone (Inr ()) NotNeeded], w)))))"

section \<open>Starting and waiting\<close>

definition dial_wait :: duration where "dial_wait = from_secs 25"
definition dial_poll :: duration where "dial_poll = 800 * 10 ^ 6"

text \<open>\<open>query\<close> is \<open>query_status_once\<close>; the rounds are those that fit in the time, see \<open>await_dial_enough\<close>.\<close>

primrec await_dial :: "'w scm_api \<Rightarrow> ('w \<Rightarrow> (state_snapshot, 'w) outcome) \<Rightarrow> nat \<Rightarrow> nat \<Rightarrow> 'w \<Rightarrow> (unit, 'w) outcome" where
  "await_dial S query 0 deadline w = (Inl (Msg ''no service status within 25s''), w)"
| "await_dial S query (Suc n) deadline w =
     (case query w of (r, w) \<Rightarrow>
        if (case r of Inr s \<Rightarrow> sn_status s \<in> {SConnected, SBackoff, SAuthFail} | Inl _ \<Rightarrow> False) then (Inr (), w)
        else (case sc_now S w of (now, w) \<Rightarrow>
                if deadline \<le> now then (Inl (Msg ''no service status within 25s''), w)
                else await_dial S query n deadline (sc_sleep S dial_poll w)))"

definition dial_rounds :: nat where "dial_rounds = dial_wait div dial_poll + 2"

definition start_service_work ::
  "'w scm_api \<Rightarrow> ('w \<Rightarrow> (state_snapshot, 'w) outcome) \<Rightarrow> 'w \<Rightarrow> work_event list \<times> 'w" where
  "start_service_work S query w =
     (case start_service S w of
        (Inl e, w) \<Rightarrow> ([WkStep step_start_service, WkDone (Inl e) NotNeeded], w)
      | (Inr _, w) \<Rightarrow>
          (let started = [WkStep step_start_service, WkStepDone step_start_service, WkStep step_wait_dial];
               (now, w) = sc_now S w
           in case await_dial S query dial_rounds (now + dial_wait) w of
                (Inl e, w) \<Rightarrow> (started @ [WkDone (Inl e) NotNeeded], w)
              | (Inr _, w) \<Rightarrow> (started @ [WkStepDone step_wait_dial, WkDone (Inr ()) NotNeeded], w)))"

section \<open>The silent mode\<close>

datatype console_line = OutLine string | ErrLine err

datatype exit_status = ExitOk | ExitErr err | ExitCode nat

text \<open>The loop over the events; it ends the process with code 1 at a failure.\<close>

fun silent_events :: "string \<Rightarrow> work_event list \<Rightarrow> console_line list \<times> exit_status" where
  "silent_events dir [] = ([], ExitErr (Msg ''Install worker exited unexpectedly (see logs)''))"
| "silent_events dir (e # es) =
     (case e of
        WkStep key \<Rightarrow> (case silent_events dir es of (ls, x) \<Rightarrow> (OutLine (''== '' @ step_label_en key) # ls, x))
      | WkStepDone key \<Rightarrow> (case silent_events dir es of (ls, x) \<Rightarrow> (OutLine (''ok '' @ step_label_en key) # ls, x))
      | WkDone (Inl e) rb \<Rightarrow>
          (ErrLine (Ctx ''FAILED'' e) # (case rollback_line_en rb of Some line \<Rightarrow> [ErrLine line] | None \<Rightarrow> []), ExitCode 1)
      | WkDone (Inr _) _ \<Rightarrow> ([OutLine (''Install complete: '' @ dir)], ExitOk)
      | WkStepFinished _ _ \<Rightarrow> silent_events dir es)"

definition silent_install ::
  "'x machine host \<Rightarrow> 'x machine shell_api \<Rightarrow> 'x machine setup_api \<Rightarrow> setup_args \<Rightarrow> 'x machine \<Rightarrow> (console_line list \<times> exit_status) \<times> 'x machine" where
  "silent_install H A U args w =
     (if \<not> ag_keep_password args
      then (([], ExitErr (Msg ''Silent install requires --keep-password (no interactive input available)'')), w)
      else (case run_install H A U \<lparr>fm_student_id = [], fm_password = None\<rparr> w of (es, w) \<Rightarrow>
              (silent_events (install_dir (sa_program_files A)) (map work_event_of es), w)))"

definition failed_lines :: "(string \<times> step) list \<Rightarrow> console_line list" where
  "failed_lines rs =
     List.map_filter (\<lambda>(key, s). case s of StepFailed e \<Rightarrow> Some (ErrLine (Ctx (''step failed: '' @ step_label_en key) e)) | _ \<Rightarrow> None) rs"

definition silent_uninstall ::
  "'x machine host \<Rightarrow> 'x machine shell_api \<Rightarrow> 'x machine setup_api \<Rightarrow> setup_args \<Rightarrow> 'x machine \<Rightarrow> (console_line list \<times> exit_status) \<times> 'x machine" where
  "silent_uninstall H A U args w =
     (case stop_service (ho_scm H) stop_limit w of
        (Inl e, w) \<Rightarrow> (([], ExitErr e), w)
      | (Inr _, w) \<Rightarrow>
          (case uninstall_core H A config_path (ag_purge args) (up_kill_tray U w) of
             (Inl e, w) \<Rightarrow> (([], ExitErr e), w)
           | (Inr report, w) \<Rightarrow>
               (let ls = failed_lines (rows report)
                      @ failed_lines (case ur_purge report of Some (_, s) \<Rightarrow> [(step_uninstall_purge, s)] | None \<Rightarrow> [])
                in case schedule_install_dir_removal A (install_dir (sa_program_files A)) w of
                     (Inl e, w) \<Rightarrow> ((ls, ExitErr e), w)
                   | (Inr _, w) \<Rightarrow>
                       ((ls @ [OutLine (''Uninstall complete (purge='' @ (if ag_purge args then ''true'' else ''false'') @ '')'')],
                         ExitOk), w))))"

section \<open>Reaching elevated rights\<close>

datatype elevation_failure = UacDeclined | ElevationFailed err

text \<open>\<open>ShellExecuteExW\<close> with \<open>runas\<close> (\<open>Inl None\<close> when the user declines) and the exit code of the new process.\<close>

record 'w elevation_api =
  el_exe :: "string + fpath"
  el_runas :: "fpath \<Rightarrow> string \<Rightarrow> 'w \<Rightarrow> (string option + unit) \<times> 'w"
  el_wait :: "'w \<Rightarrow> (string + u32) \<times> 'w"
  el_warn :: "'w \<Rightarrow> 'w"
  el_fail :: "err \<Rightarrow> 'w \<Rightarrow> 'w"

definition elevate_self_and_maybe_wait ::
  "'w elevation_api \<Rightarrow> string list \<Rightarrow> bool \<Rightarrow> 'w \<Rightarrow> (elevation_failure + unit) \<times> 'w" where
  "elevate_self_and_maybe_wait E args wait w =
     (case el_exe E of
        Inl e \<Rightarrow> (Inl (ElevationFailed (Msg e)), w)
      | Inr exe \<Rightarrow>
          (case el_runas E exe (quote_args args) w of
             (Inl None, w) \<Rightarrow> (Inl UacDeclined, w)
           | (Inl (Some e), w) \<Rightarrow> (Inl (ElevationFailed (Ctx ''ShellExecuteExW (runas) failed'' (Msg e))), w)
           | (Inr _, w) \<Rightarrow>
               if \<not> wait then (Inr (), w)
               else (case el_wait E w of
                       (Inl e, w) \<Rightarrow> (Inl (ElevationFailed (Ctx ''GetExitCodeProcess failed'' (Msg e))), w)
                     | (Inr code, w) \<Rightarrow>
                         if code \<noteq> 0 then (Inl (ElevationFailed (Msg (''Elevated setup failed with exit code '' @ dec (unat code)))), w)
                         else (Inr (), w))))"

definition elevation_error :: "elevation_failure \<Rightarrow> err" where
  "elevation_error f = (case f of UacDeclined \<Rightarrow> Msg ''Elevation was cancelled (UAC declined)'' | ElevationFailed e \<Rightarrow> e)"

definition show_elevation_failure :: "'w elevation_api \<Rightarrow> elevation_failure \<Rightarrow> 'w \<Rightarrow> 'w" where
  "show_elevation_failure E f w = (case f of UacDeclined \<Rightarrow> el_warn E w | ElevationFailed e \<Rightarrow> el_fail E e w)"

definition gui_mode :: "setup_mode \<Rightarrow> bool" where
  "gui_mode m \<longleftrightarrow> m \<in> {MdGui, MdRepair, MdUninstall, MdStartService}"

text \<open>\<open>ui\<close> and \<open>silent\<close> are the two ways the installer runs.\<close>

definition entry ::
  "'w elevation_api \<Rightarrow> bool \<Rightarrow> (setup_args \<Rightarrow> 'w \<Rightarrow> (unit, 'w) outcome) \<Rightarrow> (setup_args \<Rightarrow> setup_mode \<Rightarrow> 'w \<Rightarrow> (unit, 'w) outcome)
     \<Rightarrow> string list \<Rightarrow> 'w \<Rightarrow> (unit, 'w) outcome" where
  "entry E admin ui silent raw w =
     (case parse_args raw of
        Inl e \<Rightarrow> (Inl e, w)
      | Inr args \<Rightarrow>
          (case mode_of args of
             Inl e \<Rightarrow> (Inl e, w)
           | Inr mode \<Rightarrow>
               if \<not> admin
               then (case elevate_self_and_maybe_wait E raw (mode \<in> {MdSilentInstall, MdSilentUninstall}) w of
                       (Inr _, w) \<Rightarrow> (Inr (), w)
                     | (Inl f, w) \<Rightarrow> (Inl (elevation_error f), if gui_mode mode then show_elevation_failure E f w else w))
               else if gui_mode mode
               then (case ui args w of (Inr _, w) \<Rightarrow> (Inr (), w) | (Inl e, w) \<Rightarrow> (Inl e, el_fail E e w))
               else silent args mode w))"

section \<open>The silent mode tells the truth\<close>

lemma run_stages_done:
  "run_stages gs p w = ((es, p', Inr u), w') \<Longrightarrow> es = concat (map (\<lambda>g. [EvStep (sg_key g), EvStepDone (sg_key g)]) gs)"
  by (induction gs arbitrary: p w es) (auto split: prod.splits sum.splits)

lemma run_stages_steps:
  "run_stages gs p w = ((es, p', r), w') \<Longrightarrow> list_all (\<lambda>e. case e of EvDone _ _ \<Rightarrow> False | _ \<Rightarrow> True) es"
  by (induction gs arbitrary: p w es) (auto split: prod.splits sum.splits)

definition setup_steps :: "string list" where
  "setup_steps = [step_stop_service, step_unpack, step_install_core, step_shell_integration, step_start_service]"

text \<open>Every run of the installer is a series of steps with one report at its end.\<close>

lemma run_install_shape:
  assumes "run_install H A U form w = (evs, w')"
  shows "\<exists>es r rb. evs = es @ [EvDone r rb] \<and> list_all (\<lambda>e. case e of EvDone _ _ \<Rightarrow> False | _ \<Rightarrow> True) es
    \<and> (r = Inr () \<longrightarrow> es = concat (map (\<lambda>k. [EvStep k, EvStepDone k]) setup_steps))"
proof -
  obtain prev w1 where prev: "capture_prev_service (ho_scm H) w = (prev, w1)" by force
  obtain x w2 where prep: "prepare H A U prev w1 = (x, w2)" by force
  show ?thesis
  proof (cases x)
    case (Inl e)
    with assms prev prep have "evs = [] @ [EvDone (Inl e) NotNeeded]" by (simp add: run_install_def)
    then show ?thesis by (intro exI [of _ "[]"] exI [of _ "Inl e"]) auto
  next
    case (Inr b)
    from prepared_run [OF prev prep [unfolded Inr] assms] obtain es p r w3 rb where
      s: "run_stages (stages H A U form b) no_progress w2 = ((es, p, r), w3)" and e: "evs = es @ [EvDone r rb]"
      by (auto split: sum.splits) (metis old.sum.exhaust old.unit.exhaust)
    have "es = concat (map (\<lambda>k. [EvStep k, EvStepDone k]) setup_steps)" if "r = Inr ()"
      using run_stages_done [OF s [unfolded that]] by (simp add: stages_def setup_steps_def)
    with e run_stages_steps [OF s] show ?thesis by blast
  qed
qed

definition step_line :: "install_event \<Rightarrow> console_line" where
  "step_line e = (case e of EvStep k \<Rightarrow> OutLine (''== '' @ step_label_en k) | EvStepDone k \<Rightarrow> OutLine (''ok '' @ step_label_en k)
     | EvDone _ _ \<Rightarrow> OutLine [])"

lemma silent_events_eq:
  assumes "list_all (\<lambda>e. case e of EvDone _ _ \<Rightarrow> False | _ \<Rightarrow> True) es"
  shows "silent_events dir (map work_event_of (es @ [EvDone r rb])) =
    (case r of
       Inr _ \<Rightarrow> (map step_line es @ [OutLine (''Install complete: '' @ dir)], ExitOk)
     | Inl e \<Rightarrow> (map step_line es @ ErrLine (Ctx ''FAILED'' e) # (case rollback_line_en rb of Some line \<Rightarrow> [ErrLine line] | None \<Rightarrow> []),
         ExitCode 1))"
  using assms
  by (induction es) (auto simp: work_event_of_def step_line_def split: sum.split install_event.splits)

definition restored_line :: console_line where
  "restored_line = ErrLine (Msg ''Rolled back to the previous service.'')"

lemma step_line_out: "step_line e \<noteq> ErrLine x"
  by (simp add: step_line_def split: install_event.split)

lemma step_line_progress: "step_line e \<noteq> OutLine (CHR ''I'' # s)"
  by (simp add: step_line_def split: install_event.split)

text \<open>
  C28 (error). What the silent installer prints is true. It says that the installation is complete exactly when
  it exits with success, and then it has printed the beginning and the end of each of the five steps, in order.
  If it says that it rolled back, the service is registered as before and running again if it was running. If
  it exits with an error and says nothing of a rollback, then no file, no registry value and no service is
  different from before.
\<close>

theorem silent_install_tells_the_truth:
  assumes "setup_laws H U R norm V" and "silent_install H A U args w = ((ls, x), w')"
  shows "(x = ExitOk \<longleftrightarrow> OutLine (''Install complete: '' @ install_dir (sa_program_files A)) \<in> set ls)
    \<and> (x = ExitOk \<longrightarrow> ls = concat (map (\<lambda>k. [OutLine (''== '' @ step_label_en k), OutLine (''ok '' @ step_label_en k)]) setup_steps)
         @ [OutLine (''Install complete: '' @ install_dir (sa_program_files A))])
    \<and> (restored_line \<in> set ls \<longrightarrow> x = ExitCode 1 \<and> same_reg (V w') (V w)
         \<and> (\<forall>s. V w = Some s \<and> sv_state s = SvRunning \<longrightarrow> (\<exists>s'. V w' = Some s' \<and> sv_state s' \<noteq> SvStopped)))
    \<and> (x \<noteq> ExitOk \<and> restored_line \<notin> set ls \<and> (\<forall>e. ErrLine (Ctx ''ROLLBACK FAILED'' e) \<notin> set ls)
         \<longrightarrow> nodes w' = nodes w \<and> R w' = R w \<and> V w' = V w)"
proof (cases "ag_keep_password args")
  case False
  with assms(2) show ?thesis by (auto simp: silent_install_def)
next
  case True
  let ?form = "\<lparr>fm_student_id = [], fm_password = None\<rparr>"
  obtain evs where run: "run_install H A U ?form w = (evs, w')"
    and out: "silent_events (install_dir (sa_program_files A)) (map work_event_of evs) = (ls, x)"
    using assms(2) True by (auto simp: silent_install_def split: prod.splits)
  obtain es r rb where e: "evs = es @ [EvDone r rb]" "list_all (\<lambda>e. case e of EvDone _ _ \<Rightarrow> False | _ \<Rightarrow> True) es"
    and all: "r = Inr () \<longrightarrow> es = concat (map (\<lambda>k. [EvStep k, EvStepDone k]) setup_steps)"
    using run_install_shape [OF run] by blast
  note out = out [unfolded e(1) silent_events_eq [OF e(2)]]
  have steps: "ErrLine y \<notin> set (map step_line es) \<and> OutLine (''Install complete: '' @ d) \<notin> set (map step_line es)" for y d
    by (simp add: image_iff step_line_out [symmetric] step_line_progress [symmetric])
  show ?thesis
  proof (cases r)
    case (Inr u)
    have "map step_line es = concat (map (\<lambda>k. [OutLine (''== '' @ step_label_en k), OutLine (''ok '' @ step_label_en k)]) setup_steps)"
      using all Inr by (simp add: setup_steps_def step_line_def)
    with out Inr steps show ?thesis by (auto simp: restored_line_def)
  next
    case (Inl d)
    from failed_run_outcome [OF assms(1) run [unfolded e(1) Inl]] out Inl steps show ?thesis
      by (cases rb) (auto simp: restored_line_def rollback_line_en_def)
  qed
qed

theorem silent_install_tells_the_truth_witness:
  "\<exists>ls x w'. silent_install (demo_host 0) setup_shell setup_tools (setup_args_default\<lparr>ag_silent := True, ag_keep_password := True\<rparr>) setup_machine
       = ((ls, x), w')
    \<and> (restored_line \<in> set ls \<longrightarrow> x = ExitCode 1 \<and> same_reg (demo_service_of w') (Some demo_service))"
proof -
  obtain ls x w' where s: "silent_install (demo_host 0) setup_shell setup_tools
      (setup_args_default\<lparr>ag_silent := True, ag_keep_password := True\<rparr>) setup_machine = ((ls, x), w')"
    by (metis prod.exhaust)
  have "demo_service_of setup_machine = Some demo_service"
    by (simp add: demo_service_of_def setup_machine_def demo_machine_def)
  then have "restored_line \<in> set ls \<longrightarrow> x = ExitCode 1 \<and> same_reg (demo_service_of w') (Some demo_service)"
    using silent_install_tells_the_truth [OF setup_calls s] by metis
  with s show ?thesis by blast
qed

section \<open>Waiting for the dial result ends\<close>

lemma await_dial_enough:
  assumes "clock_laws S T" "\<And>w. T w \<le> T (snd (query w))"
    and "deadline \<le> T w + n * dial_poll" "deadline \<le> T w + m * dial_poll"
  shows "await_dial S query (Suc n) deadline w = await_dial S query (Suc m) deadline w"
  using assms(3,4)
proof (induction n arbitrary: m w)
  case 0
  obtain r w1 where q: "query w = (r, w1)" by force
  obtain now w2 where now: "sc_now S w1 = (now, w2)" by force
  have "deadline \<le> now" using 0 assms(2) [of w] q clock_now [OF assms(1) now] by simp
  with q now show ?case by simp
next
  case (Suc n)
  obtain r w1 where q: "query w = (r, w1)" by force
  obtain now w2 where now: "sc_now S w1 = (now, w2)" by force
  have t: "T w \<le> now" "now \<le> T w2" using assms(2) [of w] q clock_now [OF assms(1) now] by auto
  show ?case
  proof (cases "deadline \<le> now")
    case False
    with Suc.prems t have "m \<noteq> 0" by (cases m) auto
    then obtain k where m: "m = Suc k" using not0_implies_Suc by blast
    have "T w + dial_poll \<le> T (sc_sleep S dial_poll w2)" using clock_sleep [OF assms(1), of w2 dial_poll] t by linarith
    with Suc.prems m have "await_dial S query (Suc n) deadline (sc_sleep S dial_poll w2)
        = await_dial S query (Suc k) deadline (sc_sleep S dial_poll w2)"
      by (intro Suc.IH) auto
    with q now m False show ?thesis by simp
  qed (use q now in simp)
qed

end
