(* ===== verification/Setup_Ui.thy ===== *)
theory Setup_Ui
  imports Setup_Work
begin

text \<open>
  The wizard of the installer, \<open>src/src/setup/ui.rs\<close>: its pages, the work it starts in a thread and the events it
  takes from it. A frame draws one page and applies what the user did in it; the toolkit reports at most one
  clicked widget in a frame. Colours, sizes and the Chinese texts are left out: a text is a constructor that says
  what is told to the user, with the values it shows. A row is known by the key of its step; the label an event
  carries beside the key is a text too, so the status line keeps the key.
\<close>

section \<open>State\<close>

datatype page = PgWelcome | PgAccount | PgProgress | PgDone | PgMaintenance | PgUninstallConfirm | PgUninstallDone | PgStartService

datatype row_status = RowRunning | RowDone | RowSkipped | RowFailed err

record step_row =
  rw_key :: string
  rw_status :: row_status

text \<open>The receiving end of the channel: what is in it, and whether the thread still holds the sending end.\<close>

datatype receiver = Receiver "work_event list" bool

datatype form_error = NeedStudentId | NeedPassword

record setup_app =
  ua_args :: setup_args
  ua_state :: install_state
  ua_font_ok :: bool
  ua_page :: page
  ua_error :: "form_error option"
  ua_student_id :: string
  ua_password :: string
  ua_keep_existing :: bool
  ua_has_existing :: "string option"
  ua_rx :: "receiver option"
  ua_steps :: "step_row list"
  ua_result :: "(err + unit) option"
  ua_rollback :: "rollback_outcome option"
  ua_status_line :: "string option"
  ua_uninstalling :: bool
  ua_purge :: bool

definition first_page :: "setup_args \<Rightarrow> install_state \<Rightarrow> page" where
  "first_page args state =
     (case (case mode_of args of Inr m \<Rightarrow> m | Inl _ \<Rightarrow> MdGui) of
        MdRepair \<Rightarrow> PgMaintenance
      | MdUninstall \<Rightarrow> (case state of Installed _ _ \<Rightarrow> PgUninstallConfirm | _ \<Rightarrow> PgMaintenance)
      | MdStartService \<Rightarrow> PgStartService
      | _ \<Rightarrow> (case state of NotInstalled \<Rightarrow> PgWelcome | _ \<Rightarrow> PgMaintenance))"

text \<open>\<open>existing\<close> is what \<open>existing_account\<close> returns for the configuration.\<close>

definition setup_app_new :: "setup_args \<Rightarrow> install_state \<Rightarrow> bool \<Rightarrow> string option \<Rightarrow> setup_app" where
  "setup_app_new args state font_ok existing =
     \<lparr>ua_args = args, ua_state = state, ua_font_ok = font_ok, ua_page = first_page args state, ua_error = None,
      ua_student_id = (case existing of Some s \<Rightarrow> s | None \<Rightarrow> []), ua_password = [],
      ua_keep_existing = (existing \<noteq> None), ua_has_existing = existing, ua_rx = None, ua_steps = [],
      ua_result = None, ua_rollback = None, ua_status_line = None, ua_uninstalling = False, ua_purge = False\<rparr>"

section \<open>Starting work\<close>

datatype job = JobInstall setup_args string "string option" | JobUninstall bool bool | JobStartService

definition new_channel :: receiver where "new_channel = Receiver [] True"

definition start_install :: "setup_app \<Rightarrow> job \<times> setup_app" where
  "start_install a =
     (JobInstall (ua_args a) (trim (ua_student_id a)) (if ua_keep_existing a then None else Some (ua_password a)),
      a\<lparr>ua_error := None, ua_steps := [], ua_result := None, ua_rollback := None, ua_status_line := None,
        ua_uninstalling := False, ua_rx := Some new_channel, ua_page := PgProgress\<rparr>)"

definition start_uninstall :: "setup_app \<Rightarrow> job \<times> setup_app" where
  "start_uninstall a =
     (JobUninstall (ua_purge a) True,
      a\<lparr>ua_error := None, ua_steps := [], ua_result := None, ua_rollback := None, ua_status_line := None,
        ua_uninstalling := True, ua_rx := Some new_channel, ua_page := PgProgress\<rparr>)"

section \<open>Taking the events\<close>

text \<open>The last row of a key gets the outcome; an unknown key gets a row of its own.\<close>

fun finish_first :: "string \<Rightarrow> row_status \<Rightarrow> step_row list \<Rightarrow> step_row list option" where
  "finish_first key st [] = None"
| "finish_first key st (r # rs) =
     (if rw_key r = key then Some (r\<lparr>rw_status := st\<rparr> # rs) else map_option (Cons r) (finish_first key st rs))"

definition finish_rows :: "string \<Rightarrow> row_status \<Rightarrow> step_row list \<Rightarrow> step_row list" where
  "finish_rows key st shown =
     (case finish_first key st (rev shown) of
        Some rs \<Rightarrow> rev rs
      | None \<Rightarrow> shown @ [\<lparr>rw_key = key, rw_status = st\<rparr>])"

definition finish_step :: "string \<Rightarrow> row_status \<Rightarrow> setup_app \<Rightarrow> setup_app" where
  "finish_step key st a = a\<lparr>ua_steps := finish_rows key st (ua_steps a)\<rparr>"

definition row_status_of :: "step_outcome \<Rightarrow> row_status" where
  "row_status_of out = (case out of OutDone \<Rightarrow> RowDone | OutSkipped \<Rightarrow> RowSkipped | OutFailed e \<Rightarrow> RowFailed e)"

fun take_event :: "work_event \<Rightarrow> setup_app \<times> (err + unit) option \<Rightarrow> setup_app \<times> (err + unit) option" where
  "take_event (WkStep key) (a, r) = (a\<lparr>ua_steps := ua_steps a @ [\<lparr>rw_key = key, rw_status = RowRunning\<rparr>]\<rparr>, r)"
| "take_event (WkStepDone key) (a, r) =
     (finish_step key RowDone (if key = step_wait_dial then a\<lparr>ua_status_line := Some key\<rparr> else a), r)"
| "take_event (WkStepFinished key out) (a, r) = (finish_step key (row_status_of out) a, r)"
| "take_event (WkDone res rb) (a, r) = (a\<lparr>ua_rollback := Some rb\<rparr>, Some res)"

definition thread_gone :: err where "thread_gone = Msg ''the worker thread ended unexpectedly, see the logs''"

definition drain_events :: "setup_app \<Rightarrow> (err + unit) option \<times> setup_app" where
  "drain_events a =
     (case ua_rx a of
        None \<Rightarrow> (None, a)
      | Some (Receiver q alive) \<Rightarrow>
          (case fold take_event q (a, None) of (a, r) \<Rightarrow>
             (if r = None \<and> \<not> alive then Some (Inl thread_gone) else r, a\<lparr>ua_rx := Some (Receiver [] alive)\<rparr>)))"

section \<open>Pages\<close>

datatype button = BtnBegin | BtnInstall | BtnReturn | BtnOpenTray | BtnOpenLogs | BtnRetry | BtnClose
  | BtnRepair | BtnUninstall | BtnCancel | ChkKeep | ChkPurge

text \<open>What the user did in a frame, and what \<open>existing_account\<close> returns if it is asked for.\<close>

record ui_input =
  in_click :: "button option"
  in_student_id :: "string option"
  in_password :: "string option"
  in_existing :: "string option"

datatype told = TellWelcome | TellFormError form_error | TellBusy bool | TellRow step_row | TellEnd bool bool
  | TellServiceStarted | TellStatusLine string | TellInstallFailed err | TellRestored | TellRestoredUnknown
  | TellRollbackFailed err | TellRetryHint | TellNoResult | TellInstalled "fpath option" "string option" | TellNotInstalled
  | TellStateUnknown | TellRemovalPlan | TellPurgeWarning | TellDataKept | TellUninstalled | TellDataDeleted
  | TellDataWasKept | TellDirScheduled | TellUninstallFailed err | TellUninstallHint | TellStarting
  | TellStartFailed err | TellNoFont

datatype ui_out = Tell told | Spawn job | CloseWindow | OpenTray | OpenLogs

definition welcome_page :: "ui_input \<Rightarrow> setup_app \<Rightarrow> ui_out list \<times> setup_app" where
  "welcome_page i a = ([Tell TellWelcome], if in_click i = Some BtnBegin then a\<lparr>ua_page := PgAccount\<rparr> else a)"

definition edit_form :: "ui_input \<Rightarrow> setup_app \<Rightarrow> setup_app" where
  "edit_form i a =
     (let a = (case in_student_id i of Some s \<Rightarrow> a\<lparr>ua_student_id := s\<rparr> | None \<Rightarrow> a);
          a = (case in_password i of Some p \<Rightarrow> if ua_keep_existing a then a else a\<lparr>ua_password := p\<rparr> | None \<Rightarrow> a)
      in if ua_has_existing a \<noteq> None \<and> in_click i = Some ChkKeep
         then a\<lparr>ua_keep_existing := \<not> ua_keep_existing a\<rparr> else a)"

definition account_page :: "ui_input \<Rightarrow> setup_app \<Rightarrow> ui_out list \<times> setup_app" where
  "account_page i a =
     (let a = edit_form i a;
          told = (case ua_error a of Some e \<Rightarrow> [Tell (TellFormError e)] | None \<Rightarrow> [])
      in case in_click i of
           Some BtnInstall \<Rightarrow>
             if trim (ua_student_id a) = [] then (told, a\<lparr>ua_error := Some NeedStudentId\<rparr>)
             else if \<not> ua_keep_existing a \<and> ua_password a = [] then (told, a\<lparr>ua_error := Some NeedPassword\<rparr>)
             else (case start_install a of (j, a) \<Rightarrow> (told @ [Spawn j], a))
         | Some BtnReturn \<Rightarrow>
             (told, a\<lparr>ua_error := None, ua_page := (case ua_state a of NotInstalled \<Rightarrow> PgWelcome | _ \<Rightarrow> PgMaintenance)\<rparr>)
         | _ \<Rightarrow> (told, a))"

text \<open>The rows of the work, and how it ended: whether it failed, and which work it was.\<close>

definition step_receipt :: "setup_app \<Rightarrow> ui_out list" where
  "step_receipt a =
     map (Tell \<circ> TellRow) (ua_steps a)
     @ (case ua_result a of Some r \<Rightarrow> [Tell (TellEnd (isl r) (ua_uninstalling a))] | None \<Rightarrow> [])"

definition progress_page :: "ui_input \<Rightarrow> setup_app \<Rightarrow> ui_out list \<times> setup_app" where
  "progress_page i a =
     (case drain_events a of (r, a) \<Rightarrow>
        (let a = (case r of
                    Some r \<Rightarrow> a\<lparr>ua_result := Some r, ua_page := (if ua_uninstalling a then PgUninstallDone else PgDone)\<rparr>
                  | None \<Rightarrow> a)
         in (step_receipt a @ (if ua_result a = None then [Tell (TellBusy (ua_uninstalling a))] else []), a)))"

definition status_told :: "setup_app \<Rightarrow> ui_out list" where
  "status_told a = (case ua_status_line a of Some l \<Rightarrow> [Tell (TellStatusLine l)] | None \<Rightarrow> [])"

definition tray_or_close :: "ui_input \<Rightarrow> ui_out list" where
  "tray_or_close i = (case in_click i of Some BtnOpenTray \<Rightarrow> [OpenTray] | Some BtnClose \<Rightarrow> [CloseWindow] | _ \<Rightarrow> [])"

definition rollback_told :: "rollback_outcome option \<Rightarrow> told" where
  "rollback_told rb =
     (case rb of
        Some Restored \<Rightarrow> TellRestored
      | Some RestoredUnknown \<Rightarrow> TellRestoredUnknown
      | Some (RollbackFailed e) \<Rightarrow> TellRollbackFailed e
      | _ \<Rightarrow> TellRetryHint)"

definition done_page :: "ui_input \<Rightarrow> setup_app \<Rightarrow> ui_out list \<times> setup_app" where
  "done_page i a =
     (case ua_result a of
        Some (Inr _) \<Rightarrow> (step_receipt a @ [Tell TellServiceStarted] @ status_told a @ tray_or_close i, a)
      | Some (Inl e) \<Rightarrow>
          (let told = [Tell (TellInstallFailed e), Tell (rollback_told (ua_rollback a))]
           in case in_click i of
                Some BtnOpenLogs \<Rightarrow> (told @ [OpenLogs], a)
              | Some BtnRetry \<Rightarrow> (told, a\<lparr>ua_error := None, ua_result := None, ua_page := PgAccount\<rparr>)
              | Some BtnClose \<Rightarrow> (told @ [CloseWindow], a)
              | _ \<Rightarrow> (told, a))
      | None \<Rightarrow> ([Tell TellNoResult], if in_click i = Some BtnReturn then a\<lparr>ua_page := PgAccount\<rparr> else a))"

definition install_location :: "string \<Rightarrow> fpath" where
  "install_location exe = (case path_parent (path_of exe) of Some p \<Rightarrow> p | None \<Rightarrow> path_of exe)"

definition state_told :: "install_state \<Rightarrow> told" where
  "state_told s =
     (case s of
        Installed exe version \<Rightarrow> TellInstalled (map_option install_location exe) version
      | NotInstalled \<Rightarrow> TellNotInstalled
      | StateUnknown \<Rightarrow> TellStateUnknown)"

definition maintenance_page :: "ui_input \<Rightarrow> setup_app \<Rightarrow> ui_out list \<times> setup_app" where
  "maintenance_page i a =
     (let told = [Tell (state_told (ua_state a))]
      in case in_click i of
           Some BtnRepair \<Rightarrow>
             (told, a\<lparr>ua_has_existing := in_existing i, ua_student_id := (case in_existing i of Some s \<Rightarrow> s | None \<Rightarrow> []),
                      ua_keep_existing := (in_existing i \<noteq> None), ua_password := [], ua_error := None,
                      ua_page := PgAccount\<rparr>)
         | Some BtnUninstall \<Rightarrow>
             (told, case ua_state a of
                      Installed _ _ \<Rightarrow> a\<lparr>ua_purge := False, ua_page := PgUninstallConfirm\<rparr>
                    | _ \<Rightarrow> a)
         | Some BtnClose \<Rightarrow> (told @ [CloseWindow], a)
         | _ \<Rightarrow> (told, a))"

definition uninstall_confirm_page :: "ui_input \<Rightarrow> setup_app \<Rightarrow> ui_out list \<times> setup_app" where
  "uninstall_confirm_page i a =
     (let a = (if in_click i = Some ChkPurge then a\<lparr>ua_purge := \<not> ua_purge a\<rparr> else a);
          told = [Tell TellRemovalPlan, Tell (if ua_purge a then TellPurgeWarning else TellDataKept)]
      in case in_click i of
           Some BtnUninstall \<Rightarrow> (case start_uninstall a of (j, a) \<Rightarrow> (told @ [Spawn j], a))
         | Some BtnCancel \<Rightarrow> (told, a\<lparr>ua_page := PgMaintenance\<rparr>)
         | _ \<Rightarrow> (told, a))"

definition uninstall_done_page :: "ui_input \<Rightarrow> setup_app \<Rightarrow> ui_out list \<times> setup_app" where
  "uninstall_done_page i a =
     (case ua_result a of
        Some (Inr _) \<Rightarrow>
          (step_receipt a @ [Tell TellUninstalled, Tell (if ua_purge a then TellDataDeleted else TellDataWasKept), Tell TellDirScheduled]
             @ (if in_click i = Some BtnClose then [CloseWindow] else []), a)
      | Some (Inl e) \<Rightarrow>
          (let told = [Tell (TellUninstallFailed e), Tell TellUninstallHint]
           in case in_click i of
                Some BtnOpenLogs \<Rightarrow> (told @ [OpenLogs], a)
              | Some BtnRetry \<Rightarrow> (told, a\<lparr>ua_result := None, ua_rx := None, ua_page := PgUninstallConfirm\<rparr>)
              | Some BtnClose \<Rightarrow> (told @ [CloseWindow], a)
              | _ \<Rightarrow> (told, a))
      | None \<Rightarrow> ([Tell TellNoResult], if in_click i = Some BtnReturn then a\<lparr>ua_page := PgMaintenance\<rparr> else a))"

text \<open>The page that starts the service begins in its first frame, and again after a retry.\<close>

definition start_if_idle :: "setup_app \<Rightarrow> ui_out list \<times> setup_app" where
  "start_if_idle a =
     (if ua_rx a = None \<and> ua_result a = None
      then ([Spawn JobStartService], a\<lparr>ua_steps := [], ua_status_line := None, ua_rx := Some new_channel\<rparr>)
      else ([], a))"

definition start_result :: "ui_input \<Rightarrow> setup_app \<Rightarrow> ui_out list \<times> setup_app" where
  "start_result i a =
     (case ua_result a of
        None \<Rightarrow> (step_receipt a @ [Tell TellStarting], a)
      | Some (Inr _) \<Rightarrow> (step_receipt a @ [Tell TellServiceStarted] @ status_told a @ tray_or_close i, a)
      | Some (Inl e) \<Rightarrow>
          (let told = [Tell (TellStartFailed e)]
           in case in_click i of
                Some BtnOpenLogs \<Rightarrow> (told @ [OpenLogs], a)
              | Some BtnRetry \<Rightarrow> (told, a\<lparr>ua_result := None, ua_rx := None\<rparr>)
              | Some BtnReturn \<Rightarrow> (told, a\<lparr>ua_page := PgMaintenance\<rparr>)
              | _ \<Rightarrow> (told, a)))"

definition start_service_page :: "ui_input \<Rightarrow> setup_app \<Rightarrow> ui_out list \<times> setup_app" where
  "start_service_page i a =
     (case start_if_idle a of (spawned, a) \<Rightarrow>
      case drain_events a of (r, a) \<Rightarrow>
        (let a = (case r of Some r \<Rightarrow> a\<lparr>ua_result := Some r, ua_rx := None\<rparr> | None \<Rightarrow> a)
         in case start_result i a of (outs, a) \<Rightarrow> (spawned @ outs, a)))"

text \<open>A frame; without a font for Chinese nothing but an English notice is drawn.\<close>

definition ui_frame :: "ui_input \<Rightarrow> setup_app \<Rightarrow> ui_out list \<times> setup_app" where
  "ui_frame i a =
     (if \<not> ua_font_ok a then ([Tell TellNoFont], a)
      else (case ua_page a of
              PgWelcome \<Rightarrow> welcome_page i a
            | PgAccount \<Rightarrow> account_page i a
            | PgProgress \<Rightarrow> progress_page i a
            | PgDone \<Rightarrow> done_page i a
            | PgMaintenance \<Rightarrow> maintenance_page i a
            | PgUninstallConfirm \<Rightarrow> uninstall_confirm_page i a
            | PgUninstallDone \<Rightarrow> uninstall_done_page i a
            | PgStartService \<Rightarrow> start_service_page i a))"

section \<open>The wizard and the thread it starts\<close>

text \<open>
  \<open>wz_job\<close> is the work started last, \<open>wz_live\<close> says that its thread runs, \<open>wz_end\<close> is the report it ended with,
  \<open>None\<close> when it has not ended or died. The report is the last thing a thread sends.
\<close>

record wizard =
  wz_app :: setup_app
  wz_job :: "job option"
  wz_live :: bool
  wz_end :: "((err + unit) \<times> rollback_outcome) option"

datatype wz_step = Frame ui_input | Sends work_event | Reports "err + unit" rollback_outcome | Dies

definition wizard_new :: "setup_args \<Rightarrow> install_state \<Rightarrow> bool \<Rightarrow> string option \<Rightarrow> wizard" where
  "wizard_new args state font_ok existing =
     \<lparr>wz_app = setup_app_new args state font_ok existing, wz_job = None, wz_live = False, wz_end = None\<rparr>"

definition feed_rx :: "work_event list \<Rightarrow> bool \<Rightarrow> setup_app \<Rightarrow> setup_app" where
  "feed_rx es alive a =
     a\<lparr>ua_rx := map_option (\<lambda>rx. case rx of Receiver q _ \<Rightarrow> Receiver (q @ es) alive) (ua_rx a)\<rparr>"

definition is_report :: "work_event \<Rightarrow> bool" where
  "is_report e = (case e of WkDone _ _ \<Rightarrow> True | _ \<Rightarrow> False)"

fun started :: "ui_out list \<Rightarrow> job option" where
  "started [] = None"
| "started (Spawn j # os) = Some j"
| "started (_ # os) = started os"

fun wz_do :: "wz_step \<Rightarrow> wizard \<Rightarrow> (ui_out list \<times> wizard) option" where
  "wz_do (Frame i) w =
     (case ui_frame i (wz_app w) of (outs, a) \<Rightarrow>
        Some (outs, case started outs of
                      Some j \<Rightarrow> \<lparr>wz_app = a, wz_job = Some j, wz_live = True, wz_end = None\<rparr>
                    | None \<Rightarrow> w\<lparr>wz_app := a\<rparr>))"
| "wz_do (Sends e) w =
     (if wz_live w \<and> \<not> is_report e then Some ([], w\<lparr>wz_app := feed_rx [e] True (wz_app w)\<rparr>) else None)"
| "wz_do (Reports r rb) w =
     (if wz_live w
      then Some ([], w\<lparr>wz_app := feed_rx [WkDone r rb] False (wz_app w), wz_live := False, wz_end := Some (r, rb)\<rparr>)
      else None)"
| "wz_do Dies w =
     (if wz_live w then Some ([], w\<lparr>wz_app := feed_rx [] False (wz_app w), wz_live := False\<rparr>) else None)"

inductive wz_run :: "wizard \<Rightarrow> (wz_step \<times> ui_out list) list \<Rightarrow> wizard \<Rightarrow> bool" for w0 where
  begin_run: "wz_run w0 [] w0"
| more_run: "wz_run w0 tr w \<Longrightarrow> wz_do s w = Some (outs, w') \<Longrightarrow> wz_run w0 (tr @ [(s, outs)]) w'"

end
