(* ===== verification/Setup_Ui_Props.thy ===== *)
theory Setup_Ui_Props
  imports Setup_Ui
begin

text \<open>
  The window of the installer together with the thread it starts: the invariant of the pages, what may be started,
  and what the last page claims.
\<close>

section \<open>What the wizard knows of its thread\<close>

definition no_report :: "work_event list \<Rightarrow> bool" where
  "no_report q \<longleftrightarrow> list_all (\<lambda>e. \<not> is_report e) q"

text \<open>The channel holds what the thread sent since the last frame, with its report at the end.\<close>

definition waiting :: "wizard \<Rightarrow> bool" where
  "waiting w \<longleftrightarrow> ua_result (wz_app w) = None \<and> (wz_live w \<longrightarrow> wz_end w = None) \<and>
     (\<exists>q. no_report q \<and> ua_rx (wz_app w) = Some (Receiver
        (q @ (case wz_end w of Some (r, rb) \<Rightarrow> [WkDone r rb] | None \<Rightarrow> [])) (wz_live w)))"

definition outcome_shown :: "wizard \<Rightarrow> err + unit" where
  "outcome_shown w = (case wz_end w of Some (r, _) \<Rightarrow> r | None \<Rightarrow> Inl thread_gone)"

lemma outcome_shown_app [simp]: "outcome_shown (w\<lparr>wz_app := a\<rparr>) = outcome_shown w"
  by (simp add: outcome_shown_def)

definition finished :: "wizard \<Rightarrow> bool" where
  "finished w \<longleftrightarrow> \<not> wz_live w \<and> ua_result (wz_app w) = Some (outcome_shown w)"

definition installing :: "job option \<Rightarrow> bool" where
  "installing j \<longleftrightarrow> (\<exists>args id pw. j = Some (JobInstall args id pw))"

definition wz_inv :: "wizard \<Rightarrow> bool" where
  "wz_inv w \<longleftrightarrow>
     (let a = wz_app w in
      case ua_page a of
        PgProgress \<Rightarrow> waiting w \<and> ua_rollback a = None
          \<and> (if ua_uninstalling a then wz_job w = Some (JobUninstall (ua_purge a) True) else installing (wz_job w))
      | PgDone \<Rightarrow> finished w \<and> installing (wz_job w) \<and> ua_rollback a = map_option snd (wz_end w)
      | PgUninstallDone \<Rightarrow> finished w \<and> wz_job w = Some (JobUninstall (ua_purge a) True)
      | PgStartService \<Rightarrow>
          (if ua_rx a \<noteq> None then waiting w \<and> wz_job w = Some JobStartService
           else \<not> wz_live w \<and> (ua_result a \<noteq> None \<longrightarrow> finished w \<and> wz_job w = Some JobStartService))
      | _ \<Rightarrow> \<not> wz_live w)"

lemma fold_no_report:
  "no_report q \<Longrightarrow> \<exists>rows line. fold take_event q (a, r) = (a\<lparr>ua_steps := rows, ua_status_line := line\<rparr>, r)"
proof (induction q arbitrary: a)
  case Nil
  have "a = a\<lparr>ua_steps := ua_steps a, ua_status_line := ua_status_line a\<rparr>" by simp
  then show ?case by (metis fold_simps(1))
next
  case (Cons e q)
  from Cons.prems have q: "no_report q" and e: "\<not> is_report e" by (simp_all add: no_report_def)
  obtain rows line where "take_event e (a, r) = (a\<lparr>ua_steps := rows, ua_status_line := line\<rparr>, r)"
  proof (cases e)
    case (WkStepDone key)
    then show ?thesis using that [of "if key = step_wait_dial then Some key else ua_status_line a" "finish_rows key RowDone (ua_steps a)"]
      by (cases "key = step_wait_dial") (simp_all add: finish_step_def)
  next
    case (WkStep key)
    then show ?thesis using that [of "ua_status_line a"] by simp
  next
    case (WkStepFinished key out)
    then show ?thesis using that [of "ua_status_line a"] by (simp add: finish_step_def)
  next
    case (WkDone r' rb)
    with e show ?thesis by (simp add: is_report_def)
  qed
  with Cons.IH [OF q, of "a\<lparr>ua_steps := rows, ua_status_line := line\<rparr>"] show ?case by auto
qed

lemma drain_waiting:
  assumes "waiting w"
  shows "\<exists>rows line. drain_events (wz_app w) =
    (if wz_live w then None else Some (outcome_shown w),
     (wz_app w)\<lparr>ua_steps := rows, ua_status_line := line, ua_rx := Some (Receiver [] (wz_live w)),
       ua_rollback := (case wz_end w of Some (_, rb) \<Rightarrow> Some rb | None \<Rightarrow> ua_rollback (wz_app w))\<rparr>)"
proof -
  obtain q where q: "no_report q" and l: "wz_live w \<longrightarrow> wz_end w = None" and rx: "ua_rx (wz_app w) = Some (Receiver
        (q @ (case wz_end w of Some (r, rb) \<Rightarrow> [WkDone r rb] | None \<Rightarrow> [])) (wz_live w))"
    using assms by (auto simp: waiting_def)
  obtain rows line where f: "fold take_event q (wz_app w, None) = ((wz_app w)\<lparr>ua_steps := rows, ua_status_line := line\<rparr>, None)"
    using fold_no_report [OF q] by blast
  show ?thesis
    by (intro exI [of _ rows] exI [of _ line], cases "wz_end w")
      (use rx f l in \<open>auto simp: drain_events_def outcome_shown_def\<close>)
qed

text \<open>The thread's own steps.\<close>

lemma inv_live:
  assumes "wz_inv w" "wz_live w"
  shows "waiting w" "ua_page (wz_app w) \<in> {PgProgress, PgStartService}"
  using assms by (auto simp: wz_inv_def Let_def finished_def split: page.splits if_splits)

lemma waiting_fed:
  assumes "waiting w" "wz_live w" "no_report es"
  shows "waiting (w\<lparr>wz_app := feed_rx es l (wz_app w), wz_live := l\<rparr>)"
    and "waiting (w\<lparr>wz_app := feed_rx [WkDone r rb] False (wz_app w), wz_live := False, wz_end := Some (r, rb)\<rparr>)"
  using assms by (auto simp: waiting_def feed_rx_def no_report_def)

lemma thread_keeps:
  assumes inv: "wz_inv w" and s: "wz_do s w = Some (outs, w')" and s': "\<nexists>i. s = Frame i"
  shows "wz_inv w'" and "outs = []"
proof -
  from s s' have live: "wz_live w" by (cases s) (auto split: if_splits)
  note wt = inv_live [OF inv live]
  have rx: "ua_rx (wz_app w) \<noteq> None" using wt(1) by (auto simp: waiting_def)
  have "waiting w' \<and> wz_job w' = wz_job w \<and> ua_page (wz_app w') = ua_page (wz_app w) \<and> ua_rx (wz_app w') \<noteq> None
    \<and> ua_rollback (wz_app w') = ua_rollback (wz_app w) \<and> ua_uninstalling (wz_app w') = ua_uninstalling (wz_app w)
    \<and> ua_purge (wz_app w') = ua_purge (wz_app w)"
  proof (cases s)
    case (Frame i) with s' show ?thesis by blast
  next
    case (Sends e)
    with s live have "\<not> is_report e" and w': "w' = w\<lparr>wz_app := feed_rx [e] True (wz_app w)\<rparr>" by (auto split: if_splits)
    moreover from w' live have "w' = w\<lparr>wz_app := feed_rx [e] True (wz_app w), wz_live := True\<rparr>" by (cases w) simp
    ultimately have "waiting w'" using waiting_fed(1) [OF wt(1) live, of "[e]" True] by (simp add: no_report_def)
    with w' show ?thesis by (auto simp: feed_rx_def waiting_def)
  next
    case (Reports r rb)
    with s live have w': "w' = w\<lparr>wz_app := feed_rx [WkDone r rb] False (wz_app w), wz_live := False, wz_end := Some (r, rb)\<rparr>"
      by (auto split: if_splits)
    with waiting_fed(2) [OF wt(1) live, of "[]"] have "waiting w'" by (simp add: no_report_def)
    with w' show ?thesis by (auto simp: feed_rx_def waiting_def)
  next
    case Dies
    with s live have w': "w' = w\<lparr>wz_app := feed_rx [] False (wz_app w), wz_live := False\<rparr>" by (auto split: if_splits)
    with waiting_fed(1) [OF wt(1) live, of "[]" False] have "waiting w'" by (simp add: no_report_def)
    with w' show ?thesis by (auto simp: feed_rx_def waiting_def)
  qed
  with inv wt rx show "wz_inv w'" by (auto simp: wz_inv_def Let_def)
  from s s' show "outs = []" by (cases s) (auto split: if_splits)
qed

text \<open>A frame, page by page.\<close>

lemma started_append: "started (xs @ ys) = (case started xs of Some j \<Rightarrow> Some j | None \<Rightarrow> started ys)"
  by (induction xs rule: started.induct) auto

lemma started_tells [simp]:
  "started (map (Tell \<circ> f) xs) = None" "started (step_receipt a) = None" "started (status_told a) = None" "started (tray_or_close i) = None"
proof -
  show m: "started (map (Tell \<circ> f) xs) = None" for f and xs :: "'b list" by (induction xs) auto
  show "started (step_receipt a) = None" by (simp add: step_receipt_def started_append m split: option.split)
  show "started (status_told a) = None" by (simp add: status_told_def split: option.split)
  show "started (tray_or_close i) = None" by (simp add: tray_or_close_def split: option.split button.split)
qed

lemma edit_form_keeps [simp]:
  "ua_page (edit_form i a) = ua_page a" "ua_purge (edit_form i a) = ua_purge a" "ua_args (edit_form i a) = ua_args a" "ua_font_ok (edit_form i a) = ua_font_ok a"
  "ua_error (edit_form i a) = ua_error a" "ua_state (edit_form i a) = ua_state a"
  by (simp_all add: edit_form_def Let_def split: option.split)

text \<open>What a frame does to the invariant, by the page it draws.\<close>

definition framed :: "ui_out list \<times> setup_app \<Rightarrow> wizard \<Rightarrow> wizard" where
  "framed oa w =
     (case started (fst oa) of
        Some j \<Rightarrow> \<lparr>wz_app = snd oa, wz_job = Some j, wz_live = True, wz_end = None\<rparr>
      | None \<Rightarrow> w\<lparr>wz_app := snd oa\<rparr>)"

lemma wz_do_frame: "wz_do (Frame i) w = Some (fst (ui_frame i (wz_app w)), framed (ui_frame i (wz_app w)) w)"
  by (simp add: framed_def split_beta)

lemma fresh_waiting:
  assumes "ua_result a = None" "ua_rx a = Some new_channel"
  shows "waiting \<lparr>wz_app = a, wz_job = j, wz_live = True, wz_end = None\<rparr>"
  using assms by (simp add: waiting_def new_channel_def no_report_def)

text \<open>A page without running work either starts none and stays with such pages, or starts one.\<close>

definition idle_page :: "page \<Rightarrow> bool" where
  "idle_page p \<longleftrightarrow> p \<in> {PgWelcome, PgAccount, PgMaintenance, PgUninstallConfirm}"

definition started_ok :: "job \<Rightarrow> setup_app \<Rightarrow> bool" where
  "started_ok j a \<longleftrightarrow> ua_page a = PgProgress \<and> ua_result a = None \<and> ua_rollback a = None \<and> ua_rx a = Some new_channel
     \<and> (if ua_uninstalling a then j = JobUninstall (ua_purge a) True else installing (Some j))"

definition idle_frame :: "ui_out list \<times> setup_app \<Rightarrow> bool" where
  "idle_frame oa \<longleftrightarrow> (case started (fst oa) of None \<Rightarrow> idle_page (ua_page (snd oa)) | Some j \<Rightarrow> started_ok j (snd oa))"

lemma idle_frame_keeps:
  assumes "idle_frame oa" "\<not> wz_live w" shows "wz_inv (framed oa w)"
proof (cases "started (fst oa)")
  case None
  with assms show ?thesis by (auto simp: wz_inv_def Let_def framed_def idle_frame_def idle_page_def)
next
  case (Some j)
  with assms fresh_waiting [of "snd oa" "Some j"] show ?thesis
    by (simp add: wz_inv_def Let_def framed_def idle_frame_def started_ok_def)
qed

lemma welcome_idle: "ua_page a = PgWelcome \<Longrightarrow> idle_frame (welcome_page i a)"
  by (simp add: idle_frame_def welcome_page_def idle_page_def)

lemma account_idle: "ua_page a = PgAccount \<Longrightarrow> idle_frame (account_page i a)"
proof (cases "in_click i")
  case None
  then show "ua_page a = PgAccount \<Longrightarrow> ?thesis"
    by (simp add: idle_frame_def account_page_def idle_page_def Let_def split: option.split)
next
  case (Some b)
  then show "ua_page a = PgAccount \<Longrightarrow> ?thesis"
    by (cases b; cases "ua_error a"; cases "ua_state a")
      (simp_all add: idle_frame_def account_page_def idle_page_def Let_def start_install_def started_ok_def installing_def)
qed

lemma maintenance_idle: "ua_page a = PgMaintenance \<Longrightarrow> idle_frame (maintenance_page i a)"
proof (cases "in_click i")
  case (Some b)
  then show "ua_page a = PgMaintenance \<Longrightarrow> ?thesis"
    by (cases b; cases "ua_state a") (simp_all add: idle_frame_def maintenance_page_def idle_page_def Let_def)
qed (simp add: idle_frame_def maintenance_page_def idle_page_def Let_def)

lemma confirm_idle: "ua_page a = PgUninstallConfirm \<Longrightarrow> idle_frame (uninstall_confirm_page i a)"
proof (cases "in_click i")
  case (Some b)
  then show "ua_page a = PgUninstallConfirm \<Longrightarrow> ?thesis"
    by (cases b) (simp_all add: idle_frame_def uninstall_confirm_page_def idle_page_def Let_def start_uninstall_def started_ok_def)
qed (simp add: idle_frame_def uninstall_confirm_page_def idle_page_def Let_def)

lemma progress_keeps:
  assumes "wz_inv w" "ua_page (wz_app w) = PgProgress"
  shows "wz_inv (framed (progress_page i (wz_app w)) w)" and "started (fst (progress_page i (wz_app w))) = None"
proof -
  have wt: "waiting w" using assms by (auto simp: wz_inv_def Let_def)
  obtain rows line where d: "drain_events (wz_app w) =
    (if wz_live w then None else Some (outcome_shown w),
     (wz_app w)\<lparr>ua_steps := rows, ua_status_line := line, ua_rx := Some (Receiver [] (wz_live w)),
       ua_rollback := (case wz_end w of Some (_, rb) \<Rightarrow> Some rb | None \<Rightarrow> ua_rollback (wz_app w))\<rparr>)"
    using drain_waiting [OF wt] by blast
  show st: "started (fst (progress_page i (wz_app w))) = None"
    by (simp add: progress_page_def Let_def started_append split: prod.split option.split)
  show "wz_inv (framed (progress_page i (wz_app w)) w)"
  proof (cases "wz_live w")
    case True
    then show ?thesis using assms d wt st
      by (auto simp: wz_inv_def framed_def progress_page_def Let_def waiting_def no_report_def)
  next
    case False
    then show ?thesis using assms d wt st
      by (auto simp: wz_inv_def framed_def progress_page_def Let_def finished_def outcome_shown_def split: option.splits)
  qed
qed

text \<open>A page that shows how the work ended keeps what it shows, or leaves.\<close>

lemma stays_or_leaves:
  assumes "wz_inv w" "\<not> wz_live w" "started (fst oa) = None" "snd oa = wz_app w \<or> idle_page (ua_page (snd oa))"
  shows "wz_inv (framed oa w)"
proof (cases "snd oa = wz_app w")
  case True
  with assms show ?thesis by (simp add: framed_def)
next
  case False
  with assms idle_frame_keeps [of oa w] show ?thesis by (simp add: idle_frame_def)
qed

lemma done_keeps:
  assumes inv: "wz_inv w" and p: "ua_page (wz_app w) = PgDone"
  shows "wz_inv (framed (done_page i (wz_app w)) w)"
proof -
  have f: "finished w" using inv p by (simp add: wz_inv_def Let_def)
  have "started (fst (done_page i (wz_app w))) = None
    \<and> (snd (done_page i (wz_app w)) = wz_app w \<or> ua_page (snd (done_page i (wz_app w))) = PgAccount)"
  proof (cases "outcome_shown w")
    case (Inl e)
    with f show ?thesis
      by (cases "in_click i"; (cases "the (in_click i)")?) (simp_all add: done_page_def finished_def Let_def)
  next
    case (Inr u)
    with f show ?thesis by (simp add: done_page_def finished_def started_append)
  qed
  then show ?thesis using stays_or_leaves [OF inv, of "done_page i (wz_app w)"] f by (auto simp: finished_def idle_page_def)
qed

lemma uninstall_done_keeps:
  assumes inv: "wz_inv w" and p: "ua_page (wz_app w) = PgUninstallDone"
  shows "wz_inv (framed (uninstall_done_page i (wz_app w)) w)"
proof -
  have f: "finished w" using inv p by (simp add: wz_inv_def Let_def)
  have "started (fst (uninstall_done_page i (wz_app w))) = None
    \<and> (snd (uninstall_done_page i (wz_app w)) = wz_app w \<or> ua_page (snd (uninstall_done_page i (wz_app w))) = PgUninstallConfirm)"
  proof (cases "outcome_shown w")
    case (Inl e)
    with f show ?thesis
      by (cases "in_click i"; (cases "the (in_click i)")?) (simp_all add: uninstall_done_page_def finished_def Let_def)
  next
    case (Inr u)
    with f show ?thesis by (simp add: uninstall_done_page_def finished_def started_append)
  qed
  then show ?thesis using stays_or_leaves [OF inv, of "uninstall_done_page i (wz_app w)"] f by (auto simp: finished_def idle_page_def)
qed

lemma start_result_cases:
  assumes "ua_result a = Some r"
  obtains (stay) "snd (start_result i a) = a"
    | (retry) "snd (start_result i a) = a\<lparr>ua_result := None, ua_rx := None\<rparr>"
    | (leave) "snd (start_result i a) = a\<lparr>ua_page := PgMaintenance\<rparr>"
proof (cases r)
  case (Inr u)
  with assms have "snd (start_result i a) = a" by (simp add: start_result_def)
  then show thesis by (rule stay)
next
  case (Inl e)
  consider "in_click i = Some BtnRetry" | "in_click i = Some BtnReturn" | "in_click i \<noteq> Some BtnRetry" "in_click i \<noteq> Some BtnReturn"
    by blast
  then show thesis
  proof cases
    case 1
    with assms Inl have "snd (start_result i a) = a\<lparr>ua_result := None, ua_rx := None\<rparr>" by (simp add: start_result_def Let_def)
    then show thesis by (rule retry)
  next
    case 2
    with assms Inl have "snd (start_result i a) = a\<lparr>ua_page := PgMaintenance\<rparr>" by (simp add: start_result_def Let_def)
    then show thesis by (rule leave)
  next
    case 3
    with assms Inl have "snd (start_result i a) = a"
      by (simp add: start_result_def Let_def split: option.split button.split)
    then show thesis by (rule stay)
  qed
qed

lemma start_result_starts_none: "started (fst (start_result i a)) = None"
  by (simp add: start_result_def Let_def started_append split: option.split sum.split button.split)

lemma start_result_ended:
  assumes a: "ua_page a = PgStartService" "ua_rx a = None" "ua_result a = Some (outcome_shown w)"
    and w: "\<not> wz_live w" "wz_job w = Some JobStartService"
  shows "wz_inv (w\<lparr>wz_app := snd (start_result i a)\<rparr>)"
proof (cases rule: start_result_cases [OF a(3), of i, case_names stay retry leave])
  case stay
  then show ?thesis using a w by (simp add: wz_inv_def finished_def)
next
  case retry
  then show ?thesis using a w by (simp add: wz_inv_def)
next
  case leave
  then show ?thesis using a w by (simp add: wz_inv_def)
qed

lemma start_result_busy:
  "ua_result a = None \<Longrightarrow> start_result i a = (step_receipt a @ [Tell TellStarting], a)"
  by (simp add: start_result_def)

lemma start_page_keeps:
  assumes inv: "wz_inv w" and p: "ua_page (wz_app w) = PgStartService"
  shows "wz_inv (framed (start_service_page i (wz_app w)) w)"
proof (cases "ua_rx (wz_app w)")
  case None
  with inv p have idle: "\<not> wz_live w" and res: "ua_result (wz_app w) \<noteq> None \<longrightarrow> finished w \<and> wz_job w = Some JobStartService"
    by (simp_all add: wz_inv_def Let_def)
  show ?thesis
  proof (cases "ua_result (wz_app w)")
    case None' [simp]: None
    let ?a = "(wz_app w)\<lparr>ua_steps := [], ua_status_line := None, ua_rx := Some new_channel\<rparr>"
    have "framed (start_service_page i (wz_app w)) w = \<lparr>wz_app = ?a, wz_job = Some JobStartService, wz_live = True, wz_end = None\<rparr>"
      using None by (simp add: framed_def start_service_page_def start_if_idle_def drain_events_def new_channel_def
        start_result_busy started_append)
    with fresh_waiting [of ?a] p show ?thesis by (simp add: wz_inv_def Let_def)
  next
    case (Some r)
    with res have f: "finished w" "wz_job w = Some JobStartService" by auto
    have "start_service_page i (wz_app w) = start_result i (wz_app w)"
      using None Some by (simp add: start_service_page_def start_if_idle_def drain_events_def split_beta)
    with start_result_ended [OF p None _ idle f(2), of i] start_result_starts_none f(1) show ?thesis
      by (simp add: framed_def finished_def)
  qed
next
  case (Some rx)
  with inv p have wt: "waiting w" and j: "wz_job w = Some JobStartService" by (simp_all add: wz_inv_def Let_def)
  obtain rows line where d: "drain_events (wz_app w) =
    (if wz_live w then None else Some (outcome_shown w),
     (wz_app w)\<lparr>ua_steps := rows, ua_status_line := line, ua_rx := Some (Receiver [] (wz_live w)),
       ua_rollback := (case wz_end w of Some (_, rb) \<Rightarrow> Some rb | None \<Rightarrow> ua_rollback (wz_app w))\<rparr>)"
    using drain_waiting [OF wt] by blast
  show ?thesis
  proof (cases "wz_live w")
    case True
    then have "wz_end w = None" using wt by (simp add: waiting_def)
    with True show ?thesis using Some d wt p j
      by (auto simp: framed_def start_service_page_def start_if_idle_def start_result_busy started_append waiting_def wz_inv_def
        no_report_def)
  next
    case False
    let ?a = "(wz_app w)\<lparr>ua_steps := rows, ua_status_line := line, ua_rollback := (case wz_end w of Some (_, rb) \<Rightarrow> Some rb | None \<Rightarrow> ua_rollback (wz_app w)),
       ua_result := Some (outcome_shown w), ua_rx := None\<rparr>"
    have "start_service_page i (wz_app w) = start_result i ?a"
      using Some d False by (simp add: start_service_page_def start_if_idle_def split_beta)
    with start_result_ended [of ?a w i] start_result_starts_none False p j show ?thesis by (simp add: framed_def)
  qed
qed

lemma frame_keeps:
  assumes "wz_inv w" shows "wz_inv (framed (ui_frame i (wz_app w)) w)"
proof (cases "ua_font_ok (wz_app w)")
  case False
  with assms show ?thesis by (simp add: ui_frame_def framed_def)
next
  case True
  note idle = welcome_idle account_idle maintenance_idle confirm_idle
  from True assms idle [of "wz_app w" i] idle_frame_keeps [of _ w] progress_keeps(1) [of w i] done_keeps [of w i]
    uninstall_done_keeps [of w i] start_page_keeps [of w i]
  show ?thesis by (cases "ua_page (wz_app w)") (simp_all add: ui_frame_def wz_inv_def Let_def)
qed

section \<open>What holds in every run\<close>

definition ticked :: "(wz_step \<times> ui_out list) list \<Rightarrow> bool" where
  "ticked tr \<longleftrightarrow> (\<exists>i outs. (Frame i, outs) \<in> set tr \<and> in_click i = Some ChkPurge)"

abbreviation fixed_of :: "setup_app \<Rightarrow> setup_args \<times> bool" where
  "fixed_of a \<equiv> (ua_args a, ua_font_ok a)"

lemma take_events_keep:
  "ua_purge (fst (fold take_event q (a, r))) = ua_purge a" "ua_page (fst (fold take_event q (a, r))) = ua_page a"
  "fixed_of (fst (fold take_event q (a, r))) = fixed_of a" "ua_uninstalling (fst (fold take_event q (a, r))) = ua_uninstalling a"
proof -
  have "ua_purge (fst (take_event e x)) = ua_purge (fst x) \<and> ua_page (fst (take_event e x)) = ua_page (fst x)
    \<and> fixed_of (fst (take_event e x)) = fixed_of (fst x) \<and> ua_uninstalling (fst (take_event e x)) = ua_uninstalling (fst x)" for e x
    by (cases "(e, x)" rule: take_event.cases) (simp_all add: finish_step_def)
  then have "ua_purge (fst (fold take_event q x)) = ua_purge (fst x) \<and> ua_page (fst (fold take_event q x)) = ua_page (fst x)
    \<and> fixed_of (fst (fold take_event q x)) = fixed_of (fst x) \<and> ua_uninstalling (fst (fold take_event q x)) = ua_uninstalling (fst x)" for x
    by (induction q arbitrary: x) simp_all
  then show "ua_purge (fst (fold take_event q (a, r))) = ua_purge a" "ua_page (fst (fold take_event q (a, r))) = ua_page a"
  "fixed_of (fst (fold take_event q (a, r))) = fixed_of a" "ua_uninstalling (fst (fold take_event q (a, r))) = ua_uninstalling a"
    by simp_all
qed

lemma drain_keeps [simp]:
  "ua_purge (snd (drain_events a)) = ua_purge a" "ua_page (snd (drain_events a)) = ua_page a"
  "fixed_of (snd (drain_events a)) = fixed_of a" "ua_uninstalling (snd (drain_events a)) = ua_uninstalling a"
  using take_events_keep [of _ a None] by (simp_all add: drain_events_def split_beta split: option.split receiver.split)

lemma start_result_keeps:
  "ua_purge (snd (start_result i a)) = ua_purge a" "fixed_of (snd (start_result i a)) = fixed_of a"
  by (simp_all add: start_result_def Let_def split: option.split sum.split button.split)

lemma start_if_idle_keeps [simp]:
  "ua_purge (snd (start_if_idle a)) = ua_purge a" "fixed_of (snd (start_if_idle a)) = fixed_of a"
  "ua_page (snd (start_if_idle a)) = ua_page a"
  by (simp_all add: start_if_idle_def)

lemmas fixed_keeps [simp] = drain_keeps(3) [unfolded prod.inject] start_if_idle_keeps(2) [unfolded prod.inject]
  start_result_keeps(2) [unfolded prod.inject]

lemma start_service_page_keeps:
  "ua_purge (snd (start_service_page i a)) = ua_purge a" "fixed_of (snd (start_service_page i a)) = fixed_of a"
  by (simp_all add: start_service_page_def split_beta Let_def start_result_keeps split: option.split)

lemma progress_page_keeps:
  "ua_purge (snd (progress_page i a)) = ua_purge a" "fixed_of (snd (progress_page i a)) = fixed_of a"
  "ua_page a = PgProgress \<Longrightarrow> ua_page (snd (progress_page i a)) \<noteq> PgStartService"
  by (simp_all add: progress_page_def split_beta Let_def split: option.split)

lemma done_pages_keep:
  "ua_purge (snd (done_page i a)) = ua_purge a" "fixed_of (snd (done_page i a)) = fixed_of a"
  "ua_purge (snd (uninstall_done_page i a)) = ua_purge a" "fixed_of (snd (uninstall_done_page i a)) = fixed_of a"
  "ua_page a = PgDone \<Longrightarrow> ua_page (snd (done_page i a)) \<noteq> PgStartService"
  "ua_page a = PgUninstallDone \<Longrightarrow> ua_page (snd (uninstall_done_page i a)) \<noteq> PgStartService"
  by (simp_all add: done_page_def uninstall_done_page_def Let_def split: option.split sum.split button.split)

lemma idle_frame_page: "idle_frame oa \<Longrightarrow> ua_page (snd oa) \<noteq> PgStartService"
  by (auto simp: idle_frame_def idle_page_def started_ok_def split: option.splits)

lemma form_pages_keep:
  "ua_purge (snd (welcome_page i a)) = ua_purge a" "fixed_of (snd (welcome_page i a)) = fixed_of a"
  "ua_purge (snd (account_page i a)) = ua_purge a" "fixed_of (snd (account_page i a)) = fixed_of a"
  "ua_purge (snd (maintenance_page i a)) \<Longrightarrow> ua_purge a" "fixed_of (snd (maintenance_page i a)) = fixed_of a"
  "fixed_of (snd (uninstall_confirm_page i a)) = fixed_of a"
  "ua_purge (snd (uninstall_confirm_page i a)) \<Longrightarrow> ua_purge a \<or> in_click i = Some ChkPurge"
proof -
  show "ua_purge (snd (welcome_page i a)) = ua_purge a" "fixed_of (snd (welcome_page i a)) = fixed_of a"
    by (simp_all add: welcome_page_def)
  show "ua_purge (snd (account_page i a)) = ua_purge a" "fixed_of (snd (account_page i a)) = fixed_of a"
    by (cases "in_click i"; (cases "the (in_click i)")?; simp add: account_page_def Let_def start_install_def)+
  show "ua_purge (snd (maintenance_page i a)) \<Longrightarrow> ua_purge a" "fixed_of (snd (maintenance_page i a)) = fixed_of a"
    by (cases "in_click i"; (cases "the (in_click i)")?; cases "ua_state a"; simp add: maintenance_page_def Let_def)+
  show "fixed_of (snd (uninstall_confirm_page i a)) = fixed_of a"
    "ua_purge (snd (uninstall_confirm_page i a)) \<Longrightarrow> ua_purge a \<or> in_click i = Some ChkPurge"
    by (cases "in_click i"; (cases "the (in_click i)")?; simp add: uninstall_confirm_page_def Let_def start_uninstall_def)+
qed

lemma frame_keeps_args: "fixed_of (snd (ui_frame i a)) = fixed_of a"
  by (simp add: ui_frame_def form_pages_keep [unfolded prod.inject] progress_page_keeps [unfolded prod.inject]
      done_pages_keep [unfolded prod.inject] start_service_page_keeps [unfolded prod.inject] split: page.split)

lemma frame_purge: "ua_purge (snd (ui_frame i a)) \<Longrightarrow> ua_purge a \<or> in_click i = Some ChkPurge"
  using form_pages_keep(5,8) [of i a]
  by (auto simp: ui_frame_def form_pages_keep(1,3) progress_page_keeps done_pages_keep start_service_page_keeps
      split: page.splits if_splits)

lemma frame_start_page:
  "ua_page (snd (ui_frame i a)) = PgStartService \<Longrightarrow> ua_page a = PgStartService"
  using welcome_idle [of a i] account_idle [of a i] maintenance_idle [of a i] confirm_idle [of a i] idle_frame_page
    progress_page_keeps(3) [of a i] done_pages_keep(5,6) [of a i]
  by (cases "ua_page a") (auto simp: ui_frame_def split: if_splits)

text \<open>The state that a run reaches.\<close>

definition reached :: "setup_args \<Rightarrow> bool \<Rightarrow> (wz_step \<times> ui_out list) list \<Rightarrow> wizard \<Rightarrow> bool" where
  "reached args font_ok tr w \<longleftrightarrow> wz_inv w \<and> fixed_of (wz_app w) = (args, font_ok) \<and> (ua_purge (wz_app w) \<longrightarrow> ticked tr)
     \<and> (ua_page (wz_app w) = PgStartService \<longrightarrow> mode_of args = Inr MdStartService)"

lemma wz_do_app:
  "wz_do s w = Some (outs, w') \<Longrightarrow> wz_app w' = (case s of Frame i \<Rightarrow> snd (ui_frame i (wz_app w))
     | Sends e \<Rightarrow> feed_rx [e] True (wz_app w) | Reports r rb \<Rightarrow> feed_rx [WkDone r rb] False (wz_app w)
     | Dies \<Rightarrow> feed_rx [] False (wz_app w))"
  by (cases s) (auto split: if_splits prod.splits option.splits)

lemma run_reached:
  "wz_run (wizard_new args state font_ok existing) tr w \<Longrightarrow> reached args font_ok tr w"
proof (induction rule: wz_run.induct)
  case begin_run
  show ?case
    by (auto simp: reached_def wizard_new_def setup_app_new_def wz_inv_def Let_def first_page_def
        split: setup_mode.splits install_state.splits sum.splits)
next
  case (more_run tr w s outs w')
  have t: "ticked (tr @ [(s, outs)]) \<longleftrightarrow> ticked tr \<or> (\<exists>i. s = Frame i \<and> in_click i = Some ChkPurge)"
    by (auto simp: ticked_def)
  show ?case
  proof (cases "\<exists>i. s = Frame i")
    case True
    then obtain i where i: "s = Frame i" by blast
    with more_run.hyps(2) wz_do_frame [of i w] have "w' = framed (ui_frame i (wz_app w)) w" by auto
    with more_run.IH frame_keeps [of w i] have "wz_inv w'" by (simp add: reached_def)
    with more_run.IH frame_keeps_args [of i "wz_app w"] frame_purge [of i "wz_app w"] frame_start_page [of i "wz_app w"] t i
      wz_do_app [OF more_run.hyps(2)]
    show ?thesis by (auto simp: reached_def)
  next
    case False
    with more_run.IH thread_keeps(1) [OF _ more_run.hyps(2)] have "wz_inv w'" by (auto simp: reached_def)
    with more_run.IH wz_do_app [OF more_run.hyps(2)] False t show ?thesis
      by (cases s) (auto simp: reached_def feed_rx_def)
  qed
qed

text \<open>A removal that failed is offered again with the box as it was.\<close>

lemma retry_keeps_the_tick:
  assumes "ua_font_ok a" "ua_page a = PgUninstallDone" "ua_result a = Some (Inl e)" "in_click i = Some BtnRetry"
  shows "ua_page (snd (ui_frame i a)) = PgUninstallConfirm" and "ua_purge (snd (ui_frame i a)) = ua_purge a"
  using assms by (simp_all add: ui_frame_def uninstall_done_page_def Let_def)

section \<open>Work is started once, and as the user asked\<close>

definition asked_for :: "setup_args \<Rightarrow> (wz_step \<times> ui_out list) list \<Rightarrow> ui_input \<Rightarrow> job \<Rightarrow> bool" where
  "asked_for args tr i j =
     (case j of
        JobInstall ar sid pw \<Rightarrow> in_click i = Some BtnInstall \<and> ar = args \<and> sid \<noteq> [] \<and> pw \<noteq> Some []
      | JobUninstall purge remove_dir \<Rightarrow> in_click i = Some BtnUninstall \<and> remove_dir \<and> (purge \<longrightarrow> ticked tr)
      | JobStartService \<Rightarrow> mode_of args = Inr MdStartService)"

lemma spawn_started: "Spawn j \<in> set outs \<Longrightarrow> started outs \<noteq> None"
  by (induction outs rule: started.induct) auto

lemma no_spawn [simp]:
  "Spawn j \<notin> set (step_receipt a)" "Spawn j \<notin> set (status_told a)" "Spawn j \<notin> set (tray_or_close i)"
  using spawn_started [of j] by (force dest: spawn_started)+

lemma start_result_no_spawn [simp]: "Spawn j \<notin> set (fst (start_result i a))"
  using spawn_started [of j "fst (start_result i a)"] start_result_starts_none by auto

lemma account_spawns:
  "Spawn j \<in> set (fst (account_page i a)) \<Longrightarrow> in_click i = Some BtnInstall \<and>
    (\<exists>id pw. j = JobInstall (ua_args a) id pw \<and> id \<noteq> [] \<and> pw \<noteq> Some [])"
  by (cases "in_click i"; (cases "the (in_click i)")?; cases "ua_error a")
    (auto simp: account_page_def Let_def start_install_def split: if_splits)

lemma confirm_spawns:
  "Spawn j \<in> set (fst (uninstall_confirm_page i a)) \<Longrightarrow> in_click i = Some BtnUninstall \<and> j = JobUninstall (ua_purge a) True"
  by (cases "in_click i"; (cases "the (in_click i)")?)
    (auto simp: uninstall_confirm_page_def Let_def start_uninstall_def split: if_splits)

lemma other_pages_spawn_none:
  "Spawn j \<notin> set (fst (welcome_page i a))" "Spawn j \<notin> set (fst (maintenance_page i a))"
  "Spawn j \<notin> set (fst (progress_page i a))" "Spawn j \<notin> set (fst (done_page i a))"
  "Spawn j \<notin> set (fst (uninstall_done_page i a))"
proof -
  show "Spawn j \<notin> set (fst (welcome_page i a))" by (simp add: welcome_page_def)
  show "Spawn j \<notin> set (fst (maintenance_page i a))"
    by (simp add: maintenance_page_def Let_def split: option.split button.split)
  show "Spawn j \<notin> set (fst (progress_page i a))" by (simp add: progress_page_def Let_def split_beta)
  show "Spawn j \<notin> set (fst (done_page i a))"
    by (simp add: done_page_def Let_def split: option.split sum.split button.split)
  show "Spawn j \<notin> set (fst (uninstall_done_page i a))"
    by (simp add: uninstall_done_page_def Let_def split: option.split sum.split button.split)
qed

lemma start_page_spawns:
  "Spawn j \<in> set (fst (start_service_page i a)) \<Longrightarrow> j = JobStartService \<and> ua_rx a = None"
  by (auto simp: start_service_page_def start_if_idle_def split_beta Let_def split: if_splits)

lemma started_as_asked:
  assumes r: "reached args font_ok tr w" and j: "Spawn j \<in> set (fst (ui_frame i (wz_app w)))"
  shows "\<not> wz_live w \<and> asked_for args tr i j"
proof -
  let ?a = "wz_app w"
  consider (account) "ua_page ?a = PgAccount" "Spawn j \<in> set (fst (account_page i ?a))"
    | (confirm) "ua_page ?a = PgUninstallConfirm" "Spawn j \<in> set (fst (uninstall_confirm_page i ?a))"
    | (start) "ua_page ?a = PgStartService" "Spawn j \<in> set (fst (start_service_page i ?a))"
    using j other_pages_spawn_none [of j i ?a] by (cases "ua_page ?a") (auto simp: ui_frame_def split: if_splits)
  then show ?thesis
  proof cases
    case account
    with account_spawns [OF account(2)] r show ?thesis by (auto simp: reached_def wz_inv_def asked_for_def)
  next
    case confirm
    with confirm_spawns [OF confirm(2)] r show ?thesis by (auto simp: reached_def wz_inv_def asked_for_def)
  next
    case start
    with start_page_spawns [OF start(2)] r show ?thesis by (auto simp: reached_def wz_inv_def asked_for_def)
  qed
qed

text \<open>
  C29 (safety). In every run of the installer's window, from any command line and state of the installation and with
  any clicks, edits and events of the worker thread in any order: work is started only when no thread of an earlier
  work runs; an installation only after a click on its button, with a student number, and never with an empty
  password; a removal only after a click on its button, and with the data only when the user has ticked the box in
  this run; the service is started without a click only when the command line asked for it.
\<close>

theorem wizard_starts_only_what_was_asked:
  assumes "wz_run (wizard_new args state font_ok existing) tr w"
    and "wz_do (Frame i) w = Some (outs, w')" and "Spawn j \<in> set outs"
  shows "\<not> wz_live w \<and> asked_for args tr i j"
  using started_as_asked [OF run_reached [OF assms(1)], of j i] assms(2,3) wz_do_frame [of i w] by simp

definition click :: "button \<Rightarrow> ui_input" where
  "click b = \<lparr>in_click = Some b, in_student_id = None, in_password = None, in_existing = None\<rparr>"

definition demo_wizard :: wizard where
  "demo_wizard = wizard_new (setup_args_default\<lparr>ag_uninstall := True\<rparr>) (Installed None None) True None"

definition demo_ticked :: wizard where "demo_ticked = framed (ui_frame (click ChkPurge) (wz_app demo_wizard)) demo_wizard"

lemma demo_ticked_run: "wz_run demo_wizard [(Frame (click ChkPurge), fst (ui_frame (click ChkPurge) (wz_app demo_wizard)))] demo_ticked"
  using more_run [OF begin_run wz_do_frame, of demo_wizard "click ChkPurge"] by (simp add: demo_ticked_def)

lemma demo_ticked_state:
  "ua_page (wz_app demo_ticked) = PgUninstallConfirm" "ua_purge (wz_app demo_ticked)" "ua_font_ok (wz_app demo_ticked)"
  by (simp_all add: demo_ticked_def demo_wizard_def wizard_new_def setup_app_new_def framed_def ui_frame_def
      uninstall_confirm_page_def first_page_def mode_of_def setup_args_default_def click_def)

lemma demo_removal: "Spawn (JobUninstall True True) \<in> set (fst (ui_frame (click BtnUninstall) (wz_app demo_ticked)))"
  using demo_ticked_state by (simp add: ui_frame_def uninstall_confirm_page_def click_def start_uninstall_def)

theorem wizard_starts_only_what_was_asked_witness:
  "\<not> wz_live demo_ticked \<and> ticked [(Frame (click ChkPurge), fst (ui_frame (click ChkPurge) (wz_app demo_wizard)))]"
  using wizard_starts_only_what_was_asked [OF demo_ticked_run [unfolded demo_wizard_def] wz_do_frame demo_removal]
  by (simp add: asked_for_def click_def demo_wizard_def)

section \<open>The last page says how the work ended\<close>

lemma plain_receipt [simp]:
  "Tell t \<in> set (step_receipt a) \<Longrightarrow> \<exists>r e u. t = TellRow r \<or> t = TellEnd e u"
  by (auto simp: step_receipt_def split: option.splits)

definition claims :: "told \<Rightarrow> bool" where
  "claims t \<longleftrightarrow> t \<in> {TellServiceStarted, TellRestored, TellDataDeleted}"

lemma receipt_claims_nothing [simp]:
  "claims t \<Longrightarrow> Tell t \<notin> set (step_receipt a)" "claims t \<Longrightarrow> Tell t \<notin> set (status_told a)"
  "Tell t \<notin> set (tray_or_close i)"
  using plain_receipt [of t a]
  by (auto simp: claims_def status_told_def tray_or_close_def split: option.splits button.splits)

lemma other_pages_claim_nothing:
  assumes "claims t"
  shows "Tell t \<notin> set (fst (welcome_page i a))" "Tell t \<notin> set (fst (account_page i a))"
    "Tell t \<notin> set (fst (maintenance_page i a))" "Tell t \<notin> set (fst (uninstall_confirm_page i a))"
    "Tell t \<notin> set (fst (progress_page i a))"
proof -
  show "Tell t \<notin> set (fst (welcome_page i a))" using assms by (auto simp: welcome_page_def claims_def)
  show "Tell t \<notin> set (fst (account_page i a))" using assms
    by (cases "in_click i"; (cases "the (in_click i)")?; cases "ua_error a")
      (auto simp: account_page_def claims_def Let_def start_install_def)
  show "Tell t \<notin> set (fst (maintenance_page i a))" using assms
    by (cases "in_click i"; (cases "the (in_click i)")?; cases "ua_state a")
      (auto simp: maintenance_page_def claims_def Let_def state_told_def)
  show "Tell t \<notin> set (fst (uninstall_confirm_page i a))" using assms
    by (cases "in_click i"; (cases "the (in_click i)")?)
      (auto simp: uninstall_confirm_page_def claims_def Let_def start_uninstall_def)
  show "Tell t \<notin> set (fst (progress_page i a))" using assms
    by (auto simp: progress_page_def Let_def split_beta claims_def dest!: plain_receipt split: if_splits)
qed

lemma done_page_claims:
  assumes "claims t" "Tell t \<in> set (fst (done_page i a))"
  shows "t = TellServiceStarted \<and> ua_result a = Some (Inr ())
    \<or> t = TellRestored \<and> (\<exists>e. ua_result a = Some (Inl e)) \<and> ua_rollback a = Some Restored"
proof (cases "ua_result a")
  case None
  with assms show ?thesis by (auto simp: done_page_def claims_def)
next
  case (Some r)
  show ?thesis
  proof (cases r)
    case (Inl e)
    with Some assms(2) have "t = TellInstallFailed e \<or> t = rollback_told (ua_rollback a)"
      by (cases "in_click i"; (cases "the (in_click i)")?) (auto simp: done_page_def Let_def)
    with assms(1) Some Inl show ?thesis
      by (auto simp: claims_def rollback_told_def split: option.splits rollback_outcome.splits)
  next
    case (Inr u)
    with Some assms show ?thesis by (auto simp: done_page_def)
  qed
qed

lemma uninstall_done_claims:
  assumes "claims t" "Tell t \<in> set (fst (uninstall_done_page i a))"
  shows "t = TellDataDeleted \<and> ua_result a = Some (Inr ()) \<and> ua_purge a"
proof (cases "ua_result a")
  case None
  with assms show ?thesis by (auto simp: uninstall_done_page_def claims_def)
next
  case (Some r)
  show ?thesis
  proof (cases r)
    case (Inl e)
    with Some assms show ?thesis
      by (cases "in_click i"; (cases "the (in_click i)")?) (auto simp: uninstall_done_page_def Let_def claims_def)
  next
    case (Inr u)
    with Some assms(2) have "Tell t \<in> set (step_receipt a)
      \<or> t \<in> {TellUninstalled, if ua_purge a then TellDataDeleted else TellDataWasKept, TellDirScheduled}"
      by (auto simp: uninstall_done_page_def split: if_splits)
    with assms(1) Some Inr show ?thesis by (auto simp: claims_def dest!: plain_receipt split: if_splits)
  qed
qed

lemma start_result_claims:
  assumes "claims t" "Tell t \<in> set (fst (start_result i a))"
  shows "t = TellServiceStarted \<and> ua_result a = Some (Inr ())"
proof (cases "ua_result a")
  case None
  with assms show ?thesis by (auto simp: start_result_def claims_def dest!: plain_receipt)
next
  case (Some r)
  show ?thesis
  proof (cases r)
    case (Inl e)
    with Some assms show ?thesis
      by (cases "in_click i"; (cases "the (in_click i)")?) (auto simp: start_result_def Let_def claims_def)
  next
    case (Inr u)
    with Some assms show ?thesis by (auto simp: start_result_def)
  qed
qed

lemma start_page_claims:
  assumes inv: "wz_inv w" and p: "ua_page (wz_app w) = PgStartService"
    and t: "claims t" "Tell t \<in> set (fst (start_service_page i (wz_app w)))"
  shows "t = TellServiceStarted \<and> outcome_shown w = Inr () \<and> wz_job w = Some JobStartService"
proof (cases "ua_rx (wz_app w)")
  case None
  show ?thesis
  proof (cases "ua_result (wz_app w)")
    case None' [simp]: None
    from t None show ?thesis
      by (auto simp: start_service_page_def start_if_idle_def drain_events_def new_channel_def start_result_busy claims_def
          dest!: plain_receipt)
  next
    case (Some r)
    with inv p None have f: "finished w" "wz_job w = Some JobStartService" by (simp_all add: wz_inv_def Let_def)
    have "start_service_page i (wz_app w) = start_result i (wz_app w)"
      using None Some by (simp add: start_service_page_def start_if_idle_def drain_events_def split_beta)
    with start_result_claims [OF t(1), of i "wz_app w"] t(2) f show ?thesis by (simp add: finished_def)
  qed
next
  case (Some rx)
  with inv p have wt: "waiting w" and j: "wz_job w = Some JobStartService" by (simp_all add: wz_inv_def Let_def)
  define a1 where "a1 = snd (drain_events (wz_app w))"
  have d: "fst (drain_events (wz_app w)) = (if wz_live w then None else Some (outcome_shown w))" "ua_result a1 = None"
    using drain_waiting [OF wt] wt by (auto simp: a1_def waiting_def)
  have "fst (start_service_page i (wz_app w)) = fst (start_result i
      (if wz_live w then a1 else a1\<lparr>ua_result := Some (outcome_shown w), ua_rx := None\<rparr>))"
    using Some d(1) by (simp add: start_service_page_def start_if_idle_def split_beta a1_def)
  with start_result_claims [OF t(1)] t(2) d(2) j show ?thesis by (cases "wz_live w") fastforce+
qed

lemma shown_success: "outcome_shown w = Inr () \<Longrightarrow> \<exists>rb. wz_end w = Some (Inr (), rb)"
  by (auto simp: outcome_shown_def thread_gone_def split: option.splits)

lemma shown_failure: "outcome_shown w = Inl e \<Longrightarrow> map_option snd (wz_end w) = Some rb \<Longrightarrow> wz_end w = Some (Inl e, rb)"
  by (auto simp: outcome_shown_def split: option.splits)

definition backed :: "told \<Rightarrow> wizard \<Rightarrow> bool" where
  "backed t w =
     (case t of
        TellServiceStarted \<Rightarrow> (installing (wz_job w) \<or> wz_job w = Some JobStartService) \<and> (\<exists>rb. wz_end w = Some (Inr (), rb))
      | TellRestored \<Rightarrow> installing (wz_job w) \<and> (\<exists>e. wz_end w = Some (Inl e, Restored))
      | TellDataDeleted \<Rightarrow> wz_job w = Some (JobUninstall True True) \<and> (\<exists>rb. wz_end w = Some (Inr (), rb))
      | _ \<Rightarrow> True)"

lemma claims_backed:
  assumes inv: "wz_inv w" and t: "claims t" "Tell t \<in> set (fst (ui_frame i (wz_app w)))"
  shows "backed t w"
proof -
  let ?a = "wz_app w"
  consider (done_page) "ua_page ?a = PgDone" "Tell t \<in> set (fst (done_page i ?a))"
    | (uninstalled) "ua_page ?a = PgUninstallDone" "Tell t \<in> set (fst (uninstall_done_page i ?a))"
    | (start) "ua_page ?a = PgStartService" "Tell t \<in> set (fst (start_service_page i ?a))"
    using t other_pages_claim_nothing [OF t(1), of i ?a]
    by (cases "ua_page ?a") (auto simp: ui_frame_def claims_def split: if_splits)
  then show ?thesis
  proof cases
    case done_page
    with inv have f: "finished w" "installing (wz_job w)" "ua_rollback ?a = map_option snd (wz_end w)"
      by (simp_all add: wz_inv_def Let_def)
    with done_page_claims [OF t(1) done_page(2)] shown_success [of w] shown_failure [of w] show ?thesis
      by (auto simp: backed_def finished_def)
  next
    case uninstalled
    with inv have f: "finished w" "wz_job w = Some (JobUninstall (ua_purge ?a) True)" by (simp_all add: wz_inv_def Let_def)
    with uninstall_done_claims [OF t(1) uninstalled(2)] shown_success [of w] show ?thesis
      by (auto simp: backed_def finished_def)
  next
    case start
    with start_page_claims [OF inv start(1) t(1) start(2)] shown_success [of w] show ?thesis by (auto simp: backed_def)
  qed
qed

lemma progress_leaves:
  assumes "wz_inv w" "ua_page (wz_app w) = PgProgress"
  shows "ua_page (snd (progress_page i (wz_app w))) = PgProgress \<longleftrightarrow> wz_live w"
proof -
  have wt: "waiting w" using assms by (simp add: wz_inv_def Let_def)
  have "fst (drain_events (wz_app w)) = (if wz_live w then None else Some (outcome_shown w))"
    using drain_waiting [OF wt] by auto
  then show ?thesis using assms(2) by (simp add: progress_page_def split_beta Let_def)
qed

lemma last_page:
  assumes "wz_run (wizard_new args state True existing) tr w"
    and "wz_do (Frame i) w = Some (outs, w')"
  shows "(\<forall>t. claims t \<and> Tell t \<in> set outs \<longrightarrow> backed t w)
    \<and> (ua_page (wz_app w) = PgProgress \<longrightarrow> (ua_page (wz_app w') = PgProgress \<longleftrightarrow> wz_live w))"
proof -
  have inv: "wz_inv w" and font: "ua_font_ok (wz_app w)" using run_reached [OF assms(1)] by (simp_all add: reached_def)
  have "outs = fst (ui_frame i (wz_app w))" "wz_app w' = snd (ui_frame i (wz_app w))"
    using assms(2) wz_do_app [OF assms(2)] wz_do_frame [of i w] by auto
  with claims_backed [OF inv, of _ i] progress_leaves [OF inv, of i] font show ?thesis by (auto simp: ui_frame_def)
qed

text \<open>
  C30 (error). In every run of the installer's window, what a page claims is backed by the report of the thread of the
  last work: it says that the service is started only after an installation or a start that reported success, that
  the old state was restored only after an installation that reported a failure with everything restored, and that
  the data are deleted only after a removal with the data that reported success. The page with the progress is left
  in the first frame after the thread has ended, with or without a report, and not before.
\<close>

theorem last_page_is_backed_by_the_report:
  assumes "wz_run (wizard_new args state True existing) tr w"
    and "wz_do (Frame i) w = Some (outs, w')"
  shows "(\<forall>t. claims t \<and> Tell t \<in> set outs \<longrightarrow> backed t w)
    \<and> (ua_page (wz_app w) = PgProgress \<longrightarrow> (ua_page (wz_app w') = PgProgress \<longleftrightarrow> wz_live w))"
  using assms by (rule last_page)

definition demo_removing :: wizard where "demo_removing = framed (ui_frame (click BtnUninstall) (wz_app demo_ticked)) demo_ticked"

theorem last_page_is_backed_by_the_report_witness:
  "ua_page (wz_app demo_removing) = PgProgress
     \<and> ua_page (wz_app (framed (ui_frame (click BtnClose) (wz_app demo_removing)) demo_removing)) = PgProgress"
proof -
  have p: "ua_page (wz_app demo_removing) = PgProgress" "wz_live demo_removing"
    using demo_ticked_state
    by (simp_all add: demo_removing_def framed_def ui_frame_def uninstall_confirm_page_def click_def start_uninstall_def)
  have "wz_run demo_wizard ([(Frame (click ChkPurge), fst (ui_frame (click ChkPurge) (wz_app demo_wizard)))]
      @ [(Frame (click BtnUninstall), fst (ui_frame (click BtnUninstall) (wz_app demo_ticked)))]) demo_removing"
    using more_run [OF demo_ticked_run wz_do_frame] by (simp only: demo_removing_def)
  then have "wz_run (wizard_new (setup_args_default\<lparr>ag_uninstall := True\<rparr>) (Installed None None) True None)
      ([(Frame (click ChkPurge), fst (ui_frame (click ChkPurge) (wz_app demo_wizard)))]
      @ [(Frame (click BtnUninstall), fst (ui_frame (click BtnUninstall) (wz_app demo_ticked)))]) demo_removing"
    by (simp only: demo_wizard_def)
  from last_page_is_backed_by_the_report [OF this wz_do_frame [of "click BtnClose"]] p show ?thesis by simp
qed

end
