(* ===== verification/Gui.thy ===== *)
theory Gui
  imports Tray Setup_Args Config
begin

text \<open>
  The main window, \<open>src/src/tray/gui.rs\<close>: how its one thread is started, what a frame shows of the snapshot and of the
  configuration, and what its buttons do; and the choice of a font in \<open>src/src/fonts.rs\<close>. Sizes, strokes and the
  animation of the stamp are left out.
\<close>

section \<open>One window\<close>

datatype gui_state = GsAbsent | GsStarting | GsLive | GsDead string

text \<open>
  The shared state with what goes on around it: callers between the lock and the creation of the thread, threads
  before and after they have a window, and all threads ever created. A section under the lock is one step; none of
  them panics, so the lock is never poisoned.
\<close>

record win_sys =
  wn_state :: gui_state
  wn_spawning :: nat
  wn_fresh :: nat
  wn_open :: nat
  wn_spawned :: nat
  wn_shown :: nat

definition win_new :: win_sys where
  "win_new = \<lparr>wn_state = GsAbsent, wn_spawning = 0, wn_fresh = 0, wn_open = 0, wn_spawned = 0, wn_shown = 0\<rparr>"

definition show_or_focus :: "win_sys \<Rightarrow> win_sys" where
  "show_or_focus s =
     (case wn_state s of
        GsLive \<Rightarrow> s\<lparr>wn_shown := wn_shown s + 1\<rparr>
      | GsStarting \<Rightarrow> s
      | GsDead _ \<Rightarrow> s
      | GsAbsent \<Rightarrow> s\<lparr>wn_state := GsStarting, wn_spawning := wn_spawning s + 1\<rparr>)"

definition thread_spawned :: "bool \<Rightarrow> win_sys \<Rightarrow> win_sys" where
  "thread_spawned success s =
     (if success then s\<lparr>wn_spawning := wn_spawning s - 1, wn_fresh := wn_fresh s + 1, wn_spawned := wn_spawned s + 1\<rparr>
      else s\<lparr>wn_spawning := wn_spawning s - 1, wn_state := GsAbsent\<rparr>)"

text \<open>A thread has its window, or ends: by closing, by an error or by a panic.\<close>

definition window_ready :: "win_sys \<Rightarrow> win_sys" where
  "window_ready s = s\<lparr>wn_fresh := wn_fresh s - 1, wn_open := wn_open s + 1, wn_state := GsLive\<rparr>"

definition thread_end :: "string \<Rightarrow> win_sys \<Rightarrow> win_sys" where
  "thread_end reason s =
     (if wn_open s > 0 then s\<lparr>wn_open := wn_open s - 1, wn_state := GsDead reason\<rparr>
      else s\<lparr>wn_fresh := wn_fresh s - 1, wn_state := GsDead reason\<rparr>)"

inductive win_step :: "win_sys \<Rightarrow> win_sys \<Rightarrow> bool" where
  win_show: "win_step s (show_or_focus s)"
| win_spawn: "wn_spawning s > 0 \<Longrightarrow> win_step s (thread_spawned success s)"
| win_ready: "wn_fresh s > 0 \<Longrightarrow> win_step s (window_ready s)"
| win_end: "wn_fresh s + wn_open s > 0 \<Longrightarrow> win_step s (thread_end reason s)"

inductive win_reach :: "win_sys \<Rightarrow> bool" where
  win_start: "win_reach win_new"
| win_more: "win_reach s \<Longrightarrow> win_step s s' \<Longrightarrow> win_reach s'"

section \<open>Fonts\<close>

definition font_candidates :: "string list" where
  "font_candidates = [''Deng.ttf'', ''simhei.ttf'', ''msyh.ttc'', ''simsun.ttc'']"

fun first_font :: "(string \<Rightarrow> 'e + u8 list) \<Rightarrow> string list \<Rightarrow> (string \<times> u8 list) option" where
  "first_font read [] = None"
| "first_font read (n # ns) = (case read n of Inr bytes \<Rightarrow> Some (n, bytes) | Inl _ \<Rightarrow> first_font read ns)"

text \<open>\<open>root\<close> is the variable \<open>SystemRoot\<close>, \<open>read\<close> reads a file; the font given to the toolkit is returned.\<close>

definition install_cjk_fonts :: "string option \<Rightarrow> (fpath \<Rightarrow> 'e + u8 list) \<Rightarrow> err + (string \<times> u8 list)" where
  "install_cjk_fonts root read =
     (case root of
        None \<Rightarrow> Inl (Msg ''SystemRoot is not set'')
      | Some r \<Rightarrow>
          (let dir = path_of r @ [''Fonts'']
           in case first_font (\<lambda>n. read (dir @ [n])) font_candidates of
                Some f \<Rightarrow> Inr f
              | None \<Rightarrow> Inl (Msg (''No CJK font found in '' @ r @ [CHR 92] @ ''Fonts''))))"

section \<open>Colours and the stamp\<close>

type_synonym rgb = "u8 \<times> u8 \<times> u8"

definition card_blue :: rgb where "card_blue = (0x1D, 0x4E, 0x9E)"
definition paper_white :: rgb where "paper_white = (0xF4, 0xF1, 0xE8)"
definition ink_black :: rgb where "ink_black = (0x1A, 0x1A, 0x1A)"
definition reader_green :: rgb where "reader_green = (0x2F, 0x9E, 0x63)"
definition vermilion :: rgb where "vermilion = (0xC2, 0x40, 0x2F)"

record stamp_view =
  stv_word :: string
  stv_fill :: rgb
  stv_ink :: rgb
  stv_word_color :: rgb
  stv_light :: "rgb option"
  stv_egress :: string

definition stamp_colors :: "primary \<Rightarrow> rgb \<times> rgb \<times> rgb \<times> rgb option" where
  "stamp_colors p =
     (case p of
        PrServiceDown \<Rightarrow> (vermilion, paper_white, vermilion, None)
      | PrConnected \<Rightarrow> (reader_green, ink_black, reader_green, Some reader_green)
      | PrWirelessOnline \<Rightarrow> (reader_green, ink_black, reader_green, Some reader_green)
      | PrDialing \<Rightarrow> (ink_black, paper_white, ink_black, Some paper_white)
      | PrBackoff \<Rightarrow> (ink_black, paper_white, ink_black, Some paper_white)
      | PrAuthFail \<Rightarrow> (vermilion, paper_white, vermilion, Some vermilion)
      | PrIdle \<Rightarrow> (paper_white, ink_black, ink_black, None))"

definition stamp_view_of :: "state_snapshot option \<Rightarrow> stamp_view option" where
  "stamp_view_of s =
     map_option (\<lambda>v. case stamp_colors (vw_primary v) of (fill, ink, color, light) \<Rightarrow>
       \<lparr>stv_word = word_zh (vw_primary v), stv_fill = fill, stv_ink = ink, stv_word_color = color, stv_light = light,
        stv_egress = egress_zh (vw_primary v)\<rparr>) (status_view_of s)"

section \<open>The card\<close>

text \<open>Strings are UTF-8: a character is a byte with the continuation bytes after it.\<close>

definition utf8_continues :: "char \<Rightarrow> bool" where
  "utf8_continues c \<longleftrightarrow> (of_char c :: nat) div 64 = 2"

function utf8_chars :: "string \<Rightarrow> string list" where
  "utf8_chars [] = []"
| "utf8_chars (c # cs) = (c # takeWhile utf8_continues cs) # utf8_chars (dropWhile utf8_continues cs)"
  by pat_completeness auto
termination by (relation "measure length") (auto simp: le_imp_less_Suc length_dropWhile_le)

fun chunks_of :: "nat \<Rightarrow> 'a list \<Rightarrow> 'a list list" where
  "chunks_of n xs = (if n = 0 \<or> xs = [] then [] else take n xs # chunks_of n (drop n xs))"

declare chunks_of.simps [simp del]

definition grouped_id :: "string \<Rightarrow> string" where
  "grouped_id sid = join '' '' (map concat (chunks_of 4 (utf8_chars sid)))"

definition load_student_id :: "'e + config \<Rightarrow> string option" where
  "load_student_id cfg =
     (case cfg of
        Inr c \<Rightarrow> (let s = ac_student_id (cf_account c) in if trim s = [] then None else Some s)
      | Inl _ \<Rightarrow> None)"

definition card_id :: "string option \<Rightarrow> string" where
  "card_id sid = (let s = (case sid of Some s \<Rightarrow> s | None \<Rightarrow> em_dash) in if s = em_dash then s else grouped_id s)"

section \<open>The receipt\<close>

definition heartbeat_zh :: "heartbeat_status \<Rightarrow> string" where
  "heartbeat_zh h =
     (case h of
        HbOff \<Rightarrow> [CHR 0xE5, CHR 0x85, CHR 0xB3, CHR 0xE9, CHR 0x97, CHR 0xAD]
      | HbRunning \<Rightarrow> [CHR 0xE8, CHR 0xBF, CHR 0x90, CHR 0xE8, CHR 0xA1, CHR 0x8C, CHR 0xE4, CHR 0xB8, CHR 0xAD]
      | HbError e \<Rightarrow> [CHR 0xE9, CHR 0x94, CHR 0x99, CHR 0xE8, CHR 0xAF, CHR 0xAF, CHR 0xEF, CHR 0xBC, CHR 0x88] @ e @ [CHR 0xEF, CHR 0xBC, CHR 0x89])"

definition wireless_zh :: "wireless_snapshot \<Rightarrow> string" where
  "wireless_zh w =
     (case (ws_ip w, ws_last_error w) of
        (Some ip, _) \<Rightarrow> wphase_zh (ws_phase w) @ '' '' @ ip
      | (None, Some e) \<Rightarrow> wphase_zh (ws_phase w) @ [CHR 0xEF, CHR 0xBC, CHR 0x88] @ e @ [CHR 0xEF, CHR 0xBC, CHR 0x89]
      | (None, None) \<Rightarrow> wphase_zh (ws_phase w))"

definition field_rows :: "u64 \<Rightarrow> state_snapshot \<Rightarrow> (string \<times> string) list" where
  "field_rows now s =
     [(''IP'', case sn_ip s of Some ip \<Rightarrow> ip | None \<Rightarrow> em_dash),
      ([CHR 0xE5, CHR 0x9C, CHR 0xA8, CHR 0xE7, CHR 0xBA, CHR 0xBF, CHR 0xE6, CHR 0x97, CHR 0xB6, CHR 0xE9, CHR 0x95, CHR 0xBF], uptime_text now s),
      ([CHR 0xE4, CHR 0xB8, CHR 0x8A, CHR 0xE6, CHR 0xAC, CHR 0xA1, CHR 0xE6, CHR 0x8E, CHR 0x89, CHR 0xE7, CHR 0xBA, CHR 0xBF], case sn_last_drop_reason s of Some r \<Rightarrow> r | None \<Rightarrow> em_dash),
      ([CHR 0xE5, CHR 0xBF, CHR 0x83, CHR 0xE8, CHR 0xB7, CHR 0xB3], heartbeat_zh (sn_heartbeat s)),
      ([CHR 0xE6, CHR 0x97, CHR 0xA0, CHR 0xE7, CHR 0xBA, CHR 0xBF], wireless_zh (sn_wireless s))]"

definition event_lines :: "state_snapshot \<Rightarrow> string list" where
  "event_lines s = (if sn_events s = [] then [[CHR 0xEF, CHR 0xBC, CHR 0x88, CHR 0xE6, CHR 0x9A, CHR 0x82, CHR 0xE6, CHR 0x97, CHR 0xA0, CHR 0xE4, CHR 0xBA, CHR 0x8B, CHR 0xE4, CHR 0xBB, CHR 0xB6, CHR 0xEF, CHR 0xBC, CHR 0x89]] else rev (sn_events s))"

section \<open>A frame\<close>

datatype gui_button = GbRedial | GbExclusive | GbStandby | GbStartService | GbChangeAccount | GbOpenLogs

text \<open>\<open>gi_mtime\<close> is the modification time of the configuration, \<open>gi_config\<close> what loading it gives.\<close>

record gui_input =
  gi_close :: bool
  gi_mtime :: "nat option"
  gi_config :: "err + config"
  gi_snapshot :: "state_snapshot option"
  gi_now :: u64
  gi_click :: "gui_button option"

record gui =
  gu_student_id :: "string option"
  gu_cfg_mtime :: "nat option"
  gu_font_ok :: bool
  gu_last_word :: "string option"

datatype gui_out = GoCancelClose | GoHide | GoStamp stamp_view | GoCard string | GoField string string | GoEvents "string list"
  | GoRadio net_mode | GoServiceDown | GoSend command | GoLaunchSetup "string list" | GoOpenLogs | GoNoFont

definition gui_new :: "nat option \<Rightarrow> 'e + config \<Rightarrow> bool \<Rightarrow> gui" where
  "gui_new mtime cfg font_ok =
     \<lparr>gu_student_id = load_student_id cfg, gu_cfg_mtime = mtime, gu_font_ok = font_ok, gu_last_word = None\<rparr>"

definition reload_account :: "gui_input \<Rightarrow> gui \<Rightarrow> gui" where
  "reload_account i g =
     (if gi_mtime i \<noteq> gu_cfg_mtime g
      then g\<lparr>gu_student_id := load_student_id (gi_config i), gu_cfg_mtime := gi_mtime i\<rparr> else g)"

definition mode_radios :: "gui_input \<Rightarrow> net_mode \<Rightarrow> gui_out list" where
  "mode_radios i m =
     GoRadio m # (case gi_click i of
        Some GbExclusive \<Rightarrow> [GoSend (SetMode WiredExclusive)]
      | Some GbStandby \<Rightarrow> [GoSend (SetMode WiredPlusStandby)]
      | _ \<Rightarrow> [])"

definition receipt_page :: "gui_input \<Rightarrow> state_snapshot \<Rightarrow> gui_out list" where
  "receipt_page i s =
     map (\<lambda>(label, v). GoField label v) (field_rows (gi_now i) s)
     @ (if gi_click i = Some GbRedial then [GoSend Redial] else [])
     @ mode_radios i (sn_mode s) @ [GoEvents (event_lines s)]"

definition service_down_page :: "gui_input \<Rightarrow> gui_out list" where
  "service_down_page i =
     GoServiceDown # (if gi_click i = Some GbStartService then [GoLaunchSetup [''--start-service'']] else [])"

definition soft_keys :: "gui_input \<Rightarrow> gui_out list" where
  "soft_keys i =
     (case gi_click i of
        Some GbChangeAccount \<Rightarrow> [GoLaunchSetup [''--repair'']]
      | Some GbOpenLogs \<Rightarrow> [GoOpenLogs]
      | _ \<Rightarrow> [])"

text \<open>\<open>None\<close> is the panic of the translation of a snapshot.\<close>

definition gui_frame :: "gui_input \<Rightarrow> gui \<Rightarrow> (gui_out list \<times> gui) option" where
  "gui_frame i g =
     (let closing = (if gi_close i then [GoCancelClose, GoHide] else []);
          g = reload_account i g
      in case stamp_view_of (gi_snapshot i) of
           None \<Rightarrow> None
         | Some v \<Rightarrow>
             Some (closing
               @ (if \<not> gu_font_ok g then [GoNoFont]
                  else [GoStamp v, GoCard (card_id (gu_student_id g))]
                    @ (case gi_snapshot i of Some s \<Rightarrow> receipt_page i s | None \<Rightarrow> service_down_page i)
                    @ soft_keys i),
               g\<lparr>gu_last_word := Some (stv_word v)\<rparr>))"

section \<open>One window, whatever happens\<close>

definition win_inv :: "win_sys \<Rightarrow> bool" where
  "win_inv s \<longleftrightarrow>
     (case wn_state s of
        GsAbsent \<Rightarrow> wn_spawning s = 0 \<and> wn_fresh s = 0 \<and> wn_open s = 0 \<and> wn_spawned s = 0
      | GsStarting \<Rightarrow> wn_open s = 0 \<and> wn_spawning s + wn_fresh s = 1 \<and> wn_spawned s = wn_fresh s
      | GsLive \<Rightarrow> wn_spawning s = 0 \<and> wn_fresh s = 0 \<and> wn_open s = 1 \<and> wn_spawned s = 1
      | GsDead _ \<Rightarrow> wn_spawning s = 0 \<and> wn_fresh s = 0 \<and> wn_open s = 0 \<and> wn_spawned s = 1)"

lemma win_step_inv: "win_step s s' \<Longrightarrow> win_inv s \<Longrightarrow> win_inv s'"
  by (induction rule: win_step.induct)
    (auto simp: win_inv_def show_or_focus_def thread_spawned_def window_ready_def thread_end_def split: gui_state.splits)

lemma win_reach_inv: "win_reach s \<Longrightarrow> win_inv s"
  by (induction rule: win_reach.induct) (auto intro: win_step_inv, simp add: win_inv_def win_new_def)

lemma dead_stays: "win_step s s' \<Longrightarrow> win_inv s \<Longrightarrow> wn_state s = GsDead r \<Longrightarrow> wn_state s' = GsDead r"
  by (induction rule: win_step.induct) (auto simp: win_inv_def show_or_focus_def)

text \<open>
  C34 (invariant). Whatever the order in which clicks, the creation of the thread, its window and its end happen: the
  process creates at most one window thread; the state says that a window is being created exactly as long as a
  caller or a thread is at it, and that it is live exactly as long as it is open; when the creation of the thread
  fails the state is absent again, without a thread having been made, and the next click starts a new creation; a
  window that has ended is never brought back.
\<close>

theorem one_window_per_process:
  assumes "win_reach s"
  shows "wn_spawned s \<le> 1
    \<and> (wn_state s = GsStarting \<longleftrightarrow> wn_spawning s + wn_fresh s = 1)
    \<and> (wn_state s = GsLive \<longleftrightarrow> wn_open s = 1)
    \<and> (wn_state s = GsAbsent \<longrightarrow> wn_state (show_or_focus s) = GsStarting)
    \<and> (wn_spawning s > 0 \<longrightarrow> (let f = thread_spawned False s
         in wn_state f = GsAbsent \<and> wn_spawned f = wn_spawned s \<and> wn_spawning f = 0
          \<and> wn_state (show_or_focus f) = GsStarting \<and> wn_spawning (show_or_focus f) = 1))
    \<and> (\<forall>r s'. wn_state s = GsDead r \<and> win_step s s' \<longrightarrow> wn_state s' = GsDead r)"
  using win_reach_inv [OF assms] dead_stays [of s]
  by (cases "wn_state s") (auto simp: win_inv_def show_or_focus_def thread_spawned_def Let_def)

definition demo_window :: win_sys where
  "demo_window = window_ready (thread_spawned True (show_or_focus (thread_spawned False (show_or_focus (show_or_focus win_new)))))"

lemma demo_window_reached: "win_reach demo_window"
  unfolding demo_window_def
  by (intro win_more [OF _ win_ready] win_more [OF _ win_spawn] win_more [OF _ win_show] win_start)
    (simp_all add: show_or_focus_def thread_spawned_def win_new_def)

theorem one_window_per_process_witness: "wn_spawned demo_window \<le> 1 \<and> wn_open demo_window = 1"
proof -
  have "wn_state demo_window = GsLive" by (simp add: demo_window_def window_ready_def)
  with one_window_per_process [OF demo_window_reached] show ?thesis by simp
qed

section \<open>The window and the tray agree\<close>

lemma stamp_exists: "stamp_view_of s \<noteq> None"
  using view_light [of s] by (auto simp: stamp_view_of_def)

lemma frame_never_panics: "gui_frame i g \<noteq> None"
  using stamp_exists [of "gi_snapshot i"] by (auto simp: gui_frame_def Let_def)

lemma colours_differ:
  "reader_green \<noteq> paper_white" "reader_green \<noteq> vermilion" "paper_white \<noteq> vermilion"
  by (simp_all add: reader_green_def paper_white_def vermilion_def)

lemma light_is_icon:
  assumes "stamp_view_of s = Some v"
  shows "\<exists>k. icon_kind_of s = Some k \<and> (k \<in> {IcWiredUp, IcWirelessUp} \<longleftrightarrow> stv_light v = Some reader_green)
    \<and> (k = IcDown \<longleftrightarrow> stv_light v = None)"
proof -
  obtain w where st: "status_view_of s = Some w" using assms by (auto simp: stamp_view_of_def)
  have pl: "vw_light w = (case vw_primary w of PrConnected \<Rightarrow> LightWired | PrWirelessOnline \<Rightarrow> LightWireless
      | PrServiceDown \<Rightarrow> LightOff | PrIdle \<Rightarrow> LightOff | _ \<Rightarrow> LightBusy)"
  proof (cases s)
    case None
    with st show ?thesis by (auto simp: status_view_of_def)
  next
    case (Some t)
    with st show ?thesis
      by (cases "sn_status t"; cases "ws_phase (sn_wireless t) = WOnline") (auto simp: status_view_of_def primary_of_def)
  qed
  define icon where "icon = (case vw_light w of LightWired \<Rightarrow> IcWiredUp | LightWireless \<Rightarrow> IcWirelessUp
    | LightBusy \<Rightarrow> IcBackoff | LightOff \<Rightarrow> IcDown)"
  have i: "icon_kind_of s = Some icon" using st by (simp add: icon_kind_of_def icon_def)
  have l: "stv_light v = snd (snd (snd (stamp_colors (vw_primary w))))"
    using assms st by (auto simp: stamp_view_of_def split_beta)
  have "(icon \<in> {IcWiredUp, IcWirelessUp} \<longleftrightarrow> stv_light v = Some reader_green) \<and> (icon = IcDown \<longleftrightarrow> stv_light v = None)"
    using colours_differ by (cases "vw_primary w") (simp_all add: l icon_def pl stamp_colors_def)
  with i show ?thesis by (intro exI [of _ icon] conjI) simp_all
qed

definition asks :: "gui_button option \<Rightarrow> command \<Rightarrow> bool" where
  "asks b c \<longleftrightarrow> (b, c) \<in> {(Some GbRedial, Redial), (Some GbExclusive, SetMode WiredExclusive), (Some GbStandby, SetMode WiredPlusStandby)}"

lemma receipt_sends: "GoSend c \<in> set (receipt_page i s) \<longleftrightarrow> asks (gi_click i) c"
  by (cases "gi_click i"; (cases "the (gi_click i)")?) (auto simp: receipt_page_def mode_radios_def asks_def)

lemma keys_send_nothing: "GoSend c \<notin> set (soft_keys i)" "GoSend c \<notin> set (service_down_page i)"
  by (simp_all add: soft_keys_def service_down_page_def split: option.split gui_button.split)

lemma pages_never_close:
  "GoCancelClose \<notin> set (receipt_page i s)" "GoCancelClose \<notin> set (service_down_page i)" "GoCancelClose \<notin> set (soft_keys i)"
proof -
  show "GoCancelClose \<notin> set (receipt_page i s)"
    by (cases "gi_click i"; (cases "the (gi_click i)")?) (auto simp: receipt_page_def mode_radios_def)
  show "GoCancelClose \<notin> set (service_down_page i)" "GoCancelClose \<notin> set (soft_keys i)"
    by (simp_all add: soft_keys_def service_down_page_def split: option.split gui_button.split)
qed

text \<open>
  C35 (functional). A frame of the main window never panics; its reader light is green exactly when the icon of the tray
  is one of the two that say the network is up, and dark exactly when the icon is the grey one; it sends a command
  exactly when the button of this command is clicked and the service answers; closing it only hides it; and the card
  shows the student number of the configuration as it is now, when the file has changed since the last frame.
\<close>

theorem window_agrees_with_tray:
  assumes "gu_font_ok g"
  shows "\<exists>outs g' v k. gui_frame i g = Some (outs, g') \<and> GoStamp v \<in> set outs \<and> icon_kind_of (gi_snapshot i) = Some k
    \<and> (k \<in> {IcWiredUp, IcWirelessUp} \<longleftrightarrow> stv_light v = Some reader_green) \<and> (k = IcDown \<longleftrightarrow> stv_light v = None)
    \<and> (\<forall>c. GoSend c \<in> set outs \<longleftrightarrow> gi_snapshot i \<noteq> None \<and> asks (gi_click i) c)
    \<and> (gi_close i \<longleftrightarrow> GoCancelClose \<in> set outs \<and> GoHide \<in> set outs)
    \<and> GoCard (card_id (if gi_mtime i = gu_cfg_mtime g then gu_student_id g else load_student_id (gi_config i))) \<in> set outs"
proof -
  obtain v where v: "stamp_view_of (gi_snapshot i) = Some v" using stamp_exists by blast
  from light_is_icon [OF v] obtain k where k: "icon_kind_of (gi_snapshot i) = Some k
    \<and> (k \<in> {IcWiredUp, IcWirelessUp} \<longleftrightarrow> stv_light v = Some reader_green) \<and> (k = IcDown \<longleftrightarrow> stv_light v = None)"
    by (rule exE)
  let ?page = "case gi_snapshot i of Some s \<Rightarrow> receipt_page i s | None \<Rightarrow> service_down_page i"
  have quiet: "GoCancelClose \<notin> set (?page @ soft_keys i)" using pages_never_close [of i] by (simp split: option.split)
  have sends: "GoSend c \<in> set ?page \<longleftrightarrow> gi_snapshot i \<noteq> None \<and> asks (gi_click i) c" for c
    by (simp add: receipt_sends keys_send_nothing split: option.split)
  let ?outs = "(if gi_close i then [GoCancelClose, GoHide] else [])
      @ [GoStamp v, GoCard (card_id (gu_student_id (reload_account i g)))] @ ?page @ soft_keys i"
  let ?g = "(reload_account i g)\<lparr>gu_last_word := Some (stv_word v)\<rparr>"
  have f: "gui_frame i g = Some (?outs, ?g)" using assms v by (simp add: gui_frame_def Let_def reload_account_def)
  have c: "gi_close i \<longleftrightarrow> GoCancelClose \<in> set ?outs \<and> GoHide \<in> set ?outs" using quiet by auto
  have s: "GoSend c \<in> set ?outs \<longleftrightarrow> gi_snapshot i \<noteq> None \<and> asks (gi_click i) c" for c
    using sends [of c] keys_send_nothing(1) [of c i] by auto
  have r: "GoCard (card_id (if gi_mtime i = gu_cfg_mtime g then gu_student_id g else load_student_id (gi_config i))) \<in> set ?outs"
    by (simp add: reload_account_def)
  have t: "GoStamp v \<in> set ?outs" by simp
  show ?thesis
    by (rule exI [of _ ?outs], rule exI [of _ ?g], rule exI [of _ v], rule exI [of _ k])
      (intro conjI f t c r allI s; use k in simp)
qed

definition demo_gui_input :: gui_input where
  "demo_gui_input = \<lparr>gi_close = True, gi_mtime = None, gi_config = Inl (Msg []), gi_snapshot = None, gi_now = 0, gi_click = None\<rparr>"

theorem window_agrees_with_tray_witness:
  "\<exists>outs g'. gui_frame demo_gui_input (gui_new None (Inl ()) True) = Some (outs, g') \<and> GoHide \<in> set outs"
proof -
  have font: "gu_font_ok (gui_new None (Inl ()) True)" by (simp add: gui_new_def)
  obtain outs g' where "gui_frame demo_gui_input (gui_new None (Inl ()) True) = Some (outs, g')"
    "gi_close demo_gui_input \<longleftrightarrow> GoCancelClose \<in> set outs \<and> GoHide \<in> set outs"
    using window_agrees_with_tray [OF font, of demo_gui_input] by blast
  then show ?thesis by (simp add: demo_gui_input_def)
qed

lemma grouped_id_prints_like_card_number:
  "grouped_id ''3124000000'' = ''3124 0000 00''" "grouped_id [] = []" "grouped_id ''1234567890123456'' = ''1234 5678 9012 3456''"
  by code_simp+

end
