(* ===== verification/Http_Get.thy ===== *)
theory Http_Get
  imports Http Files Payload
begin

text \<open>
  The transport of \<open>src/src/http.rs\<close>: a whole request of the synchronous client, in which every call on the socket gets
  the time that is left of one budget, and the asynchronous client, which the runtime cuts off at the deadline. The
  socket and the clock are a record of functions; \<open>lossy\<close> is the lossy UTF-8 decoding. A host that is not an IPv4
  address is refused here; an IPv6 address, which the code hands to its IPv4 socket, is among them.
\<close>

section \<open>The synchronous client\<close>

record http_request =
  rq_url :: string
  rq_bind_ip :: ipv4
  rq_user_agent :: string
  rq_timeout :: duration
  rq_max_bytes :: nat
  rq_policy :: read_policy

text \<open>\<open>sk_write\<close> and \<open>sk_read\<close> set the time limit of the call before it; a write returns how much was taken.\<close>

record 'w sock_api =
  sk_now :: "'w \<Rightarrow> duration \<times> 'w"
  sk_new :: "'w \<Rightarrow> (unit, 'w) outcome"
  sk_bind :: "ipv4 \<Rightarrow> 'w \<Rightarrow> (unit, 'w) outcome"
  sk_connect :: "ipv4 \<times> u16 \<Rightarrow> duration \<Rightarrow> 'w \<Rightarrow> (unit, 'w) outcome"
  sk_write :: "duration \<Rightarrow> u8 list \<Rightarrow> 'w \<Rightarrow> (nat, 'w) outcome"
  sk_read :: "duration \<Rightarrow> nat \<Rightarrow> 'w \<Rightarrow> (u8 list, 'w) outcome"

definition target_address :: "string \<Rightarrow> err + target \<times> (ipv4 \<times> u16)" where
  "target_address url =
     (case parse_url url of
        None \<Rightarrow> Inl (Msg ''Unsupported URL (http only)'')
      | Some t \<Rightarrow> (case parse_ipv4 (t_host t) of
                    None \<Rightarrow> Inl (Msg (''Bad host in URL: '' @ t_host t))
                  | Some ip \<Rightarrow> Inr (t, ip, t_port t)))"

definition time_left :: "'w sock_api \<Rightarrow> duration \<Rightarrow> 'w \<Rightarrow> (duration, 'w) outcome" where
  "time_left K deadline w =
     (case sk_now K w of (now, w) \<Rightarrow>
        (if now < deadline then Inr (deadline - now) else Inl (Msg ''HTTP deadline exceeded''), w))"

function write_request :: "'w sock_api \<Rightarrow> duration \<Rightarrow> u8 list \<Rightarrow> 'w \<Rightarrow> (unit, 'w) outcome" where
  "write_request K deadline rest w =
     (if rest = [] then (Inr (), w)
      else then_do (time_left K deadline w) (\<lambda>budget w.
           case sk_write K budget rest w of
             (Inl e, w) \<Rightarrow> (Inl e, w)
           | (Inr n, w) \<Rightarrow>
               if n = 0 then (Inl (Msg ''HTTP write returned zero''), w)
               else write_request K deadline (drop n rest) w))"
  by pat_completeness auto
termination by (relation "measure (\<lambda>(_, _, rest, _). length rest)") auto

declare write_request.simps [simp del]

text \<open>Reading; a limit that cannot be set and an elapsed budget are failed reads.\<close>

definition read_chunk :: "'w sock_api \<Rightarrow> duration \<Rightarrow> nat \<Rightarrow> 'w \<Rightarrow> (u8 list, 'w) outcome" where
  "read_chunk K deadline limit w =
     then_do (time_left K deadline w) (\<lambda>budget w. case sk_read K budget limit w of
        (Inl e, w) \<Rightarrow> (Inl e, w) | (Inr bytes, w) \<Rightarrow> (Inr (take limit bytes), w))"

function read_response :: "(nat \<Rightarrow> 'w \<Rightarrow> (u8 list, 'w) outcome) \<Rightarrow> read_policy \<Rightarrow> nat \<Rightarrow> u8 list \<Rightarrow> 'w \<Rightarrow> (u8 list, 'w) outcome" where
  "read_response rd policy max_bytes buf w =
     (if length buf < max_bytes
      then (let limit = min (max_bytes - length buf) 4096 in
            case rd limit w of
              (Inl e, w) \<Rightarrow>
                if \<not> read_acceptable policy False (buf \<noteq> []) then (Inl (Ctx ''read response failed'' e), w) else (Inr buf, w)
            | (Inr bytes, w) \<Rightarrow>
                (let chunk = take limit bytes in
                 if chunk = [] then (Inr buf, w)
                 else if policy = AcceptPartial \<and> headers_complete (buf @ chunk) then (Inr (buf @ chunk), w)
                 else read_response rd policy max_bytes (buf @ chunk) w))
      else (Inr buf, w))"
  by pat_completeness auto
termination
  by (relation "measure (\<lambda>(rd, policy, max_bytes, buf, w). max_bytes - length buf)")
     (auto simp: min_def intro!: diff_less_mono2 split: if_splits)

declare read_response.simps [simp del]

definition http_failure :: "http_error \<Rightarrow> err" where
  "http_failure e =
     (case e of
        IncompleteHeaders \<Rightarrow> Msg ''Incomplete HTTP response headers''
      | MalformedStatusLine \<Rightarrow> Msg ''Malformed HTTP status line''
      | ReadFailed \<Rightarrow> Msg ''read response failed'')"

definition parsed_response :: "(u8 list \<Rightarrow> string) \<Rightarrow> u8 list \<Rightarrow> err + response" where
  "parsed_response lossy buf = (case response_of lossy buf of Inl e \<Rightarrow> Inl (http_failure e) | Inr r \<Rightarrow> Inr r)"

definition http_get :: "'w sock_api \<Rightarrow> (u8 list \<Rightarrow> string) \<Rightarrow> http_request \<Rightarrow> 'w \<Rightarrow> (response, 'w) outcome" where
  "http_get K lossy rq w =
     (case sk_now K w of (now, w) \<Rightarrow>
      let deadline = now + rq_timeout rq in
      case target_address (rq_url rq) of
        Inl e \<Rightarrow> (Inl e, w)
      | Inr (target, addr) \<Rightarrow>
          then_do (sk_new K w) (\<lambda>_ w.
          then_do (sk_bind K (rq_bind_ip rq) w) (\<lambda>_ w.
          then_do (time_left K deadline w) (\<lambda>budget w.
          then_do (sk_connect K addr budget w) (\<lambda>_ w.
          then_do (write_request K deadline (bytes_of (request_text target (rq_user_agent rq))) w) (\<lambda>_ w.
          then_do (read_response (read_chunk K deadline) (rq_policy rq) (rq_max_bytes rq) [] w) (\<lambda>buf w.
            (parsed_response lossy buf, w))))))))"

section \<open>The asynchronous client\<close>

text \<open>
  The calls have no limits of their own; one that never completes is \<open>None\<close>. The world is dropped with the future, so
  only the result and the time are left.
\<close>

record 'w async_api =
  as_new :: "'w \<Rightarrow> (unit, 'w) outcome"
  as_bind :: "ipv4 \<Rightarrow> 'w \<Rightarrow> (unit, 'w) outcome"
  as_connect :: "ipv4 \<times> u16 \<Rightarrow> 'w \<Rightarrow> (unit, 'w) outcome option"
  as_write_all :: "u8 list \<Rightarrow> 'w \<Rightarrow> (unit, 'w) outcome option"
  as_read :: "nat \<Rightarrow> 'w \<Rightarrow> (u8 list, 'w) outcome option"

function read_response_async :: "'w async_api \<Rightarrow> read_policy \<Rightarrow> nat \<Rightarrow> u8 list \<Rightarrow> 'w \<Rightarrow> (u8 list, 'w) outcome option" where
  "read_response_async A policy max_bytes buf w =
     (if length buf < max_bytes
      then (let limit = min (max_bytes - length buf) 4096 in
            case as_read A limit w of
              None \<Rightarrow> None
            | Some (Inl e, w) \<Rightarrow>
                Some (if \<not> read_acceptable policy False (buf \<noteq> []) then (Inl (Ctx ''read response failed'' e), w) else (Inr buf, w))
            | Some (Inr bytes, w) \<Rightarrow>
                (let chunk = take limit bytes in
                 if chunk = [] then Some (Inr buf, w)
                 else if policy = AcceptPartial \<and> headers_complete (buf @ chunk) then Some (Inr (buf @ chunk), w)
                 else read_response_async A policy max_bytes (buf @ chunk) w))
      else Some (Inr buf, w))"
  by pat_completeness auto
termination
  by (relation "measure (\<lambda>(A, policy, max_bytes, buf, w). max_bytes - length buf)")
     (auto simp: min_def intro!: diff_less_mono2 split: if_splits)

declare read_response_async.simps [simp del]

definition async_io :: "'w async_api \<Rightarrow> (u8 list \<Rightarrow> string) \<Rightarrow> http_request \<Rightarrow> 'w \<Rightarrow> (response, 'w) outcome option" where
  "async_io A lossy rq w =
     (case target_address (rq_url rq) of
        Inl e \<Rightarrow> Some (Inl e, w)
      | Inr (target, addr) \<Rightarrow>
          (case then_do (as_new A w) (\<lambda>_ w. as_bind A (rq_bind_ip rq) w) of
             (Inl e, w) \<Rightarrow> Some (Inl e, w)
           | (Inr _, w) \<Rightarrow>
               (case as_connect A addr w of
                  None \<Rightarrow> None
                | Some (Inl e, w) \<Rightarrow> Some (Inl e, w)
                | Some (Inr _, w) \<Rightarrow>
                    (case as_write_all A (bytes_of (request_text target (rq_user_agent rq))) w of
                       None \<Rightarrow> None
                     | Some (Inl e, w) \<Rightarrow> Some (Inl e, w)
                     | Some (Inr _, w) \<Rightarrow>
                         map_option (\<lambda>r. then_do r (\<lambda>buf w. (parsed_response lossy buf, w)))
                           (read_response_async A (rq_policy rq) (rq_max_bytes rq) [] w)))))"

text \<open>\<open>T\<close> is the time in a world.\<close>

definition get_async :: "'w async_api \<Rightarrow> ('w \<Rightarrow> duration) \<Rightarrow> (u8 list \<Rightarrow> string) \<Rightarrow> http_request \<Rightarrow> 'w \<Rightarrow> (err + response) \<times> duration" where
  "get_async A T lossy rq w =
     (let deadline = T w + rq_timeout rq
      in case async_io A lossy rq w of
           None \<Rightarrow> (Inl (Msg ''HTTP request deadline exceeded''), deadline)
         | Some (r, w) \<Rightarrow>
             if T w \<le> deadline then (r, T w) else (Inl (Msg ''HTTP request deadline exceeded''), deadline))"

section \<open>The loop of the requests is the loop that was verified\<close>

text \<open>Whatever the reads return, the stateful loop does what the loop over a list of results does.\<close>

lemma response_is_loop:
  "\<exists>rd'. (case read_loop policy max_bytes rd' i buf of
       Inr out \<Rightarrow> fst (read_response rd policy max_bytes buf w) = Inr out
     | Inl _ \<Rightarrow> \<exists>e. fst (read_response rd policy max_bytes buf w) = Inl (Ctx ''read response failed'' e))"
proof (induction rd policy max_bytes buf w arbitrary: i rule: read_response.induct)
  case (1 rd policy max_bytes buf w)
  show ?case
  proof (cases "length buf < max_bytes")
    case False
    then show ?thesis by (simp add: read_loop.simps read_response.simps)
  next
    case True
    define limit where "limit = min (max_bytes - length buf) 4096"
    obtain r w1 where r: "rd limit w = (r, w1)" by force
    show ?thesis
    proof (cases r)
      case (Inl e)
      then show ?thesis using True r
        by (intro exI [of _ "\<lambda>_ _. ReadErr"]) (simp add: read_loop.simps read_response.simps Let_def limit_def [symmetric])
    next
      case (Inr bytes)
      let ?chunk = "take limit bytes"
      show ?thesis
      proof (cases "?chunk = [] \<or> policy = AcceptPartial \<and> headers_complete (buf @ ?chunk)")
        case True': True
        then show ?thesis using True r Inr
          by (intro exI [of _ "\<lambda>_ _. ReadOk bytes"], subst read_loop.simps, subst read_response.simps)
            (auto simp: Let_def limit_def [symmetric])
      next
        case go: False
        from go have go1: "?chunk \<noteq> []" and go2: "\<not> (policy = AcceptPartial \<and> headers_complete (buf @ ?chunk))" by auto
        obtain rd' where rd': "case read_loop policy max_bytes rd' (Suc i) (buf @ ?chunk) of
             Inr out \<Rightarrow> fst (read_response rd policy max_bytes (buf @ ?chunk) w1) = Inr out
           | Inl _ \<Rightarrow> \<exists>e. fst (read_response rd policy max_bytes (buf @ ?chunk) w1) = Inl (Ctx ''read response failed'' e)"
          using "1.IH" [OF True limit_def r [symmetric] Inr refl go1 go2, of "Suc i"] by blast
        let ?rd = "\<lambda>j l. if j = i then ReadOk bytes else rd' j l"
        have later: "read_loop policy max_bytes ?rd j b = read_loop policy max_bytes rd' j b" if "i < j" for j b
          using that
        proof (induction policy max_bytes rd' j b rule: read_loop.induct)
          case (1 policy max_bytes rd' j b)
          then show ?case
            by (subst (1 2) read_loop.simps) (auto simp: Let_def split: read_result.splits)
        qed
        have "read_loop policy max_bytes ?rd i buf = read_loop policy max_bytes rd' (Suc i) (buf @ ?chunk)"
          using True go1 go2 later [of "Suc i" "buf @ ?chunk"]
          by (subst (1) read_loop.simps) (auto simp: Let_def limit_def [symmetric])
        moreover have "read_response rd policy max_bytes buf w = read_response rd policy max_bytes (buf @ ?chunk) w1"
          using True go1 go2 r Inr by (subst (1) read_response.simps) (auto simp: Let_def limit_def [symmetric])
        ultimately show ?thesis using rd' by (intro exI [of _ ?rd]) (auto split: sum.splits)
      qed
    qed
  qed
qed

section \<open>A request ends in its time\<close>

text \<open>
  \<open>T\<close> is the time in a world. Time passes in the three calls that wait, and each returns within its limit and the
  granularity \<open>g\<close> of the timers.
\<close>

definition sock_laws :: "'w sock_api \<Rightarrow> ('w \<Rightarrow> duration) \<Rightarrow> duration \<Rightarrow> bool" where
  "sock_laws K T g \<longleftrightarrow>
     (\<forall>w now w'. sk_now K w = (now, w') \<longrightarrow> now = T w \<and> T w' = T w)
   \<and> (\<forall>w r w'. sk_new K w = (r, w') \<longrightarrow> T w' = T w)
   \<and> (\<forall>ip w r w'. sk_bind K ip w = (r, w') \<longrightarrow> T w' = T w)
   \<and> (\<forall>a d w r w'. sk_connect K a d w = (r, w') \<longrightarrow> T w' \<le> T w + d + g)
   \<and> (\<forall>d bs w r w'. sk_write K d bs w = (r, w') \<longrightarrow> T w' \<le> T w + d + g)
   \<and> (\<forall>d n w r w'. sk_read K d n w = (r, w') \<longrightarrow> T w' \<le> T w + d + g)"

lemma time_left_cases:
  assumes "sock_laws K T g" "time_left K deadline w = (r, w')"
  shows "T w' = T w \<and> (\<forall>d. r = Inr d \<longrightarrow> T w + d = deadline)"
  using assms by (auto simp: time_left_def sock_laws_def split: prod.splits if_splits)

text \<open>A call that gets the rest of the time leaves at most the granularity over.\<close>

lemma budgeted:
  assumes L: "sock_laws K T g"
    and call: "\<And>d w r w'. f d w = (r, w') \<Longrightarrow> T w' \<le> T w + d + g"
    and e: "then_do (time_left K deadline w) f = (r, w')" and t: "T w \<le> deadline + g"
  shows "T w' \<le> deadline + g"
  using e
proof (cases rule: then_doE)
  case (ok d w1)
  with time_left_cases [OF L ok(1)] call [OF ok(2)] show ?thesis by auto
next
  case (fail e)
  with time_left_cases [OF L fail(1)] t show ?thesis by simp
qed

lemma write_in_time:
  "sock_laws K T g \<Longrightarrow> T w \<le> deadline + g \<Longrightarrow> write_request K deadline rest w = (r, w') \<Longrightarrow> T w' \<le> deadline + g"
proof (induction K deadline rest w arbitrary: r w' rule: write_request.induct)
  case (1 K deadline rest w)
  show ?case
  proof (cases "rest = []")
    case True
    with "1.prems" show ?thesis by (simp add: write_request.simps)
  next
    case False
    then have e: "then_do (time_left K deadline w) (\<lambda>budget w. case sk_write K budget rest w of
        (Inl e, w) \<Rightarrow> (Inl e, w)
      | (Inr n, w) \<Rightarrow> if n = 0 then (Inl (Msg ''HTTP write returned zero''), w) else write_request K deadline (drop n rest) w) = (r, w')"
      using "1.prems"(3) by (subst (asm) write_request.simps) simp
    then show ?thesis
    proof (cases rule: then_doE)
      case (fail e)
      with time_left_cases [OF "1.prems"(1) fail(1)] "1.prems"(2) show ?thesis by simp
    next
      case (ok d w1)
      obtain x w2 where wr: "sk_write K d rest w1 = (x, w2)" by force
      have t2: "T w2 \<le> deadline + g"
        using time_left_cases [OF "1.prems"(1) ok(1)] "1.prems"(1) wr unfolding sock_laws_def by fastforce
      show ?thesis
      proof (cases "\<exists>n. x = Inr n \<and> n \<noteq> 0")
        case True
        then obtain n where n: "x = Inr n" "n \<noteq> 0" by blast
        with ok(2) wr have "write_request K deadline (drop n rest) w2 = (r, w')" by simp
        with "1.IH" [OF False wr [symmetric] n(1) n(2) "1.prems"(1) t2] show ?thesis by blast
      next
        case False
        with ok(2) wr t2 show ?thesis by (cases x) auto
      qed
    qed
  qed
qed

lemma read_in_time:
  "\<forall>limit w r w'. T w \<le> limit_time \<longrightarrow> rd limit w = (r, w') \<longrightarrow> T w' \<le> limit_time \<Longrightarrow> T w \<le> limit_time \<Longrightarrow>
    read_response rd policy max_bytes buf w = (r, w') \<Longrightarrow> T w' \<le> limit_time"
proof (induction rd policy max_bytes buf w arbitrary: r w' rule: read_response.induct)
  case (1 rd policy max_bytes buf w)
  show ?case
  proof (cases "length buf < max_bytes")
    case False
    with "1.prems" show ?thesis by (simp add: read_response.simps)
  next
    case True
    define limit where "limit = min (max_bytes - length buf) 4096"
    obtain x w1 where x: "rd limit w = (x, w1)" by force
    with "1.prems"(1,2) have t1: "T w1 \<le> limit_time" by blast
    show ?thesis
    proof (cases "\<exists>bytes. x = Inr bytes \<and> take limit bytes \<noteq> [] \<and> \<not> (policy = AcceptPartial \<and> headers_complete (buf @ take limit bytes))")
      case False
      have "w' = w1"
        using "1.prems"(3) True x False
        by (subst (asm) read_response.simps) (auto simp: Let_def limit_def [symmetric] split: sum.splits if_splits)
      with t1 show ?thesis by simp
    next
      case True': True
      then obtain bytes where b: "x = Inr bytes" "take limit bytes \<noteq> []"
        "\<not> (policy = AcceptPartial \<and> headers_complete (buf @ take limit bytes))" by blast
      have "read_response rd policy max_bytes (buf @ take limit bytes) w1 = (r, w')"
        using "1.prems"(3) True x b by (subst (asm) read_response.simps) (auto simp: Let_def limit_def [symmetric])
      with "1.IH" [OF True limit_def x [symmetric] b(1) refl b(2,3) "1.prems"(1) t1] show ?thesis by blast
    qed
  qed
qed

lemma then_do_in_time:
  assumes "then_do x f = (r, w')" "\<And>a w1. x = (Inr a, w1) \<Longrightarrow> f a w1 = (r, w') \<Longrightarrow> T w' \<le> t" "\<And>e. x = (Inl e, w') \<Longrightarrow> T w' \<le> t"
  shows "T w' \<le> t"
  using assms(1) by (cases rule: then_doE) (use assms(2,3) in auto)

text \<open>The calls from the connection on.\<close>

definition exchange :: "'w sock_api \<Rightarrow> duration \<Rightarrow> ipv4 \<times> u16 \<Rightarrow> u8 list \<Rightarrow> http_request \<Rightarrow> 'w \<Rightarrow> (u8 list, 'w) outcome" where
  "exchange K deadline addr text rq w =
     then_do (then_do (time_left K deadline w) (\<lambda>budget w. sk_connect K addr budget w)) (\<lambda>_ w.
     then_do (write_request K deadline text w) (\<lambda>_ w.
       read_response (read_chunk K deadline) (rq_policy rq) (rq_max_bytes rq) [] w))"

lemma then_do_assoc: "then_do (then_do x f) h = then_do x (\<lambda>a w. then_do (f a w) h)"
  by (cases x; cases "fst x") (auto simp: then_do_def)

lemma exchange_in_time:
  assumes L: "sock_laws K T g" and e: "exchange K deadline addr text rq w = (r, w')" and t: "T w \<le> deadline + g"
  shows "T w' \<le> deadline + g"
proof -
  have connect: "T w' \<le> T w + d + g" if "sk_connect K a d w = (r, w')" for a d w r w'
    using L that unfolding sock_laws_def by blast
  have receive: "T w' \<le> T w + d + g" if "(case sk_read K d n w of (Inl e, w) \<Rightarrow> (Inl e, w) | (Inr bytes, w) \<Rightarrow> (Inr (take n bytes), w)) = (r, w')"
    for d n w and r :: "err + u8 list" and w'
    using L that unfolding sock_laws_def by (auto split: prod.splits sum.splits)
  have chunk: "T w' \<le> deadline + g" if "T w \<le> deadline + g" "read_chunk K deadline limit w = (r, w')" for limit w r w'
    by (rule budgeted [OF L _ that(2) [unfolded read_chunk_def] that(1)]) (rule receive)
  show ?thesis
  proof (rule then_do_in_time [OF e [unfolded exchange_def]])
    fix u w1
    assume c: "then_do (time_left K deadline w) (\<lambda>budget w. sk_connect K addr budget w) = (Inr u, w1)"
      and rest: "then_do (write_request K deadline text w1) (\<lambda>_ w.
        read_response (read_chunk K deadline) (rq_policy rq) (rq_max_bytes rq) [] w) = (r, w')"
    have t1: "T w1 \<le> deadline + g" by (rule budgeted [OF L connect c t])
    show "T w' \<le> deadline + g"
    proof (rule then_do_in_time [OF rest])
      fix v w2
      assume "write_request K deadline text w1 = (Inr v, w2)"
        and rd: "read_response (read_chunk K deadline) (rq_policy rq) (rq_max_bytes rq) [] w2 = (r, w')"
      then have t2: "T w2 \<le> deadline + g" using write_in_time [OF L t1] by blast
      show "T w' \<le> deadline + g" by (rule read_in_time [where T = T and limit_time = "deadline + g", OF _ t2 rd]) (use chunk in blast)
    qed (use write_in_time [OF L t1] in blast)
  next
    fix x assume "then_do (time_left K deadline w) (\<lambda>budget w. sk_connect K addr budget w) = (Inl x, w')"
    from budgeted [OF L connect this t] show "T w' \<le> deadline + g" .
  qed
qed

lemma http_get_exchange:
  "http_get K lossy rq w =
     (case sk_now K w of (now, w) \<Rightarrow>
      case target_address (rq_url rq) of
        Inl e \<Rightarrow> (Inl e, w)
      | Inr (target, addr) \<Rightarrow>
          then_do (sk_new K w) (\<lambda>_ w. then_do (sk_bind K (rq_bind_ip rq) w) (\<lambda>_ w.
          then_do (exchange K (now + rq_timeout rq) addr (bytes_of (request_text target (rq_user_agent rq))) rq w) (\<lambda>buf w.
            (parsed_response lossy buf, w)))))"
  by (simp add: http_get_def exchange_def then_do_assoc Let_def split: prod.split sum.split)

lemma get_in_time:
  assumes L: "sock_laws K T g" and e: "http_get K lossy rq w = (r, w')"
  shows "T w' \<le> T w + rq_timeout rq + g"
proof -
  obtain now w1 where n: "sk_now K w = (now, w1)" by force
  with L have t1: "now = T w" "T w1 = T w" by (auto simp: sock_laws_def)
  show ?thesis
  proof (cases "target_address (rq_url rq)")
    case (Inl x)
    with e n t1 show ?thesis by (simp add: http_get_exchange)
  next
    case (Inr y)
    obtain target addr where y: "y = (target, addr)" by (cases y)
    let ?text = "bytes_of (request_text target (rq_user_agent rq))"
    from e n t1 Inr y have e': "then_do (sk_new K w1) (\<lambda>_ w2. then_do (sk_bind K (rq_bind_ip rq) w2) (\<lambda>_ w3.
        then_do (exchange K (T w + rq_timeout rq) addr ?text rq w3) (\<lambda>buf w. (parsed_response lossy buf, w)))) = (r, w')"
      by (simp add: http_get_exchange)
    have new: "T w' = T w" if "sk_new K w = (r, w')" for w r w' using L that by (auto simp: sock_laws_def)
    have bind: "T w' = T w" if "sk_bind K ip w = (r, w')" for ip w r w' using L that by (auto simp: sock_laws_def)
    show ?thesis
    proof (rule then_do_in_time [OF e'])
      fix u w2
      assume nw: "sk_new K w1 = (Inr u, w2)" and e2: "then_do (sk_bind K (rq_bind_ip rq) w2) (\<lambda>_ w3.
        then_do (exchange K (T w + rq_timeout rq) addr ?text rq w3) (\<lambda>buf w. (parsed_response lossy buf, w))) = (r, w')"
      show "T w' \<le> T w + rq_timeout rq + g"
      proof (rule then_do_in_time [OF e2])
        fix v w3
        assume bd: "sk_bind K (rq_bind_ip rq) w2 = (Inr v, w3)" and e3: "then_do (exchange K (T w + rq_timeout rq) addr ?text rq w3)
          (\<lambda>buf w. (parsed_response lossy buf, w)) = (r, w')"
        have t3: "T w3 \<le> T w + rq_timeout rq + g" using new [OF nw] bind [OF bd] t1 by simp
        show "T w' \<le> T w + rq_timeout rq + g"
          by (rule then_do_in_time [OF e3]) (use exchange_in_time [OF L _ t3] in auto)
      qed (use new [OF nw] bind t1 in auto)
    qed (use new t1 in auto)
  qed
qed

subsection \<open>Where a response comes from\<close>

text \<open>
  \<open>socket_reads rd policy cap w buf w'\<close>: reading the socket in the world \<open>w\<close>, again and again, each time for at
  most what is missing to \<open>cap\<close> bytes or 4096, has given the bytes \<open>buf\<close>, no read having failed, and has led to \<open>w'\<close>.
\<close>

inductive socket_reads ::
  "(nat \<Rightarrow> 'w \<Rightarrow> (u8 list, 'w) outcome) \<Rightarrow> read_policy \<Rightarrow> nat \<Rightarrow> 'w \<Rightarrow> u8 list \<Rightarrow> 'w \<Rightarrow> bool"
  for rd policy cap w where
  reads_none: "socket_reads rd policy cap w [] w"
| reads_more: "socket_reads rd policy cap w buf w1 \<Longrightarrow> length buf < cap \<Longrightarrow>
    \<not> (policy = AcceptPartial \<and> headers_complete buf) \<Longrightarrow>
    rd (min (cap - length buf) 4096) w1 = (Inr bytes, w2) \<Longrightarrow> chunk = take (min (cap - length buf) 4096) bytes \<Longrightarrow>
    chunk \<noteq> [] \<Longrightarrow> socket_reads rd policy cap w (buf @ chunk) w2"

lemma socket_reads_bound: "socket_reads rd policy cap w buf w1 \<Longrightarrow> length buf \<le> cap"
  by (induction rule: socket_reads.induct) auto

text \<open>Why the reading ended with \<open>buf\<close>: the cap, the end of the headers, the end of the stream, or a failed read.\<close>

definition reading_ends ::
  "(nat \<Rightarrow> 'w \<Rightarrow> (u8 list, 'w) outcome) \<Rightarrow> read_policy \<Rightarrow> nat \<Rightarrow> u8 list \<Rightarrow> 'w \<Rightarrow> 'w \<Rightarrow> bool" where
  "reading_ends rd policy cap buf w w' \<longleftrightarrow>
     (let next = rd (min (cap - length buf) 4096) w in
       w' = w \<and> length buf = cap
     \<or> w' = w \<and> policy = AcceptPartial \<and> headers_complete buf
     \<or> next = (Inr [], w')
     \<or> policy = AcceptPartial \<and> buf \<noteq> [] \<and> (\<exists>e. next = (Inl e, w')))"

lemma read_response_reads:
  assumes short: "\<And>limit w. case fst (rd limit w) of Inr bytes \<Rightarrow> length bytes \<le> limit | Inl _ \<Rightarrow> True"
  shows "socket_reads rd policy cap w0 buf w \<Longrightarrow> \<not> (policy = AcceptPartial \<and> headers_complete buf) \<Longrightarrow>
    read_response rd policy cap buf w = (Inr out, w') \<Longrightarrow>
    \<exists>w1. socket_reads rd policy cap w0 out w1 \<and> reading_ends rd policy cap out w1 w'"
  using short
proof (induction rd policy cap buf w arbitrary: w' rule: read_response.induct)
  case (1 rd policy cap buf w)
  show ?case
  proof (cases "length buf < cap")
    case False
    with "1.prems" socket_reads_bound [OF "1.prems"(1)] show ?thesis
      by (auto simp: read_response.simps reading_ends_def Let_def)
  next
    case True
    define limit where "limit = min (cap - length buf) 4096"
    obtain x w1 where x: "rd limit w = (x, w1)" by force
    show ?thesis
    proof (cases x)
      case (Inl e)
      with "1.prems"(3) True x have "out = buf" "w' = w1" "policy = AcceptPartial" "buf \<noteq> []"
        by (simp_all add: read_response.simps [of rd policy cap buf w] Let_def limit_def [symmetric]
            read_acceptable_def split: if_splits)
      with "1.prems"(1) x Inl show ?thesis by (auto simp: reading_ends_def Let_def limit_def)
    next
      case (Inr bytes)
      let ?chunk = "take limit bytes"
      show ?thesis
      proof (cases "?chunk = []")
        case nil: True
        with "1.prems"(3) True x Inr have o: "out = buf" "w' = w1"
          by (simp_all add: read_response.simps [of rd policy cap buf w] Let_def limit_def [symmetric])
        have "0 < limit" using True by (simp add: limit_def)
        with nil have "bytes = []" by simp
        with "1.prems"(1) o x Inr show ?thesis by (auto simp: reading_ends_def Let_def limit_def)
      next
        case more: False
        have s: "socket_reads rd policy cap w0 (buf @ ?chunk) w1"
          by (rule reads_more [OF "1.prems"(1) True "1.prems"(2) x [unfolded limit_def Inr] _ more])
            (simp add: limit_def)
        show ?thesis
        proof (cases "policy = AcceptPartial \<and> headers_complete (buf @ ?chunk)")
          case fin: True
          have "read_response rd policy cap buf w = (Inr (buf @ ?chunk), w1)"
            using True x Inr more fin
            by (subst read_response.simps) (auto simp: Let_def limit_def [symmetric])
          with "1.prems"(3) have "out = buf @ ?chunk" "w' = w1" by simp_all
          with s fin show ?thesis by (auto simp: reading_ends_def Let_def)
        next
          case go: False
          have "read_response rd policy cap (buf @ ?chunk) w1 = (Inr out, w')"
            using "1.prems"(3) True x Inr more go
            by (subst (asm) read_response.simps) (auto simp: Let_def limit_def [symmetric])
          with "1.IH" [OF True limit_def x [symmetric] Inr refl more go s go] "1.prems"(4) show ?thesis by blast
        qed
      qed
    qed
  qed
qed

text \<open>The socket is bound to the source address, connected, and the request is written whole.\<close>

definition request_sent :: "'w sock_api \<Rightarrow> http_request \<Rightarrow> 'w \<Rightarrow> duration \<Rightarrow> 'w \<Rightarrow> bool" where
  "request_sent K rq w deadline w' \<longleftrightarrow>
     (\<exists>now target addr budget w0 w1 w2 w3 w4.
        sk_now K w = (now, w0) \<and> deadline = now + rq_timeout rq \<and> target_address (rq_url rq) = Inr (target, addr)
      \<and> sk_new K w0 = (Inr (), w1) \<and> sk_bind K (rq_bind_ip rq) w1 = (Inr (), w2)
      \<and> time_left K deadline w2 = (Inr budget, w3) \<and> sk_connect K addr budget w3 = (Inr (), w4)
      \<and> write_request K deadline (bytes_of (request_text target (rq_user_agent rq))) w4 = (Inr (), w'))"

lemma get_response_reads:
  assumes "http_get K lossy rq w = (Inr resp, w')"
  shows "\<exists>deadline w0 buf w1. request_sent K rq w deadline w0
    \<and> socket_reads (read_chunk K deadline) (rq_policy rq) (rq_max_bytes rq) w0 buf w1
    \<and> reading_ends (read_chunk K deadline) (rq_policy rq) (rq_max_bytes rq) buf w1 w'
    \<and> parsed_response lossy buf = Inr resp"
proof -
  let ?d = "fst (sk_now K w) + rq_timeout rq"
  obtain w0 buf where sent: "request_sent K rq w ?d w0"
    and r: "read_response (read_chunk K ?d) (rq_policy rq) (rq_max_bytes rq) [] w0 = (Inr buf, w')"
    and p: "parsed_response lossy buf = Inr resp"
    using assms unfolding request_sent_def
    by (auto simp: http_get_def Let_def then_do_Inr split: prod.splits sum.splits)
  have short: "case fst (read_chunk K ?d limit w) of Inr bytes \<Rightarrow> length bytes \<le> limit | Inl _ \<Rightarrow> True" for limit w
    by (auto simp: read_chunk_def then_do_def split: prod.splits sum.splits)
  from read_response_reads [OF short reads_none _ r] sent p show ?thesis by auto
qed

text \<open>
  C18 (bounds). A synchronous HTTP request, with a peer that answers late, in pieces, or never: it returns within its
  timeout and the granularity of one timer, whatever number of writes and reads it needs. A response it returns is
  the parse of the bytes that reads of this socket, bound to the source address, connected, and with the request
  written whole, have given one after the other, each within the same deadline: no more than the allowed bytes, and
  none of those reads failed. The bytes end at the cap, where the stream ends, or, only under the policy of the
  probe, at the end of the headers or at a failed read after at least one byte; so under the policy of the portal a
  failed read, an expired deadline included, never becomes a response.
\<close>

theorem http_get_in_time:
  assumes "sock_laws K T g" and "http_get K lossy rq w = (r, w')"
  shows "T w' \<le> T w + rq_timeout rq + g
    \<and> (\<forall>resp. r = Inr resp \<longrightarrow> (\<exists>w0 buf w1.
         request_sent K rq w (T w + rq_timeout rq) w0
       \<and> socket_reads (read_chunk K (T w + rq_timeout rq)) (rq_policy rq) (rq_max_bytes rq) w0 buf w1
       \<and> length buf \<le> rq_max_bytes rq \<and> parsed_response lossy buf = Inr resp
       \<and> (w' = w1 \<and> length buf = rq_max_bytes rq
          \<or> w' = w1 \<and> rq_policy rq = AcceptPartial \<and> headers_complete buf
          \<or> read_chunk K (T w + rq_timeout rq) (min (rq_max_bytes rq - length buf) 4096) w1 = (Inr [], w')
          \<or> rq_policy rq = AcceptPartial \<and> buf \<noteq> []
             \<and> (\<exists>e. read_chunk K (T w + rq_timeout rq) (min (rq_max_bytes rq - length buf) 4096) w1 = (Inl e, w')))))"
proof (intro conjI allI impI)
  show "T w' \<le> T w + rq_timeout rq + g" by (rule get_in_time [OF assms])
next
  fix resp assume "r = Inr resp"
  with get_response_reads [of K lossy rq w resp w'] assms(2) obtain deadline w0 buf w1
    where s: "request_sent K rq w deadline w0"
      and *: "socket_reads (read_chunk K deadline) (rq_policy rq) (rq_max_bytes rq) w0 buf w1"
        "reading_ends (read_chunk K deadline) (rq_policy rq) (rq_max_bytes rq) buf w1 w'"
        "parsed_response lossy buf = Inr resp" by blast
  from s assms(1) have "deadline = T w + rq_timeout rq" by (auto simp: request_sent_def sock_laws_def)
  with s * socket_reads_bound [OF *(1)] show "\<exists>w0 buf w1.
         request_sent K rq w (T w + rq_timeout rq) w0
       \<and> socket_reads (read_chunk K (T w + rq_timeout rq)) (rq_policy rq) (rq_max_bytes rq) w0 buf w1
       \<and> length buf \<le> rq_max_bytes rq \<and> parsed_response lossy buf = Inr resp
       \<and> (w' = w1 \<and> length buf = rq_max_bytes rq
          \<or> w' = w1 \<and> rq_policy rq = AcceptPartial \<and> headers_complete buf
          \<or> read_chunk K (T w + rq_timeout rq) (min (rq_max_bytes rq - length buf) 4096) w1 = (Inr [], w')
          \<or> rq_policy rq = AcceptPartial \<and> buf \<noteq> []
             \<and> (\<exists>e. read_chunk K (T w + rq_timeout rq) (min (rq_max_bytes rq - length buf) 4096) w1 = (Inl e, w')))"
    unfolding reading_ends_def Let_def by blast
qed

text \<open>A peer that takes a byte in each second and never answers; the world is the time.\<close>

definition slow_socket :: "duration sock_api" where
  "slow_socket =
     \<lparr>sk_now = \<lambda>w. (w, w), sk_new = \<lambda>w. (Inr (), w), sk_bind = \<lambda>_ w. (Inr (), w),
      sk_connect = \<lambda>_ d w. (Inr (), w + min d (from_secs 1)),
      sk_write = \<lambda>d bs w. if d < from_secs 1 then (Inl (Msg ''timed out''), w + d) else (Inr 1, w + from_secs 1),
      sk_read = \<lambda>d _ w. (Inl (Msg ''timed out''), w + d)\<rparr>"

lemma slow_socket_laws: "sock_laws slow_socket (\<lambda>w. w) 0"
  by (auto simp: sock_laws_def slow_socket_def split: if_splits)

definition slow_request :: http_request where
  "slow_request = \<lparr>rq_url = ''http://10.0.0.1/'', rq_bind_ip = Ipv4 10 0 0 2, rq_user_agent = ''x'', rq_timeout = from_secs 3,
     rq_max_bytes = 4096, rq_policy = Complete\<rparr>"

theorem http_get_in_time_witness: "snd (http_get slow_socket (\<lambda>_. []) slow_request 7) \<le> 7 + from_secs 3"
proof -
  obtain r w' where e: "http_get slow_socket (\<lambda>_. []) slow_request 7 = (r, w')" by force
  from http_get_in_time [OF slow_socket_laws e] e show ?thesis by (simp add: slow_request_def)
qed

section \<open>The asynchronous client in time\<close>

lemma get_async_in_time:
  "snd (get_async A T lossy rq w) \<le> T w + rq_timeout rq"
  "fst (get_async A T lossy rq w) = Inr resp \<Longrightarrow> \<exists>w'. async_io A lossy rq w = Some (Inr resp, w') \<and> T w' \<le> T w + rq_timeout rq"
  by (auto simp: get_async_def Let_def split: option.splits prod.splits if_splits)

end
