(* ===== verification/Logging.thy ===== *)
theory Logging
  imports Config Files
begin

text \<open>
  \<open>src/src/logging.rs\<close> with the reporting part of \<open>src/src/eventlog.rs\<close>: how the log of a process is set up and where
  a line goes. The logging library, which writes and rotates the file, and the event log of Windows are arguments.
\<close>

section \<open>The event log\<close>

datatype event_level = ElInfo | ElWarning | ElError

text \<open>The values of \<open>REPORT_EVENT_TYPE\<close>.\<close>

definition event_type :: "event_level \<Rightarrow> nat" where
  "event_type l = (case l of ElInfo \<Rightarrow> 4 | ElWarning \<Rightarrow> 2 | ElError \<Rightarrow> 1)"

text \<open>\<open>ev_report\<close> is \<open>ReportEventW\<close> with the type, the category, the identifier and the strings.\<close>

record 'w event_api =
  ev_open :: "'w \<Rightarrow> (string + unit) \<times> 'w"
  ev_report :: "nat \<Rightarrow> nat \<Rightarrow> nat \<Rightarrow> string list \<Rightarrow> 'w \<Rightarrow> (string + unit) \<times> 'w"

definition event_open :: "'w event_api \<Rightarrow> 'w \<Rightarrow> (unit, 'w) outcome" where
  "event_open V w = (case ev_open V w of
     (Inl e, w) \<Rightarrow> (Inl (Ctx ''RegisterEventSourceW failed'' (Msg e)), w) | (Inr _, w) \<Rightarrow> (Inr (), w))"

definition event_report :: "'w event_api \<Rightarrow> event_level \<Rightarrow> string \<Rightarrow> 'w \<Rightarrow> (unit, 'w) outcome" where
  "event_report V l msg w = (case ev_report V (event_type l) 0 3299 [msg] w of
     (Inl e, w) \<Rightarrow> (Inl (Ctx ''ReportEventW failed'' (Msg e)), w) | (Inr _, w) \<Rightarrow> (Inr (), w))"

section \<open>Setting up\<close>

text \<open>The files: folder, name, size at which they are rotated, how many are kept, and whether they are continued.\<close>

record file_policy =
  fp_dir :: string
  fp_basename :: "string option"
  fp_max_bytes :: u64
  fp_keep :: nat
  fp_append :: bool

text \<open>\<open>lg_build\<close> opens the log files, \<open>lg_register\<close> makes the logger the one of the process.\<close>

record 'w log_api =
  lg_create_dir :: "string \<Rightarrow> 'w \<Rightarrow> (unit, 'w) outcome"
  lg_build :: "file_policy \<Rightarrow> 'w \<Rightarrow> (unit, 'w) outcome"
  lg_register :: "bool \<Rightarrow> 'w \<Rightarrow> (unit, 'w) outcome"
  lg_stderr :: "string \<Rightarrow> err option \<Rightarrow> 'w \<Rightarrow> 'w"
  lg_events :: "'w event_api"

definition service_policy :: "log_cfg \<Rightarrow> file_policy" where
  "service_policy c =
     \<lparr>fp_dir = lc_dir c, fp_basename = None, fp_max_bytes = rotation_bytes (lc_max_size_mb c),
      fp_keep = unat (lc_rotate_keep c), fp_append = True\<rparr>"

definition tray_policy :: "string \<Rightarrow> string \<Rightarrow> file_policy" where
  "tray_policy dir basename =
     \<lparr>fp_dir = dir, fp_basename = Some basename, fp_max_bytes = rotation_bytes log_max_size_mb,
      fp_keep = log_keep_files, fp_append = True\<rparr>"

text \<open>The logger of the process mirrors to the event log when it is asked for and can be opened.\<close>

definition install_logger :: "'w log_api \<Rightarrow> bool \<Rightarrow> 'w \<Rightarrow> (unit, 'w) outcome" where
  "install_logger G event_log w =
     (let (sink, w) = (if event_log
             then (case event_open (lg_events G) w of
                     (Inr _, w) \<Rightarrow> (True, w)
                   | (Inl e, w) \<Rightarrow> (False, lg_stderr G ''Failed to open event log, falling back to file only'' (Some e) w))
             else (False, w))
      in with_ctx ''Failed to register global logger (already initialized?)'' (lg_register G sink w))"

definition init_service_logging :: "'w log_api \<Rightarrow> log_cfg \<Rightarrow> 'w \<Rightarrow> (unit, 'w) outcome" where
  "init_service_logging G c w =
     then_do (with_ctx (''Failed to create log directory: '' @ lc_dir c) (lg_create_dir G (lc_dir c) w)) (\<lambda>_ w.
     then_do (with_ctx ''Failed to build logger (log dir not writable?)'' (lg_build G (service_policy c) w)) (\<lambda>_ w.
       install_logger G (lc_event_log c) w))"

text \<open>The tray and the installer go on without a log: \<open>False\<close> says that there is none.\<close>

definition init_tray_logging :: "'w log_api \<Rightarrow> string \<Rightarrow> string \<Rightarrow> 'w \<Rightarrow> bool \<times> 'w" where
  "init_tray_logging G dir basename w =
     (let w = snd (lg_create_dir G dir w)
      in case then_do (lg_build G (tray_policy dir basename) w) (\<lambda>_ w. lg_register G False w) of
           (Inr _, w) \<Rightarrow> (True, w)
         | (Inl e, w) \<Rightarrow> (False, lg_stderr G (''Failed to init '' @ basename @ '' logging (continuing)'') (Some e) w))"

section \<open>A line\<close>

datatype log_level = LvError | LvWarn | LvInfo | LvDebug | LvTrace

definition level_rank :: "log_level \<Rightarrow> nat" where
  "level_rank l = (case l of LvError \<Rightarrow> 1 | LvWarn \<Rightarrow> 2 | LvInfo \<Rightarrow> 3 | LvDebug \<Rightarrow> 4 | LvTrace \<Rightarrow> 5)"

record log_record =
  lr_level :: log_level
  lr_module :: "string option"
  lr_text :: string

definition log_enabled :: "log_level \<Rightarrow> bool" where
  "log_enabled l \<longleftrightarrow> level_rank l \<le> level_rank LvInfo"

definition event_text :: "log_record \<Rightarrow> string" where
  "event_text r = ''['' @ (case lr_module r of Some m \<Rightarrow> m | None \<Rightarrow> ''gdut-net'') @ ''] '' @ lr_text r"

text \<open>\<open>file\<close> writes to the log file; \<open>sink\<close> says that the event log is open.\<close>

definition service_log :: "'w log_api \<Rightarrow> (log_record \<Rightarrow> 'w \<Rightarrow> 'w) \<Rightarrow> bool \<Rightarrow> log_record \<Rightarrow> 'w \<Rightarrow> 'w" where
  "service_log G file sink r w =
     (let w = file r w
      in if level_rank (lr_level r) > level_rank LvWarn \<or> \<not> sink then w
         else (case event_report (lg_events G) (if lr_level r = LvError then ElError else ElWarning) (event_text r) w of
                 (Inr _, w) \<Rightarrow> w
               | (Inl e, w) \<Rightarrow> lg_stderr G ''Failed to write event log'' (Some e) w))"

section \<open>What is mirrored\<close>

text \<open>A world that only records what was done in it, with an event log that fails or not.\<close>

datatype log_act = ToFile log_record | ToEvents nat nat "string list" | ToStderr string

definition log_recorder :: "bool \<Rightarrow> log_act list log_api" where
  "log_recorder works =
     \<lparr>lg_create_dir = \<lambda>_ w. (Inr (), w), lg_build = \<lambda>_ w. (Inr (), w), lg_register = \<lambda>_ w. (Inr (), w),
      lg_stderr = \<lambda>s _ w. w @ [ToStderr s],
      lg_events = \<lparr>ev_open = \<lambda>w. (if works then Inr () else Inl [], w),
        ev_report = \<lambda>t c i ss w. (if works then Inr () else Inl [], w @ [ToEvents t i ss])\<rparr>\<rparr>"

text \<open>
  Every line goes to the file first; warnings and errors, and only they, go to an open event log, with their type; a
  failing event log is reported on the error output and never logged again.
\<close>

lemma service_log_mirrors:
  "service_log (log_recorder works) (\<lambda>r w. w @ [ToFile r]) sink r w = w @ [ToFile r]
     @ (if sink \<and> lr_level r \<in> {LvError, LvWarn}
        then ToEvents (if lr_level r = LvError then 1 else 2) 3299 [event_text r]
             # (if works then [] else [ToStderr ''Failed to write event log''])
        else [])"
  by (cases "lr_level r")
    (simp_all add: service_log_def log_recorder_def event_report_def level_rank_def event_type_def Let_def)

lemma rotation_at_least_a_mebibyte: "2 ^ 20 \<le> rotation_bytes m"
  by (simp add: rotation_bytes_def max_def word_le_nat_alt)

end
