(* ===== verification/Service_Entry.thy ===== *)
theory Service_Entry
  imports Setup_Work Logging Heartbeat_Session
begin

text \<open>
  The two fronts of \<open>src/src/service.rs\<close>: the process of the service from its entry to its last report to the service
  manager, and the commands \<open>install\<close> and \<open>uninstall\<close> with their prompts and printed lines; and what
  \<open>src/src/runtime.rs\<close> does before its main loop: the password, and the task that keeps the heartbeat going.
\<close>

section \<open>The service process\<close>

datatype control_event = CtlStop | CtlShutdown | CtlInterrogate | CtlOther
datatype control_result = CtlNoError | CtlNotImplemented

text \<open>The second value says whether the token of the runtime is cancelled.\<close>

definition on_control :: "control_event \<Rightarrow> bool \<Rightarrow> control_result \<times> bool" where
  "on_control e cancelled =
     (case e of
        CtlStop \<Rightarrow> (CtlNoError, True)
      | CtlShutdown \<Rightarrow> (CtlNoError, True)
      | CtlInterrogate \<Rightarrow> (CtlNoError, cancelled)
      | CtlOther \<Rightarrow> (CtlNotImplemented, cancelled))"

datatype told_state = RsStartPending | RsRunning | RsStopped

record told_status =
  ts_state :: told_state
  ts_accepts :: "control_event list"
  ts_exit_code :: u32
  ts_checkpoint :: u32
  ts_wait_hint :: duration

definition service_status :: "told_state \<Rightarrow> u32 \<Rightarrow> duration \<Rightarrow> told_status" where
  "service_status st checkpoint wait_hint =
     \<lparr>ts_state = st, ts_accepts = (if st = RsRunning then [CtlStop, CtlShutdown] else []), ts_exit_code = 0,
      ts_checkpoint = checkpoint, ts_wait_hint = wait_hint\<rparr>"

text \<open>\<open>en_runtime\<close> is \<open>start_all\<close>, which returns when the token is cancelled or with an error.\<close>

record 'w entry_api =
  en_args :: "string list"
  en_register :: "'w \<Rightarrow> (unit, 'w) outcome"
  en_set_status :: "told_status \<Rightarrow> 'w \<Rightarrow> (unit, 'w) outcome"
  en_load :: "string \<Rightarrow> 'w \<Rightarrow> (config, 'w) outcome"
  en_log :: "'w log_api"
  en_runtime :: "config \<Rightarrow> string \<Rightarrow> 'w \<Rightarrow> (unit, 'w) outcome"
  en_stderr :: "string \<Rightarrow> err option \<Rightarrow> 'w \<Rightarrow> 'w"

definition report_stopped :: "'w entry_api \<Rightarrow> 'w \<Rightarrow> (unit, 'w) outcome" where
  "report_stopped E w =
     with_ctx ''Failed to report Stopped status'' (en_set_status E (service_status RsStopped 0 0) w)"

text \<open>The argument after the first \<open>--config\<close>, if there is one.\<close>

fun config_arg :: "string list \<Rightarrow> string" where
  "config_arg [] = config_path"
| "config_arg (a # as) = (if a = ''--config'' then (case as of v # _ \<Rightarrow> v | [] \<Rightarrow> config_path) else config_arg as)"

definition run_service :: "'w entry_api \<Rightarrow> 'w \<Rightarrow> (unit, 'w) outcome" where
  "run_service E w =
     then_do (en_register E w) (\<lambda>_ w.
     then_do (en_set_status E (service_status RsStartPending 0 (from_secs 5)) w) (\<lambda>_ w.
       (let path = config_arg (en_args E)
        in case en_load E path w of
             (Inl e, w) \<Rightarrow>
               (let e = Ctx (''Failed to load config: '' @ path) e
                in then_do (report_stopped E (en_stderr E ''gdut-net: '' (Some e) w)) (\<lambda>_ w. (Inl e, w)))
           | (Inr cfg, w) \<Rightarrow>
               (case init_service_logging (en_log E) (cf_log cfg) w of
                  (Inl e, w) \<Rightarrow>
                    then_do (report_stopped E (en_stderr E ''gdut-net: failed to init file logging: '' (Some e) w))
                      (\<lambda>_ w. (Inl (Ctx ''Failed to init file logging'' e), w))
                | (Inr _, w) \<Rightarrow>
                    then_do (en_set_status E (service_status RsRunning 0 0) w) (\<lambda>_ w.
                      (case en_runtime E cfg path w of (result, w) \<Rightarrow>
                         then_do (report_stopped E w) (\<lambda>_ w. (result, w))))))))"

text \<open>The code with which the process exits, whatever happened.\<close>

definition service_run :: "'w entry_api \<Rightarrow> 'w \<Rightarrow> nat \<times> 'w" where
  "service_run E w =
     (case run_service E w of
        (Inr _, w) \<Rightarrow> (0, w)
      | (Inl e, w) \<Rightarrow> (1, en_stderr E ''gdut-net: service crashed: '' (Some e) w))"

section \<open>The task of the heartbeat\<close>

definition heartbeat_retry_delay :: duration where "heartbeat_retry_delay = from_secs 60"

datatype hb_attempt = HbSessionEnded | HbSessionFailed string | HbTaskFailed string

definition hb_attempt_sends :: "hb_attempt \<Rightarrow> heartbeat_status list" where
  "hb_attempt_sends a =
     (case a of
        HbSessionEnded \<Rightarrow> []
      | HbSessionFailed e \<Rightarrow> [HbError e]
      | HbTaskFailed e \<Rightarrow> [HbError (''Heartbeat task error: '' @ e)])"

text \<open>
  What the task itself sends, by its rounds: whether the stop is seen before the attempt, how the attempt ends, and
  whether the stop comes in the wait after it. Without further rounds it is still in an attempt or a wait.
\<close>

fun heartbeat_task :: "(bool \<times> hb_attempt \<times> bool) list \<Rightarrow> heartbeat_status list" where
  "heartbeat_task [] = []"
| "heartbeat_task ((stopped, a, stopped_after) # rounds) =
     (if stopped then [HbOff]
      else hb_attempt_sends a @ (if stopped_after then [HbOff] else heartbeat_task rounds))"

text \<open>What \<open>run\<close> works out first: the password, and the address of the heartbeat if it is wanted.\<close>

record start_plan =
  pn_password :: string
  pn_heartbeat :: "(ipv4 \<times> u16 \<times> duration) option"

definition plan_start :: "'w crypt_api \<Rightarrow> config \<Rightarrow> 'w \<Rightarrow> (start_plan, 'w) outcome" where
  "plan_start C cfg w =
     then_do (with_ctx ''Failed to decrypt password_blob (re-run install to enter password)''
                (unprotect C (ac_password_blob (cf_account cfg)) w)) (\<lambda>password w.
       (let hb = cf_heartbeat cfg
        in if \<not> hc_enabled hb then (Inr \<lparr>pn_password = password, pn_heartbeat = None\<rparr>, w)
           else (case parse_ipv4 (hc_server hb) of
                   None \<Rightarrow> (Inl (Msg (''Failed to parse heartbeat.server: '' @ hc_server hb)), w)
                 | Some ip \<Rightarrow> (Inr \<lparr>pn_password = password,
                      pn_heartbeat = Some (ip, hc_port hb, from_secs (unat (hc_interval_secs hb)))\<rparr>, w))))"

section \<open>The commands\<close>

definition uninstall_echo :: "uninstall_report \<Rightarrow> console_line list" where
  "uninstall_echo r =
     (case ur_service r of
        StepDone \<Rightarrow> [OutLine ''Service removed'']
      | StepSkipped \<Rightarrow> [OutLine ''Service not found, skipping'']
      | StepFailed e \<Rightarrow> [ErrLine (Ctx ''Failed to remove service (ignored)'' e)])
     @ (case ur_event_source r of
          StepDone \<Rightarrow> [OutLine ''Event source removed'']
        | StepFailed e \<Rightarrow> [ErrLine (Ctx ''Failed to remove event source (ignored)'' e)]
        | StepSkipped \<Rightarrow> [])
     @ (case ur_entropy r of
          StepDone \<Rightarrow> [OutLine ''Entropy removed'']
        | StepFailed e \<Rightarrow> [ErrLine (Ctx ''Failed to remove entropy (ignored)'' e)]
        | StepSkipped \<Rightarrow> [])
     @ (case ur_autostart r of
          StepDone \<Rightarrow> [OutLine ''Tray autostart removed'']
        | StepFailed e \<Rightarrow> [ErrLine (Ctx ''Failed to remove tray autostart (ignored)'' e)]
        | StepSkipped \<Rightarrow> [])
     @ (case ur_purge r of
          None \<Rightarrow> []
        | Some (dir, StepDone) \<Rightarrow> [OutLine (''Removed '' @ join [CHR 92] dir)]
        | Some (dir, StepSkipped) \<Rightarrow> [OutLine (join [CHR 92] dir @ '' not found, skipping'')]
        | Some (dir, StepFailed e) \<Rightarrow> [ErrLine (Ctx (''Failed to remove '' @ join [CHR 92] dir @ '' (ignored)'') e)])"

definition require_admin :: "bool \<Rightarrow> 'w \<Rightarrow> (unit, 'w) outcome" where
  "require_admin admin w = ensure admin (Msg ''Administrator required: run PowerShell/cmd as administrator and retry'') w"

definition uninstall_command ::
  "bool \<Rightarrow> 'x machine host \<Rightarrow> 'x machine shell_api \<Rightarrow> string \<Rightarrow> bool \<Rightarrow> 'x machine \<Rightarrow> (console_line list, 'x machine) outcome" where
  "uninstall_command admin H A cfg_path purge w =
     then_do (require_admin admin w) (\<lambda>_ w.
     then_do (uninstall_core H A cfg_path purge w) (\<lambda>report w. (Inr (uninstall_echo report), w)))"

text \<open>
  The prompts. \<open>answers\<close> are what the prompts and the standard input give, in their order; \<open>None\<close> waits for more.
\<close>

definition trim_newlines :: "string \<Rightarrow> string" where
  "trim_newlines s = rev (dropWhile (\<lambda>c. c \<in> {char_of (10::nat), char_of (13::nat)}) (rev s))"

definition read_stdin_password :: "err + string \<Rightarrow> err + string" where
  "read_stdin_password line =
     (case line of Inl e \<Rightarrow> Inl (Ctx ''Failed to read password from stdin'' e) | Inr s \<Rightarrow> Inr (trim_newlines s))"

fun prompt_nonempty :: "(err + string) list \<Rightarrow> (err + string) option" where
  "prompt_nonempty [] = None"
| "prompt_nonempty (Inl e # as) = Some (Inl e)"
| "prompt_nonempty (Inr s # as) = (if trim s \<noteq> [] then Some (Inr (trim s)) else prompt_nonempty as)"

definition ask_credential :: "bool \<Rightarrow> bool \<Rightarrow> (err + string) list \<Rightarrow> ((err + credential) \<times> (err + string) list) option" where
  "ask_credential password_stdin keep_password answers =
     (if keep_password then Some (Inr KeepExisting, answers)
      else (case answers of
              [] \<Rightarrow> None
            | a # as \<Rightarrow>
                Some (case (if password_stdin then read_stdin_password a else a) of
                        Inl e \<Rightarrow> Inl e | Inr p \<Rightarrow> Inr (PlainText p), as)))"

definition install_lines :: "bool \<Rightarrow> string \<Rightarrow> config \<Rightarrow> console_line list" where
  "install_lines refreshed cfg_path cfg =
     (if refreshed then [OutLine ''Service already exists, config refreshed''] else [])
     @ [OutLine (''Tray autostart: HKCU'' @ [CHR 92] @ ''...'' @ [CHR 92] @ ''Run'' @ [CHR 92] @ ''gdut-net-tray''), OutLine ''Install complete:'',
        OutLine ''  Service: gdut-net (auto-start, restart on failure 5s/30s/60s)'', OutLine (''  Config: '' @ cfg_path),
        OutLine (''  Dial entry: '' @ dc_entry_name (cf_dial cfg) @ '' ('' @ dc_pbk_path (cf_dial cfg) @ '')''),
        OutLine ''Start service: net start gdut-net'',
        OutLine ''Note: after reinstall with new password, run net stop gdut-net && net start gdut-net to apply'']"

text \<open>From the answers on: the installation with its rollback, and the printed lines.\<close>

definition install_asked ::
  "'x machine host \<Rightarrow> string \<Rightarrow> string \<Rightarrow> string option \<Rightarrow> credential \<Rightarrow> 'x machine \<Rightarrow> (console_line list \<times> (err + unit)) \<times> 'x machine" where
  "install_asked H exe cfg_path sid credential w =
     (case capture_prev_service (ho_scm H) w of (prev, w) \<Rightarrow>
      case install_with_rollback H \<lparr>iq_cfg_path = cfg_path, iq_student_id = sid, iq_credential = credential,
             iq_service_exe = exe, iq_tray_exe = exe\<rparr> prev w of
        (Inl f, w) \<Rightarrow>
          ((ErrLine (Ctx ''Install failed'' (if_error f))
             # (case rollback_line_en (if_rollback f) of Some line \<Rightarrow> [ErrLine line] | None \<Rightarrow> []), Inl (if_error f)), w)
      | (Inr out, w) \<Rightarrow>
          (case load_config H (iu_cfg_path out) w of
             (Inl e, w) \<Rightarrow> ((if iu_refreshed out then [OutLine ''Service already exists, config refreshed''] else [], Inl e), w)
           | (Inr cfg, w) \<Rightarrow> ((install_lines (iu_refreshed out) (iu_cfg_path out) cfg, Inr ()), w)))"

definition needs_student_id :: "err + config \<Rightarrow> bool" where
  "needs_student_id r = (case r of Inr c \<Rightarrow> trim (ac_student_id (cf_account c)) = [] | Inl _ \<Rightarrow> True)"

definition install_command ::
  "bool \<Rightarrow> 'x machine host \<Rightarrow> string \<Rightarrow> string \<Rightarrow> bool \<Rightarrow> bool \<Rightarrow> (err + string) list \<Rightarrow> 'x machine
     \<Rightarrow> ((console_line list \<times> (err + unit)) \<times> 'x machine) option" where
  "install_command admin H exe cfg_path password_stdin keep_password answers w =
     (case require_admin admin w of
        (Inl e, w) \<Rightarrow> Some (([], Inl e), w)
      | (Inr _, w) \<Rightarrow>
          if keep_password \<and> password_stdin
          then Some (([], Inl (Msg ''--keep-password cannot be combined with --password-stdin'')), w)
          else (case ask_credential password_stdin keep_password answers of
                  None \<Rightarrow> None
                | Some (Inl e, _) \<Rightarrow> Some (([], Inl e), w)
                | Some (Inr credential, answers) \<Rightarrow>
                    (case load_config H cfg_path w of (r, w) \<Rightarrow>
                       if needs_student_id r
                       then (case prompt_nonempty answers of
                               None \<Rightarrow> None
                             | Some (Inl e) \<Rightarrow> Some (([], Inl e), w)
                             | Some (Inr sid) \<Rightarrow> Some (install_asked H exe cfg_path (Some sid) credential w))
                       else Some (install_asked H exe cfg_path None credential w))))"

section \<open>What the service manager is told\<close>

text \<open>
  \<open>S\<close> is what it has been told so far in a world: a call that succeeds adds its state, a call that fails adds
  nothing, and nothing else reports.
\<close>

definition status_laws :: "'w entry_api \<Rightarrow> ('w \<Rightarrow> told_state list) \<Rightarrow> bool" where
  "status_laws E S \<longleftrightarrow>
     (\<forall>st w. S (snd (en_set_status E st w)) = S w @ (case fst (en_set_status E st w) of Inr _ \<Rightarrow> [ts_state st] | Inl _ \<Rightarrow> []))
   \<and> (\<forall>w. S (snd (en_register E w)) = S w)
   \<and> (\<forall>p w. S (snd (en_load E p w)) = S w)
   \<and> (\<forall>c w. S (snd (init_service_logging (en_log E) c w)) = S w)
   \<and> (\<forall>c p w. S (snd (en_runtime E c p w)) = S w)
   \<and> (\<forall>s e w. S (en_stderr E s e w) = S w)"

lemma set_status_told:
  assumes "status_laws E S" "en_set_status E st w = (r, w')"
  shows "S w' = S w @ (case r of Inr _ \<Rightarrow> [ts_state st] | Inl _ \<Rightarrow> [])"
  using assms(1)[unfolded status_laws_def, THEN conjunct1, rule_format, of st w] assms(2) by simp

lemma report_stopped_told:
  assumes "status_laws E S" "report_stopped E w = (r, w')"
  shows "S w' = S w @ (case r of Inr _ \<Rightarrow> [RsStopped] | Inl _ \<Rightarrow> [])"
proof -
  obtain x w1 where x: "en_set_status E (service_status RsStopped 0 0) w = (x, w1)" by force
  from set_status_told [OF assms(1) x] assms(2) x show ?thesis
    by (cases x) (auto simp: report_stopped_def with_ctx_def service_status_def)
qed

lemma then_stopped_told:
  assumes L: "status_laws E S" and e: "then_do (report_stopped E w) (\<lambda>_ w. (k, w)) = (r, w')"
  shows "S w' = S w @ [RsStopped] \<and> r = k \<or> S w' = S w \<and> isl r"
  using e
proof (cases rule: then_doE)
  case (ok a w1)
  with report_stopped_told [OF L ok(1)] show ?thesis by simp
next
  case (fail e)
  with report_stopped_told [OF L fail(1)] show ?thesis by simp
qed

definition told_runs :: "told_state list set" where
  "told_runs = {[], [RsStartPending], [RsStartPending, RsRunning], [RsStartPending, RsRunning, RsStopped], [RsStartPending, RsStopped]}"

text \<open>The configuration was loaded and the log opened with it; and the runtime was entered with it and ended so.\<close>

definition configured :: "'w entry_api \<Rightarrow> config \<Rightarrow> bool" where
  "configured E cfg \<longleftrightarrow>
     (\<exists>w w1 w2. en_load E (config_arg (en_args E)) w = (Inr cfg, w1) \<and> init_service_logging (en_log E) (cf_log cfg) w1 = (Inr (), w2))"

definition ran :: "'w entry_api \<Rightarrow> config \<Rightarrow> err + unit \<Rightarrow> bool" where
  "ran E cfg r \<longleftrightarrow> (\<exists>w w1. en_runtime E cfg (config_arg (en_args E)) w = (r, w1))"

text \<open>From the first running report on.\<close>

lemma running_told:
  assumes L: "status_laws E S" and s: "S w = [RsStartPending]" and p: "configured E cfg"
    and e: "then_do (en_set_status E (service_status RsRunning 0 0) w) (\<lambda>_ w.
      case en_runtime E cfg (config_arg (en_args E)) w of (result, w) \<Rightarrow> then_do (report_stopped E w) (\<lambda>_ w. (result, w))) = (r, w')"
  shows "S w' \<in> told_runs \<and> (r = Inr () \<longrightarrow> S w' = [RsStartPending, RsRunning, RsStopped] \<and> ran E cfg (Inr ()))"
  using e
proof (cases rule: then_doE)
  case (fail x)
  with set_status_told [OF L fail(1)] s show ?thesis by (simp add: told_runs_def)
next
  case up: (ok u w1)
  have s1: "S w1 = [RsStartPending, RsRunning]" using set_status_told [OF L up(1)] s by (simp add: service_status_def)
  obtain res w2 where res: "en_runtime E cfg (config_arg (en_args E)) w1 = (res, w2)" by force
  have s2: "S w2 = [RsStartPending, RsRunning]" using L [unfolded status_laws_def] res s1 by (metis snd_conv)
  from up(2) res have e2: "then_do (report_stopped E w2) (\<lambda>_ w. (res, w)) = (r, w')" by simp
  have "ran E cfg res" using res unfolding ran_def by blast
  with then_stopped_told [OF L e2] s2 show ?thesis by (auto simp: told_runs_def)
qed

lemma service_told:
  assumes L: "status_laws E S" and s: "S w = []" and e: "run_service E w = (r, w')"
  shows "S w' \<in> told_runs \<and> (RsRunning \<in> set (S w') \<longrightarrow> (\<exists>cfg. configured E cfg))
    \<and> (r = Inr () \<longrightarrow> S w' = [RsStartPending, RsRunning, RsStopped] \<and> (\<exists>cfg. configured E cfg \<and> ran E cfg (Inr ())))"
proof -
  note keep = L [unfolded status_laws_def]
  show ?thesis
    using e unfolding run_service_def
  proof (cases rule: then_doE)
    case (fail x)
    have "S (snd (en_register E w)) = S w" using keep by blast
    with fail s show ?thesis by (simp add: told_runs_def)
  next
    case reg: (ok u w1)
    have s1: "S w1 = []" using keep reg(1) s by (metis snd_conv)
    from reg(2) show ?thesis
    proof (cases rule: then_doE)
      case (fail x)
      with set_status_told [OF L fail(1)] s1 show ?thesis by (simp add: told_runs_def)
    next
      case pending: (ok u2 w2)
      have s2: "S w2 = [RsStartPending]" using set_status_told [OF L pending(1)] s1 by (simp add: service_status_def)
      obtain c w3 where c: "en_load E (config_arg (en_args E)) w2 = (c, w3)" by force
      have s3: "S w3 = [RsStartPending]" using keep c s2 by (metis snd_conv)
      show ?thesis
      proof (cases c)
        case (Inl x)
        let ?e = "Ctx (''Failed to load config: '' @ config_arg (en_args E)) x"
        have e2: "then_do (report_stopped E (en_stderr E ''gdut-net: '' (Some ?e) w3)) (\<lambda>_ w. (Inl ?e, w)) = (r, w')"
          using pending(2) c Inl by (simp add: Let_def)
        have s4: "S (en_stderr E ''gdut-net: '' (Some ?e) w3) = [RsStartPending]" using keep s3 by simp
        from then_stopped_told [OF L e2] s4 show ?thesis by (auto simp: told_runs_def)
      next
        case (Inr cfg)
        obtain g w4 where g: "init_service_logging (en_log E) (cf_log cfg) w3 = (g, w4)" by force
        have s4: "S w4 = [RsStartPending]" using keep g s3 by (metis snd_conv)
        show ?thesis
        proof (cases g)
          case (Inl x)
          let ?m = "''gdut-net: failed to init file logging: ''"
          have e2: "then_do (report_stopped E (en_stderr E ?m (Some x) w4)) (\<lambda>_ w. (Inl (Ctx ''Failed to init file logging'' x), w)) = (r, w')"
            using pending(2) c Inr g Inl by (simp add: Let_def)
          have s5: "S (en_stderr E ?m (Some x) w4) = [RsStartPending]" using keep s4 by simp
          from then_stopped_told [OF L e2] s5 show ?thesis by (auto simp: told_runs_def)
        next
          case (Inr v)
          have e2: "then_do (en_set_status E (service_status RsRunning 0 0) w4) (\<lambda>_ w.
              case en_runtime E cfg (config_arg (en_args E)) w of (result, w) \<Rightarrow> then_do (report_stopped E w) (\<lambda>_ w. (result, w))) = (r, w')"
            using pending(2) c \<open>c = Inr cfg\<close> g Inr by (simp add: Let_def)
          have p: "configured E cfg" using c g \<open>c = Inr cfg\<close> Inr unfolding configured_def by auto
          from running_told [OF L s4 p e2] p show ?thesis by blast
        qed
      qed
    qed
  qed
qed

definition can_report :: "'w entry_api \<Rightarrow> bool" where
  "can_report E \<longleftrightarrow> (\<forall>st w. \<not> isl (fst (en_set_status E st w))) \<and> (\<forall>w. \<not> isl (fst (en_register E w)))"

lemma stopped_last:
  assumes "status_laws E S" "can_report E"
  shows "S (snd (then_do (report_stopped E w) (\<lambda>_ w. (k, w)))) = S w @ [RsStopped]"
proof -
  obtain u w1 where r: "report_stopped E w = (Inr u, w1)"
    using assms(2) unfolding can_report_def report_stopped_def with_ctx_def
    by (metis (no_types, lifting) isl_def obj_sumE prod.case_eq_if prod.collapse sum.simps(6))
  with report_stopped_told [OF assms(1) r] show ?thesis by simp
qed

lemma service_stopped_last:
  assumes L: "status_laws E S" and C: "can_report E"
  shows "\<exists>ss. S (snd (run_service E w)) = ss @ [RsStopped]"
proof -
  obtain u w1 where r: "en_register E w = (Inr u, w1)"
    using C unfolding can_report_def by (metis isl_def obj_sumE prod.collapse)
  have set: "\<exists>u w2. en_set_status E st w = (Inr u, w2)" for st w
    using C unfolding can_report_def by (metis isl_def obj_sumE prod.collapse)
  obtain u2 w2 where p: "en_set_status E (service_status RsStartPending 0 (from_secs 5)) w1 = (Inr u2, w2)" using set by blast
  obtain c w3 where c: "en_load E (config_arg (en_args E)) w2 = (c, w3)" by force
  show ?thesis
  proof (cases c)
    case (Inl x)
    with r p c show ?thesis by (simp add: run_service_def Let_def stopped_last [OF L C])
  next
    case (Inr cfg)
    obtain g w4 where g: "init_service_logging (en_log E) (cf_log cfg) w3 = (g, w4)" by force
    show ?thesis
    proof (cases g)
      case (Inl x)
      with r p c Inr g show ?thesis by (simp add: run_service_def Let_def stopped_last [OF L C])
    next
      case (Inr v)
      obtain u5 w5 where up: "en_set_status E (service_status RsRunning 0 0) w4 = (Inr u5, w5)" using set by blast
      obtain res w6 where res: "en_runtime E cfg (config_arg (en_args E)) w5 = (res, w6)" by force
      from r p c \<open>c = Inr cfg\<close> g Inr up res show ?thesis
        by (simp add: run_service_def Let_def stopped_last [OF L C])
    qed
  qed
qed

text \<open>
  C4 (safety). The service process, with a configuration that cannot be loaded, a log that cannot be opened, a runtime
  that ends with an error, and a service manager that refuses any of the reports: what the manager is told is always
  a beginning of start pending, running, stopped, or leaves running out; running is told only after the
  configuration was loaded and the log opened as it says; the process exits with code 0 only when the runtime was
  entered with this configuration, ended well, and all was told; and when the manager takes the reports, the last one is stopped, whatever failed.
\<close>

theorem service_reports_in_order:
  assumes "status_laws E S" and "S w = []" and "service_run E w = (code, w')"
  shows "S w' \<in> told_runs \<and> (RsRunning \<in> set (S w') \<longrightarrow> (\<exists>cfg. configured E cfg))
    \<and> (code = 0 \<longrightarrow> S w' = [RsStartPending, RsRunning, RsStopped] \<and> (\<exists>cfg. configured E cfg \<and> ran E cfg (Inr ())))
    \<and> (can_report E \<longrightarrow> last (S w') = RsStopped)"
proof -
  obtain r w1 where r: "run_service E w = (r, w1)" by force
  have s: "S w' = S w1" "code = 0 \<longrightarrow> r = Inr ()"
    using assms(1,3) r by (auto simp: service_run_def status_laws_def split: sum.splits)
  from service_told [OF assms(1,2) r] service_stopped_last [OF assms(1), of w] r s show ?thesis by auto
qed

definition demo_entry :: "told_state list entry_api" where
  "demo_entry =
     \<lparr>en_args = [''gdut-net'', ''run'', ''--config''], en_register = \<lambda>w. (Inr (), w),
      en_set_status = \<lambda>st w. (Inr (), w @ [ts_state st]), en_load = \<lambda>_ w. (Inl (Files.Msg ''no file''), w),
      en_log = \<lparr>lg_create_dir = \<lambda>_ w. (Inr (), w), lg_build = \<lambda>_ w. (Inr (), w), lg_register = \<lambda>_ w. (Inr (), w),
        lg_stderr = \<lambda>_ _ w. w, lg_events = \<lparr>ev_open = \<lambda>w. (Inr (), w), ev_report = \<lambda>_ _ _ _ w. (Inr (), w)\<rparr>\<rparr>,
      en_runtime = \<lambda>_ _ w. (Inr (), w), en_stderr = \<lambda>_ _ w. w\<rparr>"

lemma demo_entry_laws: "status_laws demo_entry id" "can_report demo_entry"
  by (simp_all add: status_laws_def can_report_def demo_entry_def init_service_logging_def install_logger_def event_open_def
      with_ctx_def Let_def split: sum.split)

theorem service_reports_in_order_witness:
  "last (snd (service_run demo_entry [])) = RsStopped \<and> fst (service_run demo_entry []) = 1
     \<and> config_arg (en_args demo_entry) = config_path"
proof -
  obtain code w' where e: "service_run demo_entry [] = (code, w')" by force
  have "code = 1"
    using e by (auto simp: service_run_def run_service_def demo_entry_def report_stopped_def with_ctx_def Let_def)
  moreover have "last w' = RsStopped" using service_reports_in_order [OF demo_entry_laws(1) _ e] demo_entry_laws(2) by simp
  ultimately show ?thesis using e by (simp add: demo_entry_def)
qed

text \<open>After a stop the task of the heartbeat has said that it is off, and it says nothing more.\<close>

lemma heartbeat_task_ends_off:
  "list_ex (\<lambda>r. fst r \<or> snd (snd r)) rounds \<Longrightarrow>
    heartbeat_task rounds \<noteq> [] \<and> last (heartbeat_task rounds) = HbOff \<and> heartbeat_task (rounds @ later) = heartbeat_task rounds"
  by (induction rounds rule: heartbeat_task.induct) auto

end
