(* ===== verification/Wireless_Test.thy ===== *)
theory Wireless_Test
  imports Worker Adapter Files
begin

text \<open>
  The WLAN control of \<open>src/src/wireless/wlan.rs\<close>, with its fallback to \<open>netsh\<close>, and the command \<open>wireless test\<close> of
  \<open>src/src/wireless/test.rs\<close>, which joins the network, logs in over its own routes and cleans up. The WLAN calls, the
  clock and the network are a record of functions; the routes are those of the takeover.
\<close>

section \<open>WLAN control\<close>

record wlan_if =
  wi_guid :: string
  wi_state :: u32

text \<open>
  Codes are those of Windows, 0 is success; \<open>wl_netsh\<close> runs the program: \<open>Inl\<close> when it cannot be started, otherwise
  whether it succeeded and its error output.
\<close>

record 'w wlan_api =
  wl_open :: "'w \<Rightarrow> u32 \<times> 'w"
  wl_close :: "'w \<Rightarrow> 'w"
  wl_enum :: "'w \<Rightarrow> (u32 + wlan_if list) \<times> 'w"
  wl_connect :: "string \<Rightarrow> string \<Rightarrow> 'w \<Rightarrow> u32 \<times> 'w"
  wl_disconnect :: "string \<Rightarrow> 'w \<Rightarrow> u32 \<times> 'w"
  wl_netsh :: "string list \<Rightarrow> 'w \<Rightarrow> (string + bool \<times> string) \<times> 'w"

definition with_handle :: "'w wlan_api \<Rightarrow> ('w \<Rightarrow> ('a, 'w) outcome) \<Rightarrow> 'w \<Rightarrow> ('a, 'w) outcome" where
  "with_handle W f w =
     (case wl_open W w of (code, w) \<Rightarrow>
        if code \<noteq> 0 then (Inl (Files.Msg (''WlanOpenHandle failed: '' @ dec (unat code))), w)
        else (case f w of (r, w) \<Rightarrow> (r, wl_close W w)))"

definition first_interface :: "'w wlan_api \<Rightarrow> 'w \<Rightarrow> (string, 'w) outcome" where
  "first_interface W w =
     (case wl_enum W w of
        (Inl code, w) \<Rightarrow> (Inl (Files.Msg (''WlanEnumInterfaces failed: '' @ dec (unat code))), w)
      | (Inr [], w) \<Rightarrow> (Inl (Files.Msg ''no WLAN interface present''), w)
      | (Inr (i # _), w) \<Rightarrow> (Inr (wi_guid i), w))"

definition wlanapi_connect :: "'w wlan_api \<Rightarrow> string \<Rightarrow> 'w \<Rightarrow> (unit, 'w) outcome" where
  "wlanapi_connect W profile =
     with_handle W (\<lambda>w. then_do (first_interface W w) (\<lambda>guid w.
       case wl_connect W guid profile w of (code, w) \<Rightarrow>
         ensure (code = 0) (Files.Msg (''WlanConnect('' @ profile @ '') failed: '' @ dec (unat code))) w))"

definition wlanapi_disconnect :: "'w wlan_api \<Rightarrow> 'w \<Rightarrow> (unit, 'w) outcome" where
  "wlanapi_disconnect W =
     with_handle W (\<lambda>w. then_do (first_interface W w) (\<lambda>guid w.
       case wl_disconnect W guid w of (code, w) \<Rightarrow>
         ensure (code = 0) (Files.Msg (''WlanDisconnect failed: '' @ dec (unat code))) w))"

definition run_netsh :: "'w wlan_api \<Rightarrow> string list \<Rightarrow> 'w \<Rightarrow> (unit, 'w) outcome" where
  "run_netsh W args w =
     (case wl_netsh W args w of
        (Inl e, w) \<Rightarrow> (Inl (Files.Msg e), w)
      | (Inr (success, text), w) \<Rightarrow>
          ensure success (Files.Msg (''netsh '' @ join_args args @ '' failed: '' @ text)) w)"

definition wlan_associate :: "'w wlan_api \<Rightarrow> string \<Rightarrow> 'w \<Rightarrow> (unit, 'w) outcome" where
  "wlan_associate W profile w =
     (case wlanapi_connect W profile w of
        (Inr _, w) \<Rightarrow> (Inr (), w)
      | (Inl e, w) \<Rightarrow> run_netsh W [''wlan'', ''connect'', ''name='' @ profile] w)"

definition wlan_disassociate :: "'w wlan_api \<Rightarrow> 'w \<Rightarrow> (unit, 'w) outcome" where
  "wlan_disassociate W w =
     (case wlanapi_disconnect W w of
        (Inr _, w) \<Rightarrow> (Inr (), w)
      | (Inl e, w) \<Rightarrow> run_netsh W [''wlan'', ''disconnect''] w)"

definition interface_connected :: u32 where "interface_connected = 1"

definition wlan_associated :: "'w wlan_api \<Rightarrow> 'w \<Rightarrow> bool \<times> 'w" where
  "wlan_associated W w =
     (case with_handle W (\<lambda>w. case wl_enum W w of
             (Inl _, w) \<Rightarrow> (Inr False, w)
           | (Inr is, w) \<Rightarrow> (Inr (list_ex (\<lambda>i. wi_state i = interface_connected) is), w)) w of
        (Inr b, w) \<Rightarrow> (b, w)
      | (Inl _, w) \<Rightarrow> (False, w))"

section \<open>The test command\<close>

record 'w test_env =
  te_load :: "'w \<Rightarrow> (config, 'w) outcome"
  te_unprotect :: "string \<Rightarrow> 'w \<Rightarrow> (string, 'w) outcome"
  te_wlan :: "'w wlan_api"
  te_adapter :: "'w \<Rightarrow> adapter_info option \<times> 'w"
  te_now :: "'w \<Rightarrow> nat \<times> 'w"
  te_sleep :: "duration \<Rightarrow> 'w \<Rightarrow> 'w"
  te_build :: "'w \<Rightarrow> (unit, 'w) outcome"
  te_net :: "'w net"
  te_login_deadline :: "'w \<Rightarrow> bool"

datatype test_line = TlJoining string | TlUp ipv4 ipv4 u32 | TlWaiting duration | TlGet string | TlAttemptFailed nat string
  | TlReply u16 string | TlResult portal_result | TlNoReply | TlCleaning | TlDone

definition wait_ip :: duration where "wait_ip = from_secs 20"
definition ip_poll :: duration where "ip_poll = from_secs 2"

text \<open>The rounds are those that fit in the time, see \<open>await_adapter_enough\<close>.\<close>

primrec await_adapter :: "'w test_env \<Rightarrow> nat \<Rightarrow> nat \<Rightarrow> 'w \<Rightarrow> (adapter_info, 'w) outcome" where
  "await_adapter E 0 deadline w = (Inl (Files.Msg ''Timed out waiting for WLAN IPv4 (DHCP)''), w)"
| "await_adapter E (Suc n) deadline w =
     (case te_adapter E w of
        (Some a, w) \<Rightarrow> (Inr a, w)
      | (None, w) \<Rightarrow>
          (case te_now E w of (now, w) \<Rightarrow>
             if deadline < now then (Inl (Files.Msg ''Timed out waiting for WLAN IPv4 (DHCP)''), w)
             else await_adapter E n deadline (te_sleep E ip_poll w)))"

definition ip_rounds :: nat where "ip_rounds = wait_ip div ip_poll + 2"

definition test_login :: "'v serde \<Rightarrow> 'w test_env \<Rightarrow> config \<Rightarrow> string \<Rightarrow> ipv4 \<Rightarrow> 'w \<Rightarrow> (string + u16 \<times> string) \<times> 'w" where
  "test_login J E cfg pass ip w =
     (case login_inner J (te_net E) ip (wc_portal_url (cf_wireless cfg)) (ac_student_id (cf_account cfg)) pass
             (wc_wlan_ac_ip (cf_wireless cfg)) w of (r, w) \<Rightarrow>
        (if te_login_deadline E w then Inl ''Portal authentication deadline exceeded'' else r, w))"

text \<open>Up to three attempts; the first reply ends them.\<close>

primrec login_attempts :: "'v serde \<Rightarrow> 'w test_env \<Rightarrow> config \<Rightarrow> string \<Rightarrow> ipv4 \<Rightarrow> nat \<Rightarrow> nat \<Rightarrow> 'w
    \<Rightarrow> (test_line list \<times> (err + (u16 \<times> string) option)) \<times> 'w" where
  "login_attempts J E cfg pass ip 0 i w = (([], Inr None), w)"
| "login_attempts J E cfg pass ip (Suc n) i w =
     (case te_build E w of
        (Inl e, w) \<Rightarrow> (([], Inl e), w)
      | (Inr _, w) \<Rightarrow>
          (case test_login J E cfg pass ip w of
             (Inr reply, w) \<Rightarrow> (([], Inr (Some reply)), w)
           | (Inl m, w) \<Rightarrow>
               (case login_attempts J E cfg pass ip n (Suc i) (te_sleep E (from_secs 2) w) of
                  ((ls, r), w) \<Rightarrow> ((TlAttemptFailed i m # ls, r), w))))"

definition result_lines :: "'v serde \<Rightarrow> (u16 \<times> string) option \<Rightarrow> test_line list" where
  "result_lines J reply =
     (case reply of
        Some (code, body) \<Rightarrow> [TlReply code body, TlResult (parse_portal_reply J body)]
      | None \<Rightarrow> [TlNoReply])"

text \<open>The end of \<open>Teardown\<close>: the routes, the WLAN, then the fields are dropped.\<close>

definition test_end :: "'k ip_helper \<Rightarrow> 'w test_env \<Rightarrow> 'k route_guard egress \<Rightarrow> 'w \<Rightarrow> 'k route_guard \<times> 'w" where
  "test_end H E e w =
     (let e = snd (release (route_guard_ops H) e); w = snd (wlan_disassociate (te_wlan E) w)
      in (teardown H (eg_ops (egress_drop (route_guard_ops H) e)), w))"

definition test_online :: "'v serde \<Rightarrow> 'k ip_helper \<Rightarrow> 'w test_env \<Rightarrow> config \<Rightarrow> string \<Rightarrow> ipv4 \<Rightarrow> adapter_info \<Rightarrow> ipv4 \<Rightarrow> 'k \<Rightarrow> 'w
    \<Rightarrow> (test_line list \<times> (err + unit)) \<times> 'k route_guard \<times> 'w" where
  "test_online J H E cfg pass portal_ip a gw k w =
     (let up = TlUp (ai_ipv4 a) gw (ai_ifindex a);
          (r, e) = acquire (route_guard_ops H) \<lparr>ep_gateway = gw, ep_ifindex = ai_ifindex a\<rparr>
                     (own_destinations (route_guard_ops H) [portal_ip] (egress_new (route_guard_new k)))
      in case r of
           Inl m \<Rightarrow> (([up], Inl (Files.Msg m)), test_end H E e w)
         | Inr settle \<Rightarrow>
             (let url = build_login_url (wc_portal_url (cf_wireless cfg)) (ac_student_id (cf_account cfg)) pass (ai_ipv4 a)
                          (wc_wlan_ac_ip (cf_wireless cfg));
                  before = [up, TlWaiting settle, TlGet (redact_query url)]
              in case login_attempts J E cfg pass (ai_ipv4 a) 3 1 (te_sleep E settle w) of
                   ((ls, Inl x), w) \<Rightarrow> ((before @ ls, Inl x), test_end H E e w)
                 | ((ls, Inr reply), w) \<Rightarrow>
                     ((before @ ls @ result_lines J reply @ [TlCleaning, TlDone], Inr ()), test_end H E e w)))"

definition test_joined :: "'v serde \<Rightarrow> 'k ip_helper \<Rightarrow> 'w test_env \<Rightarrow> config \<Rightarrow> string \<Rightarrow> ipv4 \<Rightarrow> 'k \<Rightarrow> 'w
    \<Rightarrow> (test_line list \<times> (err + unit)) \<times> 'k route_guard \<times> 'w" where
  "test_joined J H E cfg pass portal_ip k w =
     (case te_now E w of (now, w) \<Rightarrow>
      case await_adapter E ip_rounds (now + wait_ip) w of
        (Inl e, w) \<Rightarrow> (([], Inl e), route_guard_new k, w)
      | (Inr a, w) \<Rightarrow>
          (case ai_gateway a of
             None \<Rightarrow> (([], Inl (Files.Msg (''WLAN has no gateway '' @ em_dash @ '' portal unreachable''))), route_guard_new k, w)
           | Some gw \<Rightarrow> test_online J H E cfg pass portal_ip a gw k w))"

definition cli_test :: "'v serde \<Rightarrow> 'k ip_helper \<Rightarrow> 'w test_env \<Rightarrow> 'k \<Rightarrow> 'w \<Rightarrow> (test_line list \<times> (err + unit)) \<times> 'k route_guard \<times> 'w" where
  "cli_test J H E k w =
     (case te_load E w of
        (Inl e, w) \<Rightarrow> (([], Inl e), route_guard_new k, w)
      | (Inr cfg, w) \<Rightarrow>
          (case with_ctx ''Failed to decrypt password_blob (run install first)''
                  (te_unprotect E (ac_password_blob (cf_account cfg)) w) of
             (Inl e, w) \<Rightarrow> (([], Inl e), route_guard_new k, w)
           | (Inr pass, w) \<Rightarrow>
               (case parse_http_probe_target (wc_portal_url (cf_wireless cfg)) of
                  None \<Rightarrow> (([], Inl (Files.Msg ''wireless.portal_url invalid'')), route_guard_new k, w)
                | Some (portal_ip, _) \<Rightarrow>
                    (let joining = TlJoining (wc_profile (cf_wireless cfg))
                     in case with_ctx ''Failed to associate (profile missing? connect to the SSID manually once to create it)''
                             (wlan_associate (te_wlan E) (wc_profile (cf_wireless cfg)) w) of
                          (Inl e, w) \<Rightarrow> (([joining], Inl e), route_guard_new k, w)
                        | (Inr _, w) \<Rightarrow>
                            (case test_joined J H E cfg pass portal_ip k w of
                               ((ls, r), gw) \<Rightarrow> ((joining # ls, r), gw))))))"

section \<open>Handles are closed, waiting ends\<close>

lemma then_do_keeps_view:
  assumes "f (snd r) = n" "\<And>a w. r = (Inr a, w) \<Longrightarrow> f (snd (k a w)) = f w"
  shows "f (snd (then_do r k)) = n"
  using assms by (cases r; cases "fst r") auto

text \<open>\<open>n w\<close> is the number of open handles: only opening and closing change it.\<close>

lemma handles_closed:
  assumes "\<And>w. n (snd (wl_open W w)) = (if fst (wl_open W w) = 0 then n w + 1 else n w)" "\<And>w. n (wl_close W w) + 1 = n w"
    and "\<And>w. n (snd (f w)) = (n w :: nat)"
  shows "n (snd (with_handle W f w)) = n w"
  using assms(1) [of w] assms(2) [of "snd (f (snd (wl_open W w)))"] assms(3) [of "snd (wl_open W w)"]
  by (auto simp: with_handle_def split: prod.splits if_splits)

lemma await_adapter_enough:
  assumes L: "\<And>w. T w \<le> T (snd (te_adapter E w))" "\<And>w now w'. te_now E w = (now, w') \<Longrightarrow> T w \<le> now \<and> now \<le> T w'"
    "\<And>d w. T w + d \<le> T (te_sleep E d w)"
    and "deadline < T w + n * ip_poll" "deadline < T w + m * ip_poll"
  shows "await_adapter E (Suc n) deadline w = await_adapter E (Suc m) deadline w"
  using assms(4,5)
proof (induction n arbitrary: m w)
  case 0
  obtain r w1 where a: "te_adapter E w = (r, w1)" by force
  obtain now w2 where t: "te_now E w1 = (now, w2)" by force
  have "deadline < now" using 0 L(1) [of w] a L(2) [OF t] by simp
  with a t show ?case by (cases r) simp_all
next
  case (Suc n)
  obtain r w1 where a: "te_adapter E w = (r, w1)" by force
  obtain now w2 where t: "te_now E w1 = (now, w2)" by force
  let ?w = "te_sleep E ip_poll w2"
  have step: "T w + ip_poll \<le> T ?w" using L(1) [of w] a L(2) [OF t] L(3) [of w2 ip_poll] by simp
  show ?case
  proof (cases "\<exists>x. r = Some x \<or> deadline < now")
    case True
    with a t show ?thesis by (cases r) auto
  next
    case False
    then have r: "r = None" "\<not> deadline < now" by (cases r; simp)+
    have big: "deadline < T ?w + n * ip_poll" using Suc.prems(1) step by simp
    show ?thesis
    proof (cases m)
      case 0
      with Suc.prems(2) r L(1) [of w] a L(2) [OF t] show ?thesis by simp
    next
      case (Suc m')
      then have "deadline < T ?w + m' * ip_poll" using Suc.prems(2) step by simp
      from Suc.IH [OF big this] a t r Suc show ?thesis by simp
    qed
  qed
qed

section \<open>The test leaves no route\<close>

lemma acquired_no_leak:
  assumes "table_laws H K"
  shows "no_leak K (K k) (eg_ops (snd (acquire (route_guard_ops H) ep
     (own_destinations (route_guard_ops H) ds (egress_new (route_guard_new k))))))"
proof (rule egress_stable.acquire_keeps [OF route_guard_stable [OF assms]])
  have "no_leak K (K k) (route_guard_new k)" by (simp add: no_leak_def route_guard_new_def)
  then show "no_leak K (K k) (eg_ops (own_destinations (route_guard_ops H) ds (egress_new (route_guard_new k))))"
    unfolding own_destinations_def
    by (intro egress_stable.retry_keeps [OF route_guard_stable [OF assms]]) (simp add: egress_new_def)
qed

lemma test_end_clean:
  assumes "table_laws H K" "\<And>r k. fst (ih_delete H r k) \<in> {0, 1168}" "no_leak K K0 (eg_ops e)"
  shows "K (rg_kernel (fst (test_end H E e w))) \<subseteq> K0" and "snd (test_end H E e w) = snd (wlan_disassociate (te_wlan E) w)"
  using drop_leaves_no_route [OF assms(1,2) egress_stable.release_keeps [OF route_guard_stable [OF assms(1)] assms(3)]]
  by (simp_all add: test_end_def Let_def)

text \<open>The run once the WLAN is up: it always goes through the end.\<close>

lemma test_online_end:
  "\<exists>w1. snd (test_online J H E cfg pass portal_ip a gw k w) = test_end H E (snd (acquire (route_guard_ops H)
      \<lparr>ep_gateway = gw, ep_ifindex = ai_ifindex a\<rparr>
      (own_destinations (route_guard_ops H) [portal_ip] (egress_new (route_guard_new k))))) w1"
proof -
  obtain r e where a: "acquire (route_guard_ops H) \<lparr>ep_gateway = gw, ep_ifindex = ai_ifindex a\<rparr>
      (own_destinations (route_guard_ops H) [portal_ip] (egress_new (route_guard_new k))) = (r, e)" by force
  show ?thesis
  proof (cases r)
    case (Inl m)
    with a show ?thesis by (auto simp: test_online_def Let_def)
  next
    case (Inr settle)
    obtain ls x w1 where "login_attempts J E cfg pass (ai_ipv4 a) 3 1 (te_sleep E settle w) = ((ls, x), w1)" by (metis prod.exhaust)
    with a Inr show ?thesis by (cases x) (auto simp: test_online_def Let_def)
  qed
qed

lemma test_online_lines:
  "TlUp (ai_ipv4 a) gw (ai_ifindex a) \<in> set (fst (fst (test_online J H E cfg pass portal_ip a gw k w)))"
  by (auto simp: test_online_def Let_def split: prod.split sum.split)

lemma joined_clean:
  assumes L: "table_laws H K" "\<And>r k. fst (ih_delete H r k) \<in> {0, 1168}"
    and j: "test_joined J H E cfg pass portal_ip k w = ((ls, r), g, w')"
  shows "K (rg_kernel g) \<subseteq> K k \<and> ((\<exists>ip gw i. TlUp ip gw i \<in> set ls) \<or> r = Inr () \<longrightarrow> (\<exists>w1. w' = snd (wlan_disassociate (te_wlan E) w1)))"
proof (cases "\<exists>a gw w0. (g, w') = snd (test_online J H E cfg pass portal_ip a gw k w0)")
  case True
  then obtain a gw w0 where o: "(g, w') = snd (test_online J H E cfg pass portal_ip a gw k w0)" by blast
  obtain w1 where "(g, w') = test_end H E (snd (acquire (route_guard_ops H) \<lparr>ep_gateway = gw, ep_ifindex = ai_ifindex a\<rparr>
      (own_destinations (route_guard_ops H) [portal_ip] (egress_new (route_guard_new k))))) w1"
    using o test_online_end [of J H E cfg pass portal_ip a gw k w0] by auto
  with test_end_clean [OF L acquired_no_leak [OF L(1)]] show ?thesis by (metis fst_conv snd_conv)
next
  case False
  then have "g = route_guard_new k \<and> ls = [] \<and> isl r"
    using j by (auto simp: test_joined_def split: prod.splits sum.splits option.splits) (metis snd_conv)+
  then show ?thesis by (auto simp: route_guard_new_def)
qed

lemma cli_test_clean:
  assumes L: "table_laws H K" "\<And>r k. fst (ih_delete H r k) \<in> {0, 1168}"
    and c: "cli_test J H E k w = ((ls, r), g, w')"
  shows "K (rg_kernel g) \<subseteq> K k \<and> ((\<exists>ip gw i. TlUp ip gw i \<in> set ls) \<or> r = Inr () \<longrightarrow> (\<exists>w1. w' = snd (wlan_disassociate (te_wlan E) w1)))"
proof (cases "\<exists>cfg pass portal_ip w0 js ls'. ls = TlJoining js # ls' \<and> test_joined J H E cfg pass portal_ip k w0 = ((ls', r), g, w')")
  case True
  with joined_clean [OF L] show ?thesis by fastforce
next
  case False
  then have "g = route_guard_new k \<and> (\<forall>l \<in> set ls. \<exists>p. l = TlJoining p) \<and> isl r"
    using c by (auto simp: cli_test_def Let_def split: prod.splits sum.splits option.splits)
  then show ?thesis by (auto simp: route_guard_new_def)
qed

text \<open>
  C7 (safety). The test command, whatever the configuration, the WLAN, the portal and the clock do, and whichever routes
  cannot be created: as long as those created can be deleted, it leaves no route
  in the table that was not there before, and once it has announced the network, or reports success, the last thing it
  does is to disconnect the WLAN.
\<close>

theorem wireless_test_cleans_up:
  assumes "table_laws H K" and "\<And>r k. fst (ih_delete H r k) \<in> {0, 1168}"
    and "cli_test J H E k w = ((ls, r), g, w')"
  shows "K (rg_kernel g) \<subseteq> K k
    \<and> ((\<exists>ip gw i. TlUp ip gw i \<in> set ls) \<or> r = Inr () \<longrightarrow> (\<exists>w1. w' = snd (wlan_disassociate (te_wlan E) w1)))"
  using cli_test_clean [OF assms] .

text \<open>A WLAN that joins and leaves, and an address server that answers or not; the world is whether it is joined, and the time.\<close>

definition demo_wlan :: "(bool \<times> nat) wlan_api" where
  "demo_wlan =
     \<lparr>wl_open = \<lambda>w. (0, w), wl_close = \<lambda>w. w, wl_enum = \<lambda>w. (Inr [\<lparr>wi_guid = [], wi_state = 0\<rparr>], w),
      wl_connect = \<lambda>_ _ w. (0, (True, snd w)), wl_disconnect = \<lambda>_ w. (0, (False, snd w)),
      wl_netsh = \<lambda>_ w. (Inl [], w)\<rparr>"

definition demo_test_env :: "adapter_info option \<Rightarrow> (bool \<times> nat) test_env" where
  "demo_test_env a =
     \<lparr>te_load = \<lambda>w. (Inr config_default, w), te_unprotect = \<lambda>_ w. (Inr ''pw'', w), te_wlan = demo_wlan,
      te_adapter = \<lambda>w. (a, w), te_now = \<lambda>w. (snd w, w), te_sleep = \<lambda>d w. (fst w, snd w + d), te_build = \<lambda>w. (Inr (), w),
      te_net = \<lparr>nt_get = \<lambda>_ _ n. (None, n), nt_sleep = \<lambda>_ n. n\<rparr>, te_login_deadline = \<lambda>_. False\<rparr>"

theorem wireless_test_cleans_up_witness:
  "set (fst (rg_kernel (fst (snd (cli_test demo_json demo_helper (demo_test_env None) demo_kernel (False, 0)))))) = {}"
proof -
  have d: "\<And>r k. fst (ih_delete demo_helper r k) \<in> {0, 1168}"
    by (simp add: demo_helper_def case_prod_beta)
  obtain ls r g w' where c: "cli_test demo_json demo_helper (demo_test_env None) demo_kernel (False, 0) = ((ls, r), g, w')"
    by (metis prod.exhaust)
  from wireless_test_cleans_up [OF demo_table_laws d c] c show ?thesis by (simp add: demo_kernel_def case_prod_beta)
qed

text \<open>When no address comes, the command fails before it has anything to clean up with, and the WLAN stays joined.\<close>

lemma no_address_leaves_wlan_joined:
  "await_adapter (demo_test_env None) n deadline (True, t) = (Inl (Files.Msg ''Timed out waiting for WLAN IPv4 (DHCP)''), w') \<Longrightarrow> fst w'"
  by (induction n arbitrary: t) (auto simp: demo_test_env_def split: if_splits)

end
