(* ===== verification/Probe_Icmp.thy ===== *)
theory Probe_Icmp
  imports Probe Http_Get Brain
begin

text \<open>
  The two observations of a probe, the Windows part of \<open>src/src/probe.rs\<close>: the ICMP echo to the gateway and the HTTP
  request through the asynchronous client. The ICMP calls are a record of functions.
\<close>

definition icmp_timeout_ms :: nat where "icmp_timeout_ms = 1500"
definition probe_http_timeout :: duration where "probe_http_timeout = from_secs 3"
definition http_max_response :: nat where "http_max_response = 16 * 1024"

text \<open>Swapping the bytes, which is what \<open>to_be\<close> does on the only target of the program.\<close>

definition htonl :: "ipv4 \<Rightarrow> u32" where "htonl ip = to_be (u32_of_ipv4 ip)"

text \<open>
  \<open>ic_create\<close> fails, or says whether the handle is valid; \<open>ic_send\<close> gets source, target, data, the size of the
  buffer and the limit in milliseconds, and returns the number of replies and the status in the first one.
\<close>

record 'w icmp_api =
  ic_create :: "'w \<Rightarrow> (string + bool) \<times> 'w"
  ic_send :: "u32 \<Rightarrow> u32 \<Rightarrow> u8 list \<Rightarrow> nat \<Rightarrow> nat \<Rightarrow> 'w \<Rightarrow> (nat \<times> u32) \<times> 'w"
  ic_close :: "'w \<Rightarrow> 'w"
  ic_reply_size :: nat

definition icmp_gateway_alive :: "'w icmp_api \<Rightarrow> ipv4 \<Rightarrow> ipv4 \<Rightarrow> 'w \<Rightarrow> bool \<times> 'w" where
  "icmp_gateway_alive I src_ip gateway w =
     (case ic_create I w of
        (Inr True, w) \<Rightarrow>
          (let data = replicate 32 0
           in case ic_send I (htonl src_ip) (htonl gateway) data (ic_reply_size I + length data + 8) icmp_timeout_ms w of
                ((replies, status), w) \<Rightarrow> (replies > 0 \<and> status = 0, ic_close I w))
      | (_, w) \<Rightarrow> (False, w))"

text \<open>\<open>T\<close> is the time in a world; a request that fails for any reason gives nothing.\<close>

definition probe_request :: "ipv4 \<Rightarrow> string \<Rightarrow> http_request" where
  "probe_request src_ip url =
     \<lparr>rq_url = url, rq_bind_ip = src_ip, rq_user_agent = ''gdut-net-probe'', rq_timeout = probe_http_timeout,
      rq_max_bytes = http_max_response, rq_policy = AcceptPartial\<rparr>"

definition http_get_probe :: "'w async_api \<Rightarrow> ('w \<Rightarrow> duration) \<Rightarrow> (u8 list \<Rightarrow> string) \<Rightarrow> ipv4 \<Rightarrow> string \<Rightarrow> 'w \<Rightarrow> (u16 \<times> string) option \<times> duration" where
  "http_get_probe A T lossy src_ip url w =
     (case get_async A T lossy (probe_request src_ip url) w of
        (Inr r, t) \<Rightarrow> (Some (r_status r, r_location_lower r), t)
      | (Inl _, t) \<Rightarrow> (None, t))"

text \<open>Both observations, each in the world at the start; a task that panicked counts as no reply.\<close>

definition probe_online ::
  "'w icmp_api \<Rightarrow> 'w async_api \<Rightarrow> ('w \<Rightarrow> duration) \<Rightarrow> (u8 list \<Rightarrow> string) \<Rightarrow> bool \<Rightarrow> ipv4 \<Rightarrow> ipv4 option \<Rightarrow> string \<Rightarrow> 'w \<Rightarrow> probe_verdict" where
  "probe_online I A T lossy panicked src_ip gateway url w =
     probe_once (\<lambda>src target. \<not> panicked \<and> fst (icmp_gateway_alive I src target w))
       (\<lambda>src u. fst (http_get_probe A T lossy src u w)) src_ip gateway url"

section \<open>Handles and time\<close>

text \<open>Every handle that was opened is closed: \<open>N\<close> counts the open ones.\<close>

lemma icmp_handle_closed:
  assumes "\<And>w. N (snd (ic_create I w)) = N w + (if fst (ic_create I w) = Inr True then 1 else 0)"
    and "\<And>a b c d e w. N (snd (ic_send I a b c d e w)) = N w" and "\<And>w. N (ic_close I w) = N w - 1"
  shows "N (snd (icmp_gateway_alive I src gw w)) = (N w :: nat)"
proof -
  obtain c w1 where c: "ic_create I w = (c, w1)" by force
  show ?thesis
  proof (cases "c = Inr True")
    case True
    obtain n st w2 where s: "ic_send I (htonl src) (htonl gw) (replicate 32 0) (ic_reply_size I + 32 + 8) icmp_timeout_ms w1 = ((n, st), w2)"
      by (metis surj_pair)
    have "N w1 = Suc (N w)" using assms(1) [of w] c True by simp
    moreover have "N w2 = N w1"
      using assms(2) [of "htonl src" "htonl gw" "replicate 32 0" "ic_reply_size I + 32 + 8" icmp_timeout_ms w1] s by simp
    ultimately show ?thesis using c s True assms(3) [of w2] by (simp add: icmp_gateway_alive_def Let_def)
  next
    case False
    with assms(1) [of w] c have "N w1 = N w" by simp
    with c False show ?thesis by (cases c) (auto simp: icmp_gateway_alive_def)
  qed
qed

text \<open>The HTTP observation is there at the latest three seconds after it was asked for.\<close>

lemma http_observation_in_time: "snd (http_get_probe A T lossy src_ip url w) \<le> T w + from_secs 3"
proof -
  obtain r t where g: "get_async A T lossy (probe_request src_ip url) w = (r, t)" by force
  have "t \<le> T w + from_secs 3" using get_async_in_time(1) [of A T lossy "probe_request src_ip url" w] g
    by (simp add: probe_request_def probe_http_timeout_def)
  with g show ?thesis by (simp add: http_get_probe_def split: sum.split)
qed

text \<open>A link that is given up had neither an echo nor a complete HTTP header.\<close>

lemma link_down_means_silence:
  "probe_online I A T lossy p src gw url w = LinkDown \<Longrightarrow>
     fst (http_get_probe A T lossy src url w) = None \<and> (p \<or> \<not> fst (icmp_gateway_alive I src (icmp_target gw) w))"
  unfolding probe_online_def probe_once_cases [THEN conjunct2, THEN conjunct1] by auto

end
