(* ===== verification/Pipe_Listen.thy ===== *)
theory Pipe_Listen
  imports Ipc
begin

text \<open>
  How the server of \<open>src/src/ipc/server.rs\<close> gets a connection: the pipe with the security descriptor that lets
  the users' sessions open it, and the wait for a client. The Windows calls are a record of functions; a
  descriptor is the address of its memory.
\<close>

definition pipe_name :: string where
  "pipe_name = [CHR 92, CHR 92, CHR ''.'', CHR 92] @ ''pipe'' @ [CHR 92] @ ''gdut-net''"

definition pipe_sddl :: string where "pipe_sddl = ''D:(A;;GRGW;;;AU)''"

record security_attributes =
  sa_descriptor :: nat
  sa_inherit :: bool

text \<open>\<open>pp_create\<close> gets the name, whether it must be the first instance, and the attributes.\<close>

record 'w pipe_api =
  pp_convert :: "string \<Rightarrow> 'w \<Rightarrow> (string + nat) \<times> 'w"
  pp_create :: "string \<Rightarrow> bool \<Rightarrow> security_attributes \<Rightarrow> 'w \<Rightarrow> (unit, 'w) outcome"
  pp_free :: "nat \<Rightarrow> 'w \<Rightarrow> 'w"
  pp_connect :: "'w \<Rightarrow> (unit, 'w) outcome"

definition pipe_security :: "'w pipe_api \<Rightarrow> 'w \<Rightarrow> (security_attributes \<times> nat, 'w) outcome" where
  "pipe_security P w =
     (case pp_convert P pipe_sddl w of
        (Inl e, w) \<Rightarrow> (Inl (Msg (''ConvertStringSecurityDescriptor failed: '' @ e)), w)
      | (Inr sd, w) \<Rightarrow> (Inr (\<lparr>sa_descriptor = sd, sa_inherit = False\<rparr>, sd), w))"

definition listen_once :: "'w pipe_api \<Rightarrow> 'w \<Rightarrow> (unit, 'w) outcome" where
  "listen_once P w =
     then_do (then_do (pipe_security P w) (\<lambda>(sa, sd) w.
        case pp_create P pipe_name False sa w of (r, w) \<Rightarrow> (r, pp_free P sd w))) (\<lambda>_ w.
       pp_connect P w)"

section \<open>Descriptors are freed\<close>

text \<open>The memory of a descriptor is freed once, and before the wait for a client begins: \<open>N\<close> counts what is held.\<close>

lemma descriptor_freed:
  assumes "\<And>s w. N (snd (pp_convert P s w)) = N w + (if isl (fst (pp_convert P s w)) then 0 else 1)"
    and "\<And>n b sa w. N (snd (pp_create P n b sa w)) = N w" and "\<And>sd w. N (pp_free P sd w) = N w - 1"
    and "\<And>w. N w = 0 \<Longrightarrow> N (snd (pp_connect P w)) = 0"
  shows "N w = (0 :: nat) \<Longrightarrow> N (snd (listen_once P w)) = 0"
proof -
  assume z: "N w = 0"
  obtain c w1 where c: "pp_convert P pipe_sddl w = (c, w1)" by force
  show ?thesis
  proof (cases c)
    case (Inl e)
    with assms(1) [of pipe_sddl w] c z show ?thesis by (simp add: listen_once_def pipe_security_def)
  next
    case (Inr sd)
    obtain r w2 where r: "pp_create P pipe_name False \<lparr>sa_descriptor = sd, sa_inherit = False\<rparr> w1 = (r, w2)" by force
    have "N w1 = 1" using assms(1) [of pipe_sddl w] c Inr z by simp
    then have "N (pp_free P sd w2) = 0"
      using assms(2) [of pipe_name False "\<lparr>sa_descriptor = sd, sa_inherit = False\<rparr>" w1] assms(3) [of sd w2] r by simp
    with c Inr r assms(4) show ?thesis by (cases r) (simp_all add: listen_once_def pipe_security_def)
  qed
qed

text \<open>A connection is served only on a pipe that was made with the descriptor, never as the first instance only.\<close>

lemma listening_needs_descriptor:
  assumes "fst (listen_once P w) = Inr ()"
  shows "\<exists>sd w1 w2. pp_convert P pipe_sddl w = (Inr sd, w1)
    \<and> pp_create P pipe_name False \<lparr>sa_descriptor = sd, sa_inherit = False\<rparr> w1 = (Inr (), w2)"
  using assms unfolding listen_once_def pipe_security_def
  by (auto simp: then_do_def split: prod.splits sum.splits)

end
