(* ===== verification/Tray_Pump.thy ===== *)
theory Tray_Pump
  imports Gui Registry Ipc
begin

text \<open>
  The surroundings of the tray's loop in \<open>src/src/tray/mod.rs\<close>: the tray is built before the loop, one turn of the
  loop takes the messages of Windows and waits, a second start wakes the first, and a worker sends the commands.
  The Windows and toolkit calls are records of functions.
\<close>

section \<open>Waking the first instance\<close>

definition singleton_name :: string where "singleton_name = ''gdut-net-tray-singleton''"
definition show_event_name :: string where "show_event_name = ''gdut-net-tray-show''"

record 'w wake_api =
  wa_create :: "string \<Rightarrow> 'w \<Rightarrow> (string + nat) \<times> 'w"
  wa_set :: "nat \<Rightarrow> 'w \<Rightarrow> 'w"
  wa_close :: "nat \<Rightarrow> 'w \<Rightarrow> 'w"

definition signal_show :: "'w wake_api \<Rightarrow> 'w \<Rightarrow> 'w" where
  "signal_show A w =
     (case wa_create A show_event_name w of
        (Inr h, w) \<Rightarrow> wa_close A h (wa_set A h w)
      | (Inl _, w) \<Rightarrow> w)"

text \<open>The window of the console is a null handle when there is none.\<close>

definition has_console :: "nat \<Rightarrow> bool" where "has_console hwnd \<longleftrightarrow> hwnd \<noteq> 0"

section \<open>One turn of the message pump\<close>

text \<open>
  \<open>ms_peek\<close> takes a message away if one is there; \<open>ms_get\<close> waits for one and returns its code; \<open>ms_wait\<close> gets
  whether there is an event to wait for and the limit in milliseconds, and returns its code.
\<close>

record 'w msg_api =
  ms_peek :: "'w \<Rightarrow> bool \<times> 'w"
  ms_dispatch :: "'w \<Rightarrow> 'w"
  ms_get :: "'w \<Rightarrow> int \<times> 'w"
  ms_wait :: "bool \<Rightarrow> nat \<Rightarrow> 'w \<Rightarrow> nat \<times> 'w"

record pump =
  pu_processed :: bool
  pu_woke :: bool

definition wait_object_0 :: nat where "wait_object_0 = 0"
definition wait_timeout :: nat where "wait_timeout = 258"
definition infinite :: nat where "infinite = 2 ^ 32 - 1"

text \<open>As long as handlers post messages this may go on, so the result is optional.\<close>

partial_function (option) take_messages :: "'w msg_api \<Rightarrow> bool \<Rightarrow> 'w \<Rightarrow> (bool \<times> 'w) option" where
  "take_messages M processed w =
     (case ms_peek M w of (there, w) \<Rightarrow>
        if there then take_messages M True (ms_dispatch M w) else Some (processed, w))"

definition wait_millis :: "duration \<Rightarrow> nat" where
  "wait_millis d = (let ms = d div 10 ^ 6 in if ms < 2 ^ 32 then ms else infinite - 1)"

definition pump_wait :: "'w msg_api \<Rightarrow> duration option \<Rightarrow> bool \<Rightarrow> 'w \<Rightarrow> (pump, 'w) outcome" where
  "pump_wait M timeout wake w =
     (case timeout of
        None \<Rightarrow>
          (case ms_get M w of (code, w) \<Rightarrow>
             if code \<le> 0 then (Inl (Files.Msg ''Win32 message pump exited''), w)
             else (Inr \<lparr>pu_processed = True, pu_woke = False\<rparr>, ms_dispatch M w))
      | Some d \<Rightarrow>
          (case ms_wait M wake (wait_millis d) w of (code, w) \<Rightarrow>
             (Inr \<lparr>pu_processed = False, pu_woke = (code \<noteq> wait_timeout \<and> code = wait_object_0)\<rparr>, w)))"

definition pump_once :: "'w msg_api \<Rightarrow> duration option \<Rightarrow> bool \<Rightarrow> 'w \<Rightarrow> ((pump, 'w) outcome) option" where
  "pump_once M timeout wake w =
     map_option (\<lambda>(processed, w).
        if processed then (Inr \<lparr>pu_processed = True, pu_woke = False\<rparr>, w) else pump_wait M timeout wake w)
       (take_messages M False w)"

section \<open>Building the tray\<close>

text \<open>
  The calls of the toolkit, with the text or the pixels they get; a thread that is created gets its name.
  \<open>ty_icon\<close> returns the icon, \<open>ty_shown\<close> asks for the main window.
\<close>

record ('i, 'w) tray_api =
  ty_reg :: "'w reg_api"
  ty_menu :: "'w \<Rightarrow> (unit, 'w) outcome"
  ty_icon :: "u8 list \<Rightarrow> 'w \<Rightarrow> ('i, 'w) outcome"
  ty_tray :: "string \<Rightarrow> 'i \<Rightarrow> 'w \<Rightarrow> (unit, 'w) outcome"
  ty_thread :: "string \<Rightarrow> 'w \<Rightarrow> (unit, 'w) outcome"
  ty_event :: "string \<Rightarrow> 'w \<Rightarrow> (unit, 'w) outcome"
  ty_shown :: "'w \<Rightarrow> 'w"

definition aumid_key :: reg_key where
  "aumid_key = (HkeyCurrentUser, ''Software'' @ backslash @ ''Classes'' @ backslash @ ''AppUserModelId'' @ backslash @ ''gdut-net'')"

text \<open>A failure is only logged.\<close>

definition register_aumid :: "'w reg_api \<Rightarrow> 'w \<Rightarrow> 'w" where
  "register_aumid R w = snd (reg_set_string R aumid_key None ''GDUT Net'' w)"

fun build_icons :: "('i, 'w) tray_api \<Rightarrow> icon_kind list \<Rightarrow> 'w \<Rightarrow> ('i list, 'w) outcome" where
  "build_icons Y [] w = (Inr [], w)"
| "build_icons Y (k # ks) w =
     then_do (ty_icon Y (icon_rgba (icon_color k)) w) (\<lambda>i w. then_do (build_icons Y ks w) (\<lambda>is w. (Inr (i # is), w)))"

text \<open>From the guard of the single instance to the loop.\<close>

definition build_tray :: "('i, 'w) tray_api \<Rightarrow> bool \<Rightarrow> 'w \<Rightarrow> ('i list, 'w) outcome" where
  "build_tray Y show_gui_at_start w =
     then_do (with_ctx ''Failed to build tray menu'' (ty_menu Y (register_aumid (ty_reg Y) w))) (\<lambda>_ w.
     then_do (with_ctx ''Failed to build tray icons'' (build_icons Y all_icons w)) (\<lambda>icons w.
     then_do (case icon_for icons IcDown of
                None \<Rightarrow> (Inl (Files.Msg ''Failed to pick initial tray icon''), w)
              | Some i \<Rightarrow> with_ctx ''Failed to create tray icon'' (ty_tray Y (tooltip_of (status_line_zh None)) i w)) (\<lambda>_ w.
     then_do (with_ctx ''Failed to start tray command worker'' (ty_thread Y ''gdut-net-tray-commands'' w)) (\<lambda>_ w.
     then_do (with_ctx ''Failed to start tray IPC thread'' (ty_thread Y ''gdut-net-tray-ipc'' w)) (\<lambda>_ w.
     then_do (with_ctx ''Failed to create tray show event'' (ty_event Y show_event_name w)) (\<lambda>_ w.
       (Inr icons, if show_gui_at_start then ty_shown Y w else w)))))))"

section \<open>The worker that sends the commands\<close>

text \<open>Every command has a connection of its own; a failure is only logged.\<close>

definition send_cmd_logged :: "(client_msg \<Rightarrow> u8 list) \<Rightarrow> command \<Rightarrow> wire \<Rightarrow> bool \<times> wire" where
  "send_cmd_logged to_vec c w =
     (case then_do (connect w) (\<lambda>_ w. send_command to_vec c w) of (r, w) \<Rightarrow> (\<not> isl r, w))"

fun send_batch :: "(client_msg \<Rightarrow> u8 list) \<Rightarrow> command list \<Rightarrow> wire \<Rightarrow> wire" where
  "send_batch to_vec [] w = w"
| "send_batch to_vec (c # cs) w = send_batch to_vec cs (snd (send_cmd_logged to_vec c w))"

definition command_worker :: "(client_msg \<Rightarrow> u8 list) \<Rightarrow> command list list \<Rightarrow> wire \<Rightarrow> wire" where
  "command_worker to_vec batches w = fold (send_batch to_vec) batches w"

section \<open>The pump returns, and the tray is complete before it starts\<close>

text \<open>With a finite queue, \<open>Q\<close> its length, and handlers that post nothing, the messages are taken to the last.\<close>

lemma take_messages_returns:
  assumes "\<And>w. fst (ms_peek M w) \<longleftrightarrow> Q w > (0 :: nat)" and "\<And>w. Q w > 0 \<Longrightarrow> Q (snd (ms_peek M w)) < Q w"
    and "\<And>w. \<not> fst (ms_peek M w) \<Longrightarrow> Q (snd (ms_peek M w)) = Q w" and "\<And>w. Q (ms_dispatch M w) \<le> Q w"
  shows "\<exists>w'. take_messages M p w = Some (p \<or> Q w > 0, w') \<and> Q w' = 0"
proof (induction "Q w" arbitrary: p w rule: less_induct)
  case less
  obtain b w1 where b: "ms_peek M w = (b, w1)" by force
  show ?case
  proof (cases b)
    case False
    with assms(1,3) [of w] b show ?thesis by (simp add: take_messages.simps [of M p w])
  next
    case True
    with assms(1,2) [of w] assms(4) [of w1] b have "Q w > 0" "Q (ms_dispatch M w1) < Q w" by auto
    with less [of "ms_dispatch M w1" True] b True show ?thesis by (auto simp: take_messages.simps [of M p w])
  qed
qed

text \<open>A turn that took messages waits for nothing, so a show request is left for the next one; a turn that did not
  tells a show request from a message and from the end of the time.\<close>

lemma pump_turn_is_either:
  assumes "pump_once M (Some d) True w = Some (Inr p, w')"
  shows "\<not> (pu_processed p \<and> pu_woke p)"
  using assms by (auto simp: pump_once_def pump_wait_def split: if_splits prod.splits)

text \<open>The wait has an end for every limit but one.\<close>

lemma wait_is_finite: "wait_millis d = infinite \<longleftrightarrow> d div 10 ^ 6 = infinite"
  by (simp add: wait_millis_def infinite_def Let_def)

text \<open>The loop starts only with an icon for every state, and with the first one of these shown.\<close>

lemma build_icons_length: "build_icons Y ks w = (Inr is, w') \<Longrightarrow> length is = length ks"
  by (induction Y ks w arbitrary: "is" w' rule: build_icons.induct) (auto simp: then_do_Inr)

lemma built_tray_has_icons:
  assumes "build_tray Y s w = (Inr icons, w')"
  shows "icon_for icons k \<noteq> None"
proof -
  from assms have "length icons = length all_icons"
    unfolding build_tray_def by (auto simp: then_do_Inr dest!: build_icons_length)
  then show ?thesis by (cases k) (simp_all add: icon_for_def all_icons_def)
qed

end
