(* ===== verification/Programs.thy ===== *)
theory Programs
  imports Packaging Service_Entry Tray_Pump Wireless_Test
begin

text \<open>
  The programs: what \<open>gdut-net\<close> does with its command line (\<open>src/src/cli.rs\<close>) and the packer
  (\<open>src/src/bin/gdut-net-pack.rs\<close>). The parser of the command line is a library and is an argument; it gives the
  command or ends the process.
\<close>

section \<open>The command line of the client\<close>

datatype wireless_action = WaTest | WaOff | WaStandby

datatype cli_cmd = CcRun | CcInstall bool | CcUninstall bool | CcStatus | CcTray | CcWireless wireless_action

record cli =
  cl_config :: string
  cl_password_stdin :: bool
  cl_cmd :: cli_cmd

text \<open>What is run: the configuration, the password from the standard input and the kept password of an installation.\<close>

datatype cli_run = RunDoubleClick | RunService | RunInstall string bool bool | RunUninstall string bool | RunStatus | RunTray
  | RunWirelessTest string | RunSetMode net_mode

definition cli_logs :: "cli_cmd \<Rightarrow> bool" where
  "cli_logs c \<longleftrightarrow> c \<noteq> CcRun \<and> c \<noteq> CcTray"

definition cli_run_of :: "cli \<Rightarrow> cli_run" where
  "cli_run_of c =
     (case cl_cmd c of
        CcRun \<Rightarrow> RunService
      | CcInstall keep_password \<Rightarrow> RunInstall (cl_config c) (cl_password_stdin c) keep_password
      | CcUninstall purge \<Rightarrow> RunUninstall (cl_config c) purge
      | CcStatus \<Rightarrow> RunStatus
      | CcTray \<Rightarrow> RunTray
      | CcWireless WaTest \<Rightarrow> RunWirelessTest (cl_config c)
      | CcWireless WaOff \<Rightarrow> RunSetMode WiredExclusive
      | CcWireless WaStandby \<Rightarrow> RunSetMode WiredPlusStandby)"

text \<open>
  \<open>args\<close> has the program itself first; \<open>Inl\<close> is the end of the process by the parser. The second value says whether
  the log of a command goes to the standard error.
\<close>

definition dispatch_cli :: "(string list \<Rightarrow> 'e + cli) \<Rightarrow> nat \<Rightarrow> string list \<Rightarrow> 'e + (cli_run \<times> bool)" where
  "dispatch_cli parse console args =
     (if length args = 1 \<and> \<not> has_console console then Inr (RunDoubleClick, False)
      else (case parse args of
              Inl e \<Rightarrow> Inl e
            | Inr c \<Rightarrow> Inr (cli_run_of c, cli_logs (cl_cmd c))))"

definition status_command :: "(u8 list \<Rightarrow> server_msg option) \<Rightarrow> u64 \<Rightarrow> wire \<Rightarrow> (string list, wire) outcome" where
  "status_command parse now w =
     then_do (status_snapshot parse w) (\<lambda>s w. (Inr (print_status now s), w))"

definition wireless_set_mode ::
  "(client_msg \<Rightarrow> u8 list) \<Rightarrow> (u8 list \<Rightarrow> server_msg option) \<Rightarrow> net_mode \<Rightarrow> wire \<Rightarrow> (string, wire) outcome" where
  "wireless_set_mode to_vec parse mode w =
     then_do (set_mode_confirmed to_vec parse mode w) (\<lambda>s w. (Inr (''Mode set: '' @ mode_en (sn_mode s)), w))"

section \<open>The packer\<close>

record pack_args =
  pk_setup :: "fpath option"
  pk_payload_dir :: "fpath option"
  pk_extras :: "fpath list"
  pk_out :: "fpath option"

definition pack_args_new :: pack_args where
  "pack_args_new = \<lparr>pk_setup = None, pk_payload_dir = None, pk_extras = [], pk_out = None\<rparr>"

text \<open>The value of a flag is the next argument, whatever it is; a flag at the end has none.\<close>

definition next_value :: "string list \<Rightarrow> fpath option" where
  "next_value as = (case as of [] \<Rightarrow> None | v # _ \<Rightarrow> Some (path_of v))"

function read_pack_args :: "string list \<Rightarrow> pack_args \<Rightarrow> err + pack_args" where
  "read_pack_args [] p = Inr p"
| "read_pack_args (a # as) p =
     (if a = ''--setup'' then read_pack_args (drop 1 as) (p\<lparr>pk_setup := next_value as\<rparr>)
      else if a = ''--payload-dir'' then read_pack_args (drop 1 as) (p\<lparr>pk_payload_dir := next_value as\<rparr>)
      else if a = ''--file'' then
        (case next_value as of
           None \<Rightarrow> Inl (Files.Msg ''--file needs a value'')
         | Some f \<Rightarrow> read_pack_args (drop 1 as) (p\<lparr>pk_extras := pk_extras p @ [f]\<rparr>))
      else if a = ''--out'' then read_pack_args (drop 1 as) (p\<lparr>pk_out := next_value as\<rparr>)
      else Inl (Files.Msg (''unknown argument '' @ a)))"
  by pat_completeness auto
termination by (relation "measure (length \<circ> fst)") auto

definition required :: "string \<Rightarrow> 'a option \<Rightarrow> err + 'a" where
  "required flag v = (case v of Some x \<Rightarrow> Inr x | None \<Rightarrow> Inl (Files.Msg (flag @ '' is required'')))"

text \<open>The number of extra files is what the last line prints beside the two paths.\<close>

definition pack_main :: "sha \<Rightarrow> (fpath \<Rightarrow> disk \<Rightarrow> fpath list) \<Rightarrow> string list \<Rightarrow> disk \<Rightarrow> (fpath \<times> nat \<times> fpath, disk) outcome" where
  "pack_main H ls args d =
     then_do (read_pack_args (drop 1 args) pack_args_new, d) (\<lambda>p d.
     then_do (required ''--setup'' (pk_setup p), d) (\<lambda>setup d.
     then_do (required ''--payload-dir'' (pk_payload_dir p), d) (\<lambda>dir d.
     then_do (required ''--out'' (pk_out p), d) (\<lambda>out d.
     then_do (pack_into_file H ls setup (pk_extras p) dir out d) (\<lambda>_ d.
       (Inr (setup, length (pk_extras p), out), d))))))"

section \<open>Command lines are read as they are written\<close>

definition pack_line :: "string \<Rightarrow> string \<Rightarrow> string list \<Rightarrow> string \<Rightarrow> string list" where
  "pack_line setup dir extras out =
     [''--setup'', setup, ''--payload-dir'', dir] @ concat (map (\<lambda>f. [''--file'', f]) extras) @ [''--out'', out]"

lemma read_pack_extras:
  "read_pack_args (concat (map (\<lambda>f. [''--file'', f]) extras) @ rest) p
     = read_pack_args rest (p\<lparr>pk_extras := pk_extras p @ map path_of extras\<rparr>)"
  by (induction extras arbitrary: p) (simp_all add: next_value_def)

lemma pack_line_read:
  "read_pack_args (pack_line setup dir extras out) pack_args_new
     = Inr \<lparr>pk_setup = Some (path_of setup), pk_payload_dir = Some (path_of dir), pk_extras = map path_of extras, pk_out = Some (path_of out)\<rparr>"
  by (simp add: pack_line_def next_value_def read_pack_extras pack_args_new_def)

text \<open>A packer that is told where everything is does nothing but the packing.\<close>

lemma pack_main_packs:
  "snd (pack_main H ls (prog # pack_line setup dir extras out) d)
     = snd (pack_into_file H ls (path_of setup) (map path_of extras) (path_of dir) (path_of out) d)"
proof -
  obtain r d1 where "pack_into_file H ls (path_of setup) (map path_of extras) (path_of dir) (path_of out) d = (r, d1)" by force
  then show ?thesis by (cases r) (simp_all add: pack_main_def pack_line_read required_def)
qed

text \<open>Nothing is written when a flag is missing or unknown.\<close>

lemma pack_main_refuses:
  assumes "\<nexists>p. read_pack_args (drop 1 args) pack_args_new = Inr p \<and> pk_setup p \<noteq> None \<and> pk_payload_dir p \<noteq> None \<and> pk_out p \<noteq> None"
  shows "isl (fst (pack_main H ls args d)) \<and> snd (pack_main H ls args d) = d"
proof (cases "read_pack_args (drop 1 args) pack_args_new")
  case (Inr p)
  with assms show ?thesis
    by (cases "pk_setup p"; cases "pk_payload_dir p"; cases "pk_out p") (auto simp: pack_main_def required_def)
qed (simp add: pack_main_def)

text \<open>Only a start without arguments and without a console is a double click; every command runs what it names.\<close>

lemma dispatch_total:
  "dispatch_cli parse console args = Inr (RunDoubleClick, b) \<longleftrightarrow> length args = 1 \<and> console = 0 \<and> \<not> b"
  by (auto simp: dispatch_cli_def has_console_def cli_run_of_def split: sum.splits cli_cmd.splits wireless_action.splits)

end
