(* ===== verification/Spec2Isabelle.thy ===== *)
theory Spec2Isabelle
  imports Prelude Codec Protocol Mailbox Retry_Backoff Http Probe Config Watchdog Brain Egress Routes Portal Notification Supervisor Supervisor_Inv Supervisor_Props Supervisor_Life Ras Dialer Adapter Worker Shell Service Service_Props Heartbeat Heartbeat_Session Payload Files File_Backup Packaging Registry Crypto Service_Control Install Install_Props Shell_Integration Uninstall Transaction Transaction_Props Ipc Status Tray Setup_Args Setup_Work Setup_Ui Setup_Ui_Props Gui Http_Get Logging Service_Entry Wireless_Test Probe_Icmp Pipe_Listen Tray_Pump Programs
begin

text \<open>
  gdut-net is a Windows service that keeps a campus network up: it dials a PPPoE session, probes it,
  redials it, takes over by WLAN when the wired side is down, and sends the heartbeat of the
  campus protocol. A tray program and a command line talk to it over a named pipe, and an installer
  puts it on the machine and removes it. This development models the Rust code under
  \<open>src/src/\<close> and proves what makes it correct.

  \<^bold>\<open>How the code is represented.\<close>
  A struct is a \<open>record\<close>, an enum a \<open>datatype\<close>, an unsigned integer of width \<open>w\<close> a \<open>w word\<close> (\<open>u8\<close>,
  \<open>u16\<close>, \<open>u32\<close>, \<open>u64\<close>), a \<open>Duration\<close> a number of nanoseconds, a \<open>str\<close> or a \<open>String\<close> the list of its
  UTF-8 bytes (\<open>string\<close>), a byte buffer a \<open>u8 list\<close>, and \<open>Result\<close> a sum with the error on the left. A
  method is a function that also returns the changed object. What is not in the repository, the calls into Windows, RAS,
  sockets, the clock, DPAPI, the digests, and the JSON and TOML codecs, is a record of functions over a world of
  any type, and what is known of it is a predicate with \<open>laws\<close> in its name; every use has an instance
  on which the laws hold. Theories follow the order of the dependencies: \<open>Prelude\<close> holds the types, the string and byte
  helpers and the generic lemmas; \<open>Codec\<close> the interface of encodings that can be read again, with its providers in
  \<open>Brain\<close>, \<open>Portal\<close>, \<open>Crypto\<close> and \<open>Setup_Args\<close>; \<open>Files\<close> the disk, its faults and the error monad (\<open>outcome\<close>, \<open>then_do\<close>).

  \<^bold>\<open>The service\<close> (\<open>supervisor.rs\<close>, \<open>runtime.rs\<close>, \<open>watchdog.rs\<close>).
  The core is a reducer: \<open>Supervisor.on\<close> maps a state and an event to a state, effects, a
  snapshot and a wake-up time. \<open>Notification\<close> has the effects and the ledger of toasts, \<open>Supervisor_Inv\<close> the invariants of
  its runs, \<open>Supervisor_Props\<close> and \<open>Supervisor_Life\<close> what it asks for, in which order, and
  how it lives and ends. \<open>Watchdog\<close> is \<open>run_once\<close> of the wired session with \<open>Retry_Backoff\<close> (\<open>backoff.rs\<close>) over the
  traits \<open>Dialer\<close> and \<open>Prober\<close>; the contract of a dialer is the locale \<open>dialer_contract\<close>, which
  \<open>Dialer\<close> (\<open>RealDialer\<close>, on the RAS calls of \<open>Ras\<close>) fulfils. \<open>Probe\<close> and \<open>Http\<close> are the two-level probe and the
  response parser, \<open>Probe_Icmp\<close> and \<open>Http_Get\<close> the observations and the two HTTP clients under them, \<open>Adapter\<close> the choice of
  the network adapter. \<open>Shell\<close> executes effects and
  drains the event queue; \<open>Service\<close> is the main loop and its refinement of the core; \<open>Service_Props\<close> has the
  properties of the whole service. \<open>Service_Entry\<close> is the process around it: its entry, its reports to the service
  manager, the task of the heartbeat, and the commands \<open>install\<close> and \<open>uninstall\<close>; \<open>Logging\<close> its log files and their mirror
  in the event log.

  \<^bold>\<open>WLAN takeover\<close> (\<open>wireless/\<close>).
  \<open>Brain\<close> decides from samples, \<open>Egress\<close> is the ledger of routes and of the metric over the locales \<open>egress_adapter\<close> and
  \<open>egress_stable\<close>, \<open>Routes\<close> the Windows adapter of it (\<open>RouteGuard\<close>, interpreted for these locales), \<open>Portal\<close> the login with
  its billing gate, and \<open>Worker\<close> the task of \<open>runtime.rs\<close> that executes the effects of the wireless
  lane, including its end. \<open>Wireless_Test\<close> has the WLAN control (\<open>wlan.rs\<close>) and the command \<open>wireless test\<close>.

  \<^bold>\<open>Heartbeat\<close> (\<open>heartbeat/\<close>). \<open>Heartbeat\<close> has the packets, \<open>Heartbeat_Session\<close> the session over UDP.

  \<^bold>\<open>Clients\<close> (\<open>ipc/\<close>, \<open>status.rs\<close>, \<open>tray/\<close>, \<open>fonts.rs\<close>, \<open>cli.rs\<close>).
  \<open>Protocol\<close> has the messages, the frames and the event ring, \<open>Ipc\<close> both ends of the pipe, \<open>Pipe_Listen\<close> its creation,
  \<open>Mailbox\<close> the commands of the user interface as a step relation, \<open>Status\<close> the words, \<open>Tray\<close> the logic of the tray,
  \<open>Tray_Pump\<close> its building and its message pump, \<open>Gui\<close> the main window: the life of its one thread as a step relation, and
  what a frame shows and does. \<open>Programs\<close> has what the command line runs, and the program of the packer.

  \<^bold>\<open>Configuration and installation\<close> (\<open>config.rs\<close>, \<open>service.rs\<close>, \<open>crypto.rs\<close>, \<open>shell.rs\<close>, \<open>setup/\<close>, \<open>payload.rs\<close>,
  \<open>packaging.rs\<close>). \<open>Config\<close> validates; \<open>Crypto\<close> protects the password; \<open>Payload\<close> and \<open>Packaging\<close> are the container behind the
  installer; \<open>File_Backup\<close> replaces, captures and restores files on a disk where any operation may
  fail; \<open>Registry\<close> does this for registry values; \<open>Service_Control\<close> has the service manager; \<open>Install\<close> is
  \<open>install_core\<close> with its backup and rollback on a machine (a disk and the rest), \<open>Shell_Integration\<close> the Start Menu and the
  uninstall entry, \<open>Uninstall\<close> the removal, \<open>Transaction\<close> the installer's transaction, \<open>Setup_Args\<close> and
  \<open>Setup_Work\<close> its arguments, silent mode and other work, and \<open>Setup_Ui\<close> its window: the pages, what the user does in a frame, and the
  events of the worker thread, with the runs of window and thread together. Properties about these are in the theories
  themselves, or in \<open>Install_Props\<close>, \<open>Transaction_Props\<close> and \<open>Setup_Ui_Props\<close>.

  \<^bold>\<open>What the lemmas show.\<close>
  Invariants (\<open>wd_inv\<close>, \<open>brain_inv\<close>, \<open>ledger_inv\<close>, \<open>decoder_inv\<close>, \<open>mb_inv\<close>, \<open>ui_honest\<close>, \<open>wz_inv\<close>, \<open>win_inv\<close>, the routes that exist) are kept by every
  operation and hold in every reachable state. Views (\<open>queries_keep\<close>, \<open>commands_keep\<close>, \<open>leaves_alone\<close>, \<open>writes_keep\<close>) say
  which calls leave files, registry or service alone; with them the backup lemmas give what an installation that failed
  leaves behind. The composed results are the refinement of the core by the service, the stop that
  leaves no session and no route, the pipe that carries snapshots and commands faithfully, the installer
  that undoes what it began and says so truthfully, in its silent mode and in its window, the window that starts only the
  work the user asked for, and the HTTP request that ends within its time. What was exchanged is an inductive predicate over
  the list of it: \<open>hb_log\<close> for the packets of the heartbeat, \<open>socket_reads\<close> for the reads behind a response.

  \<^bold>\<open>Bounds and fuel.\<close>
  Loops are structural or have a measure where the code bounds them. Where only the clock does, the number of rounds is an argument that
  is shown to be enough: 202 rounds for the child process of \<open>set_ppp_dns_none\<close> (five seconds in steps of 25 ms); for the
  sleeps of the heartbeat one more than the tenths of a second of the interval, at least 31; \<open>poll_rounds\<close>
  (the limit over 250 ms, plus two) for \<open>stop_service\<close> and 22 for \<open>wait_stopped\<close>, \<open>dial_rounds\<close> (33) for the wait of
  \<open>spawn_start_service\<close>, \<open>ip_rounds\<close> (12) for the wait for an address of the test command; a turn of the main loop handles at most five events per input, two at the start.
  The reads of a pipe are a finite script, and the statements hold for every script. The loops of an HTTP request are
  bounded by the bytes that are left to write or to read. The message pump, which may go on as long as handlers post
  messages, is a partial function, and is shown to return when they post none.

  \<^bold>\<open>Not modelled, and why.\<close>
  Of the two windows, the sizes, the style, the layout, the animation of the stamp and, in the installer, the Chinese
  texts, for which a constructor stands. \<open>notify.rs\<close> is one call into a library. The parser of the command line is
  \<open>clap\<close>'s, the service dispatcher that of a library; they, the toolkit, the logging library and the calls into Windows are
  parameters. The creation of runtimes and channels is glue. \<open>examples/performance_sim.rs\<close> is a measurement and no part of
  the programs. That a process is killed is modelled for the replacement of a file only (\<open>stopped_at\<close>). Concurrency appears as
  the order of inputs: the main loop, the worker, the mailbox and a pipe connection take arbitrary sequences of what
  \<open>select!\<close> or a lock may let through.
\<close>

end
